(* ===== verification/Prelude.thy ===== *)
theory Prelude
  imports Main
begin

text \<open>
  Shared ground of the development.

  \<^item> Time and machine integers: a Go \<open>time.Time\<close> is its number of nanoseconds since the
    Unix epoch, a \<open>time.Duration\<close> a number of nanoseconds (both \<open>int\<close>); \<open>int64\<close> values
    are \<open>int\<close> with the range check or the wrap-around written where the code depends on it.
  \<^item> Strings: the functions of Go's \<open>strings\<close> and \<open>strconv\<close> packages that the sources use,
    on byte strings.
  \<^item> Errors: a Go error is the list of the sentinels it wraps, so \<open>errors.Is\<close> is membership.
  \<^item> Operations: a fallible, state-changing operation is a function from a state to a result
    and a new state, with the combinators that Go's \<open>if err != nil\<close> idiom amounts to, and the
    contract that a relation between old and new state is respected.
  \<^item> Tables: the SQL statements the repositories issue, on lists of rows.
\<close>

section \<open>Proof hint collections\<close>

named_theorems str_simps \<open>evaluation of the string functions\<close>
named_theorems tab_simps \<open>evaluation of the table statements\<close>
named_theorems op_simps \<open>unfolding of the operation combinators\<close>
named_theorems contract_intros \<open>the combinators respect a contract\<close>

section \<open>Time and machine integers\<close>

type_synonym time = int
type_synonym duration = int
type_synonym uint = nat
type_synonym cents = int

definition nanosecond :: duration where "nanosecond = 1"
definition second :: duration where "second = 1000000000"
definition minute :: duration where "minute = 60 * second"
definition hour :: duration where "hour = 60 * minute"
definition day :: duration where "day = 24 * hour"

lemmas duration_defs = second_def minute_def hour_def day_def nanosecond_def

text \<open>\<open>t.AddDate(0, 0, n)\<close> on a UTC time, and \<open>t.Truncate(time.Minute)\<close>.\<close>

definition add_days :: "time \<Rightarrow> int \<Rightarrow> time" where
  "add_days t n = t + n * day"

definition truncate_minute :: "time \<Rightarrow> time" where
  "truncate_minute t = t - t mod minute"

lemma truncate_minute_le: "truncate_minute t \<le> t"
  by (simp add: truncate_minute_def minute_def second_def)

lemma truncate_minute_gt: "t - minute < truncate_minute t"
  by (simp add: truncate_minute_def minute_def second_def)

definition max_int64 :: int where "max_int64 = 9223372036854775807"

definition wrap64 :: "int \<Rightarrow> int" where
  "wrap64 x = (x + 9223372036854775808) mod 18446744073709551616 - 9223372036854775808"

lemma wrap64_id: "- 9223372036854775808 \<le> x \<Longrightarrow> x \<le> max_int64 \<Longrightarrow> wrap64 x = x"
  by (simp add: wrap64_def max_int64_def)

lemma wrap64_over:
  assumes "max_int64 < x" and "x \<le> max_int64 + 18446744073709551616"
  shows "wrap64 x = x - 18446744073709551616"
proof -
  have "(x + 9223372036854775808) mod 18446744073709551616
          = (x + 9223372036854775808 - 18446744073709551616) mod 18446744073709551616"
    by (rule minus_mod_self2 [symmetric])
  also have "\<dots> = x + 9223372036854775808 - 18446744073709551616"
    using assms by (intro mod_pos_pos_trivial) (simp_all add: max_int64_def)
  finally show ?thesis
    by (simp add: wrap64_def)
qed

lemma wrap64_range: "- 9223372036854775808 \<le> wrap64 x \<and> wrap64 x \<le> max_int64"
proof -
  have "0 \<le> (x + 9223372036854775808) mod 18446744073709551616"
    and "(x + 9223372036854775808) mod 18446744073709551616 < 18446744073709551616"
    by simp_all
  then show ?thesis by (simp add: wrap64_def max_int64_def)
qed

section \<open>Strings\<close>

definition is_digit :: "char \<Rightarrow> bool" where
  "is_digit c \<longleftrightarrow> c \<in> set ''0123456789''"

definition digit_char :: "nat \<Rightarrow> char" where
  "digit_char n = ''0123456789'' ! n"

definition digit_val :: "char \<Rightarrow> nat" where
  "digit_val c = of_char c - 48"

lemma less_10_cases: "(n::nat) < 10 \<Longrightarrow> n \<in> {0, 1, 2, 3, 4, 5, 6, 7, 8, 9}"
  by auto

lemma is_digit_digit_char: "n < 10 \<Longrightarrow> is_digit (digit_char n)"
  by (drule less_10_cases) (auto simp: is_digit_def digit_char_def)

lemma digit_val_digit_char: "n < 10 \<Longrightarrow> digit_val (digit_char n) = n"
  by (drule less_10_cases) (auto simp: digit_val_def digit_char_def)

lemma digit_val_less: "is_digit c \<Longrightarrow> digit_val c < 10"
  by (auto simp: is_digit_def digit_val_def)

definition is_space :: "char \<Rightarrow> bool" where
  "is_space c \<longleftrightarrow> c \<in> set [CHR '' '', CHR 0x09, CHR 0x0A, CHR 0x0B, CHR 0x0C, CHR 0x0D]"

lemma is_digit_not_space: "is_digit c \<Longrightarrow> \<not> is_space c"
  by (auto simp: is_digit_def is_space_def)

text \<open>\<open>strings.TrimSpace\<close>, \<open>strings.TrimRight\<close> with a one-character cutset,
  \<open>strings.Split\<close> with a one-character separator, \<open>strings.HasPrefix\<close>,
  \<open>strings.ContainsAny\<close>, \<open>strings.Contains\<close>, \<open>strings.ToLower\<close> on ASCII.\<close>

definition trim_space :: "string \<Rightarrow> string" where
  "trim_space s = rev (dropWhile is_space (rev (dropWhile is_space s)))"

definition trim_right :: "string \<Rightarrow> char \<Rightarrow> string" where
  "trim_right s c = rev (dropWhile (\<lambda>x. x = c) (rev s))"

fun split_on :: "char \<Rightarrow> string \<Rightarrow> string list" where
  "split_on sep [] = [[]]"
| "split_on sep (c # cs) =
     (if c = sep then [] # split_on sep cs
      else (case split_on sep cs of [] \<Rightarrow> [[c]] | p # ps \<Rightarrow> (c # p) # ps))"

fun has_prefix :: "string \<Rightarrow> string \<Rightarrow> bool" where
  "has_prefix s [] = True"
| "has_prefix [] (p # ps) = False"
| "has_prefix (c # cs) (p # ps) = (c = p \<and> has_prefix cs ps)"

definition contains_any :: "string \<Rightarrow> string \<Rightarrow> bool" where
  "contains_any s chars \<longleftrightarrow> list_ex (\<lambda>c. c \<in> set chars) s"

fun str_contains :: "string \<Rightarrow> string \<Rightarrow> bool" where
  "str_contains [] sub = (sub = [])"
| "str_contains (c # cs) sub = (has_prefix (c # cs) sub \<or> str_contains cs sub)"

definition ascii_upper :: string where "ascii_upper = ''ABCDEFGHIJKLMNOPQRSTUVWXYZ''"
definition ascii_lower :: string where "ascii_lower = ''abcdefghijklmnopqrstuvwxyz''"

definition char_lower :: "char \<Rightarrow> char" where
  "char_lower c = (case map_of (zip ascii_upper ascii_lower) c of None \<Rightarrow> c | Some d \<Rightarrow> d)"

definition char_upper :: "char \<Rightarrow> char" where
  "char_upper c = (case map_of (zip ascii_lower ascii_upper) c of None \<Rightarrow> c | Some d \<Rightarrow> d)"

definition to_lower :: "string \<Rightarrow> string" where "to_lower s = map char_lower s"
definition to_upper :: "string \<Rightarrow> string" where "to_upper s = map char_upper s"

lemma dropWhile_no_space:
  "\<forall>c \<in> set s. \<not> is_space c \<Longrightarrow> dropWhile is_space s = s"
  by (cases s) auto

lemma trim_space_no_space [str_simps]:
  "\<forall>c \<in> set s. \<not> is_space c \<Longrightarrow> trim_space s = s"
  by (simp add: trim_space_def dropWhile_no_space)

lemma split_on_absent: "sep \<notin> set s \<Longrightarrow> split_on sep s = [s]"
  by (induction s) auto

lemma split_on_once:
  "sep \<notin> set a \<Longrightarrow> sep \<notin> set b \<Longrightarrow> split_on sep (a @ sep # b) = [a, b]"
  by (induction a) (auto simp: split_on_absent)

lemma split_on_nonempty: "split_on sep s \<noteq> []"
  by (induction s) (auto split: list.splits)

section \<open>Decimal numbers\<close>

text \<open>\<open>strconv.FormatUint(n, 10)\<close>, i.e. \<open>fmt.Sprintf("%d", n)\<close> of an unsigned value, and the
  digit loop of \<open>strconv.ParseUint\<close>.\<close>

fun utoa :: "nat \<Rightarrow> string" where
  "utoa n = (if n < 10 then [digit_char n] else utoa (n div 10) @ [digit_char (n mod 10)])"

declare utoa.simps [simp del]

definition itoa :: "int \<Rightarrow> string" where
  "itoa i = (if i < 0 then CHR ''-'' # utoa (nat (- i)) else utoa (nat i))"

definition digits_value :: "string \<Rightarrow> nat" where
  "digits_value s = foldl (\<lambda>acc c. 10 * acc + digit_val c) 0 s"

definition all_digits :: "string \<Rightarrow> bool" where
  "all_digits s = list_all is_digit s"

text \<open>\<open>strconv.ParseUint(s, 10, 64)\<close> and \<open>strconv.ParseInt(s, 10, 64)\<close>: \<open>None\<close> is the error.
  \<open>ParseInt\<close> accepts one leading sign.\<close>

definition parse_uint64 :: "string \<Rightarrow> nat option" where
  "parse_uint64 s =
     (if s = [] \<or> \<not> all_digits s then None
      else if 18446744073709551615 < digits_value s then None
      else Some (digits_value s))"

definition parse_int64 :: "string \<Rightarrow> int option" where
  "parse_int64 s =
     (let neg = (case s of [] \<Rightarrow> False | c # _ \<Rightarrow> c = CHR ''-'');
          body = (case s of [] \<Rightarrow> [] | c # cs \<Rightarrow> if c = CHR ''-'' \<or> c = CHR ''+'' then cs else s)
      in (case parse_uint64 body of
            None \<Rightarrow> None
          | Some u \<Rightarrow>
              if \<not> neg \<and> 9223372036854775808 \<le> u then None
              else if neg \<and> 9223372036854775808 < u then None
              else Some (if neg then - int u else int u)))"

text \<open>Evaluation on binary numbers.\<close>

definition digits_int :: "string \<Rightarrow> int" where
  "digits_int s = foldl (\<lambda>acc c. 10 * acc + int (digit_val c)) 0 s"

lemma digits_int_value: "digits_int s = int (digits_value s)"
proof -
  have "foldl (\<lambda>acc c. 10 * acc + int (digit_val c)) (int a) s = int (foldl (\<lambda>acc c. 10 * acc + digit_val c) a s)" for a
  proof (induction s arbitrary: a)
    case (Cons c s)
    then show ?case
      using Cons.IH [of "10 * a + digit_val c"] by simp
  qed simp
  from this [of 0] show ?thesis
    by (simp add: digits_int_def digits_value_def)
qed

lemma parse_uint64_code [code]:
  "parse_uint64 s =
     (if s = [] \<or> \<not> all_digits s then None
      else if 18446744073709551615 < digits_int s then None
      else Some (nat (digits_int s)))"
  by (auto simp: parse_uint64_def digits_int_value)

lemma parse_int64_code [code]:
  "parse_int64 s =
     (let neg = (case s of [] \<Rightarrow> False | c # _ \<Rightarrow> c = CHR ''-'');
          body = (case s of [] \<Rightarrow> [] | c # cs \<Rightarrow> if c = CHR ''-'' \<or> c = CHR ''+'' then cs else s);
          v = digits_int body
      in (if body = [] \<or> \<not> all_digits body then None
          else if \<not> neg \<and> 9223372036854775808 \<le> v then None
          else if neg \<and> 9223372036854775808 < v then None
          else Some (if neg then - v else v)))"
  by (auto simp: parse_int64_def parse_uint64_def Let_def digits_int_value)

lemma foldl_digits_shift:
  "foldl (\<lambda>acc c. 10 * acc + digit_val c) a s
     = a * 10 ^ length s + foldl (\<lambda>acc c. 10 * acc + digit_val c) 0 s"
proof (induction s arbitrary: a)
  case Nil
  show ?case by simp
next
  case (Cons c s)
  have "foldl (\<lambda>acc c. 10 * acc + digit_val c) a (c # s)
          = (10 * a + digit_val c) * 10 ^ length s
            + foldl (\<lambda>acc c. 10 * acc + digit_val c) 0 s"
    using Cons.IH [of "10 * a + digit_val c"] by simp
  moreover have "foldl (\<lambda>acc c. 10 * acc + digit_val c) 0 (c # s)
          = digit_val c * 10 ^ length s + foldl (\<lambda>acc c. 10 * acc + digit_val c) 0 s"
    using Cons.IH [of "digit_val c"] by simp
  ultimately show ?case
    by (simp add: distrib_right)
qed

lemma digits_value_append:
  "digits_value (a @ b) = digits_value a * 10 ^ length b + digits_value b"
  using foldl_digits_shift [of "digits_value a" b] by (simp add: digits_value_def)

lemma digits_value_Nil [simp]: "digits_value [] = 0"
  by (simp add: digits_value_def)

lemma digits_value_single [simp]: "digits_value [c] = digit_val c"
  by (simp add: digits_value_def)

lemma digits_value_Cons: "digits_value (c # s) = digit_val c * 10 ^ length s + digits_value s"
  using digits_value_append [of "[c]" s] by simp

lemma digits_value_bound: "all_digits s \<Longrightarrow> digits_value s < 10 ^ length s"
proof (induction s)
  case Nil
  show ?case by simp
next
  case (Cons c s)
  then have "digit_val c < 10" and "digits_value s < 10 ^ length s"
    by (auto simp: all_digits_def digit_val_less)
  then have "(digit_val c + 1) * 10 ^ length s \<le> 10 * 10 ^ length s"
    by (intro mult_right_mono) auto
  then have "digit_val c * 10 ^ length s + 10 ^ length s \<le> 10 ^ length (c # s)"
    by (simp add: distrib_right)
  moreover have "digits_value (c # s) = digit_val c * 10 ^ length s + digits_value s"
    by (rule digits_value_Cons)
  ultimately show ?case
    using \<open>digits_value s < 10 ^ length s\<close> by linarith
qed

lemma utoa_nonempty [simp]: "utoa n \<noteq> []"
  by (subst utoa.simps) simp

lemma utoa_all_digits [simp]: "all_digits (utoa n)"
proof (induction n rule: utoa.induct)
  case (1 n)
  then show ?case
    by (subst utoa.simps) (simp add: all_digits_def is_digit_digit_char)
qed

lemma utoa_value [simp]: "digits_value (utoa n) = n"
proof (induction n rule: utoa.induct)
  case (1 n)
  then show ?case
    by (subst utoa.simps) (simp add: digits_value_append digit_val_digit_char)
qed

lemma utoa_inj: "utoa m = utoa n \<Longrightarrow> m = n"
  by (metis utoa_value)

lemma all_digits_set: "all_digits s \<Longrightarrow> c \<in> set s \<Longrightarrow> is_digit c"
  by (auto simp: all_digits_def list_all_iff)

lemma all_digits_append [simp]: "all_digits (a @ b) = (all_digits a \<and> all_digits b)"
  by (simp add: all_digits_def)

lemma all_digits_no_space: "all_digits s \<Longrightarrow> trim_space s = s"
  by (rule trim_space_no_space) (auto dest: all_digits_set is_digit_not_space)

lemma all_digits_not_in: "all_digits s \<Longrightarrow> \<not> is_digit c \<Longrightarrow> c \<notin> set s"
  by (auto dest: all_digits_set)

lemma parse_uint64_utoa: "n < 18446744073709551616 \<Longrightarrow> parse_uint64 (utoa n) = Some n"
  by (simp add: parse_uint64_def)

lemma all_digits_Cons_sign:
  "all_digits (c # cs) \<Longrightarrow> c \<noteq> CHR ''-'' \<and> c \<noteq> CHR ''+''"
  by (auto simp: all_digits_def is_digit_def)

lemma parse_int64_digits:
  assumes "all_digits s" "s \<noteq> []"
  shows "parse_int64 s = (if int (digits_value s) \<le> max_int64 then Some (int (digits_value s)) else None)"
proof -
  obtain c cs where s: "s = c # cs"
    using assms(2) by (cases s) auto
  then have "c \<noteq> CHR ''-''" "c \<noteq> CHR ''+''"
    using assms(1) all_digits_Cons_sign by auto
  with s assms(1) show ?thesis
    by (auto simp: parse_int64_def parse_uint64_def max_int64_def Let_def)
qed

section \<open>Errors\<close>

text \<open>
  The sentinels of the sources' \<open>errors.New\<close> variables and of the error types they test with
  \<open>errors.Is\<close> or \<open>errors.As\<close>. An error value is the pre-order list of what it wraps;
  \<open>fmt.Errorf("...: %w", err)\<close> keeps the list (the added text carries no decision),
  \<open>fmt.Errorf("%w: ...: %w", s, err)\<close> puts \<open>s\<close> in front, \<open>errors.Join\<close> appends.
\<close>

datatype sentinel =
    ErrorText string
  | CtxCanceled | CtxDeadlineExceeded
  | NetError | DNSError | ErrNon200Response
  | SqliteBusy | SqliteLocked | SqliteUnique | SqliteForeignKey | SqliteCheck | SqliteOther
  | ErrRecordNotFound | ErrInviteNotFound | ErrSubscriptionNotFound | ErrPlanNotFound | ErrOrderNotFound
  | ErrProductNotFound | ErrProductImmutable | ErrSubscriptionNodeNotFound | ErrNodeNotFound
  | ErrTrialAlreadyActivated
  | ErrPaymentDisabled | ErrAmountMismatch | ErrCurrencyMismatch | ErrInvalidPaymentTransition
  | ErrPaymentCreationUncertain | ErrPaymentAlreadyInProgress | ErrPaymentSyncNotReady
  | ErrChargebackAtomicPathNotReady
  | ErrBadRequest | ErrAuth | ErrProvider | ErrTransactionNotFound
  | VpnErrSubscriptionAlreadyExists | VpnErrSubscriptionNotFound
  | ErrClientNotFound | ErrClientAlreadyExists | ErrInboundNotFound | ErrIncompleteFanout
  | ErrNodeUnavailable
  | ErrBroadcastNotFound | ErrBroadcastRecipientStale | ErrBroadcastRecipientNotFound
  | ErrBroadcastIncomplete
  | SubserverErrSubscriptionNotFound | ErrNoSubscriptionItems | ErrNoUsableOutbounds
  | GoPanic string

type_synonym error = "sentinel list"

abbreviation errors_is :: "error \<Rightarrow> sentinel \<Rightarrow> bool" where
  "errors_is e s \<equiv> s \<in> set e"

abbreviation errors_new :: "string \<Rightarrow> error" where
  "errors_new msg \<equiv> [ErrorText msg]"

definition is_ctx_err :: "error \<Rightarrow> bool" where
  "is_ctx_err e \<longleftrightarrow> errors_is e CtxCanceled \<or> errors_is e CtxDeadlineExceeded"

section \<open>Operations\<close>

type_synonym ('s, 'a) op = "'s \<Rightarrow> (error + 'a) \<times> 's"

definition returnE :: "'a \<Rightarrow> ('s, 'a) op" where
  [op_simps]: "returnE x s = (Inr x, s)"

definition failE :: "error \<Rightarrow> ('s, 'a) op" where
  [op_simps]: "failE e s = (Inl e, s)"

text \<open>\<open>x, err := m(); if err != nil { return err }; k(x)\<close>\<close>

definition bindE :: "('s, 'a) op \<Rightarrow> ('a \<Rightarrow> ('s, 'b) op) \<Rightarrow> ('s, 'b) op" where
  [op_simps]: "bindE m k s = (case m s of (Inl e, s') \<Rightarrow> (Inl e, s') | (Inr x, s') \<Rightarrow> k x s')"

text \<open>\<open>x, err := m()\<close> with the error inspected by what follows\<close>

definition tryE :: "('s, 'a) op \<Rightarrow> (error + 'a \<Rightarrow> ('s, 'b) op) \<Rightarrow> ('s, 'b) op" where
  [op_simps]: "tryE m k s = (case m s of (r, s') \<Rightarrow> k r s')"

text \<open>A pure change of the state that cannot fail.\<close>

definition modifyE :: "('s \<Rightarrow> 's) \<Rightarrow> ('s, unit) op" where
  [op_simps]: "modifyE f s = (Inr (), f s)"

text \<open>\<open>for _, x := range xs { err := m(x); if err != nil { return err } }\<close>\<close>

fun for_eachE :: "('a \<Rightarrow> ('s, unit) op) \<Rightarrow> 'a list \<Rightarrow> ('s, unit) op" where
  "for_eachE m [] = returnE ()"
| "for_eachE m (x # xs) = bindE (m x) (\<lambda>_. for_eachE m xs)"

lemma bindE_returnE [simp]: "bindE (returnE x) k = k x"
  by (rule ext) (simp add: op_simps)

lemma bindE_failE [simp]: "bindE (failE e) k = failE e"
  by (rule ext) (simp add: op_simps)

lemma bindE_assoc: "bindE (bindE m k) h = bindE m (\<lambda>x. bindE (k x) h)"
  by (rule ext) (simp add: op_simps split: prod.splits sum.splits)

text \<open>What a successful run went through.\<close>

lemma bindE_ok:
  assumes "bindE m k s = (Inr y, s')"
  obtains x s1 where "m s = (Inr x, s1)" "k x s1 = (Inr y, s')"
  using assms by (auto simp: bindE_def split: prod.splits sum.splits)

lemma tryE_run:
  assumes "tryE m k s = (r, s')"
  obtains q s1 where "m s = (q, s1)" "k q s1 = (r, s')"
  using assms by (auto simp: tryE_def split: prod.splits)

lemma returnE_ok: "returnE x s = (Inr y, s') \<longleftrightarrow> y = x \<and> s' = s"
  by (auto simp: returnE_def)

lemma failE_ok: "\<not> failE e s = (Inr y, s')"
  by (simp add: failE_def)

lemmas plain_ok = returnE_ok failE_ok

subsection \<open>Contracts of operations\<close>

text \<open>
  An operation keeps a relation if, whatever it returns, the state it leaves is related to
  the state it found. Several operations of a component share one contract; the locale
  proves once that the combinators keep it, for any reflexive and transitive relation.
\<close>

definition keeps :: "('s \<Rightarrow> 's \<Rightarrow> bool) \<Rightarrow> ('s, 'a) op \<Rightarrow> bool" where
  "keeps R m \<longleftrightarrow> (\<forall>s. R s (snd (m s)))"

lemma keepsI: "(\<And>s. R s (snd (m s))) \<Longrightarrow> keeps R m"
  by (simp add: keeps_def)

lemma keepsD: "keeps R m \<Longrightarrow> R s (snd (m s))"
  by (simp add: keeps_def)

locale op_contract =
  fixes R :: "'s \<Rightarrow> 's \<Rightarrow> bool"
  assumes R_refl: "R s s"
    and R_trans: "R s t \<Longrightarrow> R t u \<Longrightarrow> R s u"
begin

lemma returnE_keeps: "keeps R (returnE x)"
  by (simp add: keeps_def op_simps R_refl)

lemma failE_keeps: "keeps R (failE e)"
  by (simp add: keeps_def op_simps R_refl)

lemma bindE_keeps:
  assumes "keeps R m" and "\<And>x. keeps R (k x)"
  shows "keeps R (bindE m k)"
proof (rule keepsI)
  fix s
  have 1: "R s (snd (m s))"
    using assms(1) by (rule keepsD)
  obtain r t where m: "m s = (r, t)"
    by (cases "m s")
  show "R s (snd (bindE m k s))"
  proof (cases r)
    case (Inl e)
    with m 1 show ?thesis by (simp add: op_simps)
  next
    case (Inr x)
    have "R t (snd (k x t))"
      using assms(2) by (rule keepsD)
    with m 1 Inr show ?thesis
      by (auto simp: op_simps intro: R_trans)
  qed
qed

lemma tryE_keeps:
  assumes "keeps R m" and "\<And>r. keeps R (k r)"
  shows "keeps R (tryE m k)"
proof (rule keepsI)
  fix s
  obtain r t where m: "m s = (r, t)"
    by (cases "m s")
  then have "R s t"
    using keepsD [OF assms(1), of s] by simp
  moreover have "R t (snd (k r t))"
    using assms(2) by (rule keepsD)
  ultimately show "R s (snd (tryE m k s))"
    using m by (auto simp: op_simps intro: R_trans)
qed

lemma for_eachE_keeps:
  assumes "\<And>x. keeps R (m x)"
  shows "keeps R (for_eachE m xs)"
  by (induction xs) (auto intro: returnE_keeps bindE_keeps assms)

lemma if_keeps:
  "keeps R m \<Longrightarrow> keeps R n \<Longrightarrow> keeps R (if b then m else n)"
  by simp

lemma option_keeps:
  "keeps R m \<Longrightarrow> (\<And>x. keeps R (k x)) \<Longrightarrow>
     keeps R (case z of None \<Rightarrow> m | Some x \<Rightarrow> k x)"
  by (cases z) auto

lemma sum_keeps:
  "(\<And>x. keeps R (h x)) \<Longrightarrow> (\<And>x. keeps R (k x)) \<Longrightarrow>
     keeps R (case z of Inl x \<Rightarrow> h x | Inr x \<Rightarrow> k x)"
  by (cases z) auto

lemma prod_keeps:
  "(\<And>x y. keeps R (k x y)) \<Longrightarrow> keeps R (case z of (x, y) \<Rightarrow> k x y)"
  by (cases z) auto

lemma list_keeps:
  "keeps R m \<Longrightarrow> (\<And>x xs. keeps R (k x xs)) \<Longrightarrow>
     keeps R (case z of [] \<Rightarrow> m | x # xs \<Rightarrow> k x xs)"
  by (cases z) auto

lemma let_keeps: "(\<And>x. keeps R (k x)) \<Longrightarrow> keeps R (let x = z in k x)"
  by simp

lemmas combinators =
  returnE_keeps failE_keeps bindE_keeps tryE_keeps for_eachE_keeps
  if_keeps option_keeps sum_keeps prod_keeps list_keeps let_keeps

end

section \<open>Tables\<close>

text \<open>
  A table is the list of its rows in primary-key order. The statements: \<open>SELECT ... ORDER BY id
  LIMIT 1\<close>, \<open>UPDATE ... WHERE\<close> with its number of affected rows, and \<open>DELETE ... WHERE\<close>.
\<close>

definition select_first :: "('r \<Rightarrow> bool) \<Rightarrow> 'r list \<Rightarrow> 'r option" where
  "select_first P t = find P t"

definition update_where :: "('r \<Rightarrow> bool) \<Rightarrow> ('r \<Rightarrow> 'r) \<Rightarrow> 'r list \<Rightarrow> 'r list" where
  "update_where P f t = map (\<lambda>r. if P r then f r else r) t"

definition delete_where :: "('r \<Rightarrow> bool) \<Rightarrow> 'r list \<Rightarrow> 'r list" where
  "delete_where P t = filter (\<lambda>r. \<not> P r) t"

definition count_where :: "('r \<Rightarrow> bool) \<Rightarrow> 'r list \<Rightarrow> nat" where
  "count_where P t = length (filter P t)"

lemmas table_defs = select_first_def update_where_def delete_where_def count_where_def

lemma select_first_Some: "select_first P t = Some r \<Longrightarrow> r \<in> set t \<and> P r"
  by (auto simp: select_first_def find_Some_iff)

lemma select_first_None: "select_first P t = None \<longleftrightarrow> (\<forall>r \<in> set t. \<not> P r)"
  by (auto simp: select_first_def find_None_iff)

lemma count_where_0: "count_where P t = 0 \<longleftrightarrow> (\<forall>r \<in> set t. \<not> P r)"
  by (simp add: count_where_def filter_empty_conv)

lemma update_where_none: "count_where P t = 0 \<Longrightarrow> update_where P f t = t"
  by (simp add: count_where_0 update_where_def map_idI)

lemma length_update_where [simp]: "length (update_where P f t) = length t"
  by (simp add: update_where_def)

lemma set_update_where:
  "set (update_where P f t) = (\<lambda>r. if P r then f r else r) ` set t"
  by (simp add: update_where_def)

lemma ball_update_where:
  "(\<forall>r \<in> set (update_where P f t). Q r) \<longleftrightarrow> (\<forall>r \<in> set t. Q (if P r then f r else r))"
  by (auto simp: update_where_def)

lemma bex_update_where:
  "(\<exists>r \<in> set (update_where P f t). Q r) \<longleftrightarrow> (\<exists>r \<in> set t. Q (if P r then f r else r))"
  by (auto simp: update_where_def)

lemma count_where_pos: "count_where P t \<noteq> 0 \<longleftrightarrow> (\<exists>r \<in> set t. P r)"
  by (simp add: count_where_0)

lemma map_key_update_where:
  "(\<And>r. P r \<Longrightarrow> key (f r) = key r) \<Longrightarrow> map key (update_where P f t) = map key t"
  by (simp add: update_where_def)

lemma set_delete_where [simp]: "set (delete_where P t) = {r \<in> set t. \<not> P r}"
  by (auto simp: delete_where_def)

lemma update_where_twice:
  "(\<And>r. P (g r) = P r) \<Longrightarrow> update_where P f (update_where P g t) = update_where P (f \<circ> g) t"
  by (simp add: update_where_def)

lemma update_where_cong:
  "(\<And>r. r \<in> set t \<Longrightarrow> P r \<Longrightarrow> f r = g r) \<Longrightarrow> update_where P f t = update_where P g t"
  by (simp add: update_where_def)

text \<open>A row selected by its key is the only row with that key when the keys are distinct.\<close>

lemma distinct_key_eq:
  "distinct (map key t) \<Longrightarrow> r \<in> set t \<Longrightarrow> s \<in> set t \<Longrightarrow> key r = key s \<Longrightarrow> r = s"
  by (induction t) (auto simp: image_iff)

lemma select_first_key:
  assumes "distinct (map key t)" and "r \<in> set t" and "\<And>s. P s \<Longrightarrow> key s = key r" and "P r"
  shows "select_first P t = Some r"
proof (cases "select_first P t")
  case None
  with assms(2,4) show ?thesis by (simp add: select_first_None)
next
  case (Some s)
  then have s: "s \<in> set t" "P s"
    using select_first_Some [of P t s] by simp_all
  have "s = r"
    by (rule distinct_key_eq [OF assms(1) s(1) assms(2) assms(3) [OF s(2)]])
  with Some show ?thesis by simp
qed

end
