(* ===== verification/Model.thy ===== *)
theory Model
  imports Prelude
begin

text \<open>
  The data model: the rows of \<open>internal/database/models.go\<close> as records, their status columns
  as datatypes (the \<open>CHECK\<close> constraints of the migrations close these value sets), the
  database as a record of tables, and the state every operation runs on.

  \<open>world\<close> holds the database, the script of turns the database takes (one per statement: the
  statement runs, fails with a driver error, or another session commits a change just before
  it), and the trace of effects outside the database, in the order they happen. A theorem for
  every world covers every position at which the database may fail and every interleaving, at
  statement granularity, with other sessions.

  \<open>row_clock\<close> is what the driver stamps into the columns that are filled in on insert, the
  \<open>seq\<close> fields are the last primary keys given out. The \<open>updated_at\<close> columns and the GORM
  associations are left out: no decision reads them.
\<close>

section \<open>Rows\<close>

datatype node_type = NodeType3xUI | NodeTypeProxman | NodeTypeFetch | NodeTypeOther string

datatype subscription_status =
  SubscriptionStatusActive | SubscriptionStatusExpired | SubscriptionStatusPaused
| SubscriptionStatusCanceled | SubscriptionStatusRevoked

datatype order_status =
  OrderStatusPending | OrderStatusPaid | OrderStatusExpired | OrderStatusCanceled

datatype sync_status =
  SyncStatusActive | SyncStatusPendingAdd | SyncStatusPendingRemove | SyncStatusPendingUpdate

definition TrialPlanName :: string where "TrialPlanName = ''trial''"
definition FreePlanName :: string where "FreePlanName = ''free''"

record subscription =
  s_id :: uint
  s_telegram_id :: int
  s_username :: string
  s_client_id :: string
  s_subscription_id :: string
  s_expires_at :: "time option"
  s_status :: subscription_status
  s_invite_code :: "string option"
  s_plan_id :: uint
  s_referred_by :: "int option"
  s_product_id :: "uint option"
  s_started_at :: "time option"
  s_price_paid_cents :: cents
  s_currency :: "string option"
  s_devices :: string
  s_ips :: string
  s_last_request :: "time option"
  s_created_at :: time
  s_reminders_sent :: int
  s_traffic_reminders_sent :: int

record node =
  n_id :: uint
  n_name :: string
  n_is_active :: bool
  n_host :: string
  n_subscription_url :: string
  n_type :: node_type

record plan =
  pl_id :: uint
  pl_name :: string
  pl_is_active :: bool
  pl_devices_limit :: int
  pl_traffic_limit :: int

record product =
  pr_id :: uint
  pr_plan_id :: uint
  pr_name :: string
  pr_duration_days :: int
  pr_price_cents :: cents
  pr_currency :: string
  pr_is_active :: bool

record order =
  o_id :: uint
  o_subscription_id :: uint
  o_product_id :: uint
  o_status :: order_status
  o_amount_cents :: cents
  o_callback_amount_cents :: "cents option"
  o_provider_fee_cents :: "cents option"
  o_currency :: string
  o_payment_provider :: string
  o_provider_payment_id :: string
  o_created_at :: time
  o_paid_at :: "time option"
  o_activated_at :: "time option"
  o_expires_at :: "time option"
  o_payment_url :: string
  o_payment_expires_at :: "time option"
  o_payment_creation_uncertain :: bool

record subscription_node =
  sn_subscription_id :: uint
  sn_node_id :: uint
  sn_status :: sync_status
  sn_retry_count :: int
  sn_retry_at :: "time option"
  sn_last_error :: "error option"

record invite =
  i_code :: string
  i_referrer_tg_id :: int
  i_created_at :: time

record trial_request =
  tr_ip :: string
  tr_created_at :: time

datatype broadcast_status =
  BroadcastStatusScheduled | BroadcastStatusRunning | BroadcastStatusCompleted
| BroadcastStatusFailed | BroadcastStatusCanceled

datatype broadcast_recipient_status =
  BroadcastRecipientPending | BroadcastRecipientSending | BroadcastRecipientSent
| BroadcastRecipientBlocked | BroadcastRecipientUnreachable | BroadcastRecipientFailed

text \<open>
  A campaign. Its JSON columns (\<open>filters\<close>, \<open>recipients_state\<close>, \<open>delivery_report\<close>) are kept decoded;
  \<open>None\<close> is a text that does not decode.
\<close>

record broadcast_filter =
  bf_plan_type :: string
  bf_subscription_status :: string
  bf_registered_after :: "time option"
  bf_registered_before :: "time option"
  bf_inactive_days :: "int option"
  bf_ever_paid :: "bool option"

record broadcast_recipient =
  br_id :: uint
  br_telegram_id :: int
  br_status :: broadcast_recipient_status
  br_attempts :: int
  br_last_error :: string
  br_next_chunk :: int
  br_updated_at :: time

record broadcast_recipient_state =
  rs_snapshot :: bool
  rs_recipients :: "broadcast_recipient list"

record broadcast_delivery_report =
  rep_delivered :: "int list"
  rep_blocked :: "int list"
  rep_unreachable :: "int list"
  rep_errors :: "(int \<times> string) list"
  rep_not_processed :: "int list"

record broadcast =
  b_id :: uint
  b_name :: string
  b_filters :: "broadcast_filter option"
  b_message_text :: string
  b_status :: broadcast_status
  b_planned_at :: "time option"
  b_started_at :: "time option"
  b_finished_at :: "time option"
  b_recipients_total :: int
  b_sent_count :: int
  b_blocked_count :: int
  b_failed_count :: int
  b_unreachable_count :: int
  b_delivery_report :: broadcast_delivery_report
  b_last_error :: string
  b_retry_at :: "time option"
  b_retry_count :: int
  b_recipients_state :: "broadcast_recipient_state option"
  b_created_at :: time

text \<open>
  An audit entry; its JSON columns are association lists from keys to values, in the order the
  constructors set the keys (the encoder sorts them). \<open>JTime\<close> is an RFC 3339 text, which keeps
  the seconds. \<open>al_id\<close> and \<open>al_created_at\<close> are filled in by the insert.
\<close>

datatype entity_type = EntitySubscription | EntityOrder | EntityBroadcast | EntitySystem
datatype actor_type = ActorUser | ActorAdmin | ActorWorker | ActorPaymentProvider | ActorSystem

datatype json_value = JNull | JInt int | JStr string | JBool bool | JTime int

type_synonym json_map = "(string \<times> json_value) list"

record audit_log =
  al_id :: uint
  al_entity_type :: entity_type
  al_entity_id :: "string option"
  al_event :: string
  al_actor_type :: actor_type
  al_actor_id :: "string option"
  al_old_state :: "json_map option"
  al_new_state :: "json_map option"
  al_details :: json_map
  al_created_at :: time

section \<open>Order statuses in the order of a payment's life\<close>

text \<open>
  A payment only moves forward: it is requested, may expire, may be paid (also shortly after
  it expired), and a paid one may be charged back. The type class instance makes this order
  available as \<open>\<le>\<close>.
\<close>

fun order_status_rank :: "order_status \<Rightarrow> nat" where
  "order_status_rank OrderStatusPending = 0"
| "order_status_rank OrderStatusExpired = 1"
| "order_status_rank OrderStatusPaid = 2"
| "order_status_rank OrderStatusCanceled = 3"

lemma order_status_rank_inj [simp]: "order_status_rank a = order_status_rank b \<longleftrightarrow> a = b"
  by (cases a; cases b) auto

instantiation order_status :: linorder
begin

definition less_eq_order_status :: "order_status \<Rightarrow> order_status \<Rightarrow> bool" where
  "less_eq_order_status a b \<longleftrightarrow> order_status_rank a \<le> order_status_rank b"

definition less_order_status :: "order_status \<Rightarrow> order_status \<Rightarrow> bool" where
  "less_order_status a b \<longleftrightarrow> order_status_rank a < order_status_rank b"

instance
  by standard (auto simp: less_eq_order_status_def less_order_status_def)

end

lemma order_status_le_iff [simp]:
  "OrderStatusPending \<le> st"
  "st \<le> OrderStatusPending \<longleftrightarrow> st = OrderStatusPending"
  "OrderStatusCanceled \<le> st \<longleftrightarrow> st = OrderStatusCanceled"
  "st \<le> OrderStatusCanceled"
  "OrderStatusPaid \<le> st \<longleftrightarrow> st = OrderStatusPaid \<or> st = OrderStatusCanceled"
  "OrderStatusExpired \<le> st \<longleftrightarrow> st \<noteq> OrderStatusPending"
  by (cases st; simp add: less_eq_order_status_def)+

section \<open>The database and the state\<close>

record db =
  subscriptions :: "subscription list"
  orders :: "order list"
  products :: "product list"
  plans :: "plan list"
  nodes :: "node list"
  plan_nodes :: "(uint \<times> uint) list"
  subscription_nodes :: "subscription_node list"
  invites :: "invite list"
  trial_requests :: "trial_request list"
  audit :: "audit_log list"
  broadcasts :: "broadcast list"
  subscription_seq :: uint
  order_seq :: uint
  audit_seq :: uint
  broadcast_seq :: uint
  row_clock :: time

datatype fault = FaultCanceled | FaultDeadline | FaultBusy | FaultLocked | FaultUnique | FaultIO

fun fault_error :: "fault \<Rightarrow> error" where
  "fault_error FaultCanceled = [CtxCanceled]"
| "fault_error FaultDeadline = [CtxDeadlineExceeded]"
| "fault_error FaultBusy = [SqliteBusy]"
| "fault_error FaultLocked = [SqliteLocked]"
| "fault_error FaultUnique = [SqliteUnique]"
| "fault_error FaultIO = [SqliteOther]"

datatype turn = Quiet | Fails fault | Other "db \<Rightarrow> db"

text \<open>What a node is asked to provision (\<open>vpn.SubscriptionProvision\<close>); no expiry is the zero time.\<close>

record vpn_provision =
  vp_client_id :: string
  vp_username :: string
  vp_current_email :: string
  vp_sub_id :: string
  vp_traffic_bytes :: int
  vp_expiry_time :: "time option"
  vp_reset_days :: int
  vp_reset_day :: int
  vp_reset_max :: int
  vp_traffic_reset :: string
  vp_traffic_reset_day :: int
  vp_tg_id :: int
  vp_comment :: string

datatype vpn_call = VpnCreate | VpnUpdate | VpnResetTraffic | VpnDelete

text \<open>A message of the bot, by its template and what is filled in; the texts are not modelled.\<close>

datatype bot_message = MsgDaysLeft int string | MsgHoursLeft int string
  | MsgTrafficExhausted | MsgTrafficNinety | MsgTrafficReset string | MsgPaid uint

text \<open>What a panel is asked to write for a client (\<open>xui.ClientRequest\<close>); \<open>None\<close> is the zero time.\<close>

record client_request =
  cq_inbound_ids :: "int list"
  cq_email :: string
  cq_current_email :: string
  cq_client_id :: string
  cq_sub_id :: string
  cq_traffic_bytes :: int
  cq_expiry_time :: "time option"
  cq_reset_days :: int
  cq_reset_day :: int
  cq_reset_max :: int
  cq_traffic_reset :: string
  cq_traffic_reset_day :: int
  cq_tg_id :: int
  cq_enable :: "bool option"

datatype effect =
  EffPaymentIssue string uint
| EffAdminPaid uint bool
| EffAdminChargeback uint bool
| EffInvalidateBySubID string
| EffInvalidate int
| EffProviderCreate uint cents string
| EffProviderStatus string
| EffVpn vpn_call uint vpn_provision
| EffPing uint
| EffPaymentAmount string cents string
| EffMessage int bot_message
| EffBroadcast int string bool
| EffWait duration
| EffCampaignReport int uint broadcast_status string int int int int
| EffClientUpdate uint client_request

record world =
  db :: db
  turns :: "turn list"
  trace :: "effect list"
  node_health :: "(uint \<times> bool) list option"

definition emit :: "effect \<Rightarrow> (world, unit) op" where
  [op_simps]: "emit e w = (Inr (), w\<lparr>trace := trace w @ [e]\<rparr>)"

section \<open>Subscription predicates\<close>

text \<open>\<open>models.go\<close>, \<open>IsExpired\<close>, \<open>IsActive\<close>, \<open>IsPaid\<close>.\<close>

definition IsExpired :: "time \<Rightarrow> subscription \<Rightarrow> bool" where
  "IsExpired now s = (case s_expires_at s of None \<Rightarrow> False | Some t \<Rightarrow> t < now)"

definition IsActive :: "time \<Rightarrow> subscription \<Rightarrow> bool" where
  "IsActive now s \<longleftrightarrow> s_status s = SubscriptionStatusActive \<and> \<not> IsExpired now s"

definition IsPaid :: "subscription option \<Rightarrow> bool" where
  "IsPaid so = (case so of None \<Rightarrow> False
     | Some s \<Rightarrow> s_product_id s \<noteq> None \<or> 0 < s_price_paid_cents s)"

section \<open>Statements and transactions\<close>

text \<open>
  \<open>stmtE\<close> is one SQL statement in its own implicit transaction: it takes a turn; on \<open>Fails\<close> the
  database is unchanged and the driver's error comes back, on \<open>Other\<close> another session's commit
  comes first; then it runs, and may itself be refused by a constraint or find no record.
  \<open>txE\<close> is a statement inside a transaction, which runs on the transaction's snapshot: it can
  fail, but no other session's commit comes between (the driver reports such a collision as an
  error).
\<close>

definition next_turn :: "world \<Rightarrow> turn" where
  "next_turn w = (case turns w of [] \<Rightarrow> Quiet | t # _ \<Rightarrow> t)"

definition step_turn :: "world \<Rightarrow> world" where
  "step_turn w = w\<lparr>turns := tl (turns w)\<rparr>"

definition step_other :: "world \<Rightarrow> world" where
  "step_other w =
     (case next_turn w of Other g \<Rightarrow> (step_turn w)\<lparr>db := g (db w)\<rparr> | _ \<Rightarrow> step_turn w)"

definition run_stmt :: "(db \<Rightarrow> error + ('a \<times> db)) \<Rightarrow> (world, 'a) op" where
  "run_stmt f w = (case f (db w) of Inl e \<Rightarrow> (Inl e, w) | Inr (x, d) \<Rightarrow> (Inr x, w\<lparr>db := d\<rparr>))"

definition stmtE :: "(db \<Rightarrow> error + ('a \<times> db)) \<Rightarrow> (world, 'a) op" where
  "stmtE f w =
     (case next_turn w of
        Fails k \<Rightarrow> (Inl (fault_error k), step_turn w)
      | _ \<Rightarrow> run_stmt f (step_other w))"

definition txE :: "(db \<Rightarrow> error + ('a \<times> db)) \<Rightarrow> (world, 'a) op" where
  "txE f w =
     (case next_turn w of
        Fails k \<Rightarrow> (Inl (fault_error k), step_turn w)
      | _ \<Rightarrow> run_stmt f (step_turn w))"

text \<open>The shapes a statement has: a lookup that may find nothing, a query, an update.\<close>

definition fetch :: "(db \<Rightarrow> error + 'a) \<Rightarrow> db \<Rightarrow> error + ('a \<times> db)" where
  "fetch f d = (case f d of Inl e \<Rightarrow> Inl e | Inr x \<Rightarrow> Inr (x, d))"

definition queryE :: "(db \<Rightarrow> error + 'a) \<Rightarrow> (world, 'a) op" where "queryE f = stmtE (fetch f)"
definition query :: "(db \<Rightarrow> 'a) \<Rightarrow> (world, 'a) op" where "query f = stmtE (\<lambda>d. Inr (f d, d))"
definition execE :: "(db \<Rightarrow> 'a \<times> db) \<Rightarrow> (world, 'a) op" where "execE f = stmtE (\<lambda>d. Inr (f d))"
definition tx_queryE :: "(db \<Rightarrow> error + 'a) \<Rightarrow> (world, 'a) op" where "tx_queryE f = txE (fetch f)"
definition tx_query :: "(db \<Rightarrow> 'a) \<Rightarrow> (world, 'a) op" where "tx_query f = txE (\<lambda>d. Inr (f d, d))"
definition tx_execE :: "(db \<Rightarrow> 'a \<times> db) \<Rightarrow> (world, 'a) op" where "tx_execE f = txE (\<lambda>d. Inr (f d))"

text \<open>
  \<open>db.Transaction(fn)\<close>: \<open>BEGIN\<close> takes a turn, after which the transaction sees one snapshot; the
  commit takes a turn; the database is that snapshot again if the function or the commit fails.
\<close>

definition transaction :: "(world, 'a) op \<Rightarrow> (world, 'a) op" where
  "transaction body w =
     (case next_turn w of
        Fails k \<Rightarrow> (Inl (fault_error k), step_turn w)
      | _ \<Rightarrow>
          (let w0 = step_other w in
           (case body w0 of
              (Inl e, w') \<Rightarrow> (Inl e, w'\<lparr>db := db w0\<rparr>)
            | (Inr x, w') \<Rightarrow>
                (case next_turn w' of
                   Fails k \<Rightarrow> (Inl (fault_error k), (step_turn w')\<lparr>db := db w0\<rparr>)
                 | _ \<Rightarrow> (Inr x, step_turn w')))))"

lemmas stmt_defs = stmtE_def txE_def run_stmt_def fetch_def queryE_def query_def execE_def
  tx_queryE_def tx_query_def tx_execE_def

lemma step_turn_simps [simp]:
  "db (step_turn w) = db w" "trace (step_turn w) = trace w" "turns (step_turn w) = tl (turns w)"
  by (simp_all add: step_turn_def)

lemma step_other_simps [simp]:
  "trace (step_other w) = trace w" "turns (step_other w) = tl (turns w)"
  by (simp_all add: step_other_def split: turn.splits)

lemma fault_error_set:
  "set (fault_error k) \<subseteq>
     {CtxCanceled, CtxDeadlineExceeded, SqliteBusy, SqliteLocked, SqliteUnique, SqliteOther}"
  by (cases k) auto

lemma in_set_tl: "x \<in> set (tl xs) \<Longrightarrow> x \<in> set xs"
  by (cases xs) auto

text \<open>A world in which nothing interferes: what the functional lemmas are stated for.\<close>

definition calm :: "world \<Rightarrow> bool" where
  "calm w \<longleftrightarrow> (\<forall>t \<in> set (turns w). t = Quiet)"

lemma calm_next: "calm w \<Longrightarrow> next_turn w = Quiet"
  by (simp add: calm_def next_turn_def split: list.splits)

lemma calm_step [simp]: "calm w \<Longrightarrow> calm (step_turn w)"
  by (auto simp: calm_def dest: in_set_tl)

lemma calm_db [simp]: "calm (w\<lparr>db := d\<rparr>) = calm w"
  by (simp add: calm_def)

lemma calm_trace [simp]: "calm (w\<lparr>trace := x\<rparr>) = calm w"
  by (simp add: calm_def)

lemma calm_step_other: "calm w \<Longrightarrow> step_other w = step_turn w"
  by (simp add: step_other_def calm_next)

text \<open>In a calm world a statement is its function on the database.\<close>

lemma calm_stmts [op_simps]:
  assumes "calm w"
  shows "stmtE f w = run_stmt f (step_turn w)" "txE f w = run_stmt f (step_turn w)"
  using assms by (simp_all add: stmtE_def txE_def calm_next calm_step_other)

lemma calm_runs:
  assumes "calm w"
  shows "query g w = (Inr (g (db w)), step_turn w)" "tx_query g w = (Inr (g (db w)), step_turn w)"
    "queryE h w = (h (db w), step_turn w)" "tx_queryE h w = (h (db w), step_turn w)"
    "execE k w = (Inr (fst (k (db w))), (step_turn w)\<lparr>db := snd (k (db w))\<rparr>)"
    "tx_execE k w = (Inr (fst (k (db w))), (step_turn w)\<lparr>db := snd (k (db w))\<rparr>)"
  using assms
  by (auto simp: stmt_defs calm_next calm_step_other split: sum.splits prod.splits)

lemma calm_transaction:
  assumes "calm w" and "\<And>r w'. body (step_turn w) = (r, w') \<Longrightarrow> calm w'"
  shows "transaction body w =
    (case body (step_turn w) of (Inl e, w') \<Rightarrow> (Inl e, w'\<lparr>db := db w\<rparr>)
     | (Inr x, w') \<Rightarrow> (Inr x, step_turn w'))"
  using assms
  by (auto simp: transaction_def calm_next calm_step_other Let_def split: prod.splits sum.splits)

subsection \<open>Contracts on the database\<close>

text \<open>
  A relation between databases, lifted to worlds: if the other sessions respect it, so does the
  operation (and the script it leaves still respects it). When the relation is a preorder,
  statements that respect it, and transactions over operations that do, respect it as well: a
  rolled-back transaction leaves the snapshot it began with.
\<close>

definition rely :: "(db \<Rightarrow> db \<Rightarrow> bool) \<Rightarrow> world \<Rightarrow> bool" where
  "rely R w \<longleftrightarrow> (\<forall>t \<in> set (turns w). case t of Other g \<Rightarrow> (\<forall>d. R d (g d)) | _ \<Rightarrow> True)"

definition on_db :: "(db \<Rightarrow> db \<Rightarrow> bool) \<Rightarrow> world \<Rightarrow> world \<Rightarrow> bool" where
  "on_db R w w' \<longleftrightarrow> (rely R w \<longrightarrow> R (db w) (db w') \<and> rely R w')"

text \<open>
  The contract for what runs inside a transaction, on its snapshot: nothing is relied on.
\<close>

definition in_tx :: "(db \<Rightarrow> db \<Rightarrow> bool) \<Rightarrow> world \<Rightarrow> world \<Rightarrow> bool" where
  "in_tx R w w' \<longleftrightarrow> R (db w) (db w')"

lemma rely_step [simp]: "rely R w \<Longrightarrow> rely R (step_turn w)"
  by (auto simp: rely_def dest: in_set_tl)

lemma rely_upd [simp]: "rely R (w\<lparr>db := d\<rparr>) = rely R w" "rely R (w\<lparr>trace := x\<rparr>) = rely R w"
  by (simp_all add: rely_def)

lemma rely_step_other [simp]: "rely R w \<Longrightarrow> rely R (step_other w)"
  by (auto simp: step_other_def split: turn.splits)

lemma calm_rely [simp]: "calm w \<Longrightarrow> rely R w"
  by (auto simp: calm_def rely_def split: turn.splits)

locale db_contract =
  fixes R :: "db \<Rightarrow> db \<Rightarrow> bool"
  assumes db_refl: "R d d"
    and db_trans: "R d e \<Longrightarrow> R e f \<Longrightarrow> R d f"
begin

sublocale world: op_contract "on_db R"
  by unfold_locales (auto simp: on_db_def intro: db_refl db_trans)

sublocale tx: op_contract "in_tx R"
  by unfold_locales (auto simp: in_tx_def intro: db_refl db_trans)

lemma txE_in_tx:
  assumes "\<And>d x d'. f d = Inr (x, d') \<Longrightarrow> R d d'"
  shows "keeps (in_tx R) (txE f)"
  using assms
  by (auto intro!: keepsI simp: in_tx_def txE_def run_stmt_def db_refl split: turn.splits sum.splits)

lemma query_in_tx: "keeps (in_tx R) (tx_query f)" "keeps (in_tx R) (tx_queryE g)"
  by (auto simp: tx_query_def tx_queryE_def fetch_def intro!: txE_in_tx db_refl split: sum.splits)

lemma execE_in_tx:
  assumes "\<And>d. R d (snd (f d))"
  shows "keeps (in_tx R) (tx_execE f)"
  unfolding tx_execE_def using assms by (intro txE_in_tx) (metis Inr_inject sndI)

lemmas tx_combinators = tx.combinators query_in_tx

lemma step_other_R: "rely R w \<Longrightarrow> R (db w) (db (step_other w))"
  by (auto simp: step_other_def rely_def next_turn_def db_refl split: turn.splits list.splits)

lemma run_stmt_R:
  assumes "\<And>d x d'. f d = Inr (x, d') \<Longrightarrow> R d d'"
  shows "R (db w) (db (snd (run_stmt f w)))" "rely R w \<Longrightarrow> rely R (snd (run_stmt f w))"
  using assms by (auto simp: run_stmt_def db_refl split: sum.splits)

lemma stmtE_keeps:
  assumes "\<And>d x d'. f d = Inr (x, d') \<Longrightarrow> R d d'"
  shows "keeps (on_db R) (stmtE f)"
proof (rule keepsI)
  fix w
  have "R (db w) (db (snd (run_stmt f (step_other w))))" if "rely R w"
    using step_other_R [OF that] run_stmt_R(1) [of f "step_other w", OF assms] by (rule db_trans)
  moreover have "R (db w) (db (snd (run_stmt f (step_turn w))))" if "rely R w"
    using run_stmt_R(1) [of f "step_turn w", OF assms] by simp
  ultimately show "on_db R w (snd (stmtE f w))"
    using run_stmt_R(2) [of f "step_other w", OF assms]
    by (auto simp: on_db_def stmtE_def db_refl split: turn.splits)
qed

lemma txE_keeps:
  assumes "\<And>d x d'. f d = Inr (x, d') \<Longrightarrow> R d d'"
  shows "keeps (on_db R) (txE f)"
proof (rule keepsI)
  fix w
  show "on_db R w (snd (txE f w))"
    using run_stmt_R [of f "step_turn w", OF assms]
    by (auto simp: on_db_def txE_def db_refl split: turn.splits)
qed

lemma query_keeps: "keeps (on_db R) (query f)" "keeps (on_db R) (tx_query f)"
  by (auto simp: query_def tx_query_def intro!: stmtE_keeps txE_keeps db_refl)

lemma queryE_keeps: "keeps (on_db R) (queryE f)" "keeps (on_db R) (tx_queryE f)"
  by (auto simp: queryE_def tx_queryE_def fetch_def intro!: stmtE_keeps txE_keeps db_refl
      split: sum.splits)

lemma execE_keeps:
  assumes "\<And>d. R d (snd (f d))"
  shows "keeps (on_db R) (execE f)" "keeps (on_db R) (tx_execE f)"
  unfolding execE_def tx_execE_def
  using assms by (auto intro!: stmtE_keeps txE_keeps dest: sym) (metis sndI)+

lemma emit_keeps: "keeps (on_db R) (emit e)"
  by (rule keepsI) (simp add: on_db_def emit_def db_refl)

lemma transaction_keeps:
  assumes "keeps (on_db R) body"
  shows "keeps (on_db R) (transaction body)"
proof (rule keepsI)
  fix w
  obtain r w' where b: "body (step_other w) = (r, w')"
    by (cases "body (step_other w)")
  have 1: "R (db w) (db (step_other w))" if "rely R w"
    using that by (rule step_other_R)
  have 2: "R (db (step_other w)) (db w') \<and> rely R w'" if "rely R w"
    using keepsD [OF assms, of "step_other w"] b that by (simp add: on_db_def)
  show "on_db R w (snd (transaction body w))"
    using 1 2 b
    by (auto simp: transaction_def on_db_def Let_def db_refl
        intro: db_trans split: sum.splits turn.splits)
qed

lemmas db_combinators =
  world.combinators query_keeps queryE_keeps emit_keeps transaction_keeps

end

text \<open>What a contract says about a run in which the other sessions respect it.\<close>

lemma keeps_run:
  assumes "keeps (on_db R) m" "rely R w" "m w = (r, w')"
  shows "R (db w) (db w')" "rely R w'"
  using keepsD [OF assms(1), of w] assms(2,3) by (simp_all add: on_db_def)

text \<open>
  A transaction that reports an error has changed nothing: the database is the snapshot it
  began with, \<open>db (step_other w)\<close>.
\<close>

lemma step_other_fails: "next_turn w = Fails k \<Longrightarrow> db (step_other w) = db w"
  by (simp add: step_other_def)

lemma transaction_error_db:
  "transaction body w = (Inl e, w') \<Longrightarrow> db w' = db (step_other w)"
  by (auto simp: transaction_def Let_def step_other_fails split: prod.splits sum.splits turn.splits)

lemma transaction_ok:
  assumes "transaction body w = (Inr x, w')"
  obtains w1 where "body (step_other w) = (Inr x, w1)" "db w' = db w1" "trace w' = trace w1"
  using assms by (auto simp: transaction_def Let_def split: prod.splits sum.splits turn.splits)

text \<open>Statements that succeeded.\<close>

lemma txE_ok:
  assumes "txE f w = (Inr x, w')"
  shows "f (db w) = Inr (x, db w')" "trace w' = trace w"
  using assms by (auto simp: txE_def run_stmt_def split: turn.splits sum.splits)

lemma tx_queryE_ok:
  assumes "tx_queryE f w = (Inr x, w')"
  shows "f (db w) = Inr x" "db w' = db w" "trace w' = trace w"
  using txE_ok [of "fetch f" w x w'] assms
  by (auto simp: tx_queryE_def fetch_def split: sum.splits)

lemma tx_query_ok:
  assumes "tx_query f w = (Inr x, w')"
  shows "x = f (db w)" "db w' = db w" "trace w' = trace w"
  using txE_ok [of "\<lambda>d. Inr (f d, d)" w x w'] assms
  by (auto simp: tx_query_def)

lemma tx_execE_ok:
  assumes "tx_execE f w = (Inr x, w')"
  shows "f (db w) = (x, db w')" "trace w' = trace w"
  using txE_ok [of "\<lambda>d. Inr (f d)" w x w'] assms
  by (auto simp: tx_execE_def)

lemma stmtE_ok:
  assumes "stmtE f w = (Inr x, w')"
  shows "f (db (step_other w)) = Inr (x, db w')" "trace w' = trace w"
  using assms by (auto simp: stmtE_def run_stmt_def split: turn.splits sum.splits)

lemma stmtE_error:
  assumes "stmtE f w = (Inl e, w')"
  shows "db w' = db (step_other w)" "trace w' = trace w"
  using assms by (auto simp: stmtE_def run_stmt_def step_other_fails split: turn.splits sum.splits)

text \<open>The same as destruction rules.\<close>

lemma tx_query_run: "tx_query f w = (Inr x, w') \<Longrightarrow> x = f (db w) \<and> db w' = db w \<and> trace w' = trace w"
  using tx_query_ok [of f w x w'] by simp

lemma tx_queryE_run:
  "tx_queryE f w = (Inr x, w') \<Longrightarrow> f (db w) = Inr x \<and> db w' = db w \<and> trace w' = trace w"
  using tx_queryE_ok [of f w x w'] by simp

lemma tx_execE_run: "tx_execE f w = (Inr x, w') \<Longrightarrow> f (db w) = (x, db w') \<and> trace w' = trace w"
  using tx_execE_ok [of f w x w'] by simp

lemma txE_run: "txE f w = (Inr x, w') \<Longrightarrow> f (db w) = Inr (x, db w') \<and> trace w' = trace w"
  using txE_ok [of f w x w'] by simp

section \<open>The script of turns\<close>

text \<open>An operation takes its turns from the script, so what is relied on for it holds afterwards.\<close>

definition spends :: "world \<Rightarrow> world \<Rightarrow> bool" where
  "spends w w' \<longleftrightarrow> set (turns w') \<subseteq> set (turns w)"

interpretation spend: op_contract spends
  by unfold_locales (auto simp: spends_def)

lemma txE_turns: "turns (snd (txE f w)) = tl (turns w)"
  by (auto simp: txE_def run_stmt_def split: turn.splits sum.splits)

lemma tx_spends: "keeps spends (txE f)" "keeps spends (tx_queryE g)" "keeps spends (tx_execE h)"
  unfolding tx_queryE_def tx_execE_def
  by (auto intro!: keepsI simp: spends_def txE_turns intro: in_set_tl)

lemma rely_spends: "rely R w \<Longrightarrow> spends w w' \<Longrightarrow> rely R w'"
  by (auto simp: rely_def spends_def)

lemma stmtE_turns: "turns (snd (stmtE f w)) = tl (turns w)"
  by (auto simp: stmtE_def run_stmt_def split: turn.splits sum.splits prod.splits)

lemma stmtE_spends: "keeps spends (stmtE f)"
  by (auto intro!: keepsI simp: spends_def stmtE_turns intro: in_set_tl)

lemma world_spends: "keeps spends (query g)" "keeps spends (queryE h)" "keeps spends (execE k)"
  unfolding query_def queryE_def execE_def by (rule stmtE_spends)+

lemma transaction_spends:
  assumes "keeps spends m"
  shows "keeps spends (transaction m)"
proof (rule keepsI)
  fix w
  have "spends (step_other w) (snd (m (step_other w)))"
    using assms by (rule keepsD)
  then show "spends w (snd (transaction m w))"
    by (auto simp: transaction_def spends_def Let_def split: prod.splits sum.splits turn.splits dest!: in_set_tl)
qed

end
