(* ===== verification/Audit_Log.thy ===== *)
theory Audit_Log
  imports Model
begin

text \<open>
  The audit journal: \<open>internal/database/audit_log.go\<close> (the event constructors) and
  \<open>internal/database/audit_log_repo.go\<close> (insert, queries, retention).

  The journal is append-only for every operation but the retention sweep. \<open>journal_grows\<close> is
  that contract; it is interpreted as a database contract, so that each operation of the
  stores inherits it from its statements.
\<close>

section \<open>Column encoding\<close>

fun subscription_status_text :: "subscription_status \<Rightarrow> string" where
  "subscription_status_text SubscriptionStatusActive = ''active''"
| "subscription_status_text SubscriptionStatusExpired = ''expired''"
| "subscription_status_text SubscriptionStatusPaused = ''paused''"
| "subscription_status_text SubscriptionStatusCanceled = ''canceled''"
| "subscription_status_text SubscriptionStatusRevoked = ''revoked''"

fun order_status_text :: "order_status \<Rightarrow> string" where
  "order_status_text OrderStatusPending = ''pending''"
| "order_status_text OrderStatusPaid = ''paid''"
| "order_status_text OrderStatusExpired = ''expired''"
| "order_status_text OrderStatusCanceled = ''canceled''"

fun broadcast_status_text :: "broadcast_status \<Rightarrow> string" where
  "broadcast_status_text BroadcastStatusScheduled = ''scheduled''"
| "broadcast_status_text BroadcastStatusRunning = ''running''"
| "broadcast_status_text BroadcastStatusCompleted = ''completed''"
| "broadcast_status_text BroadcastStatusFailed = ''failed''"
| "broadcast_status_text BroadcastStatusCanceled = ''canceled''"

definition rfc3339 :: "time \<Rightarrow> json_value" where
  "rfc3339 t = JTime (t div second)"

definition marshalAuditJSON :: "json_map \<Rightarrow> json_map option" where
  "marshalAuditJSON m = (if m = [] then None else Some m)"

definition marshalAuditJSONString :: "string \<Rightarrow> string option" where
  "marshalAuditJSONString v = (if v = [] then None else Some v)"

definition marshalAuditDetails :: "json_map \<Rightarrow> json_map" where
  "marshalAuditDetails m = m"

definition formatSubID :: "subscription option \<Rightarrow> string" where
  "formatSubID sub = (case sub of None \<Rightarrow> [] | Some s \<Rightarrow> utoa (s_id s))"

definition auditSubDetails :: "subscription option \<Rightarrow> json_map" where
  "auditSubDetails sub =
     (case sub of None \<Rightarrow> []
      | Some s \<Rightarrow>
          [(''subscription_db_id'', JInt (int (s_id s)))]
          @ (if s_telegram_id s \<noteq> 0 then [(''telegram_id'', JInt (s_telegram_id s))] else [])
          @ (if s_username s \<noteq> [] then [(''username'', JStr (s_username s))] else [])
          @ (if s_subscription_id s \<noteq> [] then [(''subscription_id'', JStr (s_subscription_id s))] else []))"

definition SubscriptionAuditState :: "subscription option \<Rightarrow> json_map" where
  "SubscriptionAuditState sub =
     (case sub of None \<Rightarrow> []
      | Some s \<Rightarrow>
          [(''status'', JStr (subscription_status_text (s_status s))),
           (''plan_id'', JInt (int (s_plan_id s)))]
          @ (case s_expires_at s of None \<Rightarrow> [] | Some t \<Rightarrow> [(''expires_at'', rfc3339 t)])
          @ (case s_product_id s of None \<Rightarrow> [] | Some p \<Rightarrow> [(''product_id'', JInt (int p))])
          @ (if s_price_paid_cents s \<noteq> 0
             then [(''price_paid_cents'', JInt (s_price_paid_cents s))] else []))"

text \<open>\<open>diffState\<close>: the keys of \<open>after\<close> that are new or changed, then those that disappeared.\<close>

definition diffState :: "json_map \<Rightarrow> json_map \<Rightarrow> json_map option \<times> json_map option" where
  "diffState before after =
     (let upd = filter (\<lambda>(k, v). map_of before k \<noteq> Some v) after;
          gone = filter (\<lambda>(k, v). map_of after k = None) before;
          changed = map (\<lambda>(k, v). (k, case map_of before k of None \<Rightarrow> JNull | Some old \<Rightarrow> old)) upd @ gone;
          changedAfter = upd @ map (\<lambda>(k, v). (k, JNull)) gone
      in if changed = [] then (None, None)
         else (marshalAuditJSON changed, marshalAuditJSON changedAfter))"

definition auditActorTelegram :: "subscription option \<Rightarrow> string option" where
  "auditActorTelegram sub =
     (case sub of None \<Rightarrow> None
      | Some s \<Rightarrow> if s_telegram_id s \<le> 0 then None else marshalAuditJSONString (itoa (s_telegram_id s)))"

section \<open>Events\<close>

definition new_audit ::
  "entity_type \<Rightarrow> string option \<Rightarrow> string \<Rightarrow> actor_type \<Rightarrow> string option \<Rightarrow>
   json_map option \<Rightarrow> json_map option \<Rightarrow> json_map \<Rightarrow> audit_log" where
  "new_audit et eid ev at aid old new details =
     \<lparr>al_id = 0, al_entity_type = et, al_entity_id = eid, al_event = ev, al_actor_type = at,
      al_actor_id = aid, al_old_state = old, al_new_state = new, al_details = details,
      al_created_at = 0\<rparr>"

definition AuditSubscriptionCreated :: "subscription \<Rightarrow> string \<Rightarrow> audit_log" where
  "AuditSubscriptionCreated sub inviteCode =
     new_audit EntitySubscription (marshalAuditJSONString (formatSubID (Some sub)))
       ''subscription_created'' ActorUser (auditActorTelegram (Some sub))
       None (marshalAuditJSON (SubscriptionAuditState (Some sub)))
       (marshalAuditDetails (auditSubDetails (Some sub)
          @ (if inviteCode \<noteq> [] then [(''invite_code'', JStr inviteCode)] else [])))"

definition AuditTrialCreated :: "subscription \<Rightarrow> audit_log" where
  "AuditTrialCreated sub =
     new_audit EntitySubscription (marshalAuditJSONString (formatSubID (Some sub)))
       ''trial_created'' ActorUser None
       None (marshalAuditJSON (SubscriptionAuditState (Some sub)))
       (marshalAuditDetails (auditSubDetails (Some sub)))"

definition AuditTrialBound :: "subscription \<Rightarrow> audit_log" where
  "AuditTrialBound sub =
     new_audit EntitySubscription (marshalAuditJSONString (formatSubID (Some sub)))
       ''trial_bound'' ActorUser (auditActorTelegram (Some sub))
       None (marshalAuditJSON (SubscriptionAuditState (Some sub)))
       (marshalAuditDetails (auditSubDetails (Some sub)))"

definition AuditSubscriptionReanimated :: "subscription \<Rightarrow> audit_log" where
  "AuditSubscriptionReanimated sub =
     new_audit EntitySubscription (marshalAuditJSONString (formatSubID (Some sub)))
       ''subscription_reanimated'' ActorUser (auditActorTelegram (Some sub))
       None (marshalAuditJSON (SubscriptionAuditState (Some sub)))
       (marshalAuditDetails (auditSubDetails (Some sub)))"

definition AuditSubscriptionRenewed ::
  "subscription option \<Rightarrow> subscription \<Rightarrow> product option \<Rightarrow> audit_log" where
  "AuditSubscriptionRenewed before after product =
     new_audit EntitySubscription (marshalAuditJSONString (formatSubID (Some after)))
       ''subscription_renewed'' ActorPaymentProvider (marshalAuditJSONString ''platega'')
       (marshalAuditJSON (SubscriptionAuditState before))
       (marshalAuditJSON (SubscriptionAuditState (Some after)))
       (marshalAuditDetails (auditSubDetails (Some after)
          @ (case product of None \<Rightarrow> []
             | Some p \<Rightarrow>
                 [(''product_id'', JInt (int (pr_id p))), (''product_name'', JStr (pr_name p)),
                  (''duration_days'', JInt (pr_duration_days p)),
                  (''price_cents'', JInt (pr_price_cents p)), (''currency'', JStr (pr_currency p))])
          @ (case before of None \<Rightarrow> []
             | Some b \<Rightarrow> (case s_expires_at b of None \<Rightarrow> []
                 | Some t \<Rightarrow> [(''old_expires_at'', rfc3339 t)]))))"

definition AuditPlanChanged :: "subscription \<Rightarrow> json_map \<Rightarrow> int \<Rightarrow> int \<Rightarrow> audit_log" where
  "AuditPlanChanged sub before days adminTelegramID =
     (let (oldJSON, newJSON) = diffState before (SubscriptionAuditState (Some sub)) in
      new_audit EntitySubscription (marshalAuditJSONString (formatSubID (Some sub)))
        ''plan_changed'' ActorAdmin (marshalAuditJSONString (itoa adminTelegramID))
        oldJSON newJSON
        (marshalAuditDetails (auditSubDetails (Some sub)
           @ [(''new_plan_id'', JInt (int (s_plan_id sub)))]
           @ (if 0 < days then [(''days'', JInt days)] else []))))"

definition AuditSubscriptionExpired :: "subscription \<Rightarrow> audit_log" where
  "AuditSubscriptionExpired sub =
     new_audit EntitySubscription (marshalAuditJSONString (formatSubID (Some sub)))
       ''subscription_expired'' ActorWorker (marshalAuditJSONString ''subscription_expire_worker'')
       (marshalAuditJSON (SubscriptionAuditState (Some sub))) None
       (marshalAuditDetails (auditSubDetails (Some sub)))"

definition AuditDowngradedToFree :: "subscription \<Rightarrow> string \<Rightarrow> audit_log" where
  "AuditDowngradedToFree sub reason =
     new_audit EntitySubscription (marshalAuditJSONString (formatSubID (Some sub)))
       ''downgraded_to_free'' ActorWorker None
       (marshalAuditJSON (SubscriptionAuditState (Some sub))) None
       (marshalAuditDetails (auditSubDetails (Some sub)
          @ (if reason \<noteq> [] then [(''reason'', JStr reason)] else [])))"

definition AuditSubscriptionRevoked :: "subscription \<Rightarrow> string \<Rightarrow> audit_log" where
  "AuditSubscriptionRevoked sub reason =
     new_audit EntitySubscription (marshalAuditJSONString (formatSubID (Some sub)))
       ''subscription_revoked'' ActorWorker None
       (marshalAuditJSON (SubscriptionAuditState (Some sub))) None
       (marshalAuditDetails (auditSubDetails (Some sub)
          @ (if reason \<noteq> [] then [(''reason'', JStr reason)] else [])))"

definition AuditSubscriptionDeleted :: "subscription \<Rightarrow> int \<Rightarrow> audit_log" where
  "AuditSubscriptionDeleted sub adminTelegramID =
     new_audit EntitySubscription (marshalAuditJSONString (formatSubID (Some sub)))
       ''subscription_deleted'' ActorAdmin (marshalAuditJSONString (itoa adminTelegramID))
       (marshalAuditJSON (SubscriptionAuditState (Some sub))) None
       (marshalAuditDetails (auditSubDetails (Some sub)))"

definition AuditTrialDeleted :: "subscription \<Rightarrow> audit_log" where
  "AuditTrialDeleted sub =
     new_audit EntitySubscription (marshalAuditJSONString (formatSubID (Some sub)))
       ''trial_deleted'' ActorWorker (marshalAuditJSONString ''trial_cleanup_worker'')
       (marshalAuditJSON (SubscriptionAuditState (Some sub))) None
       (marshalAuditDetails (auditSubDetails (Some sub)))"

definition AuditReminderSent :: "subscription \<Rightarrow> string \<Rightarrow> audit_log" where
  "AuditReminderSent sub windowName =
     new_audit EntitySubscription (marshalAuditJSONString (formatSubID (Some sub)))
       ''reminder_sent'' ActorWorker (marshalAuditJSONString ''subscription_reminder_worker'') None None
       (marshalAuditDetails (auditSubDetails (Some sub) @ [(''window'', JStr windowName)]))"

definition AuditTrafficNotified :: "subscription \<Rightarrow> string \<Rightarrow> audit_log" where
  "AuditTrafficNotified sub kind =
     new_audit EntitySubscription (marshalAuditJSONString (formatSubID (Some sub)))
       ''traffic_notified'' ActorWorker (marshalAuditJSONString ''subscription_traffic_worker'') None None
       (marshalAuditDetails (auditSubDetails (Some sub) @ [(''kind'', JStr kind)]))"

definition AuditOrderCreated :: "order \<Rightarrow> audit_log" where
  "AuditOrderCreated order =
     new_audit EntityOrder (marshalAuditJSONString (utoa (o_id order)))
       ''order_created'' ActorUser None
       None (marshalAuditJSON [(''status'', JStr (order_status_text (o_status order)))])
       (marshalAuditDetails
          [(''subscription_id'', JInt (int (o_subscription_id order))),
           (''product_id'', JInt (int (o_product_id order))),
           (''amount_cents'', JInt (o_amount_cents order)),
           (''currency'', JStr (o_currency order)),
           (''provider'', JStr (o_payment_provider order))])"

definition AuditPaymentConfirmed ::
  "order \<Rightarrow> subscription option \<Rightarrow> product option \<Rightarrow> time \<Rightarrow> audit_log" where
  "AuditPaymentConfirmed order sub product newExpiry =
     new_audit EntityOrder (marshalAuditJSONString (utoa (o_id order)))
       ''payment_confirmed'' ActorPaymentProvider (marshalAuditJSONString (o_payment_provider order))
       None
       (marshalAuditJSON ([(''order_status'', JStr (order_status_text OrderStatusPaid))]
          @ (case sub of None \<Rightarrow> []
             | Some s \<Rightarrow>
                 [(''plan_id'', JInt (int (s_plan_id s))),
                  (''subscription_status'', JStr (subscription_status_text (s_status s))),
                  (''expires_at'', rfc3339 newExpiry)])))
       (marshalAuditDetails
          ([(''order_id'', JInt (int (o_id order))),
            (''subscription_id'', JInt (int (o_subscription_id order))),
            (''amount_cents'', JInt (o_amount_cents order)),
            (''currency'', JStr (o_currency order)),
            (''provider'', JStr (o_payment_provider order))]
           @ (case product of None \<Rightarrow> []
              | Some p \<Rightarrow> [(''product_id'', JInt (int (pr_id p))), (''product_name'', JStr (pr_name p))])))"

definition AuditOrderExpired :: "order \<Rightarrow> audit_log" where
  "AuditOrderExpired order =
     new_audit EntityOrder (marshalAuditJSONString (utoa (o_id order)))
       ''order_expired'' ActorWorker None
       (marshalAuditJSON [(''status'', JStr (order_status_text OrderStatusPending))])
       (marshalAuditJSON [(''status'', JStr (order_status_text OrderStatusExpired))])
       (marshalAuditDetails
          [(''subscription_id'', JInt (int (o_subscription_id order))),
           (''product_id'', JInt (int (o_product_id order))),
           (''amount_cents'', JInt (o_amount_cents order)),
           (''currency'', JStr (o_currency order))])"

definition AuditOrderCanceled :: "order \<Rightarrow> actor_type \<Rightarrow> audit_log" where
  "AuditOrderCanceled order actorType =
     new_audit EntityOrder (marshalAuditJSONString (utoa (o_id order)))
       ''order_canceled'' actorType None
       (marshalAuditJSON [(''status'', JStr (order_status_text (o_status order)))])
       (marshalAuditJSON [(''status'', JStr (order_status_text OrderStatusCanceled))])
       (marshalAuditDetails
          [(''subscription_id'', JInt (int (o_subscription_id order))),
           (''product_id'', JInt (int (o_product_id order))),
           (''amount_cents'', JInt (o_amount_cents order)),
           (''currency'', JStr (o_currency order))])"

definition AuditChargebackReceived :: "order \<Rightarrow> subscription \<Rightarrow> bool \<Rightarrow> audit_log" where
  "AuditChargebackReceived order sub downgraded =
     new_audit EntityOrder (marshalAuditJSONString (utoa (o_id order)))
       ''chargeback_received'' ActorPaymentProvider (marshalAuditJSONString (o_payment_provider order))
       (marshalAuditJSON [(''order_status'', JStr (order_status_text OrderStatusPaid))])
       (marshalAuditJSON [(''order_status'', JStr (order_status_text OrderStatusCanceled))])
       (marshalAuditDetails
          [(''order_id'', JInt (int (o_id order))),
           (''subscription_id'', JInt (int (o_subscription_id order))),
           (''amount_cents'', JInt (o_amount_cents order)),
           (''currency'', JStr (o_currency order)),
           (''provider'', JStr (o_payment_provider order)),
           (''downgraded'', JBool downgraded)])"

definition AuditPaymentCreationUncertain :: "order \<Rightarrow> audit_log" where
  "AuditPaymentCreationUncertain order =
     new_audit EntityOrder (marshalAuditJSONString (utoa (o_id order)))
       ''payment_creation_uncertain'' ActorSystem None None None
       (marshalAuditDetails
          [(''subscription_id'', JInt (int (o_subscription_id order))),
           (''product_id'', JInt (int (o_product_id order))),
           (''amount_cents'', JInt (o_amount_cents order)),
           (''currency'', JStr (o_currency order)),
           (''action'', JStr ''requires manual reconciliation'')])"

definition AuditBroadcastStarted :: "broadcast \<Rightarrow> audit_log" where
  "AuditBroadcastStarted b =
     new_audit EntityBroadcast (marshalAuditJSONString (utoa (b_id b)))
       ''broadcast_started'' ActorSystem None
       None (marshalAuditJSON [(''status'', JStr (broadcast_status_text BroadcastStatusRunning))])
       (marshalAuditDetails
          [(''name'', JStr (b_name b)), (''recipients_total'', JInt (b_recipients_total b))])"

definition AuditBroadcastCompleted :: "broadcast \<Rightarrow> audit_log" where
  "AuditBroadcastCompleted b =
     new_audit EntityBroadcast (marshalAuditJSONString (utoa (b_id b)))
       ''broadcast_completed'' ActorSystem None
       None (marshalAuditJSON [(''status'', JStr (broadcast_status_text BroadcastStatusCompleted))])
       (marshalAuditDetails
          [(''name'', JStr (b_name b)), (''recipients_total'', JInt (b_recipients_total b)),
           (''sent_count'', JInt (b_sent_count b)), (''blocked_count'', JInt (b_blocked_count b)),
           (''unreachable_count'', JInt (b_unreachable_count b)),
           (''failed_count'', JInt (b_failed_count b))])"

definition AuditBroadcastFailed :: "broadcast \<Rightarrow> string \<Rightarrow> audit_log" where
  "AuditBroadcastFailed b cause =
     new_audit EntityBroadcast (marshalAuditJSONString (utoa (b_id b)))
       ''broadcast_failed'' ActorSystem None
       None (marshalAuditJSON [(''status'', JStr (broadcast_status_text BroadcastStatusFailed))])
       (marshalAuditDetails
          ([(''name'', JStr (b_name b)), (''last_error'', JStr (b_last_error b)),
            (''retry_count'', JInt (b_retry_count b)), (''sent_count'', JInt (b_sent_count b)),
            (''failed_count'', JInt (b_failed_count b))]
           @ (if cause \<noteq> [] then [(''cause'', JStr cause)] else [])))"

definition AuditBroadcastCanceled :: "broadcast \<Rightarrow> int \<Rightarrow> audit_log" where
  "AuditBroadcastCanceled b adminTelegramID =
     new_audit EntityBroadcast (marshalAuditJSONString (utoa (b_id b)))
       ''broadcast_canceled'' ActorAdmin (marshalAuditJSONString (itoa adminTelegramID))
       None (marshalAuditJSON [(''status'', JStr (broadcast_status_text BroadcastStatusCanceled))])
       (marshalAuditDetails [(''name'', JStr (b_name b))])"

definition AuditOrphanedClientsRevoked :: "int \<Rightarrow> audit_log" where
  "AuditOrphanedClientsRevoked revokedCount =
     new_audit EntitySystem None ''orphaned_clients_revoked'' ActorWorker
       (marshalAuditJSONString ''orphan_reconciler'') None None
       (marshalAuditDetails [(''revoked_count'', JInt revokedCount)])"

section \<open>The repository\<close>

definition append_audit :: "audit_log \<Rightarrow> db \<Rightarrow> unit \<times> db" where
  "append_audit e d =
     ((), d\<lparr>audit := audit d @ [e\<lparr>al_id := Suc (audit_seq d), al_created_at := row_clock d\<rparr>],
            audit_seq := Suc (audit_seq d)\<rparr>)"

definition InsertAuditLog :: "audit_log \<Rightarrow> (world, unit) op" where
  "InsertAuditLog e = execE (append_audit e)"

definition InsertAuditLogInTx :: "audit_log \<Rightarrow> (world, unit) op" where
  "InsertAuditLogInTx e = tx_execE (append_audit e)"

text \<open>\<open>insertAuditLogBestEffort\<close> (and the services' \<open>logAudit\<close>) at their call sites, where the
  error is dropped.\<close>

definition insertAuditLogBestEffort :: "audit_log \<Rightarrow> (world, unit) op" where
  "insertAuditLogBestEffort e = tryE (InsertAuditLog e) (\<lambda>_. returnE ())"

definition newest_first :: "audit_log list \<Rightarrow> audit_log list" where
  "newest_first es = rev (sort_key al_created_at (sort_key al_id es))"

definition audit_limit :: "int \<Rightarrow> nat" where
  "audit_limit limit = (if limit \<le> 0 then 100 else nat limit)"

definition GetAuditLogByEntity :: "entity_type \<Rightarrow> string \<Rightarrow> int \<Rightarrow> (world, audit_log list) op" where
  "GetAuditLogByEntity et eid limit =
     query (\<lambda>d. take (audit_limit limit) (newest_first
       (filter (\<lambda>e. al_entity_type e = et \<and> al_entity_id e = Some eid) (audit d))))"

definition GetAuditLogByEvent :: "string \<Rightarrow> int \<Rightarrow> (world, audit_log list) op" where
  "GetAuditLogByEvent ev limit =
     query (\<lambda>d. take (audit_limit limit) (newest_first (filter (\<lambda>e. al_event e = ev) (audit d))))"

definition GetRecentAuditLog :: "int \<Rightarrow> (world, audit_log list) op" where
  "GetRecentAuditLog limit = query (\<lambda>d. take (audit_limit limit) (newest_first (audit d)))"

definition audit_batch :: "int \<Rightarrow> nat" where
  "audit_batch batch = (if batch \<le> 0 then 1000 else nat batch)"

definition DeleteAuditLogBefore :: "time \<Rightarrow> int \<Rightarrow> (world, nat) op" where
  "DeleteAuditLogBefore before batch =
     execE (\<lambda>d.
       let ids = take (audit_batch batch)
                   (map al_id (sort_key al_id (filter (\<lambda>e. al_created_at e < before) (audit d))))
       in (count_where (\<lambda>e. al_id e \<in> set ids) (audit d),
           d\<lparr>audit := delete_where (\<lambda>e. al_id e \<in> set ids) (audit d)\<rparr>))"

section \<open>The journal only grows\<close>

definition journal_grows :: "db \<Rightarrow> db \<Rightarrow> bool" where
  "journal_grows d d' \<longleftrightarrow> (\<exists>es. audit d' = audit d @ es)"

interpretation journal: db_contract journal_grows
  by unfold_locales (auto simp: journal_grows_def)

lemma journal_grows_refl [simp]: "audit d' = audit d \<Longrightarrow> journal_grows d d'"
  by (simp add: journal_grows_def)

lemma append_audit_grows: "journal_grows d (snd (append_audit e d))"
  by (simp add: journal_grows_def append_audit_def)

lemma audit_journal [contract_intros]:
  "keeps (on_db journal_grows) (InsertAuditLog e)"
  "keeps (on_db journal_grows) (InsertAuditLogInTx e)"
  "keeps (on_db journal_grows) (insertAuditLogBestEffort e)"
  unfolding InsertAuditLog_def InsertAuditLogInTx_def insertAuditLogBestEffort_def
  by (intro journal.db_combinators journal.execE_keeps append_audit_grows)+

text \<open>What an audit insert does to everything else: nothing.\<close>

lemma append_audit_frame [simp]:
  "orders (snd (append_audit e d)) = orders d"
  "subscriptions (snd (append_audit e d)) = subscriptions d"
  "subscription_nodes (snd (append_audit e d)) = subscription_nodes d"
  "order_seq (snd (append_audit e d)) = order_seq d"
  "subscription_seq (snd (append_audit e d)) = subscription_seq d"
  by (simp_all add: append_audit_def)

section \<open>The difference of two snapshots\<close>

text \<open>
  Reading a snapshot back: a key maps to its value, a missing key to null. Patching the old
  snapshot with the second component of \<open>diffState\<close> gives the new one on every key.
\<close>

definition json_get :: "json_map \<Rightarrow> string \<Rightarrow> json_value" where
  "json_get m k = (case map_of m k of None \<Rightarrow> JNull | Some v \<Rightarrow> v)"

definition json_patch :: "json_map \<Rightarrow> json_map option \<Rightarrow> string \<Rightarrow> json_value" where
  "json_patch m p k =
     (case p of None \<Rightarrow> json_get m k
      | Some q \<Rightarrow> (case map_of q k of None \<Rightarrow> json_get m k | Some v \<Rightarrow> v))"

lemma map_of_filter_key:
  "distinct (map fst m) \<Longrightarrow>
     map_of (filter P m) k = (case map_of m k of None \<Rightarrow> None | Some v \<Rightarrow> if P (k, v) then Some v else None)"
  by (induction m) (auto split: option.splits simp: map_of_eq_None_iff image_iff)

lemma map_of_map_const: "map_of (map (\<lambda>(k, v). (k, g k v)) m) k = map_option (g k) (map_of m k)"
  by (induction m) auto

lemma map_of_map_keyed: "map_of (map (\<lambda>(k, v). (k, g k)) m) k = map_option (\<lambda>_. g k) (map_of m k)"
  using map_of_map_const [of "\<lambda>k _. g k" m k] by (cases "map_of m k") auto

lemma marshalAuditJSON_patch:
  "json_patch m (marshalAuditJSON q) k = (case map_of q k of None \<Rightarrow> json_get m k | Some v \<Rightarrow> v)"
  by (simp add: json_patch_def marshalAuditJSON_def)

lemma diffState_forward:
  assumes "distinct (map fst before)" "distinct (map fst after)"
  shows "json_patch before (snd (diffState before after)) k = json_get after k"
proof -
  let ?upd = "filter (\<lambda>(k, v). map_of before k \<noteq> Some v) after"
  let ?gone = "filter (\<lambda>(k, v). map_of after k = None) before"
  have "snd (diffState before after) = marshalAuditJSON (?upd @ map (\<lambda>(k, v). (k, JNull)) ?gone)"
    by (auto simp: diffState_def Let_def marshalAuditJSON_def)
  then show ?thesis
    using assms
    by (auto simp: marshalAuditJSON_patch map_add_def map_of_filter_key map_of_map_const json_get_def
        split: option.splits dest: eq_key_imp_eq_value)
qed

lemma diffState_backward:
  assumes "distinct (map fst before)" "distinct (map fst after)"
  shows "json_patch after (fst (diffState before after)) k = json_get before k"
proof -
  let ?upd = "filter (\<lambda>(k, v). map_of before k \<noteq> Some v) after"
  let ?gone = "filter (\<lambda>(k, v). map_of after k = None) before"
  have "fst (diffState before after)
      = marshalAuditJSON (map (\<lambda>(k, v). (k, json_get before k)) ?upd @ ?gone)"
    by (auto simp: diffState_def Let_def marshalAuditJSON_def json_get_def)
  then show ?thesis
    using assms
    by (auto simp: marshalAuditJSON_patch map_add_def map_of_filter_key map_of_map_keyed json_get_def
        split: option.splits dest: eq_key_imp_eq_value)
qed

text \<open>An audit entry loses nothing: from the state before, the recorded new values give the state
  after, and from the state after, the recorded old values give the state before.\<close>

theorem diffState_round_trip:
  assumes "distinct (map fst before)" "distinct (map fst after)"
  shows "json_patch before (snd (diffState before after)) k = json_get after k
    \<and> json_patch after (fst (diffState before after)) k = json_get before k"
  using diffState_forward [OF assms] diffState_backward [OF assms] by simp

lemma SubscriptionAuditState_distinct: "distinct (map fst (SubscriptionAuditState s))"
  by (auto simp: SubscriptionAuditState_def split: option.splits)

end
