(* ===== verification/Catalog.thy ===== *)
theory Catalog
  imports Audit_Log
begin

text \<open>
  Lookups of the slowly changing tables: \<open>internal/database/products.go\<close>, \<open>plans.go\<close>,
  \<open>nodes.go\<close> and \<open>invites.go\<close>, and the guarded product update. An order refers to the product it
  was made for; the guard keeps the sold terms of a product fixed once it has an order.
\<close>

section \<open>Products\<close>

definition product_listed :: "db \<Rightarrow> product \<Rightarrow> bool" where
  "product_listed d p \<longleftrightarrow> pr_is_active p \<and> 0 < pr_price_cents p
     \<and> list_ex (\<lambda>q. pl_id q = pr_plan_id p \<and> pl_is_active q) (plans d)"

definition ListActiveProducts :: "(world, product list) op" where
  "ListActiveProducts = query (\<lambda>d.
     sort_key pr_price_cents (sort_key pr_id (filter (product_listed d) (products d))))"

definition find_product :: "uint \<Rightarrow> db \<Rightarrow> error + product" where
  "find_product i d =
     (case select_first (\<lambda>p. pr_id p = i) (products d) of
        None \<Rightarrow> Inl [ErrProductNotFound] | Some p \<Rightarrow> Inr p)"

definition GetProductByID :: "uint \<Rightarrow> (world, product) op" where
  "GetProductByID i = queryE (find_product i)"

definition same_terms :: "product \<Rightarrow> product \<Rightarrow> bool" where
  "same_terms p q \<longleftrightarrow> pr_name p = pr_name q \<and> pr_plan_id p = pr_plan_id q
     \<and> pr_duration_days p = pr_duration_days q \<and> pr_price_cents p = pr_price_cents q
     \<and> pr_currency p = pr_currency q"

definition products_valid :: "product list \<Rightarrow> bool" where
  "products_valid ps = distinct (map (\<lambda>p. (pr_plan_id p, pr_duration_days p)) ps)"

definition update_products ::
  "(product \<Rightarrow> bool) \<Rightarrow> (product \<Rightarrow> product) \<Rightarrow> db \<Rightarrow> error + (nat \<times> db)" where
  "update_products P f d =
     (let ps = update_where P f (products d) in
      if products_valid ps then Inr (count_where P (products d), d\<lparr>products := ps\<rparr>)
      else Inl [SqliteUnique])"

definition set_product_active :: "bool \<Rightarrow> product \<Rightarrow> product" where
  "set_product_active b p = p\<lparr>pr_is_active := b\<rparr>"

definition set_product_terms :: "product \<Rightarrow> product \<Rightarrow> product" where
  "set_product_terms q p =
     p\<lparr>pr_name := pr_name q, pr_plan_id := pr_plan_id q, pr_duration_days := pr_duration_days q,
       pr_price_cents := pr_price_cents q, pr_currency := pr_currency q, pr_is_active := pr_is_active q\<rparr>"

definition UpdateProductGuarded :: "product option \<Rightarrow> (world, unit) op" where
  "UpdateProductGuarded po =
     (case po of None \<Rightarrow> failE [ErrProductNotFound]
      | Some product \<Rightarrow>
      if pr_id product = 0 then failE [ErrProductNotFound]
      else transaction
        (bindE (tx_queryE (find_product (pr_id product))) (\<lambda>current.
         bindE (txE (update_products (\<lambda>p. pr_id p = pr_id product)
                  (set_product_active (pr_is_active current)))) (\<lambda>_.
         bindE (tx_query (\<lambda>d. count_where (\<lambda>ord. o_product_id ord = pr_id product) (orders d))) (\<lambda>orderCount.
         if 0 < orderCount \<and> \<not> same_terms current product then failE [ErrProductImmutable]
         else
           bindE (txE (update_products (\<lambda>p. pr_id p = pr_id product) (set_product_terms product)))
             (\<lambda>affected. if affected = 0 then failE [ErrProductNotFound] else returnE ()))))))"

section \<open>Plans, nodes, invites\<close>

definition GetPlanByName :: "string \<Rightarrow> (world, plan) op" where
  "GetPlanByName name = queryE (\<lambda>d.
     case select_first (\<lambda>p. pl_name p = name \<and> (name \<noteq> FreePlanName \<longrightarrow> pl_is_active p)) (plans d) of
       None \<Rightarrow> Inl [ErrPlanNotFound] | Some p \<Rightarrow> Inr p)"

definition find_plan :: "uint \<Rightarrow> db \<Rightarrow> error + plan" where
  "find_plan i d =
     (case select_first (\<lambda>p. pl_id p = i) (plans d) of
        None \<Rightarrow> Inl [ErrPlanNotFound] | Some p \<Rightarrow> Inr p)"

definition GetPlanByID :: "uint \<Rightarrow> (world, plan) op" where
  "GetPlanByID i = queryE (find_plan i)"

definition ListNodes :: "(world, node list) op" where
  "ListNodes = query nodes"

definition ListEnabled :: "(world, node list) op" where
  "ListEnabled = query (\<lambda>d. filter n_is_active (nodes d))"

definition find_node :: "uint \<Rightarrow> db \<Rightarrow> error + node" where
  "find_node i d =
     (case select_first (\<lambda>n. n_id n = i) (nodes d) of
        None \<Rightarrow> Inl [ErrNodeNotFound] | Some n \<Rightarrow> Inr n)"

definition GetNodeByID :: "uint \<Rightarrow> (world, node) op" where
  "GetNodeByID i = queryE (find_node i)"

definition plan_node_rows :: "uint \<Rightarrow> db \<Rightarrow> node list" where
  "plan_node_rows planID d =
     concat (map (\<lambda>(p, n). if p = planID then filter (\<lambda>nd. n_id nd = n) (nodes d) else []) (plan_nodes d))"

definition active_plan_nodes :: "uint \<Rightarrow> db \<Rightarrow> node list" where
  "active_plan_nodes planID d = filter n_is_active (plan_node_rows planID d)"

definition GetNodesByPlanID :: "uint \<Rightarrow> (world, node list) op" where
  "GetNodesByPlanID planID = query (active_plan_nodes planID)"

definition GetNodesByPlanName :: "string \<Rightarrow> (world, node list) op" where
  "GetNodesByPlanName planName = query (\<lambda>d.
     concat (map (\<lambda>p. if pl_name p = planName then plan_node_rows (pl_id p) d else []) (plans d)))"

definition canonical_invite :: "int \<Rightarrow> db \<Rightarrow> error + invite" where
  "canonical_invite referrerTGID d =
     (case filter (\<lambda>i. i_referrer_tg_id i = referrerTGID) (invites d) of
        [] \<Rightarrow> Inl [ErrInviteNotFound]
      | is \<Rightarrow> Inr (hd (sort_key i_created_at is)))"

definition GetInviteByReferrer :: "int \<Rightarrow> (world, invite) op" where
  "GetInviteByReferrer referrerTGID = queryE (canonical_invite referrerTGID)"

text \<open>\<open>INSERT ... ON CONFLICT(referrer_tg_id) DO NOTHING\<close>; the primary key is the code.\<close>

definition upsert_invite :: "string \<Rightarrow> int \<Rightarrow> db \<Rightarrow> error + (unit \<times> db)" where
  "upsert_invite code referrerTGID d =
     (if list_ex (\<lambda>i. i_referrer_tg_id i = referrerTGID) (invites d) then Inr ((), d)
      else if list_ex (\<lambda>i. i_code i = code) (invites d) then Inl [SqliteUnique]
      else Inr ((), d\<lparr>invites := invites d @ [\<lparr>i_code = code, i_referrer_tg_id = referrerTGID,
                                               i_created_at = row_clock d\<rparr>]\<rparr>))"

definition GetOrCreateInvite :: "int \<Rightarrow> string \<Rightarrow> (world, invite) op" where
  "GetOrCreateInvite referrerTGID code =
     bindE (stmtE (upsert_invite code referrerTGID)) (\<lambda>_. queryE (canonical_invite referrerTGID))"

definition GetInviteByCode :: "string \<Rightarrow> (world, invite) op" where
  "GetInviteByCode code = queryE (\<lambda>d.
     case select_first (\<lambda>i. i_code i = code) (invites d) of
       None \<Rightarrow> Inl [ErrInviteNotFound] | Some i \<Rightarrow> Inr i)"

definition GetReferralCount :: "int \<Rightarrow> (world, nat) op" where
  "GetReferralCount referrerTGID = query (\<lambda>d.
     count_where (\<lambda>s. s_referred_by s = Some referrerTGID) (subscriptions d))"

section \<open>Lemmas\<close>

lemmas catalog_queries = ListActiveProducts_def GetProductByID_def GetPlanByName_def GetPlanByID_def
  ListNodes_def ListEnabled_def GetNodeByID_def GetNodesByPlanID_def GetNodesByPlanName_def
  GetInviteByReferrer_def GetInviteByCode_def GetReferralCount_def

text \<open>The lookups respect every contract: they change nothing.\<close>

lemma catalog_reads:
  assumes "db_contract R"
  shows "keeps (on_db R) (GetProductByID i)" "keeps (on_db R) ListActiveProducts"
    "keeps (on_db R) (GetPlanByName name)" "keeps (on_db R) (GetPlanByID i)"
    "keeps (on_db R) (GetNodeByID i)" "keeps (on_db R) ListNodes" "keeps (on_db R) ListEnabled"
    "keeps (on_db R) (GetNodesByPlanID i)" "keeps (on_db R) (GetNodesByPlanName name)"
    "keeps (on_db R) (GetInviteByCode name)"
  unfolding catalog_queries
  using db_contract.query_keeps [OF assms] db_contract.queryE_keeps [OF assms] by auto

text \<open>What the guarded update does when it succeeds.\<close>

lemma find_product_ok: "find_product i d = Inr p \<Longrightarrow> p \<in> set (products d) \<and> pr_id p = i"
  by (auto simp: find_product_def dest: select_first_Some split: option.splits)

lemma update_products_ok:
  "update_products P f d = Inr (n, d') \<Longrightarrow>
     d' = d\<lparr>products := update_where P f (products d)\<rparr> \<and> n = count_where P (products d)"
  by (auto simp: update_products_def Let_def split: if_splits)

lemma same_terms_simps [simp]:
  "same_terms p p" "same_terms p (set_product_active b q) = same_terms p q"
  "same_terms p (set_product_terms q r) = same_terms p q"
  by (auto simp: same_terms_def set_product_active_def set_product_terms_def)

lemma set_product_id [simp]:
  "pr_id (set_product_active b p) = pr_id p" "pr_id (set_product_terms q p) = pr_id p"
  by (simp_all add: set_product_active_def set_product_terms_def)

lemma set_product_comp [simp]: "set_product_terms q \<circ> set_product_active b = set_product_terms q"
  by (rule ext) (simp add: set_product_terms_def set_product_active_def)

lemma UpdateProductGuarded_ok:
  assumes "UpdateProductGuarded (Some q) w = (Inr (), w')"
  obtains cur where "cur \<in> set (products (db (step_other w)))" "pr_id cur = pr_id q"
    "(\<exists>ord \<in> set (orders (db (step_other w))). o_product_id ord = pr_id q) \<longrightarrow> same_terms cur q"
    "db w' = (db (step_other w))\<lparr>products :=
       update_where (\<lambda>p. pr_id p = pr_id q) (set_product_terms q) (products (db (step_other w)))\<rparr>"
proof -
  let ?d = "db (step_other w)" and ?P = "\<lambda>p. pr_id p = pr_id q"
  obtain w1 where run: "bindE (tx_queryE (find_product (pr_id q))) (\<lambda>current.
         bindE (txE (update_products ?P (set_product_active (pr_is_active current)))) (\<lambda>_.
         bindE (tx_query (\<lambda>d. count_where (\<lambda>ord. o_product_id ord = pr_id q) (orders d))) (\<lambda>orderCount.
         if 0 < orderCount \<and> \<not> same_terms current q then failE [ErrProductImmutable]
         else bindE (txE (update_products ?P (set_product_terms q)))
                (\<lambda>affected. if affected = 0 then failE [ErrProductNotFound] else returnE ()))))
       (step_other w) = (Inr (), w1)" and w': "db w' = db w1"
    using assms by (auto simp: UpdateProductGuarded_def failE_ok split: if_splits elim: transaction_ok)
  then obtain cur w2 n w3 c w4 m w5 where
    cur: "tx_queryE (find_product (pr_id q)) (step_other w) = (Inr cur, w2)"
    and lock: "txE (update_products ?P (set_product_active (pr_is_active cur))) w2 = (Inr n, w3)"
    and cnt: "tx_query (\<lambda>d. count_where (\<lambda>ord. o_product_id ord = pr_id q) (orders d)) w3 = (Inr c, w4)"
    and guard: "0 < c \<longrightarrow> same_terms cur q"
    and upd: "txE (update_products ?P (set_product_terms q)) w4 = (Inr m, w5)" and w1: "w1 = w5"
    by (auto elim!: bindE_ok simp: plain_ok split: if_splits)
  have d3: "db w3 = ?d\<lparr>products := update_where ?P (set_product_active (pr_is_active cur)) (products ?d)\<rparr>"
    using txE_ok(1) [OF lock] tx_queryE_ok(2) [OF cur] by (auto dest: update_products_ok)
  have "db w5 = ?d\<lparr>products := update_where ?P (set_product_terms q)
      (update_where ?P (set_product_active (pr_is_active cur)) (products ?d))\<rparr>"
    using txE_ok(1) [OF upd] tx_query_ok(2) [OF cnt] d3 by (auto dest: update_products_ok)
  then have "db w' = ?d\<lparr>products := update_where ?P (set_product_terms q) (products ?d)\<rparr>"
    using w' w1 by (simp add: update_where_twice)
  moreover have "(\<exists>ord \<in> set (orders ?d). o_product_id ord = pr_id q) \<longrightarrow> same_terms cur q"
    using guard tx_query_ok(1) [OF cnt] d3 count_where_0 [of "\<lambda>ord. o_product_id ord = pr_id q" "orders ?d"]
    by auto
  ultimately show ?thesis
    using that find_product_ok [OF tx_queryE_ok(1) [OF cur]] by blast
qed

text \<open>Sold products are frozen: an update that succeeds while an order refers to the product
  leaves every term of it that was sold (plan, duration, price, currency) as it was.\<close>

theorem UpdateProductGuarded_frozen:
  assumes "UpdateProductGuarded (Some q) w = (Inr (), w')"
    and "\<exists>ord \<in> set (orders (db (step_other w))). o_product_id ord = pr_id q"
  shows "\<exists>cur \<in> set (products (db (step_other w))). pr_id cur = pr_id q \<and> same_terms cur q"
  using UpdateProductGuarded_ok [OF assms(1)] assms(2) by metis

lemma UpdateProductGuarded_error:
  "UpdateProductGuarded po w = (Inl e, w') \<Longrightarrow> db w' = db w \<or> db w' = db (step_other w)"
  by (auto simp: UpdateProductGuarded_def failE_def dest: transaction_error_db
      split: option.splits if_splits)

end
