(* ===== verification/Order_Store.thy ===== *)
theory Order_Store
  imports Catalog
begin

text \<open>
  Orders: \<open>internal/database/orders.go\<close>.

  An order is a payment intent. Every change of its status is a compare-and-swap on the status
  column; the two payment transitions that touch the subscription (\<open>ConfirmOrderPaidCAS\<close>,
  \<open>CancelPaidOrderAndDowngradeCAS\<close>) run in one transaction with their audit entries and with
  the plan application they are given as a callback.

  \<open>orders_evolve\<close> is the contract of the table: the indexes hold, ids are never reused, the
  commercial terms of an order never change, its status only moves forward, a settled order
  keeps its provider transaction and a paid one its dates. It is interpreted as a database
  contract, so it holds of every interleaving with sessions that respect it.
\<close>

section \<open>The table and its constraints\<close>

definition PlategaProvider :: string where "PlategaProvider = ''platega''"

text \<open>\<open>idx_orders_provider_payment_unique\<close> and \<open>idx_orders_pending_subscription_product_unique\<close>.\<close>

definition has_payment :: "order \<Rightarrow> bool" where
  "has_payment r \<longleftrightarrow> o_provider_payment_id r \<noteq> []"

definition payment_key :: "order \<Rightarrow> string \<times> string" where
  "payment_key r = (o_payment_provider r, o_provider_payment_id r)"

definition open_intent :: "order \<Rightarrow> bool" where
  "open_intent r \<longleftrightarrow> o_status r = OrderStatusPending \<and> o_payment_provider r = PlategaProvider"

definition intent_key :: "order \<Rightarrow> uint \<times> uint \<times> string" where
  "intent_key r = (o_subscription_id r, o_product_id r, o_payment_provider r)"

definition orders_valid :: "order list \<Rightarrow> bool" where
  "orders_valid os \<longleftrightarrow> distinct (map payment_key (filter has_payment os))
     \<and> distinct (map intent_key (filter open_intent os))"

definition update_orders ::
  "(order \<Rightarrow> bool) \<Rightarrow> (order \<Rightarrow> order) \<Rightarrow> db \<Rightarrow> error + (nat \<times> db)" where
  "update_orders P f d =
     (let os = update_where P f (orders d) in
      if orders_valid os then Inr (count_where P (orders d), d\<lparr>orders := os\<rparr>)
      else Inl [SqliteUnique])"

definition insert_order :: "order \<Rightarrow> db \<Rightarrow> error + (order \<times> db)" where
  "insert_order r d =
     (let r' = r\<lparr>o_id := Suc (order_seq d)\<rparr>; os = orders d @ [r'] in
      if o_amount_cents r < 0 then Inl [SqliteCheck]
      else if \<not> orders_valid os then Inl [SqliteUnique]
      else if \<not> list_ex (\<lambda>s. s_id s = o_subscription_id r) (subscriptions d)
        \<or> \<not> list_ex (\<lambda>p. pr_id p = o_product_id r) (products d) then Inl [SqliteForeignKey]
      else Inr (r', d\<lparr>orders := os, order_seq := Suc (order_seq d)\<rparr>))"

definition set_order_status :: "order_status \<Rightarrow> order \<Rightarrow> order" where
  "set_order_status st r = r\<lparr>o_status := st\<rparr>"

definition find_order :: "(order \<Rightarrow> bool) \<Rightarrow> db \<Rightarrow> error + order" where
  "find_order P d =
     (case select_first P (orders d) of None \<Rightarrow> Inl [ErrOrderNotFound] | Some r \<Rightarrow> Inr r)"

section \<open>Lookups\<close>

definition GetOrderByID :: "uint \<Rightarrow> (world, order) op" where
  "GetOrderByID i = queryE (find_order (\<lambda>r. o_id r = i))"

definition of_payment :: "string \<Rightarrow> string \<Rightarrow> order \<Rightarrow> bool" where
  "of_payment provider ppid r \<longleftrightarrow> o_payment_provider r = provider \<and> o_provider_payment_id r = ppid"

definition GetOrderByProviderPaymentID :: "string \<Rightarrow> string \<Rightarrow> (world, order) op" where
  "GetOrderByProviderPaymentID provider ppid = queryE (find_order (of_payment provider ppid))"

definition stalePendingOrderLookback :: duration where
  "stalePendingOrderLookback = 30 * 24 * hour"

definition stale_pending :: "time \<Rightarrow> order \<Rightarrow> bool" where
  "stale_pending before r \<longleftrightarrow> o_status r = OrderStatusPending \<and> \<not> o_payment_creation_uncertain r
     \<and> (case o_payment_expires_at r of None \<Rightarrow> False
        | Some t \<Rightarrow> before - stalePendingOrderLookback \<le> t \<and> t < before)"

definition GetStalePendingOrdersAfterID :: "time \<Rightarrow> uint \<Rightarrow> nat \<Rightarrow> (world, order list) op" where
  "GetStalePendingOrdersAfterID before afterID limit =
     query (\<lambda>d. take limit (sort_key o_id
       (filter (\<lambda>r. stale_pending before r \<and> afterID < o_id r) (orders d))))"

definition fee_missing :: "order \<Rightarrow> bool" where
  "fee_missing r \<longleftrightarrow> o_status r = OrderStatusPaid \<and> o_payment_provider r = PlategaProvider
     \<and> has_payment r \<and> o_provider_fee_cents r = None"

definition limit_rows :: "nat \<Rightarrow> 'a list \<Rightarrow> 'a list" where
  "limit_rows limit rs = (if 0 < limit then take limit rs else rs)"

definition GetPaidOrdersWithoutProviderFeeAfterID :: "uint \<Rightarrow> nat \<Rightarrow> (world, order list) op" where
  "GetPaidOrdersWithoutProviderFeeAfterID afterID limit =
     query (\<lambda>d. limit_rows limit (sort_key o_id
       (filter (\<lambda>r. fee_missing r \<and> (0 < afterID \<longrightarrow> afterID < o_id r)) (orders d))))"

definition GetPaidOrdersWithoutProviderFee :: "nat \<Rightarrow> (world, order list) op" where
  "GetPaidOrdersWithoutProviderFee limit = GetPaidOrdersWithoutProviderFeeAfterID 0 limit"

definition GetOrdersBySubscriptionID :: "uint \<Rightarrow> (world, order list) op" where
  "GetOrdersBySubscriptionID subscriptionID =
     query (\<lambda>d. sort_key (\<lambda>r. - o_created_at r)
       (filter (\<lambda>r. o_subscription_id r = subscriptionID) (orders d)))"

section \<open>Single-statement transitions\<close>

definition pending_with_id :: "uint \<Rightarrow> order \<Rightarrow> bool" where
  "pending_with_id i r \<longleftrightarrow> o_id r = i \<and> o_status r = OrderStatusPending"

definition ExpirePendingOrder :: "uint \<Rightarrow> (world, bool) op" where
  "ExpirePendingOrder orderID =
     bindE (stmtE (update_orders (pending_with_id orderID) (set_order_status OrderStatusExpired)))
       (\<lambda>n. returnE (0 < n))"

definition set_provider_payment :: "string \<Rightarrow> string \<Rightarrow> order \<Rightarrow> order" where
  "set_provider_payment provider ppid r = r\<lparr>o_provider_payment_id := ppid, o_payment_provider := provider\<rparr>"

definition AttachProviderPaymentID :: "uint \<Rightarrow> string \<Rightarrow> string \<Rightarrow> (world, bool) op" where
  "AttachProviderPaymentID orderID provider ppid =
     bindE (stmtE (update_orders (\<lambda>r. o_id r = orderID \<and> \<not> has_payment r) (set_provider_payment provider ppid)))
       (\<lambda>n. returnE (0 < n))"

definition set_uncertain :: "bool \<Rightarrow> order \<Rightarrow> order" where
  "set_uncertain b r = r\<lparr>o_payment_creation_uncertain := b\<rparr>"

definition uncertain_claim :: "uint \<Rightarrow> bool \<Rightarrow> order \<Rightarrow> bool" where
  "uncertain_claim orderID uncertain r \<longleftrightarrow> pending_with_id orderID r
     \<and> (if uncertain then \<not> o_payment_creation_uncertain r \<and> \<not> has_payment r
        else o_payment_creation_uncertain r)"

definition MarkPaymentCreationUncertain :: "uint \<Rightarrow> bool \<Rightarrow> (world, bool) op" where
  "MarkPaymentCreationUncertain orderID uncertain =
     bindE (stmtE (update_orders (uncertain_claim orderID uncertain) (set_uncertain uncertain))) (\<lambda>n.
     if n = 1 \<and> uncertain
     then tryE (queryE (find_order (\<lambda>r. o_id r = orderID))) (\<lambda>loaded.
            bindE (case loaded of Inl _ \<Rightarrow> returnE ()
                   | Inr r \<Rightarrow> insertAuditLogBestEffort (AuditPaymentCreationUncertain r)) (\<lambda>_.
            returnE (n = 1)))
     else returnE (n = 1))"

definition set_payment_details :: "string \<Rightarrow> string \<Rightarrow> time \<Rightarrow> order \<Rightarrow> order" where
  "set_payment_details ppid url expires r =
     r\<lparr>o_provider_payment_id := ppid, o_payment_url := url, o_payment_expires_at := Some expires,
       o_payment_creation_uncertain := False\<rparr>"

definition SavePaymentDetails :: "uint \<Rightarrow> string \<Rightarrow> string \<Rightarrow> time \<Rightarrow> (world, unit) op" where
  "SavePaymentDetails orderID ppid url expires =
     bindE (stmtE (update_orders (pending_with_id orderID) (set_payment_details ppid url expires)))
       (\<lambda>n. if n = 0 then failE [ErrOrderNotFound] else returnE ())"

definition set_payment_amounts :: "cents \<Rightarrow> cents option \<Rightarrow> order \<Rightarrow> order" where
  "set_payment_amounts amount fee r =
     (let r1 = r\<lparr>o_callback_amount_cents := Some amount\<rparr> in
      case fee of None \<Rightarrow> r1 | Some f \<Rightarrow> r1\<lparr>o_provider_fee_cents := Some f\<rparr>)"

definition SaveOrderPaymentAmounts :: "uint \<Rightarrow> cents \<Rightarrow> cents option \<Rightarrow> (world, unit) op" where
  "SaveOrderPaymentAmounts orderID amount fee =
     bindE (stmtE (update_orders (\<lambda>r. o_id r = orderID) (set_payment_amounts amount fee)))
       (\<lambda>_. returnE ())"

definition CancelOrderCAS :: "string \<Rightarrow> string \<Rightarrow> order_status list \<Rightarrow> (world, bool) op" where
  "CancelOrderCAS provider ppid fromStatuses =
     bindE (stmtE (update_orders (\<lambda>r. of_payment provider ppid r \<and> o_status r \<in> set fromStatuses)
              (set_order_status OrderStatusCanceled))) (\<lambda>n.
     if 0 < n
     then tryE (GetOrderByProviderPaymentID provider ppid) (\<lambda>loaded.
            bindE (case loaded of Inl _ \<Rightarrow> returnE ()
                   | Inr r \<Rightarrow> insertAuditLogBestEffort (AuditOrderCanceled r ActorPaymentProvider)) (\<lambda>_.
            returnE (0 < n)))
     else returnE (0 < n))"

section \<open>The payment intent\<close>

definition intent_of :: "uint \<Rightarrow> uint \<Rightarrow> order \<Rightarrow> bool" where
  "intent_of subscriptionID productID r \<longleftrightarrow> o_subscription_id r = subscriptionID
     \<and> o_product_id r = productID \<and> o_payment_provider r = PlategaProvider
     \<and> o_status r = OrderStatusPending"

definition link_expired :: "time \<Rightarrow> order \<Rightarrow> bool" where
  "link_expired now r = (case o_payment_expires_at r of None \<Rightarrow> False | Some t \<Rightarrow> \<not> now < t)"

definition FindPendingPaymentOrder :: "uint \<Rightarrow> uint \<Rightarrow> time \<Rightarrow> (world, order option) op" where
  "FindPendingPaymentOrder subscriptionID productID now =
     bindE (query (\<lambda>d. select_first (intent_of subscriptionID productID) (orders d))) (\<lambda>found.
     case found of None \<Rightarrow> returnE None
     | Some r \<Rightarrow>
         if link_expired now r then
           bindE (stmtE (update_orders (pending_with_id (o_id r)) (set_order_status OrderStatusExpired))) (\<lambda>n.
           if n = 1 then
             (let r' = r\<lparr>o_status := OrderStatusExpired\<rparr> in
              bindE (insertAuditLogBestEffort (AuditOrderExpired r')) (\<lambda>_. returnE (Some r')))
           else bindE (queryE (find_order (\<lambda>c. o_id c = o_id r))) (\<lambda>current. returnE (Some current)))
         else returnE (Some r))"

definition new_intent :: "uint \<Rightarrow> uint \<Rightarrow> cents \<Rightarrow> string \<Rightarrow> time \<Rightarrow> order" where
  "new_intent subscriptionID productID amountCents currency now =
     \<lparr>o_id = 0, o_subscription_id = subscriptionID, o_product_id = productID,
      o_status = OrderStatusPending, o_amount_cents = amountCents, o_callback_amount_cents = None,
      o_provider_fee_cents = None, o_currency = currency, o_payment_provider = PlategaProvider,
      o_provider_payment_id = [], o_created_at = now, o_paid_at = None, o_activated_at = None,
      o_expires_at = None, o_payment_url = [], o_payment_expires_at = None,
      o_payment_creation_uncertain = False\<rparr>"

text \<open>The transaction of \<open>FindOrCreatePendingPaymentOrder\<close>: the intent, and the one it expired.\<close>

definition find_or_create_tx ::
  "uint \<Rightarrow> uint \<Rightarrow> cents \<Rightarrow> string \<Rightarrow> time \<Rightarrow> (world, order \<times> order option) op" where
  "find_or_create_tx subscriptionID productID amountCents currency now =
     (let create = (\<lambda>expired.
            bindE (txE (insert_order (new_intent subscriptionID productID amountCents currency now)))
              (\<lambda>r. returnE (r, expired))) in
      bindE (tx_query (\<lambda>d. select_first (intent_of subscriptionID productID) (orders d))) (\<lambda>found.
      case found of
        None \<Rightarrow> create None
      | Some r \<Rightarrow>
          if o_payment_creation_uncertain r then returnE (r, None)
          else if link_expired now r then
            bindE (txE (update_orders (pending_with_id (o_id r)) (set_order_status OrderStatusExpired)))
              (\<lambda>_. create (Some (r\<lparr>o_status := OrderStatusExpired\<rparr>)))
          else returnE (r, None)))"

definition FindOrCreatePendingPaymentOrder ::
  "uint \<Rightarrow> uint \<Rightarrow> cents \<Rightarrow> string \<Rightarrow> time \<Rightarrow> (world, order) op" where
  "FindOrCreatePendingPaymentOrder subscriptionID productID amountCents currency now =
     tryE (transaction (find_or_create_tx subscriptionID productID amountCents currency now)) (\<lambda>res.
     case res of
       Inr (r, expired) \<Rightarrow>
         bindE (case expired of None \<Rightarrow> returnE ()
                | Some e \<Rightarrow> insertAuditLogBestEffort (AuditOrderExpired e)) (\<lambda>_. returnE r)
     | Inl e \<Rightarrow>
         if errors_is e SqliteUnique
         then bindE (query (\<lambda>d. select_first (intent_of subscriptionID productID) (orders d))) (\<lambda>found.
                case found of Some r \<Rightarrow> returnE r | None \<Rightarrow> failE [ErrRecordNotFound])
         else failE e)"

section \<open>Payment confirmation\<close>

definition CalculatePaymentExpiry :: "time \<Rightarrow> subscription option \<Rightarrow> product option \<Rightarrow> time" where
  "CalculatePaymentExpiry now sub product =
     (let base = (case (sub, product) of
                    (Some s, Some p) \<Rightarrow>
                      (case s_expires_at s of
                         Some t \<Rightarrow> if s_plan_id s = pr_plan_id p \<and> now < t then t else now
                       | None \<Rightarrow> now)
                  | _ \<Rightarrow> now)
      in (case product of None \<Rightarrow> base | Some p \<Rightarrow> add_days base (pr_duration_days p)))"

definition find_subscription :: "uint \<Rightarrow> db \<Rightarrow> error + subscription" where
  "find_subscription i d =
     (case select_first (\<lambda>s. s_id s = i) (subscriptions d) of
        None \<Rightarrow> Inl [ErrSubscriptionNotFound] | Some s \<Rightarrow> Inr s)"

definition update_subscriptions ::
  "(subscription \<Rightarrow> bool) \<Rightarrow> (subscription \<Rightarrow> subscription) \<Rightarrow> db \<Rightarrow> nat \<times> db" where
  "update_subscriptions P f d =
     (count_where P (subscriptions d), d\<lparr>subscriptions := update_where P f (subscriptions d)\<rparr>)"

definition payable :: "uint \<Rightarrow> order \<Rightarrow> bool" where
  "payable i r \<longleftrightarrow> o_id r = i \<and> (o_status r = OrderStatusPending \<or> o_status r = OrderStatusExpired)"

definition mark_paid :: "time \<Rightarrow> time \<Rightarrow> time \<Rightarrow> cents \<Rightarrow> order \<Rightarrow> order" where
  "mark_paid paidAt activatedAt newExpiry amount r =
     r\<lparr>o_status := OrderStatusPaid, o_paid_at := Some paidAt, o_activated_at := Some activatedAt,
       o_expires_at := Some newExpiry, o_callback_amount_cents := Some amount\<rparr>"

definition grant_product :: "product \<Rightarrow> time \<Rightarrow> time \<Rightarrow> subscription \<Rightarrow> subscription" where
  "grant_product product activatedAt newExpiry s =
     s\<lparr>s_plan_id := pr_plan_id product, s_status := SubscriptionStatusActive,
       s_expires_at := Some newExpiry, s_product_id := Some (pr_id product),
       s_started_at := Some activatedAt, s_price_paid_cents := pr_price_cents product,
       s_currency := Some (pr_currency product), s_reminders_sent := 0\<rparr>"

type_synonym apply_plan = "uint \<Rightarrow> uint \<Rightarrow> (world, unit) op"

text \<open>
  The result is the pair of the \<open>activated\<close> flag and the subscription the caller's pointer holds
  afterwards.
\<close>

definition confirm_tx ::
  "uint \<Rightarrow> time \<Rightarrow> time \<Rightarrow> subscription \<Rightarrow> product \<Rightarrow> apply_plan option \<Rightarrow> cents \<Rightarrow>
   (world, bool \<times> subscription) op" where
  "confirm_tx orderID paidAt activatedAt sub product applyPlan amount =
     bindE (tx_queryE (find_subscription (s_id sub))) (\<lambda>currentSub.
     let newExpiry = CalculatePaymentExpiry activatedAt (Some currentSub) (Some product) in
     bindE (tx_queryE (find_order (\<lambda>r. o_id r = orderID))) (\<lambda>order.
     bindE (txE (update_orders (payable orderID) (mark_paid paidAt activatedAt newExpiry amount))) (\<lambda>n.
     if n = 0 then returnE (False, sub)
     else
     bindE (tx_execE (update_subscriptions (\<lambda>s. s_id s = s_id sub)
              (grant_product product activatedAt newExpiry))) (\<lambda>m.
     if m = 0 then failE [ErrSubscriptionNotFound]
     else
     let renewedSub = grant_product product activatedAt newExpiry currentSub in
     bindE (InsertAuditLogInTx (AuditPaymentConfirmed order (Some renewedSub) (Some product) newExpiry)) (\<lambda>_.
     bindE (InsertAuditLogInTx (AuditSubscriptionRenewed (Some currentSub) renewedSub (Some product))) (\<lambda>_.
     bindE (case applyPlan of
              Some apply_fn \<Rightarrow>
                if s_plan_id currentSub \<noteq> pr_plan_id product
                then apply_fn (s_id sub) (pr_plan_id product) else returnE ()
            | None \<Rightarrow> returnE ()) (\<lambda>_.
     returnE (True, renewedSub))))))))"

definition ConfirmOrderPaidCAS ::
  "uint \<Rightarrow> time \<Rightarrow> time \<Rightarrow> subscription \<Rightarrow> product \<Rightarrow> apply_plan option \<Rightarrow> cents \<Rightarrow>
   (world, bool \<times> subscription) op" where
  "ConfirmOrderPaidCAS orderID paidAt activatedAt sub product applyPlan amount =
     transaction (confirm_tx orderID paidAt activatedAt sub product applyPlan amount)"

section \<open>Chargeback\<close>

record chargeback_result =
  cb_order :: order
  cb_was_paid :: bool
  cb_transitioned :: bool
  cb_downgraded :: bool

definition covers :: "uint \<Rightarrow> time \<Rightarrow> order \<Rightarrow> bool" where
  "covers subscriptionID now r \<longleftrightarrow> o_subscription_id r = subscriptionID \<and> o_status r = OrderStatusPaid
     \<and> (case o_expires_at r of None \<Rightarrow> True | Some t \<Rightarrow> now < t)"

definition reset_to_free :: "uint \<Rightarrow> subscription \<Rightarrow> subscription" where
  "reset_to_free freePlanID s =
     s\<lparr>s_status := SubscriptionStatusActive, s_expires_at := None, s_plan_id := freePlanID,
       s_product_id := None, s_started_at := None, s_price_paid_cents := 0, s_currency := None\<rparr>"

text \<open>
  The transaction, in three parts: the entitlement reset; what follows a successful status swap;
  the whole.
\<close>

definition chargeback_downgrade ::
  "uint \<Rightarrow> apply_plan option \<Rightarrow> subscription \<Rightarrow> order \<Rightarrow> (world, unit) op" where
  "chargeback_downgrade freePlanID applyPlan currentSub canceled =
     bindE (tx_execE (update_subscriptions (\<lambda>s. s_id s = o_subscription_id canceled)
              (reset_to_free freePlanID))) (\<lambda>m.
     if m = 0 then failE [ErrSubscriptionNotFound]
     else
     bindE (case applyPlan of Some apply_fn \<Rightarrow> apply_fn (o_subscription_id canceled) freePlanID
            | None \<Rightarrow> returnE ()) (\<lambda>_.
     InsertAuditLogInTx (AuditChargebackReceived canceled currentSub True)))"

definition chargeback_settle ::
  "time \<Rightarrow> uint \<Rightarrow> apply_plan option \<Rightarrow> subscription \<Rightarrow> order \<Rightarrow> (world, chargeback_result) op" where
  "chargeback_settle now freePlanID applyPlan currentSub order =
     bindE (InsertAuditLogInTx (AuditOrderCanceled order ActorPaymentProvider)) (\<lambda>_.
     let wasPaid = (o_status order = OrderStatusPaid);
         canceled = order\<lparr>o_status := OrderStatusCanceled\<rparr>;
         kept = \<lparr>cb_order = canceled, cb_was_paid = wasPaid, cb_transitioned = True,
                 cb_downgraded = False\<rparr> in
     if \<not> wasPaid then returnE kept
     else if s_status currentSub \<noteq> SubscriptionStatusActive then returnE kept
     else
     bindE (tx_query (\<lambda>d. count_where (covers (o_subscription_id order) now) (orders d))) (\<lambda>activePaid.
     if 0 < activePaid then returnE kept
     else
     bindE (chargeback_downgrade freePlanID applyPlan currentSub canceled) (\<lambda>_.
     returnE (kept\<lparr>cb_downgraded := True\<rparr>))))"

definition chargeback_tx ::
  "string \<Rightarrow> string \<Rightarrow> time \<Rightarrow> uint \<Rightarrow> apply_plan option \<Rightarrow> (world, chargeback_result option) op" where
  "chargeback_tx provider ppid now freePlanID applyPlan =
     bindE (tx_query (\<lambda>d. select_first (of_payment provider ppid) (orders d))) (\<lambda>found.
     case found of None \<Rightarrow> returnE None
     | Some order0 \<Rightarrow>
     bindE (tx_queryE (find_subscription (o_subscription_id order0))) (\<lambda>currentSub.
     bindE (tx_query (\<lambda>d. select_first (\<lambda>r. o_id r = o_id order0) (orders d))) (\<lambda>reloaded.
     case reloaded of None \<Rightarrow> failE [ErrRecordNotFound]
     | Some order \<Rightarrow>
     let wasPaid = (o_status order = OrderStatusPaid);
         fromStatus = (if wasPaid then OrderStatusPaid else OrderStatusPending) in
     bindE (txE (update_orders (\<lambda>r. o_id r = o_id order \<and> o_status r = fromStatus)
              (set_order_status OrderStatusCanceled))) (\<lambda>n.
     if n = 0 then
       returnE (Some \<lparr>cb_order = order, cb_was_paid = wasPaid, cb_transitioned = False,
                      cb_downgraded = False\<rparr>)
     else bindE (chargeback_settle now freePlanID applyPlan currentSub order) (\<lambda>res.
          returnE (Some res))))))"

definition CancelPaidOrderAndDowngradeCAS ::
  "string \<Rightarrow> string \<Rightarrow> time \<Rightarrow> uint \<Rightarrow> apply_plan option \<Rightarrow> (world, chargeback_result option) op" where
  "CancelPaidOrderAndDowngradeCAS provider ppid now freePlanID applyPlan =
     transaction (chargeback_tx provider ppid now freePlanID applyPlan)"

section \<open>The contract of the table\<close>

definition order_evolves :: "order \<Rightarrow> order \<Rightarrow> bool" where
  "order_evolves r r' \<longleftrightarrow>
     o_id r' = o_id r \<and> o_subscription_id r' = o_subscription_id r \<and> o_product_id r' = o_product_id r
     \<and> o_amount_cents r' = o_amount_cents r \<and> o_currency r' = o_currency r
     \<and> o_created_at r' = o_created_at r
     \<and> o_status r \<le> o_status r'
     \<and> (o_status r \<noteq> OrderStatusPending \<and> has_payment r \<longrightarrow> payment_key r' = payment_key r)
     \<and> (OrderStatusPaid \<le> o_status r \<longrightarrow>
          o_paid_at r' = o_paid_at r \<and> o_activated_at r' = o_activated_at r \<and> o_expires_at r' = o_expires_at r)"

definition paid_dated :: "order \<Rightarrow> bool" where
  "paid_dated r \<longleftrightarrow> (o_status r = OrderStatusPaid \<longrightarrow> o_paid_at r \<noteq> None \<and> o_expires_at r \<noteq> None)"

definition orders_wf :: "db \<Rightarrow> bool" where
  "orders_wf d \<longleftrightarrow> orders_valid (orders d) \<and> distinct (map o_id (orders d))
     \<and> (\<forall>r \<in> set (orders d). o_id r \<le> order_seq d \<and> paid_dated r \<and> 0 \<le> o_amount_cents r)"

definition orders_evolve :: "db \<Rightarrow> db \<Rightarrow> bool" where
  "orders_evolve d d' \<longleftrightarrow>
     (orders_wf d \<longrightarrow> orders_wf d' \<and> order_seq d \<le> order_seq d'
        \<and> (\<forall>r' \<in> set (orders d'). o_id r' \<le> order_seq d \<longrightarrow> (\<exists>r \<in> set (orders d). order_evolves r r')))"

lemma order_evolves_refl [simp]: "order_evolves r r"
  by (simp add: order_evolves_def)

lemma order_evolves_trans: "order_evolves r s \<Longrightarrow> order_evolves s t \<Longrightarrow> order_evolves r t"
  by (cases "o_status r"; cases "o_status s"; cases "o_status t";
      auto simp: order_evolves_def has_payment_def payment_key_def less_eq_order_status_def)

lemma order_evolves_id: "order_evolves r r' \<Longrightarrow> o_id r' = o_id r"
  by (simp add: order_evolves_def)

interpretation orders: db_contract orders_evolve
proof
  fix d
  show "orders_evolve d d"
    by (auto simp: orders_evolve_def intro: order_evolves_refl)
next
  fix d e f
  assume de: "orders_evolve d e" and ef: "orders_evolve e f"
  show "orders_evolve d f"
    unfolding orders_evolve_def
  proof (intro impI conjI ballI)
    assume wf: "orders_wf d"
    then have e: "orders_wf e" "order_seq d \<le> order_seq e"
      using de by (simp_all add: orders_evolve_def)
    then show "orders_wf f" "order_seq d \<le> order_seq f"
      using ef by (auto simp: orders_evolve_def)
    fix r'
    assume r': "r' \<in> set (orders f)" "o_id r' \<le> order_seq d"
    then obtain s where s: "s \<in> set (orders e)" "order_evolves s r'"
      using ef e by (auto simp: orders_evolve_def)
    with r' have "o_id s \<le> order_seq d"
      by (simp add: order_evolves_id)
    then obtain r where "r \<in> set (orders d)" "order_evolves r s"
      using de wf s by (auto simp: orders_evolve_def)
    then show "\<exists>r \<in> set (orders d). order_evolves r r'"
      using s order_evolves_trans by blast
  qed
qed

lemma orders_evolve_same:
  "orders d' = orders d \<Longrightarrow> order_seq d' = order_seq d \<Longrightarrow> orders_evolve d d'"
  by (auto simp: orders_evolve_def orders_wf_def intro: order_evolves_refl)

text \<open>An update of the table respects the contract when it does so row by row.\<close>

lemma update_orders_ok:
  "update_orders P f d = Inr (n, d') \<Longrightarrow>
     d' = d\<lparr>orders := update_where P f (orders d)\<rparr> \<and> n = count_where P (orders d)
     \<and> orders_valid (update_where P f (orders d))"
  by (auto simp: update_orders_def Let_def split: if_splits)

lemma update_orders_evolve:
  assumes upd: "update_orders P f d = Inr (n, d')"
    and row: "\<And>r. P r \<Longrightarrow> order_evolves r (f r) \<and> (paid_dated r \<longrightarrow> paid_dated (f r))"
  shows "orders_evolve d d'"
proof -
  have d': "d' = d\<lparr>orders := update_where P f (orders d)\<rparr>" and ok: "orders_valid (update_where P f (orders d))"
    using update_orders_ok [OF upd] by simp_all
  have keys: "map o_id (update_where P f (orders d)) = map o_id (orders d)"
    by (rule map_key_update_where) (use row order_evolves_id in blast)
  have rows: "\<exists>r \<in> set (orders d). order_evolves r r' \<and> (paid_dated r \<longrightarrow> paid_dated r')"
    if new: "r' \<in> set (update_where P f (orders d))" for r'
  proof -
    obtain r where r: "r \<in> set (orders d)" "r' = (if P r then f r else r)"
      using new by (auto simp: set_update_where simp del: if_split)
    then have "order_evolves r r' \<and> (paid_dated r \<longrightarrow> paid_dated r')"
      using row [of r] by simp
    with r(1) show ?thesis by blast
  qed
  have amount: "0 \<le> o_amount_cents r'"
    if "order_evolves r r'" "0 \<le> o_amount_cents r" for r r'
    using that by (simp add: order_evolves_def)
  show ?thesis
    unfolding orders_evolve_def orders_wf_def d'
    using ok keys rows amount by (simp add: Bex_def) (metis order_evolves_id)
qed

lemma insert_order_ok:
  assumes "insert_order r d = Inr (r', d')"
  shows "r' = r\<lparr>o_id := Suc (order_seq d)\<rparr>" "d' = d\<lparr>orders := orders d @ [r'], order_seq := Suc (order_seq d)\<rparr>"
    "orders_valid (orders d @ [r'])" "0 \<le> o_amount_cents r"
  using assms by (auto simp: insert_order_def Let_def split: if_splits)

lemma insert_order_evolve:
  assumes ins: "insert_order r d = Inr (r', d')" and "paid_dated r"
  shows "orders_evolve d d'"
  using insert_order_ok [OF ins] assms(2)
  by (auto simp: orders_evolve_def orders_wf_def paid_dated_def intro: order_evolves_refl)

text \<open>The row functions of the transitions.\<close>

lemma row_steps:
  "pending_with_id i r \<Longrightarrow> order_evolves r (set_order_status OrderStatusExpired r)"
  "\<not> has_payment r \<Longrightarrow> order_evolves r (set_provider_payment p q r)"
  "order_evolves r (set_uncertain b r)"
  "pending_with_id i r \<Longrightarrow> order_evolves r (set_payment_details q u t r)"
  "order_evolves r (set_payment_amounts a f r)"
  "order_evolves r (set_order_status OrderStatusCanceled r)"
  "payable i r \<Longrightarrow> order_evolves r (mark_paid t1 t2 t3 a r)"
  by (auto simp: order_evolves_def pending_with_id_def payable_def has_payment_def payment_key_def
      set_order_status_def set_provider_payment_def set_uncertain_def set_payment_details_def
      set_payment_amounts_def mark_paid_def Let_def split: option.splits)

lemma row_dated:
  "st \<noteq> OrderStatusPaid \<Longrightarrow> paid_dated (set_order_status st r)"
  "paid_dated r \<Longrightarrow> paid_dated (set_provider_payment p q r)"
  "paid_dated r \<Longrightarrow> paid_dated (set_uncertain b r)"
  "paid_dated r \<Longrightarrow> paid_dated (set_payment_details q u t r)"
  "paid_dated r \<Longrightarrow> paid_dated (set_payment_amounts a f r)"
  "paid_dated (mark_paid t1 t2 t3 a r)"
  by (auto simp: paid_dated_def set_order_status_def set_provider_payment_def set_uncertain_def
      set_payment_details_def set_payment_amounts_def mark_paid_def Let_def split: option.splits)

text \<open>An order whose payment can still be created: pending, not claimed, and without a payment.\<close>

definition claimable :: "order \<Rightarrow> bool" where
  "claimable r \<longleftrightarrow> o_status r = OrderStatusPending \<and> \<not> o_payment_creation_uncertain r \<and> \<not> has_payment r"

text \<open>No row function makes an order claimable, but for the release of a claim and an empty payment id.\<close>

lemma row_claims:
  "st \<noteq> OrderStatusPending \<Longrightarrow> \<not> claimable (set_order_status st r)"
  "\<not> has_payment r \<Longrightarrow> claimable (set_provider_payment p q r) \<Longrightarrow> claimable r"
  "\<not> claimable (set_uncertain True r)"
  "p \<noteq> [] \<Longrightarrow> \<not> claimable (set_payment_details p u t1 r)"
  "claimable (set_payment_amounts a f r) \<Longrightarrow> claimable r"
  "\<not> claimable (mark_paid t1 t2 t3 a r)"
  by (auto simp: claimable_def has_payment_def set_order_status_def set_provider_payment_def set_uncertain_def
      set_payment_details_def set_payment_amounts_def mark_paid_def Let_def split: option.splits)

text \<open>
  What the operations of this file need of a contract: \<open>entitlement_statements\<close>, that it survives
  the audit insert and the two subscription updates; \<open>order_updates\<close>, the updates of the table that
  make no order claimable as well; \<open>order_statements\<close>, also the update that releases a claim and the
  insert of an order, which only the creation of an intent needs. The operations then respect the
  contract, whichever it is.
\<close>

lemma paid_dated_new: "paid_dated (new_intent s p a c now)"
  by (simp add: paid_dated_def new_intent_def)

locale entitlement_statements = db_contract R for R :: "db \<Rightarrow> db \<Rightarrow> bool" +
  assumes audit_R: "\<And>d e. R d (snd (append_audit e d))"
    and grant_R: "\<And>d P q t1 t2. R d (snd (update_subscriptions P (grant_product q t1 t2) d))"
    and reset_R: "\<And>d P fp. R d (snd (update_subscriptions P (reset_to_free fp) d))"
begin

lemma audit_keeps:
  "keeps (on_db R) (InsertAuditLog e)" "keeps (on_db R) (InsertAuditLogInTx e)"
  "keeps (on_db R) (insertAuditLogBestEffort e)"
  unfolding InsertAuditLog_def InsertAuditLogInTx_def insertAuditLogBestEffort_def
  by (intro db_combinators execE_keeps audit_R)+

lemma subscription_keeps:
  "keeps (on_db R) (tx_execE (update_subscriptions P (grant_product q t1 t2)))"
  "keeps (on_db R) (tx_execE (update_subscriptions P (reset_to_free fp)))"
  by (intro execE_keeps grant_R reset_R)+

lemma lookups_keep:
  "keeps (on_db R) (GetOrderByID i)"
  "keeps (on_db R) (GetOrderByProviderPaymentID p q)"
  "keeps (on_db R) (GetStalePendingOrdersAfterID t i n)"
  "keeps (on_db R) (GetPaidOrdersWithoutProviderFeeAfterID i n)"
  "keeps (on_db R) (GetOrdersBySubscriptionID i)"
  unfolding GetOrderByID_def GetOrderByProviderPaymentID_def GetStalePendingOrdersAfterID_def
    GetPaidOrdersWithoutProviderFeeAfterID_def GetOrdersBySubscriptionID_def
  by (intro db_combinators)+

end

locale order_updates = entitlement_statements R for R :: "db \<Rightarrow> db \<Rightarrow> bool" +
  assumes update_R: "\<And>P f d n d'. update_orders P f d = Inr (n, d') \<Longrightarrow>
        (\<And>r. P r \<Longrightarrow> order_evolves r (f r) \<and> (paid_dated r \<longrightarrow> paid_dated (f r))) \<Longrightarrow>
        (\<And>r. P r \<Longrightarrow> claimable (f r) \<Longrightarrow> claimable r) \<Longrightarrow> R d d'"
begin

lemma update_orders_keeps:
  assumes "\<And>r. P r \<Longrightarrow> order_evolves r (f r) \<and> (paid_dated r \<longrightarrow> paid_dated (f r))"
    and "\<And>r. P r \<Longrightarrow> claimable (f r) \<Longrightarrow> claimable r"
  shows "keeps (on_db R) (stmtE (update_orders P f))" "keeps (on_db R) (txE (update_orders P f))"
  by (auto intro!: stmtE_keeps txE_keeps intro: update_R [OF _ assms])

lemmas statements =
  db_combinators update_orders_keeps audit_keeps subscription_keeps lookups_keep

lemma ExpirePendingOrder_keeps: "keeps (on_db R) (ExpirePendingOrder i)"
  unfolding ExpirePendingOrder_def
  by (intro statements) (auto simp: row_steps row_dated row_claims)

lemma AttachProviderPaymentID_keeps: "keeps (on_db R) (AttachProviderPaymentID i p q)"
  unfolding AttachProviderPaymentID_def
  by (intro statements) (auto simp: row_steps row_dated row_claims)

lemma claim_keeps: "keeps (on_db R) (MarkPaymentCreationUncertain i True)"
  unfolding MarkPaymentCreationUncertain_def
  by (intro statements) (auto simp: row_steps row_dated row_claims)

lemma SavePaymentDetails_keeps: "p \<noteq> [] \<Longrightarrow> keeps (on_db R) (SavePaymentDetails i p q t)"
  unfolding SavePaymentDetails_def
  by (intro statements) (auto simp: row_steps row_dated row_claims)

lemma SaveOrderPaymentAmounts_keeps: "keeps (on_db R) (SaveOrderPaymentAmounts i a f)"
  unfolding SaveOrderPaymentAmounts_def
  by (intro statements) (auto simp: row_steps row_dated row_claims)

lemma CancelOrderCAS_keeps: "keeps (on_db R) (CancelOrderCAS p q sts)"
  unfolding CancelOrderCAS_def
  by (intro statements) (auto simp: row_steps row_dated row_claims)

lemma FindPendingPaymentOrder_keeps: "keeps (on_db R) (FindPendingPaymentOrder s p now)"
  unfolding FindPendingPaymentOrder_def
  by (intro statements) (auto simp: row_steps row_dated row_claims)

lemma ConfirmOrderPaidCAS_keeps:
  assumes "\<And>g i j. applyPlan = Some g \<Longrightarrow> keeps (on_db R) (g i j)"
  shows "keeps (on_db R) (ConfirmOrderPaidCAS i t1 t2 sub product applyPlan amount)"
  unfolding ConfirmOrderPaidCAS_def confirm_tx_def
  using assms by (cases applyPlan; simp only: option.case)
    (intro statements; auto simp: row_steps row_dated row_claims)+

lemma CancelPaidOrderAndDowngradeCAS_keeps:
  assumes "\<And>g i j. applyPlan = Some g \<Longrightarrow> keeps (on_db R) (g i j)"
  shows "keeps (on_db R) (CancelPaidOrderAndDowngradeCAS p q now freePlanID applyPlan)"
  unfolding CancelPaidOrderAndDowngradeCAS_def chargeback_tx_def chargeback_settle_def
    chargeback_downgrade_def
  using assms by (cases applyPlan; simp only: option.case)
    (intro statements; auto simp: row_steps row_dated row_claims)+

lemmas operations =
  lookups_keep ExpirePendingOrder_keeps AttachProviderPaymentID_keeps claim_keeps
  SaveOrderPaymentAmounts_keeps CancelOrderCAS_keeps FindPendingPaymentOrder_keeps

end

locale order_statements = order_updates R for R :: "db \<Rightarrow> db \<Rightarrow> bool" +
  assumes insert_R: "\<And>r d r' d'. insert_order r d = Inr (r', d') \<Longrightarrow> paid_dated r \<Longrightarrow> R d d'"
    and release_R: "\<And>P f d n d'. update_orders P f d = Inr (n, d') \<Longrightarrow>
        (\<And>r. P r \<Longrightarrow> order_evolves r (f r) \<and> (paid_dated r \<longrightarrow> paid_dated (f r))) \<Longrightarrow> R d d'"
begin

lemma insert_order_keeps: "paid_dated r \<Longrightarrow> keeps (on_db R) (txE (insert_order r))"
  by (rule txE_keeps) (rule insert_R)

lemma FindOrCreatePendingPaymentOrder_keeps:
  "keeps (on_db R) (FindOrCreatePendingPaymentOrder s p a c now)"
  unfolding FindOrCreatePendingPaymentOrder_def find_or_create_tx_def Let_def
  by (intro statements insert_order_keeps) (auto simp: row_steps row_dated row_claims paid_dated_new)

lemma release_orders_keeps:
  assumes "\<And>r. P r \<Longrightarrow> order_evolves r (f r) \<and> (paid_dated r \<longrightarrow> paid_dated (f r))"
  shows "keeps (on_db R) (stmtE (update_orders P f))"
  by (auto intro!: stmtE_keeps intro: release_R [OF _ assms])

lemma link_operations:
  "keeps (on_db R) (MarkPaymentCreationUncertain i b)" "keeps (on_db R) (SavePaymentDetails i p q t)"
  unfolding MarkPaymentCreationUncertain_def SavePaymentDetails_def
  by (intro db_combinators release_orders_keeps audit_keeps; auto simp: row_steps row_dated)+

end

lemma update_subscriptions_frame [simp]:
  "orders (snd (update_subscriptions P f d)) = orders d"
  "order_seq (snd (update_subscriptions P f d)) = order_seq d"
  "audit (snd (update_subscriptions P f d)) = audit d"
  "subscription_nodes (snd (update_subscriptions P f d)) = subscription_nodes d"
  by (simp_all add: update_subscriptions_def)

interpretation orders_st: order_statements orders_evolve
  by unfold_locales
    (auto intro: update_orders_evolve insert_order_evolve orders_evolve_same)

interpretation journal_st: order_statements journal_grows
  by unfold_locales
    (auto simp: append_audit_grows dest: update_orders_ok insert_order_ok(2))

text \<open>Successful statements, on the database.\<close>

lemma find_order_ok: "find_order P d = Inr r \<Longrightarrow> r \<in> set (orders d) \<and> P r"
  by (auto simp: find_order_def dest: select_first_Some split: option.splits)

lemma find_subscription_ok: "find_subscription i d = Inr s \<Longrightarrow> s \<in> set (subscriptions d) \<and> s_id s = i"
  by (auto simp: find_subscription_def dest: select_first_Some split: option.splits)

lemma InsertAuditLogInTx_ok:
  "InsertAuditLogInTx e w = (Inr u, w') \<Longrightarrow> db w' = snd (append_audit e (db w)) \<and> trace w' = trace w"
  unfolding InsertAuditLogInTx_def by (auto dest: tx_execE_ok)

lemma tx_update_orders_ok:
  "txE (update_orders P f) w = (Inr n, w') \<Longrightarrow>
     db w' = (db w)\<lparr>orders := update_where P f (orders (db w))\<rparr> \<and> n = count_where P (orders (db w))
     \<and> trace w' = trace w"
  using txE_ok(1) [of "update_orders P f" w n w'] txE_ok(2) [of "update_orders P f" w n w']
  by (auto dest: update_orders_ok)

lemma tx_update_subscriptions_ok:
  "tx_execE (update_subscriptions P f) w = (Inr n, w') \<Longrightarrow>
     db w' = (db w)\<lparr>subscriptions := update_where P f (subscriptions (db w))\<rparr>
     \<and> n = count_where P (subscriptions (db w)) \<and> trace w' = trace w"
  using tx_execE_ok [of "update_subscriptions P f" w n w'] by (auto simp: update_subscriptions_def)

end
