(* ===== verification/Node_Store.thy ===== *)
theory Node_Store
  imports Order_Store
begin

text \<open>
  The bindings of subscriptions to VPN nodes: \<open>internal/database/subscription_nodes.go\<close>.

  A binding says what is wanted on a node (\<open>pending_add\<close>, \<open>pending_update\<close>, \<open>pending_remove\<close>) or
  that the node is in step (\<open>active\<close>), with the state of the retry ladder. The primary key is the
  pair of ids, and the table's \<open>CHECK\<close> ties the two retry columns together; \<open>bindings_keep\<close> is
  the contract that both survive.
\<close>

section \<open>The table\<close>

definition sn_key :: "subscription_node \<Rightarrow> uint \<times> uint" where
  "sn_key sn = (sn_subscription_id sn, sn_node_id sn)"

definition retry_ok :: "subscription_node \<Rightarrow> bool" where
  "retry_ok sn \<longleftrightarrow> 0 \<le> sn_retry_count sn \<and> (sn_retry_count sn = 0 \<or> sn_retry_at sn \<noteq> None)"

definition binding :: "uint \<Rightarrow> uint \<Rightarrow> subscription_node \<Rightarrow> bool" where
  "binding subID nodeID sn \<longleftrightarrow> sn_subscription_id sn = subID \<and> sn_node_id sn = nodeID"

definition is_pending :: "subscription_node \<Rightarrow> bool" where
  "is_pending sn \<longleftrightarrow> sn_status sn \<in> {SyncStatusPendingAdd, SyncStatusPendingRemove, SyncStatusPendingUpdate}"

definition update_bindings ::
  "(subscription_node \<Rightarrow> bool) \<Rightarrow> (subscription_node \<Rightarrow> subscription_node) \<Rightarrow> db \<Rightarrow> error + (nat \<times> db)" where
  "update_bindings P f d =
     (let rows = update_where P f (subscription_nodes d) in
      if list_all retry_ok rows
      then Inr (count_where P (subscription_nodes d), d\<lparr>subscription_nodes := rows\<rparr>)
      else Inl [SqliteCheck])"

definition delete_bindings :: "(subscription_node \<Rightarrow> bool) \<Rightarrow> db \<Rightarrow> nat \<times> db" where
  "delete_bindings P d =
     (count_where P (subscription_nodes d),
      d\<lparr>subscription_nodes := delete_where P (subscription_nodes d)\<rparr>)"

definition binding_refs :: "subscription_node \<Rightarrow> db \<Rightarrow> bool" where
  "binding_refs sn d \<longleftrightarrow> list_ex (\<lambda>s. s_id s = sn_subscription_id sn) (subscriptions d)
     \<and> list_ex (\<lambda>n. n_id n = sn_node_id sn) (nodes d)"

definition insert_binding :: "subscription_node \<Rightarrow> db \<Rightarrow> error + (unit \<times> db)" where
  "insert_binding sn d =
     (if \<not> retry_ok sn then Inl [SqliteCheck]
      else if list_ex (binding (sn_subscription_id sn) (sn_node_id sn)) (subscription_nodes d)
        then Inl [SqliteUnique]
      else if \<not> binding_refs sn d then Inl [SqliteForeignKey]
      else Inr ((), d\<lparr>subscription_nodes := subscription_nodes d @ [sn]\<rparr>))"

text \<open>The columns every status transition resets.\<close>

definition set_sync_status :: "sync_status \<Rightarrow> subscription_node \<Rightarrow> subscription_node" where
  "set_sync_status st sn =
     sn\<lparr>sn_status := st, sn_retry_count := 0, sn_retry_at := None, sn_last_error := None\<rparr>"

definition copy_mutable :: "subscription_node \<Rightarrow> subscription_node \<Rightarrow> subscription_node" where
  "copy_mutable new sn =
     sn\<lparr>sn_status := sn_status new, sn_retry_count := sn_retry_count new,
        sn_retry_at := sn_retry_at new, sn_last_error := sn_last_error new\<rparr>"

text \<open>\<open>INSERT ... ON CONFLICT (subscription_id, node_id) DO UPDATE\<close>.\<close>

definition upsert_binding :: "subscription_node \<Rightarrow> db \<Rightarrow> error + (unit \<times> db)" where
  "upsert_binding sn d =
     (let P = binding (sn_subscription_id sn) (sn_node_id sn) in
      if list_ex P (subscription_nodes d)
      then (if retry_ok sn
            then Inr ((), d\<lparr>subscription_nodes := update_where P (copy_mutable sn) (subscription_nodes d)\<rparr>)
            else Inl [SqliteCheck])
      else insert_binding sn d)"

definition set_retry ::
  "int \<Rightarrow> time option \<Rightarrow> error option \<Rightarrow> subscription_node \<Rightarrow> subscription_node" where
  "set_retry retryCount retryAt lastErr sn =
     sn\<lparr>sn_retry_count := retryCount, sn_retry_at := retryAt, sn_last_error := lastErr\<rparr>"

section \<open>Operations\<close>

definition rows_of :: "uint \<Rightarrow> db \<Rightarrow> subscription_node list" where
  "rows_of subID d = filter (\<lambda>sn. sn_subscription_id sn = subID) (subscription_nodes d)"

definition GetBySubscriptionID :: "uint \<Rightarrow> (world, subscription_node list) op" where
  "GetBySubscriptionID subID = query (rows_of subID)"

definition due :: "time \<Rightarrow> subscription_node \<Rightarrow> bool" where
  "due now sn \<longleftrightarrow> is_pending sn
     \<and> (case sn_retry_at sn of None \<Rightarrow> True | Some t \<Rightarrow> t \<le> truncate_minute now)"

definition GetPendingSync :: "time \<Rightarrow> (world, subscription_node list) op" where
  "GetPendingSync now = query (\<lambda>d. filter (due now) (subscription_nodes d))"

definition GetPendingBySubscriptionID :: "time \<Rightarrow> uint \<Rightarrow> (world, subscription_node list) op" where
  "GetPendingBySubscriptionID now subID =
     query (\<lambda>d. filter (\<lambda>sn. sn_subscription_id sn = subID \<and> due now sn) (subscription_nodes d))"

definition CreateSubscriptionNode :: "subscription_node \<Rightarrow> (world, unit) op" where
  "CreateSubscriptionNode sn = stmtE (insert_binding sn)"

definition affects :: "(world, nat) op \<Rightarrow> (world, unit) op" where
  "affects m = bindE m (\<lambda>n. if n = 0 then failE [ErrSubscriptionNodeNotFound] else returnE ())"

definition UpdateSubscriptionNodeStatus :: "uint \<Rightarrow> uint \<Rightarrow> sync_status \<Rightarrow> (world, unit) op" where
  "UpdateSubscriptionNodeStatus subID nodeID st =
     affects (stmtE (update_bindings (binding subID nodeID) (set_sync_status st)))"

definition UpsertSubscriptionNode :: "subscription_node \<Rightarrow> (world, unit) op" where
  "UpsertSubscriptionNode sn = stmtE (upsert_binding sn)"

definition active_on :: "uint \<Rightarrow> uint list \<Rightarrow> subscription_node \<Rightarrow> bool" where
  "active_on subID nodeIDs sn \<longleftrightarrow> sn_subscription_id sn = subID \<and> sn_node_id sn \<in> set nodeIDs
     \<and> sn_status sn = SyncStatusActive"

definition MarkActiveNodesPendingUpdate :: "uint \<Rightarrow> uint list \<Rightarrow> (world, unit) op" where
  "MarkActiveNodesPendingUpdate subID targetNodeIDs =
     (if targetNodeIDs = [] then returnE ()
      else bindE (stmtE (update_bindings (active_on subID targetNodeIDs)
             (set_sync_status SyncStatusPendingUpdate))) (\<lambda>_. returnE ()))"

definition DeleteSubscriptionNode :: "uint \<Rightarrow> uint \<Rightarrow> (world, unit) op" where
  "DeleteSubscriptionNode subID nodeID = affects (execE (delete_bindings (binding subID nodeID)))"

definition DeleteSubscriptionNodesBySubscriptionID :: "uint \<Rightarrow> (world, unit) op" where
  "DeleteSubscriptionNodesBySubscriptionID subID =
     bindE (execE (delete_bindings (\<lambda>sn. sn_subscription_id sn = subID))) (\<lambda>_. returnE ())"

definition UpdateRetry ::
  "uint \<Rightarrow> uint \<Rightarrow> int \<Rightarrow> time option \<Rightarrow> error option \<Rightarrow> (world, unit) op" where
  "UpdateRetry subID nodeID retryCount retryAt lastErr =
     affects (stmtE (update_bindings (binding subID nodeID) (set_retry retryCount retryAt lastErr)))"

definition parked :: "time \<Rightarrow> subscription_node \<Rightarrow> bool" where
  "parked parkedAfter sn = (case sn_retry_at sn of None \<Rightarrow> False | Some t \<Rightarrow> parkedAfter < t)"

definition GetNodesWithParkedSync :: "time \<Rightarrow> (world, uint list) op" where
  "GetNodesWithParkedSync parkedAfter =
     query (\<lambda>d. remdups (map sn_node_id (filter (parked parkedAfter) (subscription_nodes d))))"

definition ReleaseParkedNodesOnNode :: "uint \<Rightarrow> time \<Rightarrow> (world, nat) op" where
  "ReleaseParkedNodesOnNode nodeID parkedAfter =
     stmtE (update_bindings (\<lambda>sn. sn_node_id sn = nodeID \<and> parked parkedAfter sn) (set_retry 0 None None))"

definition CountSubscriptionNodesByStatus :: "(world, sync_status \<Rightarrow> nat) op" where
  "CountSubscriptionNodesByStatus =
     query (\<lambda>d. \<lambda>st. count_where (\<lambda>sn. sn_status sn = st) (subscription_nodes d))"

definition CountParkedSubscriptionNodes :: "time \<Rightarrow> (world, nat) op" where
  "CountParkedSubscriptionNodes parkedAfter = query (\<lambda>d. count_where (parked parkedAfter) (subscription_nodes d))"

section \<open>The contract\<close>

definition bindings_wf :: "db \<Rightarrow> bool" where
  "bindings_wf d \<longleftrightarrow> distinct (map sn_key (subscription_nodes d)) \<and> list_all retry_ok (subscription_nodes d)"

definition bindings_keep :: "db \<Rightarrow> db \<Rightarrow> bool" where
  "bindings_keep d d' \<longleftrightarrow> (bindings_wf d \<longrightarrow> bindings_wf d')"

interpretation bindings: db_contract bindings_keep
  by unfold_locales (auto simp: bindings_keep_def)

lemma bindings_keep_same: "subscription_nodes d' = subscription_nodes d \<Longrightarrow> bindings_keep d d'"
  by (simp add: bindings_keep_def bindings_wf_def)

text \<open>
  What the operations of this file need of a contract: that it survives the writes to this table
  that keep the keys.
\<close>

locale binding_statements = db_contract R for R :: "db \<Rightarrow> db \<Rightarrow> bool" +
  assumes update_R: "\<And>P f d n d'. update_bindings P f d = Inr (n, d') \<Longrightarrow>
        (\<And>sn. sn_key (f sn) = sn_key sn) \<Longrightarrow> R d d'"
    and delete_R: "\<And>P d. R d (snd (delete_bindings P d))"
    and insert_R: "\<And>sn d d'. insert_binding sn d = Inr ((), d') \<Longrightarrow> R d d'"
    and upsert_R: "\<And>sn d d'. upsert_binding sn d = Inr ((), d') \<Longrightarrow> R d d'"
begin

lemma update_keeps:
  assumes "\<And>sn. sn_key (f sn) = sn_key sn"
  shows "keeps (on_db R) (stmtE (update_bindings P f))" "keeps (on_db R) (txE (update_bindings P f))"
    "keeps (in_tx R) (txE (update_bindings P f))"
  by (auto intro!: stmtE_keeps txE_keeps txE_in_tx intro: update_R [OF _ assms])

lemma write_keeps:
  "keeps (on_db R) (execE (delete_bindings P))"
  "keeps (on_db R) (stmtE (insert_binding sn))"
  "keeps (on_db R) (stmtE (upsert_binding sn))"
  "keeps (in_tx R) (txE (upsert_binding sn))"
  by (auto intro!: execE_keeps stmtE_keeps txE_in_tx delete_R intro: insert_R upsert_R)

lemmas statements = db_combinators update_keeps write_keeps

lemma operations:
  "keeps (on_db R) (GetBySubscriptionID i)"
  "keeps (on_db R) (GetPendingSync now)"
  "keeps (on_db R) (GetPendingBySubscriptionID now i)"
  "keeps (on_db R) (CreateSubscriptionNode sn)"
  "keeps (on_db R) (UpdateSubscriptionNodeStatus i j st)"
  "keeps (on_db R) (UpsertSubscriptionNode sn)"
  "keeps (on_db R) (MarkActiveNodesPendingUpdate i js)"
  "keeps (on_db R) (DeleteSubscriptionNode i j)"
  "keeps (on_db R) (DeleteSubscriptionNodesBySubscriptionID i)"
  "keeps (on_db R) (UpdateRetry i j c at e)"
  "keeps (on_db R) (GetNodesWithParkedSync t)"
  "keeps (on_db R) (ReleaseParkedNodesOnNode j t)"
  "keeps (on_db R) CountSubscriptionNodesByStatus"
  "keeps (on_db R) (CountParkedSubscriptionNodes t)"
  unfolding GetBySubscriptionID_def GetPendingSync_def GetPendingBySubscriptionID_def
    CreateSubscriptionNode_def UpdateSubscriptionNodeStatus_def UpsertSubscriptionNode_def
    MarkActiveNodesPendingUpdate_def DeleteSubscriptionNode_def
    DeleteSubscriptionNodesBySubscriptionID_def UpdateRetry_def GetNodesWithParkedSync_def
    ReleaseParkedNodesOnNode_def CountSubscriptionNodesByStatus_def CountParkedSubscriptionNodes_def
    affects_def
  by (intro statements; simp add: sn_key_def set_sync_status_def set_retry_def)+

end

lemma update_bindings_ok:
  "update_bindings P f d = Inr (n, d') \<Longrightarrow>
     d' = d\<lparr>subscription_nodes := update_where P f (subscription_nodes d)\<rparr>
     \<and> n = count_where P (subscription_nodes d)
     \<and> list_all retry_ok (update_where P f (subscription_nodes d))"
  by (auto simp: update_bindings_def Let_def split: if_splits)

lemma insert_binding_ok:
  "insert_binding sn d = Inr (u, d') \<Longrightarrow>
     d' = d\<lparr>subscription_nodes := subscription_nodes d @ [sn]\<rparr> \<and> retry_ok sn
     \<and> (\<forall>x \<in> set (subscription_nodes d). \<not> binding (sn_subscription_id sn) (sn_node_id sn) x)"
  by (auto simp: insert_binding_def list_ex_iff split: if_splits)

lemma upsert_binding_ok:
  "upsert_binding sn d = Inr (u, d') \<Longrightarrow> retry_ok sn \<and>
     (d' = d\<lparr>subscription_nodes := subscription_nodes d @ [sn]\<rparr>
        \<and> (\<forall>x \<in> set (subscription_nodes d). \<not> binding (sn_subscription_id sn) (sn_node_id sn) x)
      \<or> d' = d\<lparr>subscription_nodes := update_where (binding (sn_subscription_id sn) (sn_node_id sn))
                 (copy_mutable sn) (subscription_nodes d)\<rparr>)"
  by (auto simp: upsert_binding_def Let_def split: if_splits dest: insert_binding_ok)

lemma retry_ok_copy: "retry_ok new \<Longrightarrow> retry_ok (copy_mutable new sn)"
  by (simp add: retry_ok_def copy_mutable_def)

lemma sn_key_row_functions [simp]:
  "sn_key (copy_mutable new sn) = sn_key sn" "sn_key (set_sync_status st sn) = sn_key sn"
  "sn_key (set_retry c t e sn) = sn_key sn"
  by (simp_all add: sn_key_def copy_mutable_def set_sync_status_def set_retry_def)

lemma binding_key: "binding i j sn \<longleftrightarrow> sn_key sn = (i, j)"
  by (simp add: binding_def sn_key_def)

lemma bindings_wf_update:
  assumes "bindings_wf d" "\<And>sn. sn_key (f sn) = sn_key sn"
    and "list_all retry_ok (update_where P f (subscription_nodes d))"
  shows "bindings_wf (d\<lparr>subscription_nodes := update_where P f (subscription_nodes d)\<rparr>)"
  using assms map_key_update_where [of P sn_key f "subscription_nodes d"] by (simp add: bindings_wf_def)

lemma bindings_wf_append:
  assumes "bindings_wf d" "retry_ok sn"
    and "\<forall>x \<in> set (subscription_nodes d). \<not> binding (sn_subscription_id sn) (sn_node_id sn) x"
  shows "bindings_wf (d\<lparr>subscription_nodes := subscription_nodes d @ [sn]\<rparr>)"
  using assms by (auto simp: bindings_wf_def binding_key) (auto simp: sn_key_def)


interpretation bindings_st: binding_statements bindings_keep
proof
  show "bindings_keep d d'"
    if "update_bindings P f d = Inr (n, d')" "\<And>sn. sn_key (f sn) = sn_key sn" for P f d n d'
    using update_bindings_ok [OF that(1)] bindings_wf_update [of d f P] that(2)
    by (auto simp: bindings_keep_def)
  show "bindings_keep d (snd (delete_bindings P d))" for P d
    by (auto simp: bindings_keep_def bindings_wf_def delete_bindings_def delete_where_def list_all_iff
        intro: distinct_map_filter)
  show "bindings_keep d d'" if "insert_binding sn d = Inr ((), d')" for sn d d'
    using insert_binding_ok [OF that] by (auto simp: bindings_keep_def intro: bindings_wf_append)
  show "bindings_keep d d'" if "upsert_binding sn d = Inr ((), d')" for sn d d'
  proof -
    have "list_all retry_ok (update_where P (copy_mutable sn) (subscription_nodes d))"
      if "bindings_wf d" "retry_ok sn" for P
      using that by (simp add: bindings_wf_def list_all_iff ball_update_where retry_ok_copy)
    then show ?thesis
      using upsert_binding_ok [OF that]
      by (auto simp: bindings_keep_def intro: bindings_wf_append bindings_wf_update)
  qed
qed

text \<open>Nothing here touches orders, subscriptions or the journal.\<close>

lemma binding_frames:
  "update_bindings P f d = Inr (n, d') \<Longrightarrow> orders d' = orders d \<and> order_seq d' = order_seq d
     \<and> audit d' = audit d \<and> subscriptions d' = subscriptions d"
  "orders (snd (delete_bindings P d)) = orders d \<and> order_seq (snd (delete_bindings P d)) = order_seq d
     \<and> audit (snd (delete_bindings P d)) = audit d
     \<and> subscriptions (snd (delete_bindings P d)) = subscriptions d"
  "insert_binding sn d = Inr (u, d') \<Longrightarrow> orders d' = orders d \<and> order_seq d' = order_seq d
     \<and> audit d' = audit d \<and> subscriptions d' = subscriptions d"
  "upsert_binding sn d = Inr (u, d') \<Longrightarrow> orders d' = orders d \<and> order_seq d' = order_seq d
     \<and> audit d' = audit d \<and> subscriptions d' = subscriptions d"
  by (auto simp: delete_bindings_def dest: update_bindings_ok insert_binding_ok upsert_binding_ok)

interpretation orders_bind: binding_statements orders_evolve
  by unfold_locales (auto intro!: orders_evolve_same dest: binding_frames(1,3,4) simp: binding_frames(2))

interpretation journal_bind: binding_statements journal_grows
  by unfold_locales (auto intro!: journal_grows_refl dest: binding_frames(1,3,4) simp: binding_frames(2))

text \<open>And the order operations respect the contract of the bindings.\<close>

interpretation bindings_ord: order_statements bindings_keep
  by unfold_locales
    (auto intro!: bindings_keep_same dest: update_orders_ok insert_order_ok(2))

end
