(* ===== verification/Plan_Reconcile.thy ===== *)
theory Plan_Reconcile
  imports Node_Store
begin

text \<open>
  The reconciliation of a subscription's bindings with its plan:
  \<open>internal/service/plan_reconcile.go\<close>.

  \<open>reconcilePlanNodesCore\<close> is written once over a store interface, a record of operations here,
  and used through two adapters: the background store (own statements) and the transaction store.
  The error policy is the source's callback: \<open>Some\<close> stops, \<open>None\<close> collects the error and goes on.

  \<open>reconcile_rows\<close> is the transition table as a function on rows. The locale \<open>plan_node_store\<close>
  states what the core needs of a store; inside it the core is shown to implement the table, and
  both adapters are interpretations.
\<close>

section \<open>The store interface and the core\<close>

record plan_store =
  LoadSubscription :: "uint \<Rightarrow> (world, subscription) op"
  LoadPlanNodes :: "uint \<Rightarrow> (world, node list) op"
  LoadSubscriptionNodes :: "uint \<Rightarrow> (world, subscription_node list) op"
  MarkActivePendingUpdate :: "uint \<Rightarrow> uint list \<Rightarrow> (world, unit) op"
  SetNodeStatus :: "uint \<Rightarrow> uint \<Rightarrow> sync_status \<Rightarrow> (world, unit) op"
  UpsertPendingAdd :: "subscription_node \<Rightarrow> (world, unit) op"

type_synonym error_policy = "error \<Rightarrow> error option"

record plan_reconcile_options =
  readSubscription :: bool
  planID :: uint
  preloadedTargets :: "node list option"
  onNodeError :: error_policy

text \<open>One per-node operation under the policy: the errors it collects.\<close>

definition attempt :: "error_policy \<Rightarrow> (world, unit) op \<Rightarrow> (world, error list) op" where
  "attempt policy m = tryE m (\<lambda>r.
     case r of Inr _ \<Rightarrow> returnE []
     | Inl e \<Rightarrow> (case policy e of Some stop \<Rightarrow> failE stop | None \<Rightarrow> returnE [e]))"

fun collectE :: "('a \<Rightarrow> ('s, error list) op) \<Rightarrow> 'a list \<Rightarrow> ('s, error list) op" where
  "collectE f [] = returnE []"
| "collectE f (x # xs) = bindE (f x) (\<lambda>es. bindE (collectE f xs) (\<lambda>fs. returnE (es @ fs)))"

definition fresh_binding :: "uint \<Rightarrow> uint \<Rightarrow> subscription_node" where
  "fresh_binding subID nodeID =
     \<lparr>sn_subscription_id = subID, sn_node_id = nodeID, sn_status = SyncStatusPendingAdd,
      sn_retry_count = 0, sn_retry_at = None, sn_last_error = None\<rparr>"

definition has_status :: "uint \<Rightarrow> sync_status \<Rightarrow> subscription_node list \<Rightarrow> bool" where
  "has_status nodeID st current = list_ex (\<lambda>sn. sn_node_id sn = nodeID \<and> sn_status sn = st) current"

definition add_target ::
  "plan_store \<Rightarrow> error_policy \<Rightarrow> uint \<Rightarrow> subscription_node list \<Rightarrow> node \<Rightarrow> (world, error list) op" where
  "add_target store policy subID current target =
     (let nodeID = n_id target in
      if \<not> n_is_active target then returnE []
      else if has_status nodeID SyncStatusActive current then returnE []
      else if has_status nodeID SyncStatusPendingAdd current then returnE []
      else if has_status nodeID SyncStatusPendingUpdate current then returnE []
      else (case find (\<lambda>sn. sn_node_id sn = nodeID \<and> sn_status sn = SyncStatusPendingRemove) current of
          Some pending \<Rightarrow>
            attempt policy (SetNodeStatus store (sn_subscription_id pending) (sn_node_id pending)
              SyncStatusPendingAdd)
        | None \<Rightarrow> attempt policy (UpsertPendingAdd store (fresh_binding subID nodeID))))"

definition remove_stale ::
  "plan_store \<Rightarrow> error_policy \<Rightarrow> uint list \<Rightarrow> subscription_node \<Rightarrow> (world, error list) op" where
  "remove_stale store policy targetSet sn =
     (if sn_node_id sn \<in> set targetSet then returnE []
      else attempt policy (SetNodeStatus store (sn_subscription_id sn) (sn_node_id sn)
        SyncStatusPendingRemove))"

definition with_status :: "sync_status \<Rightarrow> subscription_node list \<Rightarrow> subscription_node list" where
  "with_status st rows = filter (\<lambda>sn. sn_status sn = st) rows"

definition active_ids :: "node list \<Rightarrow> uint list" where
  "active_ids ns = map n_id (filter n_is_active ns)"

text \<open>The ADD pass over the targets, then the three REMOVE passes over the bindings.\<close>

definition reconcile_passes ::
  "plan_store \<Rightarrow> error_policy \<Rightarrow> uint \<Rightarrow> node list \<Rightarrow> subscription_node list \<Rightarrow> (world, error list) op" where
  "reconcile_passes store policy subID targets current =
     (let targetSet = active_ids targets in
      bindE (collectE (add_target store policy subID current) targets) (\<lambda>e1.
      bindE (collectE (remove_stale store policy targetSet) (with_status SyncStatusActive current)) (\<lambda>e2.
      bindE (collectE (remove_stale store policy targetSet) (with_status SyncStatusPendingAdd current)) (\<lambda>e3.
      bindE (collectE (remove_stale store policy targetSet) (with_status SyncStatusPendingUpdate current)) (\<lambda>e4.
      returnE (e1 @ e2 @ e3 @ e4))))))"

definition reconcilePlanNodesCore ::
  "plan_store \<Rightarrow> uint \<Rightarrow> plan_reconcile_options \<Rightarrow> (world, error list) op" where
  "reconcilePlanNodesCore store subID opt =
     bindE (if readSubscription opt
            then bindE (LoadSubscription store subID) (\<lambda>sub.
                   returnE (if s_status sub = SubscriptionStatusRevoked then None else Some (s_plan_id sub)))
            else returnE (Some (planID opt))) (\<lambda>pid.
     case pid of None \<Rightarrow> returnE []
     | Some p \<Rightarrow>
         bindE (case preloadedTargets opt of Some ts \<Rightarrow> returnE ts | None \<Rightarrow> LoadPlanNodes store p) (\<lambda>targets.
         bindE (LoadSubscriptionNodes store subID) (\<lambda>current.
         reconcile_passes store (onNodeError opt) subID targets current)))"

section \<open>The two adapters\<close>

definition GetByID :: "uint \<Rightarrow> (world, subscription) op" where
  "GetByID i = queryE (find_subscription i)"

definition dbServicePlanStore :: plan_store where
  "dbServicePlanStore =
     \<lparr>LoadSubscription = GetByID,
      LoadPlanNodes = GetNodesByPlanID,
      LoadSubscriptionNodes = GetBySubscriptionID,
      MarkActivePendingUpdate = MarkActiveNodesPendingUpdate,
      SetNodeStatus = UpdateSubscriptionNodeStatus,
      UpsertPendingAdd = UpsertSubscriptionNode\<rparr>"

definition tx_load_subscription :: "uint \<Rightarrow> (world, subscription) op" where
  "tx_load_subscription i = tx_queryE (\<lambda>d.
     case select_first (\<lambda>s. s_id s = i) (subscriptions d) of
       None \<Rightarrow> Inl [ErrRecordNotFound] | Some s \<Rightarrow> Inr s)"

definition tx_mark_active :: "uint \<Rightarrow> uint list \<Rightarrow> (world, unit) op" where
  "tx_mark_active subID targetNodeIDs =
     (if targetNodeIDs = [] then returnE ()
      else bindE (txE (update_bindings (active_on subID targetNodeIDs)
             (set_sync_status SyncStatusPendingUpdate))) (\<lambda>_. returnE ()))"

definition tx_set_status :: "uint \<Rightarrow> uint \<Rightarrow> sync_status \<Rightarrow> (world, unit) op" where
  "tx_set_status subID nodeID st =
     bindE (txE (update_bindings (binding subID nodeID) (set_sync_status st))) (\<lambda>_. returnE ())"

definition tx_upsert :: "subscription_node \<Rightarrow> (world, unit) op" where
  "tx_upsert sn = txE (upsert_binding sn)"

definition txPlanStore :: plan_store where
  "txPlanStore =
     \<lparr>LoadSubscription = tx_load_subscription,
      LoadPlanNodes = (\<lambda>p. tx_query (active_plan_nodes p)),
      LoadSubscriptionNodes = (\<lambda>i. tx_query (rows_of i)),
      MarkActivePendingUpdate = tx_mark_active,
      SetNodeStatus = tx_set_status,
      UpsertPendingAdd = tx_upsert\<rparr>"

section \<open>The transition table as a function on rows\<close>

definition reconcile_row :: "uint \<Rightarrow> uint list \<Rightarrow> subscription_node \<Rightarrow> subscription_node" where
  "reconcile_row subID targetSet sn =
     (if sn_subscription_id sn \<noteq> subID then sn
      else if sn_node_id sn \<in> set targetSet
        then (if sn_status sn = SyncStatusPendingRemove then set_sync_status SyncStatusPendingAdd sn else sn)
      else if sn_status sn = SyncStatusPendingRemove then sn
      else set_sync_status SyncStatusPendingRemove sn)"

definition missing_targets :: "uint \<Rightarrow> uint list \<Rightarrow> subscription_node list \<Rightarrow> uint list" where
  "missing_targets subID targetSet rows = filter (\<lambda>n. \<not> list_ex (binding subID n) rows) targetSet"

definition reconcile_rows :: "uint \<Rightarrow> uint list \<Rightarrow> subscription_node list \<Rightarrow> subscription_node list" where
  "reconcile_rows subID targetSet rows =
     map (reconcile_row subID targetSet) rows
     @ map (fresh_binding subID) (missing_targets subID targetSet rows)"

lemma reconcile_row_key [simp]: "sn_key (reconcile_row s T sn) = sn_key sn"
  by (simp add: reconcile_row_def)

lemma reconcile_row_idem: "reconcile_row s T (reconcile_row s T sn) = reconcile_row s T sn"
  by (auto simp: reconcile_row_def set_sync_status_def)

text \<open>What a reconciled table looks like.\<close>

definition wanted :: "sync_status \<Rightarrow> bool" where
  "wanted st \<longleftrightarrow> st \<noteq> SyncStatusPendingRemove"

lemma fresh_key [simp]: "sn_key (fresh_binding s n) = (s, n)"
  by (simp add: sn_key_def fresh_binding_def)

lemma in_reconcile_rows:
  "x \<in> set (reconcile_rows s T rows) \<longleftrightarrow>
     (\<exists>sn \<in> set rows. x = reconcile_row s T sn)
     \<or> (\<exists>n \<in> set T. (\<forall>sn \<in> set rows. sn_key sn \<noteq> (s, n)) \<and> x = fresh_binding s n)"
  by (auto simp: reconcile_rows_def missing_targets_def list_ex_iff binding_key)

lemma reconcile_row_wanted:
  "sn_subscription_id sn = s \<Longrightarrow> wanted (sn_status (reconcile_row s T sn)) \<longleftrightarrow> sn_node_id sn \<in> set T"
  by (simp add: reconcile_row_def wanted_def set_sync_status_def)

lemma reconcile_rows_wanted:
  assumes "x \<in> set (reconcile_rows s T rows)" "sn_subscription_id x = s"
  shows "wanted (sn_status x) \<longleftrightarrow> sn_node_id x \<in> set T"
proof -
  consider sn where "sn \<in> set rows" "x = reconcile_row s T sn" | n where "n \<in> set T" "x = fresh_binding s n"
    using assms(1) by (auto simp: in_reconcile_rows)
  then show ?thesis
  proof cases
    case 1
    then have "sn_subscription_id sn = s" "sn_node_id x = sn_node_id sn"
      using assms(2) reconcile_row_key [of s T sn] by (auto simp: sn_key_def)
    with 1 show ?thesis by (simp add: reconcile_row_wanted)
  next
    case 2
    then show ?thesis by (simp add: fresh_binding_def wanted_def)
  qed
qed

lemma reconcile_rows_covers:
  assumes "n \<in> set T"
  shows "\<exists>sn \<in> set (reconcile_rows s T rows). sn_key sn = (s, n)"
proof (cases "\<exists>sn \<in> set rows. sn_key sn = (s, n)")
  case True
  then obtain sn where "sn \<in> set rows" "sn_key sn = (s, n)" by blast
  then have "reconcile_row s T sn \<in> set (reconcile_rows s T rows)" "sn_key (reconcile_row s T sn) = (s, n)"
    by (auto simp: in_reconcile_rows)
  then show ?thesis by blast
next
  case False
  with assms have "fresh_binding s n \<in> set (reconcile_rows s T rows)"
    by (auto simp: in_reconcile_rows)
  then show ?thesis by (intro bexI [of _ "fresh_binding s n"]) simp_all
qed

text \<open>Reconciling twice is reconciling once.\<close>

lemma missing_after: "missing_targets s T (reconcile_rows s T rows) = []"
  using reconcile_rows_covers [of _ T s rows]
  by (simp add: missing_targets_def filter_empty_conv list_ex_iff binding_key)

lemma reconcile_fresh: "n \<in> set T \<Longrightarrow> reconcile_row s T (fresh_binding s n) = fresh_binding s n"
  by (simp add: reconcile_row_def fresh_binding_def)

lemma reconcile_rows_idem:
  "reconcile_rows s T (reconcile_rows s T rows) = reconcile_rows s T rows"
proof -
  have "map (reconcile_row s T) (reconcile_rows s T rows) = reconcile_rows s T rows"
    by (auto simp: reconcile_rows_def reconcile_row_idem reconcile_fresh missing_targets_def)
  then show ?thesis
    by (simp add: reconcile_rows_def [of s T "reconcile_rows s T rows"] missing_after)
qed

section \<open>The core implements the table\<close>

text \<open>An operation that, undisturbed, only sets the bindings to the given rows and collects nothing.\<close>

definition lands :: "(world, error list) op \<Rightarrow> world \<Rightarrow> subscription_node list \<Rightarrow> bool" where
  "lands m w rows \<longleftrightarrow> (\<exists>w'. m w = (Inr [], w') \<and> calm w'
     \<and> db w' = (db w)\<lparr>subscription_nodes := rows\<rparr> \<and> trace w' = trace w)"

lemma lands_returnE: "calm w \<Longrightarrow> lands (returnE []) w (subscription_nodes (db w))"
  by (simp add: lands_def returnE_def)

lemma lands_seq:
  assumes "lands m w rows"
    and "\<And>w'. calm w' \<Longrightarrow> db w' = (db w)\<lparr>subscription_nodes := rows\<rparr> \<Longrightarrow> lands (k []) w' rows'"
  shows "lands (bindE m k) w rows'"
proof -
  obtain w1 where 1: "m w = (Inr [], w1)" "calm w1" "db w1 = (db w)\<lparr>subscription_nodes := rows\<rparr>"
      "trace w1 = trace w"
    using assms(1) by (auto simp: lands_def)
  then have "lands (k []) w1 rows'"
    by (intro assms(2))
  with 1 show ?thesis
    by (auto simp: lands_def bindE_def)
qed

lemma lands_collect:
  assumes "lands (f x) w rows"
    and "\<And>w'. calm w' \<Longrightarrow> db w' = (db w)\<lparr>subscription_nodes := rows\<rparr> \<Longrightarrow> lands (collectE f xs) w' rows'"
  shows "lands (collectE f (x # xs)) w rows'"
proof -
  have "lands (bindE (collectE f xs) (\<lambda>fs. returnE ([] @ fs))) w' rows'"
    if "calm w'" "db w' = (db w)\<lparr>subscription_nodes := rows\<rparr>" for w'
    using assms(2) [OF that] by (auto simp: lands_def bindE_def returnE_def)
  then show ?thesis
    using assms(1) by (simp add: lands_seq)
qed

locale plan_node_store =
  fixes store :: plan_store
  assumes load_plan_nodes: "\<And>w p. calm w \<Longrightarrow>
        LoadPlanNodes store p w = (Inr (active_plan_nodes p (db w)), step_turn w)"
    and load_nodes: "\<And>w i. calm w \<Longrightarrow>
        LoadSubscriptionNodes store i w = (Inr (rows_of i (db w)), step_turn w)"
    and set_status: "\<And>w i j st. calm w \<Longrightarrow> bindings_wf (db w) \<Longrightarrow>
        (\<exists>sn \<in> set (subscription_nodes (db w)). sn_key sn = (i, j)) \<Longrightarrow>
        SetNodeStatus store i j st w = (Inr (), (step_turn w)\<lparr>db := (db w)\<lparr>subscription_nodes :=
          update_where (binding i j) (set_sync_status st) (subscription_nodes (db w))\<rparr>\<rparr>)"
    and upsert: "\<And>w i j. calm w \<Longrightarrow> bindings_wf (db w) \<Longrightarrow>
        (\<forall>sn \<in> set (subscription_nodes (db w)). sn_key sn \<noteq> (i, j)) \<Longrightarrow>
        binding_refs (fresh_binding i j) (db w) \<Longrightarrow>
        UpsertPendingAdd store (fresh_binding i j) w = (Inr (), (step_turn w)\<lparr>db := (db w)\<lparr>subscription_nodes :=
          subscription_nodes (db w) @ [fresh_binding i j]\<rparr>\<rparr>)"
begin

lemma lands_set_status:
  assumes "calm w" "bindings_wf (db w)" "\<exists>sn \<in> set (subscription_nodes (db w)). sn_key sn = (i, j)"
  shows "lands (attempt policy (SetNodeStatus store i j st)) w
    (update_where (binding i j) (set_sync_status st) (subscription_nodes (db w)))"
  using set_status [OF assms] assms(1) by (simp add: lands_def attempt_def tryE_def returnE_def)

lemma lands_upsert:
  assumes "calm w" "bindings_wf (db w)" "\<forall>sn \<in> set (subscription_nodes (db w)). sn_key sn \<noteq> (i, j)"
    and "binding_refs (fresh_binding i j) (db w)"
  shows "lands (attempt policy (UpsertPendingAdd store (fresh_binding i j))) w
    (subscription_nodes (db w) @ [fresh_binding i j])"
  using upsert [OF assms] assms(1) by (simp add: lands_def attempt_def tryE_def returnE_def)

end

lemma set_sync_status_wf:
  assumes "bindings_wf d"
  shows "bindings_wf (d\<lparr>subscription_nodes := update_where P (set_sync_status st) (subscription_nodes d)\<rparr>)"
proof (rule bindings_wf_update [OF assms])
  show "list_all retry_ok (update_where P (set_sync_status st) (subscription_nodes d))"
    using assms by (auto simp: bindings_wf_def list_all_iff ball_update_where retry_ok_def set_sync_status_def)
qed simp

lemma update_bindings_succeeds:
  "bindings_wf d \<Longrightarrow> update_bindings P (set_sync_status st) d
     = Inr (count_where P (subscription_nodes d),
            d\<lparr>subscription_nodes := update_where P (set_sync_status st) (subscription_nodes d)\<rparr>)"
  using set_sync_status_wf [of d P st] by (simp add: update_bindings_def bindings_wf_def)

lemma upsert_inserts:
  assumes "\<forall>sn \<in> set (subscription_nodes d). sn_key sn \<noteq> (i, j)" "binding_refs (fresh_binding i j) d"
  shows "upsert_binding (fresh_binding i j) d
    = Inr ((), d\<lparr>subscription_nodes := subscription_nodes d @ [fresh_binding i j]\<rparr>)"
  using assms
  by (simp add: upsert_binding_def insert_binding_def list_ex_iff binding_key)
    (simp add: fresh_binding_def retry_ok_def)

interpretation background: plan_node_store dbServicePlanStore
proof
  fix w i j st
  assume w: "calm w" "bindings_wf (db w)" "\<exists>sn \<in> set (subscription_nodes (db w)). sn_key sn = (i, j)"
  then have "count_where (binding i j) (subscription_nodes (db w)) \<noteq> 0"
    by (auto simp: count_where_0 binding_key)
  then show "SetNodeStatus dbServicePlanStore i j st w = (Inr (), (step_turn w)\<lparr>db := (db w)\<lparr>subscription_nodes :=
          update_where (binding i j) (set_sync_status st) (subscription_nodes (db w))\<rparr>\<rparr>)"
    using w by (simp add: dbServicePlanStore_def UpdateSubscriptionNodeStatus_def affects_def bindE_def
        calm_stmts run_stmt_def update_bindings_succeeds returnE_def)
qed (simp_all add: dbServicePlanStore_def GetNodesByPlanID_def GetBySubscriptionID_def calm_runs
    UpsertSubscriptionNode_def calm_stmts run_stmt_def upsert_inserts)

interpretation in_transaction: plan_node_store txPlanStore
  by unfold_locales
    (simp_all add: txPlanStore_def calm_runs tx_set_status_def tx_upsert_def bindE_def calm_stmts
      run_stmt_def update_bindings_succeeds upsert_inserts returnE_def)

text \<open>The ADD pass on rows.\<close>

definition readd_row :: "uint \<Rightarrow> uint list \<Rightarrow> subscription_node \<Rightarrow> subscription_node" where
  "readd_row s T sn =
     (if sn_subscription_id sn = s \<and> sn_node_id sn \<in> set T \<and> sn_status sn = SyncStatusPendingRemove
      then set_sync_status SyncStatusPendingAdd sn else sn)"

definition add_rows :: "uint \<Rightarrow> uint list \<Rightarrow> subscription_node list \<Rightarrow> subscription_node list" where
  "add_rows s T rows = map (readd_row s T) rows @ map (fresh_binding s) (missing_targets s T rows)"

lemma readd_row_key [simp]: "sn_key (readd_row s T sn) = sn_key sn"
  by (simp add: readd_row_def)

text \<open>Processing one target changes the rows like this.\<close>

definition add_one :: "uint \<Rightarrow> uint \<Rightarrow> subscription_node list \<Rightarrow> subscription_node list" where
  "add_one s n rows = add_rows s [n] rows"

lemma add_rows_Nil: "add_rows s [] rows = rows"
  by (simp add: add_rows_def readd_row_def missing_targets_def map_idI)

lemma missing_map_key:
  "(\<And>sn. sn_key (g sn) = sn_key sn) \<Longrightarrow> missing_targets s T (map g rows) = missing_targets s T rows"
  by (simp add: missing_targets_def list_ex_iff binding_key)

lemma add_rows_Cons:
  assumes "n \<notin> set T"
  shows "add_rows s (n # T) rows = add_rows s T (add_rows s [n] rows)"
proof -
  have m: "missing_targets s T (add_rows s [n] rows) = missing_targets s T rows"
    using assms by (auto simp: missing_targets_def add_rows_def list_ex_iff binding_key image_iff
        intro!: filter_cong)
  have r: "map (readd_row s T) (map (readd_row s [n]) rows) = map (readd_row s (n # T)) rows"
    using assms by (auto simp: readd_row_def set_sync_status_def)
  have f: "readd_row s T (fresh_binding s k) = fresh_binding s k" for k
    by (simp add: readd_row_def fresh_binding_def)
  have "add_rows s T (add_rows s [n] rows)
      = map (readd_row s T) (map (readd_row s [n]) rows)
        @ map (readd_row s T) (map (fresh_binding s) (missing_targets s [n] rows))
        @ map (fresh_binding s) (missing_targets s T rows)"
    by (simp add: add_rows_def [of s T] m) (simp add: add_rows_def)
  also have "\<dots> = add_rows s (n # T) rows"
    unfolding r by (simp add: add_rows_def f comp_def missing_targets_def)
  finally show ?thesis ..
qed

lemma add_rows_wf:
  assumes "bindings_wf d" "distinct T"
  shows "bindings_wf (d\<lparr>subscription_nodes := add_rows s T (subscription_nodes d)\<rparr>)"
proof -
  have "list_all retry_ok (add_rows s T (subscription_nodes d))"
    using assms by (auto simp: bindings_wf_def list_all_iff add_rows_def readd_row_def retry_ok_def
        set_sync_status_def fresh_binding_def)
  moreover have "map sn_key (add_rows s T (subscription_nodes d))
      = map sn_key (subscription_nodes d) @ map (Pair s) (missing_targets s T (subscription_nodes d))"
    by (simp add: add_rows_def comp_def)
  moreover have "distinct (map sn_key (subscription_nodes d)
      @ map (Pair s) (missing_targets s T (subscription_nodes d)))"
    using assms by (auto simp: bindings_wf_def missing_targets_def list_ex_iff binding_key distinct_map
        inj_on_def)
  ultimately show ?thesis
    by (simp add: bindings_wf_def)
qed

context plan_node_store
begin

lemma lands_add_target:
  assumes w: "calm w" "bindings_wf (db w)"
    and refs: "n_is_active t \<Longrightarrow> binding_refs (fresh_binding s (n_id t)) (db w)"
    and cur: "\<And>sn. sn_key sn = (s, n_id t) \<Longrightarrow>
        sn \<in> set current \<longleftrightarrow> sn \<in> set (subscription_nodes (db w))"
    and of_s: "\<And>sn. sn \<in> set current \<Longrightarrow> sn_subscription_id sn = s"
  shows "lands (add_target store policy s current t) w
    (if n_is_active t then add_rows s [n_id t] (subscription_nodes (db w)) else subscription_nodes (db w))"
proof -
  let ?rows = "subscription_nodes (db w)" and ?n = "n_id t"
  have uniq: "sn = sm" if "sn \<in> set ?rows" "sm \<in> set ?rows" "sn_key sn = sn_key sm" for sn sm
    using w(2) that distinct_key_eq [of sn_key ?rows sn sm] by (simp add: bindings_wf_def)
  have has: "has_status ?n st current \<longleftrightarrow> (\<exists>sn \<in> set ?rows. sn_key sn = (s, ?n) \<and> sn_status sn = st)" for st
    using cur of_s by (auto simp: has_status_def list_ex_iff sn_key_def)
  show ?thesis
  proof (cases "n_is_active t")
    case False
    then show ?thesis
      using lands_returnE [OF w(1)] by (simp add: add_target_def Let_def)
  next
    case act: True
    show ?thesis
    proof (cases "\<exists>sn \<in> set ?rows. sn_key sn = (s, ?n)")
      case False
      then have "add_rows s [?n] ?rows = ?rows @ [fresh_binding s ?n]"
        by (auto simp: add_rows_def missing_targets_def list_ex_iff binding_key readd_row_def sn_key_def
            intro!: map_idI)
      moreover have "find (\<lambda>sn. sn_node_id sn = ?n \<and> sn_status sn = SyncStatusPendingRemove) current = None"
        using has [of SyncStatusPendingRemove] False by (auto simp: find_None_iff has_status_def list_ex_iff)
      ultimately show ?thesis
        using lands_upsert [OF w, of s ?n policy] refs act False
        by (simp add: add_target_def Let_def has)
    next
      case True
      then obtain sn where sn: "sn \<in> set ?rows" "sn_key sn = (s, ?n)" by blast
      then have sole: "\<And>st. has_status ?n st current \<longleftrightarrow> sn_status sn = st"
        using has uniq by metis
      have none: "missing_targets s [?n] ?rows = []"
        using True by (auto simp: missing_targets_def list_ex_iff binding_key)
      show ?thesis
      proof (cases "sn_status sn = SyncStatusPendingRemove")
        case False
        have "readd_row s [?n] x = x" if "x \<in> set ?rows" for x
          using uniq [OF that sn(1)] sn(2) False by (auto simp: readd_row_def sn_key_def)
        then have "add_rows s [?n] ?rows = ?rows"
          using none by (simp add: add_rows_def map_idI)
        then show ?thesis
          using lands_returnE [OF w(1)] act False sole
          by (cases "sn_status sn") (simp_all add: add_target_def Let_def)
      next
        case PR: True
        have "find (\<lambda>sn. sn_node_id sn = ?n \<and> sn_status sn = SyncStatusPendingRemove) current \<noteq> None"
          using sole [of SyncStatusPendingRemove] PR by (auto simp: find_None_iff has_status_def list_ex_iff)
        then obtain p where p: "find (\<lambda>sn. sn_node_id sn = ?n \<and> sn_status sn = SyncStatusPendingRemove) current = Some p"
          by blast
        then have "p \<in> set current" "sn_node_id p = ?n"
          by (auto simp: find_Some_iff)
        then have pk: "sn_subscription_id p = s" "sn_node_id p = ?n"
          using of_s by auto
        have "add_rows s [?n] ?rows = update_where (binding s ?n) (set_sync_status SyncStatusPendingAdd) ?rows"
          unfolding add_rows_def none update_where_def
          using uniq [OF _ sn(1)] sn(2) PR by (auto simp: readd_row_def binding_key sn_key_def)
        then show ?thesis
          using lands_set_status [OF w, of s ?n policy SyncStatusPendingAdd] True act PR sole p pk
          by (simp add: add_target_def Let_def)
      qed
    qed
  qed
qed

end


lemma binding_refs_upd [simp]:
  "binding_refs sn (d\<lparr>subscription_nodes := rows\<rparr>) = binding_refs sn d"
  by (simp add: binding_refs_def)

lemma add_rows_other:
  assumes "sn_key sn = (s, k)" "k \<notin> set T"
  shows "sn \<in> set (add_rows s T rows) \<longleftrightarrow> sn \<in> set rows"
proof -
  have "readd_row s T x = sn \<longleftrightarrow> x = sn" for x
  proof (cases "sn_subscription_id x = s \<and> sn_node_id x \<in> set T")
    case True
    then have "sn_key x \<noteq> sn_key sn"
      using assms by (auto simp: sn_key_def)
    then show ?thesis
      using readd_row_key [of s T x] by metis
  next
    case False
    then show ?thesis by (auto simp: readd_row_def)
  qed
  then have "sn \<in> readd_row s T ` set rows \<longleftrightarrow> sn \<in> set rows"
    unfolding image_iff by metis
  moreover have "sn \<noteq> fresh_binding s m" if "m \<in> set T" for m
    using assms that by auto
  ultimately show ?thesis
    by (auto simp: add_rows_def missing_targets_def)
qed

lemma exists_key_after:
  assumes "\<exists>sm \<in> set rows. sn_key sm = k"
  shows "\<exists>sm \<in> set (update_where P (set_sync_status st) rows). sn_key sm = k"
proof -
  have "k \<in> set (map sn_key (update_where P (set_sync_status st) rows))"
    using assms by (subst map_key_update_where) auto
  then show ?thesis by auto
qed

lemma active_ids_Cons:
  "active_ids (t # ts) = (if n_is_active t then n_id t # active_ids ts else active_ids ts)"
  by (simp add: active_ids_def)

lemma active_ids_sub: "set (active_ids ts) \<subseteq> n_id ` set ts"
  by (auto simp: active_ids_def)

context plan_node_store
begin

lemma lands_add_pass:
  assumes "calm w" "bindings_wf (db w)" "distinct (map n_id ts)"
    and "\<And>t. t \<in> set ts \<Longrightarrow> n_is_active t \<Longrightarrow> binding_refs (fresh_binding s (n_id t)) (db w)"
    and "\<And>sn t. t \<in> set ts \<Longrightarrow> sn_key sn = (s, n_id t) \<Longrightarrow>
        sn \<in> set current \<longleftrightarrow> sn \<in> set (subscription_nodes (db w))"
    and "\<And>sn. sn \<in> set current \<Longrightarrow> sn_subscription_id sn = s"
  shows "lands (collectE (add_target store policy s current) ts) w
    (add_rows s (active_ids ts) (subscription_nodes (db w)))"
  using assms
proof (induction ts arbitrary: w)
  case Nil
  then show ?case
    using lands_returnE by (simp add: active_ids_def add_rows_Nil)
next
  case (Cons t ts)
  let ?rows = "subscription_nodes (db w)"
  let ?rows1 = "if n_is_active t then add_rows s [n_id t] ?rows else ?rows"
  have nin: "n_id t \<notin> n_id ` set ts"
    using Cons.prems(3) by simp
  have first: "lands (add_target store policy s current t) w ?rows1"
    by (rule lands_add_target) (use Cons.prems in auto)
  show ?case
  proof (rule lands_collect, rule first)
    fix w'
    assume w': "calm w'" "db w' = (db w)\<lparr>subscription_nodes := ?rows1\<rparr>"
    have "lands (collectE (add_target store policy s current) ts) w'
        (add_rows s (active_ids ts) (subscription_nodes (db w')))"
    proof (rule Cons.IH)
      show "bindings_wf (db w')"
        using w'(2) Cons.prems(2) add_rows_wf [of "db w" "[n_id t]" s] by simp
      show "sn \<in> set current \<longleftrightarrow> sn \<in> set (subscription_nodes (db w'))"
        if "u \<in> set ts" "sn_key sn = (s, n_id u)" for sn u
        using Cons.prems(5) [of u sn] that nin w'(2) add_rows_other [of sn s "n_id u" "[n_id t]" ?rows]
        by (auto simp: image_iff)
    qed (use w' Cons.prems in auto)
    moreover have "add_rows s (active_ids ts) ?rows1 = add_rows s (active_ids (t # ts)) ?rows"
      using nin active_ids_sub [of ts] by (auto simp: active_ids_Cons intro: add_rows_Cons [symmetric])
    ultimately show "lands (collectE (add_target store policy s current) ts) w'
        (add_rows s (active_ids (t # ts)) ?rows)"
      using w'(2) by simp
  qed
qed

lemma lands_remove_pass:
  assumes "calm w" "bindings_wf (db w)"
    and "\<And>sn. sn \<in> set L \<Longrightarrow> \<exists>sm \<in> set (subscription_nodes (db w)). sn_key sm = sn_key sn"
  shows "lands (collectE (remove_stale store policy T) L) w
    (update_where (\<lambda>x. \<exists>sn \<in> set L. sn_node_id sn \<notin> set T \<and> sn_key x = sn_key sn)
      (set_sync_status SyncStatusPendingRemove) (subscription_nodes (db w)))"
  using assms
proof (induction L arbitrary: w)
  case Nil
  then show ?case
    using lands_returnE by (simp add: update_where_def)
next
  case (Cons sn L)
  let ?rows = "subscription_nodes (db w)"
  let ?f = "set_sync_status SyncStatusPendingRemove"
  let ?P = "\<lambda>x. sn_node_id sn \<notin> set T \<and> sn_key x = sn_key sn"
  have first: "lands (remove_stale store policy T sn) w (update_where ?P ?f ?rows)"
  proof (cases "sn_node_id sn \<in> set T")
    case True
    then show ?thesis
      using lands_returnE [OF Cons.prems(1)] by (simp add: remove_stale_def update_where_def)
  next
    case False
    have key: "binding (sn_subscription_id sn) (sn_node_id sn) = (\<lambda>x. sn_key x = sn_key sn)"
      by (rule ext) (simp add: binding_key sn_key_def)
    show ?thesis
      using lands_set_status [OF Cons.prems(1,2), of "sn_subscription_id sn" "sn_node_id sn" policy
          SyncStatusPendingRemove] Cons.prems(3) [of sn] False
      by (simp add: remove_stale_def key) (simp add: sn_key_def)
  qed
  show ?case
  proof (rule lands_collect, rule first)
    fix w'
    assume w': "calm w'" "db w' = (db w)\<lparr>subscription_nodes := update_where ?P ?f ?rows\<rparr>"
    have "lands (collectE (remove_stale store policy T) L) w'
       (update_where (\<lambda>x. \<exists>sm \<in> set L. sn_node_id sm \<notin> set T \<and> sn_key x = sn_key sm) ?f
         (subscription_nodes (db w')))"
    proof (rule Cons.IH)
      show "bindings_wf (db w')"
        using w'(2) Cons.prems(2) set_sync_status_wf by simp
      show "\<exists>sx \<in> set (subscription_nodes (db w')). sn_key sx = sn_key sm" if "sm \<in> set L" for sm
        using exists_key_after [OF Cons.prems(3), of sm ?P SyncStatusPendingRemove] that w'(2) by simp
    qed (rule w'(1))
    moreover have "update_where (\<lambda>x. \<exists>sm \<in> set L. sn_node_id sm \<notin> set T \<and> sn_key x = sn_key sm) ?f
         (update_where ?P ?f ?rows)
       = update_where (\<lambda>x. \<exists>sm \<in> set (sn # L). sn_node_id sm \<notin> set T \<and> sn_key x = sn_key sm) ?f ?rows"
      by (auto simp: update_where_def set_sync_status_def sn_key_def)
    ultimately show "lands (collectE (remove_stale store policy T) L) w'
       (update_where (\<lambda>x. \<exists>sm \<in> set (sn # L). sn_node_id sm \<notin> set T \<and> sn_key x = sn_key sm) ?f ?rows)"
      using w'(2) by simp
  qed
qed

end


text \<open>The three REMOVE passes, taken together, after the ADD pass.\<close>

lemma removes_combine:
  "update_where (\<lambda>x. sn_key x \<in> K3) (set_sync_status st)
     (update_where (\<lambda>x. sn_key x \<in> K2) (set_sync_status st)
       (update_where (\<lambda>x. sn_key x \<in> K1) (set_sync_status st) rows))
   = update_where (\<lambda>x. sn_key x \<in> K1 \<union> K2 \<union> K3) (set_sync_status st) rows"
  by (auto simp: update_where_def set_sync_status_def sn_key_def)

definition stale_keys ::
  "uint list \<Rightarrow> subscription_node list \<Rightarrow> (uint \<times> uint) set" where
  "stale_keys T L = sn_key ` {sn \<in> set L. sn_node_id sn \<notin> set T}"

lemma stale_keys_pred:
  "(\<lambda>x. \<exists>sn \<in> set L. sn_node_id sn \<notin> set T \<and> sn_key x = sn_key sn) = (\<lambda>x. sn_key x \<in> stale_keys T L)"
  by (auto simp: stale_keys_def image_iff)

lemma in_stale_keys:
  "k \<in> stale_keys T (with_status st (rows_of s d)) \<longleftrightarrow>
     (\<exists>sn \<in> set (subscription_nodes d). k = sn_key sn \<and> sn_subscription_id sn = s
        \<and> sn_node_id sn \<notin> set T \<and> sn_status sn = st)"
  by (auto simp: stale_keys_def with_status_def rows_of_def)

lemma not_pending_remove:
  "st \<noteq> SyncStatusPendingRemove \<longleftrightarrow>
     st = SyncStatusActive \<or> st = SyncStatusPendingAdd \<or> st = SyncStatusPendingUpdate"
  by (cases st) simp_all

lemma passes_rows:
  fixes s :: uint and d :: db
  assumes wf: "bindings_wf d"
  defines "current \<equiv> rows_of s d"
  shows "update_where (\<lambda>x. sn_key x \<in> stale_keys T (with_status SyncStatusActive current)
            \<union> stale_keys T (with_status SyncStatusPendingAdd current)
            \<union> stale_keys T (with_status SyncStatusPendingUpdate current))
          (set_sync_status SyncStatusPendingRemove) (add_rows s T (subscription_nodes d))
       = reconcile_rows s T (subscription_nodes d)"
proof -
  let ?rows = "subscription_nodes d" and ?f = "set_sync_status SyncStatusPendingRemove"
  let ?K = "stale_keys T (with_status SyncStatusActive current)
            \<union> stale_keys T (with_status SyncStatusPendingAdd current)
            \<union> stale_keys T (with_status SyncStatusPendingUpdate current)"
  have uniq: "sn = sm" if "sn \<in> set ?rows" "sm \<in> set ?rows" "sn_key sn = sn_key sm" for sn sm
    using wf that distinct_key_eq [of sn_key ?rows sn sm] by (simp add: bindings_wf_def)
  have K: "k \<in> ?K \<longleftrightarrow> (\<exists>sn \<in> set ?rows. k = sn_key sn \<and> sn_subscription_id sn = s
      \<and> sn_node_id sn \<notin> set T \<and> sn_status sn \<noteq> SyncStatusPendingRemove)" for k
    unfolding current_def Un_iff in_stale_keys not_pending_remove by blast
  have old: "(if sn_key (readd_row s T x) \<in> ?K then ?f (readd_row s T x) else readd_row s T x)
      = reconcile_row s T x" if x: "x \<in> set ?rows" for x
  proof -
    have "sn_key x \<in> ?K \<longleftrightarrow> sn_subscription_id x = s \<and> sn_node_id x \<notin> set T
        \<and> sn_status x \<noteq> SyncStatusPendingRemove"
      unfolding K using uniq [OF x] x by metis
    then show ?thesis
      by (simp add: reconcile_row_def readd_row_def)
  qed
  have new: "sn_key (fresh_binding s n) \<notin> ?K" if "n \<in> set T" for n
    unfolding K using that by (auto simp: sn_key_def fresh_binding_def)
  have "map (\<lambda>x. if sn_key x \<in> ?K then ?f x else x) (map (fresh_binding s) (missing_targets s T ?rows))
      = map (fresh_binding s) (missing_targets s T ?rows)"
    using new by (intro map_idI) (auto simp: missing_targets_def)
  moreover have "map (\<lambda>x. if sn_key x \<in> ?K then ?f x else x) (map (readd_row s T) ?rows)
      = map (reconcile_row s T) ?rows"
    using old by simp
  ultimately show ?thesis
    by (simp add: update_where_def add_rows_def reconcile_rows_def del: map_map)
qed

context plan_node_store
begin

lemma lands_passes:
  assumes w: "calm w" "bindings_wf (db w)" and ts: "distinct (map n_id targets)"
    and refs: "\<And>t. t \<in> set targets \<Longrightarrow> n_is_active t \<Longrightarrow> binding_refs (fresh_binding s (n_id t)) (db w)"
  shows "lands (reconcile_passes store policy s targets (rows_of s (db w))) w
    (reconcile_rows s (active_ids targets) (subscription_nodes (db w)))"
proof -
  let ?cur = "rows_of s (db w)" and ?T = "active_ids targets" and ?rows = "subscription_nodes (db w)"
  let ?f = "set_sync_status SyncStatusPendingRemove"
  let ?K = "\<lambda>st. stale_keys ?T (with_status st ?cur)"
  let ?upd = "\<lambda>st. update_where (\<lambda>x. sn_key x \<in> ?K st) ?f"
  let ?r1 = "add_rows s ?T ?rows"
  have add: "lands (collectE (add_target store policy s ?cur) targets) w ?r1"
    by (rule lands_add_pass [OF w ts refs]) (auto simp: rows_of_def sn_key_def)
  have wf1: "bindings_wf ((db w)\<lparr>subscription_nodes := ?r1\<rparr>)"
    using w(2) ts by (intro add_rows_wf) (auto simp: active_ids_def distinct_map_filter)
  have keys1: "\<exists>sm \<in> set ?r1. sn_key sm = sn_key sn" if "sn \<in> set (with_status st ?cur)" for sn st
    using that by (auto simp: with_status_def rows_of_def add_rows_def intro!: bexI [of _ "readd_row s ?T sn"])
  have rem: "lands (collectE (remove_stale store policy ?T) (with_status st ?cur)) v (?upd st rows)"
    if "calm v" "db v = (db w)\<lparr>subscription_nodes := rows\<rparr>" "bindings_wf ((db w)\<lparr>subscription_nodes := rows\<rparr>)"
      "\<And>sn. sn \<in> set (with_status st ?cur) \<Longrightarrow> \<exists>sm \<in> set rows. sn_key sm = sn_key sn" for v st rows
    using lands_remove_pass [of v "with_status st ?cur" policy ?T] that by (simp add: stale_keys_pred)
  have wfu: "bindings_wf ((db w)\<lparr>subscription_nodes := update_where P ?f rows\<rparr>)"
    if "bindings_wf ((db w)\<lparr>subscription_nodes := rows\<rparr>)" for P rows
    using set_sync_status_wf [OF that] by simp
  let ?r2 = "?upd SyncStatusActive ?r1" let ?r3 = "?upd SyncStatusPendingAdd ?r2"
  let ?r4 = "?upd SyncStatusPendingUpdate ?r3"
  have "lands (reconcile_passes store policy s targets ?cur) w ?r4"
    unfolding reconcile_passes_def Let_def
    apply (rule lands_seq, rule add)
    apply (rule lands_seq, rule rem, assumption, assumption, rule wf1, erule keys1)
    apply (rule lands_seq, rule rem, assumption, simp, intro wfu wf1, rule exists_key_after, erule keys1)
    apply (rule lands_seq, rule rem, assumption, simp, intro wfu wf1, intro exists_key_after, erule keys1)
    by (simp add: lands_def returnE_def)
  then show ?thesis
    by (simp only: removes_combine passes_rows [OF w(2)])
qed

end


lemma active_plan_nodes_props:
  assumes "t \<in> set (active_plan_nodes p d)"
  shows "t \<in> set (nodes d)" "n_is_active t"
  using assms by (auto simp: active_plan_nodes_def plan_node_rows_def split: if_splits)

lemma active_ids_plan: "active_ids (active_plan_nodes p d) = map n_id (active_plan_nodes p d)"
  by (simp add: active_ids_def active_plan_nodes_def)

definition plan_targets :: "uint \<Rightarrow> db \<Rightarrow> uint list" where
  "plan_targets p d = map n_id (active_plan_nodes p d)"

context plan_node_store
begin

lemma core_implements_table:
  assumes w: "calm w" "bindings_wf (db w)"
    and sub: "\<exists>x \<in> set (subscriptions (db w)). s_id x = s"
    and plan: "distinct (plan_targets p (db w))"
    and opt: "\<not> readSubscription opt" "planID opt = p"
      "preloadedTargets opt = None \<or> preloadedTargets opt = Some (active_plan_nodes p (db w))"
  shows "lands (reconcilePlanNodesCore store s opt) w
    (reconcile_rows s (plan_targets p (db w)) (subscription_nodes (db w)))"
proof -
  let ?ts = "active_plan_nodes p (db w)"
  have passes: "lands (reconcile_passes store (onNodeError opt) s ?ts (rows_of s (db v))) v
      (reconcile_rows s (plan_targets p (db w)) (subscription_nodes (db v)))"
    if "calm v" "db v = db w" for v
  proof -
    have refs: "binding_refs (fresh_binding s (n_id t)) (db v)" if t: "t \<in> set ?ts" for t
      using sub active_plan_nodes_props(1) [OF t] \<open>db v = db w\<close>
      by (auto simp: binding_refs_def list_ex_iff fresh_binding_def)
    show ?thesis
      using lands_passes [of v ?ts s "onNodeError opt"] that w plan refs
      by (simp add: plan_targets_def active_ids_plan)
  qed
  have load: "lands (bindE (LoadSubscriptionNodes store s) (\<lambda>current.
         reconcile_passes store (onNodeError opt) s ?ts current)) v
      (reconcile_rows s (plan_targets p (db w)) (subscription_nodes (db v)))"
    if "calm v" "db v = db w" for v
    using passes [of "step_turn v"] that by (simp add: lands_def bindE_def load_nodes)
  consider "preloadedTargets opt = None" | "preloadedTargets opt = Some ?ts"
    using opt(3) by (elim disjE) auto
  then show ?thesis
  proof cases
    case 1
    have "reconcilePlanNodesCore store s opt w = bindE (LoadSubscriptionNodes store s) (\<lambda>current.
         reconcile_passes store (onNodeError opt) s ?ts current) (step_turn w)"
      using opt 1 load_plan_nodes [OF w(1), of p] by (simp add: reconcilePlanNodesCore_def) (simp add: bindE_def)
    then show ?thesis
      using load [of "step_turn w"] w by (simp add: lands_def)
  next
    case 2
    then show ?thesis
      using opt load [of w] w by (simp add: reconcilePlanNodesCore_def)
  qed
qed

end

end
