(* ===== verification/Subscription_Store.thy ===== *)
theory Subscription_Store
  imports Plan_Reconcile "HOL-Library.Word"
begin

text \<open>
  Subscriptions: \<open>internal/database/subscriptions.go\<close>, \<open>trials.go\<close>, \<open>subscription_reminders.go\<close>
  and the claims of \<open>subscription_traffic.go\<close>.

  The three unique indexes of the table are checked by every statement that can touch their
  columns; a physical delete cascades to the orders and is refused while bindings refer to the
  row. The clock is a parameter of the operations that read it.
\<close>

section \<open>The table\<close>

definition subs_valid :: "subscription list \<Rightarrow> bool" where
  "subs_valid ss \<longleftrightarrow> distinct (map s_telegram_id ss) \<and> distinct (map s_client_id ss)
     \<and> distinct (map s_subscription_id ss)"

definition update_subs ::
  "(subscription \<Rightarrow> bool) \<Rightarrow> (subscription \<Rightarrow> subscription) \<Rightarrow> db \<Rightarrow> error + (nat \<times> db)" where
  "update_subs P f d =
     (let ss = update_where P f (subscriptions d) in
      if subs_valid ss then Inr (count_where P (subscriptions d), d\<lparr>subscriptions := ss\<rparr>)
      else Inl [SqliteUnique])"

text \<open>The \<open>default:'[]'\<close> tag of the two JSON columns: an empty value is replaced on insert.\<close>

definition json_default :: "string \<Rightarrow> string" where
  "json_default j = (if j = [] then ''[]'' else j)"

definition insert_subscription :: "subscription \<Rightarrow> db \<Rightarrow> error + (subscription \<times> db)" where
  "insert_subscription s d =
     (let s' = s\<lparr>s_id := Suc (subscription_seq d), s_created_at := row_clock d,
                  s_devices := json_default (s_devices s), s_ips := json_default (s_ips s)\<rparr>;
          ss = subscriptions d @ [s'] in
      if \<not> subs_valid ss then Inl [SqliteUnique]
      else if \<not> list_ex (\<lambda>p. pl_id p = s_plan_id s) (plans d) then Inl [SqliteForeignKey]
      else Inr (s', d\<lparr>subscriptions := ss, subscription_seq := Suc (subscription_seq d)\<rparr>))"

definition delete_subs :: "(subscription \<Rightarrow> bool) \<Rightarrow> db \<Rightarrow> error + (subscription list \<times> db)" where
  "delete_subs P d =
     (let gone = filter P (subscriptions d) in
      if list_ex (\<lambda>sn. sn_subscription_id sn \<in> set (map s_id gone)) (subscription_nodes d)
      then Inl [SqliteForeignKey]
      else Inr (gone, d\<lparr>subscriptions := delete_where P (subscriptions d),
                        orders := delete_where (\<lambda>r. o_subscription_id r \<in> set (map s_id gone)) (orders d)\<rparr>))"

definition newest :: "subscription list \<Rightarrow> subscription option" where
  "newest ss = (case sort_key (\<lambda>s. - s_created_at s) ss of [] \<Rightarrow> None | s # _ \<Rightarrow> Some s)"

definition or_not_found :: "sentinel \<Rightarrow> 'a option \<Rightarrow> error + 'a" where
  "or_not_found e r = (case r of None \<Rightarrow> Inl [e] | Some x \<Rightarrow> Inr x)"

section \<open>\<open>subscriptions.go\<close>\<close>

definition GetByTelegramID :: "int \<Rightarrow> (world, subscription) op" where
  "GetByTelegramID telegramID = queryE (\<lambda>d. or_not_found ErrSubscriptionNotFound
     (newest (filter (\<lambda>s. s_telegram_id s = telegramID \<and> s_status s = SubscriptionStatusActive) (subscriptions d))))"

definition GetAnyByTelegramID :: "int \<Rightarrow> (world, subscription) op" where
  "GetAnyByTelegramID telegramID = queryE (\<lambda>d. or_not_found ErrSubscriptionNotFound
     (newest (filter (\<lambda>s. s_telegram_id s = telegramID) (subscriptions d))))"

definition CreateSubscription :: "subscription \<Rightarrow> string \<Rightarrow> (world, subscription) op" where
  "CreateSubscription sub inviteCode =
     transaction
       (bindE (if inviteCode \<noteq> []
               then bindE (tx_query (\<lambda>d. select_first (\<lambda>i. i_code i = inviteCode) (invites d))) (\<lambda>inv.
                      returnE (case inv of None \<Rightarrow> sub
                               | Some i \<Rightarrow> sub\<lparr>s_invite_code := Some inviteCode,
                                               s_referred_by := Some (i_referrer_tg_id i)\<rparr>))
               else returnE sub) (\<lambda>sub'.
        txE (insert_subscription sub')))"

definition copy_lifecycle :: "subscription \<Rightarrow> subscription \<Rightarrow> subscription" where
  "copy_lifecycle new s =
     s\<lparr>s_telegram_id := s_telegram_id new, s_username := s_username new, s_client_id := s_client_id new,
       s_subscription_id := s_subscription_id new, s_expires_at := s_expires_at new,
       s_status := s_status new, s_invite_code := s_invite_code new, s_plan_id := s_plan_id new,
       s_referred_by := s_referred_by new, s_devices := s_devices new, s_ips := s_ips new,
       s_product_id := s_product_id new, s_started_at := s_started_at new,
       s_price_paid_cents := s_price_paid_cents new, s_currency := s_currency new,
       s_reminders_sent := s_reminders_sent new\<rparr>"

definition found_sub :: "(world, nat) op \<Rightarrow> (world, unit) op" where
  "found_sub m = bindE m (\<lambda>n. if n = 0 then failE [ErrSubscriptionNotFound] else returnE ())"

definition UpdateSubscription :: "subscription \<Rightarrow> (world, unit) op" where
  "UpdateSubscription sub =
     found_sub (stmtE (update_subs (\<lambda>s. s_id s = s_id sub) (copy_lifecycle sub)))"

definition DeleteSubscriptionByID :: "uint \<Rightarrow> (world, subscription) op" where
  "DeleteSubscriptionByID i =
     tryE (transaction
       (bindE (tx_queryE (\<lambda>d. or_not_found ErrRecordNotFound (select_first (\<lambda>s. s_id s = i) (subscriptions d)))) (\<lambda>deleted.
        bindE (txE (delete_subs (\<lambda>s. s_id s = i))) (\<lambda>gone.
        if gone = [] then failE [ErrRecordNotFound] else returnE deleted)))) (\<lambda>r.
     case r of Inl e \<Rightarrow> failE (if errors_is e ErrRecordNotFound then [ErrSubscriptionNotFound] else e)
     | Inr s \<Rightarrow> returnE s)"

definition GetAllSubscriptions :: "(world, subscription list) op" where
  "GetAllSubscriptions = query subscriptions"

definition CountActiveSubscriptions :: "(world, nat) op" where
  "CountActiveSubscriptions = query (\<lambda>d.
     count_where (\<lambda>s. s_status s = SubscriptionStatusActive) (subscriptions d))"

definition CountPremiumSubscriptions :: "(world, nat) op" where
  "CountPremiumSubscriptions = query (\<lambda>d. count_where (\<lambda>s. s_status s = SubscriptionStatusActive
     \<and> (s_product_id s \<noteq> None \<or> 0 < s_price_paid_cents s)
     \<and> list_ex (\<lambda>p. pl_id p = s_plan_id s) (plans d)) (subscriptions d))"

definition CountFreeSubscriptions :: "(world, nat) op" where
  "CountFreeSubscriptions = query (\<lambda>d. count_where (\<lambda>s. s_status s = SubscriptionStatusActive
     \<and> 0 < s_telegram_id s \<and> s_product_id s = None \<and> s_price_paid_cents s = 0) (subscriptions d))"

definition CountTrialSubscriptions :: "(world, nat) op" where
  "CountTrialSubscriptions = query (\<lambda>d. count_where (\<lambda>s. s_telegram_id s < 0) (subscriptions d))"

definition servable :: "time \<Rightarrow> string \<Rightarrow> subscription \<Rightarrow> bool" where
  "servable now subscriptionID s \<longleftrightarrow> s_subscription_id s = subscriptionID
     \<and> s_status s = SubscriptionStatusActive
     \<and> (case s_expires_at s of None \<Rightarrow> True | Some t \<Rightarrow> now < t)"

definition GetSubscriptionStatus :: "string \<Rightarrow> (world, subscription_status \<times> time option) op" where
  "GetSubscriptionStatus subscriptionID =
     bindE (queryE (\<lambda>d. or_not_found ErrSubscriptionNotFound
              (select_first (\<lambda>s. s_subscription_id s = subscriptionID) (subscriptions d))))
       (\<lambda>s. returnE (s_status s, s_expires_at s))"

definition GetWithPlanAndNodes :: "time \<Rightarrow> string \<Rightarrow> (world, subscription \<times> plan \<times> node list) op" where
  "GetWithPlanAndNodes now subscriptionID =
     bindE (queryE (\<lambda>d. or_not_found ErrSubscriptionNotFound
              (select_first (servable now subscriptionID) (subscriptions d)))) (\<lambda>s.
     bindE (queryE (\<lambda>d. or_not_found ErrPlanNotFound
              (select_first (\<lambda>p. pl_id p = s_plan_id s) (plans d)))) (\<lambda>p.
     bindE (query (active_plan_nodes (pl_id p))) (\<lambda>ns.
     returnE (s, p, ns))))"

definition set_devices :: "string \<Rightarrow> subscription \<Rightarrow> subscription" where
  "set_devices j s = s\<lparr>s_devices := j\<rparr>"

definition UpdateDevices :: "uint \<Rightarrow> string \<Rightarrow> (world, unit) op" where
  "UpdateDevices i json = found_sub (stmtE (update_subs (\<lambda>s. s_id s = i) (set_devices json)))"

definition set_ips :: "string \<Rightarrow> subscription \<Rightarrow> subscription" where
  "set_ips j s = s\<lparr>s_ips := j\<rparr>"

definition UpdateIPs :: "uint \<Rightarrow> string \<Rightarrow> (world, unit) op" where
  "UpdateIPs i json = found_sub (stmtE (update_subs (\<lambda>s. s_id s = i) (set_ips json)))"

definition set_last_request :: "time \<Rightarrow> subscription \<Rightarrow> subscription" where
  "set_last_request t s = s\<lparr>s_last_request := Some t\<rparr>"

definition UpdateLastRequest :: "time \<Rightarrow> string \<Rightarrow> (world, unit) op" where
  "UpdateLastRequest now subscriptionID =
     found_sub (stmtE (update_subs (\<lambda>s. s_subscription_id s = subscriptionID) (set_last_request now)))"

definition expired_now :: "uint \<Rightarrow> time \<Rightarrow> subscription \<Rightarrow> bool" where
  "expired_now i now s \<longleftrightarrow> s_id s = i \<and> s_status s = SubscriptionStatusActive
     \<and> (case s_expires_at s of None \<Rightarrow> False | Some t \<Rightarrow> t \<le> now)"

definition already_free :: "uint \<Rightarrow> subscription \<Rightarrow> bool" where
  "already_free freePlanID s \<longleftrightarrow> s_status s = SubscriptionStatusActive \<and> s_plan_id s = freePlanID
     \<and> s_expires_at s = None \<and> s_product_id s = None \<and> s_started_at s = None
     \<and> s_price_paid_cents s = 0 \<and> s_currency s = None"

definition expire_tx :: "time \<Rightarrow> uint \<Rightarrow> uint \<Rightarrow> apply_plan option \<Rightarrow> (world, unit) op" where
  "expire_tx now i freePlanID applyPlan =
     bindE (txE (update_subs (expired_now i now) (reset_to_free freePlanID))) (\<lambda>n.
     if n = 0 then
       bindE (tx_queryE (find_subscription i)) (\<lambda>current.
       if already_free freePlanID current then returnE ()
       else failE (errors_new ''state changed concurrently''))
     else (case applyPlan of Some apply_fn \<Rightarrow> apply_fn i freePlanID | None \<Rightarrow> returnE ()))"

definition ExpireSubscriptionWithPlanCAS ::
  "time \<Rightarrow> uint \<Rightarrow> uint \<Rightarrow> apply_plan option \<Rightarrow> (world, unit) op" where
  "ExpireSubscriptionWithPlanCAS now i freePlanID applyPlan =
     transaction (expire_tx now i freePlanID applyPlan)"

definition ExpireSubscription :: "uint \<Rightarrow> uint \<Rightarrow> (world, unit) op" where
  "ExpireSubscription i freePlanID =
     found_sub (stmtE (update_subs (\<lambda>s. s_id s = i) (reset_to_free freePlanID)))"

definition plan_named :: "db \<Rightarrow> uint \<Rightarrow> string \<Rightarrow> bool" where
  "plan_named d i name \<longleftrightarrow> list_ex (\<lambda>p. pl_id p = i \<and> pl_name p = name) (plans d)"

definition GetExpiredPaidSubscriptions :: "time \<Rightarrow> (world, subscription list) op" where
  "GetExpiredPaidSubscriptions now = query (\<lambda>d. filter (\<lambda>s.
     (case s_expires_at s of None \<Rightarrow> False | Some t \<Rightarrow> t \<le> now)
     \<and> s_status s = SubscriptionStatusActive
     \<and> \<not> plan_named d (s_plan_id s) FreePlanName \<and> \<not> plan_named d (s_plan_id s) TrialPlanName)
     (subscriptions d))"

definition GetTelegramIDByUsername :: "string \<Rightarrow> (world, int) op" where
  "GetTelegramIDByUsername username = queryE (\<lambda>d.
     case select_first (\<lambda>s. s_username s = username) (subscriptions d) of
       None \<Rightarrow> Inl [ErrSubscriptionNotFound] | Some s \<Rightarrow> Inr (s_telegram_id s))"

section \<open>\<open>trials.go\<close>\<close>

text \<open>The hash is \<open>int64\<close> arithmetic, which wraps.\<close>

definition trial_hash :: "string \<Rightarrow> 64 word" where
  "trial_hash subscriptionID = foldl (\<lambda>h c. h * 31 + of_nat (of_char c)) 0 subscriptionID"

definition generateTrialTelegramID :: "string \<Rightarrow> int" where
  "generateTrialTelegramID subscriptionID =
     (let h = trial_hash subscriptionID;
          h1 = (if h = 0 then - 1 else h);
          h2 = (if 0 < sint h1 then - h1 else h1)
      in sint h2)"

definition blank_subscription :: subscription where
  "blank_subscription =
     \<lparr>s_id = 0, s_telegram_id = 0, s_username = [], s_client_id = [], s_subscription_id = [],
      s_expires_at = None, s_status = SubscriptionStatusActive, s_invite_code = None, s_plan_id = 0,
      s_referred_by = None, s_product_id = None, s_started_at = None, s_price_paid_cents = 0,
      s_currency = None, s_devices = [], s_ips = [], s_last_request = None,
      s_created_at = 0, s_reminders_sent = 0, s_traffic_reminders_sent = 0\<rparr>"

definition named_plan :: "sentinel \<Rightarrow> string \<Rightarrow> db \<Rightarrow> error + plan" where
  "named_plan e name d = or_not_found e (select_first (\<lambda>p. pl_name p = name) (plans d))"

definition CreateTrialSubscription :: "string \<Rightarrow> string \<Rightarrow> string \<Rightarrow> time \<Rightarrow> (world, subscription) op" where
  "CreateTrialSubscription inviteCode subscriptionID clientID expiryTime =
     bindE (queryE (named_plan ErrPlanNotFound TrialPlanName)) (\<lambda>plan.
     stmtE (insert_subscription (blank_subscription
       \<lparr>s_telegram_id := generateTrialTelegramID subscriptionID, s_subscription_id := subscriptionID,
        s_client_id := clientID, s_plan_id := pl_id plan,
        s_invite_code := (if inviteCode \<noteq> [] then Some inviteCode else None),
        s_expires_at := Some expiryTime\<rparr>)))"

definition GetTrialSubscriptionBySubID :: "string \<Rightarrow> (world, subscription) op" where
  "GetTrialSubscriptionBySubID subscriptionID =
     bindE (queryE (\<lambda>d. or_not_found ErrSubscriptionNotFound
              (select_first (\<lambda>s. s_subscription_id s = subscriptionID) (subscriptions d)))) (\<lambda>sub.
     bindE (query (\<lambda>d. select_first (\<lambda>p. pl_id p = s_plan_id sub) (plans d))) (\<lambda>plan.
     case plan of None \<Rightarrow> failE (errors_new ''subscription is not a trial'')
     | Some p \<Rightarrow> if pl_name p \<noteq> TrialPlanName then failE (errors_new ''subscription is not a trial'')
                 else returnE sub))"

definition bindable_trial :: "string \<Rightarrow> uint \<Rightarrow> subscription \<Rightarrow> bool" where
  "bindable_trial subscriptionID trialPlanID s \<longleftrightarrow> s_subscription_id s = subscriptionID
     \<and> s_plan_id s = trialPlanID \<and> s_telegram_id s < 0 \<and> s_status s = SubscriptionStatusActive"

definition bind_columns :: "int \<Rightarrow> string \<Rightarrow> uint \<Rightarrow> int \<Rightarrow> subscription \<Rightarrow> subscription" where
  "bind_columns telegramID username freePlanID referredBy s =
     s\<lparr>s_telegram_id := telegramID, s_username := username, s_plan_id := freePlanID,
       s_referred_by := Some referredBy, s_expires_at := None\<rparr>"

definition bind_trial_tx :: "string \<Rightarrow> int \<Rightarrow> string \<Rightarrow> (world, subscription \<times> int \<times> uint) op" where
  "bind_trial_tx subscriptionID telegramID username =
     bindE (tx_queryE (named_plan ErrRecordNotFound TrialPlanName)) (\<lambda>trialPlan.
     bindE (tx_queryE (\<lambda>d. or_not_found ErrTrialAlreadyActivated
              (select_first (bindable_trial subscriptionID (pl_id trialPlan)) (subscriptions d)))) (\<lambda>sub.
     bindE (case s_invite_code sub of None \<Rightarrow> returnE 0
            | Some code \<Rightarrow>
                if code = [] then returnE 0
                else bindE (tx_query (\<lambda>d. select_first (\<lambda>i. i_code i = code) (invites d))) (\<lambda>inv.
                       returnE (case inv of None \<Rightarrow> 0 | Some i \<Rightarrow> i_referrer_tg_id i))) (\<lambda>referredBy.
     bindE (tx_queryE (named_plan ErrRecordNotFound FreePlanName)) (\<lambda>freePlan.
     bindE (txE (update_subs
              (\<lambda>s. s_id s = s_id sub \<and> s_telegram_id s < 0 \<and> s_plan_id s = pl_id trialPlan)
              (bind_columns telegramID username (pl_id freePlan) referredBy))) (\<lambda>n.
     if n = 0 then failE [ErrTrialAlreadyActivated]
     else returnE (sub, referredBy, pl_id freePlan))))))"

definition BindTrialSubscription :: "string \<Rightarrow> int \<Rightarrow> string \<Rightarrow> (world, subscription) op" where
  "BindTrialSubscription subscriptionID telegramID username =
     bindE (transaction (bind_trial_tx subscriptionID telegramID username)) (\<lambda>(sub, referredBy, freePlanID).
     returnE (let s = sub\<lparr>s_telegram_id := telegramID, s_username := username, s_plan_id := freePlanID,
                         s_expires_at := None\<rparr>
              in if referredBy \<noteq> 0 then s\<lparr>s_referred_by := Some referredBy\<rparr> else s))"

text \<open>The columns the \<open>RETURNING\<close> clause brings back; the rest of the row stays zero.\<close>

definition claimed_columns :: "subscription \<Rightarrow> subscription" where
  "claimed_columns s =
     blank_subscription\<lparr>s_id := s_id s, s_client_id := s_client_id s,
       s_subscription_id := s_subscription_id s, s_plan_id := s_plan_id s,
       s_telegram_id := s_telegram_id s, s_status := s_status s\<rparr>"

definition stale_trial :: "uint \<Rightarrow> time \<Rightarrow> subscription \<Rightarrow> bool" where
  "stale_trial trialPlanID cutoff s \<longleftrightarrow> s_plan_id s = trialPlanID \<and> s_telegram_id s < 0
     \<and> s_created_at s < cutoff"

definition set_sub_status :: "subscription_status \<Rightarrow> subscription \<Rightarrow> subscription" where
  "set_sub_status st s = s\<lparr>s_status := st\<rparr>"

definition claimable_trial :: "uint \<Rightarrow> time \<Rightarrow> subscription \<Rightarrow> bool" where
  "claimable_trial trialPlanID cutoff s \<longleftrightarrow> stale_trial trialPlanID cutoff s
     \<and> s_status s \<in> {SubscriptionStatusActive, SubscriptionStatusExpired}"

definition claim_trials :: "uint \<Rightarrow> time \<Rightarrow> db \<Rightarrow> subscription list \<times> db" where
  "claim_trials trialPlanID cutoff d =
     (map (claimed_columns \<circ> set_sub_status SubscriptionStatusExpired)
        (filter (claimable_trial trialPlanID cutoff) (subscriptions d)),
      d\<lparr>subscriptions := update_where (claimable_trial trialPlanID cutoff)
          (set_sub_status SubscriptionStatusExpired) (subscriptions d)\<rparr>)"

definition purge_trial_requests :: "time \<Rightarrow> db \<Rightarrow> unit \<times> db" where
  "purge_trial_requests cutoff d =
     ((), d\<lparr>trial_requests := delete_where (\<lambda>r. tr_created_at r < cutoff) (trial_requests d)\<rparr>)"

definition ClaimExpiredTrials :: "time \<Rightarrow> int \<Rightarrow> (world, subscription list) op" where
  "ClaimExpiredTrials now hours =
     bindE (queryE (named_plan ErrRecordNotFound TrialPlanName)) (\<lambda>trialPlan.
     bindE (execE (claim_trials (pl_id trialPlan) (now - hours * hour))) (\<lambda>subs.
     bindE (execE (purge_trial_requests (now - hour + second))) (\<lambda>_.
     returnE subs)))"

definition DeleteClaimedTrial :: "uint \<Rightarrow> (world, unit) op" where
  "DeleteClaimedTrial i =
     bindE (queryE (named_plan ErrRecordNotFound TrialPlanName)) (\<lambda>trialPlan.
     bindE (stmtE (delete_subs (\<lambda>s. s_id s = i \<and> s_plan_id s = pl_id trialPlan \<and> s_telegram_id s < 0
              \<and> s_status s = SubscriptionStatusExpired))) (\<lambda>gone.
     if gone = [] then failE [ErrSubscriptionNotFound] else returnE ()))"

definition CountTrialRequestsByIPLastHour :: "time \<Rightarrow> string \<Rightarrow> (world, nat) op" where
  "CountTrialRequestsByIPLastHour now ip = query (\<lambda>d.
     count_where (\<lambda>r. tr_ip r = ip \<and> now - hour < tr_created_at r) (trial_requests d))"

definition CreateTrialRequest :: "string \<Rightarrow> (world, unit) op" where
  "CreateTrialRequest ip = execE (\<lambda>d.
     ((), d\<lparr>trial_requests := trial_requests d @ [\<lparr>tr_ip = ip, tr_created_at = row_clock d\<rparr>]\<rparr>))"

section \<open>The contract\<close>

definition subs_wf :: "db \<Rightarrow> bool" where
  "subs_wf d \<longleftrightarrow> subs_valid (subscriptions d) \<and> distinct (map s_id (subscriptions d))
     \<and> (\<forall>s \<in> set (subscriptions d). s_id s \<le> subscription_seq d)"

text \<open>Ids are never given out twice, and the unique columns stay unique.\<close>

definition subs_evolve :: "db \<Rightarrow> db \<Rightarrow> bool" where
  "subs_evolve d d' \<longleftrightarrow> (subs_wf d \<longrightarrow> subs_wf d' \<and> subscription_seq d \<le> subscription_seq d'
     \<and> (\<forall>s' \<in> set (subscriptions d'). s_id s' \<le> subscription_seq d \<longrightarrow>
          s_id s' \<in> s_id ` set (subscriptions d)))"

interpretation subs: db_contract subs_evolve
proof
  show "subs_evolve d d" for d
    by (simp add: subs_evolve_def)
  fix d e f
  assume de: "subs_evolve d e" and ef: "subs_evolve e f"
  show "subs_evolve d f"
    unfolding subs_evolve_def
  proof (intro impI conjI ballI)
    assume wf: "subs_wf d"
    then have e: "subs_wf e" "subscription_seq d \<le> subscription_seq e"
      using de by (simp_all add: subs_evolve_def)
    then show "subs_wf f" "subscription_seq d \<le> subscription_seq f"
      using ef by (auto simp: subs_evolve_def)
    fix s'
    assume s': "s' \<in> set (subscriptions f)" "s_id s' \<le> subscription_seq d"
    then obtain s where "s \<in> set (subscriptions e)" "s_id s = s_id s'"
      using ef e by (auto simp: subs_evolve_def)
    then have "s_id s \<le> subscription_seq d"
      using s' by simp
    then have "s_id s \<in> s_id ` set (subscriptions d)"
      using de wf \<open>s \<in> set (subscriptions e)\<close> unfolding subs_evolve_def by blast
    with \<open>s_id s = s_id s'\<close> show "s_id s' \<in> s_id ` set (subscriptions d)"
      by simp
  qed
qed

lemma subs_evolve_same:
  "subscriptions d' = subscriptions d \<Longrightarrow> subscription_seq d' = subscription_seq d \<Longrightarrow> subs_evolve d d'"
  by (simp add: subs_evolve_def subs_wf_def)

lemma subs_evolve_update:
  assumes "\<And>s. s_id (f s) = s_id s"
    and "subs_valid (subscriptions d) \<Longrightarrow> subs_valid (update_where P f (subscriptions d))"
    and "subscriptions d' = update_where P f (subscriptions d)" "subscription_seq d' = subscription_seq d"
  shows "subs_evolve d d'"
proof -
  have keys: "map s_id (update_where P f (subscriptions d)) = map s_id (subscriptions d)"
    by (rule map_key_update_where) (rule assms(1))
  have "s_id ` set (update_where P f (subscriptions d)) = s_id ` set (subscriptions d)"
    using arg_cong [OF keys, of set] by simp
  moreover have "(\<forall>s \<in> set (update_where P f (subscriptions d)). s_id s \<le> q)
      \<longleftrightarrow> (\<forall>s \<in> set (subscriptions d). s_id s \<le> q)" for q
    by (simp add: ball_update_where assms(1))
  ultimately show ?thesis
    using assms keys by (simp add: subs_evolve_def subs_wf_def image_iff) blast
qed

lemma update_subs_ok:
  "update_subs P f d = Inr (n, d') \<Longrightarrow>
     d' = d\<lparr>subscriptions := update_where P f (subscriptions d)\<rparr> \<and> n = count_where P (subscriptions d)
     \<and> subs_valid (update_where P f (subscriptions d))"
  by (auto simp: update_subs_def Let_def split: if_splits)

lemma insert_subscription_ok:
  "insert_subscription s d = Inr (s', d') \<Longrightarrow>
     s_id s' = Suc (subscription_seq d) \<and> subs_valid (subscriptions d @ [s'])
     \<and> d' = d\<lparr>subscriptions := subscriptions d @ [s'], subscription_seq := Suc (subscription_seq d)\<rparr>"
  by (auto simp: insert_subscription_def Let_def split: if_splits)

lemma delete_subs_ok:
  "delete_subs P d = Inr (gone, d') \<Longrightarrow> gone = filter P (subscriptions d)
     \<and> d' = d\<lparr>subscriptions := delete_where P (subscriptions d),
              orders := delete_where (\<lambda>r. o_subscription_id r \<in> set (map s_id gone)) (orders d)\<rparr>
     \<and> (\<forall>sn \<in> set (subscription_nodes d). sn_subscription_id sn \<notin> s_id ` set gone)"
  by (auto simp: delete_subs_def Let_def list_ex_iff split: if_splits)

locale subscription_statements = db_contract R for R :: "db \<Rightarrow> db \<Rightarrow> bool" +
  assumes update_R: "\<And>P f d n d'. update_subs P f d = Inr (n, d') \<Longrightarrow>
        (\<And>s. s_id (f s) = s_id s) \<Longrightarrow> R d d'"
    and insert_R: "\<And>s d s' d'. insert_subscription s d = Inr (s', d') \<Longrightarrow> R d d'"
    and delete_R: "\<And>P d gone d'. delete_subs P d = Inr (gone, d') \<Longrightarrow> R d d'"
    and claim_R: "\<And>i t d. R d (snd (claim_trials i t d))"
    and requests_R: "\<And>d rs. R d (d\<lparr>trial_requests := rs\<rparr>)"
    and invite_R: "\<And>c i d u d'. upsert_invite c i d = Inr (u, d') \<Longrightarrow> R d d'"
begin

lemma update_keeps:
  assumes "\<And>s. s_id (f s) = s_id s"
  shows "keeps (on_db R) (stmtE (update_subs P f))" "keeps (on_db R) (txE (update_subs P f))"
  by (auto intro!: stmtE_keeps txE_keeps intro: update_R [OF _ assms])

lemma write_keeps:
  "keeps (on_db R) (txE (insert_subscription s))" "keeps (on_db R) (stmtE (insert_subscription s))"
  "keeps (on_db R) (txE (delete_subs P))" "keeps (on_db R) (stmtE (delete_subs P))"
  "keeps (on_db R) (execE (claim_trials i t))" "keeps (on_db R) (execE (purge_trial_requests t))"
  "keeps (on_db R) (stmtE (upsert_invite c j))"
  by (auto intro!: stmtE_keeps txE_keeps execE_keeps claim_R requests_R
      intro: insert_R delete_R invite_R simp: purge_trial_requests_def)

lemmas statements = db_combinators update_keeps write_keeps

lemma row_ids [simp]:
  "s_id (copy_lifecycle new s) = s_id s" "s_id (reset_to_free p s) = s_id s"
  "s_id (bind_columns a b c e s) = s_id s" "s_id (set_devices j s) = s_id s"
  "s_id (set_ips j s) = s_id s" "s_id (set_last_request t s) = s_id s"
  "s_id (set_sub_status st s) = s_id s"
  by (simp_all add: copy_lifecycle_def reset_to_free_def bind_columns_def set_devices_def set_ips_def
      set_last_request_def set_sub_status_def)

lemma operations:
  "keeps (on_db R) (GetByTelegramID i)"
  "keeps (on_db R) (GetAnyByTelegramID i)"
  "keeps (on_db R) (GetByID j)"
  "keeps (on_db R) (CreateSubscription s c)"
  "keeps (on_db R) (UpdateSubscription s)"
  "keeps (on_db R) (DeleteSubscriptionByID j)"
  "keeps (on_db R) GetAllSubscriptions"
  "keeps (on_db R) (GetSubscriptionStatus c)"
  "keeps (on_db R) (GetWithPlanAndNodes t c)"
  "keeps (on_db R) (UpdateDevices j c)"
  "keeps (on_db R) (UpdateIPs j c)"
  "keeps (on_db R) (UpdateLastRequest t c)"
  "keeps (on_db R) (ExpireSubscription j k)"
  "keeps (on_db R) (GetExpiredPaidSubscriptions t)"
  "keeps (on_db R) (CreateTrialSubscription c c' c'' t)"
  "keeps (on_db R) (GetTrialSubscriptionBySubID c)"
  "keeps (on_db R) (BindTrialSubscription c i c')"
  "keeps (on_db R) (ClaimExpiredTrials t h)"
  "keeps (on_db R) (DeleteClaimedTrial j)"
  "keeps (on_db R) (CountTrialRequestsByIPLastHour t c)"
  "keeps (on_db R) (GetOrCreateInvite i c)"
  unfolding GetByTelegramID_def GetAnyByTelegramID_def GetByID_def CreateSubscription_def
    UpdateSubscription_def DeleteSubscriptionByID_def GetAllSubscriptions_def GetSubscriptionStatus_def GetWithPlanAndNodes_def
    UpdateDevices_def UpdateIPs_def UpdateLastRequest_def ExpireSubscription_def found_sub_def
    GetExpiredPaidSubscriptions_def CreateTrialSubscription_def GetTrialSubscriptionBySubID_def
    BindTrialSubscription_def bind_trial_tx_def ClaimExpiredTrials_def DeleteClaimedTrial_def
    CountTrialRequestsByIPLastHour_def GetOrCreateInvite_def
  by (intro statements; simp)+

lemma CreateTrialRequest_keeps: "keeps (on_db R) (CreateTrialRequest c)"
  unfolding CreateTrialRequest_def by (intro execE_keeps) (simp add: requests_R)

lemma ExpireSubscriptionWithPlanCAS_keeps:
  assumes "\<And>g i j. applyPlan = Some g \<Longrightarrow> keeps (on_db R) (g i j)"
  shows "keeps (on_db R) (ExpireSubscriptionWithPlanCAS now i fp applyPlan)"
  unfolding ExpireSubscriptionWithPlanCAS_def expire_tx_def
  using assms by (cases applyPlan; simp only: option.case) (intro statements; auto)+

end


section \<open>Every store operation respects every contract\<close>

text \<open>
  The statements of all tables together, for the services that use them all: \<open>store_base\<close> without
  writing orders, \<open>store_updates\<close> with the updates that make no order claimable,
  \<open>store_statements\<close> with the release of a claim and the insert.
\<close>

locale store_base =
  ord: entitlement_statements R + bind: binding_statements R + sub: subscription_statements R
  for R :: "db \<Rightarrow> db \<Rightarrow> bool"

locale store_updates = store_base R for R :: "db \<Rightarrow> db \<Rightarrow> bool" +
  assumes update_order_R: "\<And>P f d n d'. update_orders P f d = Inr (n, d') \<Longrightarrow>
        (\<And>r. P r \<Longrightarrow> order_evolves r (f r) \<and> (paid_dated r \<longrightarrow> paid_dated (f r))) \<Longrightarrow>
        (\<And>r. P r \<Longrightarrow> claimable (f r) \<Longrightarrow> claimable r) \<Longrightarrow> R d d'"

sublocale store_updates \<subseteq> upd: order_updates R
  by unfold_locales (rule update_order_R)

locale store_statements = store_updates R for R :: "db \<Rightarrow> db \<Rightarrow> bool" +
  assumes insert_order_R: "\<And>r d r' d'. insert_order r d = Inr (r', d') \<Longrightarrow> paid_dated r \<Longrightarrow> R d d'"
    and release_order_R: "\<And>P f d n d'. update_orders P f d = Inr (n, d') \<Longrightarrow>
        (\<And>r. P r \<Longrightarrow> order_evolves r (f r) \<and> (paid_dated r \<longrightarrow> paid_dated (f r))) \<Longrightarrow> R d d'"

sublocale store_statements \<subseteq> ins: order_statements R
  by unfold_locales (rule insert_order_R, assumption+, rule release_order_R)

lemma subs_evolve_frame:
  "update_orders P f d = Inr (n, d') \<Longrightarrow> subs_evolve d d'"
  "insert_order r d = Inr (r', d') \<Longrightarrow> subs_evolve d d'"
  "update_bindings Q g d = Inr (n, d') \<Longrightarrow> subs_evolve d d'"
  "insert_binding sn d = Inr (u, d') \<Longrightarrow> subs_evolve d d'"
  "upsert_binding sn d = Inr (u, d') \<Longrightarrow> subs_evolve d d'"
  by (auto intro!: subs_evolve_same dest: update_orders_ok insert_order_ok(2) update_bindings_ok
      insert_binding_ok upsert_binding_ok)

lemma keyed_rows_valid:
  assumes "\<And>s. s_telegram_id (f s) = s_telegram_id s" "\<And>s. s_client_id (f s) = s_client_id s"
    "\<And>s. s_subscription_id (f s) = s_subscription_id s"
  shows "subs_valid (update_where P f ss) = subs_valid ss"
  using assms map_key_update_where [of P s_telegram_id f ss] map_key_update_where [of P s_client_id f ss]
    map_key_update_where [of P s_subscription_id f ss]
  by (simp add: subs_valid_def)

lemma entitlement_rows_valid:
  "subs_valid (update_where P (grant_product q t1 t2) ss) = subs_valid ss"
  "subs_valid (update_where P (reset_to_free fp) ss) = subs_valid ss"
  "subs_valid (update_where P (set_sub_status st) ss) = subs_valid ss"
  by (simp_all add: keyed_rows_valid grant_product_def reset_to_free_def set_sub_status_def)

lemma subs_evolve_delete:
  assumes "delete_subs P d = Inr (gone, d')"
  shows "subs_evolve d d'"
  using delete_subs_ok [OF assms]
  by (auto simp: subs_evolve_def subs_wf_def subs_valid_def delete_where_def intro: distinct_map_filter)

lemma subs_evolve_insert:
  assumes "insert_subscription s d = Inr (s', d')"
  shows "subs_evolve d d'"
  using insert_subscription_ok [OF assms]
  by (auto simp: subs_evolve_def subs_wf_def)

interpretation subs_all: store_statements subs_evolve
proof
  show "subs_evolve d (snd (append_audit e d))" for d e
    by (rule subs_evolve_same) simp_all
  show "subs_evolve d (snd (update_subscriptions P (grant_product q t1 t2) d))" for d P q t1 t2
    by (rule subs_evolve_update [of "grant_product q t1 t2" _ P])
      (simp_all add: entitlement_rows_valid update_subscriptions_def, simp add: grant_product_def)
  show "subs_evolve d (snd (update_subscriptions P (reset_to_free fp) d))" for d P fp
    by (rule subs_evolve_update [of "reset_to_free fp" _ P])
      (simp_all add: entitlement_rows_valid update_subscriptions_def, simp add: reset_to_free_def)
  show "subs_evolve d (snd (delete_bindings P d))" for P d
    by (rule subs_evolve_same) (simp_all add: delete_bindings_def)
  show "subs_evolve d d'" if "update_subs P f d = Inr (n, d')" "\<And>s. s_id (f s) = s_id s" for P f d n d'
    using update_subs_ok [OF that(1)] by (intro subs_evolve_update [of f, OF that(2)]) auto
  show "subs_evolve d (snd (claim_trials i t d))" for i t d
    by (rule subs_evolve_update [of "set_sub_status SubscriptionStatusExpired" _ "claimable_trial i t"])
      (simp_all add: entitlement_rows_valid claim_trials_def, simp add: set_sub_status_def)
  show "subs_evolve d (d\<lparr>trial_requests := rs\<rparr>)" for d rs
    by (rule subs_evolve_same) simp_all
  show "subs_evolve d d'" if "upsert_invite c i d = Inr (u, d')" for c i d u d'
    using that by (intro subs_evolve_same) (auto simp: upsert_invite_def split: if_splits)
qed (auto intro: subs_evolve_frame subs_evolve_delete subs_evolve_insert)


text \<open>The other contracts survive the statements on subscriptions.\<close>

lemma subscription_frames:
  "update_subs P f d = Inr (n, d') \<Longrightarrow> orders d' = orders d \<and> order_seq d' = order_seq d
     \<and> audit d' = audit d \<and> subscription_nodes d' = subscription_nodes d"
  "insert_subscription s d = Inr (s', d') \<Longrightarrow> orders d' = orders d \<and> order_seq d' = order_seq d
     \<and> audit d' = audit d \<and> subscription_nodes d' = subscription_nodes d"
  "upsert_invite c i d = Inr (u, d') \<Longrightarrow> orders d' = orders d \<and> order_seq d' = order_seq d
     \<and> audit d' = audit d \<and> subscription_nodes d' = subscription_nodes d"
  by (auto simp: upsert_invite_def dest: update_subs_ok insert_subscription_ok split: if_splits)

lemma claim_trials_frame [simp]:
  "orders (snd (claim_trials i t d)) = orders d" "order_seq (snd (claim_trials i t d)) = order_seq d"
  "audit (snd (claim_trials i t d)) = audit d"
  "subscription_nodes (snd (claim_trials i t d)) = subscription_nodes d"
  by (simp_all add: claim_trials_def)

lemma distinct_map_refilter:
  "distinct (map k (filter P xs)) \<Longrightarrow> distinct (map k (filter P (filter Q xs)))"
  using distinct_map_filter [of k "filter P xs" Q] by (simp add: conj_commute)

lemma orders_valid_filter: "orders_valid os \<Longrightarrow> orders_valid (filter Q os)"
  unfolding orders_valid_def by (blast intro: distinct_map_refilter)

lemma orders_evolve_delete:
  assumes "delete_subs P d = Inr (gone, d')"
  shows "orders_evolve d d'"
  using delete_subs_ok [OF assms]
  by (auto simp: orders_evolve_def orders_wf_def delete_where_def
      intro: orders_valid_filter distinct_map_filter order_evolves_refl)

interpretation orders_all: store_statements orders_evolve
proof
  show "orders_evolve d d'" if "update_subs P f d = Inr (n, d')" for P f d n d'
    using subscription_frames(1) [OF that] by (simp add: orders_evolve_same)
  show "orders_evolve d d'" if "insert_subscription s d = Inr (s', d')" for s d s' d'
    using subscription_frames(2) [OF that] by (simp add: orders_evolve_same)
  show "orders_evolve d d'" if "upsert_invite c i d = Inr (u, d')" for c i d u d'
    using subscription_frames(3) [OF that] by (simp add: orders_evolve_same)
qed (auto intro: orders_evolve_delete orders_evolve_same orders_st.insert_R orders_st.release_R)

interpretation journal_all: store_statements journal_grows
proof
  show "journal_grows d d'" if "update_subs P f d = Inr (n, d')" for P f d n d'
    using subscription_frames(1) [OF that] by simp
  show "journal_grows d d'" if "insert_subscription s d = Inr (s', d')" for s d s' d'
    using subscription_frames(2) [OF that] by simp
  show "journal_grows d d'" if "upsert_invite c i d = Inr (u, d')" for c i d u d'
    using subscription_frames(3) [OF that] by simp
  show "journal_grows d d'" if "delete_subs P d = Inr (gone, d')" for P d gone d'
    using delete_subs_ok [OF that] by simp
qed (auto intro: journal_st.insert_R journal_st.release_R)

interpretation bindings_all: store_statements bindings_keep
proof
  show "bindings_keep d d'" if "update_subs P f d = Inr (n, d')" for P f d n d'
    using subscription_frames(1) [OF that] by (simp add: bindings_keep_same)
  show "bindings_keep d d'" if "insert_subscription s d = Inr (s', d')" for s d s' d'
    using subscription_frames(2) [OF that] by (simp add: bindings_keep_same)
  show "bindings_keep d d'" if "upsert_invite c i d = Inr (u, d')" for c i d u d'
    using subscription_frames(3) [OF that] by (simp add: bindings_keep_same)
  show "bindings_keep d d'" if "delete_subs P d = Inr (gone, d')" for P d gone d'
    using delete_subs_ok [OF that] by (simp add: bindings_keep_same)
qed (auto intro: bindings_keep_same bindings_ord.insert_R bindings_ord.release_R)


section \<open>Trial ids\<close>

lemma sint_bounds: "- 9223372036854775808 \<le> sint (h::64 word) \<and> sint h \<le> 9223372036854775807"
  using sint_greater_eq [of h] sint_lt [of h] by simp

lemma sint_uminus_pos:
  fixes h :: "64 word"
  assumes "0 < sint h"
  shows "sint (- h) = - sint h"
proof -
  have "sint (- h) = signed_take_bit 63 (- sint h)"
    using sint_word_minus [of h] by simp
  also have "\<dots> = - sint h"
    using assms sint_bounds [of h] by (intro signed_take_bit_int_eq_self) simp_all
  finally show ?thesis .
qed

text \<open>The id given to an anonymous trial is a negative \<open>int64\<close>, whatever the wrap-around of
  the hash did: it can never be taken for a Telegram user's id.\<close>

theorem generateTrialTelegramID_negative:
  "- 9223372036854775808 \<le> generateTrialTelegramID sid \<and> generateTrialTelegramID sid < 0"
proof -
  define h where "h = (if trial_hash sid = 0 then - 1 else trial_hash sid)"
  have "h \<noteq> 0"
    by (simp add: h_def)
  then have "sint h \<noteq> 0"
    using signed_word_eqI [of h 0] by auto
  then have "sint (if 0 < sint h then - h else h) < 0"
    using sint_uminus_pos [of h] by auto
  moreover have "generateTrialTelegramID sid = sint (if 0 < sint h then - h else h)"
    by (simp add: generateTrialTelegramID_def Let_def h_def)
  ultimately show ?thesis
    using sint_bounds by metis
qed

section \<open>Expiry\<close>

text \<open>C5. A renewal that wins the race is safe: while the subscription on record has not expired,
  the expiry transaction changes nothing, whoever calls it and whatever fails.\<close>

theorem ExpireSubscriptionWithPlanCAS_respects_renewal:
  assumes run: "ExpireSubscriptionWithPlanCAS now i fp applyPlan w = (r, w')"
    and alive: "\<And>s. s \<in> set (subscriptions (db (step_other w))) \<Longrightarrow> s_id s = i
      \<Longrightarrow> s_status s \<noteq> SubscriptionStatusActive \<or> s_expires_at s = None
        \<or> (\<exists>t. s_expires_at s = Some t \<and> now < t)"
  shows "db w' = db (step_other w)"
proof (cases r)
  case (Inl e)
  with run show ?thesis
    by (auto simp: ExpireSubscriptionWithPlanCAS_def dest: transaction_error_db)
next
  case (Inr u)
  let ?d = "db (step_other w)"
  obtain w1 where tx: "expire_tx now i fp applyPlan (step_other w) = (Inr u, w1)" and w1: "db w' = db w1"
    using run Inr unfolding ExpireSubscriptionWithPlanCAS_def by (auto elim: transaction_ok)
  have none: "count_where (expired_now i now) (subscriptions ?d) = 0"
    using alive by (fastforce simp: count_where_0 expired_now_def split: option.splits)
  obtain n w2 where upd: "txE (update_subs (expired_now i now) (reset_to_free fp)) (step_other w) = (Inr n, w2)"
    and rest: "(if n = 0 then
       bindE (tx_queryE (find_subscription i)) (\<lambda>current.
       if already_free fp current then returnE ()
       else failE (errors_new ''state changed concurrently''))
     else (case applyPlan of Some apply_fn \<Rightarrow> apply_fn i fp | None \<Rightarrow> returnE ())) w2 = (Inr u, w1)"
    using tx unfolding expire_tx_def by (elim bindE_ok)
  have "n = 0" "db w2 = ?d"
    using txE_run [OF upd] none update_where_none [OF none]
    by (auto dest!: update_subs_ok)
  then have "db w1 = ?d"
    using rest by (auto elim!: bindE_ok dest!: tx_queryE_run simp: plain_ok split: if_splits)
  with w1 show ?thesis by simp
qed

text \<open>An expiry that reports success leaves the subscription active on the free plan, without
  a deadline and without a product.\<close>

theorem ExpireSubscriptionWithPlanCAS_frees:
  assumes run: "ExpireSubscriptionWithPlanCAS now i fp None w = (Inr (), w')"
    and wf: "subs_wf (db (step_other w))"
    and s: "s \<in> set (subscriptions (db w'))" "s_id s = i"
  shows "already_free fp s"
proof -
  let ?d = "db (step_other w)"
  obtain w1 where tx: "expire_tx now i fp None (step_other w) = (Inr (), w1)" and w1: "db w' = db w1"
    using run unfolding ExpireSubscriptionWithPlanCAS_def by (auto elim: transaction_ok)
  obtain n w2 where upd: "txE (update_subs (expired_now i now) (reset_to_free fp)) (step_other w) = (Inr n, w2)"
    and rest: "(if n = 0 then
       bindE (tx_queryE (find_subscription i)) (\<lambda>current.
       if already_free fp current then returnE ()
       else failE (errors_new ''state changed concurrently''))
     else returnE ()) w2 = (Inr (), w1)"
    using tx unfolding expire_tx_def option.case by (elim bindE_ok)
  have d2: "db w2 = ?d\<lparr>subscriptions := update_where (expired_now i now) (reset_to_free fp) (subscriptions ?d)\<rparr>"
    and n: "n = count_where (expired_now i now) (subscriptions ?d)"
    using txE_run [OF upd] by (auto dest!: update_subs_ok)
  have uniq: "x = y" if "x \<in> set (subscriptions ?d)" "y \<in> set (subscriptions ?d)" "s_id x = s_id y" for x y
    using distinct_key_eq [of s_id "subscriptions ?d" x y] that wf by (simp add: subs_wf_def)
  show ?thesis
  proof (cases "n = 0")
    case True
    then have "db w2 = ?d"
      using d2 n by (simp add: update_where_none)
    then obtain c where "find_subscription i ?d = Inr c" "already_free fp c" "db w1 = ?d"
      using rest True by (auto elim!: bindE_ok dest!: tx_queryE_run simp: plain_ok split: if_splits)
    then show ?thesis
      using uniq s w1 by (metis find_subscription_ok)
  next
    case False
    then obtain x where x: "x \<in> set (subscriptions ?d)" "expired_now i now x"
      using n count_where_pos [of "expired_now i now" "subscriptions ?d"] by auto
    have "subscriptions (db w') = update_where (expired_now i now) (reset_to_free fp) (subscriptions ?d)"
      using rest False d2 w1 by (simp add: plain_ok)
    then obtain y where y: "y \<in> set (subscriptions ?d)"
      "s = (if expired_now i now y then reset_to_free fp y else y)"
      using s(1) by (auto simp: set_update_where simp del: if_split)
    then have "s_id y = i"
      using s(2) by (auto simp: reset_to_free_def split: if_splits)
    then have "y = x"
      using uniq [OF y(1) x(1)] x(2) by (simp add: expired_now_def)
    then show ?thesis
      using y(2) x(2) by (simp add: already_free_def reset_to_free_def)
  qed
qed


end
