(* ===== verification/Sync_Service.thy ===== *)
theory Sync_Service
  imports Subscription_Store
begin

text \<open>
  Synchronisation of subscriptions with the VPN nodes: \<open>internal/service/sync.go\<close>,
  \<open>internal/service/sync_tx.go\<close>, with the error classes of \<open>internal/utils/retry.go\<close>.

  The panels are outside the program: \<open>node_env\<close> holds their answers, arbitrary functions of
  everything that happened before, together with the runtime registry of clients, the startup
  snapshot of the nodes, the outcome of lock acquisitions and the caller's context. Each call to
  a panel is an effect in the trace. The clock is a parameter, one reading per run.
\<close>

section \<open>The environment\<close>

record renew_profile =
  rp_reset :: int
  rp_reset_day :: int
  rp_reset_max :: int
  rp_traffic_reset :: string
  rp_traffic_reset_day :: int

record node_env =
  ne_nodes :: "node list"
  ne_provision :: "uint \<Rightarrow> bool"
  ne_reader :: "uint \<Rightarrow> bool"
  ne_answer :: "effect list \<Rightarrow> uint \<Rightarrow> vpn_call \<Rightarrow> vpn_provision \<Rightarrow> error option"
  ne_profile :: "effect list \<Rightarrow> uint \<Rightarrow> string \<Rightarrow> error + renew_profile"
  ne_ping :: "effect list \<Rightarrow> uint \<Rightarrow> error option"
  ne_lock :: "effect list \<Rightarrow> uint \<Rightarrow> error option"
  ne_ctx :: "effect list \<Rightarrow> error option"

definition vpnE :: "node_env \<Rightarrow> vpn_call \<Rightarrow> uint \<Rightarrow> vpn_provision \<Rightarrow> (world, unit) op" where
  "vpnE env c nodeID p w =
     (case ne_answer env (trace w) nodeID c p of
        None \<Rightarrow> (Inr (), w\<lparr>trace := trace w @ [EffVpn c nodeID p]\<rparr>)
      | Some e \<Rightarrow> (Inl e, w\<lparr>trace := trace w @ [EffVpn c nodeID p]\<rparr>))"

definition profileE :: "node_env \<Rightarrow> uint \<Rightarrow> string \<Rightarrow> (world, renew_profile) op" where
  "profileE env nodeID email w = (ne_profile env (trace w) nodeID email, w)"

definition pingE :: "node_env \<Rightarrow> uint \<Rightarrow> (world, bool) op" where
  "pingE env nodeID w = (Inr (ne_ping env (trace w) nodeID = None), w\<lparr>trace := trace w @ [EffPing nodeID]\<rparr>)"

definition ctxE :: "node_env \<Rightarrow> (world, error option) op" where
  "ctxE env w = (Inr (ne_ctx env (trace w)), w)"

definition with_lock :: "node_env \<Rightarrow> uint \<Rightarrow> (world, 'a) op \<Rightarrow> (world, 'a) op" where
  "with_lock env subID body w =
     (case ne_lock env (trace w) subID of Some e \<Rightarrow> (Inl e, w) | None \<Rightarrow> body w)"

section \<open>Error classes and the retry ladder\<close>

definition IsRetryable :: "error \<Rightarrow> bool" where
  "IsRetryable e =
     (if errors_is e ErrNon200Response then False
      else if is_ctx_err e then False
      else if errors_is e DNSError then False
      else errors_is e NetError)"

definition is_sqlite :: "sentinel \<Rightarrow> bool" where
  "is_sqlite s \<longleftrightarrow> s \<in> {SqliteBusy, SqliteLocked, SqliteUnique, SqliteForeignKey, SqliteCheck, SqliteOther}"

fun locked_text :: "sentinel \<Rightarrow> bool" where
  "locked_text (ErrorText m) =
     (str_contains (to_lower m) ''database is locked'' \<or> str_contains (to_lower m) ''database table is locked'')"
| "locked_text _ = False"

definition isTransientDBError :: "error \<Rightarrow> bool" where
  "isTransientDBError e =
     (case filter is_sqlite e of
        s # _ \<Rightarrow> s = SqliteBusy \<or> s = SqliteLocked
      | [] \<Rightarrow> list_ex locked_text e)"

definition maxSyncRetries :: int where "maxSyncRetries = 10"

text \<open>\<open>9999-12-31T23:59:00Z\<close>\<close>

definition parkedRetryAt :: time where "parkedRetryAt = 253402300740 * second"

definition retryBackoffIntervals :: "duration list" where
  "retryBackoffIntervals =
     [1 * minute, 2 * minute, 5 * minute, 15 * minute, 30 * minute, 45 * minute, 60 * minute]"

definition CalculateRetryAt :: "time \<Rightarrow> int \<Rightarrow> time" where
  "CalculateRetryAt now retryCount =
     (let n = nat retryCount;
          idx = (if length retryBackoffIntervals \<le> n then length retryBackoffIntervals - 1 else n)
      in truncate_minute now + retryBackoffIntervals ! idx)"

definition sync_retryable :: "error \<Rightarrow> bool" where
  "sync_retryable e \<longleftrightarrow> IsRetryable e \<or> errors_is e ErrNodeUnavailable \<or> errors_is e ErrIncompleteFanout
     \<or> (\<not> errors_is e ErrNon200Response \<and> isTransientDBError e)"

definition handleSyncError :: "time \<Rightarrow> subscription_node \<Rightarrow> error \<Rightarrow> (world, unit) op" where
  "handleSyncError now sn err =
     (if is_ctx_err err then returnE ()
      else if \<not> sync_retryable err \<or> maxSyncRetries \<le> sn_retry_count sn then
        tryE (UpdateRetry (sn_subscription_id sn) (sn_node_id sn) (sn_retry_count sn)
                (Some parkedRetryAt) (Some err)) (\<lambda>_. returnE ())
      else
        tryE (UpdateRetry (sn_subscription_id sn) (sn_node_id sn) (sn_retry_count sn + 1)
                (Some (CalculateRetryAt now (sn_retry_count sn))) (Some err)) (\<lambda>_. returnE ()))"

section \<open>The provision of a node\<close>

definition SubscriptionResetDay :: int where "SubscriptionResetDay = 30"

definition is_username_char :: "char \<Rightarrow> bool" where
  "is_username_char c \<longleftrightarrow> c \<in> set ascii_lower \<or> c \<in> set ascii_upper \<or> is_digit c \<or> c = CHR ''_''"

definition IsRealUsername :: "string \<Rightarrow> bool" where
  "IsRealUsername username \<longleftrightarrow> username \<noteq> [] \<and> list_all is_username_char username"

definition XUIEmail :: "string \<Rightarrow> int \<Rightarrow> string" where
  "XUIEmail username telegramID =
     (if IsRealUsername username then username else ''tgId_'' @ itoa telegramID)"

definition syncIdentifier :: "subscription \<Rightarrow> string" where
  "syncIdentifier sub = XUIEmail (s_username sub) (s_telegram_id sub)"

definition referrerComment :: "subscription \<Rightarrow> (world, string) op" where
  "referrerComment sub =
     (case s_invite_code sub of None \<Rightarrow> returnE []
      | Some code \<Rightarrow>
          tryE (GetInviteByCode code) (\<lambda>inv.
          case inv of
            Inl e \<Rightarrow> if errors_is e ErrInviteNotFound then returnE [] else failE e
          | Inr i \<Rightarrow>
              tryE (GetByTelegramID (i_referrer_tg_id i)) (\<lambda>ref.
              case ref of
                Inl e \<Rightarrow> if errors_is e ErrSubscriptionNotFound then returnE [] else failE e
              | Inr r \<Rightarrow> returnE (''from: @'' @ s_username r))))"

datatype profile_policy = ProfileDefault | ProfilePreserve

definition defaultRenewProfile :: "vpn_provision \<Rightarrow> vpn_provision" where
  "defaultRenewProfile p =
     p\<lparr>vp_reset_days := SubscriptionResetDay, vp_reset_max := 0, vp_traffic_reset := ''monthly'',
       vp_traffic_reset_day := 1\<rparr>"

definition copy_profile :: "renew_profile \<Rightarrow> vpn_provision \<Rightarrow> vpn_provision" where
  "copy_profile r p =
     p\<lparr>vp_reset_days := rp_reset r, vp_reset_day := rp_reset_day r, vp_reset_max := rp_reset_max r,
       vp_traffic_reset := rp_traffic_reset r, vp_traffic_reset_day := rp_traffic_reset_day r\<rparr>"

definition panelRenewProfile :: "node_env \<Rightarrow> uint \<Rightarrow> string \<Rightarrow> (world, renew_profile) op" where
  "panelRenewProfile env nodeID email =
     tryE (profileE env nodeID email) (\<lambda>r.
     case r of
       Inl e \<Rightarrow> failE (if errors_is e ErrClientNotFound then VpnErrSubscriptionNotFound # e else e)
     | Inr p \<Rightarrow> returnE p)"

definition base_provision :: "subscription \<Rightarrow> plan \<Rightarrow> string \<Rightarrow> vpn_provision" where
  "base_provision sub plan comment =
     \<lparr>vp_client_id = s_client_id sub, vp_username = syncIdentifier sub,
      vp_current_email = syncIdentifier sub, vp_sub_id = s_subscription_id sub,
      vp_traffic_bytes = pl_traffic_limit plan, vp_expiry_time = None, vp_reset_days = 0,
      vp_reset_day = 0, vp_reset_max = 0, vp_traffic_reset = [], vp_traffic_reset_day = 0,
      vp_tg_id = s_telegram_id sub, vp_comment = comment\<rparr>"

definition renew_provision ::
  "node_env \<Rightarrow> uint \<Rightarrow> plan \<Rightarrow> string \<Rightarrow> profile_policy \<Rightarrow> vpn_provision \<Rightarrow> (world, vpn_provision) op" where
  "renew_provision env nodeID plan email policy p =
     (if pl_name plan = TrialPlanName
      then returnE (p\<lparr>vp_reset_days := 0, vp_traffic_reset := ''never''\<rparr>)
      else (case policy of
          ProfileDefault \<Rightarrow> returnE (defaultRenewProfile p)
        | ProfilePreserve \<Rightarrow>
            if \<not> ne_reader env nodeID then returnE (defaultRenewProfile p)
            else bindE (panelRenewProfile env nodeID email) (\<lambda>r. returnE (copy_profile r p))))"

definition provision_expiry :: "time \<Rightarrow> subscription \<Rightarrow> time" where
  "provision_expiry now sub =
     (case s_expires_at sub of Some t \<Rightarrow> t
      | None \<Rightarrow> add_days (truncate_minute now) SubscriptionResetDay)"

definition buildNodeProvision ::
  "node_env \<Rightarrow> time \<Rightarrow> subscription \<Rightarrow> uint \<Rightarrow> profile_policy \<Rightarrow> (world, vpn_provision) op" where
  "buildNodeProvision env now sub nodeID policy =
     bindE (GetPlanByID (s_plan_id sub)) (\<lambda>plan.
     bindE (referrerComment sub) (\<lambda>comment.
     if pl_traffic_limit plan \<le> 0 then returnE (base_provision sub plan comment)
     else
     bindE (renew_provision env nodeID plan (syncIdentifier sub) policy
              (base_provision sub plan comment)) (\<lambda>p.
     returnE (p\<lparr>vp_expiry_time := Some (provision_expiry now sub)\<rparr>))))"

section \<open>Processing one binding\<close>

definition retryUnavailableNode :: "time \<Rightarrow> subscription_node \<Rightarrow> (world, unit) op" where
  "retryUnavailableNode now sn =
     tryE (GetNodeByID (sn_node_id sn)) (\<lambda>r.
     let err = (case r of Inl e \<Rightarrow> ErrNodeUnavailable # e | Inr _ \<Rightarrow> [ErrNodeUnavailable]) in
     bindE (handleSyncError now sn err) (\<lambda>_. failE err))"

definition set_status_of :: "subscription_node \<Rightarrow> sync_status \<Rightarrow> (world, unit) op" where
  "set_status_of sn st = UpdateSubscriptionNodeStatus (sn_subscription_id sn) (sn_node_id sn) st"

definition fallbackUpdateToCreate :: "subscription_node \<Rightarrow> (world, unit) op" where
  "fallbackUpdateToCreate sn = set_status_of sn SyncStatusPendingAdd"

definition failing :: "time \<Rightarrow> subscription_node \<Rightarrow> error \<Rightarrow> (world, 'a) op" where
  "failing now sn e = bindE (handleSyncError now sn e) (\<lambda>_. failE e)"

definition processPendingUpdate ::
  "node_env \<Rightarrow> time \<Rightarrow> subscription_node \<Rightarrow> subscription \<Rightarrow> (world, unit) op" where
  "processPendingUpdate env now sn sub =
     (let nodeID = sn_node_id sn in
      if \<not> ne_provision env nodeID then retryUnavailableNode now sn
      else
      tryE (buildNodeProvision env now sub nodeID ProfilePreserve) (\<lambda>built.
      case built of
        Inl e \<Rightarrow> if errors_is e VpnErrSubscriptionNotFound then fallbackUpdateToCreate sn
                 else failing now sn e
      | Inr p \<Rightarrow>
          tryE (vpnE env VpnUpdate nodeID p) (\<lambda>updated.
          case updated of
            Inl e \<Rightarrow> if errors_is e VpnErrSubscriptionNotFound then fallbackUpdateToCreate sn
                     else failing now sn e
          | Inr _ \<Rightarrow>
              tryE (vpnE env VpnResetTraffic nodeID p) (\<lambda>_.
              set_status_of sn SyncStatusActive))))"

definition processPendingAdd ::
  "node_env \<Rightarrow> time \<Rightarrow> subscription_node \<Rightarrow> subscription \<Rightarrow> (world, unit) op" where
  "processPendingAdd env now sn sub =
     (let nodeID = sn_node_id sn in
      if \<not> ne_provision env nodeID then retryUnavailableNode now sn
      else
      tryE (buildNodeProvision env now sub nodeID ProfileDefault) (\<lambda>built.
      case built of
        Inl e \<Rightarrow> failing now sn e
      | Inr p \<Rightarrow>
          tryE (vpnE env VpnCreate nodeID p) (\<lambda>created.
          case created of
            Inl e \<Rightarrow>
              if errors_is e VpnErrSubscriptionAlreadyExists then
                tryE (vpnE env VpnUpdate nodeID p) (\<lambda>updated.
                case updated of
                  Inl e' \<Rightarrow> failing now sn e'
                | Inr _ \<Rightarrow> set_status_of sn SyncStatusActive)
              else failing now sn e
          | Inr _ \<Rightarrow> set_status_of sn SyncStatusActive)))"

definition removal_provision :: "subscription \<Rightarrow> vpn_provision" where
  "removal_provision sub =
     \<lparr>vp_client_id = s_client_id sub, vp_username = syncIdentifier sub, vp_current_email = [],
      vp_sub_id = s_subscription_id sub, vp_traffic_bytes = 0, vp_expiry_time = None,
      vp_reset_days = 0, vp_reset_day = 0, vp_reset_max = 0, vp_traffic_reset = [],
      vp_traffic_reset_day = 0, vp_tg_id = 0, vp_comment = []\<rparr>"

definition drop_binding :: "subscription_node \<Rightarrow> (world, unit) op" where
  "drop_binding sn = DeleteSubscriptionNode (sn_subscription_id sn) (sn_node_id sn)"

definition processPendingRemove ::
  "node_env \<Rightarrow> time \<Rightarrow> subscription_node \<Rightarrow> subscription \<Rightarrow> (world, unit) op" where
  "processPendingRemove env now sn sub =
     tryE (GetNodeByID (sn_node_id sn)) (\<lambda>r.
     case r of
       Inl e \<Rightarrow> if errors_is e ErrNodeNotFound \<or> errors_is e ErrRecordNotFound then drop_binding sn
                else retryUnavailableNode now sn
     | Inr node \<Rightarrow>
         if \<not> n_is_active node then drop_binding sn
         else if \<not> ne_provision env (sn_node_id sn) then retryUnavailableNode now sn
         else
         tryE (vpnE env VpnDelete (sn_node_id sn) (removal_provision sub)) (\<lambda>deleted.
         case deleted of
           Inl e \<Rightarrow> if errors_is e VpnErrSubscriptionNotFound then drop_binding sn else failing now sn e
         | Inr _ \<Rightarrow> drop_binding sn))"

section \<open>Processing the bindings of a subscription\<close>

definition background_policy :: error_policy where
  "background_policy e = (if is_ctx_err e then Some e else None)"

definition node_type_of :: "node_env \<Rightarrow> uint \<Rightarrow> node_type option" where
  "node_type_of env i = map_of (rev (map (\<lambda>n. (n_id n, n_type n)) (ne_nodes env))) i"

fun supported :: "node_type \<Rightarrow> bool" where
  "supported (NodeTypeOther _) = False"
| "supported _ = True"

definition dispatch_node ::
  "node_env \<Rightarrow> time \<Rightarrow> subscription \<Rightarrow> subscription_node \<Rightarrow> (world, error list) op" where
  "dispatch_node env now sub sn =
     (if sn_status sn = SyncStatusPendingRemove
      then attempt background_policy (processPendingRemove env now sn sub)
      else (case node_type_of env (sn_node_id sn) of
          None \<Rightarrow> bindE (handleSyncError now sn [ErrNodeUnavailable]) (\<lambda>_. returnE [])
        | Some ty \<Rightarrow>
            if \<not> supported ty then bindE (handleSyncError now sn [ErrNodeUnavailable]) (\<lambda>_. returnE [])
            else (case sn_status sn of
                SyncStatusPendingAdd \<Rightarrow> attempt background_policy (processPendingAdd env now sn sub)
              | SyncStatusPendingUpdate \<Rightarrow> attempt background_policy (processPendingUpdate env now sn sub)
              | _ \<Rightarrow> returnE [])))"

definition sync_node ::
  "node_env \<Rightarrow> time \<Rightarrow> subscription \<Rightarrow> subscription_node \<Rightarrow> (world, error list) op" where
  "sync_node env now sub sn =
     (if s_status sub = SubscriptionStatusRevoked
         \<and> sn_status sn \<in> {SyncStatusPendingAdd, SyncStatusPendingUpdate}
      then tryE (set_status_of sn SyncStatusPendingRemove) (\<lambda>r.
           case r of
             Inl e \<Rightarrow> if is_ctx_err e then failE e
                      else bindE (handleSyncError now sn e) (\<lambda>_. returnE [e])
           | Inr _ \<Rightarrow> dispatch_node env now sub (set_sync_status SyncStatusPendingRemove sn))
      else dispatch_node env now sub sn)"

definition syncNodes ::
  "node_env \<Rightarrow> time \<Rightarrow> subscription \<Rightarrow> subscription_node list \<Rightarrow> (world, unit) op" where
  "syncNodes env now sub pending =
     bindE (collectE (sync_node env now sub) pending) (\<lambda>errs.
     if errs \<noteq> [] then failE (concat errs) else returnE ())"

section \<open>Entry points\<close>

definition reconcilePlanNodesLocked :: "uint \<Rightarrow> (world, unit) op" where
  "reconcilePlanNodesLocked subID =
     bindE (reconcilePlanNodesCore dbServicePlanStore subID
              \<lparr>readSubscription = True, planID = 0, preloadedTargets = None,
               onNodeError = background_policy\<rparr>) (\<lambda>errs.
     if errs \<noteq> [] then failE (concat errs) else returnE ())"

definition ReconcilePlanNodes :: "node_env \<Rightarrow> uint \<Rightarrow> (world, unit) op" where
  "ReconcilePlanNodes env subID = with_lock env subID (reconcilePlanNodesLocked subID)"

definition markAllForRemovalLocked :: "uint \<Rightarrow> (world, unit) op" where
  "markAllForRemovalLocked subID =
     bindE (GetBySubscriptionID subID) (\<lambda>rows.
     for_eachE (\<lambda>sn. set_status_of sn SyncStatusPendingRemove) rows)"

definition MarkAllForRemoval :: "node_env \<Rightarrow> uint \<Rightarrow> (world, unit) op" where
  "MarkAllForRemoval env subID = with_lock env subID (markAllForRemovalLocked subID)"

definition SyncSubscription :: "node_env \<Rightarrow> time \<Rightarrow> uint \<Rightarrow> (world, unit) op" where
  "SyncSubscription env now subID =
     with_lock env subID
       (bindE (GetPendingBySubscriptionID now subID) (\<lambda>pending.
        if pending = [] then returnE ()
        else
        bindE (GetByID subID) (\<lambda>sub.
        tryE (syncNodes env now sub pending) (\<lambda>r.
        case r of Inl e \<Rightarrow> if is_ctx_err e then failE e else returnE () | Inr _ \<Rightarrow> returnE ()))))"

definition applyPlanToSubscriptionLocked :: "uint \<Rightarrow> (world, unit) op" where
  "applyPlanToSubscriptionLocked subID =
     bindE (GetByID subID) (\<lambda>sub.
     bindE (GetNodesByPlanID (s_plan_id sub)) (\<lambda>newNodes.
     bindE (MarkActiveNodesPendingUpdate subID (active_ids newNodes)) (\<lambda>_.
     reconcilePlanNodesLocked subID)))"

definition ApplyPlanToSubscription :: "node_env \<Rightarrow> uint \<Rightarrow> (world, unit) op" where
  "ApplyPlanToSubscription env subID = with_lock env subID (applyPlanToSubscriptionLocked subID)"

definition ApplyPlanToSubscriptionInTx :: "uint \<Rightarrow> uint \<Rightarrow> (world, unit) op" where
  "ApplyPlanToSubscriptionInTx subID pid =
     bindE (LoadPlanNodes txPlanStore pid) (\<lambda>targets.
     bindE (MarkActivePendingUpdate txPlanStore subID (active_ids targets)) (\<lambda>_.
     bindE (reconcilePlanNodesCore txPlanStore subID
              \<lparr>readSubscription = False, planID = pid, preloadedTargets = Some targets,
               onNodeError = Some\<rparr>) (\<lambda>_. returnE ())))"

section \<open>The background pass\<close>

definition parkedRetryThreshold :: duration where "parkedRetryThreshold = 61 * minute"

definition was_healthy :: "uint \<Rightarrow> world \<Rightarrow> bool" where
  "was_healthy i w = (case node_health w of None \<Rightarrow> False | Some h \<Rightarrow> map_of h i = Some True)"

fun release_nodes :: "node_env \<Rightarrow> time \<Rightarrow> uint list \<Rightarrow> (world, unit) op" where
  "release_nodes env parkedAfter [] = returnE ()"
| "release_nodes env parkedAfter (i # is) =
     (\<lambda>w. if was_healthy i w then release_nodes env parkedAfter is w
          else bindE (ctxE env) (\<lambda>c.
            if c \<noteq> None then returnE ()
            else if \<not> ne_reader env i then release_nodes env parkedAfter is
            else bindE (pingE env i) (\<lambda>up.
              if \<not> up then release_nodes env parkedAfter is
              else tryE (ReleaseParkedNodesOnNode i parkedAfter)
                     (\<lambda>_. release_nodes env parkedAfter is))) w)"

definition releaseRecoveredNodes :: "node_env \<Rightarrow> time \<Rightarrow> (world, unit) op" where
  "releaseRecoveredNodes env now =
     (let parkedAfter = now + parkedRetryThreshold in
      tryE (GetNodesWithParkedSync parkedAfter) (\<lambda>r.
      case r of Inl _ \<Rightarrow> returnE () | Inr ids \<Rightarrow> release_nodes env parkedAfter ids))"

fun probe_nodes :: "node_env \<Rightarrow> node list \<Rightarrow> (world, (uint \<times> bool) list) op" where
  "probe_nodes env [] = returnE []"
| "probe_nodes env (n # ns) =
     bindE (ctxE env) (\<lambda>c.
     if \<not> n_is_active n \<or> c \<noteq> None \<or> \<not> ne_reader env (n_id n) then probe_nodes env ns
     else bindE (pingE env (n_id n)) (\<lambda>up.
          bindE (probe_nodes env ns) (\<lambda>h. returnE ((n_id n, up) # h))))"

definition refreshNodeHealth :: "node_env \<Rightarrow> (world, unit) op" where
  "refreshNodeHealth env =
     bindE (probe_nodes env (ne_nodes env)) (\<lambda>h.
     bindE (ctxE env) (\<lambda>c.
     if c \<noteq> None then returnE () else modifyE (\<lambda>w. w\<lparr>node_health := Some h\<rparr>)))"

definition refreshSyncGauges :: "time \<Rightarrow> (world, unit) op" where
  "refreshSyncGauges now =
     tryE CountSubscriptionNodesByStatus (\<lambda>r.
     case r of Inl _ \<Rightarrow> returnE ()
     | Inr _ \<Rightarrow> tryE (CountParkedSubscriptionNodes (now + parkedRetryThreshold)) (\<lambda>_. returnE ()))"

definition NodeHealthSnapshot :: "world \<Rightarrow> nat \<times> nat" where
  "NodeHealthSnapshot w =
     (case node_health w of None \<Rightarrow> (0, 0)
      | Some h \<Rightarrow> (length h, length (filter (\<lambda>(_, up). \<not> up) h)))"

text \<open>One subscription of the pass: the errors it adds, and whether the loop stops.\<close>

definition sync_group :: "node_env \<Rightarrow> time \<Rightarrow> uint \<Rightarrow> (world, error list \<times> bool) op" where
  "sync_group env now subID w =
     (case ne_lock env (trace w) subID of
        Some e \<Rightarrow> (Inr ([e], is_ctx_err e), w)
      | None \<Rightarrow>
          tryE (GetByID subID) (\<lambda>loaded.
          case loaded of
            Inl e \<Rightarrow>
              if errors_is e ErrSubscriptionNotFound \<or> errors_is e ErrRecordNotFound
              then tryE (DeleteSubscriptionNodesBySubscriptionID subID) (\<lambda>_. returnE ([e], False))
              else returnE ([e], False)
          | Inr sub \<Rightarrow>
              tryE (GetPendingBySubscriptionID now subID) (\<lambda>fresh.
              case fresh of
                Inl e \<Rightarrow> returnE ([e], False)
              | Inr [] \<Rightarrow> returnE ([], False)
              | Inr rows \<Rightarrow>
                  tryE (syncNodes env now sub rows) (\<lambda>synced.
                  tryE (reconcilePlanNodesLocked (s_id sub)) (\<lambda>pruned.
                  returnE ((case synced of Inl e \<Rightarrow> [e] | Inr _ \<Rightarrow> [])
                           @ (case pruned of Inl e \<Rightarrow> [e] | Inr _ \<Rightarrow> []), False))))) w)"

fun sync_groups :: "node_env \<Rightarrow> time \<Rightarrow> uint list \<Rightarrow> (world, error list) op" where
  "sync_groups env now [] = returnE []"
| "sync_groups env now (s # ss) =
     bindE (sync_group env now s) (\<lambda>(es, stop).
     if stop then returnE es
     else bindE (sync_groups env now ss) (\<lambda>fs. returnE (es @ fs)))"

definition SyncPendingNodes :: "node_env \<Rightarrow> time \<Rightarrow> (world, unit) op" where
  "SyncPendingNodes env now =
     bindE (releaseRecoveredNodes env now) (\<lambda>_.
     bindE (refreshSyncGauges now) (\<lambda>_.
     bindE (refreshNodeHealth env) (\<lambda>_.
     bindE (GetPendingSync now) (\<lambda>pending.
     if pending = [] then returnE ()
     else
     bindE (sync_groups env now (remdups (map sn_subscription_id pending))) (\<lambda>errs.
     bindE (ctxE env) (\<lambda>c.
     case c of Some e \<Rightarrow> failE e
     | None \<Rightarrow> if errs \<noteq> [] then failE (concat errs) else returnE ()))))))"

end
