(* ===== verification/Sync_Laws.thy ===== *)
theory Sync_Laws
  imports Sync_Service
begin

text \<open>
  What the synchronisation of \<open>Sync_Service\<close> guarantees: it respects every contract of the store,
  it sends the panels only what the bindings call for, a binding is marked in step only after the
  panel accepted it, the retry ladder ends, and with panels that answer it converges to the plan.
\<close>

section \<open>Every contract of the store is respected\<close>

context op_contract
begin

lemma collectE_keeps_set:
  assumes "\<And>x. x \<in> set xs \<Longrightarrow> keeps R (f x)"
  shows "keeps R (collectE f xs)"
  using assms by (induction xs) (auto intro: returnE_keeps bindE_keeps)

lemmas collectE_keeps = collectE_keeps_set

text \<open>What the first operation returns may be known to the second.\<close>

lemma tryE_keeps_post:
  assumes "keeps R m" "\<And>s r s'. m s = (r, s') \<Longrightarrow> Q r" "\<And>r. Q r \<Longrightarrow> keeps R (k r)"
  shows "keeps R (tryE m k)"
proof (rule keepsI)
  fix s
  obtain r t where m: "m s = (r, t)"
    by (cases "m s")
  have "R s t"
    using keepsD [OF assms(1), of s] m by simp
  moreover have "R t (snd (k r t))"
    using assms(2) [OF m] by (rule keepsD [OF assms(3)])
  ultimately show "R s (snd (tryE m k s))"
    using m by (simp add: op_simps) (erule (1) R_trans)
qed

lemma Pair_keeps: "keeps R (Pair r)"
  by (simp add: keeps_def R_refl)

lemma state_if_keeps:
  "keeps R m \<Longrightarrow> keeps R n \<Longrightarrow> keeps R (\<lambda>s. if P s then m s else n s)"
  by (simp add: keeps_def)

lemma state_option_keeps:
  "keeps R m \<Longrightarrow> (\<And>x. keeps R (k x)) \<Longrightarrow>
     keeps R (\<lambda>s. case f s of None \<Rightarrow> m s | Some x \<Rightarrow> k x s)"
  by (simp add: keeps_def split: option.splits)

end

context db_contract
begin

lemma frame_keeps:
  assumes "\<And>w. db (snd (m w)) = db w \<and> turns (snd (m w)) = turns w"
  shows "keeps (on_db R) m"
  using assms by (auto intro!: keepsI simp: on_db_def rely_def db_refl)

lemma env_keeps:
  "keeps (on_db R) (vpnE env c i p)" "keeps (on_db R) (profileE env i m)"
  "keeps (on_db R) (pingE env i)" "keeps (on_db R) (ctxE env)"
  "keeps (on_db R) (modifyE (\<lambda>w. w\<lparr>node_health := h\<rparr>))"
  by (intro frame_keeps; simp add: vpnE_def profileE_def pingE_def ctxE_def modifyE_def split: option.splits)+

lemma with_lock_keeps: "keeps (on_db R) m \<Longrightarrow> keeps (on_db R) (with_lock env i m)"
  unfolding keeps_def with_lock_def by (auto simp: on_db_def db_refl split: option.splits)

lemma attempt_keeps: "keeps (on_db R) m \<Longrightarrow> keeps (on_db R) (attempt policy m)"
  unfolding attempt_def by (intro db_combinators)

lemma reads_keep:
  "keeps (on_db R) (GetByID i)" "keeps (on_db R) (GetNodesByPlanID i)" "keeps (on_db R) (GetNodeByID i)"
  "keeps (on_db R) (GetPlanByID i)" "keeps (on_db R) (GetInviteByCode c)"
  "keeps (on_db R) (GetByTelegramID j)"
  unfolding GetByID_def GetNodesByPlanID_def GetNodeByID_def GetPlanByID_def GetInviteByCode_def
    GetByTelegramID_def
  by (intro db_combinators)+

lemma readers_keep:
  "keeps (on_db R) (referrerComment sub)" "keeps (on_db R) (panelRenewProfile env i m)"
  "keeps (on_db R) (buildNodeProvision env now sub i pol)"
proof -
  show c: "keeps (on_db R) (referrerComment sub)"
    unfolding referrerComment_def by (intro db_combinators reads_keep)
  show p: "keeps (on_db R) (panelRenewProfile env i m)" for m
    unfolding panelRenewProfile_def by (intro db_combinators env_keeps)
  show "keeps (on_db R) (buildNodeProvision env now sub i pol)"
    unfolding buildNodeProvision_def renew_provision_def
    by (cases pol; simp only: profile_policy.case; intro db_combinators reads_keep c p)
qed

end

text \<open>The operations of the service, under any contract of the store.\<close>

context binding_statements
begin

lemma nodes_keep:
  "keeps (on_db R) (set_status_of sn st)" "keeps (on_db R) (drop_binding sn)"
  "keeps (on_db R) (fallbackUpdateToCreate sn)"
  "keeps (on_db R) (handleSyncError now sn e)"
proof -
  show s: "keeps (on_db R) (set_status_of sn st)" for st
    unfolding set_status_of_def by (rule operations)
  show "keeps (on_db R) (fallbackUpdateToCreate sn)"
    unfolding fallbackUpdateToCreate_def by (rule s)
  show "keeps (on_db R) (drop_binding sn)"
    unfolding drop_binding_def by (rule operations)
  show "keeps (on_db R) (handleSyncError now sn e)"
    unfolding handleSyncError_def by (intro db_combinators operations)
qed

lemma failing_keeps: "keeps (on_db R) (failing now sn e)"
  unfolding failing_def by (intro db_combinators nodes_keep)

lemma retry_keeps: "keeps (on_db R) (retryUnavailableNode now sn)"
  unfolding retryUnavailableNode_def Let_def
  by (intro db_combinators reads_keep nodes_keep)

lemmas sync_steps = db_combinators reads_keep env_keeps readers_keep
  attempt_keeps with_lock_keeps world.collectE_keeps
  nodes_keep failing_keeps retry_keeps operations

lemma processing_keeps:
  "keeps (on_db R) (processPendingUpdate env now sn sub)"
  "keeps (on_db R) (processPendingAdd env now sn sub)"
  "keeps (on_db R) (processPendingRemove env now sn sub)"
  unfolding processPendingUpdate_def processPendingAdd_def processPendingRemove_def Let_def
  by (intro sync_steps)+

lemma dispatch_keeps: "keeps (on_db R) (dispatch_node env now sub sn)"
  unfolding dispatch_node_def
  by (cases "sn_status sn"; simp only: sync_status.simps if_False if_True simp_thms)
    (intro sync_steps processing_keeps)+

lemma syncNodes_keeps: "keeps (on_db R) (syncNodes env now sub pending)"
  unfolding syncNodes_def sync_node_def by (intro sync_steps dispatch_keeps)

lemma background_store:
  "keeps (on_db R) (LoadSubscription dbServicePlanStore i)"
  "keeps (on_db R) (LoadPlanNodes dbServicePlanStore i)"
  "keeps (on_db R) (LoadSubscriptionNodes dbServicePlanStore i)"
  "keeps (on_db R) (SetNodeStatus dbServicePlanStore i j st)"
  "keeps (on_db R) (UpsertPendingAdd dbServicePlanStore sn)"
  by (simp_all add: dbServicePlanStore_def reads_keep operations)

lemma reconcile_keeps: "keeps (on_db R) (reconcilePlanNodesLocked i)"
  unfolding reconcilePlanNodesLocked_def reconcilePlanNodesCore_def reconcile_passes_def
    add_target_def remove_stale_def Let_def
  by (intro sync_steps background_store)

lemma entry_points_keep:
  "keeps (on_db R) (ReconcilePlanNodes env i)" "keeps (on_db R) (MarkAllForRemoval env i)"
  "keeps (on_db R) (SyncSubscription env now i)" "keeps (on_db R) (ApplyPlanToSubscription env i)"
  unfolding ReconcilePlanNodes_def MarkAllForRemoval_def markAllForRemovalLocked_def
    SyncSubscription_def ApplyPlanToSubscription_def applyPlanToSubscriptionLocked_def
  by (intro sync_steps reconcile_keeps syncNodes_keeps)+

lemma apply_keeps:
  "keeps (on_db R) m \<Longrightarrow> on_db R w (snd (m w))"
  by (rule keepsD)

lemma release_keeps: "keeps (on_db R) (release_nodes env t is)"
proof (induction "is")
  case Nil
  show ?case by (simp add: db_combinators)
next
  case (Cons i "is")
  show ?case
    unfolding release_nodes.simps
    by (intro world.state_if_keeps sync_steps Cons.IH)
qed

lemma probe_keeps: "keeps (on_db R) (probe_nodes env ns)"
  by (induction ns) (auto intro!: sync_steps)

lemma refresh_keeps:
  "keeps (on_db R) (releaseRecoveredNodes env now)" "keeps (on_db R) (refreshNodeHealth env)"
  "keeps (on_db R) (refreshSyncGauges now)"
  unfolding releaseRecoveredNodes_def refreshNodeHealth_def refreshSyncGauges_def Let_def
  by (intro sync_steps release_keeps probe_keeps)+

lemma sync_group_keeps: "keeps (on_db R) (sync_group env now i)"
  unfolding sync_group_def
  by (intro world.state_option_keeps [where m = "tryE (GetByID i) k" for k]
      world.Pair_keeps sync_steps syncNodes_keeps reconcile_keeps)

lemma sync_groups_keep: "keeps (on_db R) (sync_groups env now ss)"
  by (induction ss) (auto intro!: sync_steps sync_group_keeps)

lemma SyncPendingNodes_keeps: "keeps (on_db R) (SyncPendingNodes env now)"
  unfolding SyncPendingNodes_def by (intro sync_steps refresh_keeps sync_groups_keep)

lemmas sync_operations = entry_points_keep SyncPendingNodes_keeps

text \<open>The same inside a caller's transaction.\<close>

lemma ApplyPlanToSubscriptionInTx_in_tx: "keeps (in_tx R) (ApplyPlanToSubscriptionInTx i p)"
proof -
  have store: "keeps (in_tx R) (LoadPlanNodes txPlanStore p)" "keeps (in_tx R) (LoadSubscriptionNodes txPlanStore i)"
    "keeps (in_tx R) (MarkActivePendingUpdate txPlanStore i js)"
    "keeps (in_tx R) (SetNodeStatus txPlanStore i j st)" "keeps (in_tx R) (UpsertPendingAdd txPlanStore sn)" for i p j js st sn
    using query_in_tx(1)
    by (simp_all add: txPlanStore_def tx_mark_active_def tx_set_status_def tx_upsert_def query_in_tx
        write_keeps tx_combinators update_keeps)
  show ?thesis
    unfolding ApplyPlanToSubscriptionInTx_def reconcilePlanNodesCore_def reconcile_passes_def
      add_target_def remove_stale_def Let_def attempt_def
    by (simp, intro tx_combinators tx.collectE_keeps store)
qed

end

lemma ApplyPlanInTx_orders: "orders_evolve (db v) (db (snd (ApplyPlanToSubscriptionInTx j k v)))"
  using keepsD [OF orders_bind.ApplyPlanToSubscriptionInTx_in_tx] by (simp add: in_tx_def)

text \<open>The synchronisation writes to no table but that of the bindings.\<close>

definition only_bindings :: "db \<Rightarrow> db \<Rightarrow> bool" where
  "only_bindings d d' \<longleftrightarrow> (\<exists>rows. d' = d\<lparr>subscription_nodes := rows\<rparr>)"

interpretation frozen: binding_statements only_bindings
proof
  show "only_bindings d d" for d
    unfolding only_bindings_def by (rule exI [of _ "subscription_nodes d"]) simp
  show "only_bindings d f" if "only_bindings d e" "only_bindings e f" for d e f
    using that by (auto simp: only_bindings_def)
qed (auto simp: only_bindings_def delete_bindings_def
    dest!: update_bindings_ok insert_binding_ok upsert_binding_ok)

lemma ApplyPlanInTx_subscriptions: "subscriptions (db (snd (ApplyPlanToSubscriptionInTx j k v))) = subscriptions (db v)"
proof -
  have "only_bindings (db v) (db (snd (ApplyPlanToSubscriptionInTx j k v)))"
    using keepsD [OF frozen.ApplyPlanToSubscriptionInTx_in_tx] by (simp add: in_tx_def)
  then show ?thesis by (auto simp: only_bindings_def)
qed

section \<open>What is sent to the panels\<close>

text \<open>An operation \<open>emits P\<close> when every effect it appends to the trace satisfies \<open>P\<close>.\<close>

definition emits :: "(effect \<Rightarrow> bool) \<Rightarrow> world \<Rightarrow> world \<Rightarrow> bool" where
  "emits P w w' \<longleftrightarrow> (\<exists>es. trace w' = trace w @ es \<and> list_all P es)"

interpretation emits: op_contract "emits P" for P
proof
  show "emits P w w" for w
    by (simp add: emits_def)
  show "emits P u w" if "emits P u v" "emits P v w" for u v w
    using that by (auto simp: emits_def)
qed

lemma silent_emits: "(\<And>w. trace (snd (m w)) = trace w) \<Longrightarrow> keeps (emits P) m"
  by (rule keepsI) (simp add: emits_def)

lemma stmts_silent [simp]:
  "trace (snd (stmtE f w)) = trace w" "trace (snd (txE f w)) = trace w"
  by (auto simp: stmtE_def txE_def run_stmt_def split: turn.splits sum.splits)

lemma statements_emit:
  "keeps (emits P) (stmtE f)" "keeps (emits P) (txE f)" "keeps (emits P) (query g)"
  "keeps (emits P) (queryE h)" "keeps (emits P) (execE k)"
  "keeps (emits P) (profileE env i m)" "keeps (emits P) (ctxE env)"
  by (auto intro!: silent_emits simp: query_def queryE_def execE_def profileE_def ctxE_def)

lemma vpnE_emits: "P (EffVpn c i p) \<Longrightarrow> keeps (emits P) (vpnE env c i p)"
  by (rule keepsI) (auto simp: emits_def vpnE_def split: option.splits)

lemma attempt_emits: "keeps (emits P) m \<Longrightarrow> keeps (emits P) (attempt policy m)"
  unfolding attempt_def by (intro emits.combinators)

lemmas emit_steps = emits.combinators emits.collectE_keeps statements_emit attempt_emits

lemma store_emits:
  "keeps (emits P) (UpdateSubscriptionNodeStatus i j st)" "keeps (emits P) (DeleteSubscriptionNode i j)"
  "keeps (emits P) (UpdateRetry i j c at e)" "keeps (emits P) (GetNodeByID i)" "keeps (emits P) (GetPlanByID i)"
  "keeps (emits P) (GetInviteByCode x)" "keeps (emits P) (GetByTelegramID k)"
  unfolding UpdateSubscriptionNodeStatus_def DeleteSubscriptionNode_def UpdateRetry_def affects_def
    GetNodeByID_def GetPlanByID_def GetInviteByCode_def GetByTelegramID_def
  by (intro emit_steps)+

lemma node_steps_emit:
  "keeps (emits P) (set_status_of sn st)" "keeps (emits P) (drop_binding sn)"
  "keeps (emits P) (handleSyncError now sn e)" "keeps (emits P) (failing now sn e)"
  "keeps (emits P) (retryUnavailableNode now sn)" "keeps (emits P) (fallbackUpdateToCreate sn)"
  unfolding set_status_of_def drop_binding_def handleSyncError_def failing_def retryUnavailableNode_def
    fallbackUpdateToCreate_def Let_def
  by (intro emit_steps store_emits)+

text \<open>A provision that stands for the subscription: its client and its subscription id.\<close>

definition provision_of :: "subscription \<Rightarrow> vpn_provision \<Rightarrow> bool" where
  "provision_of sub p \<longleftrightarrow> vp_client_id p = s_client_id sub \<and> vp_sub_id p = s_subscription_id sub"

lemma provision_row [simp]:
  "provision_of sub (base_provision sub plan c)" "provision_of sub (removal_provision sub)"
  "provision_of sub p \<Longrightarrow> provision_of sub (defaultRenewProfile p)"
  "provision_of sub p \<Longrightarrow> provision_of sub (copy_profile r p)"
  by (simp_all add: provision_of_def base_provision_def removal_provision_def defaultRenewProfile_def
      copy_profile_def)

lemma buildNodeProvision_emits: "keeps (emits P) (buildNodeProvision env now sub i pol)"
proof -
  have c: "keeps (emits P) (referrerComment sub)"
    unfolding referrerComment_def by (intro emit_steps store_emits)
  have p: "keeps (emits P) (panelRenewProfile env i m)" for m
    unfolding panelRenewProfile_def by (intro emit_steps)
  show ?thesis
    unfolding buildNodeProvision_def renew_provision_def
    by (cases pol; simp only: profile_policy.case; intro emit_steps store_emits c p)
qed

lemma renew_provision_ok:
  assumes "renew_provision env i plan email pol q w = (Inr p, w')"
  shows "provision_of sub p = provision_of sub q \<and> vp_traffic_bytes p = vp_traffic_bytes q
    \<and> (pl_name plan = TrialPlanName \<longrightarrow> vp_reset_days p = 0 \<and> vp_traffic_reset p = ''never'')
    \<and> (pl_name plan \<noteq> TrialPlanName \<longrightarrow> pol = ProfileDefault \<longrightarrow>
         vp_reset_days p = SubscriptionResetDay \<and> vp_traffic_reset p = ''monthly'')"
  using assms
  by (auto simp: renew_provision_def plain_ok provision_of_def defaultRenewProfile_def copy_profile_def
      elim!: bindE_ok split: if_splits profile_policy.splits)

lemma buildNodeProvision_ok:
  assumes "buildNodeProvision env now sub i pol w = (Inr p, w')"
  obtains plan comment w1 where
    "GetPlanByID (s_plan_id sub) w = (Inr plan, w1)"
    "provision_of sub p" "vp_traffic_bytes p = pl_traffic_limit plan"
    "pl_traffic_limit plan \<le> 0 \<Longrightarrow> p = base_provision sub plan comment"
    "0 < pl_traffic_limit plan \<Longrightarrow> vp_expiry_time p = Some (provision_expiry now sub)"
    "0 < pl_traffic_limit plan \<Longrightarrow> pl_name plan = TrialPlanName \<Longrightarrow>
       vp_reset_days p = 0 \<and> vp_traffic_reset p = ''never''"
    "0 < pl_traffic_limit plan \<Longrightarrow> pl_name plan \<noteq> TrialPlanName \<Longrightarrow> pol = ProfileDefault \<Longrightarrow>
       vp_reset_days p = SubscriptionResetDay \<and> vp_traffic_reset p = ''monthly''"
proof -
  obtain plan w1 where 1: "GetPlanByID (s_plan_id sub) w = (Inr plan, w1)"
    and rest: "bindE (referrerComment sub) (\<lambda>comment.
       if pl_traffic_limit plan \<le> 0 then returnE (base_provision sub plan comment)
       else bindE (renew_provision env i plan (syncIdentifier sub) pol (base_provision sub plan comment)) (\<lambda>p.
            returnE (p\<lparr>vp_expiry_time := Some (provision_expiry now sub)\<rparr>))) w1 = (Inr p, w')"
    using assms unfolding buildNodeProvision_def by (rule bindE_ok)
  from rest obtain comment w2 where 2: "(if pl_traffic_limit plan \<le> 0 then returnE (base_provision sub plan comment)
       else bindE (renew_provision env i plan (syncIdentifier sub) pol (base_provision sub plan comment)) (\<lambda>p.
            returnE (p\<lparr>vp_expiry_time := Some (provision_expiry now sub)\<rparr>))) w2 = (Inr p, w')"
    by (rule bindE_ok)
  have base: "vp_traffic_bytes (base_provision sub plan comment) = pl_traffic_limit plan"
    by (simp add: base_provision_def)
  have upd: "provision_of sub (q\<lparr>vp_expiry_time := t\<rparr>) = provision_of sub q" for q t
    by (simp add: provision_of_def)
  show ?thesis
    by (rule that [OF 1]) (use 2 in \<open>auto simp: plain_ok base upd dest!: renew_provision_ok [where sub = sub]
        elim!: bindE_ok split: if_splits\<close>)
qed

text \<open>Processing a binding calls the panel of its own node, for its own subscription.\<close>

definition call_for :: "subscription \<Rightarrow> uint set \<Rightarrow> effect \<Rightarrow> bool" where
  "call_for sub ns e \<longleftrightarrow> (\<exists>c i p. e = EffVpn c i p \<and> i \<in> ns \<and> provision_of sub p)"

definition delete_for :: "subscription \<Rightarrow> uint set \<Rightarrow> effect \<Rightarrow> bool" where
  "delete_for sub ns e \<longleftrightarrow> (\<exists>i p. e = EffVpn VpnDelete i p \<and> i \<in> ns \<and> provision_of sub p)"


lemma process_emits:
  assumes "\<And>e. keeps (emits P) (h e)" "\<And>p. provision_of sub p \<Longrightarrow> keeps (emits P) (k p)"
  shows "keeps (emits P) (tryE (buildNodeProvision env now sub i pol)
           (\<lambda>r. case r of Inl e \<Rightarrow> h e | Inr p \<Rightarrow> k p))"
proof (rule emits.tryE_keeps_post [OF buildNodeProvision_emits])
  show "case r of Inl _ \<Rightarrow> True | Inr p \<Rightarrow> provision_of sub p"
    if "buildNodeProvision env now sub i pol w = (r, w')" for w r w'
    using that by (cases r) (auto elim: buildNodeProvision_ok)
qed (auto split: sum.splits intro: assms)

lemma processing_emits:
  "keeps (emits (call_for sub {sn_node_id sn})) (processPendingAdd env now sn sub)"
  "keeps (emits (call_for sub {sn_node_id sn})) (processPendingUpdate env now sn sub)"
  "keeps (emits (delete_for sub {sn_node_id sn})) (processPendingRemove env now sn sub)"
proof -
  have call: "keeps (emits (call_for sub {i})) (vpnE env c i p)" if "provision_of sub p" for c i p
    using that by (intro vpnE_emits) (auto simp: call_for_def)
  show "keeps (emits (call_for sub {sn_node_id sn})) (processPendingAdd env now sn sub)"
    unfolding processPendingAdd_def Let_def
    by (rule emits.if_keeps, rule node_steps_emit, rule process_emits, rule node_steps_emit)
      (intro emit_steps node_steps_emit call; assumption)
  show "keeps (emits (call_for sub {sn_node_id sn})) (processPendingUpdate env now sn sub)"
    unfolding processPendingUpdate_def Let_def
    by (rule emits.if_keeps, rule node_steps_emit, rule process_emits)
      (intro emit_steps node_steps_emit call; assumption)+
  have "keeps (emits (delete_for sub {i})) (vpnE env VpnDelete i (removal_provision sub))" for i
    by (intro vpnE_emits) (simp add: delete_for_def)
  then show "keeps (emits (delete_for sub {sn_node_id sn})) (processPendingRemove env now sn sub)"
    unfolding processPendingRemove_def
    by (intro emit_steps store_emits node_steps_emit)
qed

lemma emits_weaken:
  assumes "keeps (emits P) m" "\<And>e. P e \<Longrightarrow> Q e"
  shows "keeps (emits Q) m"
  using assms unfolding keeps_def emits_def by (metis list.pred_mono_strong)

lemma sync_node_emits:
  assumes "i = sn_node_id sn"
  shows "keeps (emits (call_for sub {i})) (sync_node env now sub sn)"
    and "s_status sub = SubscriptionStatusRevoked \<Longrightarrow>
      keeps (emits (delete_for sub {i})) (sync_node env now sub sn)"
proof -
  have node: "sn_node_id (set_sync_status st sn) = i" for st
    using assms by (simp add: set_sync_status_def)
  have del: "keeps (emits P) (dispatch_node env now sub x)"
    if "sn_status x = SyncStatusPendingRemove \<or> sn_status x = SyncStatusActive"
      "\<And>e. delete_for sub {sn_node_id x} e \<Longrightarrow> P e" for x P
  proof (cases "sn_status x = SyncStatusPendingRemove")
    case True
    then show ?thesis
      unfolding dispatch_node_def
      by (simp, intro attempt_emits emits_weaken [OF processing_emits(3)] that(2))
  next
    case False
    then have "sn_status x = SyncStatusActive"
      using that(1) by simp
    then show ?thesis
      unfolding dispatch_node_def by (simp only: sync_status.simps if_False simp_thms)
        (intro emit_steps node_steps_emit)
  qed
  have any: "keeps (emits (call_for sub {sn_node_id x})) (dispatch_node env now sub x)" for x
  proof (cases "sn_status x = SyncStatusPendingRemove")
    case True
    then show ?thesis
      by (intro del) (auto simp: delete_for_def call_for_def)
  next
    case False
    then show ?thesis
      unfolding dispatch_node_def
      by (cases "sn_status x"; simp only: sync_status.simps if_False simp_thms)
        (intro emit_steps node_steps_emit processing_emits(1,2))+
  qed
  show "keeps (emits (call_for sub {i})) (sync_node env now sub sn)"
    using any [of sn] any [of "set_sync_status SyncStatusPendingRemove sn"] assms node
    unfolding sync_node_def by (auto intro!: emit_steps node_steps_emit split: sum.splits)
  show "keeps (emits (delete_for sub {i})) (sync_node env now sub sn)"
    if "s_status sub = SubscriptionStatusRevoked"
  proof -
    have 1: "keeps (emits (delete_for sub {i})) (dispatch_node env now sub
        (set_sync_status SyncStatusPendingRemove sn))"
      using node by (intro del) (simp_all add: set_sync_status_def)
    have 2: "keeps (emits (delete_for sub {i})) (dispatch_node env now sub sn)"
      if "sn_status sn \<notin> {SyncStatusPendingAdd, SyncStatusPendingUpdate}"
      using that assms by (intro del) (cases "sn_status sn"; simp)+
    show ?thesis
      using 1 2 unfolding sync_node_def that
      by (auto intro!: emit_steps node_steps_emit split: sum.splits)
  qed
qed

lemma syncNodes_keeps_emits:
  assumes "\<And>sn. sn \<in> set pending \<Longrightarrow> keeps (emits P) (sync_node env now sub sn)"
  shows "keeps (emits P) (syncNodes env now sub pending)"
  unfolding syncNodes_def by (intro emit_steps emits.collectE_keeps assms)

lemma emits_run: "keeps (emits P) m \<Longrightarrow> m w = (r, w') \<Longrightarrow> \<exists>es. trace w' = trace w @ es \<and> list_all P es"
  using keepsD [of "emits P" m w] by (simp add: emits_def)

text \<open>Synchronising a subscription only ever talks to the nodes its pending bindings name, and
  only about this subscription's own client.\<close>

theorem syncNodes_effects:
  assumes "syncNodes env now sub pending w = (r, w')"
  shows "\<exists>es. trace w' = trace w @ es
    \<and> list_all (call_for sub (sn_node_id ` set pending)) es"
proof (rule emits_run [OF syncNodes_keeps_emits assms])
  fix sn
  assume "sn \<in> set pending"
  then show "keeps (emits (call_for sub (sn_node_id ` set pending))) (sync_node env now sub sn)"
    by (intro emits_weaken [OF sync_node_emits(1) [OF refl]]) (auto simp: call_for_def)
qed

text \<open>C3. A revoked subscription is never provisioned again: whatever its bindings ask for, the
  database does and the panels answer, the only calls made are deletions of its client.\<close>

theorem revoked_only_deleted:
  assumes "syncNodes env now sub pending w = (r, w')" and "s_status sub = SubscriptionStatusRevoked"
  shows "\<exists>es. trace w' = trace w @ es
    \<and> list_all (delete_for sub (sn_node_id ` set pending)) es"
proof (rule emits_run [OF syncNodes_keeps_emits assms(1)])
  fix sn
  assume "sn \<in> set pending"
  then show "keeps (emits (delete_for sub (sn_node_id ` set pending))) (sync_node env now sub sn)"
    by (intro emits_weaken [OF sync_node_emits(2) [OF refl assms(2)]]) (auto simp: delete_for_def)
qed

section \<open>A binding is in step only when the panel said so\<close>

definition settled :: "sync_status \<Rightarrow> subscription_node \<Rightarrow> db \<Rightarrow> bool" where
  "settled st sn d \<longleftrightarrow> (\<forall>x \<in> set (subscription_nodes d). sn_key x = sn_key sn \<longrightarrow>
     sn_status x = st \<and> sn_retry_count x = 0 \<and> sn_retry_at x = None)"

definition dropped :: "subscription_node \<Rightarrow> db \<Rightarrow> bool" where
  "dropped sn d \<longleftrightarrow> (\<forall>x \<in> set (subscription_nodes d). sn_key x \<noteq> sn_key sn)"

lemma set_status_of_ok:
  assumes "set_status_of sn st w = (Inr u, w')"
  shows "trace w' = trace w \<and> settled st sn (db w')"
proof -
  obtain n where 1: "stmtE (update_bindings (binding (sn_subscription_id sn) (sn_node_id sn))
      (set_sync_status st)) w = (Inr n, w')"
    using assms unfolding set_status_of_def UpdateSubscriptionNodeStatus_def affects_def
    by (auto elim!: bindE_ok simp: plain_ok split: if_splits)
  have key: "sn_key sn = (sn_subscription_id sn, sn_node_id sn)"
    by (simp add: sn_key_def)
  show ?thesis
    using update_bindings_ok [OF stmtE_ok(1) [OF 1]] stmtE_ok(2) [OF 1]
    by (auto simp: settled_def ball_update_where binding_key key) (simp_all add: set_sync_status_def)
qed

lemma drop_binding_ok:
  assumes "drop_binding sn w = (Inr u, w')"
  shows "trace w' = trace w \<and> dropped sn (db w')"
proof -
  obtain n where 1: "stmtE (\<lambda>d. Inr (delete_bindings (binding (sn_subscription_id sn) (sn_node_id sn)) d)) w = (Inr n, w')"
    using assms unfolding drop_binding_def DeleteSubscriptionNode_def affects_def execE_def
    by (auto elim!: bindE_ok simp: plain_ok split: if_splits)
  have "subscription_nodes (db w') = delete_where (binding (sn_subscription_id sn) (sn_node_id sn))
      (subscription_nodes (db (step_other w)))"
    using stmtE_ok(1) [OF 1] by (simp add: delete_bindings_def) (metis db.select_convs(7) db.surjective db.update_convs(7))
  then show ?thesis
    using stmtE_ok(2) [OF 1] by (auto simp: dropped_def binding_key sn_key_def)
qed

lemma never_ok:
  "\<not> failing now sn e w = (Inr x, w')" "\<not> retryUnavailableNode now sn w = (Inr y, w')"
  by (auto simp: failing_def retryUnavailableNode_def Let_def plain_ok elim!: bindE_ok tryE_run
      split: sum.splits)

text \<open>The panel accepted a call for this subscription, as the last call made.\<close>

definition accepted :: "node_env \<Rightarrow> vpn_call set \<Rightarrow> subscription \<Rightarrow> uint \<Rightarrow> effect list \<Rightarrow> bool" where
  "accepted env cs sub i tr \<longleftrightarrow> (\<exists>pre c p. tr = pre @ [EffVpn c i p] \<and> c \<in> cs
     \<and> ne_answer env pre i c p = None \<and> provision_of sub p)"

lemma vpnE_accepted:
  assumes "vpnE env c i p w = (Inr u, w')" "provision_of sub p" "c \<in> cs"
  shows "accepted env cs sub i (trace w')"
  using assms by (auto simp: vpnE_def accepted_def split: option.splits)

text \<open>When processing a \<open>pending_add\<close> succeeds, the binding is \<open>active\<close> with a clean retry state
  and the last call was a creation (or the update of a client already there) that the panel of this
  node accepted.\<close>

theorem processPendingAdd_accepted:
  assumes "processPendingAdd env now sn sub w = (Inr (), w')"
  shows "accepted env {VpnCreate, VpnUpdate} sub (sn_node_id sn) (trace w')
    \<and> settled SyncStatusActive sn (db w')"
proof -
  obtain r w1 where b: "buildNodeProvision env now sub (sn_node_id sn) ProfileDefault w = (r, w1)"
    and rest: "(case r of Inl e \<Rightarrow> failing now sn e
      | Inr p \<Rightarrow> tryE (vpnE env VpnCreate (sn_node_id sn) p) (\<lambda>created.
        case created of
          Inl e \<Rightarrow>
            if errors_is e VpnErrSubscriptionAlreadyExists then
              tryE (vpnE env VpnUpdate (sn_node_id sn) p) (\<lambda>updated.
              case updated of
                Inl e' \<Rightarrow> failing now sn e'
              | Inr _ \<Rightarrow> set_status_of sn SyncStatusActive)
            else failing now sn e
        | Inr _ \<Rightarrow> set_status_of sn SyncStatusActive)) w1 = (Inr (), w')"
    using assms unfolding processPendingAdd_def Let_def
    by (auto simp: never_ok elim: tryE_run split: if_splits)
  obtain p where p: "r = Inr p" "provision_of sub p"
    using b rest by (cases r) (auto simp: never_ok elim: buildNodeProvision_ok)
  have "\<exists>c w2 v. c \<in> {VpnCreate, VpnUpdate} \<and> vpnE env c (sn_node_id sn) p v = (Inr (), w2)
      \<and> set_status_of sn SyncStatusActive w2 = (Inr (), w')"
    using rest p(1) by (fastforce simp: never_ok elim!: tryE_run split: sum.splits if_splits)
  then show ?thesis
    using vpnE_accepted [OF _ p(2)] set_status_of_ok by metis
qed

text \<open>When processing a \<open>pending_remove\<close> succeeds the binding is gone, and the client with it:
  the node is no longer served, or its panel accepted the deletion, or said it has no such client.\<close>

theorem processPendingRemove_removed:
  assumes "processPendingRemove env now sn sub w = (Inr (), w')"
  shows "dropped sn (db w')
    \<and> (accepted env {VpnDelete} sub (sn_node_id sn) (trace w')
       \<or> (\<exists>pre e p. trace w' = pre @ [EffVpn VpnDelete (sn_node_id sn) p]
            \<and> ne_answer env pre (sn_node_id sn) VpnDelete p = Some e \<and> errors_is e VpnErrSubscriptionNotFound)
       \<or> (\<exists>r w1. GetNodeByID (sn_node_id sn) w = (r, w1) \<and> trace w' = trace w1
            \<and> (case r of Inl e \<Rightarrow> errors_is e ErrNodeNotFound \<or> errors_is e ErrRecordNotFound
               | Inr n \<Rightarrow> \<not> n_is_active n)))"
proof -
  obtain r w1 where g: "GetNodeByID (sn_node_id sn) w = (r, w1)"
    and rest: "(case r of
       Inl e \<Rightarrow> if errors_is e ErrNodeNotFound \<or> errors_is e ErrRecordNotFound then drop_binding sn
                else retryUnavailableNode now sn
     | Inr node \<Rightarrow>
         if \<not> n_is_active node then drop_binding sn
         else if \<not> ne_provision env (sn_node_id sn) then retryUnavailableNode now sn
         else
         tryE (vpnE env VpnDelete (sn_node_id sn) (removal_provision sub)) (\<lambda>deleted.
         case deleted of
           Inl e \<Rightarrow> if errors_is e VpnErrSubscriptionNotFound then drop_binding sn else failing now sn e
         | Inr _ \<Rightarrow> drop_binding sn)) w1 = (Inr (), w')"
    using assms unfolding processPendingRemove_def by (rule tryE_run)
  show ?thesis
  proof (cases "case r of Inl e \<Rightarrow> errors_is e ErrNodeNotFound \<or> errors_is e ErrRecordNotFound
      | Inr n \<Rightarrow> \<not> n_is_active n")
    case True
    then have "drop_binding sn w1 = (Inr (), w')"
      using rest by (simp split: sum.splits)
    then show ?thesis
      using drop_binding_ok True g by blast
  next
    case False
    then obtain n where "r = Inr n" "n_is_active n"
      using rest by (auto simp: never_ok split: sum.splits)
    with rest obtain q w2 where v: "vpnE env VpnDelete (sn_node_id sn) (removal_provision sub) w1 = (q, w2)"
      and q: "(case q of
           Inl e \<Rightarrow> if errors_is e VpnErrSubscriptionNotFound then drop_binding sn else failing now sn e
         | Inr _ \<Rightarrow> drop_binding sn) w2 = (Inr (), w')"
      by (auto simp: never_ok elim: tryE_run split: if_splits)
    then have d: "drop_binding sn w2 = (Inr (), w')"
      by (auto simp: never_ok split: sum.splits if_splits)
    show ?thesis
    proof (cases q)
      case (Inr u)
      then show ?thesis
        using vpnE_accepted [of env VpnDelete "sn_node_id sn" "removal_provision sub" w1 u w2 sub "{VpnDelete}"]
          v drop_binding_ok [OF d] by simp
    next
      case (Inl e)
      then have "errors_is e VpnErrSubscriptionNotFound"
        using q by (auto simp: never_ok split: if_splits)
      moreover have "trace w2 = trace w1 @ [EffVpn VpnDelete (sn_node_id sn) (removal_provision sub)]"
        "ne_answer env (trace w1) (sn_node_id sn) VpnDelete (removal_provision sub) = Some e"
        using v Inl by (auto simp: vpnE_def split: option.splits)
      ultimately show ?thesis
        using drop_binding_ok [OF d] by metis
    qed
  qed
qed

section \<open>The retry ladder on a row\<close>

lemma retry_intervals:
  assumes "0 \<le> c"
  shows "minute \<le> retryBackoffIntervals ! (if 7 \<le> nat c then 6 else nat c)
    \<and> retryBackoffIntervals ! (if 7 \<le> nat c then 6 else nat c) \<le> hour"
proof -
  have "(if 7 \<le> nat c then 6 else nat c) \<in> {0, 1, 2, 3, 4, 5, 6}"
    by auto
  then show ?thesis
    by (auto simp only: insert_iff empty_iff) (simp_all add: retryBackoffIntervals_def hour_def minute_def second_def)
qed

text \<open>A failed binding waits: its next attempt lies strictly in the future, at most an hour away.\<close>

theorem CalculateRetryAt_bounds:
  assumes "0 \<le> c"
  shows "now < CalculateRetryAt now c \<and> CalculateRetryAt now c \<le> now + hour"
  using retry_intervals [OF assms] truncate_minute_le [of now] truncate_minute_gt [of now]
  by (auto simp: CalculateRetryAt_def Let_def retryBackoffIntervals_def)

definition after_error :: "time \<Rightarrow> error \<Rightarrow> subscription_node \<Rightarrow> subscription_node" where
  "after_error now e sn =
     (if is_ctx_err e then sn
      else if \<not> sync_retryable e \<or> maxSyncRetries \<le> sn_retry_count sn
        then set_retry (sn_retry_count sn) (Some parkedRetryAt) (Some e) sn
      else set_retry (sn_retry_count sn + 1) (Some (CalculateRetryAt now (sn_retry_count sn))) (Some e) sn)"

lemma after_error_key [simp]: "sn_key (after_error now e sn) = sn_key sn"
  by (simp add: after_error_def)

lemma after_error_ok: "retry_ok sn \<Longrightarrow> retry_ok (after_error now e sn)"
  by (auto simp: after_error_def retry_ok_def set_retry_def)

lemma binding_of: "binding (sn_subscription_id sn) (sn_node_id sn) x \<longleftrightarrow> sn_key x = sn_key sn"
  by (simp add: binding_key) (simp add: sn_key_def)

lemma update_binding_row:
  assumes wf: "bindings_wf d" and sn: "sn \<in> set (subscription_nodes d)" and f: "retry_ok (f sn)"
  shows "update_bindings (binding (sn_subscription_id sn) (sn_node_id sn)) f d
    = Inr (count_where (binding (sn_subscription_id sn) (sn_node_id sn)) (subscription_nodes d),
        d\<lparr>subscription_nodes := update_where (\<lambda>x. x = sn) f (subscription_nodes d)\<rparr>)"
    and "count_where (binding (sn_subscription_id sn) (sn_node_id sn)) (subscription_nodes d) \<noteq> 0"
proof -
  have uniq: "binding (sn_subscription_id sn) (sn_node_id sn) x \<longleftrightarrow> x = sn" if "x \<in> set (subscription_nodes d)" for x
    using wf distinct_key_eq [of sn_key "subscription_nodes d" x sn] that sn
    by (auto simp: bindings_wf_def binding_of)
  then have eq: "update_where (binding (sn_subscription_id sn) (sn_node_id sn)) f (subscription_nodes d)
      = update_where (\<lambda>x. x = sn) f (subscription_nodes d)"
    by (simp add: update_where_def)
  have "list_all retry_ok (update_where (\<lambda>x. x = sn) f (subscription_nodes d))"
    using wf f by (auto simp: bindings_wf_def list_all_iff ball_update_where)
  then show "update_bindings (binding (sn_subscription_id sn) (sn_node_id sn)) f d
    = Inr (count_where (binding (sn_subscription_id sn) (sn_node_id sn)) (subscription_nodes d),
        d\<lparr>subscription_nodes := update_where (\<lambda>x. x = sn) f (subscription_nodes d)\<rparr>)"
    by (simp add: update_bindings_def eq)
  show "count_where (binding (sn_subscription_id sn) (sn_node_id sn)) (subscription_nodes d) \<noteq> 0"
    using sn by (auto simp: count_where_0 binding_of)
qed

text \<open>Undisturbed, handling an error changes exactly the row it is about, in its three retry
  columns, as \<open>after_error\<close> says; a cancelled context changes nothing.\<close>

theorem handleSyncError_row:
  assumes "calm w" "bindings_wf (db w)" "sn \<in> set (subscription_nodes (db w))"
  shows "\<exists>w'. handleSyncError now sn e w = (Inr (), w') \<and> db w' = (db w)\<lparr>subscription_nodes :=
     update_where (\<lambda>x. x = sn) (after_error now e) (subscription_nodes (db w))\<rparr>"
proof -
  have ok: "retry_ok (after_error now e sn)"
    using assms(2,3) by (intro after_error_ok) (auto simp: bindings_wf_def list_all_iff)
  have upd: "\<exists>w'. tryE (UpdateRetry (sn_subscription_id sn) (sn_node_id sn) c t er) (\<lambda>_. returnE ()) w = (Inr (), w')
      \<and> db w' = (db w)\<lparr>subscription_nodes := update_where (\<lambda>x. x = sn) (after_error now e) (subscription_nodes (db w))\<rparr>"
    if "after_error now e sn = set_retry c t er sn" for c t er
  proof -
    have "retry_ok (set_retry c t er sn)"
      using ok that by simp
    note u = update_binding_row [where f = "set_retry c t er", OF assms(2,3) this]
    have "update_where (\<lambda>x. x = sn) (set_retry c t er) (subscription_nodes (db w))
        = update_where (\<lambda>x. x = sn) (after_error now e) (subscription_nodes (db w))"
      using that by (intro update_where_cong) simp
    then show ?thesis
      using u assms(1) by (simp add: UpdateRetry_def affects_def tryE_def bindE_def calm_stmts run_stmt_def
          returnE_def)
  qed
  have id: "update_where (\<lambda>x. x = sn) (after_error now e) (subscription_nodes (db w)) = subscription_nodes (db w)"
    if "is_ctx_err e"
    using that by (simp add: update_where_def after_error_def map_idI)
  show ?thesis
    using upd id by (simp add: handleSyncError_def after_error_def returnE_def split del: if_split split: if_split)
qed

text \<open>A run of failures of one binding, oldest first.\<close>

definition after_errors :: "(time \<times> error) list \<Rightarrow> subscription_node \<Rightarrow> subscription_node" where
  "after_errors fs sn = fold (\<lambda>(t, e). after_error t e) fs sn"

text \<open>The ladder ends: after \<open>n\<close> retryable failures in a row the counter is \<open>min n 10\<close>; up to
  the tenth the row waits for the interval of its rung, from the eleventh on it is parked.\<close>

theorem retry_ladder:
  assumes "list_all (\<lambda>(t, e). sync_retryable e \<and> \<not> is_ctx_err e) fs" "fs \<noteq> []" "sn_retry_count sn = 0"
  shows "sn_retry_count (after_errors fs sn) = min (int (length fs)) maxSyncRetries
    \<and> sn_retry_at (after_errors fs sn)
       = Some (if int (length fs) \<le> maxSyncRetries
               then CalculateRetryAt (fst (last fs)) (int (length fs) - 1) else parkedRetryAt)"
  using assms(1,2)
proof (induction fs rule: rev_induct)
  case Nil
  then show ?case by simp
next
  case (snoc f fs)
  obtain t e where f: "f = (t, e)"
    by (cases f)
  have step: "after_errors (fs @ [(t, e)]) sn = after_error t e (after_errors fs sn)"
    by (simp add: after_errors_def)
  have e: "sync_retryable e" "\<not> is_ctx_err e"
    using snoc.prems(1) f by simp_all
  have count: "sn_retry_count (after_errors fs sn) = min (int (length fs)) maxSyncRetries"
    using snoc by (cases "fs = []") (auto simp: after_errors_def assms(3) maxSyncRetries_def)
  show ?case
    using e count unfolding f step by (auto simp: after_error_def set_retry_def maxSyncRetries_def min_def)
qed

text \<open>A parked binding is out of the loop: no pass before the year 9999 picks it up.\<close>

theorem parked_not_due:
  assumes "sn_retry_at sn = Some parkedRetryAt" "now < parkedRetryAt"
  shows "\<not> due now sn"
  using assms truncate_minute_le [of now] by (simp add: due_def)

section \<open>Applying a plan\<close>

text \<open>What applying a plan does to the bindings: the nodes that stay are marked for an update, then
  the table of \<open>reconcile_rows\<close>.\<close>

definition apply_plan_rows :: "uint \<Rightarrow> uint list \<Rightarrow> subscription_node list \<Rightarrow> subscription_node list" where
  "apply_plan_rows s T rows =
     reconcile_rows s T (update_where (active_on s T) (set_sync_status SyncStatusPendingUpdate) rows)"

lemma mark_active_wf:
  assumes "bindings_wf d"
  shows "bindings_wf (d\<lparr>subscription_nodes := update_where (active_on s T)
    (set_sync_status SyncStatusPendingUpdate) (subscription_nodes d)\<rparr>)"
  by (rule set_sync_status_wf [OF assms])

lemma mark_active_run:
  fixes s :: uint and T :: "uint list"
  assumes "calm w" "bindings_wf (db w)"
  defines "d' \<equiv> (db w)\<lparr>subscription_nodes := update_where (active_on s T)
    (set_sync_status SyncStatusPendingUpdate) (subscription_nodes (db w))\<rparr>"
  shows "\<exists>w'. MarkActiveNodesPendingUpdate s T w = (Inr (), w') \<and> calm w' \<and> db w' = d'"
    and "\<exists>w'. tx_mark_active s T w = (Inr (), w') \<and> calm w' \<and> db w' = d'"
  using assms
  by (auto simp: MarkActiveNodesPendingUpdate_def tx_mark_active_def bindE_def calm_stmts run_stmt_def
      update_bindings_succeeds returnE_def update_where_def active_on_def)

lemma plan_targets_frame [simp]: "plan_targets p (d\<lparr>subscription_nodes := rows\<rparr>) = plan_targets p d"
  "active_plan_nodes p (d\<lparr>subscription_nodes := rows\<rparr>) = active_plan_nodes p d"
  by (simp_all add: plan_targets_def active_plan_nodes_def plan_node_rows_def cong: if_cong)

lemma active_ids_targets: "active_ids (active_plan_nodes p d) = plan_targets p d"
  by (simp add: active_ids_plan plan_targets_def)

lemma core_reading:
  assumes "calm w" "find_subscription s (db w) = Inr x" "s_status x \<noteq> SubscriptionStatusRevoked"
  shows "reconcilePlanNodesCore dbServicePlanStore s
      \<lparr>readSubscription = True, planID = 0, preloadedTargets = None, onNodeError = pol\<rparr> w
    = reconcilePlanNodesCore dbServicePlanStore s
      \<lparr>readSubscription = False, planID = s_plan_id x, preloadedTargets = None, onNodeError = pol\<rparr> (step_turn w)"
  using assms
  by (simp add: reconcilePlanNodesCore_def dbServicePlanStore_def GetByID_def)
    (simp add: bindE_def calm_runs returnE_def)

lemma reconcile_run:
  assumes w: "calm w" "bindings_wf (db w)" "find_subscription s (db w) = Inr x"
    "s_status x \<noteq> SubscriptionStatusRevoked" "distinct (plan_targets (s_plan_id x) (db w))"
  shows "\<exists>w'. reconcilePlanNodesLocked s w = (Inr (), w') \<and> calm w' \<and> trace w' = trace w
    \<and> db w' = (db w)\<lparr>subscription_nodes :=
        reconcile_rows s (plan_targets (s_plan_id x) (db w)) (subscription_nodes (db w))\<rparr>"
proof -
  have "\<exists>x \<in> set (subscriptions (db w)). s_id x = s"
    using find_subscription_ok [OF w(3)] by auto
  then have "lands (reconcilePlanNodesCore dbServicePlanStore s
      \<lparr>readSubscription = False, planID = s_plan_id x, preloadedTargets = None,
       onNodeError = background_policy\<rparr>) (step_turn w)
      (reconcile_rows s (plan_targets (s_plan_id x) (db w)) (subscription_nodes (db w)))"
    using background.core_implements_table [of "step_turn w" s "s_plan_id x"
      "\<lparr>readSubscription = False, planID = s_plan_id x, preloadedTargets = None,
       onNodeError = background_policy\<rparr>"] w by simp
  then show ?thesis
    unfolding reconcilePlanNodesLocked_def
    by (auto simp: lands_def bindE_def core_reading [OF w(1,3,4)] returnE_def)
qed

lemma ApplyPlanToSubscriptionInTx_run:
  assumes v: "calm v" "bindings_wf (db v)" and sub: "\<exists>x \<in> set (subscriptions (db v)). s_id x = s"
    and plan: "distinct (plan_targets p (db v))"
  shows "\<exists>v'. ApplyPlanToSubscriptionInTx s p v = (Inr (), v') \<and> calm v'
    \<and> db v' = (db v)\<lparr>subscription_nodes := apply_plan_rows s (plan_targets p (db v)) (subscription_nodes (db v))\<rparr>"
proof -
  let ?T = "plan_targets p (db v)"
  let ?d1 = "(db v)\<lparr>subscription_nodes := update_where (active_on s ?T)
    (set_sync_status SyncStatusPendingUpdate) (subscription_nodes (db v))\<rparr>"
  let ?o = "\<lparr>readSubscription = False, planID = p,
       preloadedTargets = Some (active_plan_nodes p (db v)), onNodeError = Some\<rparr>"
  obtain v2 where v2: "tx_mark_active s ?T (step_turn v) = (Inr (), v2)" "calm v2" "db v2 = ?d1"
    using mark_active_run(2) [of "step_turn v" s ?T] v by auto
  have "lands (reconcilePlanNodesCore txPlanStore s ?o) v2 (reconcile_rows s ?T (subscription_nodes ?d1))"
    using in_transaction.core_implements_table [of v2 s p ?o] v2 mark_active_wf [OF v(2)] sub plan by simp
  then obtain v' where v': "reconcilePlanNodesCore txPlanStore s ?o v2 = (Inr [], v')"
      "calm v'" "db v' = (db v)\<lparr>subscription_nodes := apply_plan_rows s ?T (subscription_nodes (db v))\<rparr>"
    using v2(3) by (auto simp: lands_def apply_plan_rows_def)
  have "ApplyPlanToSubscriptionInTx s p v = (Inr (), v')"
    using v v2 v'(1) in_transaction.load_plan_nodes [of v p]
    by (simp add: ApplyPlanToSubscriptionInTx_def bindE_def active_ids_targets returnE_def)
      (simp add: txPlanStore_def bindE_def returnE_def)
  then show ?thesis
    using v'(2,3) by blast
qed

text \<open>C6. The two ways to apply a plan, in the background and inside a payment's transaction, do the
  same to the bindings of a subscription that is not revoked: run undisturbed (no statement fails, no
  other session writes) from one and the same database with well-formed bindings, for the plan the
  subscription has and whose active nodes are listed once, both succeed and leave the same database,
  the one before with its bindings as the transition table says. (For a revoked subscription the two
  differ by design.)\<close>

theorem apply_plan_entry_points_agree:
  assumes "calm w" "calm v" "db v = db w" "bindings_wf (db w)" "find_subscription s (db w) = Inr x"
    "s_status x \<noteq> SubscriptionStatusRevoked" "distinct (plan_targets (s_plan_id x) (db w))"
  shows "\<exists>w' v'. applyPlanToSubscriptionLocked s w = (Inr (), w')
    \<and> ApplyPlanToSubscriptionInTx s (s_plan_id x) v = (Inr (), v') \<and> db v' = db w'
    \<and> db w' = (db w)\<lparr>subscription_nodes :=
        apply_plan_rows s (plan_targets (s_plan_id x) (db w)) (subscription_nodes (db w))\<rparr>"
proof -
  let ?T = "plan_targets (s_plan_id x) (db w)"
  let ?d1 = "(db w)\<lparr>subscription_nodes := update_where (active_on s ?T)
    (set_sync_status SyncStatusPendingUpdate) (subscription_nodes (db w))\<rparr>"
  let ?w2 = "step_turn (step_turn w)"
  obtain w3 where w3: "MarkActiveNodesPendingUpdate s ?T ?w2 = (Inr (), w3)" "calm w3" "db w3 = ?d1"
    using mark_active_run(1) [of ?w2 s ?T] assms by auto
  have fs: "find_subscription s ?d1 = Inr x"
    using assms(5) by (simp add: find_subscription_def)
  obtain w' where w': "reconcilePlanNodesLocked s w3 = (Inr (), w')"
      "db w' = ?d1\<lparr>subscription_nodes := reconcile_rows s ?T (subscription_nodes ?d1)\<rparr>"
    using reconcile_run [of w3 s x] w3 mark_active_wf [OF assms(4)] fs assms(6,7) by auto
  obtain v' where "ApplyPlanToSubscriptionInTx s (s_plan_id x) v = (Inr (), v')" "db v' = db w'"
    using ApplyPlanToSubscriptionInTx_run [of v s "s_plan_id x"] assms find_subscription_ok [OF assms(5)] w'(2)
    by (auto simp: apply_plan_rows_def)
  moreover have "applyPlanToSubscriptionLocked s w = (Inr (), w')"
    using assms w3 w'(1)
    by (simp add: applyPlanToSubscriptionLocked_def bindE_def GetByID_def GetNodesByPlanID_def calm_runs
        active_ids_targets)
  ultimately show ?thesis
    using w'(2) by (simp add: apply_plan_rows_def)
qed

section \<open>Convergence\<close>

text \<open>Panels that accept every call, with their clients registered and no lock in the way.\<close>

definition healthy :: "node_env \<Rightarrow> bool" where
  "healthy env \<longleftrightarrow> (\<forall>tr i c p. ne_answer env tr i c p = None) \<and> (\<forall>i. ne_provision env i)
     \<and> (\<forall>tr i m. \<exists>r. ne_profile env tr i m = Inr r) \<and> (\<forall>tr i. ne_lock env tr i = None)"

definition served :: "node_env \<Rightarrow> uint \<Rightarrow> bool" where
  "served env i \<longleftrightarrow> (case node_type_of env i of None \<Rightarrow> False | Some ty \<Rightarrow> supported ty)"

definition settle :: "subscription_node \<Rightarrow> subscription_node list \<Rightarrow> subscription_node list" where
  "settle sn rows =
     (if sn_status sn = SyncStatusPendingRemove then delete_where (\<lambda>x. x = sn) rows
      else update_where (\<lambda>x. x = sn) (set_sync_status SyncStatusActive) rows)"

text \<open>What the panels were told: a create or update call for the subscription's own client, under
  the plan's traffic limit; a delete call, due when the node is still in service.\<close>

definition provisioned :: "subscription \<Rightarrow> plan \<Rightarrow> uint \<Rightarrow> effect list \<Rightarrow> bool" where
  "provisioned sub pl i es \<longleftrightarrow> list_ex (\<lambda>e. case e of
       EffVpn c j p \<Rightarrow> (c = VpnCreate \<or> c = VpnUpdate) \<and> j = i \<and> provision_of sub p
         \<and> vp_traffic_bytes p = pl_traffic_limit pl
     | _ \<Rightarrow> False) es"

definition removed_from :: "subscription \<Rightarrow> db \<Rightarrow> uint \<Rightarrow> effect list \<Rightarrow> bool" where
  "removed_from sub d i es \<longleftrightarrow> (case find_node i d of
       Inl _ \<Rightarrow> True
     | Inr n \<Rightarrow> n_is_active n \<longrightarrow> list_ex (\<lambda>e. case e of
           EffVpn c j p \<Rightarrow> c = VpnDelete \<and> j = i \<and> provision_of sub p
         | _ \<Rightarrow> False) es)"

definition told :: "subscription \<Rightarrow> plan \<Rightarrow> db \<Rightarrow> effect list \<Rightarrow> subscription_node \<Rightarrow> bool" where
  "told sub pl d es sn \<longleftrightarrow>
     (if sn_status sn = SyncStatusPendingRemove then removed_from sub d (sn_node_id sn) es
      else provisioned sub pl (sn_node_id sn) es)"

lemma told_more: "told sub pl d es sn \<Longrightarrow> told sub pl d (as @ es @ bs) sn"
  by (auto simp: told_def provisioned_def removed_from_def split: sum.splits)

lemma told_frame [simp]: "told sub pl (d\<lparr>subscription_nodes := rows\<rparr>) = told sub pl d"
  by (intro ext) (simp add: told_def removed_from_def find_node_def)

lemma removed_frame [simp]: "removed_from sub (d\<lparr>subscription_nodes := rows\<rparr>) = removed_from sub d"
  by (intro ext) (simp add: removed_from_def find_node_def)

text \<open>A step that gives its binding what it waits for: the row, and the call to its panel.\<close>

definition settles :: "subscription \<Rightarrow> plan \<Rightarrow> (world, unit) op \<Rightarrow> subscription_node \<Rightarrow> world \<Rightarrow> bool" where
  "settles sub pl m sn w \<longleftrightarrow> (\<exists>w' es. m w = (Inr (), w') \<and> calm w'
     \<and> db w' = (db w)\<lparr>subscription_nodes := settle sn (subscription_nodes (db w))\<rparr>
     \<and> trace w' = trace w @ es \<and> told sub pl (db w) es sn)"

text \<open>Read-only operations that succeed when undisturbed.\<close>

definition reads_ok :: "(world, 'a) op \<Rightarrow> world \<Rightarrow> bool" where
  "reads_ok m w \<longleftrightarrow> (\<exists>x w'. m w = (Inr x, w') \<and> calm w' \<and> db w' = db w)"

lemma reads_returnE [simp]: "calm w \<Longrightarrow> reads_ok (returnE x) w"
  by (simp add: reads_ok_def returnE_def)

lemma reads_bindE:
  assumes "reads_ok m w" "\<And>x w'. calm w' \<Longrightarrow> db w' = db w \<Longrightarrow> reads_ok (k x) w'"
  shows "reads_ok (bindE m k) w"
  using assms by (fastforce simp: reads_ok_def bindE_def)

lemma referrerComment_reads: "calm w \<Longrightarrow> reads_ok (referrerComment sub) w"
  by (auto simp: referrerComment_def reads_ok_def tryE_def GetInviteByCode_def GetByTelegramID_def calm_runs
      returnE_def or_not_found_def split: option.splits)

lemma buildNodeProvision_reads:
  assumes "calm w" "healthy env" "find_plan (s_plan_id sub) (db w) = Inr pl"
  shows "reads_ok (buildNodeProvision env now sub i pol) w"
proof -
  have prof: "reads_ok (panelRenewProfile env i m) v" if "calm v" for m v
  proof -
    obtain r where "ne_profile env (trace v) i m = Inr r"
      using assms(2) unfolding healthy_def by blast
    with that show ?thesis
      by (simp add: panelRenewProfile_def tryE_def profileE_def reads_ok_def returnE_def)
  qed
  have renew: "reads_ok (renew_provision env i plan m pol q) v" if "calm v" for plan m q v
    using that prof by (auto simp: renew_provision_def intro!: reads_bindE split: profile_policy.split)
  have "reads_ok (GetPlanByID (s_plan_id sub)) w"
    using assms by (auto simp: GetPlanByID_def reads_ok_def calm_runs)
  then show ?thesis
    unfolding buildNodeProvision_def
    by (intro reads_bindE) (auto intro!: reads_bindE referrerComment_reads renew)
qed

lemma buildNodeProvision_builds:
  assumes w: "calm w" "healthy env" "find_plan (s_plan_id sub) (db w) = Inr pl"
  shows "\<exists>p v. buildNodeProvision env now sub i pol w = (Inr p, v) \<and> calm v \<and> db v = db w
    \<and> trace v = trace w \<and> provision_of sub p \<and> vp_traffic_bytes p = pl_traffic_limit pl"
proof -
  obtain p v where b: "buildNodeProvision env now sub i pol w = (Inr p, v)" "calm v" "db v = db w"
    using buildNodeProvision_reads [OF w, of now i pol] unfolding reads_ok_def by blast
  moreover have "trace v = trace w"
    using emits_run [OF buildNodeProvision_emits [of "\<lambda>_. False"] b(1)] by (auto simp: list_all_iff)
  moreover have "provision_of sub p \<and> vp_traffic_bytes p = pl_traffic_limit pl"
    using b(1) by (rule buildNodeProvision_ok) (use w in \<open>auto simp: GetPlanByID_def calm_runs\<close>)
  ultimately show ?thesis
    by blast
qed

lemma vpnE_healthy:
  assumes "healthy env" "calm w"
  shows "\<exists>w'. vpnE env c i p w = (Inr (), w') \<and> calm w' \<and> db w' = db w \<and> trace w' = trace w @ [EffVpn c i p]"
  using assms by (simp add: vpnE_def healthy_def)

lemma set_active_settles:
  assumes "calm v" "db v = db w" "bindings_wf (db w)" "sn \<in> set (subscription_nodes (db w))"
    "sn_status sn \<noteq> SyncStatusPendingRemove"
  shows "\<exists>w'. set_status_of sn SyncStatusActive v = (Inr (), w') \<and> calm w' \<and> trace w' = trace v
    \<and> db w' = (db w)\<lparr>subscription_nodes := settle sn (subscription_nodes (db w))\<rparr>"
proof -
  have "retry_ok (set_sync_status SyncStatusActive sn)"
    by (simp add: retry_ok_def set_sync_status_def)
  note u = update_binding_row [where f = "set_sync_status SyncStatusActive", OF assms(3,4) this]
  show ?thesis
    using u assms by (simp add: set_status_of_def UpdateSubscriptionNodeStatus_def affects_def bindE_def
        calm_stmts run_stmt_def returnE_def settle_def)
qed

lemma processing_settles:
  assumes w: "calm w" "bindings_wf (db w)" "sn \<in> set (subscription_nodes (db w))"
    and env: "healthy env" "find_plan (s_plan_id sub) (db w) = Inr pl"
    and ns: "sn_status sn \<noteq> SyncStatusPendingRemove"
  shows "settles sub pl (processPendingAdd env now sn sub) sn w"
    and "settles sub pl (processPendingUpdate env now sn sub) sn w"
proof -
  note build = buildNodeProvision_builds [OF w(1) env, of now "sn_node_id sn"]
  have pr: "ne_provision env i" for i
    using env(1) by (simp add: healthy_def)
  show "settles sub pl (processPendingAdd env now sn sub) sn w"
  proof -
    obtain p v where b: "buildNodeProvision env now sub (sn_node_id sn) ProfileDefault w = (Inr p, v)" "calm v"
        "db v = db w" "trace v = trace w" "provision_of sub p" "vp_traffic_bytes p = pl_traffic_limit pl"
      using build by blast
    obtain v1 where v1: "vpnE env VpnCreate (sn_node_id sn) p v = (Inr (), v1)" "calm v1" "db v1 = db v"
        "trace v1 = trace v @ [EffVpn VpnCreate (sn_node_id sn) p]"
      using vpnE_healthy [OF env(1) b(2)] by blast
    obtain v2 where "set_status_of sn SyncStatusActive v1 = (Inr (), v2)" "calm v2" "trace v2 = trace v1"
      "db v2 = (db w)\<lparr>subscription_nodes := settle sn (subscription_nodes (db w))\<rparr>"
      using set_active_settles [of v1 w sn] v1 b w ns by auto
    then show ?thesis
      using b v1 pr ns
      by (simp add: processPendingAdd_def settles_def Let_def tryE_def told_def provisioned_def)
  qed
  show "settles sub pl (processPendingUpdate env now sn sub) sn w"
  proof -
    obtain p v where b: "buildNodeProvision env now sub (sn_node_id sn) ProfilePreserve w = (Inr p, v)" "calm v"
        "db v = db w" "trace v = trace w" "provision_of sub p" "vp_traffic_bytes p = pl_traffic_limit pl"
      using build by blast
    obtain v1 where v1: "vpnE env VpnUpdate (sn_node_id sn) p v = (Inr (), v1)" "calm v1" "db v1 = db v"
        "trace v1 = trace v @ [EffVpn VpnUpdate (sn_node_id sn) p]"
      using vpnE_healthy [OF env(1) b(2)] by blast
    obtain v2 where v2: "vpnE env VpnResetTraffic (sn_node_id sn) p v1 = (Inr (), v2)" "calm v2" "db v2 = db v1"
        "trace v2 = trace v1 @ [EffVpn VpnResetTraffic (sn_node_id sn) p]"
      using vpnE_healthy [OF env(1) v1(2)] by blast
    obtain v3 where "set_status_of sn SyncStatusActive v2 = (Inr (), v3)" "calm v3" "trace v3 = trace v2"
      "db v3 = (db w)\<lparr>subscription_nodes := settle sn (subscription_nodes (db w))\<rparr>"
      using set_active_settles [of v2 w sn] v1 v2 b w ns by auto
    then show ?thesis
      using b v1 v2 pr ns
      by (simp add: processPendingUpdate_def settles_def Let_def tryE_def told_def provisioned_def)
  qed
qed

lemma drop_settles:
  assumes "calm v" "db v = db w" "bindings_wf (db w)" "sn \<in> set (subscription_nodes (db w))"
    "sn_status sn = SyncStatusPendingRemove"
  shows "\<exists>w'. drop_binding sn v = (Inr (), w') \<and> calm w' \<and> trace w' = trace v
    \<and> db w' = (db w)\<lparr>subscription_nodes := settle sn (subscription_nodes (db w))\<rparr>"
proof -
  let ?P = "binding (sn_subscription_id sn) (sn_node_id sn)"
  have "?P x \<longleftrightarrow> x = sn" if "x \<in> set (subscription_nodes (db w))" for x
    using assms(3,4) distinct_key_eq [of sn_key "subscription_nodes (db w)" x sn] that
    by (auto simp: bindings_wf_def binding_of)
  then have "delete_where ?P (subscription_nodes (db w)) = delete_where (\<lambda>x. x = sn) (subscription_nodes (db w))"
    by (simp add: delete_where_def cong: filter_cong)
  moreover have "count_where ?P (subscription_nodes (db w)) \<noteq> 0"
    using assms(4) by (auto simp: count_where_0 binding_of)
  ultimately show ?thesis
    using assms by (simp add: drop_binding_def DeleteSubscriptionNode_def affects_def bindE_def calm_runs
        delete_bindings_def returnE_def settle_def)
qed

lemma remove_settles:
  assumes w: "calm w" "bindings_wf (db w)" "sn \<in> set (subscription_nodes (db w))"
    and env: "healthy env" and st: "sn_status sn = SyncStatusPendingRemove"
  shows "settles sub pl (processPendingRemove env now sn sub) sn w"
proof -
  have pr: "ne_provision env i" for i
    using env by (simp add: healthy_def)
  have drop: "\<exists>w'. drop_binding sn v = (Inr (), w') \<and> calm w' \<and> trace w' = trace v
    \<and> db w' = (db w)\<lparr>subscription_nodes := settle sn (subscription_nodes (db w))\<rparr>"
    if "calm v" "db v = db w" for v
    using drop_settles that w st by blast
  obtain v1 where v1: "vpnE env VpnDelete (sn_node_id sn) (removal_provision sub) (step_turn w) = (Inr (), v1)"
      "calm v1" "db v1 = db w" "trace v1 = trace w @ [EffVpn VpnDelete (sn_node_id sn) (removal_provision sub)]"
    using vpnE_healthy [OF env calm_step [OF w(1)], of VpnDelete "sn_node_id sn" "removal_provision sub"]
    by auto
  show ?thesis
    using drop [of "step_turn w"] drop [OF v1(2,3)] v1 pr w(1) st
    by (auto simp: settles_def processPendingRemove_def tryE_def GetNodeByID_def calm_runs told_def removed_from_def
        find_node_def split: option.splits)
qed

lemma attempt_settles: "settles sub pl m sn w \<Longrightarrow> \<exists>w' es. attempt pol m w = (Inr [], w') \<and> calm w'
    \<and> db w' = (db w)\<lparr>subscription_nodes := settle sn (subscription_nodes (db w))\<rparr>
    \<and> trace w' = trace w @ es \<and> told sub pl (db w) es sn"
  by (auto simp: settles_def attempt_def tryE_def returnE_def)

lemma sync_node_settles:
  assumes w: "calm w" "bindings_wf (db w)" "sn \<in> set (subscription_nodes (db w))"
    and env: "healthy env" "find_plan (s_plan_id sub) (db w) = Inr pl" "served env (sn_node_id sn)"
    and st: "s_status sub \<noteq> SubscriptionStatusRevoked" "is_pending sn"
  shows "\<exists>w' es. sync_node env now sub sn w = (Inr [], w') \<and> calm w'
    \<and> db w' = (db w)\<lparr>subscription_nodes := settle sn (subscription_nodes (db w))\<rparr>
    \<and> trace w' = trace w @ es \<and> told sub pl (db w) es sn"
proof -
  obtain ty where ty: "node_type_of env (sn_node_id sn) = Some ty" "supported ty"
    using env(3) by (auto simp: served_def split: option.splits)
  consider "sn_status sn = SyncStatusPendingAdd" | "sn_status sn = SyncStatusPendingUpdate"
    | "sn_status sn = SyncStatusPendingRemove"
    using st(2) by (cases "sn_status sn") (simp_all add: is_pending_def)
  then show ?thesis
  proof cases
    case 1
    then show ?thesis
      using attempt_settles [OF processing_settles(1) [OF w env(1,2)]] st(1) ty
      by (simp add: sync_node_def dispatch_node_def)
  next
    case 2
    then show ?thesis
      using attempt_settles [OF processing_settles(2) [OF w env(1,2)]] st(1) ty
      by (simp add: sync_node_def dispatch_node_def)
  next
    case 3
    then show ?thesis
      using attempt_settles [OF remove_settles [OF w env(1) 3]] st(1) ty
      by (simp add: sync_node_def dispatch_node_def)
  qed
qed

lemma settle_set:
  assumes "x \<noteq> sn"
  shows "x \<in> set rows \<Longrightarrow> x \<in> set (settle sn rows)"
  using assms by (auto simp: settle_def delete_where_def set_update_where)

lemma settle_wf:
  assumes "bindings_wf d"
  shows "bindings_wf (d\<lparr>subscription_nodes := settle sn (subscription_nodes d)\<rparr>)"
proof (cases "sn_status sn = SyncStatusPendingRemove")
  case True
  then show ?thesis
    using bindings_st.delete_R [of d "\<lambda>x. x = sn"] assms
    by (simp add: settle_def bindings_keep_def delete_bindings_def)
next
  case False
  then show ?thesis
    using set_sync_status_wf [OF assms] by (simp add: settle_def)
qed

lemma collect_settles:
  assumes "calm w" "bindings_wf (db w)" "distinct L" "set L \<subseteq> set (subscription_nodes (db w))"
    and env: "healthy env" "find_plan (s_plan_id sub) (db w) = Inr pl"
    and st: "s_status sub \<noteq> SubscriptionStatusRevoked"
    and L: "\<And>sn. sn \<in> set L \<Longrightarrow> is_pending sn \<and> served env (sn_node_id sn)"
  shows "\<exists>w' es. collectE (sync_node env now sub) L w = (Inr [], w') \<and> calm w'
    \<and> db w' = (db w)\<lparr>subscription_nodes := fold settle L (subscription_nodes (db w))\<rparr>
    \<and> trace w' = trace w @ es \<and> (\<forall>sn \<in> set L. told sub pl (db w) es sn)"
  using assms(1-4) env(2) L
proof (induction L arbitrary: w)
  case Nil
  then show ?case by (simp add: returnE_def)
next
  case (Cons sn L)
  obtain w1 es1 where w1: "sync_node env now sub sn w = (Inr [], w1)" "calm w1"
      "db w1 = (db w)\<lparr>subscription_nodes := settle sn (subscription_nodes (db w))\<rparr>"
      "trace w1 = trace w @ es1" "told sub pl (db w) es1 sn"
    using sync_node_settles [of w sn env sub pl now] Cons.prems env(1) st by auto
  have "\<exists>w' es. collectE (sync_node env now sub) L w1 = (Inr [], w') \<and> calm w'
    \<and> db w' = (db w1)\<lparr>subscription_nodes := fold settle L (subscription_nodes (db w1))\<rparr>
    \<and> trace w' = trace w1 @ es \<and> (\<forall>sn \<in> set L. told sub pl (db w1) es sn)"
  proof (rule Cons.IH)
    show "bindings_wf (db w1)"
      using settle_wf Cons.prems(2) w1(3) by simp
    show "set L \<subseteq> set (subscription_nodes (db w1))"
      using Cons.prems(3,4) w1(3) by (auto intro: settle_set)
    show "find_plan (s_plan_id sub) (db w1) = Inr pl"
      using Cons.prems(5) w1(3) by (simp add: find_plan_def)
  qed (use w1 Cons.prems in auto)
  then obtain w' es2 where w': "collectE (sync_node env now sub) L w1 = (Inr [], w')" "calm w'"
      "db w' = (db w)\<lparr>subscription_nodes := fold settle (sn # L) (subscription_nodes (db w))\<rparr>"
      "trace w' = trace w @ es1 @ es2" "\<forall>x \<in> set L. told sub pl (db w) es2 x"
    using w1(3,4) by auto
  have "\<forall>x \<in> set (sn # L). told sub pl (db w) (es1 @ es2) x"
    using told_more [OF w1(5), of "[]" es2] told_more [of sub pl "db w" es2 _ es1 "[]"] w'(5) by simp
  with w1(1) w' show ?case
    by (auto simp: bindE_def returnE_def)
qed

lemma in_settled:
  assumes "distinct L" "set L \<subseteq> set rows" "\<And>sn. sn \<in> set L \<Longrightarrow> sn_status sn \<noteq> SyncStatusActive"
    and "x \<in> set (fold settle L rows)"
  shows "(x \<in> set rows \<and> x \<notin> set L)
    \<or> (\<exists>sn \<in> set L. sn_status sn \<noteq> SyncStatusPendingRemove \<and> x = set_sync_status SyncStatusActive sn)"
  using assms
proof (induction L arbitrary: rows)
  case Nil
  then show ?case by simp
next
  case (Cons sn L)
  have "set L \<subseteq> set (settle sn rows)"
    using Cons.prems(1,2) by (auto intro: settle_set)
  then have "(x \<in> set (settle sn rows) \<and> x \<notin> set L)
    \<or> (\<exists>sn \<in> set L. sn_status sn \<noteq> SyncStatusPendingRemove \<and> x = set_sync_status SyncStatusActive sn)"
    using Cons.prems by (intro Cons.IH) auto
  then show ?case
    by (auto simp: settle_def delete_where_def set_update_where split: if_splits)
qed

lemma settled_keeps:
  assumes "distinct L" "set L \<subseteq> set rows" "x \<in> set rows" "x \<notin> set L"
  shows "x \<in> set (fold settle L rows)"
  using assms
proof (induction L arbitrary: rows)
  case (Cons sn L)
  show ?case
    using Cons.prems by (simp, intro Cons.IH) (auto intro: settle_set)
qed simp

lemma settled_activates:
  assumes "distinct L" "set L \<subseteq> set rows" "sn \<in> set L" "sn_status sn \<noteq> SyncStatusPendingRemove"
    and "\<And>sn. sn \<in> set L \<Longrightarrow> sn_status sn \<noteq> SyncStatusActive"
  shows "set_sync_status SyncStatusActive sn \<in> set (fold settle L rows)"
  using assms
proof (induction L arbitrary: rows)
  case (Cons a L)
  have sub: "set L \<subseteq> set (settle a rows)"
    using Cons.prems(1,2) by (auto intro: settle_set)
  show ?case
  proof (cases "sn = a")
    case True
    have "set_sync_status SyncStatusActive sn \<in> set (settle a rows)"
      using True Cons.prems(2,4) by (auto simp: settle_def set_update_where)
    moreover have "set_sync_status SyncStatusActive sn \<notin> set L"
      using Cons.prems(5) [of "set_sync_status SyncStatusActive sn"] by (auto simp: set_sync_status_def)
    ultimately show ?thesis
      using settled_keeps [OF _ sub] Cons.prems(1) by simp
  next
    case False
    then show ?thesis
      using Cons.prems sub by (simp, intro Cons.IH) auto
  qed
qed simp

text \<open>The subscription is in step: exactly the plan's nodes are bound, all of them provisioned.\<close>

definition in_step :: "uint \<Rightarrow> uint list \<Rightarrow> db \<Rightarrow> bool" where
  "in_step s T d \<longleftrightarrow> list_all (\<lambda>sn. sn_status sn = SyncStatusActive) (rows_of s d)
     \<and> set (map sn_node_id (rows_of s d)) = set T"

definition retry_passed :: "time \<Rightarrow> subscription_node \<Rightarrow> bool" where
  "retry_passed now sn \<longleftrightarrow> (case sn_retry_at sn of None \<Rightarrow> True | Some t \<Rightarrow> t \<le> truncate_minute now)"

lemma due_passed: "due now sn \<longleftrightarrow> is_pending sn \<and> retry_passed now sn"
  by (simp add: due_def retry_passed_def)

lemma not_pending: "\<not> is_pending sn \<longleftrightarrow> sn_status sn = SyncStatusActive"
  by (cases "sn_status sn") (simp_all add: is_pending_def)

lemma settled_in_step:
  fixes R :: "subscription_node list" and now :: time and s :: uint
  assumes keys: "distinct (map sn_key R)"
    and wanted: "\<And>x. x \<in> set R \<Longrightarrow> sn_subscription_id x = s \<Longrightarrow> wanted (sn_status x) \<longleftrightarrow> sn_node_id x \<in> set T"
    and covers: "\<And>n. n \<in> set T \<Longrightarrow> \<exists>x \<in> set R. sn_key x = (s, n)"
    and passed: "\<And>x. x \<in> set R \<Longrightarrow> sn_subscription_id x = s \<Longrightarrow> retry_passed now x"
  defines "L \<equiv> filter (\<lambda>sn. sn_subscription_id sn = s \<and> due now sn) R"
  shows "in_step s T (d\<lparr>subscription_nodes := fold settle L R\<rparr>)"
proof -
  have L: "distinct L" "set L \<subseteq> set R" "\<And>sn. sn \<in> set L \<Longrightarrow> sn_status sn \<noteq> SyncStatusActive"
    using keys by (auto simp: L_def due_def is_pending_def distinct_map)
  have 1: "sn_status x = SyncStatusActive \<and> sn_node_id x \<in> set T"
    if x: "x \<in> set (fold settle L R)" "sn_subscription_id x = s" for x
  proof -
    consider "x \<in> set R" "x \<notin> set L"
      | sn where "sn \<in> set L" "sn_status sn \<noteq> SyncStatusPendingRemove" "x = set_sync_status SyncStatusActive sn"
      using in_settled [OF L x(1)] by blast
    then show ?thesis
    proof cases
      case 1
      then have "sn_status x = SyncStatusActive"
        using passed [OF 1(1) x(2)] x(2) by (simp add: L_def due_passed not_pending)
      then show ?thesis
        using wanted [OF 1(1) x(2)] by (simp add: wanted_def)
    next
      case 2
      then have "sn \<in> set R" "sn_subscription_id sn = s"
        by (simp_all add: L_def)
      then show ?thesis
        using wanted [of sn] 2 by (simp add: wanted_def set_sync_status_def)
    qed
  qed
  have 2: "\<exists>x \<in> set (fold settle L R). sn_key x = (s, n)" if n: "n \<in> set T" for n
  proof -
    obtain sn where sn: "sn \<in> set R" "sn_key sn = (s, n)"
      using covers [OF n] by blast
    then have w: "sn_status sn \<noteq> SyncStatusPendingRemove"
      using wanted [of sn] n by (simp add: sn_key_def wanted_def)
    show ?thesis
    proof (cases "sn \<in> set L")
      case True
      then show ?thesis
        using settled_activates [OF L(1,2) True w L(3)] sn(2)
        by (intro bexI [of _ "set_sync_status SyncStatusActive sn"]) simp_all
    next
      case False
      then show ?thesis
        using settled_keeps [OF L(1,2) sn(1) False] sn(2) by blast
    qed
  qed
  have "set (map sn_node_id (rows_of s (d\<lparr>subscription_nodes := fold settle L R\<rparr>))) = set T"
    using 1 2 by (fastforce simp: rows_of_def sn_key_def image_iff)
  then show ?thesis
    using 1 by (simp add: in_step_def rows_of_def list_all_iff)
qed

lemma SyncSubscription_run:
  fixes now :: time and s :: uint
  assumes w: "calm w" "bindings_wf (db w)" and env: "healthy env"
    and sub: "find_subscription s (db w) = Inr x" "s_status x \<noteq> SubscriptionStatusRevoked"
    and plan: "find_plan (s_plan_id x) (db w) = Inr pl"
    and served: "\<And>sn. sn \<in> set (rows_of s (db w)) \<Longrightarrow> served env (sn_node_id sn)"
  defines "L \<equiv> filter (\<lambda>sn. sn_subscription_id sn = s \<and> due now sn) (subscription_nodes (db w))"
  shows "\<exists>w' es. SyncSubscription env now s w = (Inr (), w')
    \<and> db w' = (db w)\<lparr>subscription_nodes := fold settle L (subscription_nodes (db w))\<rparr>
    \<and> trace w' = trace w @ es \<and> (\<forall>sn \<in> set L. told x pl (db w) es sn)"
proof -
  have lock: "ne_lock env tr i = None" for tr i
    using env by (simp add: healthy_def)
  let ?v = "step_turn (step_turn w)"
  have "\<exists>w' es. collectE (sync_node env now x) L ?v = (Inr [], w') \<and> calm w'
    \<and> db w' = (db ?v)\<lparr>subscription_nodes := fold settle L (subscription_nodes (db ?v))\<rparr>
    \<and> trace w' = trace ?v @ es \<and> (\<forall>sn \<in> set L. told x pl (db ?v) es sn)"
  proof (rule collect_settles [OF _ _ _ _ env _ sub(2)])
    show "distinct L"
      using w(2) by (simp add: bindings_wf_def distinct_map L_def)
    show "is_pending sn \<and> served env (sn_node_id sn)" if "sn \<in> set L" for sn
      using that served [of sn] by (simp add: due_def rows_of_def L_def)
  qed (use w plan in \<open>auto simp: L_def\<close>)
  then obtain w' es where r: "collectE (sync_node env now x) L ?v = (Inr [], w')"
      "db w' = (db w)\<lparr>subscription_nodes := fold settle L (subscription_nodes (db w))\<rparr>"
      "trace w' = trace w @ es" "\<forall>sn \<in> set L. told x pl (db w) es sn"
    by auto
  show ?thesis
  proof (cases "L = []")
    case True
    then show ?thesis
      using w(1) sub(1) lock
      by (auto simp: SyncSubscription_def with_lock_def bindE_def tryE_def calm_runs GetByID_def
          GetPendingBySubscriptionID_def returnE_def L_def)
  next
    case False
    have "SyncSubscription env now s w = (Inr (), w')"
      using w(1) sub(1) lock r(1) False unfolding L_def
      by (auto simp: SyncSubscription_def with_lock_def bindE_def tryE_def calm_runs GetByID_def
          GetPendingBySubscriptionID_def returnE_def syncNodes_def)
    then show ?thesis
      using r(2-4) by blast
  qed
qed

text \<open>What the due bindings were told, read off the table the plan gives: every planned node that
  was not already in step was provisioned, every stale binding was removed from its panel.\<close>

lemma told_after_reconcile:
  fixes rows :: "subscription_node list" and s :: uint and T :: "uint list" and now :: time
  defines "R \<equiv> reconcile_rows s T rows"
  assumes told: "\<And>y. y \<in> set R \<Longrightarrow> sn_subscription_id y = s \<Longrightarrow> due now y \<Longrightarrow> told x pl d es y"
    and passed: "\<And>y. y \<in> set R \<Longrightarrow> sn_subscription_id y = s \<Longrightarrow> retry_passed now y"
  shows "n \<in> set T \<Longrightarrow> provisioned x pl n es
      \<or> (\<exists>sn \<in> set rows. sn_key sn = (s, n) \<and> sn_status sn = SyncStatusActive)"
    and "sn \<in> set rows \<Longrightarrow> sn_subscription_id sn = s \<Longrightarrow> sn_node_id sn \<notin> set T
      \<Longrightarrow> removed_from x d (sn_node_id sn) es"
proof -
  have told': "told x pl d es y" if "y \<in> set R" "sn_subscription_id y = s" "sn_status y \<noteq> SyncStatusActive" for y
    using told [OF that(1,2)] passed [OF that(1,2)] that(3) not_pending [of y] by (simp add: due_passed)
  {
    assume n: "n \<in> set T"
    show "provisioned x pl n es \<or> (\<exists>sn \<in> set rows. sn_key sn = (s, n) \<and> sn_status sn = SyncStatusActive)"
    proof (cases "list_ex (binding s n) rows")
      case True
      then obtain sn where sn: "sn \<in> set rows" "sn_subscription_id sn = s" "sn_node_id sn = n"
        by (auto simp: list_ex_iff binding_def)
      let ?y = "reconcile_row s T sn"
      have y: "?y \<in> set R" "sn_subscription_id ?y = s" "sn_node_id ?y = n"
          "sn_status ?y \<noteq> SyncStatusPendingRemove" "sn_status ?y = SyncStatusActive \<Longrightarrow> ?y = sn"
        using sn n by (auto simp: R_def reconcile_rows_def reconcile_row_def set_sync_status_def)
      show ?thesis
        using told' [OF y(1,2)] y(3-5) sn by (cases "sn_status ?y = SyncStatusActive") (auto simp: told_def sn_key_def)
    next
      case False
      let ?y = "fresh_binding s n"
      have y: "?y \<in> set R" "sn_subscription_id ?y = s" "sn_node_id ?y = n" "sn_status ?y = SyncStatusPendingAdd"
        using False n by (auto simp: R_def reconcile_rows_def missing_targets_def fresh_binding_def)
      show ?thesis
        using told' [OF y(1,2)] y(3,4) by (simp add: told_def)
    qed
  }
  {
    assume sn: "sn \<in> set rows" "sn_subscription_id sn = s" "sn_node_id sn \<notin> set T"
    let ?y = "reconcile_row s T sn"
    have y: "?y \<in> set R" "sn_subscription_id ?y = s" "sn_node_id ?y = sn_node_id sn"
        "sn_status ?y = SyncStatusPendingRemove"
      using sn by (auto simp: R_def reconcile_rows_def reconcile_row_def set_sync_status_def)
    show "removed_from x d (sn_node_id sn) es"
      using told' [OF y(1,2)] y(3,4) by (simp add: told_def)
  }
qed

text \<open>C1. Convergence. Take a subscription that is not revoked and whose plan exists, in a database
  whose bindings are well formed. Suppose nothing else writes and no statement fails, the panels
  accept every call and the locks are free, every node that is bound or planned is known to the
  service and of a type it drives, and no binding of the subscription is still waiting for its retry
  time. Then reconciling and synchronising both succeed, and afterwards the subscription is bound to
  exactly the active nodes of its plan, each marked active. On the way every planned node whose
  binding was not active already got a create or update call for the subscription's own client under
  the plan's traffic limit, and every bound node the plan does not have got a delete call for that
  client if it is still an active node.\<close>

theorem sync_converges:
  assumes w: "calm w" "bindings_wf (db w)" and env: "healthy env"
    and sub: "find_subscription s (db w) = Inr x" "s_status x \<noteq> SubscriptionStatusRevoked"
    and plan: "find_plan (s_plan_id x) (db w) = Inr pl" "distinct (plan_targets (s_plan_id x) (db w))"
    and served: "list_all (served env) (map sn_node_id (rows_of s (db w)) @ plan_targets (s_plan_id x) (db w))"
    and passed: "list_all (retry_passed now) (rows_of s (db w))"
  shows "\<exists>w1 w2 es. ReconcilePlanNodes env s w = (Inr (), w1) \<and> SyncSubscription env now s w1 = (Inr (), w2)
    \<and> in_step s (plan_targets (s_plan_id x) (db w)) (db w2) \<and> trace w2 = trace w @ es
    \<and> list_all (\<lambda>n. provisioned x pl n es
         \<or> list_ex (\<lambda>sn. sn_node_id sn = n \<and> sn_status sn = SyncStatusActive) (rows_of s (db w)))
        (plan_targets (s_plan_id x) (db w))
    \<and> list_all (\<lambda>sn. sn_node_id sn \<in> set (plan_targets (s_plan_id x) (db w))
         \<or> removed_from x (db w) (sn_node_id sn) es) (rows_of s (db w))"
proof -
  let ?T = "plan_targets (s_plan_id x) (db w)" and ?rows = "subscription_nodes (db w)"
  let ?R = "reconcile_rows s ?T ?rows"
  let ?L = "filter (\<lambda>sn. sn_subscription_id sn = s \<and> due now sn) ?R"
  obtain w1 where w1: "reconcilePlanNodesLocked s w = (Inr (), w1)" "calm w1" "trace w1 = trace w"
      "db w1 = (db w)\<lparr>subscription_nodes := ?R\<rparr>"
    using reconcile_run [OF w sub plan(2)] by blast
  have rec: "ReconcilePlanNodes env s w = (Inr (), w1)"
    using w1(1) env by (simp add: ReconcilePlanNodes_def with_lock_def healthy_def)
  have "bindings_keep (db w) (db w1)"
    using keeps_run(1) [OF bindings_st.reconcile_keeps _ w1(1)] w(1) by simp
  then have wf1: "bindings_wf (db w1)"
    using w(2) by (simp add: bindings_keep_def)
  have rows: "served env (sn_node_id y) \<and> retry_passed now y"
    if y: "y \<in> set ?R" "sn_subscription_id y = s" for y
  proof -
    consider sn where "sn \<in> set ?rows" "y = reconcile_row s ?T sn" | n where "n \<in> set ?T" "y = fresh_binding s n"
      using y(1) by (auto simp: in_reconcile_rows)
    then show ?thesis
    proof cases
      case 1
      then have "sn_key y = sn_key sn"
        by simp
      then have "sn_subscription_id sn = s" "sn_node_id y = sn_node_id sn"
        using y(2) by (simp_all add: sn_key_def)
      moreover have "y = sn \<or> retry_passed now y"
        using 1 by (auto simp: reconcile_row_def set_sync_status_def retry_passed_def)
      ultimately show ?thesis
        using served passed 1(1) by (auto simp: list_all_iff rows_of_def)
    next
      case 2
      then show ?thesis
        using served by (simp add: fresh_binding_def retry_passed_def list_all_iff)
    qed
  qed
  obtain w2 es where w2: "SyncSubscription env now s w1 = (Inr (), w2)"
      "db w2 = (db w1)\<lparr>subscription_nodes := fold settle ?L ?R\<rparr>" "trace w2 = trace w @ es"
      "\<forall>sn \<in> set ?L. told x pl (db w) es sn"
    using SyncSubscription_run [OF w1(2) wf1 env, of s x pl now] sub plan(1) w1(3,4) rows
    by (auto simp: find_subscription_def find_plan_def rows_of_def)
  have step: "in_step s ?T (db w2)"
    using wf1 w1(4) w2(2) rows reconcile_rows_wanted [of _ s ?T ?rows] reconcile_rows_covers [of _ ?T s ?rows]
    by (simp, intro settled_in_step) (auto simp: bindings_wf_def)
  note calls = told_after_reconcile [of s ?T ?rows now x pl "db w" es]
  have "list_all (\<lambda>n. provisioned x pl n es
      \<or> list_ex (\<lambda>sn. sn_node_id sn = n \<and> sn_status sn = SyncStatusActive) (rows_of s (db w))) ?T"
    using calls(1) w2(4) rows by (fastforce simp: list_all_iff list_ex_iff rows_of_def sn_key_def)
  moreover have "list_all (\<lambda>sn. sn_node_id sn \<in> set ?T \<or> removed_from x (db w) (sn_node_id sn) es) (rows_of s (db w))"
    using calls(2) w2(4) rows by (auto simp: list_all_iff rows_of_def)
  ultimately show ?thesis
    using rec w2(1,3) step by blast
qed

end
