(* ===== verification/Order_Laws.thy ===== *)
theory Order_Laws
  imports Order_Store
begin

text \<open>
  What the order operations of \<open>Order_Store\<close> do: the databases the payment transactions leave,
  and the properties of the payment life cycle that follow. The lemmas named \<open>_ok\<close> say what a
  run that returned without an error went through; they hold in every world, so under every
  interleaving and every failure before the one that matters.
\<close>

section \<open>What the transactions do\<close>

definition paid_state ::
  "uint \<Rightarrow> time \<Rightarrow> time \<Rightarrow> subscription \<Rightarrow> product \<Rightarrow> cents \<Rightarrow> order \<Rightarrow> subscription \<Rightarrow> db \<Rightarrow> db" where
  "paid_state orderID paidAt activatedAt sub product amount r cur d =
     (let e = CalculatePaymentExpiry activatedAt (Some cur) (Some product);
          renewed = grant_product product activatedAt e cur in
      snd (append_audit (AuditSubscriptionRenewed (Some cur) renewed (Some product))
       (snd (append_audit (AuditPaymentConfirmed r (Some renewed) (Some product) e)
         (d\<lparr>orders := update_where (payable orderID) (mark_paid paidAt activatedAt e amount) (orders d),
            subscriptions := update_where (\<lambda>s. s_id s = s_id sub) (grant_product product activatedAt e)
              (subscriptions d)\<rparr>)))))"

lemma confirm_tx_ok:
  assumes "confirm_tx orderID paidAt activatedAt sub product applyPlan amount w = (Inr (True, sub'), w')"
  obtains cur r w1 where
    "find_subscription (s_id sub) (db w) = Inr cur"
    "find_order (\<lambda>r. o_id r = orderID) (db w) = Inr r"
    "count_where (payable orderID) (orders (db w)) \<noteq> 0"
    "sub' = grant_product product activatedAt
       (CalculatePaymentExpiry activatedAt (Some cur) (Some product)) cur"
    "db w1 = paid_state orderID paidAt activatedAt sub product amount r cur (db w)"
    "orders_evolve (db w) (db w1)"
    "(if applyPlan \<noteq> None \<and> s_plan_id cur \<noteq> pr_plan_id product
      then the applyPlan (s_id sub) (pr_plan_id product) w1 = (Inr (), w') else w' = w1)"
proof -
  define e where "e = (\<lambda>cur. CalculatePaymentExpiry activatedAt (Some cur) (Some product))"
  obtain cur r n m w1 w2 w3 w4 w5 w6 u v z where
    1: "tx_queryE (find_subscription (s_id sub)) w = (Inr cur, w1)"
    and 2: "tx_queryE (find_order (\<lambda>r. o_id r = orderID)) w1 = (Inr r, w2)"
    and 3: "txE (update_orders (payable orderID) (mark_paid paidAt activatedAt (e cur) amount)) w2 = (Inr n, w3)"
    and n: "n \<noteq> 0"
    and 4: "tx_execE (update_subscriptions (\<lambda>s. s_id s = s_id sub) (grant_product product activatedAt (e cur))) w3
         = (Inr m, w4)"
    and 5: "InsertAuditLogInTx (AuditPaymentConfirmed r (Some (grant_product product activatedAt (e cur) cur))
         (Some product) (e cur)) w4 = (Inr u, w5)"
    and 6: "InsertAuditLogInTx (AuditSubscriptionRenewed (Some cur) (grant_product product activatedAt (e cur) cur)
         (Some product)) w5 = (Inr v, w6)"
    and 7: "(case applyPlan of
              Some apply_fn \<Rightarrow>
                if s_plan_id cur \<noteq> pr_plan_id product
                then apply_fn (s_id sub) (pr_plan_id product) else returnE ()
            | None \<Rightarrow> returnE ()) w6 = (Inr z, w')"
    and s': "sub' = grant_product product activatedAt (e cur) cur"
    using assms unfolding confirm_tx_def Let_def e_def
    by (elim bindE_ok) (simp add: plain_ok split: if_splits, (elim bindE_ok,
        simp add: plain_ok split: if_splits, elim bindE_ok, simp add: plain_ok))
  have "db w6 = paid_state orderID paidAt activatedAt sub product amount r cur (db w)"
    using tx_queryE_ok(2) [OF 1] tx_queryE_ok(2) [OF 2] tx_update_orders_ok [OF 3]
      tx_update_subscriptions_ok [OF 4] InsertAuditLogInTx_ok [OF 5] InsertAuditLogInTx_ok [OF 6]
    by (simp add: paid_state_def Let_def e_def)
  moreover have "orders_evolve (db w) (db w6)"
  proof (rule orders.db_trans)
    show "orders_evolve (db w) (db w3)"
      using txE_run [OF 3] tx_queryE_ok(2) [OF 1] tx_queryE_ok(2) [OF 2]
      by (auto intro!: update_orders_evolve simp: row_steps row_dated)
    show "orders_evolve (db w3) (db w6)"
      using tx_update_subscriptions_ok [OF 4] InsertAuditLogInTx_ok [OF 5] InsertAuditLogInTx_ok [OF 6]
      by (intro orders_evolve_same) simp_all
  qed
  moreover have "if applyPlan \<noteq> None \<and> s_plan_id cur \<noteq> pr_plan_id product
      then the applyPlan (s_id sub) (pr_plan_id product) w6 = (Inr (), w') else w' = w6"
    using 7 by (auto simp: plain_ok split: option.splits if_splits)
  moreover have "count_where (payable orderID) (orders (db w)) \<noteq> 0"
    using tx_queryE_ok(2) [OF 1] tx_queryE_ok(2) [OF 2] tx_update_orders_ok [OF 3] n by simp
  ultimately show ?thesis
    using that tx_queryE_ok [OF 1] tx_queryE_ok [OF 2] s' by (simp add: e_def)
qed

lemma chargeback_downgrade_ok:
  assumes "chargeback_downgrade freePlanID applyPlan cur r w = (Inr u, w')"
  obtains w1 w2 where
    "db w1 = snd (update_subscriptions (\<lambda>s. s_id s = o_subscription_id r) (reset_to_free freePlanID) (db w))"
    "case applyPlan of None \<Rightarrow> w2 = w1 | Some g \<Rightarrow> g (o_subscription_id r) freePlanID w1 = (Inr (), w2)"
    "db w' = snd (append_audit (AuditChargebackReceived r cur True) (db w2))"
proof -
  obtain m w1 v w2 where
    1: "tx_execE (update_subscriptions (\<lambda>s. s_id s = o_subscription_id r) (reset_to_free freePlanID)) w
         = (Inr m, w1)"
    and 2: "(case applyPlan of Some g \<Rightarrow> g (o_subscription_id r) freePlanID | None \<Rightarrow> returnE ()) w1 = (Inr v, w2)"
    and 3: "InsertAuditLogInTx (AuditChargebackReceived r cur True) w2 = (Inr u, w')"
    using assms unfolding chargeback_downgrade_def
    by (elim bindE_ok) (simp add: plain_ok split: if_splits, elim bindE_ok, simp)
  show ?thesis
  proof (rule that)
    show "db w1 = snd (update_subscriptions (\<lambda>s. s_id s = o_subscription_id r) (reset_to_free freePlanID) (db w))"
      using tx_update_subscriptions_ok [OF 1] by (simp add: update_subscriptions_def)
    show "case applyPlan of None \<Rightarrow> w2 = w1 | Some g \<Rightarrow> g (o_subscription_id r) freePlanID w1 = (Inr (), w2)"
      using 2 by (simp add: plain_ok split: option.splits)
    show "db w' = snd (append_audit (AuditChargebackReceived r cur True) (db w2))"
      using InsertAuditLogInTx_ok [OF 3] by simp
  qed
qed

lemma chargeback_settle_ok:
  assumes "chargeback_settle now freePlanID applyPlan cur r w = (Inr res, w')"
  defines "d1 \<equiv> snd (append_audit (AuditOrderCanceled r ActorPaymentProvider) (db w))"
  shows "cb_was_paid res \<longleftrightarrow> o_status r = OrderStatusPaid" "cb_transitioned res"
    "cb_order res = r\<lparr>o_status := OrderStatusCanceled\<rparr>"
    "cb_downgraded res \<longleftrightarrow> o_status r = OrderStatusPaid \<and> s_status cur = SubscriptionStatusActive
       \<and> count_where (covers (o_subscription_id r) now) (orders (db w)) = 0"
    "\<not> cb_downgraded res \<Longrightarrow> db w' = d1"
    "cb_downgraded res \<Longrightarrow> \<exists>w1. db w1 = d1 \<and>
       chargeback_downgrade freePlanID applyPlan cur (r\<lparr>o_status := OrderStatusCanceled\<rparr>) w1 = (Inr (), w')"
  using assms unfolding chargeback_settle_def Let_def
  by (auto elim!: bindE_ok simp: plain_ok dest!: InsertAuditLogInTx_ok tx_query_run split: if_splits) blast


text \<open>The swap of the order, and the state the transaction has reached then.\<close>

definition canceled_state :: "order \<Rightarrow> db \<Rightarrow> db" where
  "canceled_state r d =
     d\<lparr>orders := update_where (\<lambda>x. o_id x = o_id r
             \<and> o_status x = (if o_status r = OrderStatusPaid then OrderStatusPaid else OrderStatusPending))
           (set_order_status OrderStatusCanceled) (orders d)\<rparr>"

lemma chargeback_tx_ok:
  assumes "chargeback_tx provider ppid now freePlanID applyPlan w = (Inr (Some res), w')"
  obtains r0 r cur where
    "select_first (of_payment provider ppid) (orders (db w)) = Some r0"
    "find_subscription (o_subscription_id r0) (db w) = Inr cur"
    "select_first (\<lambda>x. o_id x = o_id r0) (orders (db w)) = Some r"
    "cb_was_paid res \<longleftrightarrow> o_status r = OrderStatusPaid"
    "\<not> cb_transitioned res \<Longrightarrow> db w' = db w \<and> \<not> cb_downgraded res"
    "cb_transitioned res \<Longrightarrow> \<exists>w1. db w1 = canceled_state r (db w)
       \<and> chargeback_settle now freePlanID applyPlan cur r w1 = (Inr res, w')"
proof -
  obtain r0 w1 where
    1: "tx_query (\<lambda>d. select_first (of_payment provider ppid) (orders d)) w = (Inr (Some r0), w1)"
    and rest: "bindE (tx_queryE (find_subscription (o_subscription_id r0))) (\<lambda>currentSub.
     bindE (tx_query (\<lambda>d. select_first (\<lambda>r. o_id r = o_id r0) (orders d))) (\<lambda>reloaded.
     case reloaded of None \<Rightarrow> failE [ErrRecordNotFound]
     | Some order \<Rightarrow>
     let wasPaid = (o_status order = OrderStatusPaid);
         fromStatus = (if wasPaid then OrderStatusPaid else OrderStatusPending) in
     bindE (txE (update_orders (\<lambda>r. o_id r = o_id order \<and> o_status r = fromStatus)
              (set_order_status OrderStatusCanceled))) (\<lambda>n.
     if n = 0 then
       returnE (Some \<lparr>cb_order = order, cb_was_paid = wasPaid, cb_transitioned = False,
                      cb_downgraded = False\<rparr>)
     else bindE (chargeback_settle now freePlanID applyPlan currentSub order) (\<lambda>res.
          returnE (Some res))))) w1 = (Inr (Some res), w')"
    using assms unfolding chargeback_tx_def
    by (elim bindE_ok) (simp add: plain_ok split: option.splits)
  then obtain cur w2 r w3 n w4 where
    2: "tx_queryE (find_subscription (o_subscription_id r0)) w1 = (Inr cur, w2)"
    and 3: "tx_query (\<lambda>d. select_first (\<lambda>r. o_id r = o_id r0) (orders d)) w2 = (Inr (Some r), w3)"
    and 4: "txE (update_orders (\<lambda>x. o_id x = o_id r \<and> o_status x =
        (if o_status r = OrderStatusPaid then OrderStatusPaid else OrderStatusPending))
              (set_order_status OrderStatusCanceled)) w3 = (Inr n, w4)"
    and 5: "(if n = 0 then
       returnE (Some \<lparr>cb_order = r, cb_was_paid = (o_status r = OrderStatusPaid), cb_transitioned = False,
                      cb_downgraded = False\<rparr>)
     else bindE (chargeback_settle now freePlanID applyPlan cur r) (\<lambda>res.
          returnE (Some res))) w4 = (Inr (Some res), w')"
    unfolding Let_def by (elim bindE_ok) (simp add: plain_ok split: option.splits, elim bindE_ok, blast)
  have d: "db w1 = db w" "db w2 = db w" "db w3 = db w"
    using tx_query_run [OF 1] tx_queryE_run [OF 2] tx_query_run [OF 3] by simp_all
  have d4: "db w4 = canceled_state r (db w)" "n = 0 \<longrightarrow> db w4 = db w"
    using tx_update_orders_ok [OF 4] d by (auto simp: canceled_state_def update_where_none)
  show ?thesis
  proof (rule that [of r0 cur r])
    show "select_first (of_payment provider ppid) (orders (db w)) = Some r0"
      using tx_query_run [OF 1] by simp
    show "find_subscription (o_subscription_id r0) (db w) = Inr cur"
      using tx_queryE_run [OF 2] d by simp
    show "select_first (\<lambda>x. o_id x = o_id r0) (orders (db w)) = Some r"
      using tx_query_run [OF 3] d by simp
    show "cb_was_paid res \<longleftrightarrow> o_status r = OrderStatusPaid"
      using 5 chargeback_settle_ok(1)
      by (cases "n = 0") (auto simp: plain_ok elim!: bindE_ok)
    show "db w' = db w \<and> \<not> cb_downgraded res" if "\<not> cb_transitioned res"
      using that 5 d4(2) chargeback_settle_ok(2)
      by (cases "n = 0") (auto simp: plain_ok elim!: bindE_ok)
    show "\<exists>w1. db w1 = canceled_state r (db w)
       \<and> chargeback_settle now freePlanID applyPlan cur r w1 = (Inr res, w')" if "cb_transitioned res"
      using that 5 d4(1)
      by (cases "n = 0") (auto simp: plain_ok elim!: bindE_ok)
  qed
qed


lemma in_orders_unique:
  "orders_wf d \<Longrightarrow> r \<in> set (orders d) \<Longrightarrow> s \<in> set (orders d) \<Longrightarrow> o_id r = o_id s \<Longrightarrow> r = s"
  using distinct_key_eq [of o_id "orders d" r s] by (simp add: orders_wf_def)

lemma paid_state_orders:
  "orders (paid_state i t1 t2 sub q a r cur d)
     = update_where (payable i) (mark_paid t1 t2 (CalculatePaymentExpiry t2 (Some cur) (Some q)) a) (orders d)"
  by (simp add: paid_state_def Let_def)

lemma paid_state_settled:
  assumes "x \<in> set (orders (paid_state i t1 t2 sub q a r cur d))" "o_id x = i"
    and "count_where (payable i) (orders d) \<noteq> 0" "orders_wf d"
  shows "o_status x = OrderStatusPaid"
proof -
  obtain y where y: "y \<in> set (orders d)" "payable i y"
    using assms(3) by (auto simp: count_where_0)
  obtain z where z: "z \<in> set (orders d)"
    "x = (if payable i z then mark_paid t1 t2 (CalculatePaymentExpiry t2 (Some cur) (Some q)) a z else z)"
    using assms(1) by (auto simp: paid_state_orders set_update_where simp del: if_split)
  then have "o_id z = i"
    using assms(2) by (auto simp: mark_paid_def split: if_splits)
  then have "z = y"
    using in_orders_unique [OF assms(4) z(1) y(1)] y(2) by (simp add: payable_def)
  with y z show ?thesis by (simp add: mark_paid_def)
qed

text \<open>Once an order is settled nothing that respects the contract makes it payable again.\<close>

lemma settled_stays:
  assumes "orders_wf d" "orders_evolve d d'" "i \<le> order_seq d"
    and "\<forall>x \<in> set (orders d). o_id x = i \<longrightarrow> OrderStatusPaid \<le> o_status x"
  shows "\<forall>x \<in> set (orders d'). o_id x = i \<longrightarrow> OrderStatusPaid \<le> o_status x"
proof (intro ballI impI)
  fix x
  assume x: "x \<in> set (orders d')" "o_id x = i"
  then obtain y where "y \<in> set (orders d)" "order_evolves y x"
    using assms(1-3) by (auto simp: orders_evolve_def)
  then have "OrderStatusPaid \<le> o_status y" "o_status y \<le> o_status x"
    using assms(4) x by (auto simp: order_evolves_def)
  then show "OrderStatusPaid \<le> o_status x"
    by (rule order_trans)
qed

lemma settled_not_payable:
  "\<forall>x \<in> set os. o_id x = i \<longrightarrow> OrderStatusPaid \<le> o_status x \<Longrightarrow> count_where (payable i) os = 0"
  by (auto simp: count_where_0 payable_def)


text \<open>A confirmation that activated leaves its order settled; a settled order is not activated.\<close>

definition order_settled :: "uint \<Rightarrow> db \<Rightarrow> bool" where
  "order_settled i d \<longleftrightarrow> orders_wf d \<and> i \<le> order_seq d
     \<and> (\<forall>x \<in> set (orders d). o_id x = i \<longrightarrow> OrderStatusPaid \<le> o_status x)"

lemma order_settled_stays: "order_settled i d \<Longrightarrow> orders_evolve d d' \<Longrightarrow> order_settled i d'"
  using settled_stays [of d d' i] by (auto simp: order_settled_def orders_evolve_def)

lemma ConfirmOrderPaidCAS_settles:
  assumes run: "ConfirmOrderPaidCAS i t1 t2 sub q applyPlan a w = (Inr (True, sub'), w')"
    and wf: "orders_wf (db (step_other w))"
    and plan: "\<And>g j k v. applyPlan = Some g \<Longrightarrow> orders_evolve (db v) (db (snd (g j k v)))"
  shows "order_settled i (db w')"
proof -
  obtain w2 where tx: "confirm_tx i t1 t2 sub q applyPlan a (step_other w) = (Inr (True, sub'), w2)"
    and w2: "db w' = db w2"
    using run unfolding ConfirmOrderPaidCAS_def by (rule transaction_ok)
  let ?d = "db (step_other w)"
  from tx obtain cur r w1 where
    some: "find_order (\<lambda>r. o_id r = i) ?d = Inr r" "count_where (payable i) (orders ?d) \<noteq> 0"
    and w1: "db w1 = paid_state i t1 t2 sub q a r cur ?d" "orders_evolve ?d (db w1)"
    and apply_run: "if applyPlan \<noteq> None \<and> s_plan_id cur \<noteq> pr_plan_id q
      then the applyPlan (s_id sub) (pr_plan_id q) w1 = (Inr (), w2) else w2 = w1"
    by (rule confirm_tx_ok)
  have "i \<le> order_seq ?d"
    using find_order_ok [OF some(1)] wf by (auto simp: orders_wf_def)
  then have "order_settled i (db w1)"
    using w1 wf paid_state_settled some(2) by (auto simp: order_settled_def orders_evolve_def)
  moreover have "orders_evolve (db w1) (db w2)"
    using apply_run plan [of "the applyPlan" w1 "s_id sub" "pr_plan_id q"]
    by (auto simp: orders.db_refl split: if_splits)
  ultimately show ?thesis
    unfolding w2 by (rule order_settled_stays)
qed

lemma settled_not_confirmed:
  assumes "order_settled i (db (step_other v))"
  shows "ConfirmOrderPaidCAS i u1 u2 sub q applyPlan b v \<noteq> (Inr (True, sub'), v')"
proof
  assume "ConfirmOrderPaidCAS i u1 u2 sub q applyPlan b v = (Inr (True, sub'), v')"
  then obtain v2 where "confirm_tx i u1 u2 sub q applyPlan b (step_other v) = (Inr (True, sub'), v2)"
    unfolding ConfirmOrderPaidCAS_def by (rule transaction_ok)
  moreover have "count_where (payable i) (orders (db (step_other v))) = 0"
    using assms by (intro settled_not_payable) (simp add: order_settled_def)
  ultimately show False
    by (auto elim!: confirm_tx_ok)
qed

section \<open>Properties of the transactions\<close>

text \<open>C2. A payment activates at most once: after one confirmation of an order succeeded, no later
  confirmation of it succeeds, whatever other sessions that respect the order contract commit in
  between and whatever the database does.\<close>

theorem ConfirmOrderPaidCAS_once:
  assumes first: "ConfirmOrderPaidCAS i t1 t2 sub q applyPlan a w = (Inr (True, sub'), w')"
    and wf: "orders_wf (db (step_other w))"
    and plan: "\<And>g j k v. applyPlan = Some g \<Longrightarrow> orders_evolve (db v) (db (snd (g j k v)))"
    and later: "orders_evolve (db w') (db (step_other v))"
  shows "ConfirmOrderPaidCAS i u1 u2 sub2 q2 applyPlan2 b v \<noteq> (Inr (True, sub2'), v')"
proof (rule settled_not_confirmed, rule order_settled_stays [OF _ later])
  show "order_settled i (db w')"
    by (rule ConfirmOrderPaidCAS_settles [OF first wf]) (rule plan)
qed

text \<open>Expiry\<close>

lemma CalculatePaymentExpiry_cases:
  "CalculatePaymentExpiry now (Some s) (Some p)
     = (if s_plan_id s = pr_plan_id p \<and> s_expires_at s \<noteq> None \<and> now < the (s_expires_at s)
        then the (s_expires_at s) else now) + pr_duration_days p * day"
  by (simp add: CalculatePaymentExpiry_def Let_def add_days_def split: option.splits)

text \<open>A payment never costs paid time: the new expiry grants the whole duration from now, and on
  a renewal of the same plan the whole duration on top of what was left.\<close>

theorem payment_keeps_paid_time:
  assumes "0 \<le> pr_duration_days p"
  shows "now + pr_duration_days p * day \<le> CalculatePaymentExpiry now (Some s) (Some p)
    \<and> (s_plan_id s = pr_plan_id p \<and> s_expires_at s = Some t \<longrightarrow>
         t + pr_duration_days p * day \<le> CalculatePaymentExpiry now (Some s) (Some p))"
  using assms by (auto simp: CalculatePaymentExpiry_cases)

lemma canceled_state_covers:
  assumes wf: "orders_wf d" and r: "r \<in> set (orders d)" "o_status r = OrderStatusPaid"
  shows "count_where (covers s now) (orders (canceled_state r d)) = 0
    \<longleftrightarrow> \<not> (\<exists>x \<in> set (orders d). o_id x \<noteq> o_id r \<and> covers s now x)"
proof -
  have cov: "covers s now (if o_id x = o_id r \<and> o_status x = OrderStatusPaid
        then set_order_status OrderStatusCanceled x else x)
      \<longleftrightarrow> o_id x \<noteq> o_id r \<and> covers s now x" if "x \<in> set (orders d)" for x
    using in_orders_unique [OF wf that r(1)] r(2)
    by (auto simp: covers_def set_order_status_def split: option.splits)
  show ?thesis
    using cov r(2) by (simp add: count_where_0 canceled_state_def ball_update_where del: if_split cong: ball_cong)
qed

text \<open>What a chargeback that was recorded has done, for any way to apply a plan that leaves the
  subscriptions alone.\<close>

lemma chargeback_effect:
  fixes w :: world
  defines "d \<equiv> db (step_other w)"
  assumes run: "CancelPaidOrderAndDowngradeCAS provider ppid now freePlanID applyPlan w = (Inr (Some res), w')"
    and swap: "cb_transitioned res" and wf: "orders_wf d"
    and aside: "\<forall>g. applyPlan = Some g \<longrightarrow> (\<forall>i p v. subscriptions (db (snd (g i p v))) = subscriptions (db v))"
  shows "cb_downgraded res \<longleftrightarrow> cb_was_paid res
     \<and> (\<exists>cur. find_subscription (o_subscription_id (cb_order res)) d = Inr cur
              \<and> s_status cur = SubscriptionStatusActive)
     \<and> \<not> (\<exists>x \<in> set (orders d). o_id x \<noteq> o_id (cb_order res)
              \<and> covers (o_subscription_id (cb_order res)) now x)"
    "\<exists>r \<in> set (orders d). of_payment provider ppid r \<and> cb_order res = r\<lparr>o_status := OrderStatusCanceled\<rparr>
       \<and> (cb_was_paid res \<longleftrightarrow> o_status r = OrderStatusPaid)"
    "subscriptions (db w') = (if cb_downgraded res
       then update_where (\<lambda>s. s_id s = o_subscription_id (cb_order res)) (reset_to_free freePlanID) (subscriptions d)
       else subscriptions d)"
proof -
  obtain w2 where tx: "chargeback_tx provider ppid now freePlanID applyPlan (step_other w) = (Inr (Some res), w2)"
    and w': "db w' = db w2"
    using run unfolding CancelPaidOrderAndDowngradeCAS_def by (rule transaction_ok)
  from tx obtain r0 r cur w1 where
    r0: "select_first (of_payment provider ppid) (orders d) = Some r0"
    and cur: "find_subscription (o_subscription_id r0) d = Inr cur"
    and r: "select_first (\<lambda>x. o_id x = o_id r0) (orders d) = Some r"
    and w1: "db w1 = canceled_state r d"
    and settle: "chargeback_settle now freePlanID applyPlan cur r w1 = (Inr res, w2)"
    unfolding d_def by (rule chargeback_tx_ok) (use swap in auto)
  have mem: "r0 \<in> set (orders d)" "of_payment provider ppid r0" "r \<in> set (orders d)" "o_id r = o_id r0"
    using select_first_Some [OF r0] select_first_Some [OF r] by auto
  then have eq: "r0 = r"
    using in_orders_unique [OF wf mem(1) mem(3)] by simp
  note s = chargeback_settle_ok [OF settle]
  show "cb_downgraded res \<longleftrightarrow> cb_was_paid res
     \<and> (\<exists>cur. find_subscription (o_subscription_id (cb_order res)) d = Inr cur
              \<and> s_status cur = SubscriptionStatusActive)
     \<and> \<not> (\<exists>x \<in> set (orders d). o_id x \<noteq> o_id (cb_order res)
              \<and> covers (o_subscription_id (cb_order res)) now x)"
    using s(1,3,4) cur eq w1 canceled_state_covers [OF wf mem(3)]
    by (cases "o_status r = OrderStatusPaid") auto
  show "\<exists>r \<in> set (orders d). of_payment provider ppid r \<and> cb_order res = r\<lparr>o_status := OrderStatusCanceled\<rparr>
       \<and> (cb_was_paid res \<longleftrightarrow> o_status r = OrderStatusPaid)"
    using s(1,3) mem(2,3) eq by blast
  have subs: "subscriptions (snd (append_audit e x)) = subscriptions x" for e x
    by (simp add: append_audit_def Let_def)
  show "subscriptions (db w') = (if cb_downgraded res
       then update_where (\<lambda>s. s_id s = o_subscription_id (cb_order res)) (reset_to_free freePlanID) (subscriptions d)
       else subscriptions d)"
  proof (cases "cb_downgraded res")
    case False
    then show ?thesis using s(5) w' w1 by (simp add: subs canceled_state_def)
  next
    case True
    obtain v where v: "db v = snd (append_audit (AuditOrderCanceled r ActorPaymentProvider) (db w1))"
      and down: "chargeback_downgrade freePlanID applyPlan cur (r\<lparr>o_status := OrderStatusCanceled\<rparr>) v = (Inr (), w2)"
      using s(6) True by blast
    let ?i = "o_subscription_id (r\<lparr>o_status := OrderStatusCanceled\<rparr>)"
    obtain v1 v2 where v1: "db v1 = snd (update_subscriptions (\<lambda>s. s_id s = ?i) (reset_to_free freePlanID) (db v))"
      and v2: "case applyPlan of None \<Rightarrow> v2 = v1 | Some g \<Rightarrow> g ?i freePlanID v1 = (Inr (), v2)"
      and w2: "db w2 = snd (append_audit (AuditChargebackReceived (r\<lparr>o_status := OrderStatusCanceled\<rparr>) cur True) (db v2))"
      by (rule chargeback_downgrade_ok [OF down])
    have "subscriptions (db v2) = subscriptions (db v1)"
    proof (cases applyPlan)
      case None
      then show ?thesis using v2 by simp
    next
      case (Some g)
      then have "g ?i freePlanID v1 = (Inr (), v2)" using v2 by simp
      then show ?thesis using aside Some by (metis snd_conv)
    qed
    then show ?thesis
      using True v1 v w2 w' w1 s(3) by (simp add: update_subscriptions_def subs canceled_state_def)
  qed
qed

text \<open>The payment intent.\<close>

lemma insertAuditLogBestEffort_ok:
  "\<exists>w'. insertAuditLogBestEffort e w = (Inr (), w')"
  by (cases "InsertAuditLog e w") (simp add: insertAuditLogBestEffort_def op_simps)

lemma find_or_create_tx_intent:
  assumes "find_or_create_tx s p a c now w = (Inr (r, expired), w')"
  shows "intent_of s p r \<and> r \<in> set (orders (db w'))
     \<and> (o_payment_creation_uncertain r \<or> \<not> link_expired now r)"
proof -
  have new: "intent_of s p r \<and> r \<in> set (orders (db v'))
     \<and> (o_payment_creation_uncertain r \<or> \<not> link_expired now r)"
    if "txE (insert_order (new_intent s p a c now)) v = (Inr r, v')" for v v'
    using insert_order_ok [of "new_intent s p a c now" "db v" r "db v'"] txE_ok(1) [OF that]
    by (simp add: intent_of_def new_intent_def link_expired_def)
  show ?thesis
    using assms new unfolding find_or_create_tx_def Let_def
    by (auto elim!: bindE_ok dest!: tx_query_run select_first_Some simp: plain_ok
        split: option.splits if_splits)
qed

theorem FindOrCreatePendingPaymentOrder_intent:
  assumes "FindOrCreatePendingPaymentOrder s p a c now w = (Inr r, w')"
  shows "intent_of s p r"
proof -
  obtain res w1 where tx: "transaction (find_or_create_tx s p a c now) w = (res, w1)"
    by (cases "transaction (find_or_create_tx s p a c now) w")
  show ?thesis
  proof (cases res)
    case (Inl e)
    with assms tx show ?thesis
      by (auto simp: FindOrCreatePendingPaymentOrder_def tryE_def plain_ok query_def
          elim!: bindE_ok dest!: stmtE_ok(1) select_first_Some split: if_splits option.splits)
  next
    case (Inr x)
    obtain r1 ex where x: "x = (r1, ex)" by (cases x)
    then obtain w2 where "find_or_create_tx s p a c now (step_other w) = (Inr (r1, ex), w2)"
      using tx Inr by (auto elim: transaction_ok)
    then have "intent_of s p r1"
      using find_or_create_tx_intent by blast
    moreover have "r = r1"
      using assms tx Inr x
      by (auto simp: FindOrCreatePendingPaymentOrder_def tryE_def plain_ok elim!: bindE_ok)
    ultimately show ?thesis by simp
  qed
qed

lemma intents_unique:
  assumes "orders_valid os" "r \<in> set os" "r' \<in> set os" "intent_of s p r" "intent_of s p r'"
  shows "r = r'"
proof (rule distinct_key_eq)
  show "distinct (map intent_key (filter open_intent os))"
    using assms(1) by (simp add: orders_valid_def)
qed (use assms in \<open>auto simp: intent_of_def open_intent_def intent_key_def\<close>)


lemma new_intent_valid:
  assumes "orders_valid os" "\<forall>r \<in> set os. \<not> intent_of s p r"
  shows "orders_valid (os @ [(new_intent s p a c now)\<lparr>o_id := i\<rparr>])"
  using assms
  by (auto simp: orders_valid_def new_intent_def has_payment_def open_intent_def intent_of_def intent_key_def)

lemma closing_valid:
  assumes "orders_valid os" and row: "\<And>r. P r \<Longrightarrow> payment_key (f r) = payment_key r \<and> \<not> open_intent (f r)"
  shows "orders_valid (update_where P f os)"
proof -
  let ?f = "\<lambda>r. if P r then f r else r"
  have key: "has_payment r \<longleftrightarrow> snd (payment_key r) \<noteq> []" for r
    by (simp add: has_payment_def payment_key_def)
  have pay: "map payment_key (filter has_payment (map ?f xs)) = map payment_key (filter has_payment xs)" for xs
    using row by (induction xs) (auto simp: key)
  have sub: "filter open_intent (map ?f xs) = filter (\<lambda>r. open_intent r \<and> \<not> P r) xs" for xs
    using row by (induction xs) auto
  have dist: "distinct (map k (filter Q xs)) \<Longrightarrow> distinct (map k (filter (\<lambda>r. Q r \<and> Q' r) xs))"
    for k :: "order \<Rightarrow> uint \<times> uint \<times> string" and Q Q' xs
    using distinct_map_filter [of k "filter Q xs" Q'] by (simp add: conj_commute)
  show ?thesis
    using assms(1) pay [of os] sub [of os] dist
    by (simp add: orders_valid_def update_where_def del: if_split)
qed

lemma expire_valid:
  "orders_valid os \<Longrightarrow> orders_valid (update_where (pending_with_id i) (set_order_status OrderStatusExpired) os)"
  by (rule closing_valid) (auto simp: payment_key_def open_intent_def set_order_status_def)

lemma mark_paid_valid:
  "orders_valid os \<Longrightarrow> orders_valid (update_where P (mark_paid t1 t2 e a) os)"
  by (rule closing_valid) (auto simp: payment_key_def open_intent_def mark_paid_def)

lemma insert_intent_succeeds:
  assumes "orders_valid (orders d)" "\<forall>r \<in> set (orders d). \<not> intent_of s p r" "0 \<le> a"
    "\<exists>x \<in> set (subscriptions d). s_id x = s" "\<exists>x \<in> set (products d). pr_id x = p"
  shows "\<exists>r d'. insert_order (new_intent s p a c now) d = Inr (r, d')"
  using assms new_intent_valid [OF assms(1,2), where i = "Suc (order_seq d)" and a = a and c = c and now = now]
  by (auto simp: insert_order_def Let_def list_ex_iff) (auto simp: new_intent_def)

lemma find_or_create_tx_calm:
  assumes calm: "calm w" and wf: "orders_wf (db w)" and a: "0 \<le> a"
    and s: "\<exists>x \<in> set (subscriptions (db w)). s_id x = s" and p: "\<exists>x \<in> set (products (db w)). pr_id x = p"
  shows "\<exists>r ex w'. find_or_create_tx s p a c now w = (Inr (r, ex), w') \<and> calm w'"
proof (cases "select_first (intent_of s p) (orders (db w))")
  case None
  then have "\<forall>r \<in> set (orders (db w)). \<not> intent_of s p r"
    by (simp add: select_first_None)
  then obtain r d' where "insert_order (new_intent s p a c now) (db w) = Inr (r, d')"
    using insert_intent_succeeds [of "db w" s p a c now] wf a s p by (auto simp: orders_wf_def)
  with None calm show ?thesis
    by (simp add: find_or_create_tx_def Let_def bindE_def calm_runs calm_stmts run_stmt_def returnE_def)
next
  case (Some r)
  have r: "r \<in> set (orders (db w))" "intent_of s p r"
    using select_first_Some [OF Some] by simp_all
  let ?d = "(db w)\<lparr>orders := update_where (pending_with_id (o_id r)) (set_order_status OrderStatusExpired)
      (orders (db w))\<rparr>"
  have valid: "orders_valid (orders ?d)"
    using expire_valid wf by (simp add: orders_wf_def)
  have upd: "update_orders (pending_with_id (o_id r)) (set_order_status OrderStatusExpired) (db w)
      = Inr (count_where (pending_with_id (o_id r)) (orders (db w)), ?d)"
    using valid by (simp add: update_orders_def)
  have "\<forall>x \<in> set (orders ?d). \<not> intent_of s p x"
  proof -
    have "x = r" if "x \<in> set (orders (db w))" "intent_of s p x" for x
      using intents_unique [OF _ that(1) r(1) that(2) r(2)] wf by (simp add: orders_wf_def)
    then show ?thesis
      by (auto simp: ball_update_where intent_of_def pending_with_id_def set_order_status_def)
  qed
  then obtain r' d' where "insert_order (new_intent s p a c now) ?d = Inr (r', d')"
    using insert_intent_succeeds [of ?d s p a c now] valid a s p by auto
  with Some calm upd show ?thesis
    by (simp add: find_or_create_tx_def Let_def bindE_def calm_runs calm_stmts run_stmt_def returnE_def)
qed


lemma insertAuditLogBestEffort_calm:
  assumes "calm w"
  shows "insertAuditLogBestEffort e w = (Inr (), (step_turn w)\<lparr>db := snd (append_audit e (db w))\<rparr>)"
  using assms by (simp add: insertAuditLogBestEffort_def InsertAuditLog_def tryE_def calm_runs returnE_def)

text \<open>Without interference a payment request always obtains its intent: it is stored, it is
  the only pending intent of its subscription and product, and its link has not expired unless
  the provider's answer to it is still uncertain.\<close>

theorem FindOrCreatePendingPaymentOrder_total:
  assumes calm: "calm w" and wf: "orders_wf (db w)" and a: "0 \<le> a"
    and s: "\<exists>x \<in> set (subscriptions (db w)). s_id x = s" and p: "\<exists>x \<in> set (products (db w)). pr_id x = p"
  shows "\<exists>r w'. FindOrCreatePendingPaymentOrder s p a c now w = (Inr r, w')
     \<and> r \<in> set (orders (db w')) \<and> (\<forall>x \<in> set (orders (db w')). intent_of s p x \<longleftrightarrow> x = r)
     \<and> (o_payment_creation_uncertain r \<or> \<not> link_expired now r)"
proof -
  obtain r ex w1 where tx: "find_or_create_tx s p a c now (step_turn w) = (Inr (r, ex), w1)" and c1: "calm w1"
    using find_or_create_tx_calm [of "step_turn w" a s p c now] assms by auto
  have r: "intent_of s p r" "r \<in> set (orders (db w1))" "o_payment_creation_uncertain r \<or> \<not> link_expired now r"
    using find_or_create_tx_intent [OF tx] by simp_all
  have run: "transaction (find_or_create_tx s p a c now) w = (Inr (r, ex), step_turn w1)"
    using calm tx c1 by (subst calm_transaction) auto
  obtain w' where w': "FindOrCreatePendingPaymentOrder s p a c now w = (Inr r, w')"
    and d': "orders (db w') = orders (db w1)"
    using run c1
    by (cases ex) (auto simp: FindOrCreatePendingPaymentOrder_def tryE_def bindE_def returnE_def
        insertAuditLogBestEffort_calm)
  have "orders_evolve (db w) (db w')"
    using keeps_run [OF orders_st.FindOrCreatePendingPaymentOrder_keeps _ w'] calm by simp
  then have "orders_valid (orders (db w'))"
    using wf by (auto simp: orders_evolve_def orders_wf_def)
  then have "x = r" if "x \<in> set (orders (db w'))" "intent_of s p x" for x
    by (rule intents_unique) (use that r d' in auto)
  then have "\<forall>x \<in> set (orders (db w')). intent_of s p x \<longleftrightarrow> x = r"
    using r(1) by blast
  then show ?thesis
    using w' d' r(2,3) by metis
qed


end
