(* ===== verification/Platega.thy ===== *)
theory Platega
  imports Prelude
begin

text \<open>
  The payment provider's data formats: \<open>internal/service/payment/platega\<close>.

  \<^item> \<open>ParseCallbackAmount\<close> and \<open>CommissionCents\<close> turn the provider's decimal strings into
    integer cents; \<open>amount_text\<close> is the decimal the client sends in \<open>CreateTransaction\<close>.
  \<^item> \<open>ParseExpiresIn\<close> reads the life time of a payment link.
  \<^item> \<open>ParseTransactionID\<close>, \<open>Validate\<close> and \<open>VerifyHeaders\<close> guard the callback. The UUID
    parser is a third-party package, so it is a parameter: a function from a string to the
    canonical text and the version of the UUID it denotes.
\<close>

type_synonym uuid = string
type_synonym uuid_parser = "string \<Rightarrow> (uuid \<times> nat) option"

definition uuid_nil :: uuid where
  "uuid_nil = ''00000000-0000-0000-0000-000000000000''"

section \<open>Amounts\<close>

text \<open>\<open>callback.go\<close>, \<open>ParseCallbackAmount\<close>. The two comparisons and the result are \<open>int64\<close>
  arithmetic, which wraps.\<close>

definition amount_fraction :: "string \<Rightarrow> string" where
  "amount_fraction p =
     (let p1 = (if 2 < length p then take 2 p else p)
      in if p1 = [] then ''00'' else if length p1 = 1 then p1 @ ''0'' else p1)"

definition ParseCallbackAmount :: "string \<Rightarrow> error + cents" where
  "ParseCallbackAmount amount =
     (let raw = trim_space amount in
      if raw = [] then Inl (errors_new ''amount is required'')
      else if has_prefix raw ''-'' \<or> has_prefix raw ''+''
        then Inl (errors_new ''amount must be non-negative'')
      else if contains_any raw ''eE'' then Inl (errors_new ''amount must use fixed-point notation'')
      else
        (let parts = split_on CHR ''.'' raw;
             part0 = hd parts;
             part1 = (if length parts = 1 then [] else parts ! 1) in
         if 2 < length parts \<or> part0 = [] then Inl (errors_new ''amount is invalid'')
         else if 2 < length part1 \<and> 2 < length (trim_right part1 CHR ''0'')
           then Inl (errors_new ''amount has more than two decimal places'')
         else (case parse_int64 part0 of
             None \<Rightarrow> Inl (errors_new ''amount is out of range'')
           | Some whole \<Rightarrow>
               if max_int64 div 100 < whole then Inl (errors_new ''amount is out of range'')
               else (case parse_int64 (amount_fraction part1) of
                   None \<Rightarrow> Inl (errors_new ''amount is invalid'')
                 | Some fraction \<Rightarrow>
                     if wrap64 (max_int64 - fraction) < wrap64 (whole * 100)
                     then Inl (errors_new ''amount is out of range'')
                     else Inr (wrap64 (wrap64 (whole * 100) + fraction))))))"

text \<open>The amount the client sends: \<open>fmt.Appendf(nil, "%d.%02d", cents/100, cents%100)\<close>.\<close>

definition two_digits :: "nat \<Rightarrow> string" where
  "two_digits n = (if n < 10 then CHR ''0'' # utoa n else utoa n)"

definition amount_text :: "nat \<Rightarrow> string" where
  "amount_text cents = utoa (cents div 100) @ CHR ''.'' # two_digits (cents mod 100)"

lemma two_digits_value: "digits_value (two_digits n) = n"
  by (simp add: two_digits_def digits_value_Cons digit_val_def)

lemma two_digits_all_digits: "all_digits (two_digits n)"
  using utoa_all_digits [of n] by (simp add: two_digits_def all_digits_def is_digit_def)

lemma two_digits_length: "n < 100 \<Longrightarrow> length (two_digits n) = 2"
  by (auto simp: two_digits_def utoa.simps [of n] utoa.simps [of "n div 10"])

text \<open>What the parser computes on a plain decimal.\<close>

lemma plain_decimal_guards:
  assumes "all_digits a" "a \<noteq> []" "all_digits b"
  shows "\<not> has_prefix (a @ CHR ''.'' # b) ''-''" "\<not> has_prefix (a @ CHR ''.'' # b) ''+''"
    "\<not> contains_any (a @ CHR ''.'' # b) ''eE''"
    "trim_space (a @ CHR ''.'' # b) = a @ CHR ''.'' # b"
    "split_on CHR ''.'' (a @ CHR ''.'' # b) = [a, b]"
proof -
  obtain c cs where a: "a = c # cs" and c: "is_digit c"
    using assms(1,2) by (cases a) (auto simp: all_digits_def)
  show "\<not> has_prefix (a @ CHR ''.'' # b) ''-''" "\<not> has_prefix (a @ CHR ''.'' # b) ''+''"
    using a c by (auto simp: is_digit_def)
  have e: "d \<noteq> CHR ''e'' \<and> d \<noteq> CHR ''E'' \<and> d \<noteq> CHR ''.'' \<and> \<not> is_space d" if "is_digit d" for d
    using that by (auto simp: is_digit_def is_space_def)
  have digits: "is_digit d" if "d \<in> set a \<union> set b" for d
    using that assms all_digits_set by blast
  show "\<not> contains_any (a @ CHR ''.'' # b) ''eE''"
    using digits e by (auto simp: contains_any_def list_ex_iff)
  have "\<forall>d \<in> set (a @ CHR ''.'' # b). \<not> is_space d"
    using digits e by (auto simp: is_space_def)
  then show "trim_space (a @ CHR ''.'' # b) = a @ CHR ''.'' # b"
    by (rule trim_space_no_space)
  show "split_on CHR ''.'' (a @ CHR ''.'' # b) = [a, b]"
    using digits e by (intro split_on_once) auto
qed

lemma ParseCallbackAmount_plain:
  assumes "all_digits a" "a \<noteq> []" "all_digits b" "length b = 2"
    and range: "int (digits_value a) * 100 + int (digits_value b) \<le> max_int64"
  shows "ParseCallbackAmount (a @ CHR ''.'' # b) = Inr (int (digits_value a) * 100 + int (digits_value b))"
proof -
  have b: "amount_fraction b = b" "b \<noteq> []" "\<not> 2 < length b"
    using assms(4) by (auto simp: amount_fraction_def)
  have bv: "digits_value b < 100"
    using digits_value_bound [OF assms(3)] assms(4) by simp
  have av: "int (digits_value a) \<le> max_int64 div 100"
    using range by (simp add: max_int64_def)
  have pa: "parse_int64 a = Some (int (digits_value a))"
    using parse_int64_digits [OF assms(1,2)] av by (simp add: max_int64_def)
  have pb: "parse_int64 b = Some (int (digits_value b))"
    using parse_int64_digits [OF assms(3) b(2)] bv by (simp add: max_int64_def)
  have w: "wrap64 (int (digits_value a) * 100) = int (digits_value a) * 100"
    using av by (intro wrap64_id) (simp_all add: max_int64_def)
  have w2: "wrap64 (max_int64 - int (digits_value b)) = max_int64 - int (digits_value b)"
    using bv by (intro wrap64_id) (simp_all add: max_int64_def)
  have w3: "wrap64 (int (digits_value a) * 100 + int (digits_value b))
      = int (digits_value a) * 100 + int (digits_value b)"
    using range by (intro wrap64_id) simp_all
  show ?thesis
    using plain_decimal_guards [OF assms(1-3)] assms(2) av range
    by (simp add: ParseCallbackAmount_def Let_def b pa pb w w2 w3)
qed

text \<open>C7. Amounts survive the trip to the provider and back: parsing the text the client sends gives
  the same number of cents.\<close>

theorem ParseCallbackAmount_amount_text:
  "int cents \<le> max_int64 \<Longrightarrow> ParseCallbackAmount (amount_text cents) = Inr (int cents)"
  unfolding amount_text_def
proof (subst ParseCallbackAmount_plain)
  assume "int cents \<le> max_int64"
  have "int (cents div 100) * 100 + int (cents mod 100) = int cents"
    by (metis div_mult_mod_eq of_nat_add of_nat_mult of_nat_numeral)
  then show "Inr (int (digits_value (utoa (cents div 100))) * 100
        + int (digits_value (two_digits (cents mod 100)))) = Inr (int cents)"
    and "int (digits_value (utoa (cents div 100))) * 100
        + int (digits_value (two_digits (cents mod 100))) \<le> max_int64"
    using \<open>int cents \<le> max_int64\<close> by (simp_all add: two_digits_value)
qed (simp_all add: two_digits_all_digits two_digits_length)

text \<open>A parsed \<open>int64\<close> is in the \<open>int64\<close> range; unsigned text is not negative.\<close>

lemma parse_int64_range:
  "parse_int64 s = Some i \<Longrightarrow> - 9223372036854775808 \<le> i \<and> i \<le> max_int64"
  by (auto simp: parse_int64_def Let_def max_int64_def split: option.splits if_splits)

lemma parse_int64_nonneg:
  "parse_int64 s = Some i \<Longrightarrow> \<not> has_prefix s ''-'' \<Longrightarrow> 0 \<le> i"
  by (cases s) (auto simp: parse_int64_def Let_def split: option.splits if_splits)

lemma has_prefix_single: "has_prefix s [c] = (\<exists>t. s = c # t)"
  by (cases s) auto

lemma split_on_hd_prefix:
  "has_prefix (hd (split_on sep s)) [c] \<Longrightarrow> has_prefix s [c]"
  by (cases s) (auto simp: has_prefix_single split: list.splits if_splits)

lemma ParseCallbackAmount_range:
  assumes "ParseCallbackAmount s = Inr c"
  shows "0 \<le> c \<and> c \<le> max_int64"
proof -
  let ?raw = "trim_space s"
  let ?parts = "split_on CHR ''.'' ?raw"
  let ?p1 = "if length ?parts = 1 then [] else ?parts ! 1"
  obtain whole fraction where
    w: "parse_int64 (hd ?parts) = Some whole" and wmax: "\<not> max_int64 div 100 < whole"
    and f: "parse_int64 (amount_fraction ?p1) = Some fraction"
    and ok: "\<not> wrap64 (max_int64 - fraction) < wrap64 (whole * 100)"
    and c: "c = wrap64 (wrap64 (whole * 100) + fraction)"
    and sign: "\<not> has_prefix ?raw ''-''"
    using assms by (auto simp: ParseCallbackAmount_def Let_def split: if_splits option.splits)
  have w0: "0 \<le> whole"
    using w sign split_on_hd_prefix [of "CHR ''.''" ?raw "CHR ''-''"]
    by (intro parse_int64_nonneg [of "hd ?parts"]) auto
  have wr: "wrap64 (whole * 100) = whole * 100"
    using w0 wmax by (intro wrap64_id) (simp_all add: max_int64_def)
  have f0: "0 \<le> fraction"
  proof (rule ccontr)
    assume "\<not> 0 \<le> fraction"
    with parse_int64_range [OF f] have "wrap64 (max_int64 - fraction) < 0"
      by (subst wrap64_over) (simp_all add: max_int64_def)
    with ok wr w0 show False by simp
  qed
  have "wrap64 (max_int64 - fraction) = max_int64 - fraction"
    using f0 parse_int64_range [OF f] by (intro wrap64_id) (simp_all add: max_int64_def)
  with ok wr have "whole * 100 + fraction \<le> max_int64" by simp
  with c wr w0 f0 have "c = whole * 100 + fraction"
    by (simp add: wrap64_id)
  with \<open>whole * 100 + fraction \<le> max_int64\<close> w0 f0 show ?thesis by simp
qed

section \<open>Provider commission\<close>

text \<open>\<open>status.go\<close>, \<open>CommissionCents\<close>: an arbitrary number of decimals, rounded half up by the
  third decimal.\<close>

definition commission_fraction_cents :: "string \<Rightarrow> int" where
  "commission_fraction_cents f =
     (if 1 \<le> length f then int (digit_val (f ! 0)) * 10 else 0)
     + (if 2 \<le> length f then int (digit_val (f ! 1)) else 0)"

definition commission_round_up :: "string \<Rightarrow> bool" where
  "commission_round_up f \<longleftrightarrow> 3 \<le> length f \<and> 5 \<le> digit_val (f ! 2)"

definition CommissionCents :: "string \<Rightarrow> error + cents" where
  "CommissionCents commission =
     (let raw = trim_space commission in
      if raw = [] then Inl (errors_new ''provider commission is empty'')
      else if has_prefix raw ''-'' \<or> has_prefix raw ''+''
        then Inl (errors_new ''provider commission must be non-negative'')
      else if contains_any raw ''eE''
        then Inl (errors_new ''provider commission must use fixed-point notation'')
      else
        (let parts = split_on CHR ''.'' raw;
             fraction = (if length parts = 2 then parts ! 1 else []) in
         if 2 < length parts \<or> hd parts = [] then Inl (errors_new ''provider commission is invalid'')
         else if \<not> all_digits (hd parts @ fraction)
           then Inl (errors_new ''provider commission is invalid'')
         else (case parse_int64 (hd parts) of
             None \<Rightarrow> Inl (errors_new ''provider commission is out of range'')
           | Some whole \<Rightarrow>
               (let cents = commission_fraction_cents fraction;
                    total = whole * 100 + cents in
                if (max_int64 - cents) div 100 < whole
                then Inl (errors_new ''provider commission is out of range'')
                else if commission_round_up fraction
                then (if total = max_int64
                      then Inl (errors_new ''provider commission is out of range'')
                      else Inr (total + 1))
                else Inr total))))"

text \<open>The reference: the decimal \<open>a.f\<close> times one hundred, rounded half up.\<close>

definition half_up_cents :: "string \<Rightarrow> string \<Rightarrow> nat" where
  "half_up_cents a f =
     (200 * digits_value (a @ f) + 10 ^ length f) div (2 * 10 ^ length f)"

lemma half_up_split:
  assumes "m > 0" "R < m" "d < 10"
  shows "(200 * ((100 * p + 10 * q + d) * m + R) + 1000 * m) div (2000 * m)
           = 10 * p + q + (if 5 \<le> d then 1 else (0::nat))"
proof -
  have eq: "200 * ((100 * p + 10 * q + d) * m + R) + 1000 * m
      = (10 * p + q) * (2000 * m) + (200 * d * m + 200 * R + 1000 * m)"
    by (simp add: algebra_simps)
  have rest: "(200 * d * m + 200 * R + 1000 * m) div (2000 * m) = (if 5 \<le> d then 1 else 0)"
  proof (cases "5 \<le> d")
    case True
    have "200 * d * m + 200 * R + 1000 * m < 2 * (2000 * m)"
    proof -
      have "200 * d * m \<le> 1800 * m" using assms(3) by simp
      then show ?thesis using assms(2) by linarith
    qed
    moreover have "1000 * m \<le> 200 * d * m" using True by simp
    moreover have "2000 * m * Suc 1 = 2 * (2000 * m)" by simp
    ultimately have "2000 * m * 1 \<le> 200 * d * m + 200 * R + 1000 * m"
      and "200 * d * m + 200 * R + 1000 * m < 2000 * m * Suc 1"
      by linarith+
    then have "(200 * d * m + 200 * R + 1000 * m) div (2000 * m) = 1"
      by (rule div_nat_eqI)
    with True show ?thesis by simp
  next
    case False
    then have "200 * d * m \<le> 800 * m" by simp
    then have "200 * d * m + 200 * R + 1000 * m < 2000 * m"
      using assms(2) by linarith
    then show ?thesis using False by simp
  qed
  have "((10 * p + q) * (2000 * m) + (200 * d * m + 200 * R + 1000 * m)) div (2000 * m)
      = 10 * p + q + (200 * d * m + 200 * R + 1000 * m) div (2000 * m)"
    using assms(1) by (intro div_mult_self3) simp
  then show ?thesis
    unfolding eq rest .
qed

lemma half_up_short:
  assumes "all_digits a" "all_digits f" "length f < 3"
  shows "int (half_up_cents a f) = int (digits_value a) * 100 + commission_fraction_cents f"
proof -
  consider "f = []" | x where "f = [x]" | x y where "f = [x, y]"
    using assms(3) by (cases f; cases "tl f"; cases "tl (tl f)") auto
  then show ?thesis
  proof cases
    case 1
    then show ?thesis
      by (simp add: half_up_cents_def commission_fraction_cents_def)
  next
    case 2
    have "(200 * (digits_value a * 10 + digit_val x) + 10) div 20
        = digits_value a * 100 + digit_val x * 10"
      by (intro div_nat_eqI) simp_all
    with 2 show ?thesis
      by (simp add: half_up_cents_def commission_fraction_cents_def digits_value_append)
  next
    case 3
    have "(200 * (digits_value a * 100 + (digit_val x * 10 + digit_val y)) + 100) div 200
        = digits_value a * 100 + (digit_val x * 10 + digit_val y)"
      by (intro div_nat_eqI) simp_all
    with 3 show ?thesis
      by (simp add: half_up_cents_def commission_fraction_cents_def digits_value_append
          digits_value_Cons)
  qed
qed

lemma half_up_long:
  assumes "all_digits a" "all_digits f" "3 \<le> length f"
  shows "int (half_up_cents a f)
    = int (digits_value a) * 100 + commission_fraction_cents f + (if commission_round_up f then 1 else 0)"
proof -
  obtain x y z r where f: "f = x # y # z # r"
    using assms(3) by (cases f; cases "tl f"; cases "tl (tl f)") auto
  define m where "m = (10::nat) ^ length r"
  have dz: "digit_val z < 10"
    using assms(2) f by (simp add: all_digits_def digit_val_less)
  have R: "digits_value r < m"
    unfolding m_def using assms(2) f by (intro digits_value_bound) (simp add: all_digits_def)
  have v: "digits_value (a @ f)
      = (100 * (10 * digits_value a + digit_val x) + 10 * digit_val y + digit_val z) * m + digits_value r"
    by (simp add: f digits_value_append digits_value_Cons m_def algebra_simps)
  have len: "10 ^ length f = 1000 * m"
    by (simp add: f m_def)
  have "half_up_cents a f
      = 10 * (10 * digits_value a + digit_val x) + digit_val y + (if 5 \<le> digit_val z then 1 else 0)"
    unfolding half_up_cents_def v len
    using half_up_split [of m "digits_value r" "digit_val z" "10 * digits_value a + digit_val x" "digit_val y"]
      R dz by (simp add: m_def)
  then show ?thesis
    by (simp add: f commission_fraction_cents_def commission_round_up_def)
qed

lemma half_up_cents_eq:
  assumes "all_digits a" "all_digits f"
  shows "int (half_up_cents a f)
    = int (digits_value a) * 100 + commission_fraction_cents f + (if commission_round_up f then 1 else 0)"
  using half_up_short [OF assms] half_up_long [OF assms]
  by (cases "length f < 3") (auto simp: commission_round_up_def)

lemma commission_fraction_cents_range:
  "all_digits f \<Longrightarrow> 0 \<le> commission_fraction_cents f \<and> commission_fraction_cents f < 100"
proof -
  assume f: "all_digits f"
  consider "f = []" | x where "f = [x]" | x y r where "f = x # y # r"
    by (cases f; cases "tl f") auto
  then show ?thesis
  proof cases
    case 1
    then show ?thesis by (simp add: commission_fraction_cents_def)
  next
    case (2 x)
    then have "digit_val x < 10"
      using f by (simp add: all_digits_def digit_val_less)
    with 2 show ?thesis by (simp add: commission_fraction_cents_def)
  next
    case (3 x y r)
    then have "digit_val x < 10" "digit_val y < 10"
      using f by (simp_all add: all_digits_def digit_val_less)
    with 3 show ?thesis by (simp add: commission_fraction_cents_def)
  qed
qed

lemma commission_overflow_iff:
  assumes "0 \<le> c" "c < 100"
  shows "(max_int64 - c) div 100 < w \<longleftrightarrow> max_int64 < w * 100 + (c::int)"
  using assms by (simp add: max_int64_def) linarith

text \<open>The digit-wise commission reader agrees with exact half-up rounding of the decimal number,
  of any length, and refuses exactly the results that do not fit an \<open>int64\<close>.\<close>

theorem CommissionCents_plain:
  assumes a: "all_digits a" "a \<noteq> []" and f: "all_digits f"
  shows "CommissionCents (a @ CHR ''.'' # f)
    = (if int (half_up_cents a f) \<le> max_int64 then Inr (int (half_up_cents a f))
       else Inl (errors_new ''provider commission is out of range''))"
proof -
  note guards = plain_decimal_guards [OF a f]
  note cents = commission_fraction_cents_range [OF f]
  have ovf: "(max_int64 - commission_fraction_cents f) div 100 < int (digits_value a)
      \<longleftrightarrow> max_int64 < int (digits_value a) * 100 + commission_fraction_cents f"
    using cents by (intro commission_overflow_iff) simp_all
  have big: "max_int64 < int (digits_value a) * 100 + commission_fraction_cents f"
    if "max_int64 < int (digits_value a)"
    using that cents by (simp add: max_int64_def)
  show ?thesis
    using guards a f cents big ovf
    by (auto simp: CommissionCents_def Let_def parse_int64_digits half_up_cents_eq)
qed

section \<open>Payment link life time\<close>

text \<open>
  \<open>client.go\<close>, \<open>ParseExpiresIn\<close>, over \<open>time.Parse("15:04:05", v)\<close>: an hour of one or two
  digits below 24, two-digit minutes and seconds below 60, an optional fraction of a second
  (which \<open>Hour\<close>, \<open>Minute\<close> and \<open>Second\<close> do not see), nothing after it.
\<close>

fun get_num :: "bool \<Rightarrow> string \<Rightarrow> (nat \<times> string) option" where
  "get_num fixed [] = None"
| "get_num fixed [c] =
     (if is_digit c \<and> \<not> fixed then Some (digit_val c, []) else None)"
| "get_num fixed (c # d # s) =
     (if \<not> is_digit c then None
      else if \<not> is_digit d then (if fixed then None else Some (digit_val c, d # s))
      else Some (digit_val c * 10 + digit_val d, s))"

fun skip_colon :: "string \<Rightarrow> string option" where
  "skip_colon [] = None"
| "skip_colon (c # s) = (if c = CHR '':'' then Some s else None)"

fun skip_fraction :: "string \<Rightarrow> string" where
  "skip_fraction (p # d # s) =
     (if (p = CHR ''.'' \<or> p = CHR '','') \<and> is_digit d then dropWhile is_digit s else p # d # s)"
| "skip_fraction s = s"

definition parse_clock :: "string \<Rightarrow> (nat \<times> nat \<times> nat) option" where
  "parse_clock v =
     (case get_num False v of None \<Rightarrow> None | Some (h, s1) \<Rightarrow>
      if 24 \<le> h then None else
      (case skip_colon s1 of None \<Rightarrow> None | Some s2 \<Rightarrow>
      (case get_num True s2 of None \<Rightarrow> None | Some (m, s3) \<Rightarrow>
      if 60 \<le> m then None else
      (case skip_colon s3 of None \<Rightarrow> None | Some s4 \<Rightarrow>
      (case get_num True s4 of None \<Rightarrow> None | Some (s, s5) \<Rightarrow>
      if 60 \<le> s then None
      else if skip_fraction s5 \<noteq> [] then None else Some (h, m, s))))))"

definition ParseExpiresIn :: "string \<Rightarrow> error + duration" where
  "ParseExpiresIn raw =
     (let value = trim_space raw in
      if value = [] then Inl (errors_new ''expiresIn is required'')
      else (case parse_clock value of
          None \<Rightarrow> Inl (errors_new ''expiresIn must use HH:MM:SS'')
        | Some (h, m, s) \<Rightarrow>
            if h = 0 \<and> m = 0 \<and> s = 0 then Inl (errors_new ''expiresIn must be positive'')
            else Inr (int h * hour + int m * minute + int s * second)))"

definition clock_text :: "nat \<Rightarrow> nat \<Rightarrow> nat \<Rightarrow> string" where
  "clock_text h m s = two_digits h @ CHR '':'' # two_digits m @ CHR '':'' # two_digits s"

lemma parse_clock_range: "parse_clock v = Some (h, m, s) \<Longrightarrow> h < 24 \<and> m < 60 \<and> s < 60"
  by (auto simp: parse_clock_def split: option.splits prod.splits if_splits)

lemma two_digits_shape:
  assumes "n < 100"
  obtains c d where "two_digits n = [c, d]" "is_digit c" "is_digit d"
    "digit_val c * 10 + digit_val d = n"
proof -
  obtain c d where cd: "two_digits n = [c, d]"
    using two_digits_length [OF assms] by (auto simp: length_Suc_conv numeral_2_eq_2)
  moreover have "is_digit c" "is_digit d"
    using two_digits_all_digits [of n] cd by (auto simp: all_digits_def)
  moreover have "digit_val c * 10 + digit_val d = n"
    using two_digits_value [of n] cd by (simp add: digits_value_Cons)
  ultimately show ?thesis by (rule that)
qed

lemma parse_clock_clock_text:
  assumes "h < 24" "m < 60" "s < 60"
  shows "parse_clock (clock_text h m s) = Some (h, m, s)"
proof -
  obtain h1 h2 where h: "two_digits h = [h1, h2]" "is_digit h1" "is_digit h2"
      "digit_val h1 * 10 + digit_val h2 = h"
    using assms by (auto intro: two_digits_shape [of h])
  obtain m1 m2 where m: "two_digits m = [m1, m2]" "is_digit m1" "is_digit m2"
      "digit_val m1 * 10 + digit_val m2 = m"
    using assms by (auto intro: two_digits_shape [of m])
  obtain s1 s2 where s: "two_digits s = [s1, s2]" "is_digit s1" "is_digit s2"
      "digit_val s1 * 10 + digit_val s2 = s"
    using assms by (auto intro: two_digits_shape [of s])
  show ?thesis
    using assms h m s by (simp add: parse_clock_def clock_text_def)
qed

text \<open>A payment link lives at least a second and less than a day.\<close>

theorem ParseExpiresIn_range:
  "ParseExpiresIn raw = Inr d \<Longrightarrow> second \<le> d \<and> d < 24 * hour"
  using parse_clock_range [of "trim_space raw"]
  by (fastforce simp: ParseExpiresIn_def Let_def duration_defs split: if_splits option.splits prod.splits)

section \<open>Callback validation\<close>

text \<open>\<open>callback.go\<close>, \<open>ParseTransactionID\<close>, \<open>Validate\<close>, \<open>VerifyHeaders\<close>. The constant-time
  comparison is equality of the two byte strings.\<close>

definition ParseTransactionID :: "uuid_parser \<Rightarrow> string \<Rightarrow> error + uuid" where
  "ParseTransactionID uuid_parse raw =
     (let value = trim_space raw in
      (case uuid_parse value of
         None \<Rightarrow> Inl (errors_new ''transaction ID must be UUID'')
       | Some (parsed, version) \<Rightarrow>
           if version \<noteq> 4 then Inl (errors_new ''transaction ID must be UUID v4'')
           else if parsed \<noteq> to_lower value
             then Inl (errors_new ''transaction ID must use canonical lowercase UUID format'')
           else Inr parsed))"

record callback_payload =
  cp_id :: string
  cp_amount :: string
  cp_currency :: string
  cp_status :: string
  cp_payment_method :: "int option"
  cp_payload :: string

definition Validate :: "uuid_parser \<Rightarrow> callback_payload \<Rightarrow> error + unit" where
  "Validate uuid_parse p =
     (if trim_space (cp_id p) = [] then Inl (errors_new ''id is required'')
      else (case ParseTransactionID uuid_parse (cp_id p) of
          Inl e \<Rightarrow> Inl e
        | Inr _ \<Rightarrow> (case ParseCallbackAmount (cp_amount p) of
              Inl e \<Rightarrow> Inl e
            | Inr _ \<Rightarrow>
                if trim_space (cp_currency p) = [] then Inl (errors_new ''currency is required'')
                else if trim_space (cp_status p) = [] then Inl (errors_new ''status is required'')
                else Inr ())))"

definition VerifyHeaders :: "string \<Rightarrow> string \<Rightarrow> (string \<Rightarrow> string) \<Rightarrow> bool" where
  "VerifyHeaders merchantID secret headers =
     (if trim_space merchantID = [] \<or> trim_space secret = [] then False
      else
        (let gotMerchant = headers ''X-Merchantid'';
             gotSecret = headers ''X-Secret'' in
         if trim_space gotMerchant = [] \<or> trim_space gotSecret = [] then False
         else merchantID = gotMerchant \<and> secret = gotSecret))"

end
