(* ===== verification/Samples.thy ===== *)
theory Samples
  imports Sync_Laws Order_Laws Platega
begin

text \<open>
  A small concrete installation, on which the properties are instantiated: three plans, two nodes,
  one product, one paying user. The facts about it are evaluated from the definitions.
\<close>

definition day0 :: time where "day0 = 20000 * 86400000000000"

definition free_plan :: plan where
  "free_plan = \<lparr>pl_id = 1, pl_name = ''free'', pl_is_active = True, pl_devices_limit = 1, pl_traffic_limit = 10\<rparr>"

definition trial_plan :: plan where
  "trial_plan = \<lparr>pl_id = 2, pl_name = ''trial'', pl_is_active = True, pl_devices_limit = 1, pl_traffic_limit = 1\<rparr>"

definition paid_plan :: plan where
  "paid_plan = \<lparr>pl_id = 3, pl_name = ''premium'', pl_is_active = True, pl_devices_limit = 5, pl_traffic_limit = 0\<rparr>"

definition node1 :: node where
  "node1 = \<lparr>n_id = 1, n_name = ''a'', n_is_active = True, n_host = ''h1'', n_subscription_url = ''https://h1/sub'', n_type = NodeType3xUI\<rparr>"

definition node2 :: node where
  "node2 = \<lparr>n_id = 2, n_name = ''b'', n_is_active = True, n_host = ''h2'', n_subscription_url = ''https://h2/sub'', n_type = NodeTypeProxman\<rparr>"

definition month :: product where
  "month = \<lparr>pr_id = 1, pr_plan_id = 3, pr_name = ''month'', pr_duration_days = 30,
            pr_price_cents = 19900, pr_currency = ''RUB'', pr_is_active = True\<rparr>"

definition user_sub :: subscription where
  "user_sub = blank_subscription\<lparr>s_id := 7, s_telegram_id := 100, s_username := ''bob'',
     s_client_id := ''c7'', s_subscription_id := ''sub7'', s_plan_id := 1\<rparr>"

definition paid_sub :: subscription where
  "paid_sub = user_sub\<lparr>s_plan_id := 3, s_product_id := Some 1, s_price_paid_cents := 19900,
     s_expires_at := Some day0\<rparr>"

definition pending_order :: order where
  "pending_order = (new_intent 7 1 19900 ''RUB'' day0)\<lparr>o_id := 1, o_provider_payment_id := ''p1''\<rparr>"

definition paid_order :: order where
  "paid_order = pending_order\<lparr>o_status := OrderStatusPaid, o_paid_at := Some day0,
     o_activated_at := Some day0, o_expires_at := Some (day0 + 30 * day)\<rparr>"

definition active_binding :: subscription_node where
  "active_binding = (fresh_binding 7 1)\<lparr>sn_status := SyncStatusActive\<rparr>"

definition db0 :: db where
  "db0 = \<lparr>subscriptions = [user_sub], orders = [pending_order], products = [month],
          plans = [free_plan, trial_plan, paid_plan], nodes = [node1, node2],
          plan_nodes = [(1, 1), (3, 1), (3, 2)], subscription_nodes = [active_binding],
          invites = [], trial_requests = [], audit = [], broadcasts = [], subscription_seq = 7, order_seq = 1,
          audit_seq = 0, broadcast_seq = 0, row_clock = day0\<rparr>"

text \<open>The same after the payment.\<close>

definition db1 :: db where
  "db1 = db0\<lparr>subscriptions := [paid_sub], orders := [paid_order]\<rparr>"

definition world_of :: "db \<Rightarrow> world" where
  "world_of d = \<lparr>db = d, turns = [], trace = [], node_health = None\<rparr>"

lemma calm_world_of [simp]: "calm (world_of d)"
  by (simp add: calm_def world_of_def)

lemma step_world_of [simp]: "step_other (world_of d) = world_of d" "db (world_of d) = d"
  "step_turn (world_of d) = world_of d"
  by (simp_all add: step_other_def next_turn_def world_of_def step_turn_def)

text \<open>Panels that accept everything, and panels that are down.\<close>

definition good_env :: node_env where
  "good_env = \<lparr>ne_nodes = [node1, node2], ne_provision = (\<lambda>_. True), ne_reader = (\<lambda>_. False),
     ne_answer = (\<lambda>_ _ _ _. None),
     ne_profile = (\<lambda>_ _ _. Inr \<lparr>rp_reset = 0, rp_reset_day = 0, rp_reset_max = 0,
                                rp_traffic_reset = [], rp_traffic_reset_day = 0\<rparr>),
     ne_ping = (\<lambda>_ _. None), ne_lock = (\<lambda>_ _. None), ne_ctx = (\<lambda>_. None)\<rparr>"

lemma healthy_good: "healthy good_env"
  by (simp add: healthy_def good_env_def)

lemma db0_wf: "orders_wf db0" "subs_wf db0" "bindings_wf db0"
  by code_simp+

lemma db1_wf: "orders_wf db1" "subs_wf db1" "bindings_wf db1"
  by code_simp+

end
