(* ===== verification/Witnesses.thy ===== *)
theory Witnesses
  imports Samples
begin

text \<open>
  The properties of the stores and of the synchronisation, applied to the sample installation: each
  hypothesis is met by a concrete run, evaluated from the definitions.
\<close>

section \<open>Reading a run\<close>

definition succeeds :: "(error + 'a) \<times> 's \<Rightarrow> bool" where
  "succeeds x = (case fst x of Inr _ \<Rightarrow> True | Inl _ \<Rightarrow> False)"

definition fails :: "(error + 'a) \<times> 's \<Rightarrow> bool" where
  "fails x = (case fst x of Inr _ \<Rightarrow> False | Inl _ \<Rightarrow> True)"

definition activates :: "(error + bool \<times> 'a) \<times> 's \<Rightarrow> bool" where
  "activates x = (case fst x of Inr (b, _) \<Rightarrow> b | Inl _ \<Rightarrow> False)"

lemma succeedsE: "succeeds x \<Longrightarrow> \<exists>r w. x = (Inr r, w)"
  by (cases x) (auto simp: succeeds_def split: sum.splits)

lemma failsE: "fails x \<Longrightarrow> \<exists>e w. x = (Inl e, w)"
  by (cases x) (auto simp: fails_def split: sum.splits)

lemma activatesE: "activates x \<Longrightarrow> \<exists>s w. x = (Inr (True, s), w)"
  by (cases x) (auto simp: activates_def split: sum.splits)

section \<open>Payments\<close>

lemma sample_confirm:
  "activates (ConfirmOrderPaidCAS 1 day0 day0 user_sub month (Some ApplyPlanToSubscriptionInTx) 19900 (world_of db0))"
  by code_simp

lemma ConfirmOrderPaidCAS_once_witness:
  "\<exists>s w'. ConfirmOrderPaidCAS 1 day0 day0 user_sub month (Some ApplyPlanToSubscriptionInTx) 19900 (world_of db0)
      = (Inr (True, s), w')
    \<and> (\<forall>s2 v'. ConfirmOrderPaidCAS 1 day0 day0 user_sub month None 19900 (world_of (db w')) \<noteq> (Inr (True, s2), v'))"
proof -
  obtain s w' where run: "ConfirmOrderPaidCAS 1 day0 day0 user_sub month (Some ApplyPlanToSubscriptionInTx) 19900
      (world_of db0) = (Inr (True, s), w')"
    using activatesE [OF sample_confirm] by blast
  have "ConfirmOrderPaidCAS 1 day0 day0 user_sub month None 19900 (world_of (db w')) \<noteq> (Inr (True, s2), v')" for s2 v'
    by (rule ConfirmOrderPaidCAS_once [OF run])
      (auto simp: db0_wf orders.db_refl intro: ApplyPlanInTx_orders)
  with run show ?thesis by blast
qed

lemma FindOrCreatePendingPaymentOrder_total_witness:
  "\<exists>r w'. FindOrCreatePendingPaymentOrder 7 1 19900 ''RUB'' day0 (world_of db1) = (Inr r, w')
     \<and> r \<in> set (orders (db w')) \<and> (\<forall>x \<in> set (orders (db w')). intent_of 7 1 x \<longleftrightarrow> x = r)
     \<and> (o_payment_creation_uncertain r \<or> \<not> link_expired day0 r)"
  by (rule FindOrCreatePendingPaymentOrder_total)
    (simp_all add: db1_wf, simp_all add: db1_def db0_def paid_sub_def user_sub_def month_def)

lemma payment_keeps_paid_time_witness:
  "0 \<le> pr_duration_days month \<and> day0 + pr_duration_days month * day
     \<le> CalculatePaymentExpiry day0 (Some paid_sub) (Some month)"
  using payment_keeps_paid_time [of month day0 paid_sub day0] by (simp add: month_def)

section \<open>Parsing\<close>

lemma ParseCallbackAmount_amount_text_witness:
  "ParseCallbackAmount (amount_text 19905) = Inr 19905"
  using ParseCallbackAmount_amount_text [of 19905] by (simp add: max_int64_def)

lemma CommissionCents_plain_witness:
  "CommissionCents (''1'' @ CHR ''.'' # ''005'') = Inr 101"
proof -
  have "half_up_cents ''1'' ''005'' = 101"
    by (simp add: half_up_cents_def digits_value_def digit_val_def)
  moreover have "all_digits ''1''" "all_digits ''005''"
    by (simp_all add: all_digits_def is_digit_def)
  ultimately show ?thesis
    using CommissionCents_plain [of "''1''" "''005''"] by (simp add: max_int64_def)
qed

lemma ParseExpiresIn_range_witness: "second \<le> 900 * second \<and> 900 * second < 24 * hour"
  by (rule ParseExpiresIn_range [of "''00:15:00''"]) code_simp

lemma diffState_round_trip_witness:
  "json_patch (SubscriptionAuditState (Some user_sub))
      (snd (diffState (SubscriptionAuditState (Some user_sub)) (SubscriptionAuditState (Some paid_sub)))) ''plan_id''
    = json_get (SubscriptionAuditState (Some paid_sub)) ''plan_id''"
  using diffState_round_trip [OF SubscriptionAuditState_distinct SubscriptionAuditState_distinct] by blast

lemma sample_update_product: "succeeds (UpdateProductGuarded (Some month) (world_of db0))"
  by code_simp

lemma UpdateProductGuarded_frozen_witness:
  "\<exists>cur \<in> set (products db0). pr_id cur = pr_id month \<and> same_terms cur month"
proof -
  obtain w' where "UpdateProductGuarded (Some month) (world_of db0) = (Inr (), w')"
    using succeedsE [OF sample_update_product] by auto
  then show ?thesis
    using UpdateProductGuarded_frozen [of month "world_of db0" w']
    by (simp add: db0_def month_def pending_order_def new_intent_def)
qed


section \<open>Subscriptions\<close>

definition live_sub :: subscription where
  "live_sub = paid_sub\<lparr>s_expires_at := Some (day0 + day)\<rparr>"

definition db2 :: db where "db2 = db1\<lparr>subscriptions := [live_sub]\<rparr>"

lemma ExpireSubscriptionWithPlanCAS_respects_renewal_witness:
  "\<exists>r w'. ExpireSubscriptionWithPlanCAS day0 7 1 (Some ApplyPlanToSubscriptionInTx) (world_of db2) = (r, w')
    \<and> db w' = db2"
proof -
  obtain r w' where run: "ExpireSubscriptionWithPlanCAS day0 7 1 (Some ApplyPlanToSubscriptionInTx) (world_of db2) = (r, w')"
    by (cases "ExpireSubscriptionWithPlanCAS day0 7 1 (Some ApplyPlanToSubscriptionInTx) (world_of db2)")
  have "db w' = db (step_other (world_of db2))"
    by (intro ExpireSubscriptionWithPlanCAS_respects_renewal [OF run])
      (simp add: db2_def live_sub_def duration_defs)
  with run show ?thesis by simp
qed

lemma sample_expiry: "succeeds (ExpireSubscriptionWithPlanCAS day0 7 1 None (world_of db1))"
  by code_simp

lemma ExpireSubscriptionWithPlanCAS_frees_witness:
  "\<exists>w'. ExpireSubscriptionWithPlanCAS day0 7 1 None (world_of db1) = (Inr (), w')
    \<and> (\<forall>s \<in> set (subscriptions (db w')). s_id s = 7 \<longrightarrow> already_free 1 s)"
proof -
  obtain w' where run: "ExpireSubscriptionWithPlanCAS day0 7 1 None (world_of db1) = (Inr (), w')"
    using succeedsE [OF sample_expiry] by auto
  show ?thesis
    using run ExpireSubscriptionWithPlanCAS_frees [OF run] db1_wf by auto
qed

section \<open>Synchronisation\<close>

definition add_binding :: subscription_node where "add_binding = fresh_binding 7 2"

definition revoked_sub :: subscription where
  "revoked_sub = user_sub\<lparr>s_status := SubscriptionStatusRevoked\<rparr>"

definition db3 :: db where
  "db3 = db1\<lparr>subscription_nodes := [active_binding, add_binding]\<rparr>"

lemma db3_wf: "bindings_wf db3"
  by code_simp

lemma sync_converges_witness:
  "\<exists>w1 w2 es. ReconcilePlanNodes good_env 7 (world_of db1) = (Inr (), w1)
    \<and> SyncSubscription good_env day0 7 w1 = (Inr (), w2) \<and> in_step 7 [1, 2] (db w2)
    \<and> trace w2 = trace (world_of db1) @ es
    \<and> list_all (\<lambda>n. provisioned paid_sub paid_plan n es
         \<or> list_ex (\<lambda>sn. sn_node_id sn = n \<and> sn_status sn = SyncStatusActive) (rows_of 7 (db (world_of db1))))
        [1, 2]
    \<and> list_all (\<lambda>sn. sn_node_id sn \<in> set [1, 2]
         \<or> removed_from paid_sub (db (world_of db1)) (sn_node_id sn) es) (rows_of 7 (db (world_of db1)))"
proof -
  have t: "plan_targets (s_plan_id paid_sub) (db (world_of db1)) = [1, 2]"
    by code_simp
  show ?thesis
  proof (rule sync_converges [where x = paid_sub and pl = paid_plan and s = 7 and now = day0
        and w = "world_of db1" and env = good_env, unfolded t])
    show "find_subscription 7 (db (world_of db1)) = Inr paid_sub"
      by code_simp
    show "find_plan (s_plan_id paid_sub) (db (world_of db1)) = Inr paid_plan"
      by code_simp
    show "list_all (served good_env) (map sn_node_id (rows_of 7 (db (world_of db1))) @ [1, 2])"
      by code_simp
    show "list_all (retry_passed day0) (rows_of 7 (db (world_of db1)))"
      by code_simp
  qed (simp_all add: db1_wf healthy_good, simp add: paid_sub_def user_sub_def blank_subscription_def)
qed

lemma apply_plan_entry_points_agree_witness:
  "\<exists>w' v'. applyPlanToSubscriptionLocked 7 (world_of db1) = (Inr (), w')
    \<and> ApplyPlanToSubscriptionInTx 7 3 (world_of db1) = (Inr (), v') \<and> db v' = db w'"
proof -
  have f: "find_subscription 7 (db (world_of db1)) = Inr paid_sub"
    by code_simp
  have s: "s_status paid_sub \<noteq> SubscriptionStatusRevoked" "s_plan_id paid_sub = 3"
    by code_simp+
  have t: "distinct (plan_targets (s_plan_id paid_sub) (db (world_of db1)))"
    by code_simp
  show ?thesis
    using apply_plan_entry_points_agree [OF calm_world_of calm_world_of refl _ f s(1) t] db1_wf s(2) by auto
qed

lemma revoked_only_deleted_witness:
  "\<exists>r w'. syncNodes good_env day0 revoked_sub [add_binding] (world_of db3) = (r, w')
    \<and> trace w' \<noteq> [] \<and> list_all (delete_for revoked_sub {2}) (trace w')"
proof -
  obtain r w' where run: "syncNodes good_env day0 revoked_sub [add_binding] (world_of db3) = (r, w')"
    by (cases "syncNodes good_env day0 revoked_sub [add_binding] (world_of db3)")
  have "trace (snd (syncNodes good_env day0 revoked_sub [add_binding] (world_of db3))) \<noteq> []"
    by code_simp
  then show ?thesis
    using run revoked_only_deleted [OF run]
    by (simp add: revoked_sub_def world_of_def add_binding_def fresh_binding_def)
qed

lemma syncNodes_effects_witness:
  "\<exists>r w'. syncNodes good_env day0 paid_sub [add_binding] (world_of db3) = (r, w')
    \<and> list_all (call_for paid_sub {2}) (trace w')"
proof -
  obtain r w' where run: "syncNodes good_env day0 paid_sub [add_binding] (world_of db3) = (r, w')"
    by (cases "syncNodes good_env day0 paid_sub [add_binding] (world_of db3)")
  show ?thesis
    using run syncNodes_effects [OF run] by (simp add: world_of_def add_binding_def fresh_binding_def)
qed

lemma sample_add: "succeeds (processPendingAdd good_env day0 add_binding paid_sub (world_of db3))"
  by code_simp

lemma processPendingAdd_accepted_witness:
  "\<exists>w'. processPendingAdd good_env day0 add_binding paid_sub (world_of db3) = (Inr (), w')
    \<and> settled SyncStatusActive add_binding (db w')"
  using succeedsE [OF sample_add] processPendingAdd_accepted by fastforce

lemma sample_remove:
  "succeeds (processPendingRemove good_env day0 add_binding paid_sub (world_of db3))"
  by code_simp

lemma processPendingRemove_removed_witness:
  "\<exists>w'. processPendingRemove good_env day0 add_binding paid_sub (world_of db3) = (Inr (), w')
    \<and> dropped add_binding (db w')"
  using succeedsE [OF sample_remove] processPendingRemove_removed by fastforce

lemma handleSyncError_row_witness:
  "\<exists>w'. handleSyncError day0 add_binding [NetError] (world_of db3) = (Inr (), w')
    \<and> db w' = db3\<lparr>subscription_nodes :=
         update_where (\<lambda>x. x = add_binding) (after_error day0 [NetError]) (subscription_nodes db3)\<rparr>"
  using handleSyncError_row [of "world_of db3" add_binding day0 "[NetError]"] db3_wf
  by (simp add: db3_def)

lemma CalculateRetryAt_bounds_witness:
  "day0 < CalculateRetryAt day0 3 \<and> CalculateRetryAt day0 3 \<le> day0 + hour"
  by (rule CalculateRetryAt_bounds) simp

lemma retry_ladder_witness:
  "sn_retry_count (after_errors (replicate 11 (day0, [NetError])) add_binding) = 10
    \<and> sn_retry_at (after_errors (replicate 11 (day0, [NetError])) add_binding) = Some parkedRetryAt"
proof -
  have "list_all (\<lambda>(t, e). sync_retryable e \<and> \<not> is_ctx_err e) (replicate 11 (day0, [NetError]))"
    by code_simp
  then show ?thesis
    using retry_ladder [of "replicate 11 (day0, [NetError])" add_binding]
    by (simp add: add_binding_def fresh_binding_def maxSyncRetries_def)
qed

lemma parked_not_due_witness:
  "\<not> due day0 (set_retry 10 (Some parkedRetryAt) None add_binding)"
proof (rule parked_not_due)
  show "sn_retry_at (set_retry 10 (Some parkedRetryAt) None add_binding) = Some parkedRetryAt"
    by (simp add: set_retry_def)
  show "day0 < parkedRetryAt"
    by code_simp
qed

end
