(* ===== verification/Reminder_Store.thy ===== *)
theory Reminder_Store
  imports Subscription_Store
begin

text \<open>
  The reminder bits of a subscription: \<open>internal/database/subscription_reminders.go\<close> and
  \<open>subscription_traffic.go\<close>.

  A notification is claimed before it is sent: one statement tests the bit and sets it. The bits
  of the expiry reminders belong to one expiry; a claim or a release for another expiry than the
  row has changes nothing. The bit operations are SQLite's, on 64-bit integers; the values used are
  small and non-negative, so they are those of \<open>int\<close>.
\<close>

unbundle bit_operations_syntax

section \<open>Statements\<close>

definition set_reminders :: "(int \<Rightarrow> int) \<Rightarrow> subscription \<Rightarrow> subscription" where
  "set_reminders f s = s\<lparr>s_reminders_sent := f (s_reminders_sent s)\<rparr>"

definition ClaimReminder :: "uint \<Rightarrow> int \<Rightarrow> time \<Rightarrow> (world, bool) op" where
  "ClaimReminder i flag expiresAt =
     bindE (stmtE (update_subs
              (\<lambda>s. s_id s = i \<and> s_expires_at s = Some expiresAt \<and> s_reminders_sent s AND flag = 0)
              (set_reminders (\<lambda>m. m OR flag)))) (\<lambda>n.
     if 0 < n then returnE True
     else bindE (queryE (find_subscription i)) (\<lambda>_. returnE False))"

definition ReleaseReminder :: "uint \<Rightarrow> int \<Rightarrow> time \<Rightarrow> (world, unit) op" where
  "ReleaseReminder i flag expiresAt =
     bindE (stmtE (update_subs (\<lambda>s. s_id s = i \<and> s_expires_at s = Some expiresAt)
              (set_reminders (\<lambda>b. b AND NOT flag)))) (\<lambda>n.
     if 0 < n then returnE ()
     else bindE (queryE (find_subscription i)) (\<lambda>_. returnE ()))"

definition expiring_in :: "db \<Rightarrow> time \<Rightarrow> time \<Rightarrow> subscription \<Rightarrow> bool" where
  "expiring_in d a b s \<longleftrightarrow> s_status s = SubscriptionStatusActive
     \<and> (case s_expires_at s of None \<Rightarrow> False | Some t \<Rightarrow> a \<le> t \<and> t \<le> b)
     \<and> \<not> list_ex (\<lambda>p. pl_id p = s_plan_id s \<and> (pl_name p = FreePlanName \<or> pl_name p = TrialPlanName)) (plans d)"

definition GetSubscriptionsExpiringInRange :: "time \<Rightarrow> time \<Rightarrow> (world, subscription list) op" where
  "GetSubscriptionsExpiringInRange a b = query (\<lambda>d. filter (expiring_in d a b) (subscriptions d))"

definition TrafficBit90 :: int where "TrafficBit90 = 1"
definition TrafficBitExhausted :: int where "TrafficBitExhausted = 2"
definition TrafficBitReset :: int where "TrafficBitReset = 4"

definition traffic_targets :: "db \<Rightarrow> (subscription \<times> int) list" where
  "traffic_targets d =
     concat (map (\<lambda>s. map (\<lambda>p. (s, pl_traffic_limit p))
                        (filter (\<lambda>p. pl_id p = s_plan_id s \<and> 0 < pl_traffic_limit p) (plans d)))
                 (filter (\<lambda>s. s_status s = SubscriptionStatusActive) (subscriptions d)))"

definition GetActiveSubscriptionsWithTrafficLimit :: "(world, (subscription \<times> int) list) op" where
  "GetActiveSubscriptionsWithTrafficLimit = query traffic_targets"

definition set_traffic_reminders :: "(int \<Rightarrow> int) \<Rightarrow> subscription \<Rightarrow> subscription" where
  "set_traffic_reminders f s = s\<lparr>s_traffic_reminders_sent := f (s_traffic_reminders_sent s)\<rparr>"

definition ClaimTrafficReminder :: "uint \<Rightarrow> int \<Rightarrow> (world, bool) op" where
  "ClaimTrafficReminder i flag =
     bindE (stmtE (update_subs (\<lambda>s. s_id s = i \<and> s_traffic_reminders_sent s AND flag = 0)
              (set_traffic_reminders (\<lambda>m. m OR flag)))) (\<lambda>n.
     if 0 < n then returnE True
     else bindE (queryE (find_subscription i)) (\<lambda>_. returnE False))"

definition ReleaseTrafficReminder :: "uint \<Rightarrow> int \<Rightarrow> (world, unit) op" where
  "ReleaseTrafficReminder i flag =
     bindE (stmtE (update_subs (\<lambda>s. s_id s = i) (set_traffic_reminders (\<lambda>b. b AND NOT flag)))) (\<lambda>n.
     if 0 < n then returnE ()
     else bindE (queryE (find_subscription i)) (\<lambda>_. returnE ()))"

section \<open>Contracts\<close>

lemma reminder_row_ids [simp]:
  "s_id (set_reminders f s) = s_id s" "s_id (set_traffic_reminders f s) = s_id s"
  by (simp_all add: set_reminders_def set_traffic_reminders_def)

context store_base
begin

lemma reminder_operations:
  "keeps (on_db R) (ClaimReminder i b t)"
  "keeps (on_db R) (ReleaseReminder i b t)"
  "keeps (on_db R) (GetSubscriptionsExpiringInRange t t')"
  "keeps (on_db R) GetActiveSubscriptionsWithTrafficLimit"
  "keeps (on_db R) (ClaimTrafficReminder i b)"
  "keeps (on_db R) (ReleaseTrafficReminder i b)"
  unfolding ClaimReminder_def ReleaseReminder_def GetSubscriptionsExpiringInRange_def
    GetActiveSubscriptionsWithTrafficLimit_def ClaimTrafficReminder_def ReleaseTrafficReminder_def
  by (intro sub.statements; simp)+

end

end
