(* ===== verification/Subscription_Service.thy ===== *)
theory Subscription_Service
  imports Sync_Laws Reminder_Store
begin

text \<open>
  The life of a subscription: \<open>internal/service/subscription.go\<close> and the expiry reminders of
  \<open>internal/service/subscription_reminders.go\<close>.

  The service owns the order of its steps: the row first, then the bindings (the durable queue),
  then the panels as far as they answer, then the caches. \<open>svc_env\<close> holds what it is configured
  with: the panels and the optional synchronisation service, the generators of ids, the cache
  callbacks, the Telegram client and the administrator named in the caller's context. A pointer to
  a subscription is a value here; an operation that mutates its argument returns the new one.
\<close>

section \<open>The environment\<close>

record svc_env =
  sv_node :: node_env
  sv_sync :: bool
  sv_new_uuid :: "world \<Rightarrow> error + string"
  sv_new_subid :: "world \<Rightarrow> error + string"
  sv_trial_hours :: int
  sv_sub_url :: "string \<Rightarrow> string"
  sv_invalidate :: bool
  sv_invalidate_sub :: bool
  sv_bot :: bool
  sv_send :: "effect list \<Rightarrow> int \<Rightarrow> bot_message \<Rightarrow> error option"
  sv_admin :: int

definition generateE :: "(world \<Rightarrow> error + 'a) \<Rightarrow> (world, 'a) op" where
  "generateE g w = (g w, w)"

definition sendE :: "svc_env \<Rightarrow> int \<Rightarrow> bot_message \<Rightarrow> (world, unit) op" where
  "sendE env chat msg w =
     (case sv_send env (trace w) chat msg of
        None \<Rightarrow> (Inr (), w\<lparr>trace := trace w @ [EffMessage chat msg]\<rparr>)
      | Some e \<Rightarrow> (Inl e, w\<lparr>trace := trace w @ [EffMessage chat msg]\<rparr>))"

definition sub_missing :: "error \<Rightarrow> bool" where
  "sub_missing e \<longleftrightarrow> errors_is e ErrSubscriptionNotFound \<or> errors_is e ErrRecordNotFound"

text \<open>\<open>x, err := m(); if err != nil { log }\<close>\<close>

definition best_effort :: "(world, 'a) op \<Rightarrow> (world, unit) op" where
  "best_effort m = tryE m (\<lambda>_. returnE ())"

definition logAudit :: "audit_log \<Rightarrow> (world, unit) op" where
  "logAudit e = best_effort (InsertAuditLog e)"

definition InvalidateSubscription :: "svc_env \<Rightarrow> int \<Rightarrow> (world, unit) op" where
  "InvalidateSubscription env telegramID =
     (if sv_invalidate env then emit (EffInvalidate telegramID) else returnE ())"

definition InvalidateBySubID :: "svc_env \<Rightarrow> string \<Rightarrow> (world, unit) op" where
  "InvalidateBySubID env subID =
     (if sv_invalidate_sub env then emit (EffInvalidateBySubID subID) else returnE ())"

text \<open>\<open>if s.invalidateBySubID != nil && sub.SubscriptionID != ""\<close>\<close>

definition invalidate_sub :: "svc_env \<Rightarrow> subscription \<Rightarrow> (world, unit) op" where
  "invalidate_sub env sub =
     (if s_subscription_id sub \<noteq> [] then InvalidateBySubID env (s_subscription_id sub) else returnE ())"

definition invalidate_user :: "svc_env \<Rightarrow> subscription \<Rightarrow> (world, unit) op" where
  "invalidate_user env sub =
     (if 0 < s_telegram_id sub then InvalidateSubscription env (s_telegram_id sub) else returnE ())"

definition RefreshActiveSubscriptionsMetric :: "(world, unit) op" where
  "RefreshActiveSubscriptionsMetric =
     bindE (best_effort CountActiveSubscriptions) (\<lambda>_.
     bindE (best_effort CountPremiumSubscriptions) (\<lambda>_.
     bindE (best_effort CountFreeSubscriptions) (\<lambda>_.
     best_effort CountTrialSubscriptions)))"

section \<open>Creating a subscription\<close>

definition missing_nodes :: "node list \<Rightarrow> subscription_node list \<Rightarrow> node list" where
  "missing_nodes ns existing =
     filter (\<lambda>n. n_is_active n \<and> n_id n \<notin> set (map sn_node_id existing)) ns"

definition ensureSubscriptionNodes :: "svc_env \<Rightarrow> time \<Rightarrow> subscription \<Rightarrow> (world, unit) op" where
  "ensureSubscriptionNodes env now sub =
     bindE (GetNodesByPlanID (s_plan_id sub)) (\<lambda>ns.
     bindE (GetBySubscriptionID (s_id sub)) (\<lambda>existing.
     let missing = missing_nodes ns existing in
     bindE (for_eachE (\<lambda>n. UpsertSubscriptionNode (fresh_binding (s_id sub) (n_id n))) missing) (\<lambda>_.
     if missing \<noteq> [] \<and> sv_sync env then best_effort (SyncSubscription (sv_node env) now (s_id sub))
     else returnE ())))"

definition free_defaults :: "uint \<Rightarrow> subscription \<Rightarrow> subscription" where
  "free_defaults freePlanID s =
     s\<lparr>s_plan_id := freePlanID, s_status := SubscriptionStatusActive, s_expires_at := None,
       s_product_id := None, s_started_at := None, s_price_paid_cents := 0, s_currency := None\<rparr>"

definition reanimated_invite :: "subscription \<Rightarrow> string \<Rightarrow> (world, subscription) op" where
  "reanimated_invite sub inviteCode =
     (if inviteCode \<noteq> [] then
        tryE (GetInviteByCode inviteCode) (\<lambda>r.
        case r of
          Inr iv \<Rightarrow> returnE (sub\<lparr>s_invite_code := Some inviteCode,
                                  s_referred_by := Some (i_referrer_tg_id iv)\<rparr>)
        | Inl e \<Rightarrow> if errors_is e ErrInviteNotFound then returnE sub else failE e)
      else returnE (sub\<lparr>s_invite_code := None, s_referred_by := None\<rparr>))"

definition reanimateRevokedSubscription ::
  "svc_env \<Rightarrow> time \<Rightarrow> subscription \<Rightarrow> string \<Rightarrow> (world, subscription) op" where
  "reanimateRevokedSubscription env now sub0 inviteCode =
     bindE (GetPlanByName FreePlanName) (\<lambda>freePlan.
     bindE (reanimated_invite sub0 inviteCode) (\<lambda>sub1.
     let sub = (free_defaults (pl_id freePlan) sub1)\<lparr>s_devices := ''[]'', s_ips := ''[]''\<rparr> in
     bindE (DeleteSubscriptionNodesBySubscriptionID (s_id sub)) (\<lambda>_.
     bindE (UpdateSubscription sub) (\<lambda>_.
     bindE (ensureSubscriptionNodes env now sub) (\<lambda>_.
     bindE (logAudit (AuditSubscriptionReanimated sub)) (\<lambda>_.
     bindE RefreshActiveSubscriptionsMetric (\<lambda>_. returnE sub)))))))"

text \<open>The part \<open>Create\<close> and \<open>GetOrCreateSubscription\<close> share: a new row on the free plan.\<close>

definition create_free :: "svc_env \<Rightarrow> time \<Rightarrow> int \<Rightarrow> string \<Rightarrow> string \<Rightarrow> (world, subscription) op" where
  "create_free env now telegramID username inviteCode =
     bindE (GetPlanByName FreePlanName) (\<lambda>plan.
     bindE (generateE (sv_new_uuid env)) (\<lambda>clientID.
     bindE (generateE (sv_new_subid env)) (\<lambda>subID.
     bindE (CreateSubscription (blank_subscription
              \<lparr>s_telegram_id := telegramID, s_username := username, s_client_id := clientID,
               s_subscription_id := subID, s_plan_id := pl_id plan,
               s_status := SubscriptionStatusActive\<rparr>) inviteCode) (\<lambda>sub.
     bindE (ensureSubscriptionNodes env now sub) (\<lambda>_.
     bindE (logAudit (AuditSubscriptionCreated sub inviteCode)) (\<lambda>_.
     bindE RefreshActiveSubscriptionsMetric (\<lambda>_. returnE sub)))))))"

definition GetOrCreateSubscription ::
  "svc_env \<Rightarrow> time \<Rightarrow> int \<Rightarrow> string \<Rightarrow> string \<Rightarrow> (world, subscription) op" where
  "GetOrCreateSubscription env now telegramID username0 inviteCode =
     (let username = XUIEmail username0 telegramID in
      tryE (GetByTelegramID telegramID) (\<lambda>found.
      case found of
        Inr existing \<Rightarrow> bindE (ensureSubscriptionNodes env now existing) (\<lambda>_. returnE existing)
      | Inl e \<Rightarrow>
          if \<not> sub_missing e then failE e
          else tryE (GetAnyByTelegramID telegramID) (\<lambda>foundAny.
               case foundAny of
                 Inr old \<Rightarrow> reanimateRevokedSubscription env now old inviteCode
               | Inl e' \<Rightarrow> if \<not> sub_missing e' then failE e'
                          else create_free env now telegramID username inviteCode)))"

record create_result =
  cr_subscription :: subscription
  cr_url :: string
  cr_referrer_tg_id :: int

definition create_result_of :: "svc_env \<Rightarrow> subscription \<Rightarrow> create_result" where
  "create_result_of env sub =
     \<lparr>cr_subscription = sub, cr_url = sv_sub_url env (s_subscription_id sub),
      cr_referrer_tg_id = (case s_referred_by sub of None \<Rightarrow> 0 | Some r \<Rightarrow> r)\<rparr>"

definition Create ::
  "svc_env \<Rightarrow> time \<Rightarrow> int \<Rightarrow> string \<Rightarrow> string \<Rightarrow> (world, create_result) op" where
  "Create env now telegramID username0 inviteCode =
     (let username = XUIEmail username0 telegramID in
      tryE (GetByTelegramID telegramID) (\<lambda>found.
      case found of
        Inr existing \<Rightarrow>
          bindE (ensureSubscriptionNodes env now existing) (\<lambda>_. returnE (create_result_of env existing))
      | Inl e \<Rightarrow>
          if \<not> sub_missing e then failE e
          else tryE (GetAnyByTelegramID telegramID) (\<lambda>foundAny.
               case foundAny of
                 Inr old \<Rightarrow> bindE (reanimateRevokedSubscription env now old inviteCode)
                              (\<lambda>s. returnE (create_result_of env s))
               | Inl e' \<Rightarrow> if \<not> sub_missing e' then failE e'
                          else bindE (create_free env now telegramID username inviteCode)
                                 (\<lambda>s. returnE (create_result_of env s)))))"

section \<open>Changing the plan\<close>

text \<open>\<open>ApplyPlanToSubscription\<close>, then \<open>SyncSubscription\<close> as far as the panels answer.\<close>

definition apply_and_sync :: "svc_env \<Rightarrow> time \<Rightarrow> uint \<Rightarrow> (world, unit) op" where
  "apply_and_sync env now subID =
     bindE (ApplyPlanToSubscription (sv_node env) subID) (\<lambda>_.
     best_effort (SyncSubscription (sv_node env) now subID))"

definition DowngradeToFreePlan :: "svc_env \<Rightarrow> time \<Rightarrow> subscription \<Rightarrow> (world, subscription) op" where
  "DowngradeToFreePlan env now sub0 =
     bindE (GetPlanByName FreePlanName) (\<lambda>freePlan.
     let sub = free_defaults (pl_id freePlan) sub0 in
     bindE (UpdateSubscription sub) (\<lambda>_.
     bindE (logAudit (AuditDowngradedToFree sub ''chargeback'')) (\<lambda>_.
     bindE (invalidate_sub env sub) (\<lambda>_.
     bindE (if sv_sync env then apply_and_sync env now (s_id sub)
            else bindE (best_effort (DeleteSubscriptionNodesBySubscriptionID (s_id sub))) (\<lambda>_.
                 ensureSubscriptionNodes env now sub)) (\<lambda>_.
     bindE RefreshActiveSubscriptionsMetric (\<lambda>_. returnE sub))))))"

definition adminSetPlanDefaultDays :: int where "adminSetPlanDefaultDays = 30"
definition AdminSetPlanMaxDays :: int where "AdminSetPlanMaxDays = 3650"

definition admin_plan_columns :: "time \<Rightarrow> plan \<Rightarrow> int \<Rightarrow> subscription \<Rightarrow> subscription" where
  "admin_plan_columns now plan days s =
     (let dated =
        (if pl_name plan = FreePlanName
         then s\<lparr>s_expires_at := None, s_product_id := None, s_started_at := None,
                s_price_paid_cents := 0, s_currency := None\<rparr>
         else s\<lparr>s_expires_at :=
                  (if 0 < days then Some (add_days now days)
                   else case s_expires_at s of
                          None \<Rightarrow> Some (add_days now adminSetPlanDefaultDays)
                        | Some t \<Rightarrow> if now < t then Some t
                                   else Some (add_days now adminSetPlanDefaultDays)),
                s_started_at := (if s_started_at s = None then Some now else s_started_at s)\<rparr>)
      in dated\<lparr>s_plan_id := pl_id plan, s_status := SubscriptionStatusActive, s_reminders_sent := 0\<rparr>)"

definition AdminSetPlan :: "svc_env \<Rightarrow> time \<Rightarrow> uint \<Rightarrow> uint \<Rightarrow> int \<Rightarrow> (world, subscription) op" where
  "AdminSetPlan env now subscriptionID newPlanID days =
     (if AdminSetPlanMaxDays < days then failE (errors_new ''admin set plan: days exceed maximum'')
      else
      bindE (GetByID subscriptionID) (\<lambda>sub0.
      bindE (GetPlanByID newPlanID) (\<lambda>plan.
      let sub = admin_plan_columns now plan days sub0 in
      bindE (UpdateSubscription sub) (\<lambda>_.
      bindE (logAudit (AuditPlanChanged sub (SubscriptionAuditState (Some sub0)) days (sv_admin env))) (\<lambda>_.
      bindE (if sv_sync env then apply_and_sync env now (s_id sub) else returnE ()) (\<lambda>_.
      bindE (invalidate_user env sub) (\<lambda>_.
      bindE (invalidate_sub env sub) (\<lambda>_.
      bindE RefreshActiveSubscriptionsMetric (\<lambda>_. returnE sub)))))))))"

text \<open>\<open>ExpireSubscription\<close> of the service; the store's operation has the same name.\<close>

definition ExpireSubscription_svc :: "svc_env \<Rightarrow> time \<Rightarrow> uint \<Rightarrow> (world, unit) op" where
  "ExpireSubscription_svc env now subscriptionID =
     bindE (GetByID subscriptionID) (\<lambda>sub.
     bindE (GetPlanByName FreePlanName) (\<lambda>freePlan.
     bindE (if sv_sync env
            then ExpireSubscriptionWithPlanCAS now (s_id sub) (pl_id freePlan) (Some ApplyPlanToSubscriptionInTx)
            else ExpireSubscription (s_id sub) (pl_id freePlan)) (\<lambda>_.
     bindE (logAudit (AuditSubscriptionExpired sub)) (\<lambda>_.
     bindE (logAudit (AuditDowngradedToFree sub ''expiry'')) (\<lambda>_.
     bindE (invalidate_sub env sub) (\<lambda>_.
     if sv_sync env then best_effort (SyncSubscription (sv_node env) now (s_id sub)) else returnE ()))))))"

section \<open>Removing a subscription\<close>

definition markRevokedSub :: "subscription \<Rightarrow> (world, subscription) op" where
  "markRevokedSub sub =
     (let revoked = sub\<lparr>s_status := SubscriptionStatusRevoked\<rparr> in
      bindE (UpdateSubscription revoked) (\<lambda>_. returnE revoked))"

definition queueForDeprovision :: "svc_env \<Rightarrow> uint \<Rightarrow> (world, unit) op" where
  "queueForDeprovision env subscriptionID =
     (if \<not> sv_sync env then returnE () else MarkAllForRemoval (sv_node env) subscriptionID)"

definition syncDeprovisionNow :: "svc_env \<Rightarrow> time \<Rightarrow> uint \<Rightarrow> (world, unit) op" where
  "syncDeprovisionNow env now subscriptionID =
     (if \<not> sv_sync env then returnE ()
      else best_effort (SyncSubscription (sv_node env) now subscriptionID))"

definition deprovisionSub :: "svc_env \<Rightarrow> time \<Rightarrow> uint \<Rightarrow> (world, unit) op" where
  "deprovisionSub env now subscriptionID =
     bindE (queueForDeprovision env subscriptionID) (\<lambda>_. syncDeprovisionNow env now subscriptionID)"

definition revokeAndDeprovisionThenDelete ::
  "svc_env \<Rightarrow> time \<Rightarrow> subscription \<Rightarrow> (world, subscription) op" where
  "revokeAndDeprovisionThenDelete env now sub0 =
     bindE (markRevokedSub sub0) (\<lambda>sub.
     bindE (deprovisionSub env now (s_id sub)) (\<lambda>_.
     bindE (GetBySubscriptionID (s_id sub)) (\<lambda>rows.
     if rows \<noteq> [] then failE (errors_new ''deprovision incomplete'')
     else
     bindE (DeleteSubscriptionNodesBySubscriptionID (s_id sub)) (\<lambda>_.
     bindE (DeleteSubscriptionByID (s_id sub)) (\<lambda>_.
     bindE (logAudit (AuditSubscriptionDeleted sub (sv_admin env))) (\<lambda>_.
     bindE (invalidate_sub env sub) (\<lambda>_.
     bindE RefreshActiveSubscriptionsMetric (\<lambda>_. returnE sub))))))))"

definition DeleteByID :: "svc_env \<Rightarrow> time \<Rightarrow> uint \<Rightarrow> (world, subscription) op" where
  "DeleteByID env now i =
     bindE (GetByID i) (\<lambda>sub. revokeAndDeprovisionThenDelete env now sub)"

section \<open>Trials\<close>

definition trialNodes :: "(world, node list) op" where
  "trialNodes =
     bindE (GetNodesByPlanName TrialPlanName) (\<lambda>ns.
     if ns = [] then failE (errors_new ''trial plan has no linked nodes'') else returnE ns)"

definition trial_provision :: "string \<Rightarrow> string \<Rightarrow> int \<Rightarrow> time option \<Rightarrow> vpn_provision" where
  "trial_provision clientID subID traffic expiry =
     \<lparr>vp_client_id = clientID, vp_username = ''trial_'' @ subID, vp_current_email = [],
      vp_sub_id = subID, vp_traffic_bytes = traffic, vp_expiry_time = expiry, vp_reset_days = 0,
      vp_reset_day = 0, vp_reset_max = 0, vp_traffic_reset = [], vp_traffic_reset_day = 0,
      vp_tg_id = 0, vp_comment = []\<rparr>"

definition CreateTrial :: "svc_env \<Rightarrow> time \<Rightarrow> string \<Rightarrow> (world, subscription) op" where
  "CreateTrial env now inviteCode =
     bindE (generateE (sv_new_subid env)) (\<lambda>subID.
     bindE (generateE (sv_new_uuid env)) (\<lambda>clientID.
     bindE (GetPlanByName TrialPlanName) (\<lambda>trialPlan.
     let expiryTime = now + sv_trial_hours env * hour in
     bindE trialNodes (\<lambda>ns.
     let nodeID = n_id (hd ns);
         p = trial_provision clientID subID (pl_traffic_limit trialPlan) (Some expiryTime) in
     if \<not> ne_provision (sv_node env) nodeID
     then failE (errors_new ''vpn client not found for trial node'')
     else
     bindE (vpnE (sv_node env) VpnCreate nodeID p) (\<lambda>_.
     tryE (CreateTrialSubscription inviteCode subID clientID expiryTime) (\<lambda>stored.
     case stored of
       Inl e \<Rightarrow> bindE (best_effort (vpnE (sv_node env) VpnDelete nodeID p)) (\<lambda>_. failE e)
     | Inr sub \<Rightarrow>
         bindE (logAudit (AuditTrialCreated sub)) (\<lambda>_.
         bindE RefreshActiveSubscriptionsMetric (\<lambda>_. returnE sub))))))))"

definition bound_provision :: "subscription \<Rightarrow> string \<Rightarrow> int \<Rightarrow> int \<Rightarrow> string \<Rightarrow> vpn_provision" where
  "bound_provision trial boundEmail traffic telegramID comment =
     \<lparr>vp_client_id = s_client_id trial, vp_username = boundEmail,
      vp_current_email = ''trial_'' @ s_subscription_id trial, vp_sub_id = s_subscription_id trial,
      vp_traffic_bytes = traffic, vp_expiry_time = Some 0, vp_reset_days = 0, vp_reset_day = 0,
      vp_reset_max = 0, vp_traffic_reset = [], vp_traffic_reset_day = 0, vp_tg_id = telegramID,
      vp_comment = comment\<rparr>"

definition unbound_provision :: "subscription \<Rightarrow> string \<Rightarrow> int \<Rightarrow> string \<Rightarrow> vpn_provision" where
  "unbound_provision trial boundEmail traffic comment =
     \<lparr>vp_client_id = s_client_id trial, vp_username = ''trial_'' @ s_subscription_id trial,
      vp_current_email = boundEmail, vp_sub_id = s_subscription_id trial, vp_traffic_bytes = traffic,
      vp_expiry_time = s_expires_at trial, vp_reset_days = 0, vp_reset_day = 0, vp_reset_max = 0,
      vp_traffic_reset = [], vp_traffic_reset_day = 0, vp_tg_id = 0, vp_comment = comment\<rparr>"

text \<open>After a failed bind: the panel is set back only if the row is still an unbound trial.\<close>

definition bind_rollback ::
  "svc_env \<Rightarrow> uint \<Rightarrow> string \<Rightarrow> vpn_provision \<Rightarrow> (world, unit) op" where
  "bind_rollback env nodeID subscriptionID p =
     tryE (GetTrialSubscriptionBySubID subscriptionID) (\<lambda>still.
     case still of
       Inr s \<Rightarrow> if s_telegram_id s < 0 then best_effort (vpnE (sv_node env) VpnUpdate nodeID p)
                else returnE ()
     | Inl _ \<Rightarrow> returnE ())"

definition BindTrial :: "svc_env \<Rightarrow> string \<Rightarrow> int \<Rightarrow> string \<Rightarrow> (world, subscription) op" where
  "BindTrial env subscriptionID telegramID username0 =
     (let username = XUIEmail username0 telegramID;
          boundEmail = XUIEmail username telegramID in
      bindE (GetTrialSubscriptionBySubID subscriptionID) (\<lambda>trial.
      bindE (referrerComment trial) (\<lambda>comment.
      bindE (GetPlanByName FreePlanName) (\<lambda>freePlan.
      bindE trialNodes (\<lambda>ns.
      let nodeID = n_id (hd ns) in
      if \<not> ne_provision (sv_node env) nodeID
      then failE (errors_new ''vpn client not found for trial node'')
      else
      bindE (GetPlanByName TrialPlanName) (\<lambda>trialPlan.
      bindE (vpnE (sv_node env) VpnUpdate nodeID
               ((bound_provision trial boundEmail (pl_traffic_limit freePlan) telegramID comment)
                  \<lparr>vp_current_email := ''trial_'' @ subscriptionID\<rparr>)) (\<lambda>_.
      tryE (BindTrialSubscription subscriptionID telegramID username) (\<lambda>bound.
      case bound of
        Inl e \<Rightarrow>
          bindE (bind_rollback env nodeID subscriptionID
                   ((unbound_provision trial boundEmail (pl_traffic_limit trialPlan) comment)
                      \<lparr>vp_username := ''trial_'' @ subscriptionID\<rparr>)) (\<lambda>_. failE e)
      | Inr sub \<Rightarrow>
          bindE (InvalidateBySubID env subscriptionID) (\<lambda>_.
          bindE (logAudit (AuditTrialBound sub)) (\<lambda>_.
          bindE RefreshActiveSubscriptionsMetric (\<lambda>_. returnE sub)))))))))))"

fun delete_everywhere :: "node_env \<Rightarrow> vpn_provision \<Rightarrow> node list \<Rightarrow> (world, error list) op" where
  "delete_everywhere env p [] = returnE []"
| "delete_everywhere env p (n # ns) =
     (if \<not> n_is_active n then delete_everywhere env p ns
      else if \<not> ne_provision env (n_id n)
        then bindE (delete_everywhere env p ns)
               (\<lambda>es. returnE (errors_new ''VPN client is not configured'' # es))
      else tryE (vpnE env VpnDelete (n_id n) p) (\<lambda>r.
           bindE (delete_everywhere env p ns) (\<lambda>es.
           returnE (case r of
               Inr _ \<Rightarrow> es
             | Inl e \<Rightarrow> if errors_is e VpnErrSubscriptionNotFound then es else e # es))))"

definition deleteClientFromAllNodes :: "svc_env \<Rightarrow> vpn_provision \<Rightarrow> (world, unit) op" where
  "deleteClientFromAllNodes env p =
     bindE (delete_everywhere (sv_node env) p (ne_nodes (sv_node env))) (\<lambda>es.
     if es \<noteq> [] then failE (concat es) else returnE ())"

text \<open>One claimed trial: the error it adds, or success (\<open>None\<close> when it is skipped).\<close>

definition cleanup_trial :: "svc_env \<Rightarrow> subscription \<Rightarrow> (world, (error + unit) option) op" where
  "cleanup_trial env sub =
     (if s_subscription_id sub = [] then returnE None
      else tryE (deleteClientFromAllNodes env
                   (trial_provision (s_client_id sub) (s_subscription_id sub) 0 None)) (\<lambda>gone.
           case gone of
             Inl e \<Rightarrow> returnE (Some (Inl e))
           | Inr _ \<Rightarrow>
               tryE (DeleteClaimedTrial (s_id sub)) (\<lambda>deleted.
               case deleted of
                 Inl e \<Rightarrow> returnE (Some (Inl e))
               | Inr _ \<Rightarrow> bindE (InvalidateBySubID env (s_subscription_id sub))
                            (\<lambda>_. returnE (Some (Inr ()))))))"

fun cleanup_trials :: "svc_env \<Rightarrow> subscription list \<Rightarrow> (world, nat \<times> error list) op" where
  "cleanup_trials env [] = returnE (0, [])"
| "cleanup_trials env (s # ss) =
     bindE (cleanup_trial env s) (\<lambda>r.
     bindE (cleanup_trials env ss) (\<lambda>(n, es).
     returnE (case r of None \<Rightarrow> (n, es) | Some (Inl e) \<Rightarrow> (n, e # es) | Some (Inr _) \<Rightarrow> (Suc n, es))))"

text \<open>The count and the joined error, which Go returns together.\<close>

definition CleanupExpiredTrials :: "svc_env \<Rightarrow> time \<Rightarrow> (world, nat \<times> error list) op" where
  "CleanupExpiredTrials env now =
     bindE (ClaimExpiredTrials now (sv_trial_hours env)) (\<lambda>subs. cleanup_trials env subs)"

section \<open>Orphans\<close>

definition has_live_node :: "subscription_node list \<Rightarrow> bool" where
  "has_live_node rows =
     list_ex (\<lambda>sn. sn_status sn \<in> {SyncStatusActive, SyncStatusPendingAdd, SyncStatusPendingUpdate}) rows"

text \<open>A subscription without bindings: a lost queue is recreated, a trial is left alone.\<close>

definition recover_queue :: "svc_env \<Rightarrow> time \<Rightarrow> subscription \<Rightarrow> (world, unit) op" where
  "recover_queue env now sub =
     tryE (GetPlanByID (s_plan_id sub)) (\<lambda>r.
     case r of
       Inl _ \<Rightarrow> returnE ()
     | Inr plan \<Rightarrow> if pl_name plan = TrialPlanName then returnE ()
                   else best_effort (ensureSubscriptionNodes env now sub))"

definition revoke_orphan :: "svc_env \<Rightarrow> subscription \<Rightarrow> (world, bool) op" where
  "revoke_orphan env sub0 =
     (let sub = sub0\<lparr>s_status := SubscriptionStatusRevoked\<rparr> in
      tryE (UpdateSubscription sub) (\<lambda>r.
      case r of
        Inl _ \<Rightarrow> returnE False
      | Inr _ \<Rightarrow>
          bindE (logAudit (AuditSubscriptionRevoked sub ''orphaned: no live node bindings'')) (\<lambda>_.
          bindE (invalidate_user env sub) (\<lambda>_.
          bindE (invalidate_sub env sub) (\<lambda>_. returnE True)))))"

fun orphan_pass :: "svc_env \<Rightarrow> time \<Rightarrow> nat \<Rightarrow> subscription list \<Rightarrow> (world, nat \<times> error option) op" where
  "orphan_pass env now revoked [] = returnE (revoked, None)"
| "orphan_pass env now revoked (sub # subs) =
     tryE (GetBySubscriptionID (s_id sub)) (\<lambda>r.
     case r of
       Inl _ \<Rightarrow> orphan_pass env now revoked subs
     | Inr [] \<Rightarrow> bindE (recover_queue env now sub) (\<lambda>_. orphan_pass env now revoked subs)
     | Inr rows \<Rightarrow>
         if has_live_node rows then orphan_pass env now revoked subs
         else
         bindE (revoke_orphan env sub) (\<lambda>ok.
         let n = (if ok then Suc revoked else revoked) in
         bindE (ctxE (sv_node env)) (\<lambda>c.
         case c of Some e \<Rightarrow> returnE (n, Some e) | None \<Rightarrow> orphan_pass env now n subs)))"

text \<open>The count, with the context's error when the scan was cut short.\<close>

definition ReconcileOrphanedClients :: "svc_env \<Rightarrow> time \<Rightarrow> (world, nat \<times> error option) op" where
  "ReconcileOrphanedClients env now =
     bindE GetAllSubscriptions (\<lambda>rows.
     bindE (orphan_pass env now 0 (filter (\<lambda>s. s_status s = SubscriptionStatusActive) rows)) (\<lambda>(revoked, stop).
     case stop of
       Some e \<Rightarrow> returnE (revoked, Some e)
     | None \<Rightarrow>
         bindE RefreshActiveSubscriptionsMetric (\<lambda>_.
         bindE (if 0 < revoked then logAudit (AuditOrphanedClientsRevoked (int revoked)) else returnE ()) (\<lambda>_.
         returnE (revoked, None)))))"

section \<open>Expiry reminders\<close>

record reminder_window =
  rw_name :: string
  rw_bit :: int
  rw_lead_time :: duration

definition ReminderBit3Days :: int where "ReminderBit3Days = 1"
definition ReminderBit1Day :: int where "ReminderBit1Day = 2"
definition ReminderBit3Hours :: int where "ReminderBit3Hours = 4"

definition expiryReminderWindows :: "reminder_window list" where
  "expiryReminderWindows =
     [\<lparr>rw_name = ''3d'', rw_bit = ReminderBit3Days, rw_lead_time = 72 * hour\<rparr>,
      \<lparr>rw_name = ''1d'', rw_bit = ReminderBit1Day, rw_lead_time = 24 * hour\<rparr>,
      \<lparr>rw_name = ''3h'', rw_bit = ReminderBit3Hours, rw_lead_time = 3 * hour\<rparr>]"

definition ReminderWindowBounds :: "reminder_window \<Rightarrow> time \<Rightarrow> time \<times> time" where
  "ReminderWindowBounds w now =
     (let center = now + rw_lead_time w in (center - 30 * minute, center + 30 * minute))"

text \<open>Go computes the hours as a float and truncates; below 4096 hours (the widest window is 73) that
  is the integer division.\<close>

definition ReminderWindowRemaining :: "time \<Rightarrow> time \<Rightarrow> int \<times> int" where
  "ReminderWindowRemaining now expiresAt =
     (let remaining = expiresAt - now in
      if remaining \<le> 0 then (0, 0)
      else (remaining div (24 * hour), (remaining div hour) mod 24))"

definition reminderText :: "int \<Rightarrow> int \<Rightarrow> string \<Rightarrow> bot_message" where
  "reminderText daysLeft hoursLeft subURL =
     (if 0 < daysLeft then MsgDaysLeft daysLeft subURL else MsgHoursLeft hoursLeft subURL)"

definition SendExpiryReminder :: "svc_env \<Rightarrow> time \<Rightarrow> subscription \<Rightarrow> reminder_window \<Rightarrow> (world, unit) op" where
  "SendExpiryReminder env now sub window =
     (case s_expires_at sub of
        None \<Rightarrow> returnE ()
      | Some expiresAt \<Rightarrow>
          if \<not> sv_bot env \<or> s_telegram_id sub = 0 then returnE ()
          else
          bindE (ClaimReminder (s_id sub) (rw_bit window) expiresAt) (\<lambda>claimed.
          if \<not> claimed then returnE ()
          else
          let (daysLeft, hoursLeft) = ReminderWindowRemaining now expiresAt in
          tryE (sendE env (s_telegram_id sub)
                  (reminderText daysLeft hoursLeft (sv_sub_url env (s_subscription_id sub)))) (\<lambda>sent.
          case sent of
            Inl e \<Rightarrow>
              tryE (ReleaseReminder (s_id sub) (rw_bit window) expiresAt) (\<lambda>released.
              failE (case released of Inl e' \<Rightarrow> e @ e' | Inr _ \<Rightarrow> e))
          | Inr _ \<Rightarrow> best_effort (InsertAuditLog (AuditReminderSent sub (rw_name window))))))"

text \<open>\<open>internal/scheduler/subscription_reminder_worker.go\<close>, one tick of the worker.\<close>

definition reminder_tick :: "svc_env \<Rightarrow> time \<Rightarrow> (world, unit) op" where
  "reminder_tick env now =
     for_eachE (\<lambda>window.
       let (a, b) = ReminderWindowBounds window now in
       tryE (GetSubscriptionsExpiringInRange a b) (\<lambda>r.
       case r of
         Inl _ \<Rightarrow> returnE ()
       | Inr subs \<Rightarrow> for_eachE (\<lambda>sub. best_effort (SendExpiryReminder env now sub window)) subs))
     expiryReminderWindows"

end
