(* ===== verification/Subscription_Laws.thy ===== *)
theory Subscription_Laws
  imports Subscription_Service
begin

text \<open>
  What the subscription service guarantees: every operation respects every contract of the store,
  reminders are sent at most once, a trial never leaves a client behind, a row is deleted only when
  nothing is left on the panels, and the administrator's plan change does what it says.
\<close>

section \<open>Every contract of the store is respected\<close>

context db_contract
begin

lemma generate_keeps: "keeps (on_db R) (generateE g)" "keeps (on_db R) (sendE env c m)"
  by (intro frame_keeps; simp add: generateE_def sendE_def split: option.splits)+

lemma best_effort_keeps: "keeps (on_db R) m \<Longrightarrow> keeps (on_db R) (best_effort m)"
  unfolding best_effort_def by (intro db_combinators)

lemma catalog_keep:
  "keeps (on_db R) (GetPlanByName c)" "keeps (on_db R) (GetProductByID i)"
  "keeps (on_db R) (GetNodesByPlanName c)" "keeps (on_db R) trialNodes"
  unfolding GetPlanByName_def GetProductByID_def GetNodesByPlanName_def trialNodes_def
  by (intro db_combinators)+

lemma invalidate_keeps:
  "keeps (on_db R) (InvalidateSubscription env i)" "keeps (on_db R) (InvalidateBySubID env c)"
  "keeps (on_db R) (invalidate_user env s)" "keeps (on_db R) (invalidate_sub env s)"
  unfolding invalidate_user_def invalidate_sub_def InvalidateSubscription_def InvalidateBySubID_def
  by (intro db_combinators)+

lemma metric_keeps: "keeps (on_db R) RefreshActiveSubscriptionsMetric"
  unfolding RefreshActiveSubscriptionsMetric_def best_effort_def CountActiveSubscriptions_def
    CountPremiumSubscriptions_def CountFreeSubscriptions_def CountTrialSubscriptions_def
  by (intro db_combinators)

end

context store_base
begin

lemma logAudit_keeps: "keeps (on_db R) (logAudit e)"
  unfolding logAudit_def by (intro ord.best_effort_keeps ord.audit_keeps)

lemmas service_steps = bind.sync_steps bind.entry_points_keep sub.operations ord.generate_keeps
  ord.best_effort_keeps ord.catalog_keep ord.invalidate_keeps ord.metric_keeps logAudit_keeps
  ord.audit_keeps reminder_operations

lemma tx_apply_keeps: "keeps (on_db R) (ApplyPlanToSubscriptionInTx i p)"
proof -
  have up: "keeps (on_db R) (txE (upsert_binding sn))" for sn
    by (rule ord.txE_keeps) (auto intro: bind.upsert_R)
  have store: "keeps (on_db R) (LoadPlanNodes txPlanStore p)" "keeps (on_db R) (LoadSubscriptionNodes txPlanStore i)"
    "keeps (on_db R) (MarkActivePendingUpdate txPlanStore i js)"
    "keeps (on_db R) (SetNodeStatus txPlanStore i j st)" "keeps (on_db R) (UpsertPendingAdd txPlanStore sn)" for i p j js st sn
    by (auto simp: txPlanStore_def tx_mark_active_def tx_set_status_def tx_upsert_def sn_key_def
        set_sync_status_def intro!: ord.db_combinators bind.update_keeps up)
  show ?thesis
    unfolding ApplyPlanToSubscriptionInTx_def reconcilePlanNodesCore_def reconcile_passes_def
      add_target_def remove_stale_def Let_def
    by (simp, intro ord.db_combinators ord.attempt_keeps ord.world.collectE_keeps store)
qed

lemma ensure_keeps: "keeps (on_db R) (ensureSubscriptionNodes env now s)"
  unfolding ensureSubscriptionNodes_def Let_def by (intro service_steps)

lemma apply_and_sync_keeps: "keeps (on_db R) (apply_and_sync env now i)"
  unfolding apply_and_sync_def by (intro service_steps)

lemma reanimate_keeps: "keeps (on_db R) (reanimateRevokedSubscription env now s c)"
  unfolding reanimateRevokedSubscription_def reanimated_invite_def Let_def
  by (intro service_steps ensure_keeps)

lemma create_keeps:
  "keeps (on_db R) (create_free env now i c c')"
  "keeps (on_db R) (GetOrCreateSubscription env now i c c')"
  "keeps (on_db R) (Create env now i c c')"
proof -
  show free: "keeps (on_db R) (create_free env now i c c')" for c
    unfolding create_free_def by (intro service_steps ensure_keeps)
  show "keeps (on_db R) (GetOrCreateSubscription env now i c c')"
    unfolding GetOrCreateSubscription_def Let_def
    by (intro service_steps ensure_keeps reanimate_keeps free)
  show "keeps (on_db R) (Create env now i c c')"
    unfolding Create_def Let_def by (intro service_steps ensure_keeps reanimate_keeps free)
qed

lemma plan_keeps:
  "keeps (on_db R) (DowngradeToFreePlan env now s)"
  "keeps (on_db R) (AdminSetPlan env now i j days)"
  "keeps (on_db R) (ExpireSubscription_svc env now i)"
proof -
  show "keeps (on_db R) (DowngradeToFreePlan env now s)"
    unfolding DowngradeToFreePlan_def Let_def by (intro service_steps ensure_keeps apply_and_sync_keeps)
  show "keeps (on_db R) (AdminSetPlan env now i j days)"
    unfolding AdminSetPlan_def Let_def by (intro service_steps apply_and_sync_keeps)
  have cas: "keeps (on_db R) (ExpireSubscriptionWithPlanCAS now i j (Some ApplyPlanToSubscriptionInTx))" for i j
    by (rule sub.ExpireSubscriptionWithPlanCAS_keeps) (auto simp: tx_apply_keeps)
  show "keeps (on_db R) (ExpireSubscription_svc env now i)"
    unfolding ExpireSubscription_svc_def by (intro service_steps cas)
qed

lemma removal_keeps:
  "keeps (on_db R) (markRevokedSub s)" "keeps (on_db R) (deprovisionSub env now i)"
  "keeps (on_db R) (DeleteByID env now i)"
  unfolding markRevokedSub_def deprovisionSub_def DeleteByID_def revokeAndDeprovisionThenDelete_def
    queueForDeprovision_def syncDeprovisionNow_def Let_def
  by (intro service_steps)+

lemma delete_everywhere_keeps: "keeps (on_db R) (delete_everywhere e p ns)"
  by (induction ns) (auto intro!: service_steps)

lemma cleanup_trial_keeps: "keeps (on_db R) (cleanup_trial env s)"
  unfolding cleanup_trial_def deleteClientFromAllNodes_def
  by (intro service_steps delete_everywhere_keeps)

lemma cleanup_trials_keeps: "keeps (on_db R) (cleanup_trials env ss)"
  by (induction ss) (auto intro!: service_steps cleanup_trial_keeps)

lemma trial_keeps:
  "keeps (on_db R) (CreateTrial env now c)" "keeps (on_db R) (BindTrial env c i c')"
  "keeps (on_db R) (CleanupExpiredTrials env now)"
  unfolding CreateTrial_def BindTrial_def bind_rollback_def CleanupExpiredTrials_def Let_def
  by (intro service_steps cleanup_trials_keeps)+

lemma orphan_pass_keeps: "keeps (on_db R) (orphan_pass env now n ss)"
proof (induction ss arbitrary: n)
  case Nil
  show ?case by (simp add: service_steps)
next
  case (Cons s ss)
  show ?case
    unfolding orphan_pass.simps Let_def revoke_orphan_def recover_queue_def
    by (intro service_steps ensure_keeps Cons.IH)
qed

lemma orphans_keep: "keeps (on_db R) (ReconcileOrphanedClients env now)"
  unfolding ReconcileOrphanedClients_def by (intro service_steps orphan_pass_keeps)

lemma reminder_keeps:
  "keeps (on_db R) (SendExpiryReminder env now s wd)" "keeps (on_db R) (reminder_tick env now)"
proof -
  show send: "keeps (on_db R) (SendExpiryReminder env now s wd)" for s wd
    unfolding SendExpiryReminder_def Let_def by (intro service_steps)
  show "keeps (on_db R) (reminder_tick env now)"
    unfolding reminder_tick_def Let_def by (intro service_steps send)
qed

lemmas service_operations = create_keeps plan_keeps removal_keeps trial_keeps orphans_keep reminder_keeps

end

section \<open>The administrator's plan change\<close>

text \<open>An administrator's plan change leaves the subscription active on the plan that was asked
  for; on the free plan without a deadline and without a trace of payment, on any other with a
  deadline in the future, at most the maximal number of days away unless it was set before.\<close>

theorem AdminSetPlan_result:
  assumes run: "AdminSetPlan env now i j days w = (Inr sub, w')" and calm: "calm w"
    and old: "find_subscription i (db w) = Inr old" and plan: "find_plan j (db w) = Inr plan"
  shows "s_id sub = i \<and> s_plan_id sub = j \<and> s_status sub = SubscriptionStatusActive
    \<and> (if pl_name plan = FreePlanName
       then s_expires_at sub = None \<and> \<not> IsPaid (Some sub)
       else \<exists>t. s_expires_at sub = Some t \<and> now < t
         \<and> (t \<le> now + AdminSetPlanMaxDays * day \<or> s_expires_at old = Some t))"
proof -
  have days: "\<not> AdminSetPlanMaxDays < days"
    using run by (auto simp: AdminSetPlan_def plain_ok)
  have "GetByID i w = (Inr old, step_turn w)" "GetPlanByID j (step_turn w) = (Inr plan, step_turn (step_turn w))"
    using calm old plan by (simp_all add: GetByID_def GetPlanByID_def calm_runs)
  then have sub: "sub = admin_plan_columns now plan days old"
    using run days by (simp add: AdminSetPlan_def Let_def) (auto elim!: bindE_ok simp: plain_ok)
  have "s_id old = i" "pl_id plan = j"
    using old plan by (auto simp: find_plan_def dest!: find_subscription_ok select_first_Some split: option.splits)
  with days show ?thesis
    unfolding sub
    by (auto simp: admin_plan_columns_def Let_def IsPaid_def adminSetPlanDefaultDays_def AdminSetPlanMaxDays_def
        add_days_def duration_defs split: option.splits)
qed

section \<open>Reminders\<close>

text \<open>While the expiry of the subscription stays \<open>t\<close>, the bit stays set.\<close>

definition bit_kept :: "uint \<Rightarrow> time \<Rightarrow> int \<Rightarrow> db \<Rightarrow> db \<Rightarrow> bool" where
  "bit_kept i t flag d d' \<longleftrightarrow>
     (\<forall>s' \<in> set (subscriptions d'). s_id s' = i \<and> s_expires_at s' = Some t \<longrightarrow>
        (\<exists>s \<in> set (subscriptions d). s_id s = i \<and> s_expires_at s = Some t
           \<and> (s_reminders_sent s AND flag \<noteq> 0 \<longrightarrow> s_reminders_sent s' AND flag \<noteq> 0)))"

interpretation bit_kept: db_contract "bit_kept i t flag" for i t flag
  by unfold_locales (force simp: bit_kept_def)+

lemma bit_kept_same: "subscriptions d' = subscriptions d \<Longrightarrow> bit_kept i t flag d d'"
  by (auto simp: bit_kept_def)

lemma reminder_bits: "wd \<in> set expiryReminderWindows \<Longrightarrow> rw_bit wd \<noteq> 0"
  by (auto simp: expiryReminderWindows_def ReminderBit3Days_def ReminderBit1Day_def ReminderBit3Hours_def)

lemma set_flag:
  assumes "flag \<noteq> 0"
  shows "(m OR flag) AND flag \<noteq> (0::int)"
proof -
  have "(m OR flag) AND flag = flag"
    by (rule bit_eqI) (auto simp: bit_and_iff bit_or_iff)
  with assms show ?thesis by simp
qed

lemma set_flag_keeps: "m AND flag \<noteq> 0 \<Longrightarrow> (m OR g) AND flag \<noteq> (0::int)"
proof -
  assume "m AND flag \<noteq> 0"
  then obtain n where "bit (m AND flag) n" by (auto simp: bit_eq_iff)
  then have "bit ((m OR g) AND flag) n" by (auto simp: bit_and_iff bit_or_iff)
  then show ?thesis by (auto simp: bit_eq_iff)
qed

lemma ClaimReminder_bit: "keeps (on_db (bit_kept i t flag)) (ClaimReminder j g u)"
proof -
  have "bit_kept i t flag d d'" if "update_subs P (set_reminders (\<lambda>m. m OR g)) d = Inr (x, d')" for P d d' x
  proof -
    have d': "subscriptions d' = update_where P (set_reminders (\<lambda>m. m OR g)) (subscriptions d)"
      using update_subs_ok [OF that] by simp
    have "\<exists>r \<in> set (subscriptions d). s_id r = i \<and> s_expires_at r = Some t
        \<and> (s_reminders_sent r AND flag \<noteq> 0 \<longrightarrow> s_reminders_sent s AND flag \<noteq> 0)"
      if s: "s \<in> set (subscriptions d')" "s_id s = i" "s_expires_at s = Some t" for s
    proof -
      obtain r where r: "r \<in> set (subscriptions d)" "s = (if P r then set_reminders (\<lambda>m. m OR g) r else r)"
        using s(1) unfolding d' set_update_where by blast
      have "s_id r = i \<and> s_expires_at r = Some t
        \<and> (s_reminders_sent r AND flag \<noteq> 0 \<longrightarrow> s_reminders_sent s AND flag \<noteq> 0)"
        using s(2,3) r(2) set_flag_keeps [of "s_reminders_sent r" flag g]
        by (simp add: set_reminders_def split: if_splits)
      with r(1) show ?thesis by blast
    qed
    then show ?thesis by (simp add: bit_kept_def)
  qed
  then show ?thesis
    unfolding ClaimReminder_def by (intro bit_kept.db_combinators bit_kept.stmtE_keeps)
qed

lemma InsertAuditLog_bit: "keeps (on_db (bit_kept i t flag)) (InsertAuditLog e)"
  unfolding InsertAuditLog_def
  by (intro bit_kept.db_combinators bit_kept.execE_keeps bit_kept_same) (simp add: append_audit_def Let_def)

lemma ClaimReminder_ok:
  assumes "ClaimReminder i flag t w = (Inr b, w')" "flag \<noteq> 0"
  shows "trace w' = trace w \<and> (b \<longrightarrow>
     (\<exists>s \<in> set (subscriptions (db (step_other w))). s_id s = i \<and> s_expires_at s = Some t \<and> s_reminders_sent s AND flag = 0)
     \<and> (\<forall>s \<in> set (subscriptions (db w')). s_id s = i \<and> s_expires_at s = Some t \<longrightarrow> s_reminders_sent s AND flag \<noteq> 0))"
proof -
  let ?P = "\<lambda>s. s_id s = i \<and> s_expires_at s = Some t \<and> s_reminders_sent s AND flag = 0"
  let ?f = "set_reminders (\<lambda>m. m OR flag)"
  obtain n w1 where upd: "stmtE (update_subs ?P ?f) w = (Inr n, w1)"
    and rest: "(if 0 < n then returnE True else bindE (queryE (find_subscription i)) (\<lambda>_. returnE False)) w1 = (Inr b, w')"
    using assms(1) unfolding ClaimReminder_def by (elim bindE_ok)
  note u = stmtE_ok [OF upd]
  have rows: "subscriptions (db w1) = update_where ?P ?f (subscriptions (db (step_other w)))"
    "n = count_where ?P (subscriptions (db (step_other w)))" "trace w1 = trace w"
    using update_subs_ok [OF u(1)] u(2) by auto
  show ?thesis
  proof (cases "0 < n")
    case True
    then have b: "b" "w' = w1" using rest by (simp_all add: returnE_ok)
    have "\<exists>s \<in> set (subscriptions (db (step_other w))). ?P s"
      using True unfolding rows(2) by (simp add: count_where_pos [of ?P, symmetric])
    moreover have "\<forall>s \<in> set (subscriptions (db w1)). s_id s = i \<and> s_expires_at s = Some t \<longrightarrow> s_reminders_sent s AND flag \<noteq> 0"
      unfolding rows(1) ball_update_where by (auto simp: set_reminders_def set_flag [OF assms(2)])
    ultimately show ?thesis using b rows(3) by blast
  next
    case False
    then have "\<not> b" "trace w' = trace w1"
      using rest by (auto elim!: bindE_ok dest!: stmtE_ok(2) simp: plain_ok queryE_def)
    with rows(3) show ?thesis by simp
  qed
qed

lemma ClaimReminder_refused:
  assumes "ClaimReminder i flag t w = (q, w')" "flag \<noteq> 0"
    and "\<forall>s \<in> set (subscriptions (db (step_other w))). s_id s = i \<and> s_expires_at s = Some t
      \<longrightarrow> s_reminders_sent s AND flag \<noteq> 0"
  shows "(\<exists>e. q = Inl e) \<and> trace w' = trace w \<or> q = Inr False \<and> trace w' = trace w"
proof (cases q)
  case (Inl e)
  then show ?thesis
    using assms(1)
    by (auto simp: ClaimReminder_def bindE_def queryE_def returnE_def dest!: stmtE_ok(2) stmtE_error(2)
        split: prod.splits sum.splits if_splits)
next
  case (Inr b)
  then show ?thesis
    using ClaimReminder_ok [OF assms(1) [unfolded Inr] assms(2)] assms(3) by blast
qed

lemma send_silent: "sendE env c m w = (r, w') \<Longrightarrow> db w' = db w \<and> turns w' = turns w"
  by (auto simp: sendE_def split: option.splits)

text \<open>C8. A reminder is sent at most once: after it was sent, no later attempt for the same window
  and the same expiry sends anything, whoever makes it and whatever fails, as long as the row keeps its
  bit while it keeps its expiry.\<close>

theorem SendExpiryReminder_once:
  assumes first: "SendExpiryReminder env now sub wd w = (Inr (), w')" "trace w' \<noteq> trace w"
    and wd: "wd \<in> set expiryReminderWindows" and e: "s_expires_at sub = Some t"
    and others: "rely (bit_kept (s_id sub) t (rw_bit wd)) w"
    and later: "bit_kept (s_id sub) t (rw_bit wd) (db w') (db (step_other v))"
    and again: "SendExpiryReminder env2 now2 sub wd v = (r, v')"
  shows "trace v' = trace v"
proof -
  let ?R = "bit_kept (s_id sub) t (rw_bit wd)"
  have armed: "sv_bot env \<and> s_telegram_id sub \<noteq> 0"
    by (rule ccontr) (use first e in \<open>auto simp: SendExpiryReminder_def returnE_ok\<close>)
  obtain b w1 where claim: "ClaimReminder (s_id sub) (rw_bit wd) t w = (Inr b, w1)"
    and rest: "(if \<not> b then returnE () else
      let (d, h) = ReminderWindowRemaining now t in
      tryE (sendE env (s_telegram_id sub) (reminderText d h (sv_sub_url env (s_subscription_id sub)))) (\<lambda>sent.
        case sent of
          Inl e \<Rightarrow> tryE (ReleaseReminder (s_id sub) (rw_bit wd) t) (\<lambda>released.
              failE (case released of Inl e' \<Rightarrow> e @ e' | Inr _ \<Rightarrow> e))
        | Inr _ \<Rightarrow> best_effort (InsertAuditLog (AuditReminderSent sub (rw_name wd))))) w1 = (Inr (), w')"
    using first(1) e armed unfolding SendExpiryReminder_def by (auto elim!: bindE_ok)
  note c = ClaimReminder_ok [OF claim reminder_bits [OF wd]]
  have b: "b" using rest c first(2) by (auto simp: returnE_ok split: if_splits)
  obtain w2 where w2: "db w2 = db w1" "turns w2 = turns w1"
    "best_effort (InsertAuditLog (AuditReminderSent sub (rw_name wd))) w2 = (Inr (), w')"
    using rest b
    by (auto simp: failE_ok dest!: send_silent elim!: tryE_run split: prod.splits sum.splits)
  have "rely ?R w2"
    using keeps_run(2) [OF ClaimReminder_bit others claim] w2(2) by (simp add: rely_def)
  then have "?R (db w2) (db w')"
    by (rule keeps_run(1) [OF bit_kept.best_effort_keeps [OF InsertAuditLog_bit] _ w2(3)])
  then have "?R (db w1) (db (step_other v))"
    using later w2(1) by (auto intro: bit_kept.db_trans)
  then have set: "\<forall>s \<in> set (subscriptions (db (step_other v))). s_id s = s_id sub \<and> s_expires_at s = Some t
      \<longrightarrow> s_reminders_sent s AND rw_bit wd \<noteq> 0"
    using c b unfolding bit_kept_def by blast
  show ?thesis
    using again e ClaimReminder_refused [OF _ reminder_bits [OF wd] set]
    by (auto simp: SendExpiryReminder_def bindE_def returnE_def split: if_splits prod.splits sum.splits)
qed

definition window_message :: "reminder_window \<Rightarrow> time \<Rightarrow> time \<Rightarrow> string \<Rightarrow> bot_message" where
  "window_message wd now t url = (case ReminderWindowRemaining now t of (d, h) \<Rightarrow> reminderText d h url)"

definition seen :: "reminder_window \<Rightarrow> time \<Rightarrow> time \<Rightarrow> bool" where
  "seen wd now t = (case ReminderWindowBounds wd now of (a, b) \<Rightarrow> a \<le> t \<and> t \<le> b)"

lemma first_look:
  fixes start t :: int
  assumes "start \<le> t - lead - 30 * minute"
  shows "\<exists>k::nat. t - lead - 30 * minute \<le> start + int k * (30 * minute)
    \<and> start + int k * (30 * minute) < t - lead
    \<and> (\<forall>j<k. start + int j * (30 * minute) < t - lead - 30 * minute)"
proof -
  let ?m = "30 * minute" and ?x = "t - lead - 30 * minute"
  have m: "0 < ?m" by (simp add: duration_defs)
  let ?k = "LEAST k::nat. ?x \<le> start + int k * ?m"
  have ex: "?x \<le> start + int (nat (?x - start)) * ?m"
  proof -
    have "?x - start \<le> (?x - start) * ?m" using assms m by (simp add: duration_defs)
    then show ?thesis using assms by simp
  qed
  have 1: "?x \<le> start + int ?k * ?m"
    using ex by (rule LeastI [where P = "\<lambda>k. ?x \<le> start + int k * ?m"])
  have 2: "start + int j * ?m < ?x" if "j < ?k" for j
    using not_less_Least [OF that] by simp
  have "start + int ?k * ?m < t - lead"
  proof (cases ?k)
    case 0
    then show ?thesis using assms m by simp
  next
    case (Suc j)
    have "start + int j * ?m < ?x" by (rule 2) (simp add: Suc)
    then show ?thesis unfolding Suc by (simp add: algebra_simps)
  qed
  with 1 2 show ?thesis by blast
qed

text \<open>The worker looks every thirty minutes. An expiry that lies far enough ahead is seen by one of
  the looks in every window, and the first look that sees it falls into the half hour before the
  window's lead time, so that the message says three days, one day and three hours.
\<close>

theorem reminder_windows_named:
  assumes "wd \<in> set expiryReminderWindows" "start \<le> t - rw_lead_time wd - 30 * minute"
  shows "\<exists>k::nat. seen wd (start + int k * (30 * minute)) t
    \<and> (\<forall>j<k. \<not> seen wd (start + int j * (30 * minute)) t)
    \<and> window_message wd (start + int k * (30 * minute)) t url
      = (if rw_lead_time wd = 72 * hour then MsgDaysLeft 3 url
         else if rw_lead_time wd = 24 * hour then MsgDaysLeft 1 url else MsgHoursLeft 3 url)"
proof -
  obtain k :: nat where k: "t - rw_lead_time wd - 30 * minute \<le> start + int k * (30 * minute)"
    "start + int k * (30 * minute) < t - rw_lead_time wd"
    "\<And>j. j < k \<Longrightarrow> start + int j * (30 * minute) < t - rw_lead_time wd - 30 * minute"
    using first_look [OF assms(2)] by blast
  let ?now = "start + int k * (30 * minute)"
  have s: "seen wd ?now t"
    using k(1,2) by (simp add: seen_def ReminderWindowBounds_def Let_def duration_defs)
  have n: "\<not> seen wd (start + int j * (30 * minute)) t" if "j < k" for j
    using k(3) [OF that] by (simp add: seen_def ReminderWindowBounds_def Let_def duration_defs)
  define rem where "rem = t - ?now"
  have rem: "rw_lead_time wd < rem" "rem \<le> rw_lead_time wd + 30 * minute"
    using k(1,2) by (simp_all add: rem_def)
  have "rem div hour = (if rw_lead_time wd = 72 * hour then 72 else if rw_lead_time wd = 24 * hour then 24 else 3)"
    using assms(1) rem by (auto simp: expiryReminderWindows_def duration_defs)
  then have "rem div (24 * hour) = (if rw_lead_time wd = 72 * hour then 3 else if rw_lead_time wd = 24 * hour then 1 else 0)
      \<and> (rem div hour) mod 24 = (if rw_lead_time wd = 3 * hour then 3 else 0) \<and> 0 < rem"
    using assms(1) rem by (auto simp: expiryReminderWindows_def duration_defs)
  moreover have "rw_lead_time wd = 72 * hour \<or> rw_lead_time wd = 24 * hour \<or> rw_lead_time wd = 3 * hour"
    using assms(1) by (auto simp: expiryReminderWindows_def)
  ultimately have "window_message wd ?now t url
      = (if rw_lead_time wd = 72 * hour then MsgDaysLeft 3 url
         else if rw_lead_time wd = 24 * hour then MsgDaysLeft 1 url else MsgHoursLeft 3 url)"
    unfolding window_message_def ReminderWindowRemaining_def Let_def rem_def [symmetric] reminderText_def
    by (auto simp: duration_defs)
  with s n show ?thesis by blast
qed

section \<open>Silent operations\<close>

abbreviation silent :: "(world, 'a) op \<Rightarrow> bool" where
  "silent m \<equiv> keeps (emits (\<lambda>_. False)) m"

lemma silent_run: "silent m \<Longrightarrow> m w = (r, w') \<Longrightarrow> trace w' = trace w"
  using emits_run [of "\<lambda>_. False" m w r w'] by (cases "trace w' = trace w") (auto simp: list_all_iff neq_Nil_conv)

lemma transaction_emits: "keeps (emits P) body \<Longrightarrow> keeps (emits P) (transaction body)"
  unfolding keeps_def
proof
  fix w
  assume b: "\<forall>s. emits P s (snd (body s))"
  have "emits P (step_other w) (snd (body (step_other w)))"
    using b by blast
  then show "emits P w (snd (transaction body w))"
    by (auto simp: transaction_def emits_def Let_def split: turn.splits prod.splits sum.splits)
qed

lemma tx_emit: "keeps (emits P) (tx_query f)" "keeps (emits P) (tx_queryE g)" "keeps (emits P) (tx_execE h)"
  by (auto intro!: silent_emits simp: tx_query_def tx_queryE_def tx_execE_def)

lemma service_silent:
  "keeps (emits P) (GetPlanByName c)" "keeps (emits P) (GetNodesByPlanName c)" "keeps (emits P) trialNodes"
  "keeps (emits P) (generateE g)" "keeps (emits P) (logAudit e)" "keeps (emits P) RefreshActiveSubscriptionsMetric"
  "keeps (emits P) (CreateTrialSubscription c c' c'' t)" "keeps (emits P) (DeleteClaimedTrial i)"
  unfolding GetPlanByName_def GetNodesByPlanName_def trialNodes_def logAudit_def best_effort_def InsertAuditLog_def
    RefreshActiveSubscriptionsMetric_def CountActiveSubscriptions_def CountPremiumSubscriptions_def
    CountFreeSubscriptions_def CountTrialSubscriptions_def CreateTrialSubscription_def DeleteClaimedTrial_def
  by (intro emit_steps store_emits tx_emit | rule silent_emits, simp add: generateE_def)+

lemma best_effort_ok: "best_effort m w = (Inr (), snd (m w))"
  by (simp add: best_effort_def op_simps split: prod.splits)

lemma logAudit_run: "\<exists>w'. logAudit e w = (Inr (), w')" "\<exists>w'. RefreshActiveSubscriptionsMetric w = (Inr (), w')"
  by (auto simp: logAudit_def RefreshActiveSubscriptionsMetric_def best_effort_ok bindE_def)

lemma silent_bindE:
  assumes "bindE m k w = (Inl e, w')" "silent m"
  obtains "trace w' = trace w" | x w1 where "trace w1 = trace w" "k x w1 = (Inl e, w')"
proof (cases "m w")
  case (Pair q w1)
  with assms(1) that silent_run [OF assms(2) Pair] show thesis
    by (cases q) (auto simp: bindE_def)
qed

section \<open>Trials\<close>

text \<open>
  C9. A trial that could not be created leaves no client behind on a panel: either no panel was
  asked to create one, or the only one asked refused, or it was asked to delete the same client
  afterwards.
\<close>

theorem CreateTrial_leaves_no_client:
  assumes "CreateTrial env now inviteCode w = (Inl e, w')"
  shows "trace w' = trace w
    \<or> (\<exists>i p. trace w' = trace w @ [EffVpn VpnCreate i p]
          \<and> ne_answer (sv_node env) (trace w) i VpnCreate p \<noteq> None)
    \<or> (\<exists>i p. trace w' = trace w @ [EffVpn VpnCreate i p, EffVpn VpnDelete i p])"
proof -
  have store: "\<exists>i p. trace w' = t @ [EffVpn VpnCreate i p]
          \<and> ne_answer (sv_node env) t i VpnCreate p \<noteq> None
      \<or> trace w' = t @ [EffVpn VpnCreate i p, EffVpn VpnDelete i p]"
    if run: "bindE (vpnE (sv_node env) VpnCreate i p) (\<lambda>_.
      tryE (CreateTrialSubscription inviteCode subID clientID x) (\<lambda>stored.
      case stored of
        Inl e \<Rightarrow> bindE (best_effort (vpnE (sv_node env) VpnDelete i p)) (\<lambda>_. failE e)
      | Inr sub \<Rightarrow> bindE (logAudit (AuditTrialCreated sub)) (\<lambda>_.
          bindE RefreshActiveSubscriptionsMetric (\<lambda>_. returnE sub)))) v = (Inl e, w')" and v: "trace v = t"
    for i p subID clientID x v t
  proof (cases "ne_answer (sv_node env) t i VpnCreate p")
    case (Some d)
    then show ?thesis using run v by (auto simp: bindE_def vpnE_def)
  next
    case None
    obtain q v1 where q: "CreateTrialSubscription inviteCode subID clientID x (v\<lparr>trace := t @ [EffVpn VpnCreate i p]\<rparr>) = (q, v1)"
      by fastforce
    have t1: "trace v1 = t @ [EffVpn VpnCreate i p]"
      using silent_run [OF service_silent(7) q] by simp
    show ?thesis
    proof (cases q)
      case (Inl d)
      then show ?thesis using run v None q t1
        by (auto simp: bindE_def tryE_def vpnE_def best_effort_def returnE_def failE_def split: option.splits)
    next
      case (Inr sub)
      then show ?thesis using run v None q logAudit_run(1) logAudit_run(2)
        by (auto simp: bindE_def tryE_def vpnE_def returnE_def split: prod.splits sum.splits) (metis Pair_inject sum.distinct(1))+
    qed
  qed
  show ?thesis
    using assms unfolding CreateTrial_def Let_def
    by (elim silent_bindE [OF _ service_silent(4)] silent_bindE [OF _ service_silent(1)]
        silent_bindE [OF _ service_silent(3)])
      (auto simp: failE_def split: if_splits dest!: store)
qed

text \<open>The nodes, asked one after the other from trace \<open>t\<close> on, deleted the client or did not have it.\<close>

fun all_gone :: "node_env \<Rightarrow> vpn_provision \<Rightarrow> effect list \<Rightarrow> uint list \<Rightarrow> bool" where
  "all_gone env p t [] = True"
| "all_gone env p t (i # is) =
     ((case ne_answer env t i VpnDelete p of None \<Rightarrow> True | Some e \<Rightarrow> errors_is e VpnErrSubscriptionNotFound)
      \<and> all_gone env p (t @ [EffVpn VpnDelete i p]) is)"

text \<open>Operations that do not touch the database.\<close>

definition db_still :: "world \<Rightarrow> world \<Rightarrow> bool" where
  "db_still w w' \<longleftrightarrow> db w' = db w \<and> turns w' = turns w"

interpretation db_still: op_contract db_still
  by unfold_locales (auto simp: db_still_def)

lemma panels_still: "keeps db_still (vpnE env c i p)" "keeps db_still (generateE g)" "keeps db_still (sendE e c' m)"
  by (auto intro!: keepsI simp: db_still_def vpnE_def generateE_def sendE_def split: option.splits)

lemma delete_everywhere_frame: "keeps db_still (delete_everywhere env p ns)"
  by (induction ns) (auto intro!: db_still.combinators panels_still)

lemma delete_everywhere_gone:
  "delete_everywhere env p ns w = (Inr [], w') \<Longrightarrow>
     trace w' = trace w @ map (\<lambda>i. EffVpn VpnDelete i p) (map n_id (filter n_is_active ns))
     \<and> all_gone env p (trace w) (map n_id (filter n_is_active ns))"
proof (induction ns arbitrary: w)
  case Nil
  then show ?case by (simp add: returnE_ok)
next
  case (Cons n ns)
  show ?case
  proof (cases "n_is_active n")
    case False
    then show ?thesis using Cons by simp
  next
    case True
    then have "ne_provision env (n_id n)"
      using Cons.prems by (auto simp: plain_ok elim!: bindE_ok split: if_splits)
    with True Cons.prems obtain q w1 where q: "vpnE env VpnDelete (n_id n) p w = (q, w1)"
      and rest: "bindE (delete_everywhere env p ns) (\<lambda>es. returnE (case q of Inr _ \<Rightarrow> es
             | Inl e \<Rightarrow> if errors_is e VpnErrSubscriptionNotFound then es else e # es)) w1 = (Inr [], w')"
      by (auto elim!: tryE_run)
    have t: "trace w1 = trace w @ [EffVpn VpnDelete (n_id n) p]"
      using q by (auto simp: vpnE_def split: option.splits)
    from rest have d: "delete_everywhere env p ns w1 = (Inr [], w')"
      and a: "q = Inr () \<or> (\<exists>e. q = Inl e \<and> errors_is e VpnErrSubscriptionNotFound)"
      by (auto simp: plain_ok elim!: bindE_ok split: sum.splits if_splits)
    have "case ne_answer env (trace w) (n_id n) VpnDelete p of None \<Rightarrow> True
        | Some e \<Rightarrow> errors_is e VpnErrSubscriptionNotFound"
      using q a by (auto simp: vpnE_def split: option.splits)
    with Cons.IH [OF d] t True show ?thesis by simp
  qed
qed

definition row_kept :: "uint \<Rightarrow> db \<Rightarrow> db \<Rightarrow> bool" where
  "row_kept i d d' \<longleftrightarrow> (i \<in> s_id ` set (subscriptions d) \<longrightarrow> i \<in> s_id ` set (subscriptions d'))"

interpretation row_kept: db_contract "row_kept i" for i
  by unfold_locales (auto simp: row_kept_def)

lemma DeleteClaimedTrial_error: 
  assumes "DeleteClaimedTrial i w = (Inl e, w')" "rely (row_kept i) w"
  shows "row_kept i (db w) (db w')"
proof -
  let ?q = "queryE (named_plan ErrRecordNotFound TrialPlanName)"
  obtain r w1 where q: "?q w = (r, w1)" by fastforce
  note k = keeps_run [OF row_kept.queryE_keeps(1) assms(2) q]
  show ?thesis
  proof (cases r)
    case (Inl d)
    then show ?thesis using assms(1) q k(1) by (simp add: DeleteClaimedTrial_def bindE_def)
  next
    case (Inr plan)
    let ?s = "stmtE (delete_subs (\<lambda>s. s_id s = i \<and> s_plan_id s = pl_id plan \<and> s_telegram_id s < 0
              \<and> s_status s = SubscriptionStatusExpired))"
    obtain r2 w2 where s: "?s w1 = (r2, w2)" by fastforce
    have o: "row_kept i (db w1) (db (step_other w1))"
      by (rule row_kept.step_other_R [OF k(2)])
    have "db w' = db w2" "\<forall>g. r2 = Inr g \<longrightarrow> g = []"
      using assms(1) q s Inr by (auto simp: DeleteClaimedTrial_def bindE_def plain_ok failE_def returnE_def
          split: sum.splits if_splits)
    moreover have "row_kept i (db (step_other w1)) (db w2)"
    proof (cases r2)
      case (Inl d)
      then show ?thesis using stmtE_error(1) [OF s [unfolded Inl]] by (simp add: row_kept_def)
    next
      case (Inr g)
      then have "g = []" using calculation(2) by simp
      then have "subscriptions (db w2) = subscriptions (db (step_other w1))"
        using delete_subs_ok [OF stmtE_ok(1) [OF s [unfolded Inr]]]
        by (auto simp: delete_where_def filter_empty_conv filter_id_conv)
      then show ?thesis by (simp add: row_kept_def)
    qed
    ultimately show ?thesis using k(1) o by (metis row_kept.db_trans)
  qed
qed

text \<open>
  The clean-up lets the row of an expired trial go only after every active node deleted the
  client, or answered that it does not have it; whatever else happens, the row stays and the next
  round finds it again.
\<close>

theorem cleanup_trial_panels_first:
  assumes "cleanup_trial env sub w = (r, w')" and "rely (row_kept (s_id sub)) w"
  defines "ids \<equiv> map n_id (filter n_is_active (ne_nodes (sv_node env)))"
    and "p \<equiv> trial_provision (s_client_id sub) (s_subscription_id sub) 0 None"
  shows "row_kept (s_id sub) (db w) (db w')
    \<or> (r = Inr (Some (Inr ())) \<and> all_gone (sv_node env) p (trace w) ids
       \<and> trace w' = trace w @ map (\<lambda>i. EffVpn VpnDelete i p) ids
           @ (if sv_invalidate_sub env then [EffInvalidateBySubID (s_subscription_id sub)] else []))"
proof (cases "s_subscription_id sub = []")
  case True
  then show ?thesis using assms(1) by (simp add: cleanup_trial_def returnE_def row_kept.db_refl)
next
  case False
  obtain q w1 where d: "delete_everywhere (sv_node env) p (ne_nodes (sv_node env)) w = (q, w1)"
    by fastforce
  have fr: "db w1 = db w" "turns w1 = turns w"
    using keepsD [OF delete_everywhere_frame [of "sv_node env" p "ne_nodes (sv_node env)"], of w] d
    by (simp_all add: db_still_def)
  show ?thesis
  proof (cases "q = Inr []")
    case True
    note g = delete_everywhere_gone [OF d [unfolded True]]
    obtain q2 w2 where c: "DeleteClaimedTrial (s_id sub) w1 = (q2, w2)" by fastforce
    have rl: "rely (row_kept (s_id sub)) w1"
      using assms(2) fr by (simp add: rely_def)
    show ?thesis
    proof (cases q2)
      case (Inl e)
      then have "w' = w2"
        using assms(1) d True c False
        by (auto simp: cleanup_trial_def deleteClientFromAllNodes_def p_def op_simps)
      then show ?thesis
        using DeleteClaimedTrial_error [OF c [unfolded Inl] rl] fr(1) by simp
    next
      case (Inr u)
      then have "r = Inr (Some (Inr ())) \<and> trace w' = trace w2
          @ (if sv_invalidate_sub env then [EffInvalidateBySubID (s_subscription_id sub)] else [])"
        using assms(1) d True c False
        by (auto simp: cleanup_trial_def deleteClientFromAllNodes_def p_def op_simps InvalidateBySubID_def)
      moreover have "trace w2 = trace w1"
        using silent_run [OF service_silent(8) c] .
      ultimately show ?thesis using g by (simp add: ids_def)
    qed
  next
    case q: False
    then have "db w' = db w1"
      using assms(1) d False
      by (auto simp: cleanup_trial_def deleteClientFromAllNodes_def p_def op_simps split: sum.splits)
    then show ?thesis using fr(1) by (simp add: row_kept.db_refl)
  qed
qed

section \<open>Deletion\<close>

lemma gone_stays:
  assumes "subs_evolve d d'" "subs_wf d" "i \<le> subscription_seq d" "i \<notin> s_id ` set (subscriptions d)"
  shows "i \<notin> s_id ` set (subscriptions d')"
  using assms by (auto simp: subs_evolve_def)

lemma DeleteSubscriptionByID_gone:
  assumes "DeleteSubscriptionByID i w = (Inr s, w')"
  shows "i \<notin> s_id ` set (subscriptions (db w'))"
    "\<forall>sn \<in> set (subscription_nodes (db w')). sn_subscription_id sn \<noteq> i"
proof -
  have "\<exists>x gone d. x \<in> set (subscriptions d) \<and> s_id x = i
      \<and> delete_subs (\<lambda>s. s_id s = i) d = Inr (gone, db w')"
    using assms unfolding DeleteSubscriptionByID_def or_not_found_def
    by (auto simp: plain_ok elim!: tryE_run transaction_ok bindE_ok split: sum.splits if_splits option.splits
        dest!: tx_queryE_run txE_run select_first_Some) blast
  then obtain x gone d0 where x: "x \<in> set (subscriptions d0)" "s_id x = i"
    and d: "delete_subs (\<lambda>s. s_id s = i) d0 = Inr (gone, db w')"
    by blast
  have g: "x \<in> set gone" using delete_subs_ok [OF d] x by auto
  show "i \<notin> s_id ` set (subscriptions (db w'))"
    using delete_subs_ok [OF d] by auto
  show "\<forall>sn \<in> set (subscription_nodes (db w')). sn_subscription_id sn \<noteq> i"
    using delete_subs_ok [OF d] g x(2) by auto
qed

text \<open>
  A deletion that reports success is complete: the subscription it returns was revoked, no row has
  its id any more, and none will, whatever the other sessions do, since ids are not given out twice.
\<close>

theorem DeleteByID_complete:
  assumes run: "DeleteByID env now i w = (Inr sub, w')"
    and others: "rely subs_evolve w" and wf: "subs_wf (db w)"
  shows "s_id sub = i \<and> s_status sub = SubscriptionStatusRevoked \<and> i \<notin> s_id ` set (subscriptions (db w'))"
proof -
  obtain sub0 w1 where get: "GetByID i w = (Inr sub0, w1)"
    and rest: "revokeAndDeprovisionThenDelete env now sub0 w1 = (Inr sub, w')"
    using run unfolding DeleteByID_def by (elim bindE_ok)
  have id: "s_id sub0 = i" and row: "i \<in> s_id ` set (subscriptions (db w1))"
    using get by (auto simp: GetByID_def queryE_def fetch_def dest!: stmtE_ok(1) find_subscription_ok split: sum.splits)
  obtain u w2 w3 w4 gone where front: "bindE (deprovisionSub env now i) (\<lambda>_. bindE (GetBySubscriptionID i) (\<lambda>_.
      DeleteSubscriptionNodesBySubscriptionID i)) w2 = (Inr u, w3)"
    and mark: "UpdateSubscription (sub0\<lparr>s_status := SubscriptionStatusRevoked\<rparr>) w1 = (Inr (), w2)"
    and del: "DeleteSubscriptionByID i w3 = (Inr gone, w4)"
    and tail: "bindE (logAudit (AuditSubscriptionDeleted sub (sv_admin env))) (\<lambda>_.
     bindE (invalidate_sub env sub) (\<lambda>_. RefreshActiveSubscriptionsMetric)) w4 = (Inr (), w')"
    and sub: "sub = sub0\<lparr>s_status := SubscriptionStatusRevoked\<rparr>"
    using rest id unfolding revokeAndDeprovisionThenDelete_def markRevokedSub_def Let_def
    by (auto simp: plain_ok bindE_def split: prod.splits sum.splits if_splits)
  note st = subs_all.service_steps
  have k1: "keeps (on_db subs_evolve) (GetByID i)" by (intro st)
  have k2: "keeps (on_db subs_evolve) (UpdateSubscription x)" for x by (intro st)
  have k3: "keeps (on_db subs_evolve) (bindE (deprovisionSub env now i) (\<lambda>_. bindE (GetBySubscriptionID i) (\<lambda>_.
      DeleteSubscriptionNodesBySubscriptionID i)))" by (intro st subs_all.removal_keeps)
  have k4: "keeps (on_db subs_evolve) (DeleteSubscriptionByID i)" by (intro st)
  have k5: "keeps (on_db subs_evolve) (bindE (logAudit e) (\<lambda>_. bindE (invalidate_sub env sub) (\<lambda>_.
      RefreshActiveSubscriptionsMetric)))" for e by (intro st)
  note 1 = keeps_run [OF k1 others get]
  note 2 = keeps_run [OF k2 1(2) mark]
  note 3 = keeps_run [OF k3 2(2) front]
  note 4 = keeps_run [OF k4 3(2) del]
  have wf1: "subs_wf (db w1)" using 1(1) wf by (simp add: subs_evolve_def)
  have "subs_evolve (db w1) (db w4)"
    using 2(1) 3(1) 4(1) by (blast intro: subs.db_trans)
  then have wf4: "subs_wf (db w4)" "subscription_seq (db w1) \<le> subscription_seq (db w4)"
    using wf1 by (simp_all add: subs_evolve_def)
  have "i \<le> subscription_seq (db w1)"
    using row wf1 by (auto simp: subs_wf_def)
  then show ?thesis
    using gone_stays [OF keeps_run(1) [OF k5 4(2) tail] wf4(1) _ DeleteSubscriptionByID_gone(1) [OF del]] wf4(2) sub id
    by simp
qed

end
