(* ===== verification/Subscription_Witnesses.thy ===== *)
theory Subscription_Witnesses
  imports Witnesses Subscription_Laws
begin

text \<open>
  The properties of the subscription service, applied to the sample installation.
\<close>

definition good_svc :: svc_env where
  "good_svc = \<lparr>sv_node = good_env, sv_sync = True, sv_new_uuid = (\<lambda>_. Inr ''uuid1''),
     sv_new_subid = (\<lambda>_. Inr ''sub1''), sv_trial_hours = 3, sv_sub_url = (\<lambda>c. c),
     sv_invalidate = True, sv_invalidate_sub = True, sv_bot = True, sv_send = (\<lambda>_ _ _. None), sv_admin = 1\<rparr>"

lemma sample_admin: "succeeds (AdminSetPlan good_svc day0 7 3 30 (world_of db0))"
  by code_simp

lemma AdminSetPlan_result_witness:
  "\<exists>sub w'. AdminSetPlan good_svc day0 7 3 30 (world_of db0) = (Inr sub, w')
    \<and> s_plan_id sub = 3 \<and> (\<exists>t. s_expires_at sub = Some t \<and> day0 < t)"
proof -
  obtain sub w' where run: "AdminSetPlan good_svc day0 7 3 30 (world_of db0) = (Inr sub, w')"
    using succeedsE [OF sample_admin] by blast
  have f: "find_subscription 7 (db (world_of db0)) = Inr user_sub" "find_plan 3 (db (world_of db0)) = Inr paid_plan"
    by code_simp+
  have "pl_name paid_plan \<noteq> FreePlanName"
    by code_simp
  then show ?thesis
    using run AdminSetPlan_result [OF run calm_world_of f] by auto
qed

definition db4 :: db where
  "db4 = db1\<lparr>subscriptions := [paid_sub\<lparr>s_expires_at := Some (day0 + 72 * hour)\<rparr>]\<rparr>"

definition soon_sub :: subscription where "soon_sub = hd (subscriptions db4)"

lemma sample_send:
  "let (r, w) = SendExpiryReminder good_svc day0 soon_sub (hd expiryReminderWindows) (world_of db4)
   in succeeds (r, w) \<and> trace w \<noteq> []"
  by code_simp

lemma SendExpiryReminder_once_witness:
  "\<exists>w'. SendExpiryReminder good_svc day0 soon_sub (hd expiryReminderWindows) (world_of db4) = (Inr (), w')
    \<and> trace w' \<noteq> []
    \<and> trace (snd (SendExpiryReminder good_svc (day0 + hour) soon_sub (hd expiryReminderWindows) (world_of (db w')))) = []"
proof -
  let ?w = "hd expiryReminderWindows"
  obtain w' where run: "SendExpiryReminder good_svc day0 soon_sub ?w (world_of db4) = (Inr (), w')" "trace w' \<noteq> []"
    using sample_send by (auto simp: succeeds_def split: prod.splits sum.splits)
  obtain r v' where again: "SendExpiryReminder good_svc (day0 + hour) soon_sub ?w (world_of (db w')) = (r, v')"
    by (cases "SendExpiryReminder good_svc (day0 + hour) soon_sub ?w (world_of (db w'))")
  have "trace v' = trace (world_of (db w'))"
  proof (rule SendExpiryReminder_once [OF run(1) _ _ _ _ _ again])
    show "trace w' \<noteq> trace (world_of db4)" using run(2) by (simp add: world_of_def)
    show "?w \<in> set expiryReminderWindows" by (simp add: expiryReminderWindows_def)
    show "s_expires_at soon_sub = Some (day0 + 72 * hour)" by code_simp
  qed (simp_all add: bit_kept.db_refl)
  with run again show ?thesis by (simp add: world_of_def)
qed

lemma reminder_windows_named_witness:
  "\<exists>k::nat. seen (hd expiryReminderWindows) (day0 + int k * (30 * minute)) (day0 + 100 * hour)
    \<and> window_message (hd expiryReminderWindows) (day0 + int k * (30 * minute)) (day0 + 100 * hour) ''u'' = MsgDaysLeft 3 ''u''"
proof -
  have w: "hd expiryReminderWindows \<in> set expiryReminderWindows" "rw_lead_time (hd expiryReminderWindows) = 72 * hour"
    by (simp_all add: expiryReminderWindows_def)
  then show ?thesis
    using reminder_windows_named [OF w(1), of day0 "day0 + 100 * hour" "''u''"]
    by (auto simp: w(2) duration_defs)
qed

text \<open>A panel that works, and a trial plan whose row was not stored because of a busy database.\<close>

definition db5 :: db where
  "db5 = db0\<lparr>plan_nodes := [(1, 1), (2, 1), (3, 1), (3, 2)]\<rparr>"

definition busy_world :: world where
  "busy_world = (world_of db5)\<lparr>turns := [Quiet, Quiet, Quiet, Fails FaultBusy]\<rparr>"

lemma sample_trial: "fails (CreateTrial good_svc day0 [] busy_world)"
  by code_simp

lemma CreateTrial_leaves_no_client_witness:
  "\<exists>e w' i p. CreateTrial good_svc day0 [] busy_world = (Inl e, w')
     \<and> trace w' = [EffVpn VpnCreate i p, EffVpn VpnDelete i p]"
proof -
  obtain e w' where run: "CreateTrial good_svc day0 [] busy_world = (Inl e, w')"
    using failsE [OF sample_trial] by blast
  have "length (trace (snd (CreateTrial good_svc day0 [] busy_world))) = 2"
    by code_simp
  then show ?thesis
    using run CreateTrial_leaves_no_client [OF run] by (auto simp: busy_world_def world_of_def)
qed

definition old_trial :: subscription where
  "old_trial = blank_subscription\<lparr>s_id := 5, s_telegram_id := - 5, s_client_id := ''c5'',
     s_subscription_id := ''sub5'', s_plan_id := 2, s_status := SubscriptionStatusExpired\<rparr>"

definition db6 :: db where "db6 = db0\<lparr>subscriptions := [user_sub, old_trial]\<rparr>"

lemma sample_cleanup:
  "let (r, w) = cleanup_trial good_svc old_trial (world_of db6) in map s_id (subscriptions (db w)) = [7]"
  by code_simp

lemma cleanup_trial_panels_first_witness:
  "\<exists>w'. cleanup_trial good_svc old_trial (world_of db6) = (Inr (Some (Inr ())), w')
     \<and> trace w' = map (\<lambda>i. EffVpn VpnDelete i (trial_provision ''c5'' ''sub5'' 0 None)) [1, 2]
         @ [EffInvalidateBySubID ''sub5'']"
proof -
  obtain r w' where run: "cleanup_trial good_svc old_trial (world_of db6) = (r, w')"
    by (cases "cleanup_trial good_svc old_trial (world_of db6)")
  have "\<not> row_kept 5 db6 (db w')"
    using sample_cleanup run by (auto simp: row_kept_def db6_def db0_def old_trial_def user_sub_def map_eq_Cons_conv)
  moreover have "map n_id (filter n_is_active (ne_nodes (sv_node good_svc))) = [1, 2]"
    "s_id old_trial = 5" "s_client_id old_trial = ''c5''" "s_subscription_id old_trial = ''sub5''"
    by code_simp+
  ultimately show ?thesis
    using run cleanup_trial_panels_first [OF run calm_rely [OF calm_world_of]] by (simp add: good_svc_def world_of_def)
qed

lemma sample_delete: "succeeds (DeleteByID good_svc day0 7 (world_of db0))"
  by code_simp

lemma DeleteByID_complete_witness:
  "\<exists>sub w'. DeleteByID good_svc day0 7 (world_of db0) = (Inr sub, w')
     \<and> s_status sub = SubscriptionStatusRevoked \<and> 7 \<notin> s_id ` set (subscriptions (db w'))"
proof -
  obtain sub w' where run: "DeleteByID good_svc day0 7 (world_of db0) = (Inr sub, w')"
    using succeedsE [OF sample_delete] by blast
  then show ?thesis using DeleteByID_complete [OF run] db0_wf by simp
qed

end
