(* ===== verification/Order_Service.thy ===== *)
theory Order_Service
  imports Subscription_Laws Platega
begin

text \<open>
  The payment flow: \<open>internal/service/order.go\<close>.

  A purchase is one pending order (the intent) per subscription and product. \<open>RequestPayment\<close> hands
  out its link, and contacts the provider for a new one only after it has marked the intent
  uncertain; \<open>ConfirmPayment\<close> and \<open>CancelPaymentByProvider\<close> answer the provider's callbacks;
  \<open>SyncProviderFees\<close> and \<open>ReconcilePendingOrders\<close> are the background passes.

  The provider is outside the program: \<open>pay_env\<close> holds its answers, arbitrary functions of
  everything that happened before, with the optional services, the administrator's chat, the
  outcome of the per-payment lock and the deadline of a background pass. Every call to the provider
  and every alert is an effect of the trace; of an alert the event and the order are kept.
  A Go function that returns a value together with an error is an operation that always returns,
  with the pair as its result.
\<close>

section \<open>The environment\<close>

record create_request =
  cq_amount :: cents
  cq_currency :: string
  cq_description :: string
  cq_return_url :: string
  cq_failed_url :: string
  cq_payload :: string
  cq_user_id :: string
  cq_user_name :: string

record create_response =
  cs_transaction_id :: string
  cs_url :: string
  cs_redirect :: string
  cs_expires_in :: string

record status_response =
  ts_status :: string
  ts_amount :: string
  ts_currency :: string
  ts_commission :: string

record pay_env =
  pe_enabled :: bool
  pe_sub :: "svc_env option"
  pe_sync :: "node_env option"
  pe_uuid :: uuid_parser
  pe_create :: "effect list \<Rightarrow> create_request \<Rightarrow> error + create_response option"
  pe_status :: "effect list \<Rightarrow> uuid \<Rightarrow> error + status_response option"
  pe_lock :: "effect list \<Rightarrow> uuid \<Rightarrow> error option"
  pe_budget :: "effect list \<Rightarrow> error option"
  pe_admin :: bool
  pe_bot_username :: string

definition createE :: "pay_env \<Rightarrow> uint \<Rightarrow> create_request \<Rightarrow> (world, create_response option) op" where
  "createE env orderID req w =
     (pe_create env (trace w) req,
      w\<lparr>trace := trace w @ [EffProviderCreate orderID (cq_amount req) (cq_currency req)]\<rparr>)"

definition statusE :: "pay_env \<Rightarrow> uuid \<Rightarrow> (world, status_response option) op" where
  "statusE env ppid w =
     (pe_status env (trace w) ppid, w\<lparr>trace := trace w @ [EffProviderStatus ppid]\<rparr>)"

definition with_payment_lock :: "pay_env \<Rightarrow> uuid \<Rightarrow> (world, 'a) op \<Rightarrow> (world, 'a) op" where
  "with_payment_lock env ppid body w =
     (case pe_lock env (trace w) ppid of Some e \<Rightarrow> (Inl e, w) | None \<Rightarrow> body w)"

definition budgetE :: "pay_env \<Rightarrow> (world, error option) op" where
  "budgetE env w = (Inr (pe_budget env (trace w)), w)"

definition NotifyPaymentIssue :: "string \<Rightarrow> uint \<Rightarrow> (world, unit) op" where
  "NotifyPaymentIssue event orderID = emit (EffPaymentIssue event orderID)"

definition recordPaymentAmount :: "string \<Rightarrow> cents \<Rightarrow> string \<Rightarrow> (world, unit) op" where
  "recordPaymentAmount operation amountCents currency0 =
     (let currency = to_upper (trim_space currency0) in
      if operation = [] \<or> amountCents \<le> 0 \<or> currency = [] then returnE ()
      else emit (EffPaymentAmount operation amountCents currency))"

definition notifyAdminPaid :: "pay_env \<Rightarrow> uint \<Rightarrow> bool \<Rightarrow> (world, unit) op" where
  "notifyAdminPaid env orderID isRenewal =
     (if pe_admin env then emit (EffAdminPaid orderID isRenewal) else returnE ())"

definition notifyAdminChargeback :: "pay_env \<Rightarrow> uint \<Rightarrow> bool \<Rightarrow> (world, unit) op" where
  "notifyAdminChargeback env orderID downgraded =
     (if pe_admin env then emit (EffAdminChargeback orderID downgraded) else returnE ())"

definition order_missing :: "error \<Rightarrow> bool" where
  "order_missing e \<longleftrightarrow> errors_is e ErrOrderNotFound \<or> errors_is e ErrRecordNotFound"

definition product_missing :: "error \<Rightarrow> bool" where
  "product_missing e \<longleftrightarrow> errors_is e ErrProductNotFound \<or> errors_is e ErrRecordNotFound"

section \<open>Requesting a payment\<close>

record payment_info =
  pi_url :: string
  pi_provider :: string
  pi_payment_id :: uuid
  pi_expires_at :: time

text \<open>What \<open>RequestPayment\<close> returns: the link or an error, and the order as far as it is known.\<close>

type_synonym request_result = "(error + payment_info) \<times> order option"

text \<open>A stage of the function: it returns from the function (\<open>Inl\<close>), or hands on a value.\<close>

definition or_return ::
  "(world, request_result + 'a) op \<Rightarrow> ('a \<Rightarrow> (world, request_result) op) \<Rightarrow> (world, request_result) op" where
  "or_return m k = bindE m (\<lambda>r. case r of Inl res \<Rightarrow> returnE res | Inr x \<Rightarrow> k x)"

definition refuse :: "error \<Rightarrow> order option \<Rightarrow> (world, request_result + 'a) op" where
  "refuse e o' = returnE (Inl (Inl e, o'))"

definition order_id :: "order option \<Rightarrow> uint" where
  "order_id o' = (case o' of None \<Rightarrow> 0 | Some r \<Rightarrow> o_id r)"

text \<open>\<open>notifyRequestIssue\<close>, then the return.\<close>

definition refuse_issue :: "string \<Rightarrow> error \<Rightarrow> order option \<Rightarrow> (world, request_result + 'a) op" where
  "refuse_issue event e o' = bindE (NotifyPaymentIssue event (order_id o')) (\<lambda>_. refuse e o')"

definition purchasable :: "product \<Rightarrow> bool" where
  "purchasable p \<longleftrightarrow> pr_is_active p \<and> 0 < pr_price_cents p"

text \<open>The check of the product and its plan that precedes each new purchase.\<close>

definition check_offer :: "product \<Rightarrow> order option \<Rightarrow> (world, request_result + unit) op" where
  "check_offer canonical o' =
     (if \<not> purchasable canonical then refuse (errors_new ''invalid paid product request'') o'
      else tryE (GetPlanByID (pr_plan_id canonical)) (\<lambda>r.
           case r of
             Inl e \<Rightarrow> refuse_issue ''load_plan_failed'' e o'
           | Inr plan \<Rightarrow> if pl_is_active plan then returnE (Inr ())
                         else refuse (errors_new ''product plan is inactive'') o'))"

definition payment_subscription ::
  "pay_env \<Rightarrow> time \<Rightarrow> int \<Rightarrow> string \<Rightarrow> product \<Rightarrow> (world, request_result + subscription) op" where
  "payment_subscription env now telegramID username canonical =
     tryE (GetByTelegramID telegramID) (\<lambda>found.
     case found of
       Inr sub \<Rightarrow> returnE (Inr sub)
     | Inl e \<Rightarrow>
         if \<not> sub_missing e then refuse_issue ''load_subscription_failed'' e None
         else bindE (check_offer canonical None) (\<lambda>checked.
              case checked of
                Inl res \<Rightarrow> returnE (Inl res)
              | Inr _ \<Rightarrow>
                  (case pe_sub env of
                     None \<Rightarrow> refuse_issue ''subscription_service_not_ready''
                               (errors_new ''subscription service is not configured'') None
                   | Some svc \<Rightarrow>
                       tryE (GetOrCreateSubscription svc now telegramID username []) (\<lambda>created.
                       case created of
                         Inl e' \<Rightarrow> refuse_issue ''create_subscription_failed'' e' None
                       | Inr sub \<Rightarrow> returnE (Inr sub)))))"

definition logAuditOrderCreated :: "order \<Rightarrow> (world, unit) op" where
  "logAuditOrderCreated r = best_effort (InsertAuditLog (AuditOrderCreated r))"

definition create_intent :: "time \<Rightarrow> subscription \<Rightarrow> product \<Rightarrow> (world, request_result + order) op" where
  "create_intent now sub canonical =
     bindE (check_offer canonical None) (\<lambda>checked.
     case checked of
       Inl res \<Rightarrow> returnE (Inl res)
     | Inr _ \<Rightarrow>
         tryE (FindOrCreatePendingPaymentOrder (s_id sub) (pr_id canonical) (pr_price_cents canonical)
                 (pr_currency canonical) now) (\<lambda>made.
         case made of
           Inl e \<Rightarrow> refuse_issue ''create_pending_order_failed'' e None
         | Inr r \<Rightarrow> bindE (logAuditOrderCreated r) (\<lambda>_. returnE (Inr r))))"

definition payment_intent :: "time \<Rightarrow> subscription \<Rightarrow> product \<Rightarrow> (world, request_result + order) op" where
  "payment_intent now sub canonical =
     tryE (FindPendingPaymentOrder (s_id sub) (pr_id canonical) now) (\<lambda>found.
     case found of
       Inl e \<Rightarrow> refuse_issue ''find_pending_order_failed'' e None
     | Inr None \<Rightarrow> create_intent now sub canonical
     | Inr (Some r) \<Rightarrow>
         if o_status r = OrderStatusExpired then create_intent now sub canonical
         else if o_status r \<noteq> OrderStatusPending then refuse [ErrPaymentAlreadyInProgress] (Some r)
         else returnE (Inr r))"

definition usable_link :: "time \<Rightarrow> order \<Rightarrow> bool" where
  "usable_link now r \<longleftrightarrow> trim_space (o_provider_payment_id r) \<noteq> [] \<and> o_payment_url r \<noteq> []
     \<and> (case o_payment_expires_at r of None \<Rightarrow> False | Some t \<Rightarrow> now < t)"

definition stored_link :: "pay_env \<Rightarrow> order \<Rightarrow> error + payment_info" where
  "stored_link env r =
     (case ParseTransactionID (pe_uuid env) (o_provider_payment_id r) of
        Inl e \<Rightarrow> Inl e
      | Inr ppid \<Rightarrow> Inr \<lparr>pi_url = o_payment_url r, pi_provider = PlategaProvider, pi_payment_id = ppid,
                         pi_expires_at = the (o_payment_expires_at r)\<rparr>)"

text \<open>The claim was lost to a concurrent request: answer from the row as it is now.\<close>

definition lost_claim :: "pay_env \<Rightarrow> time \<Rightarrow> order \<Rightarrow> (world, request_result) op" where
  "lost_claim env now r =
     tryE (GetOrderByID (o_id r)) (\<lambda>reloaded.
     case reloaded of
       Inl e \<Rightarrow> bindE (NotifyPaymentIssue ''reload_pending_order_failed'' (o_id r)) (\<lambda>_. returnE (Inl e, Some r))
     | Inr latest \<Rightarrow>
         if o_payment_creation_uncertain latest then returnE (Inl [ErrPaymentAlreadyInProgress], Some latest)
         else if usable_link now latest then returnE (stored_link env latest, Some latest)
         else returnE (Inl [ErrPaymentAlreadyInProgress], Some latest))"

text \<open>\<open>strings.TrimPrefix(o.botUsername, "@")\<close>\<close>

definition bot_link :: "pay_env \<Rightarrow> string" where
  "bot_link env =
     ''https://t.me/'' @ (case pe_bot_username env of
        [] \<Rightarrow> [] | c # cs \<Rightarrow> if c = CHR ''@'' then cs else c # cs)"

definition create_request_of :: "pay_env \<Rightarrow> int \<Rightarrow> string \<Rightarrow> product \<Rightarrow> order \<Rightarrow> create_request" where
  "create_request_of env telegramID username canonical r =
     \<lparr>cq_amount = pr_price_cents canonical, cq_currency = pr_currency canonical,
      cq_description = pr_name canonical, cq_return_url = bot_link env, cq_failed_url = bot_link env,
      cq_payload = utoa (o_id r), cq_user_id = itoa telegramID, cq_user_name = username\<rparr>"

text \<open>An error of the provider: only a definite rejection releases the claim.\<close>

definition provider_failed :: "error \<Rightarrow> order \<Rightarrow> (world, request_result) op" where
  "provider_failed e r =
     (if errors_is e ErrBadRequest \<or> errors_is e ErrAuth
      then bindE (NotifyPaymentIssue ''provider_create_rejected'' (o_id r)) (\<lambda>_.
           tryE (MarkPaymentCreationUncertain (o_id r) False) (\<lambda>cleared.
           case cleared of
             Inl e' \<Rightarrow> bindE (NotifyPaymentIssue ''clear_payment_uncertainty_failed'' (o_id r))
                         (\<lambda>_. returnE (Inl e', Some r))
           | Inr _ \<Rightarrow> returnE (Inl e, Some r)))
      else bindE (NotifyPaymentIssue ''provider_create_uncertain'' (o_id r)) (\<lambda>_. returnE (Inl e, Some r)))"

definition payment_url :: "create_response \<Rightarrow> string" where
  "payment_url resp =
     (let url = trim_space (cs_url resp) in if url = [] then trim_space (cs_redirect resp) else url)"

text \<open>The details of an accepted transaction, up to the row.\<close>

definition save_link :: "uuid \<Rightarrow> string \<Rightarrow> time \<Rightarrow> order \<Rightarrow> (world, request_result) op" where
  "save_link ppid url expiresAt r =
     tryE (SavePaymentDetails (o_id r) ppid url expiresAt) (\<lambda>saved.
     case saved of
       Inl e \<Rightarrow> bindE (NotifyPaymentIssue ''payment_details_save_failed'' (o_id r)) (\<lambda>_. returnE (Inl e, Some r))
     | Inr _ \<Rightarrow>
         returnE (Inr \<lparr>pi_url = url, pi_provider = PlategaProvider, pi_payment_id = ppid,
                       pi_expires_at = expiresAt\<rparr>,
                  Some (set_payment_details ppid url expiresAt r)))"

definition record_details :: "pay_env \<Rightarrow> time \<Rightarrow> create_response \<Rightarrow> order \<Rightarrow> (world, request_result) op" where
  "record_details env later resp r =
     (case ParseTransactionID (pe_uuid env) (cs_transaction_id resp) of
        Inl e \<Rightarrow> bindE (NotifyPaymentIssue ''provider_invalid_transaction_id'' (o_id r))
                   (\<lambda>_. returnE (Inl (ErrProvider # e), Some r))
      | Inr ppid \<Rightarrow>
          let url = payment_url resp in
          if url = [] then bindE (NotifyPaymentIssue ''provider_incomplete_response'' (o_id r))
                             (\<lambda>_. returnE (Inl [ErrProvider], Some r))
          else (case ParseExpiresIn (cs_expires_in resp) of
                  Inl e \<Rightarrow> bindE (NotifyPaymentIssue ''provider_incomplete_response'' (o_id r))
                             (\<lambda>_. returnE (Inl e, Some r))
                | Inr expiresIn \<Rightarrow> save_link ppid url (later + expiresIn) r))"

definition create_link ::
  "pay_env \<Rightarrow> time \<Rightarrow> int \<Rightarrow> string \<Rightarrow> product \<Rightarrow> order \<Rightarrow> (world, request_result) op" where
  "create_link env later telegramID username canonical r =
     tryE (createE env (o_id r) (create_request_of env telegramID username canonical r)) (\<lambda>answer.
     case answer of
       Inl e \<Rightarrow> provider_failed e r
     | Inr None \<Rightarrow> bindE (NotifyPaymentIssue ''provider_empty_response'' (o_id r))
                     (\<lambda>_. returnE (Inl [ErrProvider], Some r))
     | Inr (Some resp) \<Rightarrow> record_details env later resp r)"

definition claim_link ::
  "pay_env \<Rightarrow> time \<Rightarrow> time \<Rightarrow> int \<Rightarrow> string \<Rightarrow> product \<Rightarrow> order \<Rightarrow> (world, request_result) op" where
  "claim_link env now later telegramID username canonical r =
     tryE (MarkPaymentCreationUncertain (o_id r) True) (\<lambda>claimed.
     case claimed of
       Inl e \<Rightarrow> bindE (NotifyPaymentIssue ''claim_payment_creation_failed'' (o_id r))
                  (\<lambda>_. returnE (Inl e, Some r))
     | Inr ok \<Rightarrow> if ok then create_link env later telegramID username canonical r
                 else lost_claim env now r)"

definition payment_link ::
  "pay_env \<Rightarrow> time \<Rightarrow> time \<Rightarrow> int \<Rightarrow> string \<Rightarrow> product \<Rightarrow> order \<Rightarrow> (world, request_result) op" where
  "payment_link env now later telegramID username canonical r =
     (if o_payment_creation_uncertain r
      then bindE (NotifyPaymentIssue ''payment_creation_uncertain'' (o_id r))
             (\<lambda>_. returnE (Inl [ErrPaymentCreationUncertain], Some r))
      else if usable_link now r
      then (case stored_link env r of
              Inl e \<Rightarrow> bindE (NotifyPaymentIssue ''stored_provider_id_invalid'' (o_id r))
                         (\<lambda>_. returnE (Inl e, Some r))
            | Inr info \<Rightarrow> returnE (Inr info, Some r))
      else if trim_space (o_provider_payment_id r) \<noteq> []
      then returnE (Inl [ErrPaymentAlreadyInProgress], Some r)
      else or_return (check_offer canonical (Some r)) (\<lambda>_.
           claim_link env now later telegramID username canonical r))"

text \<open>\<open>now\<close> is the clock at the start, \<open>later\<close> when the provider's answer is dated.\<close>

definition requestPayment ::
  "pay_env \<Rightarrow> time \<Rightarrow> time \<Rightarrow> int \<Rightarrow> string \<Rightarrow> product option \<Rightarrow> (world, request_result) op" where
  "requestPayment env now later telegramID username product =
     (if \<not> pe_enabled env then returnE (Inl [ErrPaymentDisabled], None)
      else case product of
        None \<Rightarrow> returnE (Inl (errors_new ''invalid paid product request''), None)
      | Some p \<Rightarrow>
          if telegramID \<le> 0 \<or> pr_id p = 0
          then returnE (Inl (errors_new ''invalid paid product request''), None)
          else
          tryE (GetProductByID (pr_id p)) (\<lambda>loaded.
          case loaded of
            Inl e \<Rightarrow> bindE (NotifyPaymentIssue ''load_product_failed'' 0) (\<lambda>_. returnE (Inl e, None))
          | Inr canonical \<Rightarrow>
              or_return (payment_subscription env now telegramID username canonical) (\<lambda>sub.
              or_return (payment_intent now sub canonical) (\<lambda>r.
              payment_link env now later telegramID username canonical r))))"

text \<open>\<open>RequestPayment\<close> wraps it with metrics.\<close>

definition RequestPayment ::
  "pay_env \<Rightarrow> time \<Rightarrow> time \<Rightarrow> int \<Rightarrow> string \<Rightarrow> product option \<Rightarrow> (world, request_result) op" where
  "RequestPayment = requestPayment"

section \<open>Confirming a payment\<close>

record confirmation =
  pc_order :: "order option"
  pc_activated :: bool
  pc_renewal :: bool

definition acknowledged :: "order option \<Rightarrow> confirmation" where
  "acknowledged o' = \<lparr>pc_order = o', pc_activated = False, pc_renewal = False\<rparr>"

text \<open>The provider's payload is the id of the order; it is taken only while no transaction is recorded.\<close>

definition orderByCallbackPayload :: "string \<Rightarrow> uuid \<Rightarrow> (world, order) op" where
  "orderByCallbackPayload payload ppid =
     (let raw = trim_space payload in
      if raw = [] then failE [ErrOrderNotFound]
      else (case parse_uint64 raw of
              None \<Rightarrow> failE [ErrOrderNotFound]
            | Some orderID \<Rightarrow>
                bindE (GetOrderByID orderID) (\<lambda>r.
                if trim_space (o_provider_payment_id r) \<noteq> [] then failE [ErrOrderNotFound]
                else bindE (AttachProviderPaymentID (o_id r) PlategaProvider ppid) (\<lambda>attached.
                     if \<not> attached then failE [ErrOrderNotFound]
                     else returnE (set_provider_payment PlategaProvider ppid r)))))"

definition callback_order :: "string \<Rightarrow> uuid \<Rightarrow> (world, order) op" where
  "callback_order payload ppid =
     tryE (GetOrderByProviderPaymentID PlategaProvider ppid) (\<lambda>found.
     case found of
       Inr r \<Rightarrow> returnE r
     | Inl e \<Rightarrow> if order_missing e then orderByCallbackPayload payload ppid else failE e)"

definition settlement_grace :: duration where "settlement_grace = 5 * minute"

definition within_grace :: "time \<Rightarrow> order \<Rightarrow> bool" where
  "within_grace now r \<longleftrightarrow> o_status r = OrderStatusExpired
     \<and> (case o_payment_expires_at r of None \<Rightarrow> False | Some t \<Rightarrow> now \<le> t + settlement_grace)"

definition mirrorOrderFromSubscriptionAfterCAS :: "order \<Rightarrow> subscription \<Rightarrow> time \<Rightarrow> order" where
  "mirrorOrderFromSubscriptionAfterCAS r sub now =
     (let r1 = (case s_expires_at sub of None \<Rightarrow> r | Some t \<Rightarrow> r\<lparr>o_expires_at := Some t\<rparr>) in
      r1\<lparr>o_status := OrderStatusPaid, o_paid_at := Some now, o_activated_at := Some now\<rparr>)"

text \<open>What follows a committed activation, outside the per-payment lock.\<close>

definition after_activation ::
  "pay_env \<Rightarrow> node_env \<Rightarrow> time \<Rightarrow> uint \<Rightarrow> subscription \<Rightarrow> bool \<Rightarrow> (world, unit) op" where
  "after_activation env panels now orderID sub isRenewal =
     bindE (case pe_sub env of None \<Rightarrow> returnE () | Some svc \<Rightarrow> invalidate_sub svc sub) (\<lambda>_.
     bindE (notifyAdminPaid env orderID isRenewal) (\<lambda>_.
     best_effort (SyncSubscription panels now (s_id sub))))"

definition commit_payment ::
  "pay_env \<Rightarrow> node_env \<Rightarrow> time \<Rightarrow> cents \<Rightarrow> order \<Rightarrow> product \<Rightarrow> subscription \<Rightarrow> (world, confirmation) op" where
  "commit_payment env panels now amount r product sub =
     (let isRenewal = (0 < s_price_paid_cents sub \<or> s_product_id sub \<noteq> None) in
      tryE (ConfirmOrderPaidCAS (o_id r) now now sub product (Some ApplyPlanToSubscriptionInTx) amount) (\<lambda>done.
      case done of
        Inl e \<Rightarrow> bindE (NotifyPaymentIssue ''confirm_payment_failed'' (o_id r)) (\<lambda>_. failE e)
      | Inr (activated, sub') \<Rightarrow>
          if \<not> activated
          then returnE \<lparr>pc_order = Some r, pc_activated = False, pc_renewal = isRenewal\<rparr>
          else bindE (after_activation env panels now (o_id r) sub' isRenewal) (\<lambda>_.
               returnE \<lparr>pc_order = Some (mirrorOrderFromSubscriptionAfterCAS r sub' now),
                        pc_activated = True, pc_renewal = isRenewal\<rparr>)))"

definition activate_payment ::
  "pay_env \<Rightarrow> node_env \<Rightarrow> time \<Rightarrow> cents \<Rightarrow> order \<Rightarrow> (world, confirmation) op" where
  "activate_payment env panels now amount r =
     tryE (GetProductByID (o_product_id r)) (\<lambda>loaded.
     case loaded of
       Inl e \<Rightarrow> bindE (NotifyPaymentIssue ''load_order_product_failed'' (o_id r)) (\<lambda>_.
                if product_missing e then returnE (acknowledged None) else failE e)
     | Inr product \<Rightarrow>
     tryE (GetByID (o_subscription_id r)) (\<lambda>found.
     case found of
       Inl e \<Rightarrow> bindE (NotifyPaymentIssue ''load_order_subscription_failed'' (o_id r)) (\<lambda>_.
                if sub_missing e then returnE (acknowledged None) else failE e)
     | Inr sub \<Rightarrow> commit_payment env panels now amount r product sub))"

text \<open>A confirmation that comes too late is reported and acknowledged.\<close>

definition late_confirmation :: "order \<Rightarrow> (world, confirmation) op" where
  "late_confirmation r =
     tryE (GetByID (o_subscription_id r)) (\<lambda>_.
     bindE (NotifyPaymentIssue ''late_confirmed_callback'' (o_id r)) (\<lambda>_. returnE (acknowledged (Some r))))"

definition confirm_order ::
  "pay_env \<Rightarrow> time \<Rightarrow> string \<Rightarrow> string \<Rightarrow> order \<Rightarrow> (world, confirmation) op" where
  "confirm_order env now amount currency r =
     (if o_currency r \<noteq> currency
      then bindE (NotifyPaymentIssue ''callback_currency_mismatch'' (o_id r)) (\<lambda>_. failE [ErrCurrencyMismatch])
      else (case ParseCallbackAmount amount of
        Inl e \<Rightarrow> bindE (NotifyPaymentIssue ''callback_amount_invalid'' (o_id r)) (\<lambda>_. failE e)
      | Inr paid \<Rightarrow>
          if paid < o_amount_cents r
          then bindE (NotifyPaymentIssue ''callback_amount_mismatch'' (o_id r)) (\<lambda>_. failE [ErrAmountMismatch])
          else if o_status r = OrderStatusPaid then returnE (acknowledged (Some r))
          else if (o_status r = OrderStatusExpired \<or> o_status r = OrderStatusCanceled) \<and> \<not> within_grace now r
          then late_confirmation r
          else if o_status r \<noteq> OrderStatusPending \<and> o_status r \<noteq> OrderStatusExpired
          then failE [ErrInvalidPaymentTransition]
          else (case pe_sync env of
                  None \<Rightarrow> bindE (NotifyPaymentIssue ''payment_sync_not_ready'' (o_id r)) (\<lambda>_. failE [ErrPaymentSyncNotReady])
                | Some panels \<Rightarrow> activate_payment env panels now paid r)))"

definition confirmPayment ::
  "pay_env \<Rightarrow> time \<Rightarrow> uuid \<Rightarrow> string \<Rightarrow> string \<Rightarrow> string \<Rightarrow> (world, confirmation) op" where
  "confirmPayment env now ppid payload amount currency =
     (if \<not> pe_enabled env then failE [ErrPaymentDisabled]
      else with_payment_lock env ppid
       (if ppid = uuid_nil
        then bindE (NotifyPaymentIssue ''invalid_provider_id'' 0) (\<lambda>_. failE (errors_new ''invalid provider payment UUID''))
        else
        tryE (callback_order payload ppid) (\<lambda>found.
        case found of
          Inl e \<Rightarrow>
            if order_missing e
            then bindE (NotifyPaymentIssue ''unknown_provider_id'' 0) (\<lambda>_. returnE (acknowledged None))
            else bindE (NotifyPaymentIssue ''load_order_failed'' 0) (\<lambda>_. failE e)
        | Inr r \<Rightarrow> confirm_order env now amount currency r)))"

definition ConfirmPayment ::
  "pay_env \<Rightarrow> time \<Rightarrow> uuid \<Rightarrow> string \<Rightarrow> string \<Rightarrow> string \<Rightarrow> (world, confirmation) op" where
  "ConfirmPayment env now ppid payload amount currency =
     bindE (confirmPayment env now ppid payload amount currency) (\<lambda>c.
     bindE (case pc_order c of
              None \<Rightarrow> returnE ()
            | Some r \<Rightarrow> if pc_activated c then recordPaymentAmount ''confirmed'' (o_amount_cents r) (o_currency r)
                       else returnE ()) (\<lambda>_.
     returnE c))"

section \<open>Cancellation and chargeback\<close>

definition loadChargebackAlertContext :: "order \<Rightarrow> (world, subscription option \<times> product option) op" where
  "loadChargebackAlertContext r =
     tryE (GetByID (o_subscription_id r)) (\<lambda>s.
     let sub = (case s of Inr x \<Rightarrow> Some x | Inl _ \<Rightarrow> None) in
     if o_product_id r \<noteq> 0
     then tryE (GetProductByID (o_product_id r)) (\<lambda>p.
          returnE (sub, case p of Inr x \<Rightarrow> Some x | Inl _ \<Rightarrow> None))
     else returnE (sub, None))"

definition syncChargebackAfterCommit :: "pay_env \<Rightarrow> time \<Rightarrow> uint \<Rightarrow> (world, unit) op" where
  "syncChargebackAfterCommit env now subscriptionID =
     (case pe_sync env of None \<Rightarrow> returnE ()
      | Some panels \<Rightarrow> best_effort (SyncSubscription panels now subscriptionID))"

text \<open>What follows a committed chargeback.\<close>

definition after_chargeback :: "pay_env \<Rightarrow> time \<Rightarrow> chargeback_result \<Rightarrow> (world, unit) op" where
  "after_chargeback env now res =
     (let r = cb_order res in
      bindE (if cb_was_paid res
             then bindE (recordPaymentAmount ''chargeback'' (o_amount_cents r) (o_currency r)) (\<lambda>_.
                  bindE (loadChargebackAlertContext r) (\<lambda>_. returnE ()))
             else returnE ()) (\<lambda>_.
      bindE (if cb_was_paid res then notifyAdminChargeback env (o_id r) (cb_downgraded res) else returnE ()) (\<lambda>_.
      if cb_downgraded res then syncChargebackAfterCommit env now (o_subscription_id r) else returnE ())))"

text \<open>The order and whether it had been paid; \<open>None\<close> when the callback changed nothing.\<close>

definition chargeback_order :: "pay_env \<Rightarrow> time \<Rightarrow> uuid \<Rightarrow> order \<Rightarrow> (world, (order \<times> bool) option) op" where
  "chargeback_order env now ppid r =
     (if pe_sync env = None
      then bindE (NotifyPaymentIssue ''cancel_payment_failed'' (o_id r)) (\<lambda>_. failE [ErrChargebackAtomicPathNotReady])
      else
      tryE (GetPlanByName FreePlanName) (\<lambda>free.
      case free of
        Inl e \<Rightarrow> bindE (NotifyPaymentIssue ''cancel_payment_failed'' (o_id r)) (\<lambda>_. failE e)
      | Inr freePlan \<Rightarrow>
      tryE (CancelPaidOrderAndDowngradeCAS PlategaProvider ppid now (pl_id freePlan)
              (Some ApplyPlanToSubscriptionInTx)) (\<lambda>done.
      case done of
        Inl e \<Rightarrow> bindE (NotifyPaymentIssue ''cancel_payment_failed'' (o_id r)) (\<lambda>_. failE e)
      | Inr None \<Rightarrow> returnE None
      | Inr (Some res) \<Rightarrow>
          if \<not> cb_transitioned res then returnE None
          else bindE (after_chargeback env now res) (\<lambda>_. returnE (Some (cb_order res, cb_was_paid res))))))"

definition cancel_order :: "uuid \<Rightarrow> order \<Rightarrow> (world, (order \<times> bool) option) op" where
  "cancel_order ppid r =
     tryE (CancelOrderCAS PlategaProvider ppid [OrderStatusPending]) (\<lambda>done.
     case done of
       Inl e \<Rightarrow> bindE (NotifyPaymentIssue ''cancel_payment_failed'' (o_id r)) (\<lambda>_. failE e)
     | Inr transitioned \<Rightarrow>
         returnE (if transitioned then Some (r\<lparr>o_status := OrderStatusCanceled\<rparr>, False) else None))"

definition check_cancellation ::
  "pay_env \<Rightarrow> time \<Rightarrow> uuid \<Rightarrow> string \<Rightarrow> string \<Rightarrow> string \<Rightarrow> order \<Rightarrow> (world, (order \<times> bool) option) op" where
  "check_cancellation env now ppid status amount currency r =
     (if o_currency r \<noteq> currency
      then bindE (NotifyPaymentIssue ''callback_currency_mismatch'' (o_id r)) (\<lambda>_. failE [ErrCurrencyMismatch])
      else (case ParseCallbackAmount amount of
        Inl e \<Rightarrow> bindE (NotifyPaymentIssue ''callback_amount_invalid'' (o_id r)) (\<lambda>_. failE e)
      | Inr paid \<Rightarrow>
          if paid < o_amount_cents r
          then bindE (NotifyPaymentIssue ''callback_amount_mismatch'' (o_id r)) (\<lambda>_. failE [ErrAmountMismatch])
          else if status \<noteq> ''CANCELED'' \<and> status \<noteq> ''CHARGEBACKED''
          then bindE (NotifyPaymentIssue ''invalid_payment_status'' (o_id r)) (\<lambda>_. failE [ErrInvalidPaymentTransition])
          else if status = ''CHARGEBACKED'' then chargeback_order env now ppid r
          else cancel_order ppid r))"

definition CancelPaymentByProvider ::
  "pay_env \<Rightarrow> time \<Rightarrow> uuid \<Rightarrow> string \<Rightarrow> string \<Rightarrow> string \<Rightarrow> (world, (order \<times> bool) option) op" where
  "CancelPaymentByProvider env now ppid status amount currency =
     (if \<not> pe_enabled env then failE [ErrPaymentDisabled]
      else if ppid = uuid_nil
      then bindE (NotifyPaymentIssue ''invalid_provider_id'' 0) (\<lambda>_. failE (errors_new ''invalid provider payment UUID''))
      else with_payment_lock env ppid
       (tryE (GetOrderByProviderPaymentID PlategaProvider ppid) (\<lambda>found.
        case found of
          Inl e \<Rightarrow>
            if order_missing e
            then bindE (NotifyPaymentIssue ''unknown_provider_id'' 0) (\<lambda>_. returnE None)
            else bindE (NotifyPaymentIssue ''load_order_failed'' 0) (\<lambda>_. failE e)
        | Inr r \<Rightarrow> check_cancellation env now ppid status amount currency r)))"

section \<open>Background passes\<close>

definition join_errors :: "error list \<Rightarrow> error + unit" where
  "join_errors es = (if es = [] then Inr () else Inl (concat es))"

definition persistProviderFee :: "pay_env \<Rightarrow> uint \<Rightarrow> uuid \<Rightarrow> cents \<Rightarrow> (world, unit) op" where
  "persistProviderFee env orderID ppid amount =
     tryE (statusE env ppid) (\<lambda>answer.
     case answer of
       Inl e \<Rightarrow> if errors_is e ErrTransactionNotFound then SaveOrderPaymentAmounts orderID amount (Some 0)
                else failE e
     | Inr None \<Rightarrow> failE (errors_new ''fetch provider fee: empty transaction status'')
     | Inr (Some status) \<Rightarrow>
         if ts_status status \<noteq> ''CONFIRMED'' then returnE ()
         else (case CommissionCents (ts_commission status) of
                 Inl e \<Rightarrow> failE e
               | Inr fee \<Rightarrow> SaveOrderPaymentAmounts orderID amount (Some fee)))"

text \<open>One order of the fee pass: the error it adds.\<close>

definition fee_order :: "pay_env \<Rightarrow> order \<Rightarrow> (world, error list) op" where
  "fee_order env r =
     (case ParseTransactionID (pe_uuid env) (o_provider_payment_id r) of
        Inl e \<Rightarrow> returnE [e]
      | Inr ppid \<Rightarrow>
          tryE (persistProviderFee env (o_id r) ppid
                  (case o_callback_amount_cents r of None \<Rightarrow> o_amount_cents r | Some a \<Rightarrow> a)) (\<lambda>res.
          returnE (case res of Inl e \<Rightarrow> [e] | Inr _ \<Rightarrow> [])))"

fun fee_page :: "pay_env \<Rightarrow> error list \<Rightarrow> order list \<Rightarrow> (world, error list) op" where
  "fee_page env errs [] = returnE errs"
| "fee_page env errs (r # rs) =
     bindE (budgetE env) (\<lambda>b.
     case b of Some e \<Rightarrow> failE e
     | None \<Rightarrow> bindE (fee_order env r) (\<lambda>es. fee_page env (errs @ es) rs))"

text \<open>The loop over the pages; \<open>None\<close> would be a loop that does not end.\<close>

partial_function (option) fee_pages ::
  "pay_env \<Rightarrow> nat \<Rightarrow> uint \<Rightarrow> error list \<Rightarrow> world \<Rightarrow> ((error + unit) \<times> world) option" where
  "fee_pages env pageSize afterID errs w =
     (case GetPaidOrdersWithoutProviderFeeAfterID afterID pageSize w of
        (Inl e, w1) \<Rightarrow> Some (Inl e, w1)
      | (Inr page, w1) \<Rightarrow>
          if page = [] then Some (join_errors errs, w1)
          else (case fee_page env errs page w1 of
                  (Inl e, w2) \<Rightarrow> Some (Inl e, w2)
                | (Inr errs', w2) \<Rightarrow> fee_pages env pageSize (o_id (last page)) errs' w2))"

definition page_size :: "int \<Rightarrow> nat" where
  "page_size limit = (if limit \<le> 0 then 50 else nat limit)"

definition SyncProviderFees :: "pay_env \<Rightarrow> int \<Rightarrow> world \<Rightarrow> ((error + unit) \<times> world) option" where
  "SyncProviderFees env limit w =
     (if \<not> pe_enabled env then Some (Inr (), w) else fee_pages env (page_size limit) 0 [] w)"

definition pendingOrderGrace :: duration where "pendingOrderGrace = 10 * minute"

definition expireReconciledOrder :: "order \<Rightarrow> (world, unit) op" where
  "expireReconciledOrder r =
     bindE (ExpirePendingOrder (o_id r)) (\<lambda>expired.
     if \<not> expired then returnE () else best_effort (InsertAuditLog (AuditOrderExpired r)))"

definition reconcilePendingOrder :: "pay_env \<Rightarrow> time \<Rightarrow> order \<Rightarrow> (world, unit) op" where
  "reconcilePendingOrder env now r =
     (case ParseTransactionID (pe_uuid env) (o_provider_payment_id r) of
        Inl _ \<Rightarrow> returnE ()
      | Inr ppid \<Rightarrow>
          tryE (statusE env ppid) (\<lambda>answer.
          case answer of
            Inl e \<Rightarrow> if errors_is e ErrTransactionNotFound then expireReconciledOrder r else failE e
          | Inr None \<Rightarrow> failE (errors_new ''fetch transaction status: empty response'')
          | Inr (Some status) \<Rightarrow>
              let st = to_upper (trim_space (ts_status status)) in
              if st = ''CONFIRMED''
              then bindE (ConfirmPayment env now ppid (utoa (o_id r)) (ts_amount status) (ts_currency status))
                     (\<lambda>_. returnE ())
              else if st \<in> set [''CANCELED'', ''CANCELLED'', ''EXPIRED'', ''FAILED''] then expireReconciledOrder r
              else returnE ()))"

text \<open>One page: the errors so far, or the joined error when the budget of the pass is used up.\<close>

fun reconcile_page :: "pay_env \<Rightarrow> time \<Rightarrow> error list \<Rightarrow> order list \<Rightarrow> (world, error list) op" where
  "reconcile_page env now errs [] = returnE errs"
| "reconcile_page env now errs (r # rs) =
     bindE (budgetE env) (\<lambda>b.
     case b of Some e \<Rightarrow> failE (concat (errs @ [e]))
     | None \<Rightarrow>
         tryE (reconcilePendingOrder env now r) (\<lambda>res.
         reconcile_page env now (case res of Inl e \<Rightarrow> errs @ [e] | Inr _ \<Rightarrow> errs) rs))"

partial_function (option) reconcile_pages ::
  "pay_env \<Rightarrow> time \<Rightarrow> nat \<Rightarrow> uint \<Rightarrow> error list \<Rightarrow> world \<Rightarrow> ((error + unit) \<times> world) option" where
  "reconcile_pages env now pageSize afterID errs w =
     (case GetStalePendingOrdersAfterID (now - pendingOrderGrace) afterID pageSize w of
        (Inl e, w1) \<Rightarrow> Some (Inl e, w1)
      | (Inr page, w1) \<Rightarrow>
          if page = [] then Some (join_errors errs, w1)
          else (case reconcile_page env now errs page w1 of
                  (Inl e, w2) \<Rightarrow> Some (Inl e, w2)
                | (Inr errs', w2) \<Rightarrow>
                    if o_id (last page) \<le> afterID
                    then Some (Inl (concat errs' @ errors_new ''pending order page did not advance''), w2)
                    else reconcile_pages env now pageSize (o_id (last page)) errs' w2))"

definition ReconcilePendingOrders :: "pay_env \<Rightarrow> time \<Rightarrow> int \<Rightarrow> world \<Rightarrow> ((error + unit) \<times> world) option" where
  "ReconcilePendingOrders env now limit w =
     (if \<not> pe_enabled env then Some (Inr (), w)
      else reconcile_pages env now (page_size limit) 0 [] w)"

end
