(* ===== verification/Order_Service_Laws.thy ===== *)
theory Order_Service_Laws
  imports Order_Service Order_Laws
begin

text \<open>
  What the payment flow guarantees.
\<close>

section \<open>Every contract of the store is respected\<close>

context db_contract
begin

lemma pay_env_keeps:
  "keeps (on_db R) (createE env i q)" "keeps (on_db R) (statusE env p)"
  "keeps (on_db R) (budgetE env)"
  by (intro frame_keeps; simp add: createE_def statusE_def budgetE_def)+

lemma pay_effects_keep:
  "keeps (on_db R) (NotifyPaymentIssue c i)" "keeps (on_db R) (recordPaymentAmount c a c')"
  "keeps (on_db R) (notifyAdminPaid env i b)" "keeps (on_db R) (notifyAdminChargeback env i b)"
  "keeps (on_db R) (refuse e r)" "keeps (on_db R) (refuse_issue c e r)"
  unfolding NotifyPaymentIssue_def recordPaymentAmount_def notifyAdminPaid_def notifyAdminChargeback_def
    refuse_issue_def refuse_def Let_def
  by (intro db_combinators)+

lemma payment_lock_keeps: "keeps (on_db R) m \<Longrightarrow> keeps (on_db R) (with_payment_lock env p m)"
  unfolding keeps_def with_payment_lock_def by (auto simp: on_db_def db_refl split: option.splits)

lemma or_return_keeps:
  "keeps (on_db R) m \<Longrightarrow> (\<And>x. keeps (on_db R) (k x)) \<Longrightarrow> keeps (on_db R) (or_return m k)"
  unfolding or_return_def by (intro db_combinators)

lemma check_offer_keeps: "keeps (on_db R) (check_offer p r)"
  unfolding check_offer_def by (intro db_combinators reads_keep pay_effects_keep)

end

context store_updates
begin

lemmas pay_steps = service_steps ord.lookups_keep upd.operations ord.pay_env_keeps ord.pay_effects_keep
  ord.payment_lock_keeps ord.or_return_keeps ord.check_offer_keeps

lemma pay_load: "keeps (on_db R) (GetProductByID i)" "keeps (on_db R) (GetByID i)"
  by (intro pay_steps)+

lemma apply_in_tx: "Some ApplyPlanToSubscriptionInTx = Some g \<Longrightarrow> keeps (on_db R) (g i j)"
  by (auto simp: tx_apply_keeps)

lemma confirm_keeps:
  "keeps (on_db R) (callback_order c p)" "keeps (on_db R) (activate_payment env panels now a r)"
  "keeps (on_db R) (confirm_order env now c c' r)" "keeps (on_db R) (ConfirmPayment env now p c'' c c')"
proof -
  show 1: "keeps (on_db R) (callback_order c p)" for c
    unfolding callback_order_def orderByCallbackPayload_def Let_def by (intro pay_steps)
  have cas: "keeps (on_db R) (ConfirmOrderPaidCAS i now now s q (Some ApplyPlanToSubscriptionInTx) a)" for i s q a
    by (rule upd.ConfirmOrderPaidCAS_keeps) (rule apply_in_tx)
  show 2: "keeps (on_db R) (activate_payment env panels now a r)" for panels a r
    unfolding activate_payment_def commit_payment_def after_activation_def Let_def by (intro pay_steps cas)
  have 3: "keeps (on_db R) (late_confirmation r)" for r
    unfolding late_confirmation_def by (intro pay_steps)
  show 4: "keeps (on_db R) (confirm_order env now c c' r)" for c c' r
    unfolding confirm_order_def by (intro pay_steps 2 3)
  show "keeps (on_db R) (ConfirmPayment env now p c'' c c')"
    unfolding ConfirmPayment_def confirmPayment_def by (intro pay_steps 1 4)
qed

lemma cancel_keeps: "keeps (on_db R) (CancelPaymentByProvider env now p c c' c'')"
proof -
  have cas: "keeps (on_db R) (CancelPaidOrderAndDowngradeCAS q p now f (Some ApplyPlanToSubscriptionInTx))" for q f
    by (rule upd.CancelPaidOrderAndDowngradeCAS_keeps) (rule apply_in_tx)
  have "keeps (on_db R) (after_chargeback env now res)" for res
    unfolding after_chargeback_def loadChargebackAlertContext_def syncChargebackAfterCommit_def Let_def
    by (intro pay_steps)
  then show ?thesis
    unfolding CancelPaymentByProvider_def check_cancellation_def chargeback_order_def cancel_order_def
    by (intro pay_steps cas)
qed

lemma fee_order_keeps: "keeps (on_db R) (fee_order env r)"
  unfolding fee_order_def persistProviderFee_def by (intro pay_steps)

lemma fee_page_keeps: "keeps (on_db R) (fee_page env es rs)"
  by (induction rs arbitrary: es) (auto intro!: pay_steps fee_order_keeps)

lemma reconcile_order_keeps: "keeps (on_db R) (reconcilePendingOrder env now r)"
  unfolding reconcilePendingOrder_def expireReconciledOrder_def Let_def
  by (intro pay_steps confirm_keeps)

lemma reconcile_page_keeps: "keeps (on_db R) (reconcile_page env now es rs)"
proof (induction rs arbitrary: es)
  case (Cons r rs)
  show ?case
    unfolding reconcile_page.simps by (intro pay_steps reconcile_order_keeps Cons.IH)
qed (simp add: pay_steps)

lemma fee_pages_keep:
  assumes "fee_pages env n i errs w = Some z"
  shows "on_db R w (snd z)"
proof (rule fee_pages.raw_induct [where P = "\<lambda>_ _ _ _ w z. on_db R w (snd z)", OF _ assms])
  fix pages env n i errs w z
  assume ih: "\<And>env n i errs w y. pages env n i errs w = Some y \<Longrightarrow> on_db R w (snd y)"
    and body: "(case GetPaidOrdersWithoutProviderFeeAfterID i n w of
        (Inl e, w1) \<Rightarrow> Some (Inl e, w1)
      | (Inr page, w1) \<Rightarrow>
          if page = [] then Some (join_errors errs, w1)
          else (case fee_page env errs page w1 of
                  (Inl e, w2) \<Rightarrow> Some (Inl e, w2)
                | (Inr errs', w2) \<Rightarrow> pages env n (o_id (last page)) errs' w2)) = Some z"
  obtain q w1 where q: "GetPaidOrdersWithoutProviderFeeAfterID i n w = (q, w1)"
    by (cases "GetPaidOrdersWithoutProviderFeeAfterID i n w")
  have k1: "on_db R w w1"
    using keepsD [OF ord.lookups_keep(4), of w i n] q by simp
  obtain es w2 where p: "fee_page env errs (projr q) w1 = (es, w2)"
    by (cases "fee_page env errs (projr q) w1")
  have k2: "on_db R w1 w2"
    using keepsD [OF fee_page_keeps, of w1 env errs "projr q"] p by simp
  show "on_db R w (snd z)"
    using body q p k1 ih ord.world.R_trans [OF k1 k2] ord.world.R_trans [of w w2]
    by (auto split: sum.splits if_splits)
qed

lemma reconcile_pages_keep:
  assumes "reconcile_pages env now n i errs w = Some z"
  shows "on_db R w (snd z)"
proof (rule reconcile_pages.raw_induct [where P = "\<lambda>_ _ _ _ _ w z. on_db R w (snd z)", OF _ assms])
  fix pages env now n i errs w z
  assume ih: "\<And>env now n i errs w y. pages env now n i errs w = Some y \<Longrightarrow> on_db R w (snd y)"
    and body: "(case GetStalePendingOrdersAfterID (now - pendingOrderGrace) i n w of
        (Inl e, w1) \<Rightarrow> Some (Inl e, w1)
      | (Inr page, w1) \<Rightarrow>
          if page = [] then Some (join_errors errs, w1)
          else (case reconcile_page env now errs page w1 of
                  (Inl e, w2) \<Rightarrow> Some (Inl e, w2)
                | (Inr errs', w2) \<Rightarrow>
                    if o_id (last page) \<le> i
                    then Some (Inl (concat errs' @ errors_new ''pending order page did not advance''), w2)
                    else pages env now n (o_id (last page)) errs' w2)) = Some z"
  obtain q w1 where q: "GetStalePendingOrdersAfterID (now - pendingOrderGrace) i n w = (q, w1)"
    by (cases "GetStalePendingOrdersAfterID (now - pendingOrderGrace) i n w")
  have k1: "on_db R w w1"
    using keepsD [OF ord.lookups_keep(3), of w "now - pendingOrderGrace" i n] q by simp
  obtain es w2 where p: "reconcile_page env now errs (projr q) w1 = (es, w2)"
    by (cases "reconcile_page env now errs (projr q) w1")
  have k2: "on_db R w1 w2"
    using keepsD [OF reconcile_page_keeps, of w1 env now errs "projr q"] p by simp
  show "on_db R w (snd z)"
    using body q p k1 ih ord.world.R_trans [OF k1 k2] ord.world.R_trans [of w w2]
    by (auto split: sum.splits if_splits)
qed

lemma passes_keep:
  "SyncProviderFees env limit w = Some (r, w') \<Longrightarrow> on_db R w w'"
  "ReconcilePendingOrders env now limit w = Some (r, w') \<Longrightarrow> on_db R w w'"
  using fee_pages_keep [of env "page_size limit" 0 "[]" w "(r, w')"]
    reconcile_pages_keep [of env now "page_size limit" 0 "[]" w "(r, w')"]
  by (auto simp: SyncProviderFees_def ReconcilePendingOrders_def ord.world.R_refl split: if_splits)

end

context store_statements
begin

lemma link_keeps:
  "keeps (on_db R) (lost_claim env now r)" "keeps (on_db R) (provider_failed e r)"
  "keeps (on_db R) (save_link p c t r)" "keeps (on_db R) (record_details env t resp r)"
  "keeps (on_db R) (create_link env t i c q r)" "keeps (on_db R) (claim_link env now t i c q r)"
  "keeps (on_db R) (payment_link env now t i c q r)"
proof -
  show 1: "keeps (on_db R) (lost_claim env now r)"
    unfolding lost_claim_def by (intro pay_steps ins.link_operations)
  show 2: "keeps (on_db R) (provider_failed e r)" for e
    unfolding provider_failed_def by (intro pay_steps ins.link_operations)
  show "keeps (on_db R) (save_link p c t r)" for p c t
    unfolding save_link_def by (intro pay_steps ins.link_operations)
  then show 3: "keeps (on_db R) (record_details env t resp r)" for resp
    unfolding record_details_def Let_def by (intro pay_steps ins.link_operations)
  show 4: "keeps (on_db R) (create_link env t i c q r)"
    unfolding create_link_def by (intro pay_steps 2 3)
  show 5: "keeps (on_db R) (claim_link env now t i c q r)"
    unfolding claim_link_def by (intro pay_steps 1 4)
  show "keeps (on_db R) (payment_link env now t i c q r)"
    unfolding payment_link_def by (intro pay_steps 5)
qed

lemma request_keeps: "keeps (on_db R) (RequestPayment env now t i c q)"
proof -
  have "keeps (on_db R) (create_intent now s q)" for s q
    unfolding create_intent_def logAuditOrderCreated_def
    by (intro pay_steps ins.FindOrCreatePendingPaymentOrder_keeps)
  then have "keeps (on_db R) (payment_intent now s q)" for s q
    unfolding payment_intent_def by (intro pay_steps)
  moreover have "keeps (on_db R) (payment_subscription env now i c q)" for q
    unfolding payment_subscription_def by (intro pay_steps create_keeps)
  ultimately show ?thesis
    unfolding RequestPayment_def requestPayment_def by (intro pay_steps link_keeps)
qed

end

section \<open>A chargeback\<close>

text \<open>
  C4. A chargeback takes the paid plan away exactly when the order had been paid, the subscription is
  active, and no other paid order still covers it. The order recorded is the one of the provider's
  payment, now canceled; when the plan is taken away, the subscription of that order is left active on
  the free plan without end, start, product, price and currency, and no other subscription changes; when
  it is not, no subscription changes at all.
\<close>

theorem chargeback_downgrades_iff:
  fixes w :: world
  defines "d \<equiv> db (step_other w)"
  assumes run: "CancelPaidOrderAndDowngradeCAS provider ppid now freePlanID (Some ApplyPlanToSubscriptionInTx) w = (Inr (Some res), w')"
    and swap: "cb_transitioned res" and wf: "orders_wf d"
  shows "(cb_downgraded res \<longleftrightarrow> cb_was_paid res
     \<and> (\<exists>cur. find_subscription (o_subscription_id (cb_order res)) d = Inr cur
              \<and> s_status cur = SubscriptionStatusActive)
     \<and> \<not> (\<exists>x \<in> set (orders d). o_id x \<noteq> o_id (cb_order res)
              \<and> covers (o_subscription_id (cb_order res)) now x))
   \<and> (\<exists>r \<in> set (orders d). of_payment provider ppid r \<and> cb_order res = r\<lparr>o_status := OrderStatusCanceled\<rparr>
         \<and> (cb_was_paid res \<longleftrightarrow> o_status r = OrderStatusPaid))
   \<and> subscriptions (db w') = map (\<lambda>s.
         if cb_downgraded res \<and> s_id s = o_subscription_id (cb_order res)
         then s\<lparr>s_status := SubscriptionStatusActive, s_expires_at := None, s_plan_id := freePlanID, s_product_id := None,
                s_started_at := None, s_price_paid_cents := 0, s_currency := None\<rparr>
         else s) (subscriptions d)"
proof -
  have aside: "\<forall>g. Some ApplyPlanToSubscriptionInTx = Some g \<longrightarrow> (\<forall>i p v. subscriptions (db (snd (g i p v))) = subscriptions (db v))"
    using ApplyPlanInTx_subscriptions by auto
  note effect = chargeback_effect [OF run swap wf [unfolded d_def] aside, folded d_def]
  have "subscriptions (db w') = map (\<lambda>s.
         if cb_downgraded res \<and> s_id s = o_subscription_id (cb_order res)
         then s\<lparr>s_status := SubscriptionStatusActive, s_expires_at := None, s_plan_id := freePlanID, s_product_id := None,
                s_started_at := None, s_price_paid_cents := 0, s_currency := None\<rparr>
         else s) (subscriptions d)"
    unfolding effect(3) by (simp add: update_where_def reset_to_free_def)
  then show ?thesis
    using effect(1,2) by blast
qed

end
