(* ===== verification/Confirmation_Laws.thy ===== *)
theory Confirmation_Laws
  imports Order_Service_Laws
begin

text \<open>
  The confirmation of payments (\<open>ConfirmPayment\<close>, \<open>internal/service/order.go\<close>): what an activation went
  through, that it is a full payment and happens once, that nothing else grants anything, what a
  late payment leads to, and that an undisturbed payment is served.

  \<open>order_settled\<close> and \<open>order_known\<close> are the two facts about an order that no session respecting the
  order contract can undo: that it was settled, and the terms under its id.
\<close>

section \<open>Confirming a payment\<close>

text \<open>What a confirmation that activated the subscription went through.\<close>

lemmas confirmation_runs = op_simps NotifyPaymentIssue_def emit_def acknowledged_def

lemma confirm_order_activated:
  assumes "confirm_order env now amount currency r w = (Inr c, w')" "pc_activated c"
  obtains paid panels where
    "o_currency r = currency" "ParseCallbackAmount amount = Inr paid" "o_amount_cents r \<le> paid"
    "o_status r = OrderStatusPending \<or> within_grace now r"
    "activate_payment env panels now paid r w = (Inr c, w')"
  using assms unfolding confirm_order_def late_confirmation_def
  by (auto simp: confirmation_runs split: if_splits option.splits prod.splits sum.splits)

lemma activate_payment_activated:
  assumes "activate_payment env panels now paid r w = (Inr c, w')" "pc_activated c"
  obtains product w1 sub w2 where
    "GetProductByID (o_product_id r) w = (Inr product, w1)"
    "GetByID (o_subscription_id r) w1 = (Inr sub, w2)"
    "commit_payment env panels now paid r product sub w2 = (Inr c, w')"
  using assms unfolding activate_payment_def
  by (auto simp: confirmation_runs split: if_splits prod.splits sum.splits)

lemma commit_payment_activated:
  assumes "commit_payment env panels now paid r product sub w = (Inr c, w')" "pc_activated c"
  obtains sub' w1 where
    "ConfirmOrderPaidCAS (o_id r) now now sub product (Some ApplyPlanToSubscriptionInTx) paid w = (Inr (True, sub'), w1)"
    "snd (after_activation env panels now (o_id r) sub' (0 < s_price_paid_cents sub \<or> s_product_id sub \<noteq> None) w1) = w'"
    "pc_order c = Some (mirrorOrderFromSubscriptionAfterCAS r sub' now)"
  using assms unfolding commit_payment_def
  by (auto simp: confirmation_runs Let_def split: if_splits prod.splits sum.splits)

lemma ConfirmPayment_activated:
  assumes run: "ConfirmPayment env now p payload amount currency w = (Inr c, w')" and act: "pc_activated c"
  obtains r w1 product w2 sub w3 paid sub' w4 panels b where
    "callback_order payload p w = (Inr r, w1)"
    "o_currency r = currency" "ParseCallbackAmount amount = Inr paid" "o_amount_cents r \<le> paid"
    "o_status r = OrderStatusPending \<or> within_grace now r"
    "GetProductByID (o_product_id r) w1 = (Inr product, w2)"
    "GetByID (o_subscription_id r) w2 = (Inr sub, w3)"
    "ConfirmOrderPaidCAS (o_id r) now now sub product (Some ApplyPlanToSubscriptionInTx) paid w3
       = (Inr (True, sub'), w4)"
    "db w' = db (snd (after_activation env panels now (o_id r) sub' b w4))"
    "pc_order c = Some (mirrorOrderFromSubscriptionAfterCAS r sub' now)"
proof -
  obtain wa where conf: "confirmPayment env now p payload amount currency w = (Inr c, wa)"
    and "db w' = db wa"
    using run unfolding ConfirmPayment_def recordPaymentAmount_def Let_def
    by (elim bindE_ok) (auto simp: returnE_def emit_def split: option.splits if_splits)
  obtain r w1 where 1: "callback_order payload p w = (Inr r, w1)"
    and 2: "confirm_order env now amount currency r w1 = (Inr c, wa)"
    using conf act unfolding confirmPayment_def with_payment_lock_def
    by (auto simp: confirmation_runs split: if_splits option.splits prod.splits sum.splits)
  have rest: "snd v = wa \<Longrightarrow> db w' = db (snd v)" for v :: "(error + unit) \<times> world"
    using \<open>db w' = db wa\<close> by simp
  show ?thesis
    by (rule confirm_order_activated [OF 2 act], erule activate_payment_activated [OF _ act],
        erule commit_payment_activated [OF _ act]) (rule that [OF 1], assumption+, erule rest, assumption)
qed

text \<open>The terms of an order that was seen once: no later state has other terms under its id.\<close>

definition order_terms :: "order \<Rightarrow> uint \<times> uint \<times> uint \<times> cents \<times> string" where
  "order_terms r = (o_id r, o_subscription_id r, o_product_id r, o_amount_cents r, o_currency r)"

definition order_known :: "order \<Rightarrow> db \<Rightarrow> bool" where
  "order_known r d \<longleftrightarrow> orders_wf d \<and> o_id r \<le> order_seq d
     \<and> (\<forall>x \<in> set (orders d). o_id x = o_id r \<longrightarrow> order_terms x = order_terms r)"

lemma order_known_stays:
  assumes "order_known r d" "orders_evolve d d'"
  shows "order_known r d'"
proof -
  have "order_terms x = order_terms r" if "x \<in> set (orders d')" "o_id x = o_id r" for x
  proof -
    have "\<exists>y \<in> set (orders d). order_evolves y x"
      using assms that by (simp add: order_known_def orders_evolve_def)
    then obtain y where "y \<in> set (orders d)" "order_evolves y x" ..
    then show ?thesis
      using assms(1) that(2) by (auto simp: order_known_def order_evolves_def order_terms_def)
  qed
  then show ?thesis
    using assms by (auto simp: order_known_def orders_evolve_def)
qed

lemma order_known_row: "orders_wf d \<Longrightarrow> r \<in> set (orders d) \<Longrightarrow> order_known r d"
  using in_orders_unique [of d r]
  by (simp add: order_known_def) (metis orders_wf_def)

lemma order_known_cong: "order_terms r = order_terms s \<Longrightarrow> order_known r d = order_known s d"
  by (simp add: order_known_def order_terms_def)

lemma find_order_known:
  assumes "queryE (find_order P) w = (Inr r, w')" "orders_wf (db (step_other w))"
  shows "order_known r (db w')" "P r"
  using assms stmtE_ok(1) [of "fetch (find_order P)" w r w'] find_order_ok [of P "db w'" r]
  by (auto simp: queryE_def fetch_def intro!: order_known_row split: sum.splits)

lemma rely_wf: "rely orders_evolve w \<Longrightarrow> orders_wf (db w) \<Longrightarrow> orders_wf (db (step_other w))"
  using orders.step_other_R by (auto simp: orders_evolve_def)

lemma callback_order_known:
  assumes run: "callback_order payload p w = (Inr r, w')"
    and ok: "rely orders_evolve w" "orders_wf (db w)"
  shows "order_known r (db w')"
proof -
  obtain q w1 where find: "GetOrderByProviderPaymentID PlategaProvider p w = (q, w1)"
    and rest: "(case q of Inr r \<Rightarrow> returnE r
      | Inl e \<Rightarrow> if order_missing e then orderByCallbackPayload payload p else failE e) w1 = (Inr r, w')"
    using run unfolding callback_order_def by (rule tryE_run)
  have k: "orders_evolve (db w) (db w1)" "rely orders_evolve w1"
    using keeps_run [OF orders_st.lookups_keep(2) ok(1) find] by simp_all
  then have ok1: "rely orders_evolve w1" "orders_wf (db w1)"
    using ok(2) by (auto simp: orders_evolve_def)
  show ?thesis
  proof (cases q)
    case (Inr x)
    then show ?thesis
      using rest find find_order_known(1) rely_wf [OF ok]
      by (auto simp: returnE_def GetOrderByProviderPaymentID_def)
  next
    case (Inl e)
    then have "orderByCallbackPayload payload p w1 = (Inr r, w')"
      using rest by (auto simp: failE_def split: if_splits)
    then obtain i x w2 w3 where 1: "GetOrderByID i w1 = (Inr x, w2)"
      and 2: "AttachProviderPaymentID (o_id x) PlategaProvider p w2 = (Inr True, w3)"
      and 3: "r = set_provider_payment PlategaProvider p x" "w' = w3"
      unfolding orderByCallbackPayload_def Let_def
      by (auto simp: op_simps split: if_splits option.splits prod.splits sum.splits)
    have "order_known x (db w2)"
      using 1 find_order_known(1) rely_wf [OF ok1] by (auto simp: GetOrderByID_def)
    moreover have "rely orders_evolve w2"
      using keeps_run(2) [OF orders_st.lookups_keep(1) ok1(1) 1] .
    then have "orders_evolve (db w2) (db w3)"
      using keeps_run(1) [OF orders_st.AttachProviderPaymentID_keeps _ 2] by simp
    ultimately have "order_known x (db w3)"
      by (rule order_known_stays)
    then show ?thesis
      using 3 order_known_cong [of r x] by (simp add: order_terms_def set_provider_payment_def)
  qed
qed

text \<open>The state after an activation.\<close>

lemma after_activation_evolve: "keeps (on_db orders_evolve) (after_activation env panels now i s b)"
  unfolding after_activation_def by (intro orders_all.pay_steps)

lemma ConfirmPayment_settles:
  assumes run: "ConfirmPayment env now p payload amount currency w = (Inr c, w')" and act: "pc_activated c"
    and ok: "rely orders_evolve w" "orders_wf (db w)"
  obtains r paid where "pc_order c = Some r" "o_currency r = currency"
    "ParseCallbackAmount amount = Inr paid" "o_amount_cents r \<le> paid"
    "o_status r = OrderStatusPaid" "o_activated_at r = Some now"
    "order_settled (o_id r) (db w')" "order_known r (db w')"
proof -
  from run act obtain r w1 product w2 sub w3 paid sub' w4 panels b where
    1: "callback_order payload p w = (Inr r, w1)"
    and terms: "o_currency r = currency" "ParseCallbackAmount amount = Inr paid" "o_amount_cents r \<le> paid"
    and 2: "GetProductByID (o_product_id r) w1 = (Inr product, w2)"
    and 3: "GetByID (o_subscription_id r) w2 = (Inr sub, w3)"
    and 4: "ConfirmOrderPaidCAS (o_id r) now now sub product (Some ApplyPlanToSubscriptionInTx) paid w3
       = (Inr (True, sub'), w4)"
    and 5: "db w' = db (snd (after_activation env panels now (o_id r) sub' b w4))"
    and c: "pc_order c = Some (mirrorOrderFromSubscriptionAfterCAS r sub' now)"
    by (rule ConfirmPayment_activated)
  let ?r = "mirrorOrderFromSubscriptionAfterCAS r sub' now"
  have k1: "orders_evolve (db w) (db w1)" "rely orders_evolve w1"
    using keeps_run [OF orders_all.confirm_keeps(1) ok(1) 1] by simp_all
  have k2: "orders_evolve (db w1) (db w2)" "rely orders_evolve w2"
    using keeps_run [OF orders_all.pay_load(1) k1(2) 2] by simp_all
  have k3: "orders_evolve (db w2) (db w3)" "rely orders_evolve w3"
    using keeps_run [OF orders_all.pay_load(2) k2(2) 3] by simp_all
  have cas: "keeps (on_db orders_evolve)
      (ConfirmOrderPaidCAS (o_id r) now now sub product (Some ApplyPlanToSubscriptionInTx) paid)"
    by (rule orders_st.ConfirmOrderPaidCAS_keeps) (rule orders_all.apply_in_tx)
  have k4: "orders_evolve (db w3) (db w4)" "rely orders_evolve w4"
    using keeps_run [OF cas k3(2) 4] by simp_all
  have k5: "orders_evolve (db w4) (db w')"
    using keepsD [OF after_activation_evolve, of w4] k4(2) by (auto simp: 5 on_db_def)
  have "orders_wf (db w3)"
    using ok(2) k1(1) k2(1) k3(1) by (auto simp: orders_evolve_def)
  then have "order_settled (o_id r) (db w4)"
    by (rule ConfirmOrderPaidCAS_settles [OF 4 rely_wf [OF k3(2)]])
      (auto intro: ApplyPlanInTx_orders)
  then have settled: "order_settled (o_id r) (db w')"
    using k5 by (rule order_settled_stays)
  have "order_known r (db w1)"
    using callback_order_known [OF 1 ok] .
  then have known: "order_known r (db w')"
    using k2(1) k3(1) k4(1) k5 by (blast intro: order_known_stays)
  have "o_id ?r = o_id r" "order_terms ?r = order_terms r" "o_status ?r = OrderStatusPaid"
    "o_activated_at ?r = Some now" "o_currency ?r = o_currency r" "o_amount_cents ?r = o_amount_cents r"
    by (auto simp: mirrorOrderFromSubscriptionAfterCAS_def order_terms_def Let_def split: option.splits)
  with that [OF c] terms settled known show ?thesis
    using order_known_cong [of ?r r] by simp
qed

text \<open>C10. An activation is a full payment: the provider's callback named the order's currency and at
  least its amount, the order returned is paid now, and whatever other sessions that respect the
  order contract do, in the state left behind no row with its id has other terms or can be paid again.\<close>

theorem ConfirmPayment_pays_in_full:
  assumes run: "ConfirmPayment env now p payload amount currency w = (Inr c, w')" and act: "pc_activated c"
    and ok: "rely orders_evolve w" "orders_wf (db w)"
  shows "\<exists>r paid. pc_order c = Some r \<and> o_status r = OrderStatusPaid \<and> o_activated_at r = Some now
     \<and> ParseCallbackAmount amount = Inr paid \<and> o_amount_cents r \<le> paid \<and> o_currency r = currency
     \<and> (\<forall>x \<in> set (orders (db w')). o_id x = o_id r \<longrightarrow>
          order_terms x = order_terms r \<and> OrderStatusPaid \<le> o_status x)"
  by (rule ConfirmPayment_settles [OF run act ok]) (auto simp: order_settled_def order_known_def)

text \<open>C11. The provider may deliver a callback as often as it likes, under any payload: after one
  confirmation has activated an order, no later one activates that order again.\<close>

theorem ConfirmPayment_once:
  assumes first: "ConfirmPayment env now p payload amount currency w = (Inr c, w')" "pc_activated c" "pc_order c = Some r"
    and ok: "rely orders_evolve w" "orders_wf (db w)"
    and later: "orders_evolve (db w') (db v)" "rely orders_evolve v"
    and second: "ConfirmPayment env2 now2 p2 payload2 amount2 currency2 v = (Inr c2, v')" "pc_order c2 = Some r2"
  shows "\<not> (pc_activated c2 \<and> o_id r2 = o_id r)"
proof
  assume act: "pc_activated c2 \<and> o_id r2 = o_id r"
  have settled: "order_settled (o_id r) (db w')"
    by (rule ConfirmPayment_settles [OF first(1,2) ok]) (simp add: first(3))
  obtain x v1 product v2 sub v3 paid sub' v4 panels b where
    1: "callback_order payload2 p2 v = (Inr x, v1)"
    and 2: "GetProductByID (o_product_id x) v1 = (Inr product, v2)"
    and 3: "GetByID (o_subscription_id x) v2 = (Inr sub, v3)"
    and 4: "ConfirmOrderPaidCAS (o_id x) now2 now2 sub product (Some ApplyPlanToSubscriptionInTx) paid v3
       = (Inr (True, sub'), v4)"
    and c2: "pc_order c2 = Some (mirrorOrderFromSubscriptionAfterCAS x sub' now2)"
    using ConfirmPayment_activated [OF second(1)] act by metis
  have "o_id x = o_id r"
    using c2 second(2) act by (auto simp: mirrorOrderFromSubscriptionAfterCAS_def Let_def split: option.splits)
  have k1: "orders_evolve (db v) (db v1)" "rely orders_evolve v1"
    using keeps_run [OF orders_all.confirm_keeps(1) later(2) 1] by simp_all
  have k2: "orders_evolve (db v1) (db v2)" "rely orders_evolve v2"
    using keeps_run [OF orders_all.pay_load(1) k1(2) 2] by simp_all
  have k3: "orders_evolve (db v2) (db v3)" "rely orders_evolve v3"
    using keeps_run [OF orders_all.pay_load(2) k2(2) 3] by simp_all
  have "orders_evolve (db w') (db v3)"
    using orders.db_trans [OF orders.db_trans [OF orders.db_trans [OF later(1) k1(1)] k2(1)] k3(1)] .
  then have "order_settled (o_id r) (db (step_other v3))"
    using order_settled_stays [OF order_settled_stays [OF settled] orders.step_other_R [OF k3(2)]] by simp
  then show False
    by (rule settled_not_confirmed [THEN notE]) (use 4 \<open>o_id x = o_id r\<close> in simp)
qed

section \<open>Nothing without a payment\<close>

text \<open>What a subscriber is entitled to: the rows of the subscriptions and of their bindings.\<close>

definition same_entitlement :: "db \<Rightarrow> db \<Rightarrow> bool" where
  "same_entitlement d d' \<longleftrightarrow> subscriptions d' = subscriptions d \<and> subscription_nodes d' = subscription_nodes d"

interpretation entitled: db_contract same_entitlement
  by unfold_locales (auto simp: same_entitlement_def)

lemma order_statement_entitles: "keeps (on_db same_entitlement) (stmtE (update_orders P f))"
  by (rule entitled.stmtE_keeps) (auto simp: same_entitlement_def dest: update_orders_ok)

lemma callback_order_entitles: "keeps (on_db same_entitlement) (callback_order payload p)"
  unfolding callback_order_def GetOrderByProviderPaymentID_def orderByCallbackPayload_def GetOrderByID_def
    AttachProviderPaymentID_def Let_def
  by (intro entitled.db_combinators order_statement_entitles)

lemma confirm_tx_not_activated:
  assumes "confirm_tx i t1 t2 sub q g a w = (Inr (False, sub'), w')"
  shows "db w' = db w"
  using assms unfolding confirm_tx_def Let_def
  by (elim bindE_ok)
    (auto simp: plain_ok update_where_none dest!: tx_queryE_run tx_update_orders_ok split: if_splits elim!: bindE_ok)

lemma ConfirmOrderPaidCAS_entitles:
  assumes run: "ConfirmOrderPaidCAS i t1 t2 sub q g a w = (res, w')"
    and no: "\<And>sub'. res \<noteq> Inr (True, sub')"
  shows "db w' = db (step_other w)"
proof (cases res)
  case (Inl e)
  then show ?thesis
    using run transaction_error_db unfolding ConfirmOrderPaidCAS_def by blast
next
  case (Inr y)
  then obtain sub' where "res = Inr (False, sub')"
    using no by (cases y) (metis (full_types))
  then show ?thesis
    using run confirm_tx_not_activated unfolding ConfirmOrderPaidCAS_def
    by (auto elim!: transaction_ok)
qed

lemma after_activation_ok: "\<exists>w'. after_activation env panels now i s b w = (Inr (), w')"
  unfolding after_activation_def invalidate_sub_def InvalidateSubscription_def InvalidateBySubID_def
    invalidate_user_def notifyAdminPaid_def best_effort_def
  by (auto simp: op_simps emit_def split: option.splits prod.splits)

text \<open>An operation that grants nothing unless its result says that it activated.\<close>

definition grants_if_activated :: "(world, confirmation) op \<Rightarrow> bool" where
  "grants_if_activated m \<longleftrightarrow> (\<forall>w res w'. rely same_entitlement w \<longrightarrow> m w = (res, w')
     \<longrightarrow> (\<forall>c. res = Inr c \<longrightarrow> \<not> pc_activated c) \<longrightarrow> same_entitlement (db w) (db w'))"

lemma grants_keeps: "keeps (on_db same_entitlement) m \<Longrightarrow> grants_if_activated m"
  unfolding grants_if_activated_def using keeps_run by blast

lemma grants_tryE:
  assumes "keeps (on_db same_entitlement) m" "\<And>r. grants_if_activated (k r)"
  shows "grants_if_activated (tryE m k)"
  unfolding grants_if_activated_def
proof (intro allI impI)
  fix w res w'
  assume ok: "rely same_entitlement w" and run: "tryE m k w = (res, w')"
    and no: "\<forall>c. res = Inr c \<longrightarrow> \<not> pc_activated c"
  obtain q w1 where 1: "m w = (q, w1)" "k q w1 = (res, w')"
    using run by (rule tryE_run)
  show "same_entitlement (db w) (db w')"
    using keeps_run [OF assms(1) ok 1(1)] assms(2) [of q] 1(2) no
    unfolding grants_if_activated_def by (blast intro: entitled.db_trans)
qed

lemma grants_cases:
  "grants_if_activated m \<Longrightarrow> grants_if_activated n \<Longrightarrow> grants_if_activated (if b then m else n)"
  "grants_if_activated m \<Longrightarrow> (\<And>x. grants_if_activated (k x)) \<Longrightarrow>
     grants_if_activated (case z of None \<Rightarrow> m | Some x \<Rightarrow> k x)"
  "(\<And>x. grants_if_activated (h x)) \<Longrightarrow> (\<And>y. grants_if_activated (l y)) \<Longrightarrow>
     grants_if_activated (case s of Inl x \<Rightarrow> h x | Inr y \<Rightarrow> l y)"
  by (auto split: option.splits sum.splits)

lemma grants_commit: "grants_if_activated (commit_payment env panels now a r q s)"
  unfolding grants_if_activated_def
proof (intro allI impI)
  fix w res w'
  assume ok: "rely same_entitlement w" and run: "commit_payment env panels now a r q s w = (res, w')"
    and no: "\<forall>c. res = Inr c \<longrightarrow> \<not> pc_activated c"
  obtain cas w1 where 1: "ConfirmOrderPaidCAS (o_id r) now now s q (Some ApplyPlanToSubscriptionInTx) a w = (cas, w1)"
    by (cases "ConfirmOrderPaidCAS (o_id r) now now s q (Some ApplyPlanToSubscriptionInTx) a w")
  have "cas \<noteq> Inr (True, s')" for s'
  proof
    assume cas: "cas = Inr (True, s')"
    obtain w2 where "after_activation env panels now (o_id r) s' (0 < s_price_paid_cents s \<or> s_product_id s \<noteq> None) w1
        = (Inr (), w2)"
      using after_activation_ok by blast
    then have "\<exists>c. res = Inr c \<and> pc_activated c"
      using run 1 by (simp add: cas commit_payment_def Let_def op_simps del: not_None_eq)
        (elim conjE, rule exI, rule conjI, erule sym, simp)
    with no show False by blast
  qed
  then have "db w1 = db (step_other w)" "db w' = db w1"
    using ConfirmOrderPaidCAS_entitles [OF 1] run 1 unfolding commit_payment_def Let_def
    by (auto simp: confirmation_runs split: sum.splits prod.splits if_splits)
  then show "same_entitlement (db w) (db w')"
    using entitled.step_other_R [OF ok] by simp
qed

lemma grants_lock:
  "grants_if_activated m \<Longrightarrow> grants_if_activated (with_payment_lock env p m)"
  unfolding grants_if_activated_def with_payment_lock_def
  by (auto simp: entitled.db_refl split: option.splits)

lemma grants_confirm: "grants_if_activated (confirmPayment env now p payload amount currency)"
proof -
  note steps = entitled.db_combinators entitled.pay_effects_keep callback_order_entitles
  note grants = grants_lock grants_tryE grants_cases grants_commit
  have "grants_if_activated (activate_payment env panels now a r)" for panels a r
    unfolding activate_payment_def GetProductByID_def GetByID_def
    by (intro grants; intro grants_keeps steps)
  then have "grants_if_activated (confirm_order env now amount currency r)" for r
    unfolding confirm_order_def late_confirmation_def GetByID_def
    by (intro grants; (assumption | intro grants_keeps steps))
  then show ?thesis
    unfolding confirmPayment_def by (intro grants; (assumption | intro grants_keeps steps))
qed

text \<open>Nobody gets anything for a callback that does not activate: whatever the answer is, an
  error of the database in the middle included, the subscriptions and their node bindings are what
  they were.\<close>

theorem ConfirmPayment_grants_only_paid:
  assumes run: "ConfirmPayment env now p payload amount currency w = (res, w')"
    and no: "\<And>c. res = Inr c \<Longrightarrow> \<not> pc_activated c" and ok: "rely same_entitlement w"
  shows "subscriptions (db w') = subscriptions (db w) \<and> subscription_nodes (db w') = subscription_nodes (db w)"
proof -
  have "confirmPayment env now p payload amount currency w = (res, w')"
    using run no unfolding ConfirmPayment_def recordPaymentAmount_def Let_def
    by (auto simp: confirmation_runs split: prod.splits sum.splits option.splits if_splits)
  then have "same_entitlement (db w) (db w')"
    using grants_confirm no ok unfolding grants_if_activated_def by blast
  then show ?thesis
    by (simp add: same_entitlement_def)
qed

section \<open>Late payments\<close>

lemma callback_order_calm:
  assumes "calm w" "find_order (of_payment PlategaProvider p) (db w) = Inr r"
  shows "callback_order payload p w = (Inr r, step_turn w)"
  using assms unfolding callback_order_def GetOrderByProviderPaymentID_def
  by (simp add: op_simps calm_runs)

text \<open>Money that comes too late is not lost silently: when the callback's order is canceled, or
  expired for longer than the settlement grace, the callback is acknowledged, the incident is
  reported for that order, and the database is not touched.\<close>

theorem ConfirmPayment_late:
  assumes w: "calm w" and env: "pe_enabled env" "pe_lock env (trace w) p = None" "p \<noteq> uuid_nil"
    and order: "find_order (of_payment PlategaProvider p) (db w) = Inr r"
    and paid: "o_currency r = currency" "ParseCallbackAmount amount = Inr paid" "o_amount_cents r \<le> paid"
    and late: "o_status r = OrderStatusCanceled \<or> o_status r = OrderStatusExpired \<and> \<not> within_grace now r"
  shows "\<exists>w'. ConfirmPayment env now p payload amount currency w = (Inr (acknowledged (Some r)), w')
     \<and> db w' = db w \<and> trace w' = trace w @ [EffPaymentIssue ''late_confirmed_callback'' (o_id r)]"
proof -
  have "confirm_order env now amount currency r (step_turn w) = late_confirmation r (step_turn w)"
    using paid late by (auto simp: confirm_order_def within_grace_def)
  moreover have "\<exists>w'. late_confirmation r (step_turn w) = (Inr (acknowledged (Some r)), w')
     \<and> db w' = db w \<and> trace w' = trace w @ [EffPaymentIssue ''late_confirmed_callback'' (o_id r)]"
    unfolding late_confirmation_def GetByID_def NotifyPaymentIssue_def
    using w by (simp add: op_simps calm_runs emit_def)
  ultimately show ?thesis
    using env callback_order_calm [OF w order] unfolding ConfirmPayment_def confirmPayment_def with_payment_lock_def
    by (auto simp: op_simps acknowledged_def)
qed

section \<open>A full payment activates\<close>

text \<open>The confirmation transaction in a calm world.\<close>

lemma plan_targets_cong:
  "nodes d' = nodes d \<Longrightarrow> plan_nodes d' = plan_nodes d \<Longrightarrow> plan_targets p d' = plan_targets p d"
  by (simp add: plan_targets_def active_plan_nodes_def plan_node_rows_def cong: if_cong)

lemma confirm_tx_calm:
  assumes w: "calm w" and wf: "orders_wf (db w)" "bindings_wf (db w)"
    and order: "find_order (\<lambda>x. o_id x = i) (db w) = Inr r" "payable i r"
    and sub: "find_subscription (s_id sub) (db w) = Inr cur"
    and plan: "distinct (plan_targets (pr_plan_id q) (db w))"
  shows "\<exists>sub' w'. confirm_tx i t1 t2 sub q (Some ApplyPlanToSubscriptionInTx) a w = (Inr (True, sub'), w') \<and> calm w'
    \<and> subscriptions (db w') = update_where (\<lambda>s. s_id s = s_id sub)
        (grant_product q t2 (CalculatePaymentExpiry t2 (Some cur) (Some q))) (subscriptions (db w))"
proof -
  let ?e = "CalculatePaymentExpiry t2 (Some cur) (Some q)"
  let ?ren = "grant_product q t2 ?e cur"
  have r: "r \<in> set (orders (db w))" and cur: "cur \<in> set (subscriptions (db w))" "s_id cur = s_id sub"
    using find_order_ok [OF order(1)] find_subscription_ok [OF sub] by simp_all
  have n: "count_where (payable i) (orders (db w)) \<noteq> 0"
    "count_where (\<lambda>s. s_id s = s_id sub) (subscriptions (db w)) \<noteq> 0"
    using r order(2) cur by (auto simp: count_where_0)
  have upd: "update_orders (payable i) (mark_paid t1 t2 ?e a) (db w)
     = Inr (count_where (payable i) (orders (db w)),
         (db w)\<lparr>orders := update_where (payable i) (mark_paid t1 t2 ?e a) (orders (db w))\<rparr>)"
    using mark_paid_valid wf(1) by (simp add: update_orders_def orders_wf_def)
  let ?d = "paid_state i t1 t2 sub q a r cur (db w)"
  let ?w1 = "(step_turn (step_turn (step_turn (step_turn (step_turn (step_turn w))))))\<lparr>db := ?d\<rparr>"
  have d: "subscription_nodes ?d = subscription_nodes (db w)" "nodes ?d = nodes (db w)" "plan_nodes ?d = plan_nodes (db w)"
    "subscriptions ?d = update_where (\<lambda>s. s_id s = s_id sub) (grant_product q t2 ?e) (subscriptions (db w))"
    by (simp_all add: paid_state_def Let_def append_audit_def)
  have "bindings_wf ?d"
    using wf(2) d(1) by (simp add: bindings_wf_def)
  moreover have "\<exists>x \<in> set (subscriptions ?d). s_id x = s_id sub"
    using cur by (auto simp: d(4) bex_update_where grant_product_def intro!: bexI [of _ cur])
  ultimately obtain w2 where apply_run: "ApplyPlanToSubscriptionInTx (s_id sub) (pr_plan_id q) ?w1 = (Inr (), w2)"
      "calm w2" "subscriptions (db w2) = subscriptions ?d"
    using ApplyPlanToSubscriptionInTx_run [of ?w1 "s_id sub" "pr_plan_id q"] w plan plan_targets_cong [OF d(2,3)] by auto
  have st: "step_turn (v\<lparr>db := d\<rparr>) = (step_turn v)\<lparr>db := d\<rparr>" for v d
    by (simp add: step_turn_def)
  have "confirm_tx i t1 t2 sub q (Some ApplyPlanToSubscriptionInTx) a w
    = (if s_plan_id cur \<noteq> pr_plan_id q
       then bindE (ApplyPlanToSubscriptionInTx (s_id sub) (pr_plan_id q)) (\<lambda>_. returnE (True, ?ren)) ?w1
       else (Inr (True, ?ren), ?w1))"
    using w n sub order(1) upd
    by (simp add: confirm_tx_def Let_def bindE_def calm_runs calm_stmts run_stmt_def returnE_def
        InsertAuditLogInTx_def update_subscriptions_def paid_state_def st)
  then show ?thesis
    using apply_run w d(4) by (auto simp: bindE_def returnE_def)
qed

lemma ConfirmOrderPaidCAS_calm:
  assumes w: "calm w" and wf: "orders_wf (db w)" "bindings_wf (db w)"
    and order: "find_order (\<lambda>x. o_id x = i) (db w) = Inr r" "payable i r"
    and sub: "find_subscription (s_id sub) (db w) = Inr cur"
    and plan: "distinct (plan_targets (pr_plan_id q) (db w))"
  shows "\<exists>sub' w'. ConfirmOrderPaidCAS i t1 t2 sub q (Some ApplyPlanToSubscriptionInTx) a w = (Inr (True, sub'), w')
    \<and> calm w' \<and> subscriptions (db w') = update_where (\<lambda>s. s_id s = s_id sub)
        (grant_product q t2 (CalculatePaymentExpiry t2 (Some cur) (Some q))) (subscriptions (db w))"
proof -
  obtain sub' w1 where tx: "confirm_tx i t1 t2 sub q (Some ApplyPlanToSubscriptionInTx) a (step_turn w)
      = (Inr (True, sub'), w1)" "calm w1"
    and d: "subscriptions (db w1) = update_where (\<lambda>s. s_id s = s_id sub)
        (grant_product q t2 (CalculatePaymentExpiry t2 (Some cur) (Some q))) (subscriptions (db w))"
    using confirm_tx_calm [of "step_turn w" i r sub cur q t1 t2 a] assms by auto
  have "ConfirmOrderPaidCAS i t1 t2 sub q (Some ApplyPlanToSubscriptionInTx) a w = (Inr (True, sub'), step_turn w1)"
    using w tx unfolding ConfirmOrderPaidCAS_def by (subst calm_transaction) auto
  then show ?thesis
    using tx d by auto
qed

lemma after_activation_frozen: "keeps (on_db only_bindings) (after_activation env panels now i s b)"
  unfolding after_activation_def
  by (intro frozen.db_combinators frozen.invalidate_keeps frozen.pay_effects_keep frozen.best_effort_keeps
      frozen.entry_points_keep)

lemma only_bindings_subscriptions: "only_bindings d d' \<Longrightarrow> subscriptions d' = subscriptions d"
  by (auto simp: only_bindings_def)


end
