(* ===== verification/Request_Laws.thy ===== *)
theory Request_Laws
  imports Confirmation_Laws
begin

text \<open>
  Requesting a payment (\<open>RequestPayment\<close>, \<open>internal/service/order.go\<close>): the provider is contacted in
  one place, for the catalogue's price, and at most once for an order.

  \<open>held\<close> is the state in which nobody can claim the creation of an order's payment, and
  \<open>claims_keep\<close> the contract of sessions that do not release such a claim; the stores and the
  subscription service respect it by interpretation. \<open>creates_after\<close> describes a stage of a request by
  the only way in which it can reach the provider.
\<close>

section \<open>A claimed order\<close>

text \<open>Nobody can claim the creation of the order's payment: it is claimed, linked or closed.\<close>

definition held :: "uint \<Rightarrow> db \<Rightarrow> bool" where
  "held i d \<longleftrightarrow> i \<le> order_seq d \<and> (\<forall>x \<in> set (orders d). \<not> uncertain_claim i True x)"

definition claims_keep :: "uint \<Rightarrow> db \<Rightarrow> db \<Rightarrow> bool" where
  "claims_keep i d d' \<longleftrightarrow> orders_evolve d d' \<and> (orders_wf d \<and> held i d \<longrightarrow> held i d')"

lemma claims_keep_refl: "claims_keep i d d"
  by (simp add: claims_keep_def orders.db_refl)

lemma claims_keep_trans: "claims_keep i d e \<Longrightarrow> claims_keep i e f \<Longrightarrow> claims_keep i d f"
  using orders.db_trans [of d e f] by (auto simp: claims_keep_def orders_evolve_def)

lemma claims_keep_same: "orders d' = orders d \<Longrightarrow> order_seq d' = order_seq d \<Longrightarrow> claims_keep i d d'"
  by (simp add: claims_keep_def orders_evolve_same held_def)

lemma claims_keep_delete:
  assumes "delete_subs P d = Inr (gone, d')"
  shows "claims_keep i d d'"
  using orders_evolve_delete [OF assms] delete_subs_ok [OF assms]
  by (auto simp: claims_keep_def held_def)

lemma claim_is_claimable: "uncertain_claim i True r \<longleftrightarrow> o_id r = i \<and> claimable r"
  by (auto simp: uncertain_claim_def pending_with_id_def claimable_def)

lemma claims_keep_update:
  assumes upd: "update_orders P f d = Inr (n, d')"
    and row: "\<And>r. P r \<Longrightarrow> order_evolves r (f r) \<and> (paid_dated r \<longrightarrow> paid_dated (f r))"
    and free: "\<And>r. P r \<Longrightarrow> uncertain_claim i True (f r) \<Longrightarrow> uncertain_claim i True r"
  shows "claims_keep i d d'"
  using update_orders_evolve [OF upd row] update_orders_ok [OF upd] free
  by (auto simp: claims_keep_def held_def ball_update_where)

interpretation claims: store_updates "claims_keep i" for i
proof
  show "claims_keep i d d'" if "update_subs P f d = Inr (n, d')" for P f d n d'
    using subscription_frames(1) [OF that] by (simp add: claims_keep_same)
  show "claims_keep i d d'" if "insert_subscription s d = Inr (s', d')" for s d s' d'
    using subscription_frames(2) [OF that] by (simp add: claims_keep_same)
  show "claims_keep i d d'" if "upsert_invite c j d = Inr (u, d')" for c j d u d'
    using subscription_frames(3) [OF that] by (simp add: claims_keep_same)
  show "claims_keep i d d'" if "update_bindings P f d = Inr (n, d')" for P f d n d'
    using binding_frames(1) [OF that] by (simp add: claims_keep_same)
  show "claims_keep i d d'" if "insert_binding sn d = Inr ((), d')" for sn d d'
    using binding_frames(3) [OF that] by (simp add: claims_keep_same)
  show "claims_keep i d d'" if "upsert_binding sn d = Inr ((), d')" for sn d d'
    using binding_frames(4) [OF that] by (simp add: claims_keep_same)
  show "claims_keep i d d'" if "update_orders P f d = Inr (n, d')"
    "\<And>r. P r \<Longrightarrow> order_evolves r (f r) \<and> (paid_dated r \<longrightarrow> paid_dated (f r))"
    "\<And>r. P r \<Longrightarrow> claimable (f r) \<Longrightarrow> claimable r" for P f d n d'
  proof (rule claims_keep_update [OF that(1,2)])
    show "uncertain_claim i True r" if "P r" "uncertain_claim i True (f r)" for r
      using that order_evolves_id [of r "f r"] \<open>\<And>r. P r \<Longrightarrow> order_evolves r (f r) \<and> _\<close>
        \<open>\<And>r. P r \<Longrightarrow> claimable (f r) \<Longrightarrow> claimable r\<close> by (simp add: claim_is_claimable)
  qed
qed (auto intro: claims_keep_refl claims_keep_trans claims_keep_same claims_keep_delete simp: binding_frames(2))

lemma insert_order_claims: "keeps (on_db (claims_keep i)) (txE (insert_order (new_intent s p a c now)))"
proof (rule claims.ord.txE_keeps)
  fix d x d'
  assume ins: "insert_order (new_intent s p a c now) d = Inr (x, d')"
  show "claims_keep i d d'"
    using insert_order_evolve [OF ins paid_dated_new] insert_order_ok(1,2) [OF ins]
    by (auto simp: claims_keep_def held_def uncertain_claim_def pending_with_id_def)
qed

lemma claim_free: "\<not> uncertain_claim i True (set_uncertain True r)"
  by (simp add: claim_is_claimable row_claims)

lemma claim_operations:
  "keeps (on_db (claims_keep i)) (FindOrCreatePendingPaymentOrder s p a c now)"
  "j \<noteq> i \<Longrightarrow> keeps (on_db (claims_keep i)) (MarkPaymentCreationUncertain j b)"
proof -
  note steps = claims.upd.statements insert_order_claims
  show "keeps (on_db (claims_keep i)) (FindOrCreatePendingPaymentOrder s p a c now)"
    unfolding FindOrCreatePendingPaymentOrder_def find_or_create_tx_def Let_def
    by (intro steps) (auto simp: row_steps row_dated row_claims)
  assume j: "j \<noteq> i"
  have "keeps (on_db (claims_keep i)) (stmtE (update_orders (uncertain_claim j b) (set_uncertain b)))"
    by (rule claims.ord.stmtE_keeps, erule claims_keep_update)
      (use j in \<open>auto simp: row_steps row_dated uncertain_claim_def pending_with_id_def\<close>,
        auto simp: set_uncertain_def)
  then show "keeps (on_db (claims_keep i)) (MarkPaymentCreationUncertain j b)"
    unfolding MarkPaymentCreationUncertain_def by (intro claims.ord.db_combinators claims.ord.audit_keeps)
qed

text \<open>What a request does before it contacts the provider.\<close>

lemma claim_stages:
  "keeps (on_db (claims_keep i)) (check_offer q r)"
  "keeps (on_db (claims_keep i)) (payment_subscription env now j c q)"
  "keeps (on_db (claims_keep i)) (payment_intent now s q)"
  "keeps (on_db (claims_keep i)) (lost_claim env' now r')"
proof -
  show c: "keeps (on_db (claims_keep i)) (check_offer q r)" for r
    by (rule claims.ord.check_offer_keeps)
  note steps = claims.pay_steps claims.create_keeps claim_operations c
  show "keeps (on_db (claims_keep i)) (payment_subscription env now j c q)"
    unfolding payment_subscription_def by (intro steps)
  show "keeps (on_db (claims_keep i)) (payment_intent now s q)"
    unfolding payment_intent_def create_intent_def logAuditOrderCreated_def by (intro steps)
  show "keeps (on_db (claims_keep i)) (lost_claim env' now r')"
    unfolding lost_claim_def by (intro steps)
qed

text \<open>A provider that never rejects definitely, and transaction ids that are not empty.\<close>

definition never_rejects :: "pay_env \<Rightarrow> bool" where
  "never_rejects env \<longleftrightarrow> (\<forall>tr q e. pe_create env tr q = Inl e \<longrightarrow> \<not> errors_is e ErrBadRequest \<and> \<not> errors_is e ErrAuth)"

definition proper_ids :: "pay_env \<Rightarrow> bool" where
  "proper_ids env \<longleftrightarrow> (\<forall>s p v. pe_uuid env s = Some (p, v) \<longrightarrow> p \<noteq> [])"

lemma create_link_claims:
  assumes env: "proper_ids env" "never_rejects env \<or> o_id r \<noteq> i"
  shows "keeps (on_db (claims_keep i)) (create_link env later j c q r)"
proof -
  note steps = claims.ord.db_combinators claims.ord.pay_effects_keep claims.ord.pay_env_keeps claim_operations
  have save: "keeps (on_db (claims_keep i)) (save_link p u t r)" if "p \<noteq> []" for p u t
    unfolding save_link_def by (intro steps claims.upd.SavePaymentDetails_keeps that)
  have id: "p \<noteq> []" if "ParseTransactionID (pe_uuid env) s = Inr p" for s p
  proof -
    have "\<exists>v. pe_uuid env (trim_space s) = Some (p, v)"
      using that by (auto simp: ParseTransactionID_def Let_def split: option.splits if_splits)
    then show ?thesis
      using env(1) by (auto simp only: proper_ids_def)
  qed
  have details: "keeps (on_db (claims_keep i)) (record_details env later resp r)" for resp
    unfolding record_details_def Let_def
    by (cases "ParseTransactionID (pe_uuid env) (cs_transaction_id resp)")
      (auto intro!: steps save id)
  have failed: "keeps (on_db (claims_keep i)) (provider_failed e r)"
    if "o_id r \<noteq> i \<or> \<not> errors_is e ErrBadRequest \<and> \<not> errors_is e ErrAuth" for e
    unfolding provider_failed_def using that by (auto intro!: steps)
  have "on_db (claims_keep i) w (snd (create_link env later j c q r w))" for w
  proof -
    let ?q = "create_request_of env j c q r"
    let ?w1 = "w\<lparr>trace := trace w @ [EffProviderCreate (o_id r) (cq_amount ?q) (cq_currency ?q)]\<rparr>"
    define k where "k = (case pe_create env (trace w) ?q of
       Inl e \<Rightarrow> provider_failed e r
     | Inr None \<Rightarrow> bindE (NotifyPaymentIssue ''provider_empty_response'' (o_id r)) (\<lambda>_. returnE (Inl [ErrProvider], Some r))
     | Inr (Some resp) \<Rightarrow> record_details env later resp r)"
    have "keeps (on_db (claims_keep i)) k"
      using env(2) unfolding k_def never_rejects_def
      by (cases "pe_create env (trace w) ?q") (auto intro!: failed details steps split: option.splits)
    then have "on_db (claims_keep i) ?w1 (snd (k ?w1))"
      by (rule keepsD)
    moreover have "create_link env later j c q r w = k ?w1"
      by (simp add: create_link_def createE_def tryE_def k_def)
    ultimately show ?thesis
      by (simp add: on_db_def)
  qed
  then show ?thesis
    by (rule keepsI)
qed

section \<open>What a request sends\<close>

lemma wrapper_emits:
  "keeps (emits P) m \<Longrightarrow> keeps (emits P) (with_lock env i m)"
  "keeps (emits P) m \<Longrightarrow> keeps (emits P) (best_effort m)"
  by (auto simp: keeps_def with_lock_def emits_def best_effort_ok split: option.splits)

lemma sub_store_emits:
  "keeps (emits P) (GetAnyByTelegramID i)" "keeps (emits P) (CreateSubscription s c)"
  "keeps (emits P) (UpdateSubscription s)" "keeps (emits P) (DeleteSubscriptionNodesBySubscriptionID j)"
  "keeps (emits P) (GetNodesByPlanID j)" "keeps (emits P) (GetBySubscriptionID j)" "keeps (emits P) (GetByID j)"
  "keeps (emits P) (UpsertSubscriptionNode sn)" "keeps (emits P) (GetPendingBySubscriptionID now j)"
  "keeps (emits P) (GetProductByID j)" "keeps (emits P) (InsertAuditLog e)"
  unfolding GetAnyByTelegramID_def CreateSubscription_def UpdateSubscription_def found_sub_def
    DeleteSubscriptionNodesBySubscriptionID_def GetNodesByPlanID_def GetBySubscriptionID_def GetByID_def
    UpsertSubscriptionNode_def GetPendingBySubscriptionID_def GetProductByID_def InsertAuditLog_def affects_def
  by (intro emit_steps transaction_emits tx_emit)+

lemma order_store_emits:
  "keeps (emits P) (GetOrderByID j)" "keeps (emits P) (FindPendingPaymentOrder s p now)"
  "keeps (emits P) (FindOrCreatePendingPaymentOrder s p a c now)" "keeps (emits P) (MarkPaymentCreationUncertain j b)"
  "keeps (emits P) (SavePaymentDetails j q u t)"
  unfolding GetOrderByID_def FindPendingPaymentOrder_def FindOrCreatePendingPaymentOrder_def find_or_create_tx_def
    MarkPaymentCreationUncertain_def SavePaymentDetails_def insertAuditLogBestEffort_def Let_def
  by (intro emit_steps transaction_emits tx_emit sub_store_emits)+

lemma sync_emits:
  assumes vpn: "\<And>c i p. P (EffVpn c i p)"
  shows "keeps (emits P) (SyncSubscription env now i)"
proof -
  have "keeps (emits P) (sync_node env now sub sn)" for sub sn
    by (rule emits_weaken [OF sync_node_emits(1) [OF refl]]) (auto simp: call_for_def vpn)
  then show ?thesis
    unfolding SyncSubscription_def
    by (intro emit_steps wrapper_emits sub_store_emits syncNodes_keeps_emits)
qed

lemma creation_emits:
  assumes vpn: "\<And>c i p. P (EffVpn c i p)"
  shows "keeps (emits P) (GetOrCreateSubscription env now j c c')"
proof -
  have sync: "keeps (emits P) (SyncSubscription env now i)" for env i
    by (rule sync_emits) (rule vpn)
  note steps = emit_steps wrapper_emits sub_store_emits service_silent store_emits sync
  have ensure: "keeps (emits P) (ensureSubscriptionNodes env now s)" for s
    unfolding ensureSubscriptionNodes_def Let_def by (intro steps)
  show ?thesis
    unfolding GetOrCreateSubscription_def reanimateRevokedSubscription_def reanimated_invite_def create_free_def Let_def
    by (intro steps ensure)
qed

definition no_create :: "effect \<Rightarrow> bool" where
  "no_create e \<longleftrightarrow> (\<forall>i a c. e \<noteq> EffProviderCreate i a c)"

lemma issue_quiet:
  "keeps (emits no_create) (NotifyPaymentIssue c i)" "keeps (emits no_create) (refuse e r)"
  "keeps (emits no_create) (refuse_issue c e r)"
proof -
  show i: "keeps (emits no_create) (NotifyPaymentIssue c i)" for i
    by (rule keepsI) (simp add: NotifyPaymentIssue_def emit_def emits_def no_create_def)
  show r: "keeps (emits no_create) (refuse e r)"
    unfolding refuse_def by (intro emit_steps)
  show "keeps (emits no_create) (refuse_issue c e r)"
    unfolding refuse_issue_def refuse_def by (intro emit_steps i)
qed

lemma stages_quiet:
  "keeps (emits no_create) (check_offer q r)"
  "keeps (emits no_create) (payment_subscription env now j c q)"
  "keeps (emits no_create) (payment_intent now s q)"
  "keeps (emits no_create) (lost_claim env now r')"
proof -
  have create: "keeps (emits no_create) (GetOrCreateSubscription env now j c c')" for env c'
    by (rule creation_emits) (simp add: no_create_def)
  note steps = emit_steps wrapper_emits store_emits sub_store_emits order_store_emits issue_quiet create
  show c: "keeps (emits no_create) (check_offer q r)" for r
    unfolding check_offer_def by (intro steps)
  show "keeps (emits no_create) (payment_subscription env now j c q)"
    unfolding payment_subscription_def by (intro steps c)
  show "keeps (emits no_create) (payment_intent now s q)"
    unfolding payment_intent_def create_intent_def logAuditOrderCreated_def by (intro steps c)
  show "keeps (emits no_create) (lost_claim env now r')"
    unfolding lost_claim_def by (intro steps)
qed

text \<open>
  The provider is contacted in one place only: after the order was claimed, for the product the
  request is about. \<open>creates_after\<close> says it of a stage of the request.
\<close>

definition undecided :: "world \<Rightarrow> world \<Rightarrow> bool" where
  "undecided w w' \<longleftrightarrow> (\<forall>k. on_db (claims_keep k) w w')"

definition idle :: "world \<Rightarrow> world \<Rightarrow> bool" where
  "idle w w' \<longleftrightarrow> emits no_create w w' \<and> undecided w w'"

definition creates_after ::
  "pay_env \<Rightarrow> time \<Rightarrow> int \<Rightarrow> string \<Rightarrow> product \<Rightarrow> (world, request_result) op \<Rightarrow> bool" where
  "creates_after env later j c q m \<longleftrightarrow> (\<forall>w. idle w (snd (m w))
     \<or> (\<exists>r w1 w2. purchasable q \<and> undecided w w1 \<and> emits no_create w w2
          \<and> MarkPaymentCreationUncertain (o_id r) True w1 = (Inr True, w2)
          \<and> m w = create_link env later j c q r w2))"

lemma undecided_trans: "undecided u v \<Longrightarrow> undecided v w \<Longrightarrow> undecided u w"
  unfolding undecided_def using claims.ord.world.R_trans by blast

lemma creates_quiet:
  "keeps (emits no_create) m \<Longrightarrow> (\<And>k. keeps (on_db (claims_keep k)) m) \<Longrightarrow> creates_after env later j c q m"
  by (simp add: creates_after_def idle_def undecided_def keeps_def)

lemma idle_trans: "idle u v \<Longrightarrow> idle v w \<Longrightarrow> idle u w"
  unfolding idle_def using undecided_trans emits.R_trans by blast

lemma creates_step:
  assumes "idle w v" "creates_after env later j c q k"
  shows "idle w (snd (k v))
     \<or> (\<exists>r w1 w2. purchasable q \<and> undecided w w1 \<and> emits no_create w w2
          \<and> MarkPaymentCreationUncertain (o_id r) True w1 = (Inr True, w2)
          \<and> k v = create_link env later j c q r w2)"
proof -
  have i: "idle v x \<Longrightarrow> idle w x" for x
    using assms(1) by (rule idle_trans)
  have e: "emits no_create v x \<Longrightarrow> emits no_create w x" for x
    using assms(1) emits.R_trans unfolding idle_def by blast
  have u: "undecided v x \<Longrightarrow> undecided w x" for x
    using assms(1) undecided_trans unfolding idle_def by blast
  show ?thesis
    using assms(2) i e u unfolding creates_after_def by blast
qed

lemma creates_tryE:
  assumes m: "keeps (emits no_create) m" "\<And>k. keeps (on_db (claims_keep k)) m"
    and k: "\<And>r. creates_after env later j c q (k r)"
  shows "creates_after env later j c q (tryE m k)"
  unfolding creates_after_def
proof
  fix w
  obtain x v where v: "m w = (x, v)"
    by (cases "m w")
  have "idle w v"
    using keepsD [OF m(1), of w] keepsD [OF m(2), where s = w] by (simp add: v undecided_def idle_def)
  from creates_step [OF this k [of x]] show "idle w (snd (tryE m k w))
     \<or> (\<exists>r w1 w2. purchasable q \<and> undecided w w1 \<and> emits no_create w w2
          \<and> MarkPaymentCreationUncertain (o_id r) True w1 = (Inr True, w2)
          \<and> tryE m k w = create_link env later j c q r w2)"
    by (simp add: tryE_def v)
qed

lemma bindE_tryE: "bindE m k = tryE m (\<lambda>r. case r of Inl e \<Rightarrow> failE e | Inr x \<Rightarrow> k x)"
  by (rule ext) (auto simp: op_simps split: prod.splits sum.splits)

lemma creates_cases:
  "creates_after env later j c q m \<Longrightarrow> creates_after env later j c q n \<Longrightarrow>
     creates_after env later j c q (if b then m else n)"
  "(\<And>x. creates_after env later j c q (h x)) \<Longrightarrow> (\<And>y. creates_after env later j c q (l y)) \<Longrightarrow>
     creates_after env later j c q (case s of Inl x \<Rightarrow> h x | Inr y \<Rightarrow> l y)"
  by (auto split: sum.splits)

lemma creates_bindE:
  assumes "keeps (emits no_create) m" "\<And>k. keeps (on_db (claims_keep k)) m"
    and "\<And>x. creates_after env later j c q (k x)"
  shows "creates_after env later j c q (bindE m k)"
  unfolding bindE_tryE using assms
  by (intro creates_tryE creates_cases) (auto intro: creates_quiet emit_steps claims.ord.db_combinators)

lemma creates_or_return:
  assumes "keeps (emits no_create) m" "\<And>k. keeps (on_db (claims_keep k)) m"
    and "\<And>x. creates_after env later j c q (k x)"
  shows "creates_after env later j c q (or_return m k)"
  unfolding or_return_def using assms
  by (intro creates_bindE creates_cases) (auto intro: creates_quiet emit_steps claims.ord.db_combinators)

lemma claim_link_creates:
  assumes "purchasable q"
  shows "creates_after env later j c q (claim_link env now later j c q r)"
  unfolding creates_after_def
proof
  fix w
  obtain x w2 where m: "MarkPaymentCreationUncertain (o_id r) True w = (x, w2)"
    by (cases "MarkPaymentCreationUncertain (o_id r) True w")
  have q: "idle w w2"
    using keepsD [OF order_store_emits(4), of no_create w "o_id r" True]
      keepsD [OF claims.upd.claim_keeps [of _ "o_id r"], where s = w] by (simp add: m idle_def undecided_def)
  show "idle w (snd (claim_link env now later j c q r w))
     \<or> (\<exists>r' w1 w2. purchasable q \<and> undecided w w1 \<and> emits no_create w w2
          \<and> MarkPaymentCreationUncertain (o_id r') True w1 = (Inr True, w2)
          \<and> claim_link env now later j c q r w = create_link env later j c q r' w2)"
  proof (cases "x = Inr True")
    case True
    then have "claim_link env now later j c q r w = create_link env later j c q r w2"
      using m by (simp add: claim_link_def tryE_def)
    then show ?thesis
      using True m q assms claims.ord.world.R_refl unfolding undecided_def idle_def by blast
  next
    case False
    define k where "k = (case x of Inl e \<Rightarrow> bindE (NotifyPaymentIssue ''claim_payment_creation_failed'' (o_id r))
                  (\<lambda>_. returnE (Inl e, Some r)) | Inr ok \<Rightarrow> lost_claim env now r)"
    have "keeps (emits no_create) k" "keeps (on_db (claims_keep i)) k" for i
      unfolding k_def by (intro emit_steps issue_quiet stages_quiet)
        (intro claims.pay_steps claim_stages)
    then have "idle w2 (snd (k w2))"
      unfolding idle_def undecided_def by (auto intro: keepsD)
    moreover have "claim_link env now later j c q r w = k w2"
      using m False by (auto simp: claim_link_def tryE_def k_def split: sum.splits)
    ultimately show ?thesis
      using q idle_trans by auto
  qed
qed

lemma payment_link_creates: "creates_after env later j c q (payment_link env now later j c q r)"
proof -
  note quiet = creates_quiet emit_steps issue_quiet claims.pay_steps
  have "creates_after env later j c q (or_return (check_offer q (Some r)) (\<lambda>_. claim_link env now later j c q r))"
  proof (cases "purchasable q")
    case True
    then show ?thesis
      by (intro creates_or_return stages_quiet claim_stages claim_link_creates)
  next
    case False
    then have "or_return (check_offer q (Some r)) (\<lambda>_. claim_link env now later j c q r)
        = returnE (Inl (errors_new ''invalid paid product request''), Some r)"
      by (simp add: check_offer_def refuse_def or_return_def)
    then show ?thesis by (simp add: quiet)
  qed
  then show ?thesis
    unfolding payment_link_def
    by (intro creates_cases; (assumption | intro quiet))
qed

lemma RequestPayment_stage:
  "creates_after env later j c q
     (or_return (payment_subscription env now j c q) (\<lambda>sub.
      or_return (payment_intent now sub q) (\<lambda>r. payment_link env now later j c q r)))"
  by (intro creates_or_return stages_quiet claim_stages payment_link_creates)

lemma create_link_sends:
  assumes "create_link env later j c q r w = (res, w')"
  shows "\<exists>es. trace w' = trace w @ EffProviderCreate (o_id r) (pr_price_cents q) (pr_currency q) # es
     \<and> list_all no_create es"
proof -
  let ?q = "create_request_of env j c q r"
  let ?w1 = "w\<lparr>trace := trace w @ [EffProviderCreate (o_id r) (pr_price_cents q) (pr_currency q)]\<rparr>"
  define k where "k = (case pe_create env (trace w) ?q of
     Inl e \<Rightarrow> provider_failed e r
   | Inr None \<Rightarrow> bindE (NotifyPaymentIssue ''provider_empty_response'' (o_id r)) (\<lambda>_. returnE (Inl [ErrProvider], Some r))
   | Inr (Some resp) \<Rightarrow> record_details env later resp r)"
  note steps = emit_steps issue_quiet order_store_emits
  have "keeps (emits no_create) (provider_failed e r)" for e
    unfolding provider_failed_def by (intro steps)
  moreover have "keeps (emits no_create) (record_details env later resp r)" for resp
    unfolding record_details_def save_link_def Let_def by (intro steps)
  ultimately have "keeps (emits no_create) k"
    unfolding k_def by (intro steps)
  moreover have "create_link env later j c q r w = k ?w1"
    by (simp add: create_link_def createE_def tryE_def k_def create_request_of_def)
  ultimately show ?thesis
    using emits_run [of no_create k ?w1 res w'] assms by auto
qed

text \<open>A run is idle, or it claimed an order and went on to ask the provider for its payment.\<close>

lemma RequestPayment_cases:
  assumes run: "RequestPayment env now later j c product w = (res, w')"
  obtains "idle w w'"
  | p q r w0 w1 w2 where "product = Some p" "GetProductByID (pr_id p) w = (Inr q, w0)" "purchasable q"
    "undecided w w1" "emits no_create w w2" "MarkPaymentCreationUncertain (o_id r) True w1 = (Inr True, w2)"
    "create_link env later j c q r w2 = (res, w')"
proof -
  define stage where "stage = (\<lambda>q. or_return (payment_subscription env now j c q) (\<lambda>sub.
        or_return (payment_intent now sub q) (\<lambda>r. payment_link env now later j c q r)))"
  show thesis
  proof (cases "pe_enabled env \<and> product \<noteq> None \<and> 0 < j \<and> pr_id (the product) \<noteq> 0")
    case True
    then obtain p where p: "product = Some p" "pr_id p \<noteq> 0" by auto
    obtain x w0 where g: "GetProductByID (pr_id p) w = (x, w0)"
      by (cases "GetProductByID (pr_id p) w")
    have i0: "idle w w0"
      using keepsD [OF sub_store_emits(10), of no_create w "pr_id p"] g
        keepsD [OF claims.ord.catalog_keep(2), where s = w] unfolding idle_def undecided_def by (simp, metis snd_conv)
    have k: "(case x of Inl e \<Rightarrow> bindE (NotifyPaymentIssue ''load_product_failed'' 0) (\<lambda>_. returnE (Inl e, None))
        | Inr q \<Rightarrow> stage q) w0 = (res, w')"
      using run True p g by (auto simp: RequestPayment_def requestPayment_def tryE_def stage_def split: sum.splits)
    show thesis
    proof (cases x)
      case (Inl e)
      let ?k = "bindE (NotifyPaymentIssue ''load_product_failed'' 0) (\<lambda>_. returnE ((Inl e, None) :: request_result))"
      have "keeps (emits no_create) ?k" "keeps (on_db (claims_keep i)) ?k" for i
        by (intro emit_steps issue_quiet) (intro claims.pay_steps)
      then have "idle w0 (snd (?k w0))"
        unfolding idle_def undecided_def by (auto intro: keepsD)
      then show thesis
        using that(1) idle_trans [OF i0] k Inl by simp
    next
      case (Inr q)
      have "creates_after env later j c q (stage q)"
        unfolding stage_def by (rule RequestPayment_stage)
      from creates_step [OF i0 this] show thesis
        using that(1) that(2) [OF p(1) g [unfolded Inr]] k Inr by auto
    qed
  next
    case False
    then have "w' = w"
      using run by (auto simp: RequestPayment_def requestPayment_def returnE_def split: if_splits option.splits)
    then show thesis
      using that(1) by (simp add: idle_def undecided_def emits.R_refl claims.ord.world.R_refl)
  qed
qed

lemma RequestPayment_trace:
  assumes "RequestPayment env now later j c product w = (res, w')"
  shows "\<exists>es. trace w' = trace w @ es"
  using assms
proof (rule RequestPayment_cases)
  fix q r w2
  assume "emits no_create w w2" "create_link env later j c q r w2 = (res, w')"
  then show ?thesis
    using create_link_sends [of env later j c q r w2 res w'] by (auto simp: emits_def)
qed (auto simp: idle_def emits_def)

text \<open>A run that contacted the provider.\<close>

lemma RequestPayment_creates:
  assumes run: "RequestPayment env now later j c product w = (res, w')"
    and sent: "trace w' = trace w @ es" "EffProviderCreate i a cur \<in> set es"
  obtains p q r w0 w1 w2 where "product = Some p" "GetProductByID (pr_id p) w = (Inr q, w0)" "purchasable q"
    "undecided w w1" "MarkPaymentCreationUncertain i True w1 = (Inr True, w2)"
    "create_link env later j c q r w2 = (res, w')" "o_id r = i"
    "a = pr_price_cents q" "cur = pr_currency q"
    "filter (\<lambda>e. \<not> no_create e) es = [EffProviderCreate i a cur]"
proof -
  have loud: "\<not> emits no_create w w'"
    using sent by (auto simp: emits_def no_create_def list_all_iff)
  obtain p q r w0 w1 w2 where p: "product = Some p" "GetProductByID (pr_id p) w = (Inr q, w0)"
    and 1: "purchasable q" "undecided w w1" "emits no_create w w2"
      "MarkPaymentCreationUncertain (o_id r) True w1 = (Inr True, w2)" "create_link env later j c q r w2 = (res, w')"
    using run by (rule RequestPayment_cases) (use loud in \<open>auto simp: idle_def\<close>)
  obtain es1 where es1: "trace w2 = trace w @ es1" "list_all no_create es1"
    using 1(3) by (auto simp: emits_def)
  obtain es2 where es2: "trace w' = trace w2 @ EffProviderCreate (o_id r) (pr_price_cents q) (pr_currency q) # es2"
      "list_all no_create es2"
    using create_link_sends [OF 1(5)] by blast
  have es: "es = es1 @ EffProviderCreate (o_id r) (pr_price_cents q) (pr_currency q) # es2"
    using sent(1) es1(1) es2(1) by simp
  moreover have "EffProviderCreate i a cur \<notin> set es1" "EffProviderCreate i a cur \<notin> set es2"
    using es1(2) es2(2) by (auto simp: list_all_iff no_create_def)
  ultimately have eq: "o_id r = i" "a = pr_price_cents q" "cur = pr_currency q"
    using sent(2) by auto
  have f: "filter (\<lambda>e. \<not> no_create e) es1 = []" "filter (\<lambda>e. \<not> no_create e) es2 = []"
    using es1(2) es2(2) by (simp_all add: filter_empty_conv list_all_iff)
  have "filter (\<lambda>e. \<not> no_create e) es = [EffProviderCreate i a cur]"
    using eq by (simp add: es f) (simp add: no_create_def)
  then show thesis
    using that [OF p(1,2) 1(1,2)] 1(4) 1(5) eq by simp
qed

definition same_products :: "db \<Rightarrow> db \<Rightarrow> bool" where
  "same_products d d' \<longleftrightarrow> products d' = products d"

interpretation catalog: db_contract same_products
  by unfold_locales (auto simp: same_products_def)

text \<open>C13. The customer pays the price of the catalogue: a request contacts the provider at most once,
  for the price and the currency of the product it was asked for, as stored, and only when that
  product is for sale.\<close>

theorem RequestPayment_price:
  assumes run: "RequestPayment env now later j c (Some p) w = (res, w')"
    and sent: "trace w' = trace w @ es" "EffProviderCreate i a cur \<in> set es"
    and ok: "rely same_products w"
  shows "\<exists>q. find_product (pr_id p) (db w) = Inr q \<and> pr_is_active q \<and> 0 < a
    \<and> filter (\<lambda>e. \<not> no_create e) es = [EffProviderCreate i (pr_price_cents q) (pr_currency q)]"
proof -
  from run sent obtain q w0 where 1: "GetProductByID (pr_id p) w = (Inr q, w0)" "purchasable q"
    "a = pr_price_cents q" "cur = pr_currency q" "filter (\<lambda>e. \<not> no_create e) es = [EffProviderCreate i a cur]"
    by (rule RequestPayment_creates) auto
  have "find_product (pr_id p) (db (step_other w)) = Inr q"
    using 1(1) stmtE_ok(1) [of "fetch (find_product (pr_id p))" w q w0]
    by (auto simp: GetProductByID_def queryE_def fetch_def split: sum.splits)
  moreover have "products (db (step_other w)) = products (db w)"
    using catalog.step_other_R [OF ok] by (simp add: same_products_def)
  ultimately show ?thesis
    using 1(2-5) by (auto simp: find_product_def purchasable_def)
qed

lemma claim_takes:
  assumes run: "MarkPaymentCreationUncertain i True w = (Inr True, w')"
  shows "\<not> held i (db (step_other w))"
    and "rely (claims_keep i) w \<Longrightarrow> orders_wf (db w) \<Longrightarrow> held i (db w') \<and> orders_wf (db w')"
proof -
  let ?u = "stmtE (update_orders (uncertain_claim i True) (set_uncertain True))"
  let ?d = "db (step_other w)"
  obtain n w1 where u: "?u w = (Inr n, w1)" and n: "n = 1"
    and rest: "(tryE (queryE (find_order (\<lambda>r. o_id r = i))) (\<lambda>loaded.
            bindE (case loaded of Inl _ \<Rightarrow> returnE ()
                   | Inr r \<Rightarrow> insertAuditLogBestEffort (AuditPaymentCreationUncertain r)) (\<lambda>_.
            returnE (n = 1)))) w1 = (Inr True, w')"
    using run unfolding MarkPaymentCreationUncertain_def
    by (elim bindE_ok) (auto simp: returnE_def split: if_splits)
  have d1: "db w1 = ?d\<lparr>orders := update_where (uncertain_claim i True) (set_uncertain True) (orders ?d)\<rparr>"
    "count_where (uncertain_claim i True) (orders ?d) = 1"
    using update_orders_ok [OF stmtE_ok(1) [OF u]] n by simp_all
  then have "count_where (uncertain_claim i True) (orders ?d) \<noteq> 0"
    by simp
  then obtain x where x: "x \<in> set (orders ?d)" "uncertain_claim i True x"
    unfolding count_where_pos by blast
  then show "\<not> held i ?d"
    by (auto simp: held_def)
  assume ok: "rely (claims_keep i) w" "orders_wf (db w)"
  have "orders_wf ?d"
    using claims.ord.step_other_R [OF ok(1)] ok(2) by (simp add: claims_keep_def orders_evolve_def)
  then have "i \<le> order_seq ?d"
    using x by (auto simp: orders_wf_def uncertain_claim_def pending_with_id_def)
  then have held: "held i (db w1)"
    by (simp add: held_def d1(1) ball_update_where claim_free)
  have uk: "keeps (on_db (claims_keep i)) ?u"
    by (rule claims.upd.update_orders_keeps) (auto simp: row_steps row_dated row_claims)
  have wf1: "orders_wf (db w1)" "rely (claims_keep i) w1"
    using keeps_run [OF uk ok(1) u] ok(2) by (auto simp: claims_keep_def orders_evolve_def)
  have "keeps (on_db (claims_keep i)) (tryE (queryE (find_order (\<lambda>r. o_id r = i))) (\<lambda>loaded.
            bindE (case loaded of Inl _ \<Rightarrow> returnE ()
                   | Inr r \<Rightarrow> insertAuditLogBestEffort (AuditPaymentCreationUncertain r)) (\<lambda>_.
            returnE (n = 1))))"
    by (intro claims.ord.db_combinators claims.ord.audit_keeps)
  from keeps_run(1) [OF this wf1(2) rest] show "held i (db w') \<and> orders_wf (db w')"
    using held wf1(1) by (auto simp: claims_keep_def orders_evolve_def)
qed

text \<open>
  What may happen to the orders after a request: requests of any client, whatever the provider answers
  them, its callbacks, the background passes, and in between anything else that respects the contract
  (the services on subscriptions, bindings and campaigns do), with any script of faults and of other
  sessions' statements that respect it for what follows.
\<close>

inductive payment_action :: "uint \<Rightarrow> world \<Rightarrow> world \<Rightarrow> bool" for i where
  Request: "proper_ids env \<Longrightarrow> RequestPayment env now later j c product w = (r, w') \<Longrightarrow> payment_action i w w'"
| Confirm: "ConfirmPayment env now p n c c' w = (r, w') \<Longrightarrow> payment_action i w w'"
| ProviderCancel: "CancelPaymentByProvider env now p n c c' w = (r, w') \<Longrightarrow> payment_action i w w'"
| Fees: "SyncProviderFees env limit w = Some (r, w') \<Longrightarrow> payment_action i w w'"
| Reconcile: "ReconcilePendingOrders env now limit w = Some (r, w') \<Longrightarrow> payment_action i w w'"
| Meanwhile: "claims_keep i (db w) (db w') \<Longrightarrow> rely (claims_keep i) w' \<Longrightarrow> payment_action i w w'"

inductive payment_history :: "uint \<Rightarrow> world \<Rightarrow> world \<Rightarrow> bool" for i where
  Start: "payment_history i w w"
| Next: "payment_history i w w1 \<Longrightarrow> payment_action i w1 w2 \<Longrightarrow> payment_history i w w2"

text \<open>A request about a held order leaves it held, even when the provider rejects it: the rejected
  request is about another order, for it claimed the one it asked for.\<close>

lemma request_claims:
  assumes run: "RequestPayment env now later j c product w = (res, w')" and env: "proper_ids env"
    and ok: "rely (claims_keep i) w" "orders_wf (db w)" "held i (db w)"
  shows "claims_keep i (db w) (db w') \<and> rely (claims_keep i) w'"
  using run
proof (rule RequestPayment_cases)
  assume "idle w w'"
  then show ?thesis
    using ok(1) by (auto simp: idle_def undecided_def on_db_def)
next
  fix q r w1 w2
  assume u: "undecided w w1" and m: "MarkPaymentCreationUncertain (o_id r) True w1 = (Inr True, w2)"
    and l: "create_link env later j c q r w2 = (res, w')"
  have k1: "claims_keep i (db w) (db w1)" "rely (claims_keep i) w1"
    using u ok(1) by (auto simp: undecided_def on_db_def)
  then have h1: "held i (db w1)" "orders_wf (db w1)"
    using ok by (simp_all add: claims_keep_def orders_evolve_def)
  have "o_id r \<noteq> i"
  proof
    assume "o_id r = i"
    then have "\<not> held i (db (step_other w1))"
      using claim_takes(1) m by simp
    then show False
      using claims.ord.step_other_R [OF k1(2)] h1 by (simp add: claims_keep_def)
  qed
  then have kl: "keeps (on_db (claims_keep i)) (create_link env later j c q r)"
    using create_link_claims env by blast
  have k2: "claims_keep i (db w1) (db w2)" "rely (claims_keep i) w2"
    using keeps_run [OF claims.upd.claim_keeps k1(2) m] by simp_all
  have "claims_keep i (db w2) (db w')" "rely (claims_keep i) w'"
    using keeps_run [OF kl k2(2) l] by simp_all
  then show ?thesis
    using k1(1) k2(1) claims_keep_trans by blast
qed

lemma action_claims:
  assumes "payment_action i w w'" "rely (claims_keep i) w" "orders_wf (db w)" "held i (db w)"
  shows "claims_keep i (db w) (db w') \<and> rely (claims_keep i) w'"
  using assms
proof (induction rule: payment_action.induct)
  case (Request env now later j c product w r w')
  then show ?case using request_claims by blast
next
  case (Confirm env now p n c c' w r w')
  then show ?case using keeps_run [OF claims.confirm_keeps(4)] by blast
next
  case (ProviderCancel env now p n c c' w r w')
  then show ?case using keeps_run [OF claims.cancel_keeps] by blast
next
  case (Fees env limit w r w')
  then show ?case using claims.passes_keep(1) by (fastforce simp: on_db_def)
next
  case (Reconcile env now limit w r w')
  then show ?case using claims.passes_keep(2) by (fastforce simp: on_db_def)
qed blast

lemma history_claims:
  assumes "payment_history i w w'" "rely (claims_keep i) w" "orders_wf (db w)" "held i (db w)"
  shows "rely (claims_keep i) w' \<and> orders_wf (db w') \<and> held i (db w')"
  using assms
proof (induction rule: payment_history.induct)
  case (Next w w1 w2)
  then have 1: "rely (claims_keep i) w1" "orders_wf (db w1)" "held i (db w1)"
    by simp_all
  have "claims_keep i (db w1) (db w2)" "rely (claims_keep i) w2"
    using action_claims [OF Next.hyps(2) 1] by simp_all
  then show ?case
    using 1 unfolding claims_keep_def orders_evolve_def by blast
qed simp

text \<open>C14. No order is charged twice: suppose a request asked the provider for a payment of an order, and
  the provider does not reject requests definitely (its answer may be lost, unusable or impossible to
  store). Then come any requests, of whatever clients and with whatever answers, rejections included,
  confirmations and cancellations by the provider, fee passes and reconciliations, in any number and
  order. No later request asks for another payment of that order. All of them may fail at any statement,
  and other sessions may write between their statements anything but the release of a claim on that order.
  (The transaction ids the provider's library parses are not empty.)\<close>

theorem RequestPayment_no_double_charge:
  assumes first: "RequestPayment env now later j c product w = (res, w')"
    and sent: "trace w' = trace w @ es" "EffProviderCreate i a cur \<in> set es"
    and env: "proper_ids env" "never_rejects env"
    and ok: "rely (claims_keep i) w" "orders_wf (db w)"
    and between: "payment_history i w' v"
    and second: "RequestPayment env2 now2 later2 j2 c2 product2 v = (res2, v')" "trace v' = trace v @ es2"
  shows "EffProviderCreate i a2 cur2 \<notin> set es2"
proof
  assume again: "EffProviderCreate i a2 cur2 \<in> set es2"
  from first sent obtain q r w1 w2 where 1: "undecided w w1" "MarkPaymentCreationUncertain i True w1 = (Inr True, w2)"
    "create_link env later j c q r w2 = (res, w')"
    by (rule RequestPayment_creates)
  have k1: "claims_keep i (db w) (db w1)" "rely (claims_keep i) w1"
    using 1(1) ok(1) by (auto simp: undecided_def on_db_def)
  then have "orders_wf (db w1)"
    using ok(2) by (simp add: claims_keep_def orders_evolve_def)
  then have h2: "held i (db w2)" "orders_wf (db w2)"
    using claim_takes(2) [OF 1(2) k1(2)] by simp_all
  have "keeps (on_db (claims_keep i)) (create_link env later j c q r)"
    using create_link_claims env by blast
  from keeps_run [OF this keeps_run(2) [OF claims.upd.claim_keeps k1(2) 1(2)] 1(3)]
  have h': "rely (claims_keep i) w'" "orders_wf (db w')" "held i (db w')"
    using h2 by (simp_all add: claims_keep_def orders_evolve_def)
  have hv: "rely (claims_keep i) v" "orders_wf (db v)" "held i (db v)"
    using history_claims [OF between h'] by simp_all
  from second(1,2) again obtain v1 v2 where 2: "undecided v v1" "MarkPaymentCreationUncertain i True v1 = (Inr True, v2)"
    by (rule RequestPayment_creates)
  have k2: "claims_keep i (db v) (db v1)" "rely (claims_keep i) v1"
    using 2(1) hv(1) by (auto simp: undecided_def on_db_def)
  then have "claims_keep i (db v) (db (step_other v1))"
    using claims.ord.step_other_R claims_keep_trans by blast
  then have "held i (db (step_other v1))"
    using hv by (auto simp: claims_keep_def)
  then show False
    using claim_takes(1) [OF 2(2)] by simp
qed

end
