(* ===== verification/Background_Laws.thy ===== *)
theory Background_Laws
  imports Request_Laws
begin

text \<open>
  The background passes over the orders (\<open>SyncProviderFees\<close>, \<open>ReconcilePendingOrders\<close>,
  \<open>internal/service/order.go\<close>) are loops over pages; they are \<open>partial_function\<close>s, so that ending is
  something to prove. The measure is the number of orders past the last page.
\<close>

section \<open>The background passes end\<close>

definition ids_within :: "db \<Rightarrow> db \<Rightarrow> bool" where
  "ids_within d d' \<longleftrightarrow> o_id ` set (orders d') \<subseteq> o_id ` set (orders d)"

lemma ids_within_same: "orders d' = orders d \<Longrightarrow> ids_within d d'"
  by (simp add: ids_within_def)

interpretation bounded: store_updates ids_within
proof
  show "ids_within d d'" if "update_subs P f d = Inr (n, d')" for P f d n d'
    using subscription_frames(1) [OF that] by (simp add: ids_within_same)
  show "ids_within d d'" if "insert_subscription s d = Inr (s', d')" for s d s' d'
    using subscription_frames(2) [OF that] by (simp add: ids_within_same)
  show "ids_within d d'" if "upsert_invite c j d = Inr (u, d')" for c j d u d'
    using subscription_frames(3) [OF that] by (simp add: ids_within_same)
  show "ids_within d d'" if "update_bindings P f d = Inr (n, d')" for P f d n d'
    using binding_frames(1) [OF that] by (simp add: ids_within_same)
  show "ids_within d d'" if "insert_binding sn d = Inr ((), d')" for sn d d'
    using binding_frames(3) [OF that] by (simp add: ids_within_same)
  show "ids_within d d'" if "upsert_binding sn d = Inr ((), d')" for sn d d'
    using binding_frames(4) [OF that] by (simp add: ids_within_same)
  show "ids_within d d'" if "delete_subs P d = Inr (gone, d')" for P d gone d'
    using delete_subs_ok [OF that] by (auto simp: ids_within_def)
  show "ids_within d d'" if "update_orders P f d = Inr (n, d')"
    "\<And>r. P r \<Longrightarrow> order_evolves r (f r) \<and> (paid_dated r \<longrightarrow> paid_dated (f r))" for P f d n d'
    using update_orders_ok [OF that(1)] that(2)
    by (auto simp: ids_within_def set_update_where order_evolves_def simp del: if_split split: if_splits)
qed (auto simp: ids_within_def binding_frames(2))

text \<open>What is left of a pass: the orders past the last page.\<close>

definition orders_left :: "uint \<Rightarrow> db \<Rightarrow> nat" where
  "orders_left i d = card {j \<in> o_id ` set (orders d). i < j}"

lemma orders_left_less:
  assumes "ids_within d d'" "j \<in> o_id ` set (orders d)" "i < j"
  shows "orders_left j d' < orders_left i d"
  unfolding orders_left_def
proof (rule psubset_card_mono)
  show "{k \<in> o_id ` set (orders d'). j < k} \<subset> {k \<in> o_id ` set (orders d). i < k}"
    using assms by (auto simp: ids_within_def)
qed simp

definition ids_positive :: "db \<Rightarrow> bool" where
  "ids_positive d \<longleftrightarrow> 0 \<notin> o_id ` set (orders d)"

lemma ids_positive_within: "ids_within d d' \<Longrightarrow> ids_positive d \<Longrightarrow> ids_positive d'"
  by (auto simp: ids_within_def ids_positive_def)

lemma fee_page_last:
  assumes "GetPaidOrdersWithoutProviderFeeAfterID i n w = (Inr page, w1)" "page \<noteq> []" "ids_positive (db w1)"
  shows "o_id (last page) \<in> o_id ` set (orders (db w1))" "i < o_id (last page)"
proof -
  have "page = limit_rows n (sort_key o_id (filter (\<lambda>r. fee_missing r \<and> (0 < i \<longrightarrow> i < o_id r)) (orders (db w1))))"
    using assms(1) unfolding GetPaidOrdersWithoutProviderFeeAfterID_def query_def by (auto dest: stmtE_ok(1))
  then have "last page \<in> set (filter (\<lambda>r. fee_missing r \<and> (0 < i \<longrightarrow> i < o_id r)) (orders (db w1)))"
    using last_in_set [OF assms(2)] by (auto simp: limit_rows_def dest: in_set_takeD split: if_splits)
  then show "o_id (last page) \<in> o_id ` set (orders (db w1))" "i < o_id (last page)"
    using assms(3) by (auto simp: ids_positive_def intro: gr_zeroI)
qed

lemma fee_pages_end:
  "rely ids_within w \<Longrightarrow> ids_positive (db w) \<Longrightarrow> \<exists>r. fee_pages env n i errs w = Some r"
proof (induction "orders_left i (db w)" arbitrary: i errs w rule: less_induct)
  case less
  obtain q w1 where q: "GetPaidOrdersWithoutProviderFeeAfterID i n w = (q, w1)"
    by (cases "GetPaidOrdersWithoutProviderFeeAfterID i n w")
  have k1: "ids_within (db w) (db w1)" "rely ids_within w1"
    using keeps_run [OF bounded.ord.lookups_keep(4) less.prems(1) q] by simp_all
  then have pos: "ids_positive (db w1)"
    using less.prems(2) ids_positive_within by blast
  show ?case
  proof (cases "\<exists>page. q = Inr page \<and> page \<noteq> []")
    case False
    then show ?thesis
      using q by (subst fee_pages.simps) (auto split: sum.splits)
  next
    case True
    then obtain page where page: "q = Inr page" "page \<noteq> []" by blast
    obtain es w2 where p: "fee_page env errs page w1 = (es, w2)"
      by (cases "fee_page env errs page w1")
    have k2: "ids_within (db w1) (db w2)" "rely ids_within w2"
      using keeps_run [OF bounded.fee_page_keeps k1(2) p] by simp_all
    note last = fee_page_last [OF q [unfolded page(1)] page(2) pos]
    have "o_id (last page) \<in> o_id ` set (orders (db w))"
      using last(1) k1(1) by (auto simp: ids_within_def)
    then have "orders_left (o_id (last page)) (db w2) < orders_left i (db w)"
      using last(2) bounded.ord.db_trans [OF k1(1) k2(1)] by (intro orders_left_less)
    then have "\<exists>r. fee_pages env n (o_id (last page)) es' w2 = Some r" for es'
      using less.hyps k2(2) ids_positive_within [OF k2(1) pos] by blast
    then show ?thesis
      using q page p by (subst fee_pages.simps) (auto split: sum.splits)
  qed
qed

lemma stale_page_last:
  assumes "GetStalePendingOrdersAfterID t i n w = (Inr page, w1)" "page \<noteq> []"
  shows "o_id (last page) \<in> o_id ` set (orders (db w1))" "i < o_id (last page)"
proof -
  have "page = take n (sort_key o_id (filter (\<lambda>r. stale_pending t r \<and> i < o_id r) (orders (db w1))))"
    using assms(1) unfolding GetStalePendingOrdersAfterID_def query_def by (auto dest: stmtE_ok(1))
  then have "last page \<in> set (filter (\<lambda>r. stale_pending t r \<and> i < o_id r) (orders (db w1)))"
    using last_in_set [OF assms(2)] by (auto dest: in_set_takeD)
  then show "o_id (last page) \<in> o_id ` set (orders (db w1))" "i < o_id (last page)"
    by auto
qed

lemma reconcile_pages_end:
  "rely ids_within w \<Longrightarrow> \<exists>r. reconcile_pages env now n i errs w = Some r"
proof (induction "orders_left i (db w)" arbitrary: i errs w rule: less_induct)
  case less
  obtain q w1 where q: "GetStalePendingOrdersAfterID (now - pendingOrderGrace) i n w = (q, w1)"
    by (cases "GetStalePendingOrdersAfterID (now - pendingOrderGrace) i n w")
  have k1: "ids_within (db w) (db w1)" "rely ids_within w1"
    using keeps_run [OF bounded.ord.lookups_keep(3) less.prems q] by simp_all
  show ?case
  proof (cases "\<exists>page. q = Inr page \<and> page \<noteq> []")
    case False
    then show ?thesis
      using q by (subst reconcile_pages.simps) (auto split: sum.splits)
  next
    case True
    then obtain page where page: "q = Inr page" "page \<noteq> []" by blast
    obtain es w2 where p: "reconcile_page env now errs page w1 = (es, w2)"
      by (cases "reconcile_page env now errs page w1")
    have k2: "ids_within (db w1) (db w2)" "rely ids_within w2"
      using keeps_run [OF bounded.reconcile_page_keeps k1(2) p] by simp_all
    note last = stale_page_last [OF q [unfolded page(1)] page(2)]
    have "o_id (last page) \<in> o_id ` set (orders (db w))"
      using last(1) k1(1) by (auto simp: ids_within_def)
    then have "orders_left (o_id (last page)) (db w2) < orders_left i (db w)"
      using last(2) bounded.ord.db_trans [OF k1(1) k2(1)] by (intro orders_left_less)
    then have "\<exists>r. reconcile_pages env now n (o_id (last page)) es' w2 = Some r" for es'
      using less.hyps k2(2) by blast
    then show ?thesis
      using q page p by (subst reconcile_pages.simps) (auto split: sum.splits)
  qed
qed

text \<open>C15. The background passes over the orders end, whatever the provider answers, the panels do and
  the database fails at, as long as no session adds orders meanwhile.\<close>

theorem payment_passes_end:
  assumes "rely ids_within w" "ids_positive (db w)"
  shows "(\<exists>r. SyncProviderFees env limit w = Some r) \<and> (\<exists>r. ReconcilePendingOrders env now limit w = Some r)"
  using fee_pages_end [OF assms] reconcile_pages_end [OF assms(1)]
  by (auto simp: SyncProviderFees_def ReconcilePendingOrders_def)

end
