(* ===== verification/Payment_Witnesses.thy ===== *)
theory Payment_Witnesses
  imports Subscription_Witnesses Background_Laws
begin

text \<open>
  The properties of the payment flow, applied to the sample installation.
\<close>

definition good_pay :: pay_env where
  "good_pay = \<lparr>pe_enabled = True, pe_sub = Some good_svc, pe_sync = Some good_env, pe_uuid = (\<lambda>c. if c = [] then None else Some (c, 4)),
     pe_create = (\<lambda>_ q. Inr (Some \<lparr>cs_transaction_id = ''p2'', cs_url = ''https://pay'', cs_redirect = [],
                                 cs_expires_in = ''00:15:00''\<rparr>)),
     pe_status = (\<lambda>_ _. Inr (Some \<lparr>ts_status = ''CONFIRMED'', ts_amount = ''199'', ts_currency = ''RUB'',
                                 ts_commission = ''1.5''\<rparr>)),
     pe_lock = (\<lambda>_ _. None), pe_budget = (\<lambda>_. None), pe_admin = True, pe_bot_username = ''@bot''\<rparr>"

definition confirms :: "(error + confirmation) \<times> world \<Rightarrow> bool" where
  "confirms x = (case fst x of Inr c \<Rightarrow> pc_activated c \<and> pc_order c \<noteq> None | Inl _ \<Rightarrow> False)"

lemma confirmsE: "confirms x \<Longrightarrow> \<exists>c r w. x = (Inr c, w) \<and> pc_activated c \<and> pc_order c = Some r"
  by (cases x) (auto simp: confirms_def split: sum.splits)

abbreviation payment :: "(error + confirmation) \<times> world" where
  "payment \<equiv> ConfirmPayment good_pay day0 ''p1'' [] ''199.00'' ''RUB'' (world_of db0)"

lemma sample_payment: "confirms payment"
  by code_simp

lemma sample_chargeback:
  "(case fst (CancelPaidOrderAndDowngradeCAS ''platega'' ''p1'' day0 1 (Some ApplyPlanToSubscriptionInTx) (world_of db1)) of
      Inr (Some r) \<Rightarrow> cb_transitioned r | _ \<Rightarrow> False)"
  by code_simp

lemma chargeback_downgrades_iff_witness:
  "\<exists>res w' s. CancelPaidOrderAndDowngradeCAS ''platega'' ''p1'' day0 1 (Some ApplyPlanToSubscriptionInTx) (world_of db1)
      = (Inr (Some res), w') \<and> cb_downgraded res \<and> subscriptions (db w') = [s] \<and> s_plan_id s = 1 \<and> s_expires_at s = None"
proof -
  let ?cancel = "CancelPaidOrderAndDowngradeCAS ''platega'' ''p1'' day0 1 (Some ApplyPlanToSubscriptionInTx) (world_of db1)"
  obtain res w' where run: "?cancel = (Inr (Some res), w')" "cb_transitioned res"
    using sample_chargeback by (cases "?cancel") (auto split: sum.splits option.splits)
  have wf: "orders_wf (db (step_other (world_of db1)))" using db1_wf by simp
  note result = chargeback_downgrades_iff [OF run wf]
  obtain r where "r \<in> set (orders db1)" "cb_order res = r\<lparr>o_status := OrderStatusCanceled\<rparr>"
    "cb_was_paid res \<longleftrightarrow> o_status r = OrderStatusPaid"
    using result by auto
  then have r: "cb_order res = paid_order\<lparr>o_status := OrderStatusCanceled\<rparr>" "cb_was_paid res"
    by (simp_all add: db1_def paid_order_def)
  have "find_subscription 7 db1 = Inr paid_sub" "s_status paid_sub = SubscriptionStatusActive"
    "o_subscription_id paid_order = 7" "subscriptions db1 = [paid_sub]" "orders db1 = [paid_order]" "s_id paid_sub = 7"
    by code_simp+
  then show ?thesis
    using result run(1) r by auto
qed

lemma ConfirmPayment_pays_in_full_witness:
  "\<exists>c w' r paid. payment = (Inr c, w') \<and> pc_order c = Some r \<and> o_status r = OrderStatusPaid
     \<and> ParseCallbackAmount ''199.00'' = Inr paid \<and> o_amount_cents r \<le> paid"
proof -
  obtain c w' where run: "payment = (Inr c, w')" "pc_activated c"
    using confirmsE [OF sample_payment] by blast
  show ?thesis
    using ConfirmPayment_pays_in_full [OF run] run(1) db0_wf by auto
qed

lemma sample_redelivery:
  "let w = world_of (db (snd payment)) in
   case fst (ConfirmPayment good_pay (day0 + hour) ''p1'' [] ''199.00'' ''RUB'' w) of
     Inr c \<Rightarrow> pc_order c \<noteq> None | Inl _ \<Rightarrow> False"
  by code_simp

lemma ConfirmPayment_once_witness:
  "\<exists>c r w' c2 r2 v'. payment = (Inr c, w') \<and> pc_activated c \<and> pc_order c = Some r
    \<and> ConfirmPayment good_pay (day0 + hour) ''p1'' [] ''199.00'' ''RUB'' (world_of (db w')) = (Inr c2, v')
    \<and> pc_order c2 = Some r2 \<and> \<not> (pc_activated c2 \<and> o_id r2 = o_id r)"
proof -
  obtain c r w' where run: "payment = (Inr c, w')" "pc_activated c" "pc_order c = Some r"
    using confirmsE [OF sample_payment] by blast
  obtain c2 v' where again: "ConfirmPayment good_pay (day0 + hour) ''p1'' [] ''199.00'' ''RUB'' (world_of (db w')) = (Inr c2, v')"
    and "pc_order c2 \<noteq> None"
    using sample_redelivery run(1)
    by (cases "ConfirmPayment good_pay (day0 + hour) ''p1'' [] ''199.00'' ''RUB'' (world_of (db w'))")
      (auto simp: Let_def split: sum.splits)
  then obtain r2 where r2: "pc_order c2 = Some r2"
    by blast
  have "\<not> (pc_activated c2 \<and> o_id r2 = o_id r)"
    by (rule ConfirmPayment_once [OF run _ _ _ _ again r2]) (simp_all add: db0_wf orders.db_refl)
  then show ?thesis
    using run again r2 by blast
qed

lemma sample_underpaid: "fails (ConfirmPayment good_pay day0 ''p1'' [] ''198.99'' ''RUB'' (world_of db0))"
  by code_simp

lemma ConfirmPayment_grants_only_paid_witness:
  "\<exists>e w'. ConfirmPayment good_pay day0 ''p1'' [] ''198.99'' ''RUB'' (world_of db0) = (Inl e, w')
     \<and> subscriptions (db w') = [user_sub]"
proof -
  obtain e w' where run: "ConfirmPayment good_pay day0 ''p1'' [] ''198.99'' ''RUB'' (world_of db0) = (Inl e, w')"
    using failsE [OF sample_underpaid] by blast
  then show ?thesis
    using ConfirmPayment_grants_only_paid [OF run] by (simp add: db0_def)
qed

text \<open>An order canceled before its payment arrived.\<close>

definition db7 :: db where
  "db7 = db0\<lparr>orders := [pending_order\<lparr>o_status := OrderStatusCanceled\<rparr>]\<rparr>"

lemma ConfirmPayment_late_witness:
  "\<exists>w'. ConfirmPayment good_pay day0 ''p1'' [] ''199.00'' ''RUB'' (world_of db7)
      = (Inr (acknowledged (Some (hd (orders db7)))), w')
    \<and> db w' = db7 \<and> trace w' = [EffPaymentIssue ''late_confirmed_callback'' 1]"
proof -
  have parse: "ParseCallbackAmount ''199.00'' = Inr 19900" by code_simp
  have found: "find_order (of_payment PlategaProvider ''p1'') (db (world_of db7)) = Inr (hd (orders db7))" by code_simp
  have row: "o_currency (hd (orders db7)) = ''RUB''" "o_amount_cents (hd (orders db7)) \<le> 19900"
    "o_status (hd (orders db7)) = OrderStatusCanceled" "o_id (hd (orders db7)) = 1"
    by code_simp+
  show ?thesis
    using ConfirmPayment_late [OF calm_world_of, of good_pay db7 "''p1''" _ "''RUB''" "''199.00''" 19900 day0 "[]",
        OF _ _ _ found _ parse] row
    by (simp add: good_pay_def uuid_nil_def world_of_def)
qed


text \<open>The first purchase of a product, and the same request again.\<close>

definition db8 :: db where "db8 = db0\<lparr>orders := [], order_seq := 0\<rparr>"

abbreviation purchase :: "world \<Rightarrow> (error + request_result) \<times> world" where
  "purchase \<equiv> RequestPayment good_pay day0 day0 100 ''bob'' (Some month)"

lemma sample_purchase: "EffProviderCreate 1 19900 ''RUB'' \<in> set (trace (snd (purchase (world_of db8))))"
  by code_simp

lemma purchase_run:
  obtains res w' where "purchase (world_of db8) = (res, w')" "trace w' = trace (world_of db8) @ trace w'"
    "EffProviderCreate 1 19900 ''RUB'' \<in> set (trace w')"
proof -
  obtain res w' where run: "purchase (world_of db8) = (res, w')"
    by (cases "purchase (world_of db8)")
  show thesis
    by (rule that [OF run]) (use sample_purchase run in \<open>simp_all add: world_of_def\<close>)
qed

lemma RequestPayment_price_witness:
  "\<exists>res w'. purchase (world_of db8) = (res, w')
    \<and> filter (\<lambda>e. \<not> no_create e) (trace w') = [EffProviderCreate 1 (pr_price_cents month) (pr_currency month)]"
proof -
  obtain res w' where run: "purchase (world_of db8) = (res, w')" "trace w' = trace (world_of db8) @ trace w'"
      "EffProviderCreate 1 19900 ''RUB'' \<in> set (trace w')"
    by (rule purchase_run)
  have "find_product (pr_id month) (db (world_of db8)) = Inr month"
    by code_simp
  then show ?thesis
    using run(1) RequestPayment_price [OF run] by simp
qed

text \<open>The second purchase comes after a third one of the same client and a pass over the fees.\<close>

definition fees_after :: "world \<Rightarrow> world" where
  "fees_after w = (case SyncProviderFees good_pay 50 w of None \<Rightarrow> w | Some (r, w') \<Rightarrow> w')"

lemma RequestPayment_no_double_charge_witness:
  "\<exists>res w'. purchase (world_of db8) = (res, w') \<and> EffProviderCreate 1 19900 ''RUB'' \<in> set (trace w')
    \<and> (\<forall>a c. EffProviderCreate 1 a c \<notin> set (drop (length (trace (fees_after (snd (purchase w')))))
         (trace (snd (purchase (fees_after (snd (purchase w'))))))))"
proof -
  obtain res w' where run: "purchase (world_of db8) = (res, w')" "trace w' = trace (world_of db8) @ trace w'"
      "EffProviderCreate 1 19900 ''RUB'' \<in> set (trace w')"
    by (rule purchase_run)
  have env: "proper_ids good_pay" "never_rejects good_pay"
    by (simp_all add: proper_ids_def never_rejects_def good_pay_def)
  obtain r1 v1 where third: "purchase w' = (r1, v1)"
    by (cases "purchase w'")
  let ?v = "fees_after v1"
  have h1: "payment_history 1 w' v1"
    by (rule payment_history.Next [OF payment_history.Start payment_action.Request [OF env(1) third]])
  have h: "payment_history 1 w' ?v"
  proof (cases "SyncProviderFees good_pay 50 v1")
    case None
    then show ?thesis
      using h1 by (simp add: fees_after_def)
  next
    case (Some z)
    then show ?thesis
      using payment_history.Next [OF h1 payment_action.Fees [of good_pay 50 v1 "fst z" "snd z"]]
      by (simp add: fees_after_def case_prod_beta)
  qed
  obtain res2 v' where again: "purchase ?v = (res2, v')"
    by (cases "purchase ?v")
  have grows: "trace v' = trace ?v @ drop (length (trace ?v)) (trace v')"
    using RequestPayment_trace [OF again] by auto
  have "orders_wf db8"
    by code_simp
  then have "EffProviderCreate 1 a c \<notin> set (drop (length (trace ?v)) (trace v'))" for a c
    by (intro RequestPayment_no_double_charge [OF run env _ _ h again grows])
      (simp_all add: world_of_def rely_def)
  then show ?thesis
    using run again third by auto
qed

lemma payment_passes_end_witness:
  "(\<exists>r. SyncProviderFees good_pay 50 (world_of db1) = Some r)
   \<and> (\<exists>r. ReconcilePendingOrders good_pay day0 50 (world_of db1) = Some r)"
proof (rule payment_passes_end)
  show "ids_positive (db (world_of db1))"
    by code_simp
qed simp

end
