(* ===== verification/Telegram_Text.thy ===== *)
theory Telegram_Text
  imports Prelude
begin

text \<open>
  The texts of the bot: Go's view of a byte string as a sequence of runes, the splitting of a long
  message (\<open>splitMessage\<close> and its helpers, \<open>internal/bot/admin.go\<close>), the limits of
  \<open>internal/bot/broadcast_report.go\<close> and \<open>internal/utils/format.go\<close>, the escaping of
  \<open>internal/utils/markdown.go\<close> that is a plain scan, and the amounts of money.

  The stack of open MarkdownV2 entities has its top at the head of the list; it holds one
  character per entity, which is what the one-character strings of the code are.
\<close>

section \<open>Runes\<close>

definition byte_in :: "nat \<Rightarrow> nat \<Rightarrow> char list \<Rightarrow> nat \<Rightarrow> bool" where
  "byte_in lo hi s i \<longleftrightarrow> i < length s \<and> lo \<le> (of_char (s ! i) :: nat) \<and> (of_char (s ! i) :: nat) \<le> hi"

text \<open>\<open>utf8.DecodeRuneInString\<close>: the number of bytes of the first rune; a byte that begins no valid
  encoding is a rune of its own.\<close>

definition rune_size :: "string \<Rightarrow> nat" where
  "rune_size s =
     (if byte_in 0xC2 0xDF s 0 \<and> byte_in 0x80 0xBF s 1 then 2
      else if (byte_in 0xE0 0xE0 s 0 \<and> byte_in 0xA0 0xBF s 1 \<or> byte_in 0xE1 0xEC s 0 \<and> byte_in 0x80 0xBF s 1
               \<or> byte_in 0xED 0xED s 0 \<and> byte_in 0x80 0x9F s 1 \<or> byte_in 0xEE 0xEF s 0 \<and> byte_in 0x80 0xBF s 1)
              \<and> byte_in 0x80 0xBF s 2 then 3
      else if (byte_in 0xF0 0xF0 s 0 \<and> byte_in 0x90 0xBF s 1 \<or> byte_in 0xF1 0xF3 s 0 \<and> byte_in 0x80 0xBF s 1
               \<or> byte_in 0xF4 0xF4 s 0 \<and> byte_in 0x80 0x8F s 1)
              \<and> byte_in 0x80 0xBF s 2 \<and> byte_in 0x80 0xBF s 3 then 4
      else 1)"

lemma rune_size_pos: "0 < rune_size s"
  by (simp add: rune_size_def)

lemma rune_size_le: "rune_size s \<le> 4"
  by (simp add: rune_size_def)

function runes :: "string \<Rightarrow> string list" where
  "runes s = (if s = [] then [] else take (rune_size s) s # runes (drop (rune_size s) s))"
  by pat_completeness auto
termination
  by (relation "measure length") (auto simp: rune_size_pos)

declare runes.simps [simp del]

text \<open>\<open>string([]rune(s))\<close>: an invalid byte has become U+FFFD.\<close>

definition encode_rune :: "string \<Rightarrow> string" where
  "encode_rune r = (if length r = 1 \<and> byte_in 0x80 0xFF r 0 then [CHR 0xEF, CHR 0xBF, CHR 0xBD] else r)"

definition string_of_runes :: "string list \<Rightarrow> string" where
  "string_of_runes rs = concat (map encode_rune rs)"

definition ellipsis :: string where "ellipsis = [CHR 0xE2, CHR 0x80, CHR 0xA6]"

definition truncateRunes :: "string \<Rightarrow> int \<Rightarrow> string" where
  "truncateRunes s maxRunes =
     (if maxRunes \<le> 0 then []
      else if int (length (runes s)) \<le> maxRunes then s
      else string_of_runes (take (nat maxRunes) (runes s)) @ ellipsis)"

definition TruncateString :: "string \<Rightarrow> int \<Rightarrow> string" where
  "TruncateString s maxLen =
     (if maxLen \<le> 0 then []
      else if int (length (runes s)) \<le> maxLen then s
      else string_of_runes (take (nat maxLen) (runes s)) @ ''...'')"

text \<open>\<open>unicode.IsSpace\<close>.\<close>

definition space_rune :: "string \<Rightarrow> bool" where
  "space_rune r \<longleftrightarrow>
     (length r = 1 \<and> is_space (hd r))
     \<or> r \<in> set [[CHR 0xC2, CHR 0x85], [CHR 0xC2, CHR 0xA0], [CHR 0xE1, CHR 0x9A, CHR 0x80],
                 [CHR 0xE2, CHR 0x80, CHR 0xA8], [CHR 0xE2, CHR 0x80, CHR 0xA9],
                 [CHR 0xE2, CHR 0x80, CHR 0xAF], [CHR 0xE2, CHR 0x81, CHR 0x9F],
                 [CHR 0xE3, CHR 0x80, CHR 0x80]]
     \<or> (take 2 r = [CHR 0xE2, CHR 0x80] \<and> byte_in 0x80 0x8A r 2)"

text \<open>\<open>strings.FieldsSeq\<close>: the maximal runs of runes that are not spaces.\<close>

fun fields_of :: "string \<Rightarrow> string list \<Rightarrow> string list" where
  "fields_of cur [] = (if cur = [] then [] else [cur])"
| "fields_of cur (r # rs) =
     (if space_rune r then (if cur = [] then fields_of [] rs else cur # fields_of [] rs)
      else fields_of (cur @ r) rs)"

definition Fields :: "string \<Rightarrow> string list" where
  "Fields s = fields_of [] (runes s)"

text \<open>\<open>strings.TrimSpace\<close>.\<close>

definition TrimSpace :: "string \<Rightarrow> string" where
  "TrimSpace s = concat (rev (dropWhile space_rune (rev (dropWhile space_rune (runes s)))))"

section \<open>Splitting a message\<close>

fun entity_step :: "char list \<Rightarrow> char \<Rightarrow> char list" where
  "entity_step opened c =
     (if c = CHR ''['' then c # opened
      else if c = CHR '']'' then
        (case opened of [] \<Rightarrow> [c] | t # ts \<Rightarrow> if t = CHR ''['' then ts else c # opened)
      else if c \<in> set ''*_`~'' then
        (case opened of [] \<Rightarrow> [c] | t # ts \<Rightarrow> if t = c then ts else c # opened)
      else opened)"

definition updateEntities :: "char list \<Rightarrow> string \<Rightarrow> char list" where
  "updateEntities opened seg = foldl entity_step opened seg"

definition containsEntityChar :: "string \<Rightarrow> bool" where
  "containsEntityChar s = contains_any s ''*_`~[]''"

text \<open>The inner loop of \<open>hardSplitToken\<close>: how many runes fit, and its outer loop.\<close>

fun fitting :: "nat \<Rightarrow> string list \<Rightarrow> nat" where
  "fitting room [] = 0"
| "fitting room (r # rs) =
     (if room < length (encode_rune r) then 0 else Suc (fitting (room - length (encode_rune r)) rs))"

function hard_split :: "nat \<Rightarrow> string list \<Rightarrow> string list" where
  "hard_split maxLen rs =
     (if rs = [] then []
      else let n = max 1 (fitting maxLen rs)
           in string_of_runes (take n rs) # hard_split maxLen (drop n rs))"
  by pat_completeness auto
termination
  by (relation "measure (\<lambda>(_, rs). length rs)") (auto simp: Let_def)

declare hard_split.simps [simp del]

definition hardSplitToken :: "string \<Rightarrow> nat \<Rightarrow> string list" where
  "hardSplitToken word maxLen = hard_split maxLen (runes word)"

record splitter =
  sp_chunks :: "string list"
  sp_cur :: string
  sp_open :: "char list"
  sp_last_newline :: bool

definition flush :: "splitter \<Rightarrow> splitter" where
  "flush s =
     (if sp_cur s \<noteq> [] then s\<lparr>sp_chunks := sp_chunks s @ [sp_cur s], sp_cur := [], sp_open := [],
                             sp_last_newline := False\<rparr>
      else s\<lparr>sp_last_newline := False\<rparr>)"

definition addWord :: "nat \<Rightarrow> string \<Rightarrow> splitter \<Rightarrow> splitter" where
  "addWord maxLen word s0 =
     (let sep = (if sp_cur s0 \<noteq> [] \<and> \<not> sp_last_newline s0 then 1 else 0);
          s = (if sp_open s0 = [] \<and> sp_cur s0 \<noteq> [] \<and> maxLen < length (sp_cur s0) + sep + length word
               then flush s0 else s0);
          cur = (if sp_cur s \<noteq> [] \<and> \<not> sp_last_newline s then sp_cur s @ '' '' else sp_cur s)
      in s\<lparr>sp_cur := cur @ word, sp_last_newline := False, sp_open := updateEntities (sp_open s) word\<rparr>)"

definition add_piece :: "string \<Rightarrow> splitter \<Rightarrow> splitter" where
  "add_piece piece s0 =
     (let s = (if sp_cur s0 \<noteq> [] then flush s0 else s0) in s\<lparr>sp_cur := sp_cur s @ piece\<rparr>)"

definition split_word :: "nat \<Rightarrow> string \<Rightarrow> splitter \<Rightarrow> splitter" where
  "split_word maxLen word s =
     (if maxLen < length word then
        if sp_open s \<noteq> [] \<or> containsEntityChar word then addWord maxLen word s
        else fold add_piece (hardSplitToken word maxLen) (flush s)
      else addWord maxLen word s)"

definition line_break :: "nat \<Rightarrow> splitter \<Rightarrow> splitter" where
  "line_break maxLen s =
     (if sp_cur s \<noteq> [] then
        if sp_open s = [] \<and> maxLen < length (sp_cur s) + 1 then flush s
        else s\<lparr>sp_cur := sp_cur s @ [CHR 0x0A], sp_last_newline := True\<rparr>
      else s)"

definition split_line :: "nat \<Rightarrow> string \<Rightarrow> splitter \<Rightarrow> splitter" where
  "split_line maxLen line s = fold (split_word maxLen) (Fields line) s"

fun split_lines :: "nat \<Rightarrow> string list \<Rightarrow> splitter \<Rightarrow> splitter" where
  "split_lines maxLen [] s = s"
| "split_lines maxLen (l # ls) s = split_lines maxLen ls (split_line maxLen l (line_break maxLen s))"

definition empty_splitter :: splitter where
  "empty_splitter = \<lparr>sp_chunks = [], sp_cur = [], sp_open = [], sp_last_newline = False\<rparr>"

text \<open>Before the first line the splitter is empty, so its line break does nothing.\<close>

definition splitMessage :: "string \<Rightarrow> nat \<Rightarrow> string list" where
  "splitMessage text maxLen =
     (if maxLen = 0 \<or> length text \<le> maxLen then [text]
      else sp_chunks (flush (split_lines maxLen (split_on (CHR 0x0A) text) empty_splitter)))"

definition MaxTelegramMessageLen :: nat where "MaxTelegramMessageLen = 4096"

section \<open>Markdown\<close>

definition escape_runes :: "string \<Rightarrow> string \<Rightarrow> string" where
  "escape_runes reserved text =
     concat (map (\<lambda>r. if length r = 1 \<and> hd r \<in> set reserved then CHR 0x5C # r else encode_rune r) (runes text))"

definition EscapeMarkdown :: "string \<Rightarrow> string" where
  "EscapeMarkdown text = escape_runes (CHR 0x5C # ''_*[]()~`>-#+=|{}^'') text"

definition escapeMdv2 :: "string \<Rightarrow> string" where
  "escapeMdv2 s = escape_runes (CHR 0x5C # ''_*[]()~`+-=|{}.!>#'') s"

definition EscapeLegacyMarkdown :: "string \<Rightarrow> string" where
  "EscapeLegacyMarkdown text = escape_runes ''_*`['' text"

definition IsNumericUsername :: "string \<Rightarrow> bool" where
  "IsNumericUsername username \<longleftrightarrow> username \<noteq> [] \<and> all_digits username"

section \<open>Money\<close>

text \<open>Go's \<open>/\<close> and \<open>%\<close> truncate; on what is left here after the sign is taken off, only the smallest
  \<open>int64\<close> is negative.\<close>

definition go_div :: "int \<Rightarrow> int \<Rightarrow> int" where
  "go_div a b = sgn a * sgn b * (\<bar>a\<bar> div \<bar>b\<bar>)"

definition go_mod :: "int \<Rightarrow> int \<Rightarrow> int" where
  "go_mod a b = a - b * go_div a b"

definition two_digits :: "int \<Rightarrow> string" where
  "two_digits k = (if length (itoa k) < 2 then CHR ''0'' # itoa k else itoa k)"

definition ruble_sign :: string where "ruble_sign = [CHR 0xE2, CHR 0x82, CHR 0xBD]"

definition FormatPriceCents :: "cents \<Rightarrow> string" where
  "FormatPriceCents amountCents =
     itoa (go_div amountCents 100)
     @ (let kopeks = go_mod amountCents 100 in if kopeks \<noteq> 0 then CHR ''.'' # two_digits kopeks else [])
     @ ruble_sign"

fun group_thousands :: "string \<Rightarrow> string" where
  "group_thousands [] = []"
| "group_thousands (c # cs) =
     (if cs \<noteq> [] \<and> length cs mod 3 = 0 then c # CHR '' '' # group_thousands cs else c # group_thousands cs)"

definition currency_suffix :: "string \<Rightarrow> string" where
  "currency_suffix currency =
     (if to_upper currency = ''RUB'' then CHR '' '' # ruble_sign
      else let symbol = to_upper (trim_space currency)
           in if symbol \<noteq> [] then CHR '' '' # symbol else [])"

definition formatMoneyCents :: "cents \<Rightarrow> string \<Rightarrow> string" where
  "formatMoneyCents amountCents0 currency =
     (let amountCents = (if amountCents0 < 0 then wrap64 (- amountCents0) else amountCents0);
          kopeks = go_mod amountCents 100;
          grouped = group_thousands (itoa (go_div amountCents 100))
                    @ (if kopeks \<noteq> 0 then CHR '','' # two_digits kopeks else [])
      in (if amountCents0 < 0 then CHR ''-'' # grouped else grouped) @ currency_suffix currency)"


section \<open>Runes are a partition of the text\<close>

lemma concat_runes [simp]: "concat (runes s) = s"
proof (induction s rule: runes.induct)
  case (1 s)
  then show ?case
    by (subst runes.simps) auto
qed

lemma runes_Nil [simp]: "runes [] = []"
  by (simp add: runes.simps)

lemma rune_parts: "r \<in> set (runes s) \<Longrightarrow> r \<noteq> [] \<and> length r \<le> 4 \<and> set r \<subseteq> set s"
proof (induction s rule: runes.induct)
  case (1 s)
  show ?case
  proof (cases "s = []")
    case True
    with "1.prems" show ?thesis by (simp add: runes.simps)
  next
    case False
    have head: "take (rune_size s) s \<noteq> [] \<and> length (take (rune_size s) s) \<le> 4 \<and> set (take (rune_size s) s) \<subseteq> set s"
      using False rune_size_pos [of s] rune_size_le [of s] by (auto dest: in_set_takeD)
    from "1.prems" False consider "r = take (rune_size s) s" | "r \<in> set (runes (drop (rune_size s) s))"
      by (subst (asm) runes.simps) auto
    then show ?thesis
    proof cases
      case 1
      with head show ?thesis by simp
    next
      case 2
      with "1.IH" [OF False] show ?thesis by (auto dest: in_set_dropD)
    qed
  qed
qed

lemma encode_rune_length: "r \<in> set (runes s) \<Longrightarrow> length (encode_rune r) \<le> 4"
  using rune_parts [of r s] by (simp add: encode_rune_def)

text \<open>A text whose runes are all valid; for these \<open>string([]rune(s))\<close> is \<open>s\<close>.\<close>

definition valid_rune :: "string \<Rightarrow> bool" where
  "valid_rune r \<longleftrightarrow> r \<noteq> [] \<and> rune_size r = length r \<and> \<not> (length r = 1 \<and> byte_in 0x80 0xFF r 0)"

definition valid_utf8 :: "string \<Rightarrow> bool" where
  "valid_utf8 s \<longleftrightarrow> list_all valid_rune (runes s)"

lemma valid_encode: "valid_rune r \<Longrightarrow> encode_rune r = r"
  by (auto simp: encode_rune_def valid_rune_def)

lemma byte_in_append: "i < length r \<Longrightarrow> byte_in lo hi (r @ t) i = byte_in lo hi r i"
  by (simp add: byte_in_def nth_append)

lemma byte_in_mono: "byte_in lo hi r i \<Longrightarrow> lo' \<le> lo \<Longrightarrow> hi \<le> hi' \<Longrightarrow> byte_in lo' hi' r i"
  by (auto simp: byte_in_def)

lemma rune_size_lead:
  assumes "\<not> byte_in 0x80 0xFF s 0"
  shows "rune_size s = 1"
proof -
  have "\<not> byte_in lo hi s 0" if "0x80 \<le> lo" "hi \<le> 0xFF" for lo hi
    using assms that byte_in_mono [of lo hi s 0 "0x80" "0xFF"] by blast
  then show ?thesis
    unfolding rune_size_def by simp
qed

lemma valid_rune_append:
  assumes "valid_rune r"
  shows "rune_size (r @ t) = length r"
proof (cases "length r = 1")
  case True
  then have "\<not> byte_in 0x80 0xFF (r @ t) 0"
    using assms by (auto simp: valid_rune_def byte_in_append)
  with True show ?thesis
    by (simp add: rune_size_lead)
next
  case False
  then have n: "rune_size r = length r" "1 < length r"
    using assms by (cases r; simp add: valid_rune_def)+
  have len: "length r = 2 \<or> length r = 3 \<or> length r = 4"
    using n rune_size_le [of r] by linarith
  then show ?thesis
    using n(1) by (elim disjE) (auto simp: rune_size_def byte_in_append split: if_splits)
qed

lemma runes_append_rune:
  assumes "valid_rune r"
  shows "runes (r @ t) = r # runes t"
  using assms valid_rune_append [OF assms, of t]
  by (subst runes.simps) (auto simp: valid_rune_def)

lemma runes_concat:
  "list_all valid_rune rs \<Longrightarrow> runes (concat rs @ t) = rs @ runes t"
  by (induction rs) (simp_all add: runes_append_rune)

lemma runes_valid_concat: "list_all valid_rune rs \<Longrightarrow> runes (concat rs) = rs"
  using runes_concat [of rs "[]"] by simp

lemma valid_append: "valid_utf8 s \<Longrightarrow> runes (s @ t) = runes s @ runes t"
  using runes_concat [of "runes s" t] by (simp add: valid_utf8_def)

lemma string_of_valid: "list_all valid_rune rs \<Longrightarrow> string_of_runes rs = concat rs"
  unfolding string_of_runes_def by (induction rs) (simp_all add: valid_encode)



section \<open>Nothing is lost by splitting a message\<close>

text \<open>What a reader sees of a text: its runes without the white space.\<close>

definition visible :: "string \<Rightarrow> string list" where
  "visible s = filter (\<lambda>r. \<not> space_rune r) (runes s)"

lemma visible_Nil [simp]: "visible [] = []"
  by (simp add: visible_def)

lemma visible_append: "valid_utf8 s \<Longrightarrow> visible (s @ t) = visible s @ visible t"
  by (simp add: visible_def valid_append)

lemma valid_utf8_append: "valid_utf8 s \<Longrightarrow> valid_utf8 t \<Longrightarrow> valid_utf8 (s @ t)"
  using valid_append [of s t] by (simp add: valid_utf8_def)

lemma valid_utf8_concat: "list_all valid_rune rs \<Longrightarrow> valid_utf8 (concat rs)"
  by (simp add: valid_utf8_def runes_valid_concat)

lemma valid_utf8_Nil [simp]: "valid_utf8 []"
  by (simp add: valid_utf8_def)

lemma ascii_rune: "(of_char c :: nat) < 0x80 \<Longrightarrow> valid_rune [c]"
  by (auto simp: valid_rune_def rune_size_def byte_in_def)

lemma space_runes: "runes '' '' = ['' '']" "runes [CHR 0x0A] = [[CHR 0x0A]]"
  using runes_append_rune [of "'' ''" "[]"] runes_append_rune [of "[CHR 0x0A]" "[]"]
  by (simp_all add: ascii_rune)

lemma space_valid [simp]: "valid_utf8 '' ''" "valid_utf8 [CHR 0x0A]"
  "visible '' '' = []" "visible [CHR 0x0A] = []"
  by (simp_all add: valid_utf8_def space_runes ascii_rune visible_def space_rune_def is_space_def)

subsection \<open>Words\<close>

definition word :: "string \<Rightarrow> bool" where
  "word w \<longleftrightarrow> valid_utf8 w \<and> visible w = runes w"

lemma fields_of_words:
  assumes "list_all valid_rune rs" "word cur"
  shows "list_all word (fields_of cur rs)"
    and "concat (map runes (fields_of cur rs)) = runes cur @ filter (\<lambda>r. \<not> space_rune r) rs"
proof (atomize (full), insert assms, induction cur rs rule: fields_of.induct)
  case (2 cur r rs)
  have r: "runes r = [r]" "valid_utf8 r" if "valid_rune r"
    using that runes_append_rune [of r "[]"] by (simp_all add: valid_utf8_def)
  then have "word (cur @ r)" "runes (cur @ r) = runes cur @ [r]" if "\<not> space_rune r"
    using 2 that by (auto simp: word_def valid_append visible_append valid_utf8_append visible_def)
  with 2 show ?case
    by (auto simp: word_def)
qed auto

lemma Fields_words:
  assumes "valid_utf8 l"
  shows "list_all word (Fields l)" "concat (map runes (Fields l)) = visible l"
  using fields_of_words [of "runes l" "[]"] assms
  by (simp_all add: Fields_def valid_utf8_def word_def visible_def)

lemma split_on_append: "sep \<notin> set r \<Longrightarrow> split_on sep (r @ t) = (r @ hd (split_on sep t)) # tl (split_on sep t)"
proof (induction r)
  case Nil
  then show ?case using split_on_nonempty [of sep t] by (cases "split_on sep t") auto
qed auto

lemma high_byte:
  "byte_in 0xC2 0xDF s i \<Longrightarrow> byte_in 0x80 0xFF s i"
  "byte_in 0x80 0xBF s i \<Longrightarrow> byte_in 0x80 0xFF s i"
  "byte_in 0xE0 0xE0 s i \<Longrightarrow> byte_in 0x80 0xFF s i"
  "byte_in 0xA0 0xBF s i \<Longrightarrow> byte_in 0x80 0xFF s i"
  "byte_in 0xE1 0xEC s i \<Longrightarrow> byte_in 0x80 0xFF s i"
  "byte_in 0xED 0xED s i \<Longrightarrow> byte_in 0x80 0xFF s i"
  "byte_in 0x80 0x9F s i \<Longrightarrow> byte_in 0x80 0xFF s i"
  "byte_in 0xEE 0xEF s i \<Longrightarrow> byte_in 0x80 0xFF s i"
  "byte_in 0xF0 0xF0 s i \<Longrightarrow> byte_in 0x80 0xFF s i"
  "byte_in 0x90 0xBF s i \<Longrightarrow> byte_in 0x80 0xFF s i"
  "byte_in 0xF1 0xF3 s i \<Longrightarrow> byte_in 0x80 0xFF s i"
  "byte_in 0xF4 0xF4 s i \<Longrightarrow> byte_in 0x80 0xFF s i"
  "byte_in 0x80 0x8F s i \<Longrightarrow> byte_in 0x80 0xFF s i"
  by (simp_all add: byte_in_def)

lemma rune_bytes:
  "1 < rune_size s \<Longrightarrow> byte_in 0x80 0xFF s 0"
  "1 < rune_size s \<Longrightarrow> byte_in 0x80 0xFF s 1"
  "2 < rune_size s \<Longrightarrow> byte_in 0x80 0xFF s 2"
  "3 < rune_size s \<Longrightarrow> byte_in 0x80 0xFF s 3"
  by (auto simp: rune_size_def dest: high_byte split: if_splits)

lemma high_bytes:
  assumes "rune_size r = length r" "1 < length r"
  shows "CHR 0x0A \<notin> set r"
proof
  assume "CHR 0x0A \<in> set r"
  then obtain i where i: "i < length r" "r ! i = CHR 0x0A"
    by (auto simp: in_set_conv_nth)
  have "i = 0 \<or> i = 1 \<or> i = 2 \<or> i = 3"
    using i(1) assms rune_size_le [of r] by linarith
  then have "byte_in 0x80 0xFF r i"
    using rune_bytes [of r] assms i(1) by auto
  with i(2) show False
    by (simp add: byte_in_def)
qed

lemma lines_visible:
  assumes "list_all valid_rune rs"
  shows "list_all valid_utf8 (split_on (CHR 0x0A) (concat rs))
    \<and> concat (map visible (split_on (CHR 0x0A) (concat rs))) = visible (concat rs)"
  using assms
proof (induction rs)
  case (Cons r rs)
  let ?ls = "split_on (CHR 0x0A) (concat rs)"
  have ih: "list_all valid_utf8 ?ls" "concat (map visible ?ls) = visible (concat rs)"
    using Cons by simp_all
  have r: "valid_rune r" "valid_utf8 r" "runes r = [r]"
    using Cons.prems runes_append_rune [of r "[]"] by (auto simp: valid_utf8_def)
  show ?case
  proof (cases "CHR 0x0A \<in> set r")
    case True
    then have "length r = 1"
      using high_bytes [of r] r(1) unfolding valid_rune_def by (cases r) fastforce+
    with True have "r = [CHR 0x0A]"
      by (auto simp: length_Suc_conv)
    with ih show ?thesis
      using visible_append [OF space_valid(2), of "concat rs"] by simp
  next
    case False
    obtain l ls where ls: "?ls = l # ls"
      using split_on_nonempty [of "CHR 0x0A" "concat rs"] by (cases ?ls) auto
    with ih False r show ?thesis
      by (simp add: split_on_append valid_utf8_append visible_append)
  qed
qed simp

subsection \<open>The splitter\<close>

definition sp_valid :: "splitter \<Rightarrow> bool" where
  "sp_valid s \<longleftrightarrow> list_all valid_utf8 (sp_chunks s) \<and> valid_utf8 (sp_cur s)"

definition sp_visible :: "splitter \<Rightarrow> string list" where
  "sp_visible s = concat (map visible (sp_chunks s)) @ visible (sp_cur s)"

text \<open>A step that shows \<open>rs\<close> more.\<close>

definition shows_more :: "splitter \<Rightarrow> string list \<Rightarrow> splitter \<Rightarrow> bool" where
  "shows_more s rs s' \<longleftrightarrow> (sp_valid s \<longrightarrow> sp_valid s' \<and> sp_visible s' = sp_visible s @ rs)"

lemma shows_more_trans: "shows_more s rs t \<Longrightarrow> shows_more t qs u \<Longrightarrow> shows_more s (rs @ qs) u"
  by (simp add: shows_more_def)

lemma shows_more_fold:
  assumes "\<And>x s. x \<in> set xs \<Longrightarrow> shows_more s (g x) (f x s)"
  shows "shows_more s (concat (map g xs)) (fold f xs s)"
  using assms
proof (induction xs arbitrary: s)
  case Nil
  show ?case by (simp add: shows_more_def)
next
  case (Cons x xs)
  have "shows_more s (g x) (f x s)" "shows_more (f x s) (concat (map g xs)) (fold f xs (f x s))"
    using Cons by simp_all
  from shows_more_trans [OF this] show ?case by simp
qed

lemma flush_shows: "shows_more s [] (flush s)"
  by (simp add: shows_more_def sp_valid_def sp_visible_def flush_def)

lemma addWord_shows:
  assumes "word w"
  shows "shows_more s (runes w) (addWord n w s)"
proof -
  have *: "shows_more t (runes w)
      (t\<lparr>sp_cur := (if c then sp_cur t @ '' '' else sp_cur t) @ w, sp_last_newline := b, sp_open := l\<rparr>)" for t c b l
    using assms by (auto simp: shows_more_def sp_valid_def sp_visible_def word_def valid_utf8_append visible_append)
  have "shows_more s ([] @ runes w) (addWord n w s)"
    unfolding addWord_def Let_def using * [of "flush s"] * [of s] shows_more_trans [OF flush_shows [of s] *]
    by (simp only: append_Nil split: if_split) blast
  then show ?thesis by simp
qed

lemma add_piece_shows:
  assumes "valid_utf8 p"
  shows "shows_more s (visible p) (add_piece p s)"
proof -
  have *: "shows_more t (visible p) (t\<lparr>sp_cur := sp_cur t @ p\<rparr>)" for t
    using assms by (simp add: shows_more_def sp_valid_def sp_visible_def valid_utf8_append visible_append)
  from shows_more_trans [OF flush_shows [of s] *] * [of s] show ?thesis
    unfolding add_piece_def Let_def by (cases "sp_cur s = []") simp_all
qed

lemma hard_split_pieces:
  assumes "list_all valid_rune rs"
  shows "list_all valid_utf8 (hard_split n rs) \<and> concat (map runes (hard_split n rs)) = rs"
  using assms
proof (induction n rs rule: hard_split.induct)
  case (1 n rs)
  show ?case
  proof (cases "rs = []")
    case True
    then show ?thesis by (simp add: hard_split.simps)
  next
    case False
    let ?k = "max 1 (fitting n rs)"
    have parts: "list_all valid_rune (take ?k rs)" "list_all valid_rune (drop ?k rs)"
      using 1(2) by (auto simp: list_all_iff dest: in_set_takeD in_set_dropD)
    then have "list_all valid_utf8 (hard_split n (drop ?k rs)) \<and> concat (map runes (hard_split n (drop ?k rs))) = drop ?k rs"
      using 1(1) [OF False refl] by simp
    with parts False show ?thesis
      by (subst (1 2) hard_split.simps)
        (simp add: Let_def string_of_valid valid_utf8_concat runes_valid_concat)
  qed
qed

lemma filter_runes: "visible w = runes w \<longleftrightarrow> (\<forall>r \<in> set (runes w). \<not> space_rune r)"
  by (auto simp: visible_def filter_id_conv)

lemma split_word_shows:
  assumes "word w"
  shows "shows_more s (runes w) (split_word n w s)"
proof -
  have v: "list_all valid_rune (runes w)"
    using assms by (simp add: word_def valid_utf8_def)
  note pieces = hard_split_pieces [OF v, of n]
  have "p \<in> set (hardSplitToken w n) \<Longrightarrow> shows_more t (visible p) (add_piece p t)" for p t
    using pieces by (intro add_piece_shows) (auto simp: list_all_iff hardSplitToken_def)
  then have "shows_more (flush s) (concat (map visible (hardSplitToken w n))) (fold add_piece (hardSplitToken w n) (flush s))"
    by (rule shows_more_fold)
  moreover have "visible p = runes p" if "p \<in> set (hardSplitToken w n)" for p
  proof -
    have "set (runes p) \<subseteq> set (runes w)"
      using pieces that by (metis (no_types, lifting) hardSplitToken_def UN_upper set_concat set_map image_eqI)
    then show ?thesis
      using assms by (auto simp: word_def filter_runes)
  qed
  then have "concat (map visible (hardSplitToken w n)) = concat (map runes (hardSplitToken w n))"
    by (metis (no_types, lifting) map_cong)
  then have "concat (map visible (hardSplitToken w n)) = runes w"
    using pieces by (simp add: hardSplitToken_def)
  ultimately have "shows_more s ([] @ runes w) (fold add_piece (hardSplitToken w n) (flush s))"
    using shows_more_trans [OF flush_shows] by metis
  then show ?thesis
    using addWord_shows [OF assms, of s n] by (simp add: split_word_def)
qed

lemma line_break_shows: "shows_more s [] (line_break n s)"
  using flush_shows [of s]
  by (simp add: line_break_def shows_more_def sp_valid_def sp_visible_def valid_utf8_append visible_append)

lemma split_line_shows:
  assumes "valid_utf8 l"
  shows "shows_more s (visible l) (split_line n l s)"
proof -
  have "shows_more s (concat (map runes (Fields l))) (split_line n l s)"
    unfolding split_line_def using Fields_words(1) [OF assms]
    by (intro shows_more_fold split_word_shows) (simp add: list_all_iff)
  then show ?thesis
    by (simp add: Fields_words(2) [OF assms])
qed

lemma split_lines_shows:
  "list_all valid_utf8 ls \<Longrightarrow> shows_more s (concat (map visible ls)) (split_lines n ls s)"
proof (induction n ls s rule: split_lines.induct)
  case (1 n s)
  show ?case by (simp add: shows_more_def)
next
  case (2 n l ls s)
  have "shows_more s ([] @ visible l @ concat (map visible ls)) (split_lines n (l # ls) s)"
    unfolding split_lines.simps using 2
    by (intro shows_more_trans [OF line_break_shows] shows_more_trans [OF split_line_shows]) simp_all
  then show ?case by simp
qed

lemma flush_empties: "sp_cur (flush s) = []"
  by (simp add: flush_def)

lemma splitMessage_visible:
  assumes "valid_utf8 text"
  shows "concat (map visible (splitMessage text n)) = visible text"
proof -
  let ?ls = "split_on (CHR 0x0A) text" and ?s = "split_lines n (split_on (CHR 0x0A) text) empty_splitter"
  have ls: "list_all valid_utf8 ?ls" "concat (map visible ?ls) = visible text"
    using lines_visible [of "runes text"] assms by (simp_all add: valid_utf8_def)
  have "shows_more empty_splitter (visible text @ []) (flush ?s)"
    using shows_more_trans [OF split_lines_shows [OF ls(1)] flush_shows] ls(2) by metis
  then have "sp_visible (flush ?s) = visible text"
    by (simp add: shows_more_def sp_valid_def sp_visible_def empty_splitter_def)
  then show ?thesis
    by (simp add: splitMessage_def sp_visible_def flush_empties)
qed

section \<open>The parts fit into a message\<close>

text \<open>Without formatting characters nothing forces a part to be longer than the limit.\<close>

definition sp_fits :: "nat \<Rightarrow> splitter \<Rightarrow> bool" where
  "sp_fits n s \<longleftrightarrow> sp_open s = [] \<and> length (sp_cur s) \<le> n \<and> (\<forall>c \<in> set (sp_chunks s). c \<noteq> [] \<and> length c \<le> n)"

definition plain :: "string \<Rightarrow> bool" where
  "plain s \<longleftrightarrow> \<not> containsEntityChar s"

lemma plain_set: "set t \<subseteq> set s \<Longrightarrow> plain s \<Longrightarrow> plain t"
  by (auto simp: plain_def containsEntityChar_def contains_any_def list_ex_iff)

lemma plain_entities: "plain s \<Longrightarrow> updateEntities l s = l"
  unfolding updateEntities_def plain_def containsEntityChar_def contains_any_def
  by (induction s) auto

lemma flush_fits: "sp_fits n s \<Longrightarrow> sp_fits n (flush s)"
  by (auto simp: sp_fits_def flush_def)

lemma addWord_fits:
  assumes "sp_fits n s" "plain w" "length w \<le> n"
  shows "sp_fits n (addWord n w s)"
  using assms by (auto simp: addWord_def Let_def sp_fits_def flush_def plain_entities)

lemma add_piece_fits: "sp_fits n s \<Longrightarrow> length p \<le> n \<Longrightarrow> sp_fits n (add_piece p s)"
  by (auto simp: add_piece_def Let_def sp_fits_def flush_def)

lemma fold_fits: "(\<And>x s. x \<in> set xs \<Longrightarrow> sp_fits n s \<Longrightarrow> sp_fits n (f x s)) \<Longrightarrow> sp_fits n s \<Longrightarrow> sp_fits n (fold f xs s)"
  by (induction xs arbitrary: s) auto

lemma fitting_room: "length (string_of_runes (take (fitting room rs) rs)) \<le> room"
  by (induction room rs rule: fitting.induct) (auto simp: string_of_runes_def)

lemma string_of_first:
  assumes "\<forall>r \<in> set rs. length (encode_rune r) \<le> n" "rs \<noteq> []"
  shows "length (string_of_runes (take 1 rs)) \<le> n"
  using assms by (cases rs) (auto simp: string_of_runes_def)

lemma hard_split_fits:
  "\<forall>r \<in> set rs. length (encode_rune r) \<le> n \<Longrightarrow> p \<in> set (hard_split n rs) \<Longrightarrow> length p \<le> n"
proof (induction n rs rule: hard_split.induct)
  case IH: (1 n rs)
  show ?case
  proof (cases "rs = []")
    case True
    with IH(3) show ?thesis by (simp add: hard_split.simps)
  next
    case False
    let ?k = "max 1 (fitting n rs)"
    from IH(3) False consider "p = string_of_runes (take ?k rs)" | "p \<in> set (hard_split n (drop ?k rs))"
      by (subst (asm) hard_split.simps) (auto simp: Let_def)
    then show ?thesis
    proof cases
      case 1
      then show ?thesis
        using fitting_room [of n rs] string_of_first [OF IH(2) False] by (auto simp: max_def)
    next
      case 2
      then show ?thesis
        using IH(1) [OF False refl] IH(2) by (auto dest: in_set_dropD)
    qed
  qed
qed

lemma split_word_fits:
  assumes "sp_fits n s" "plain w" "4 \<le> n"
  shows "sp_fits n (split_word n w s)"
proof (cases "n < length w")
  case True
  have "length p \<le> n" if "p \<in> set (hardSplitToken w n)" for p
    using that assms(3) encode_rune_length [of _ w] unfolding hardSplitToken_def
    by (intro hard_split_fits) force+
  then have "sp_fits n (fold add_piece (hardSplitToken w n) (flush s))"
    using flush_fits [OF assms(1)] by (intro fold_fits add_piece_fits)
  then show ?thesis
    using True assms(1,2) by (simp add: split_word_def sp_fits_def plain_def)
next
  case False
  then show ?thesis
    using addWord_fits [OF assms(1,2)] by (simp add: split_word_def)
qed

lemma fields_of_set: "w \<in> set (fields_of cur rs) \<Longrightarrow> set w \<subseteq> set cur \<union> set (concat rs)"
  by (induction cur rs rule: fields_of.induct) (auto split: if_splits)

lemma split_on_set: "l \<in> set (split_on sep s) \<Longrightarrow> set l \<subseteq> set s"
proof (induction sep s arbitrary: l rule: split_on.induct)
  case (2 sep c cs)
  then show ?case
    by (cases "split_on sep cs") (fastforce split: if_splits)+
qed simp

lemma split_line_fits:
  assumes "sp_fits n s" "plain l" "4 \<le> n"
  shows "sp_fits n (split_line n l s)"
proof -
  have "plain w" if "w \<in> set (Fields l)" for w
    using fields_of_set [of w "[]" "runes l"] that assms(2) by (auto simp: Fields_def intro: plain_set)
  then show ?thesis
    unfolding split_line_def using assms by (intro fold_fits split_word_fits)
qed

lemma line_break_fits: "sp_fits n s \<Longrightarrow> sp_fits n (line_break n s)"
  by (auto simp: line_break_def sp_fits_def flush_def)

lemma split_lines_fits:
  "\<forall>l \<in> set ls. plain l \<Longrightarrow> 4 \<le> n \<Longrightarrow> sp_fits n s \<Longrightarrow> sp_fits n (split_lines n ls s)"
  by (induction n ls s rule: split_lines.induct) (simp_all add: split_line_fits line_break_fits)

text \<open>C16. A long message is split without loss: the parts show the same runes in the same order as the
  text, white space aside, and when the text has no formatting characters every part fits into one
  Telegram message.\<close>

theorem splitMessage_sound:
  assumes "valid_utf8 text"
  shows "concat (map visible (splitMessage text MaxTelegramMessageLen)) = visible text
    \<and> (\<not> containsEntityChar text \<longrightarrow>
         (\<forall>c \<in> set (splitMessage text MaxTelegramMessageLen). length c \<le> MaxTelegramMessageLen))"
proof (intro conjI impI)
  show "concat (map visible (splitMessage text MaxTelegramMessageLen)) = visible text"
    by (rule splitMessage_visible [OF assms])
  assume "\<not> containsEntityChar text"
  then have "\<forall>l \<in> set (split_on (CHR 0x0A) text). plain l"
    using split_on_set [of _ "CHR 0x0A" "text"] plain_set [of _ "text"] by (auto simp: plain_def)
  then have "sp_fits MaxTelegramMessageLen
      (flush (split_lines MaxTelegramMessageLen (split_on (CHR 0x0A) text) empty_splitter))"
    by (intro flush_fits split_lines_fits)
      (auto simp: sp_fits_def empty_splitter_def MaxTelegramMessageLen_def)
  then show "\<forall>c \<in> set (splitMessage text MaxTelegramMessageLen). length c \<le> MaxTelegramMessageLen"
    by (auto simp: splitMessage_def sp_fits_def MaxTelegramMessageLen_def)
qed

theorem splitMessage_sound_witness:
  "concat (map visible (splitMessage ''two words'' MaxTelegramMessageLen)) = visible ''two words''"
proof -
  have "valid_utf8 ''two words''"
    by code_simp
  from splitMessage_sound [OF this] show ?thesis by simp
qed


end
