(* ===== verification/Broadcast_Store.thy ===== *)
theory Broadcast_Store
  imports Subscription_Store Telegram_Text
begin

text \<open>
  Broadcast campaigns: \<open>internal/database/broadcasts.go\<close>, \<open>broadcast_recipients.go\<close>.

  The audience of a campaign and the state of every delivery live in one column of its row. A
  change of that column is one transaction that loads it, changes it and writes it back; a
  recipient is claimed with a lease (status \<open>sending\<close> and the number of the attempt), and only the
  holder of the lease may record progress or the outcome.
\<close>

section \<open>The table\<close>

definition update_broadcasts ::
  "(broadcast \<Rightarrow> bool) \<Rightarrow> (broadcast \<Rightarrow> broadcast) \<Rightarrow> db \<Rightarrow> nat \<times> db" where
  "update_broadcasts P f d =
     (count_where P (broadcasts d), d\<lparr>broadcasts := update_where P f (broadcasts d)\<rparr>)"

definition insert_broadcast :: "broadcast \<Rightarrow> db \<Rightarrow> broadcast \<times> db" where
  "insert_broadcast b d =
     (let b' = b\<lparr>b_id := Suc (broadcast_seq d), b_created_at := row_clock d\<rparr> in
      (b', d\<lparr>broadcasts := broadcasts d @ [b'], broadcast_seq := Suc (broadcast_seq d)\<rparr>))"

definition find_broadcast :: "uint \<Rightarrow> db \<Rightarrow> error + broadcast" where
  "find_broadcast i d = or_not_found ErrBroadcastNotFound (select_first (\<lambda>b. b_id b = i) (broadcasts d))"

section \<open>\<open>broadcasts.go\<close>\<close>

definition no_filter :: broadcast_filter where
  "no_filter = \<lparr>bf_plan_type = [], bf_subscription_status = [], bf_registered_after = None,
     bf_registered_before = None, bf_inactive_days = None, bf_ever_paid = None\<rparr>"

definition ParseBroadcastFilter :: "broadcast_filter option \<Rightarrow> error + broadcast_filter" where
  "ParseBroadcastFilter raw =
     (case raw of
        None \<Rightarrow> Inl (errors_new ''parse broadcast filter'')
      | Some f \<Rightarrow>
          if bf_subscription_status f \<notin> {[], ''active'', ''revoked'', ''all''}
          then Inl (errors_new ''parse broadcast filter: unsupported subscription status'')
          else Inr f)"

definition IsEmpty :: "broadcast_filter \<Rightarrow> bool" where
  "IsEmpty f \<longleftrightarrow> bf_plan_type f = [] \<and> bf_subscription_status f = [] \<and> bf_registered_after f = None
     \<and> bf_registered_before f = None \<and> bf_inactive_days f = None \<and> bf_ever_paid f = None"

definition CreateBroadcast :: "broadcast \<Rightarrow> (world, broadcast) op" where
  "CreateBroadcast b = execE (insert_broadcast b)"

definition GetBroadcast :: "uint \<Rightarrow> (world, broadcast) op" where
  "GetBroadcast i = queryE (find_broadcast i)"

text \<open>\<open>created_at DESC, id DESC\<close>: the stable sort of the rows taken from the last one.\<close>

definition ListBroadcasts :: "nat \<Rightarrow> (world, broadcast list) op" where
  "ListBroadcasts limit = query (\<lambda>d.
     take limit (sort_key (\<lambda>b. - b_created_at b) (rev (sort_key b_id (broadcasts d)))))"

definition copy_outcome :: "broadcast \<Rightarrow> broadcast \<Rightarrow> broadcast" where
  "copy_outcome new b =
     b\<lparr>b_status := b_status new, b_finished_at := b_finished_at new,
       b_recipients_total := b_recipients_total new, b_sent_count := b_sent_count new,
       b_blocked_count := b_blocked_count new, b_unreachable_count := b_unreachable_count new,
       b_failed_count := b_failed_count new, b_last_error := b_last_error new,
       b_retry_at := b_retry_at new, b_retry_count := b_retry_count new,
       b_delivery_report := b_delivery_report new\<rparr>"

definition UpdateBroadcast :: "broadcast \<Rightarrow> (world, unit) op" where
  "UpdateBroadcast b =
     bindE (execE (update_broadcasts (\<lambda>r. b_id r = b_id b) (copy_outcome b))) (\<lambda>n.
     if n = 0 then failE [ErrBroadcastNotFound] else returnE ())"

section \<open>The audience\<close>

definition on_plan_named :: "db \<Rightarrow> string \<Rightarrow> subscription \<Rightarrow> bool" where
  "on_plan_named d name s \<longleftrightarrow> list_ex (\<lambda>p. pl_name p = name \<and> pl_id p = s_plan_id s) (plans d)"

text \<open>\<open>plan_id = (SELECT id FROM plans WHERE name = ?)\<close>: the first row of the subquery, if any.\<close>

definition on_the_plan_named :: "db \<Rightarrow> string \<Rightarrow> subscription \<Rightarrow> bool" where
  "on_the_plan_named d name s \<longleftrightarrow>
     (case select_first (\<lambda>p. pl_name p = name) (plans d) of None \<Rightarrow> False | Some p \<Rightarrow> s_plan_id s = pl_id p)"

definition has_paid_order :: "db \<Rightarrow> subscription \<Rightarrow> bool" where
  "has_paid_order d s \<longleftrightarrow>
     list_ex (\<lambda>r. o_subscription_id r = s_id s \<and> o_status r = OrderStatusPaid) (orders d)"

text \<open>\<open>last_request < datetime('now', '-N days')\<close> compares texts that are exact to the second.\<close>

definition inactive_since :: "time \<Rightarrow> int \<Rightarrow> subscription \<Rightarrow> bool" where
  "inactive_since now n s \<longleftrightarrow>
     (if n = 0 then s_last_request s = None
      else if 0 < n then
        (case s_last_request s of None \<Rightarrow> False
         | Some t \<Rightarrow> t div second < now div second - n * (24 * 60 * 60))
      else True)"

definition status_wanted :: "broadcast_filter \<Rightarrow> subscription \<Rightarrow> bool" where
  "status_wanted f s \<longleftrightarrow>
     (if bf_subscription_status f \<noteq> [] \<and> bf_subscription_status f \<noteq> ''all''
      then subscription_status_text (s_status s) = bf_subscription_status f
      else bf_subscription_status f = [] \<longrightarrow> s_status s = SubscriptionStatusActive)"

definition plan_wanted :: "db \<Rightarrow> broadcast_filter \<Rightarrow> subscription \<Rightarrow> bool" where
  "plan_wanted d f s \<longleftrightarrow> \<not> on_plan_named d TrialPlanName s
     \<and> (if bf_plan_type f = ''paid'' then s_product_id s \<noteq> None \<or> 0 < s_price_paid_cents s
        else if bf_plan_type f = ''free''
          then on_the_plan_named d FreePlanName s \<and> s_product_id s = None \<and> s_price_paid_cents s \<le> 0
        else True)"

definition applyBroadcastFilter :: "time \<Rightarrow> db \<Rightarrow> broadcast_filter \<Rightarrow> subscription \<Rightarrow> bool" where
  "applyBroadcastFilter now d f s \<longleftrightarrow>
     bf_subscription_status f \<noteq> ''expired'' \<and> status_wanted f s \<and> plan_wanted d f s
     \<and> (case bf_registered_after f of None \<Rightarrow> True | Some t \<Rightarrow> t \<le> s_created_at s)
     \<and> (case bf_registered_before f of None \<Rightarrow> True | Some t \<Rightarrow> s_created_at s \<le> t)
     \<and> (case bf_inactive_days f of None \<Rightarrow> True | Some n \<Rightarrow> inactive_since now n s)
     \<and> (case bf_ever_paid f of None \<Rightarrow> True | Some b \<Rightarrow> has_paid_order d s = b)"

definition broadcastAudience :: "time \<Rightarrow> broadcast_filter \<Rightarrow> db \<Rightarrow> subscription list" where
  "broadcastAudience now f d =
     filter (\<lambda>s. 0 < s_telegram_id s \<and> applyBroadcastFilter now d f s) (subscriptions d)"

definition audience_ids :: "time \<Rightarrow> broadcast_filter \<Rightarrow> db \<Rightarrow> int list" where
  "audience_ids now f d = sort (remdups (map s_telegram_id (broadcastAudience now f d)))"

definition GetFilteredTelegramIDCount :: "time \<Rightarrow> broadcast_filter \<Rightarrow> (world, int) op" where
  "GetFilteredTelegramIDCount now f = query (\<lambda>d.
     int (length (remdups (map s_telegram_id (filter (\<lambda>s. applyBroadcastFilter now d f s \<and> 0 < s_telegram_id s)
                                               (subscriptions d))))))"

section \<open>The state of the deliveries\<close>

definition emptyBroadcastRecipientState :: broadcast_recipient_state where
  "emptyBroadcastRecipientState = \<lparr>rs_snapshot = False, rs_recipients = []\<rparr>"

definition parseBroadcastRecipientState :: "broadcast \<Rightarrow> error + broadcast_recipient_state" where
  "parseBroadcastRecipientState b =
     (case b_recipients_state b of
        None \<Rightarrow> Inl (errors_new ''parse broadcast recipient state'')
      | Some st \<Rightarrow> Inr st)"

definition set_recipients :: "broadcast_recipient_state \<Rightarrow> broadcast \<Rightarrow> broadcast" where
  "set_recipients st b = b\<lparr>b_recipients_state := Some st\<rparr>"

definition updateBroadcastRecipientState ::
  "uint \<Rightarrow> (broadcast \<Rightarrow> broadcast_recipient_state \<Rightarrow> error + ('a \<times> broadcast_recipient_state)) \<Rightarrow>
   (world, 'a) op" where
  "updateBroadcastRecipientState broadcastID mutate =
     transaction
       (bindE (tx_queryE (find_broadcast broadcastID)) (\<lambda>b.
        case parseBroadcastRecipientState b of
          Inl e \<Rightarrow> failE e
        | Inr st \<Rightarrow>
            (case mutate b st of
               Inl e \<Rightarrow> failE e
             | Inr (x, st') \<Rightarrow>
                 bindE (tx_execE (update_broadcasts (\<lambda>r. b_id r = broadcastID) (set_recipients st'))) (\<lambda>n.
                 if n = 0 then failE [ErrBroadcastNotFound] else returnE x))))"

definition new_recipient :: "time \<Rightarrow> nat \<Rightarrow> int \<Rightarrow> broadcast_recipient" where
  "new_recipient now i telegramID =
     \<lparr>br_id = i, br_telegram_id = telegramID, br_status = BroadcastRecipientPending, br_attempts = 0,
      br_last_error = [], br_next_chunk = 0, br_updated_at = now\<rparr>"

fun number_recipients :: "time \<Rightarrow> nat \<Rightarrow> int list \<Rightarrow> broadcast_recipient list" where
  "number_recipients now i [] = []"
| "number_recipients now i (t # ts) = new_recipient now i t # number_recipients now (Suc i) ts"

definition take_snapshot ::
  "time \<Rightarrow> int list \<Rightarrow> broadcast_recipient_state \<Rightarrow> int \<times> broadcast_recipient_state" where
  "take_snapshot now ids st =
     (if rs_snapshot st then (int (length (rs_recipients st)), st)
      else (int (length ids), \<lparr>rs_snapshot = True, rs_recipients = number_recipients now 1 ids\<rparr>))"

definition SnapshotBroadcastRecipients :: "time \<Rightarrow> uint \<Rightarrow> broadcast_filter \<Rightarrow> (world, int) op" where
  "SnapshotBroadcastRecipients now broadcastID f =
     bindE (query (audience_ids now f)) (\<lambda>ids.
     updateBroadcastRecipientState broadcastID (\<lambda>_ st. Inr (take_snapshot now ids st)))"

definition ClaimBroadcast :: "uint \<Rightarrow> time \<Rightarrow> (world, bool) op" where
  "ClaimBroadcast i now =
     bindE (execE (update_broadcasts (\<lambda>b. b_id b = i \<and> b_status b = BroadcastStatusScheduled)
              (\<lambda>b. b\<lparr>b_status := BroadcastStatusRunning, b_started_at := Some now\<rparr>))) (\<lambda>n.
     if n = 0 then
       bindE (query (\<lambda>d. count_where (\<lambda>b. b_id b = i) (broadcasts d))) (\<lambda>c.
       if c = 0 then failE [ErrBroadcastNotFound] else returnE False)
     else returnE (n = 1))"

definition map_recipients ::
  "(broadcast_recipient \<Rightarrow> broadcast_recipient) \<Rightarrow> broadcast_recipient_state \<Rightarrow> broadcast_recipient_state" where
  "map_recipients f st = st\<lparr>rs_recipients := map f (rs_recipients st)\<rparr>"

definition recover_stale :: "time \<Rightarrow> time \<Rightarrow> broadcast_recipient \<Rightarrow> broadcast_recipient" where
  "recover_stale now before r =
     (if br_status r = BroadcastRecipientSending \<and> br_updated_at r < before
      then r\<lparr>br_status := BroadcastRecipientPending, br_updated_at := now\<rparr> else r)"

definition RecoverStaleBroadcastRecipients :: "time \<Rightarrow> uint \<Rightarrow> time \<Rightarrow> (world, unit) op" where
  "RecoverStaleBroadcastRecipients now broadcastID before =
     updateBroadcastRecipientState broadcastID (\<lambda>_ st. Inr ((), map_recipients (recover_stale now before) st))"

definition broadcastRecipientBatch :: int where "broadcastRecipientBatch = 100"

definition lease :: "time \<Rightarrow> broadcast_recipient \<Rightarrow> broadcast_recipient" where
  "lease now r =
     r\<lparr>br_status := BroadcastRecipientSending, br_attempts := br_attempts r + 1, br_updated_at := now\<rparr>"

text \<open>The recipients claimed, at most \<open>n\<close>, and the new list.\<close>

fun claim_pending ::
  "time \<Rightarrow> nat \<Rightarrow> broadcast_recipient list \<Rightarrow> broadcast_recipient list \<times> broadcast_recipient list" where
  "claim_pending now n [] = ([], [])"
| "claim_pending now n (r # rs) =
     (if n = 0 then ([], r # rs)
      else if br_status r \<noteq> BroadcastRecipientPending
        then (let (claimed, rest) = claim_pending now n rs in (claimed, r # rest))
      else (let (claimed, rest) = claim_pending now (n - 1) rs
            in (lease now r # claimed, lease now r # rest)))"

definition ClaimBroadcastRecipients ::
  "uint \<Rightarrow> time \<Rightarrow> int \<Rightarrow> (world, broadcast_recipient list) op" where
  "ClaimBroadcastRecipients broadcastID now limit =
     updateBroadcastRecipientState broadcastID (\<lambda>b st.
       if b_status b \<noteq> BroadcastStatusRunning then Inr ([], st)
       else let n = nat (if limit \<le> 0 then broadcastRecipientBatch else limit);
                (claimed, rs) = claim_pending now n (rs_recipients st)
            in Inr (claimed, st\<lparr>rs_recipients := rs\<rparr>))"

text \<open>The holder of the lease of a recipient changes it; anybody else is turned away.\<close>

definition lease_held :: "int \<Rightarrow> broadcast_recipient \<Rightarrow> bool" where
  "lease_held expectedAttempts r \<longleftrightarrow>
     br_status r = BroadcastRecipientSending \<and> br_attempts r = expectedAttempts"

fun with_lease ::
  "uint \<Rightarrow> int \<Rightarrow> (broadcast_recipient \<Rightarrow> broadcast_recipient) \<Rightarrow> broadcast_recipient list \<Rightarrow>
   error + broadcast_recipient list" where
  "with_lease i expectedAttempts f [] = Inl [ErrBroadcastRecipientNotFound]"
| "with_lease i expectedAttempts f (r # rs) =
     (if br_id r \<noteq> i
      then (case with_lease i expectedAttempts f rs of Inl e \<Rightarrow> Inl e | Inr rs' \<Rightarrow> Inr (r # rs'))
      else if \<not> lease_held expectedAttempts r then Inl [ErrBroadcastRecipientStale]
      else Inr (f r # rs))"

definition update_leased ::
  "uint \<Rightarrow> uint \<Rightarrow> int \<Rightarrow> (broadcast_recipient \<Rightarrow> broadcast_recipient) \<Rightarrow> (world, unit) op" where
  "update_leased broadcastID i expectedAttempts f =
     updateBroadcastRecipientState broadcastID (\<lambda>_ st.
       case with_lease i expectedAttempts f (rs_recipients st) of
         Inl e \<Rightarrow> Inl e
       | Inr rs \<Rightarrow> Inr ((), st\<lparr>rs_recipients := rs\<rparr>))"

definition terminal :: "broadcast_recipient_status \<Rightarrow> bool" where
  "terminal st \<longleftrightarrow> st \<in> {BroadcastRecipientSent, BroadcastRecipientBlocked, BroadcastRecipientUnreachable,
                        BroadcastRecipientFailed}"

definition finished :: "broadcast_recipient_status \<Rightarrow> string \<Rightarrow> time \<Rightarrow> broadcast_recipient \<Rightarrow> broadcast_recipient" where
  "finished status lastError now r =
     r\<lparr>br_status := status, br_last_error := lastError, br_updated_at := now\<rparr>"

definition FinishBroadcastRecipient ::
  "uint \<Rightarrow> uint \<Rightarrow> int \<Rightarrow> broadcast_recipient_status \<Rightarrow> string \<Rightarrow> time \<Rightarrow> (world, unit) op" where
  "FinishBroadcastRecipient broadcastID i expectedAttempts status lastError now =
     (if \<not> terminal status then failE (errors_new ''invalid broadcast recipient status'')
      else update_leased broadcastID i expectedAttempts (finished status lastError now))"

definition progressed :: "int \<Rightarrow> time \<Rightarrow> broadcast_recipient \<Rightarrow> broadcast_recipient" where
  "progressed nextChunk now r = r\<lparr>br_next_chunk := nextChunk, br_updated_at := now\<rparr>"

definition UpdateBroadcastRecipientProgress ::
  "uint \<Rightarrow> uint \<Rightarrow> int \<Rightarrow> int \<Rightarrow> time \<Rightarrow> (world, unit) op" where
  "UpdateBroadcastRecipientProgress broadcastID i expectedAttempts nextChunk now =
     update_leased broadcastID i expectedAttempts (progressed nextChunk now)"

section \<open>The life of a campaign\<close>

definition CancelBroadcast :: "uint \<Rightarrow> time \<Rightarrow> (world, bool) op" where
  "CancelBroadcast i now =
     transaction
       (bindE (tx_queryE (find_broadcast i)) (\<lambda>b.
        if b_status b \<notin> {BroadcastStatusScheduled, BroadcastStatusRunning} then returnE False
        else
        bindE (tx_execE (update_broadcasts (\<lambda>r. b_id r = i)
                 (\<lambda>r. r\<lparr>b_status := BroadcastStatusCanceled, b_finished_at := Some now\<rparr>))) (\<lambda>n.
        returnE (n = 1))))"

definition reset_failed :: "time \<Rightarrow> broadcast_recipient \<Rightarrow> broadcast_recipient" where
  "reset_failed now r =
     (if br_status r \<in> {BroadcastRecipientFailed, BroadcastRecipientSending}
      then r\<lparr>br_status := BroadcastRecipientPending, br_updated_at := now, br_last_error := []\<rparr> else r)"

definition campaign_over :: "broadcast_status \<Rightarrow> bool" where
  "campaign_over st \<longleftrightarrow> st \<in> {BroadcastStatusCompleted, BroadcastStatusFailed, BroadcastStatusCanceled}"

definition reopened :: "time \<Rightarrow> broadcast_recipient_state \<Rightarrow> bool \<Rightarrow> broadcast \<Rightarrow> broadcast" where
  "reopened now st over r =
     (let r' = r\<lparr>b_recipients_state := Some (map_recipients (reset_failed now) st), b_last_error := [],
                 b_retry_at := None, b_retry_count := 0\<rparr>
      in if over then r'\<lparr>b_status := BroadcastStatusRunning, b_finished_at := None\<rparr> else r')"

definition ResetBroadcastFailedRecipients :: "uint \<Rightarrow> time \<Rightarrow> (world, unit) op" where
  "ResetBroadcastFailedRecipients i now =
     transaction
       (bindE (tx_queryE (find_broadcast i)) (\<lambda>b.
        case parseBroadcastRecipientState b of
          Inl e \<Rightarrow> failE e
        | Inr st \<Rightarrow>
            bindE (tx_execE (update_broadcasts (\<lambda>r. b_id r = i)
                     (reopened now st (campaign_over (b_status b))))) (\<lambda>n.
            if n = 0 then failE [ErrBroadcastNotFound] else returnE ())))"

definition runnable :: "time \<Rightarrow> broadcast \<Rightarrow> bool" where
  "runnable now b \<longleftrightarrow> b_status b \<in> {BroadcastStatusScheduled, BroadcastStatusRunning}
     \<and> (case b_retry_at b of None \<Rightarrow> True | Some t \<Rightarrow> t \<le> now)
     \<and> (case b_planned_at b of None \<Rightarrow> True | Some t \<Rightarrow> t \<le> now)"

definition GetRunnableBroadcasts :: "time \<Rightarrow> (world, broadcast list) op" where
  "GetRunnableBroadcasts now = query (\<lambda>d. sort_key b_id (filter (runnable now) (broadcasts d)))"

section \<open>Statistics\<close>

record broadcast_stats =
  bs_total :: int
  bs_sent :: int
  bs_blocked :: int
  bs_unreachable :: int
  bs_failed :: int
  bs_report :: broadcast_delivery_report

definition truncateDatabaseError :: "string \<Rightarrow> string" where
  "truncateDatabaseError v = truncateRunes v 500"

definition with_status :: "broadcast_recipient_status \<Rightarrow> broadcast_recipient list \<Rightarrow> broadcast_recipient list" where
  "with_status st rs = filter (\<lambda>r. br_status r = st) rs"

definition ids_with :: "broadcast_recipient_status \<Rightarrow> broadcast_recipient list \<Rightarrow> int list" where
  "ids_with st rs = map br_telegram_id (with_status st rs)"

definition delivery_report :: "broadcast_recipient list \<Rightarrow> broadcast_delivery_report" where
  "delivery_report rs =
     \<lparr>rep_delivered = ids_with BroadcastRecipientSent rs,
      rep_blocked = ids_with BroadcastRecipientBlocked rs,
      rep_unreachable = ids_with BroadcastRecipientUnreachable rs,
      rep_errors = map (\<lambda>r. (br_telegram_id r, truncateDatabaseError (br_last_error r)))
                       (with_status BroadcastRecipientFailed rs),
      rep_not_processed = map br_telegram_id
        (filter (\<lambda>r. br_status r \<in> {BroadcastRecipientPending, BroadcastRecipientSending}) rs)\<rparr>"

definition recipients_stats :: "broadcast_recipient list \<Rightarrow> broadcast_stats" where
  "recipients_stats rs =
     \<lparr>bs_total = int (length rs), bs_sent = int (length (with_status BroadcastRecipientSent rs)),
      bs_blocked = int (length (with_status BroadcastRecipientBlocked rs)),
      bs_unreachable = int (length (with_status BroadcastRecipientUnreachable rs)),
      bs_failed = int (length (with_status BroadcastRecipientFailed rs)),
      bs_report = delivery_report rs\<rparr>"

definition GetBroadcastRecipientsStats :: "uint \<Rightarrow> (world, broadcast_stats) op" where
  "GetBroadcastRecipientsStats broadcastID =
     bindE (GetBroadcast broadcastID) (\<lambda>b.
     case parseBroadcastRecipientState b of
       Inl e \<Rightarrow> failE e
     | Inr st \<Rightarrow> returnE (recipients_stats (rs_recipients st)))"

end
