(* ===== verification/Broadcast_Worker.thy ===== *)
theory Broadcast_Worker
  imports Broadcast_Store
begin

text \<open>
  The delivery of a campaign: \<open>internal/bot/broadcast_worker.go\<close>, with the classes of Telegram's
  errors of \<open>internal/bot/broadcast_errors.go\<close> and the limits of \<open>broadcast_constants.go\<close>.

  \<open>bw_env\<close> holds what is outside: Telegram's answers, the state of the campaign's context, the clock
  (arbitrary functions of the world), the texts of error values, and the administrator's chat.
  The recipients of a batch are delivered to one after the other here; in the program up to ten at
  a time, each through statements on its own entry. A message in the trace is the unescaped part
  of the text, with Telegram's verdict; a panic of the client is an answer of its own. The map of
  cancel functions is part of the environment: it only decides when the context ends.
\<close>

section \<open>Telegram\<close>

datatype tg_error = ApiError int string int | PlainError string

fun tg_text :: "tg_error \<Rightarrow> string" where
  "tg_text (ApiError code message retryAfter) = message"
| "tg_text (PlainError m) = m"

datatype send_answer = SendOk | SendFailed tg_error | SendRefused string | SendPanic string

record bw_env =
  bw_send :: "world \<Rightarrow> int \<Rightarrow> string \<Rightarrow> send_answer"
  bw_ctx :: "world \<Rightarrow> error option"
  bw_now :: "world \<Rightarrow> time"
  bw_error_text :: "error \<Rightarrow> string"
  bw_admin :: int

definition isUserBlockedError :: "tg_error \<Rightarrow> bool" where
  "isUserBlockedError e = str_contains (to_lower (tg_text e)) ''bot was blocked by the user''"

definition isUserUnreachableError :: "tg_error \<Rightarrow> bool" where
  "isUserUnreachableError e =
     (let m = to_lower (tg_text e) in
      str_contains m ''user is deactivated'' \<or> str_contains m ''chat not found''
      \<or> str_contains m ''kicked from the group'' \<or> str_contains m ''have no rights to send a message'')"

definition isUserBlockedOrGoneError :: "tg_error \<Rightarrow> bool" where
  "isUserBlockedOrGoneError e =
     (let m = to_lower (tg_text e) in
      str_contains m ''bot was blocked by the user'' \<or> str_contains m ''user is deactivated''
      \<or> str_contains m ''chat not found'')"

fun isFloodError :: "tg_error \<Rightarrow> bool" where
  "isFloodError (ApiError code message retryAfter) =
     (code = 429 \<or> str_contains (to_lower message) ''too many requests'')"
| "isFloodError (PlainError m) = str_contains (to_lower m) ''too many requests''"

definition broadcastFloodDefaultDelay :: duration where "broadcastFloodDefaultDelay = 5 * second"
definition broadcastFloodMaxDelay :: duration where "broadcastFloodMaxDelay = 90 * second"

fun floodRetryDelay :: "tg_error \<Rightarrow> duration" where
  "floodRetryDelay (ApiError code message retryAfter) =
     (if 0 < retryAfter
      then (if wrap64 (retryAfter * second) < broadcastFloodMaxDelay then wrap64 (retryAfter * second)
            else broadcastFloodMaxDelay)
      else broadcastFloodDefaultDelay)"
| "floodRetryDelay (PlainError m) = broadcastFloodDefaultDelay"

definition now_of :: "bw_env \<Rightarrow> (world, time) op" where
  "now_of env w = (Inr (bw_now env w), w)"

definition campaign_ctx :: "bw_env \<Rightarrow> (world, error option) op" where
  "campaign_ctx env w = (Inr (bw_ctx env w), w)"

text \<open>\<open>MessageSender.SendWithError\<close>: the error, if any; the rate limiter gives up with the context.\<close>

definition sendWithError :: "bw_env \<Rightarrow> int \<Rightarrow> string \<Rightarrow> (world, tg_error option) op" where
  "sendWithError env chat msg w =
     (case bw_send env w chat msg of
        SendOk \<Rightarrow> (Inr None, w\<lparr>trace := trace w @ [EffBroadcast chat msg True]\<rparr>)
      | SendFailed e \<Rightarrow> (Inr (Some e), w\<lparr>trace := trace w @ [EffBroadcast chat msg False]\<rparr>)
      | SendRefused m \<Rightarrow> (Inr (Some (PlainError m)), w)
      | SendPanic m \<Rightarrow> (Inl [GoPanic m], w\<lparr>trace := trace w @ [EffBroadcast chat msg False]\<rparr>))"

definition waitBroadcastDelay :: "bw_env \<Rightarrow> duration \<Rightarrow> (world, unit) op" where
  "waitBroadcastDelay env d w =
     (case bw_ctx env w of
        Some e \<Rightarrow> (Inl e, w)
      | None \<Rightarrow> (Inr (), w\<lparr>trace := trace w @ [EffWait d]\<rparr>))"

section \<open>One recipient\<close>

definition broadcastErrorTextMaxLen :: int where "broadcastErrorTextMaxLen = 500"
definition broadcastRetries :: nat where "broadcastRetries = 2"
definition broadcastSendRetryBaseDelay :: duration where "broadcastSendRetryBaseDelay = 300000000"
definition broadcastFloodMaxWaits :: nat where "broadcastFloodMaxWaits = 5"

text \<open>
  The loop over the flood waits. In the code the inner \<open>err\<close> shadows the outer one, so each wait is
  computed from the error that started the loop.
\<close>

datatype flood_result = FloodSent | FloodEnd broadcast_recipient_status string | FloodStill | FloodOver

fun flood_waits :: "bw_env \<Rightarrow> int \<Rightarrow> string \<Rightarrow> tg_error \<Rightarrow> nat \<Rightarrow> (world, flood_result) op" where
  "flood_waits env chat msg e 0 = returnE FloodStill"
| "flood_waits env chat msg e (Suc n) =
     bindE (waitBroadcastDelay env (floodRetryDelay e)) (\<lambda>_.
     bindE (sendWithError env chat msg) (\<lambda>r.
     case r of
       None \<Rightarrow> returnE FloodSent
     | Some e' \<Rightarrow>
         if isUserBlockedError e' then returnE (FloodEnd BroadcastRecipientBlocked (tg_text e'))
         else if isUserUnreachableError e' then returnE (FloodEnd BroadcastRecipientUnreachable (tg_text e'))
         else if \<not> isFloodError e' then returnE FloodOver
         else flood_waits env chat msg e n))"

text \<open>The attempts at one part: the outcome to record, or the last error (\<open>None\<close> when it was sent).\<close>

datatype try_result = TryEnd broadcast_recipient_status string | TryDone "tg_error option"

fun try_send :: "bw_env \<Rightarrow> int \<Rightarrow> string \<Rightarrow> tg_error option \<Rightarrow> nat list \<Rightarrow> (world, try_result) op" where
  "try_send env chat msg lastErr [] = returnE (TryDone lastErr)"
| "try_send env chat msg lastErr (n # ns) =
     bindE (if 0 < n then waitBroadcastDelay env (broadcastSendRetryBaseDelay * int n)
            else returnE ()) (\<lambda>_.
     bindE (sendWithError env chat msg) (\<lambda>r.
     case r of
       None \<Rightarrow> returnE (TryDone None)
     | Some e \<Rightarrow>
         if isUserBlockedError e then returnE (TryEnd BroadcastRecipientBlocked (tg_text e))
         else if isUserUnreachableError e then returnE (TryEnd BroadcastRecipientUnreachable (tg_text e))
         else if isFloodError e then
           bindE (flood_waits env chat msg e broadcastFloodMaxWaits) (\<lambda>f.
           case f of
             FloodSent \<Rightarrow> returnE (TryDone None)
           | FloodEnd st txt \<Rightarrow> returnE (TryEnd st txt)
           | FloodStill \<Rightarrow> try_send env chat msg (Some e) ns
           | FloodOver \<Rightarrow> try_send env chat msg (Some e) ns)
         else try_send env chat msg (Some e) ns))"

definition finishRecipientState ::
  "bw_env \<Rightarrow> uint \<Rightarrow> broadcast_recipient \<Rightarrow> broadcast_recipient_status \<Rightarrow> string \<Rightarrow> (world, unit) op" where
  "finishRecipientState env bid r status lastError =
     bindE (now_of env) (\<lambda>now. FinishBroadcastRecipient bid (br_id r) (br_attempts r) status lastError now)"

definition saveRecipientProgress ::
  "bw_env \<Rightarrow> uint \<Rightarrow> broadcast_recipient \<Rightarrow> int \<Rightarrow> (world, unit) op" where
  "saveRecipientProgress env bid r nextChunk =
     bindE (now_of env) (\<lambda>now. UpdateBroadcastRecipientProgress bid (br_id r) (br_attempts r) nextChunk now)"

definition lease_lost :: "error \<Rightarrow> bool" where
  "lease_lost e \<longleftrightarrow> errors_is e ErrBroadcastRecipientStale \<or> errors_is e ErrBroadcastRecipientNotFound"

fun deliver_chunks ::
  "bw_env \<Rightarrow> uint \<Rightarrow> broadcast_recipient \<Rightarrow> nat \<Rightarrow> string list \<Rightarrow> (world, unit) op" where
  "deliver_chunks env bid r i [] = finishRecipientState env bid r BroadcastRecipientSent []"
| "deliver_chunks env bid r i (c # cs) =
     bindE (try_send env (br_telegram_id r) c None [0..<Suc broadcastRetries]) (\<lambda>t.
     case t of
       TryEnd st txt \<Rightarrow> finishRecipientState env bid r st txt
     | TryDone (Some e) \<Rightarrow>
         finishRecipientState env bid r BroadcastRecipientFailed
           (truncateRunes (tg_text e) broadcastErrorTextMaxLen)
     | TryDone None \<Rightarrow>
         tryE (saveRecipientProgress env bid r (int (Suc i))) (\<lambda>saved.
         case saved of
           Inl e \<Rightarrow> if lease_lost e then failE e else deliver_chunks env bid r (Suc i) cs
         | Inr _ \<Rightarrow> deliver_chunks env bid r (Suc i) cs))"

definition first_chunk :: "string list \<Rightarrow> broadcast_recipient \<Rightarrow> nat" where
  "first_chunk chunks r =
     (if br_next_chunk r < 0 \<or> int (length chunks) < br_next_chunk r then length chunks
      else nat (br_next_chunk r))"

definition processRecipient ::
  "bw_env \<Rightarrow> string \<Rightarrow> uint \<Rightarrow> broadcast_recipient \<Rightarrow> (world, unit) op" where
  "processRecipient env txt bid r =
     (let chunks = splitMessage txt MaxTelegramMessageLen; start = first_chunk chunks r
      in deliver_chunks env bid r start (drop start chunks))"

definition panic_of :: "error \<Rightarrow> string option" where
  "panic_of e = (case e of [GoPanic m] \<Rightarrow> Some m | _ \<Rightarrow> None)"

definition processRecipientSafely ::
  "bw_env \<Rightarrow> string \<Rightarrow> uint \<Rightarrow> broadcast_recipient \<Rightarrow> (world, unit) op" where
  "processRecipientSafely env txt bid r =
     tryE (processRecipient env txt bid r) (\<lambda>q.
     case q of
       Inr _ \<Rightarrow> returnE ()
     | Inl e \<Rightarrow>
         (case panic_of e of
            None \<Rightarrow> failE e
          | Some m \<Rightarrow>
              bindE (finishRecipientState env bid r BroadcastRecipientFailed (''broadcast recipient panic: '' @ m))
                (\<lambda>_. failE (errors_new (''broadcast recipient panic: '' @ m)))))"

section \<open>A batch\<close>

fun processRecipients ::
  "bw_env \<Rightarrow> string \<Rightarrow> uint \<Rightarrow> broadcast_recipient list \<Rightarrow> (world, error list) op" where
  "processRecipients env txt bid [] = returnE []"
| "processRecipients env txt bid (r # rs) =
     bindE (campaign_ctx env) (\<lambda>c.
     if c \<noteq> None then returnE []
     else
     tryE (processRecipientSafely env txt bid r) (\<lambda>q.
     bindE (processRecipients env txt bid rs) (\<lambda>es.
     returnE (case q of
         Inr _ \<Rightarrow> es
       | Inl e \<Rightarrow> if errors_is e ErrBroadcastRecipientStale then es else e # es))))"

definition broadcastBatchSize :: int where "broadcastBatchSize = 100"

text \<open>One turn of the loop: whether it goes on.\<close>

definition campaign_step :: "bw_env \<Rightarrow> uint \<Rightarrow> string \<Rightarrow> (world, bool) op" where
  "campaign_step env bid txt =
     bindE (campaign_ctx env) (\<lambda>c.
     if c \<noteq> None then returnE False
     else
     tryE (GetBroadcast bid) (\<lambda>got.
     case got of
       Inl e \<Rightarrow> bindE (campaign_ctx env) (\<lambda>c. if c \<noteq> None then returnE False else failE e)
     | Inr current \<Rightarrow>
         if b_status current = BroadcastStatusCanceled then returnE False
         else
         bindE (now_of env) (\<lambda>now.
         tryE (ClaimBroadcastRecipients bid now broadcastBatchSize) (\<lambda>claimed.
         case claimed of
           Inl e \<Rightarrow> bindE (campaign_ctx env) (\<lambda>c. if c \<noteq> None then returnE False else failE e)
         | Inr [] \<Rightarrow> returnE False
         | Inr rs \<Rightarrow>
             bindE (processRecipients env txt bid rs) (\<lambda>errs.
             bindE (campaign_ctx env) (\<lambda>c.
             if errs \<noteq> [] \<and> c = None then failE (concat errs) else returnE True))))))"

partial_function (option) campaign_loop ::
  "bw_env \<Rightarrow> uint \<Rightarrow> string \<Rightarrow> world \<Rightarrow> ((error + unit) \<times> world) option" where
  "campaign_loop env bid txt w =
     (case campaign_step env bid txt w of
        (Inl e, w') \<Rightarrow> Some (Inl e, w')
      | (Inr goes_on, w') \<Rightarrow> if goes_on then campaign_loop env bid txt w' else Some (Inr (), w'))"

section \<open>The outcome of a campaign\<close>

definition worker_audit :: "audit_log \<Rightarrow> (world, unit) op" where
  "worker_audit e = tryE (InsertAuditLog e) (\<lambda>_. returnE ())"

definition empty_report :: broadcast_delivery_report where
  "empty_report = \<lparr>rep_delivered = [], rep_blocked = [], rep_unreachable = [], rep_errors = [], rep_not_processed = []\<rparr>"

definition zero_broadcast :: broadcast where
  "zero_broadcast =
     \<lparr>b_id = 0, b_name = [], b_filters = Some no_filter, b_message_text = [],
      b_status = BroadcastStatusScheduled, b_planned_at = None, b_started_at = None, b_finished_at = None,
      b_recipients_total = 0, b_sent_count = 0, b_blocked_count = 0, b_failed_count = 0,
      b_unreachable_count = 0, b_delivery_report = empty_report, b_last_error = [], b_retry_at = None,
      b_retry_count = 0, b_recipients_state = Some emptyBroadcastRecipientState, b_created_at = 0\<rparr>"

definition failed_campaign :: "uint \<Rightarrow> time \<Rightarrow> string \<Rightarrow> broadcast" where
  "failed_campaign i finishedAt cause =
     zero_broadcast\<lparr>b_id := i, b_status := BroadcastStatusFailed, b_finished_at := Some finishedAt,
       b_last_error := truncateRunes cause broadcastErrorTextMaxLen\<rparr>"

definition markCampaignFailed :: "bw_env \<Rightarrow> uint \<Rightarrow> error \<Rightarrow> (world, unit) op" where
  "markCampaignFailed env i cause =
     bindE (now_of env) (\<lambda>finishedAt.
     let b = failed_campaign i finishedAt (bw_error_text env cause) in
     bindE (UpdateBroadcast b) (\<lambda>_. worker_audit (AuditBroadcastFailed b (bw_error_text env cause))))"

definition bs_terminal :: "broadcast_stats \<Rightarrow> int" where
  "bs_terminal st = bs_sent st + bs_blocked st + bs_unreachable st + bs_failed st"

definition with_stats :: "broadcast_stats \<Rightarrow> broadcast \<Rightarrow> broadcast" where
  "with_stats st b =
     b\<lparr>b_recipients_total := bs_total st, b_sent_count := bs_sent st, b_blocked_count := bs_blocked st,
       b_unreachable_count := bs_unreachable st, b_failed_count := bs_failed st,
       b_delivery_report := bs_report st\<rparr>"

definition campaign_outcome :: "time \<Rightarrow> broadcast \<Rightarrow> broadcast_stats \<Rightarrow> broadcast" where
  "campaign_outcome now campaign st =
     with_stats st
       (if b_status campaign = BroadcastStatusCanceled
        then zero_broadcast\<lparr>b_id := b_id campaign, b_status := BroadcastStatusCanceled, b_finished_at := Some now\<rparr>
        else if bs_terminal st < bs_total st
        then zero_broadcast\<lparr>b_id := b_id campaign, b_status := BroadcastStatusRunning, b_finished_at := None,
               b_last_error := b_last_error campaign, b_retry_at := b_retry_at campaign,
               b_retry_count := b_retry_count campaign\<rparr>
        else zero_broadcast\<lparr>b_id := b_id campaign, b_status := BroadcastStatusCompleted, b_finished_at := Some now\<rparr>)"

definition finishCampaign :: "bw_env \<Rightarrow> broadcast \<Rightarrow> (world, unit) op" where
  "finishCampaign env campaign =
     bindE (GetBroadcastRecipientsStats (b_id campaign)) (\<lambda>st.
     bindE (now_of env) (\<lambda>now.
     let b = campaign_outcome now campaign st in
     bindE (UpdateBroadcast b) (\<lambda>_.
     case b_status b of
       BroadcastStatusCompleted \<Rightarrow> worker_audit (AuditBroadcastCompleted b)
     | BroadcastStatusCanceled \<Rightarrow> worker_audit (AuditBroadcastCanceled b (bw_admin env))
     | _ \<Rightarrow> failE [ErrBroadcastIncomplete])))"

definition sendAdminReport :: "bw_env \<Rightarrow> broadcast \<Rightarrow> (world, unit) op" where
  "sendAdminReport env campaign =
     (if bw_admin env = 0 then returnE ()
      else
      tryE (GetBroadcastRecipientsStats (b_id campaign)) (\<lambda>r.
      case r of
        Inl _ \<Rightarrow> returnE ()
      | Inr st \<Rightarrow> emit (EffCampaignReport (bw_admin env) (b_id campaign) (b_status campaign) (b_name campaign)
                         (bs_sent st) (bs_blocked st) (bs_unreachable st) (bs_failed st))))"

definition broadcastRetryBaseDelay :: duration where "broadcastRetryBaseDelay = 5 * second"
definition broadcastRetryMaxDelay :: duration where "broadcastRetryMaxDelay = 15 * minute"

fun doubled :: "nat \<Rightarrow> duration \<Rightarrow> duration" where
  "doubled 0 delay = delay"
| "doubled (Suc n) delay = (if delay < broadcastRetryMaxDelay then doubled n (2 * delay) else delay)"

definition retry_delay :: "int \<Rightarrow> duration" where
  "retry_delay n =
     (let delay = doubled (nat n) broadcastRetryBaseDelay
      in if broadcastRetryMaxDelay < delay then broadcastRetryMaxDelay else delay)"

definition retry_outcome :: "time \<Rightarrow> string \<Rightarrow> broadcast \<Rightarrow> broadcast" where
  "retry_outcome now cause b =
     (let n = max (b_retry_count b) 0 in
      b\<lparr>b_last_error := truncateRunes cause broadcastErrorTextMaxLen,
        b_retry_at := Some (now + retry_delay n), b_retry_count := n + 1,
        b_status := (if b_status b = BroadcastStatusScheduled then BroadcastStatusRunning else b_status b)\<rparr>)"

definition scheduleRetry :: "bw_env \<Rightarrow> uint \<Rightarrow> error \<Rightarrow> (world, unit) op" where
  "scheduleRetry env i cause =
     bindE (GetBroadcast i) (\<lambda>b.
     if campaign_over (b_status b) then returnE ()
     else
     bindE (now_of env) (\<lambda>now. UpdateBroadcast (retry_outcome now (bw_error_text env cause) b)))"

section \<open>A campaign\<close>

text \<open>Up to the loop: the loaded campaign, or \<open>None\<close> when there is nothing to do.\<close>

definition start_campaign :: "bw_env \<Rightarrow> broadcast \<Rightarrow> (world, bool) op" where
  "start_campaign env b =
     (if b_status b = BroadcastStatusScheduled
      then bindE (now_of env) (\<lambda>now.
           bindE (ClaimBroadcast (b_id b) now) (\<lambda>claimed.
           if \<not> claimed then returnE False
           else bindE (worker_audit (AuditBroadcastStarted b)) (\<lambda>_. returnE True)))
      else returnE True)"

definition prepare_audience :: "bw_env \<Rightarrow> broadcast \<Rightarrow> (world, unit) op" where
  "prepare_audience env b =
     (case ParseBroadcastFilter (b_filters b) of
        Inl e \<Rightarrow> tryE (markCampaignFailed env (b_id b) e) (\<lambda>m.
                 failE (case m of Inl e' \<Rightarrow> e @ e' | Inr _ \<Rightarrow> e))
      | Inr f \<Rightarrow>
          bindE (now_of env) (\<lambda>now.
          bindE (SnapshotBroadcastRecipients now (b_id b) f) (\<lambda>_.
          bindE (now_of env) (\<lambda>now'.
          RecoverStaleBroadcastRecipients now' (b_id b) (now' - 2 * minute)))))"

definition prepare_campaign :: "bw_env \<Rightarrow> uint \<Rightarrow> (world, broadcast option) op" where
  "prepare_campaign env i =
     bindE (GetBroadcast i) (\<lambda>b.
     if campaign_over (b_status b) then returnE None
     else
     bindE (start_campaign env b) (\<lambda>ok.
     if \<not> ok then returnE None
     else bindE (prepare_audience env b) (\<lambda>_. returnE (Some b))))"

definition close_campaign :: "bw_env \<Rightarrow> uint \<Rightarrow> (world, unit) op" where
  "close_campaign env i =
     bindE (GetBroadcast i) (\<lambda>current.
     bindE (campaign_ctx env) (\<lambda>c.
     if c \<noteq> None \<and> b_status current \<noteq> BroadcastStatusCanceled then failE (the c)
     else bindE (finishCampaign env current) (\<lambda>_. sendAdminReport env current)))"

definition run_campaign :: "bw_env \<Rightarrow> uint \<Rightarrow> world \<Rightarrow> ((error + unit) \<times> world) option" where
  "run_campaign env i w =
     (case prepare_campaign env i w of
        (Inl e, w1) \<Rightarrow> Some (Inl e, w1)
      | (Inr None, w1) \<Rightarrow> Some (Inr (), w1)
      | (Inr (Some b), w1) \<Rightarrow>
          (case campaign_loop env i (b_message_text b) w1 of
             None \<Rightarrow> None
           | Some (Inl e, w2) \<Rightarrow> Some (Inl e, w2)
           | Some (Inr _, w2) \<Rightarrow> Some (close_campaign env i w2)))"

text \<open>The deferred function: which results are failures of the launch.\<close>

definition planned_stop :: "error \<Rightarrow> bool" where
  "planned_stop e \<longleftrightarrow> is_ctx_err e \<or> errors_is e ErrBroadcastIncomplete"

definition processCampaign :: "bw_env \<Rightarrow> uint \<Rightarrow> world \<Rightarrow> ((error + unit) \<times> world) option" where
  "processCampaign env i w =
     (case run_campaign env i w of
        None \<Rightarrow> None
      | Some (Inr _, w') \<Rightarrow> Some (Inr (), w')
      | Some (Inl e, w') \<Rightarrow>
          if planned_stop e then Some (Inl e, w')
          else Some (tryE (scheduleRetry env i e) (\<lambda>_. failE e) w'))"

fun process_campaigns :: "bw_env \<Rightarrow> broadcast list \<Rightarrow> world \<Rightarrow> world option" where
  "process_campaigns env [] w = Some w"
| "process_campaigns env (b # bs) w =
     (case processCampaign env (b_id b) w of
        None \<Rightarrow> None
      | Some (_, w') \<Rightarrow> process_campaigns env bs w')"

definition process_broadcasts :: "bw_env \<Rightarrow> world \<Rightarrow> world option" where
  "process_broadcasts env w =
     (case GetRunnableBroadcasts (bw_now env w) w of
        (Inl _, w') \<Rightarrow> Some w'
      | (Inr bs, w') \<Rightarrow> process_campaigns env bs w')"

section \<open>The administrator's actions\<close>

definition Cancel :: "bw_env \<Rightarrow> uint \<Rightarrow> (world, bool) op" where
  "Cancel env i = bindE (now_of env) (\<lambda>now. CancelBroadcast i now)"

definition RetryFailed :: "bw_env \<Rightarrow> uint \<Rightarrow> (world, unit) op" where
  "RetryFailed env i = bindE (now_of env) (\<lambda>now. ResetBroadcastFailedRecipients i now)"

end
