(* ===== verification/Broadcast_Laws.thy ===== *)
theory Broadcast_Laws
  imports Broadcast_Worker
begin

text \<open>
  What holds of every campaign, whatever fails and whoever interferes: the card of a campaign and
  the audience taken for it never change, the leases count up, and an outcome that was recorded as
  sent, blocked or unreachable is final. \<open>campaigns_evolve\<close> is this contract; the locale
  \<open>campaign_statements\<close> carries it, and every other contract of the store, from the statements to all
  operations on campaigns.
\<close>

section \<open>Transactions that read before they write\<close>

context db_contract
begin

lemma transaction_R:
  assumes "keeps spends m" and "\<And>w x w'. m w = (Inr x, w') \<Longrightarrow> R (db w) (db w')"
  shows "keeps (on_db R) (transaction m)"
proof (rule keepsI)
  fix w
  obtain r w' where b: "m (step_other w) = (r, w')"
    by (cases "m (step_other w)")
  have 1: "R (db w) (db (step_other w)) \<and> rely R w'" if "rely R w"
    using that step_other_R rely_spends [OF rely_step_other [OF that]] keepsD [OF assms(1), of "step_other w"] b
    by simp
  have 2: "R (db (step_other w)) (db w')" if "r = Inr x" for x
    using assms(2) b that by blast
  show "on_db R w (snd (transaction m w))"
    using 1 2 b
    by (auto simp: transaction_def on_db_def Let_def db_refl intro: db_trans split: sum.splits turn.splits)
qed

text \<open>The one way the state of the recipients is written.\<close>

lemma state_update_R:
  assumes "\<And>d b st x st'. find_broadcast i d = Inr b \<Longrightarrow> b_recipients_state b = Some st \<Longrightarrow>
      mutate b st = Inr (x, st') \<Longrightarrow> R d (snd (update_broadcasts (\<lambda>r. b_id r = i) (set_recipients st') d))"
  shows "keeps (on_db R) (updateBroadcastRecipientState i mutate)"
  unfolding updateBroadcastRecipientState_def
proof (rule transaction_R)
  show "keeps spends (bindE (tx_queryE (find_broadcast i)) (\<lambda>b.
      case parseBroadcastRecipientState b of Inl e \<Rightarrow> failE e
      | Inr st \<Rightarrow> (case mutate b st of Inl e \<Rightarrow> failE e
         | Inr (x, st') \<Rightarrow> bindE (tx_execE (update_broadcasts (\<lambda>r. b_id r = i) (set_recipients st'))) (\<lambda>n.
              if n = 0 then failE [ErrBroadcastNotFound] else returnE x))))"
    by (intro spend.combinators tx_spends)
next
  fix w x w'
  assume "bindE (tx_queryE (find_broadcast i)) (\<lambda>b.
      case parseBroadcastRecipientState b of Inl e \<Rightarrow> failE e
      | Inr st \<Rightarrow> (case mutate b st of Inl e \<Rightarrow> failE e
         | Inr (x, st') \<Rightarrow> bindE (tx_execE (update_broadcasts (\<lambda>r. b_id r = i) (set_recipients st'))) (\<lambda>n.
              if n = 0 then failE [ErrBroadcastNotFound] else returnE x))) w = (Inr x, w')"
  then obtain b w1 st y st' n where
    b: "tx_queryE (find_broadcast i) w = (Inr b, w1)" and
    st: "b_recipients_state b = Some st" "mutate b st = Inr (y, st')" and
    u: "tx_execE (update_broadcasts (\<lambda>r. b_id r = i) (set_recipients st')) w1 = (Inr n, w')"
    by (auto simp: parseBroadcastRecipientState_def plain_ok elim!: bindE_ok split: option.splits sum.splits if_splits)
  then show "R (db w) (db w')"
    using assms [OF _ st, of "db w"] tx_queryE_ok [OF b] tx_execE_ok(1) [OF u] by simp
qed

end

section \<open>The contract\<close>

definition settled :: "broadcast_recipient_status \<Rightarrow> bool" where
  "settled st \<longleftrightarrow> st \<in> {BroadcastRecipientSent, BroadcastRecipientBlocked, BroadcastRecipientUnreachable}"

definition recipient_evolves :: "broadcast_recipient \<Rightarrow> broadcast_recipient \<Rightarrow> bool" where
  "recipient_evolves r r' \<longleftrightarrow> br_id r' = br_id r \<and> br_telegram_id r' = br_telegram_id r
     \<and> br_attempts r \<le> br_attempts r' \<and> (settled (br_status r) \<longrightarrow> r' = r)"

definition state_evolves :: "broadcast_recipient_state \<Rightarrow> broadcast_recipient_state \<Rightarrow> bool" where
  "state_evolves st st' \<longleftrightarrow> (rs_snapshot st \<longrightarrow> rs_snapshot st'
     \<and> list_all2 recipient_evolves (rs_recipients st) (rs_recipients st'))"

definition campaign_evolves :: "broadcast \<Rightarrow> broadcast \<Rightarrow> bool" where
  "campaign_evolves b b' \<longleftrightarrow> b_id b' = b_id b \<and> b_name b' = b_name b \<and> b_filters b' = b_filters b
     \<and> b_message_text b' = b_message_text b \<and> b_planned_at b' = b_planned_at b
     \<and> b_created_at b' = b_created_at b
     \<and> (case b_recipients_state b of None \<Rightarrow> b_recipients_state b' = None
        | Some st \<Rightarrow> (\<exists>st'. b_recipients_state b' = Some st' \<and> state_evolves st st'))"

definition campaigns_wf :: "db \<Rightarrow> bool" where
  "campaigns_wf d \<longleftrightarrow> distinct (map b_id (broadcasts d)) \<and> (\<forall>b \<in> set (broadcasts d). b_id b \<le> broadcast_seq d)"

definition campaigns_evolve :: "db \<Rightarrow> db \<Rightarrow> bool" where
  "campaigns_evolve d d' \<longleftrightarrow>
     (campaigns_wf d \<longrightarrow> campaigns_wf d'
        \<and> (\<forall>b \<in> set (broadcasts d). \<exists>b' \<in> set (broadcasts d'). campaign_evolves b b'))"

lemma recipient_evolves_refl [simp]: "recipient_evolves r r"
  by (simp add: recipient_evolves_def)

lemma recipient_evolves_trans: "recipient_evolves r s \<Longrightarrow> recipient_evolves s t \<Longrightarrow> recipient_evolves r t"
  by (auto simp: recipient_evolves_def)

lemma state_evolves_refl [simp]: "state_evolves st st"
  by (simp add: state_evolves_def list_all2_same)

lemma state_evolves_trans: "state_evolves st tt \<Longrightarrow> state_evolves tt ut \<Longrightarrow> state_evolves st ut"
  unfolding state_evolves_def
  using list_all2_trans [of recipient_evolves recipient_evolves recipient_evolves] recipient_evolves_trans by blast

lemma campaign_evolves_refl [simp]: "campaign_evolves b b"
  by (simp add: campaign_evolves_def split: option.splits)

lemma campaign_evolves_trans: "campaign_evolves a b \<Longrightarrow> campaign_evolves b c \<Longrightarrow> campaign_evolves a c"
  by (auto simp: campaign_evolves_def intro: state_evolves_trans split: option.splits)

interpretation campaigns: db_contract campaigns_evolve
proof
  show "campaigns_evolve d f" if "campaigns_evolve d e" "campaigns_evolve e f" for d e f
    using that unfolding campaigns_evolve_def by (meson campaign_evolves_trans)
qed (auto simp: campaigns_evolve_def intro: campaign_evolves_refl)

lemma campaigns_evolve_same:
  "broadcasts d' = broadcasts d \<Longrightarrow> broadcast_seq d' = broadcast_seq d \<Longrightarrow> campaigns_evolve d d'"
  by (auto simp: campaigns_evolve_def campaigns_wf_def intro: campaign_evolves_refl)

section \<open>What the operations need of a contract\<close>

locale campaign_statements = db_contract R for R :: "db \<Rightarrow> db \<Rightarrow> bool" +
  assumes update_R: "\<And>P f d. (campaigns_wf d \<Longrightarrow> \<forall>b \<in> set (broadcasts d). P b \<longrightarrow> campaign_evolves b (f b)) \<Longrightarrow>
        R d (snd (update_broadcasts P f d))"
    and insert_R: "\<And>b d. R d (snd (insert_broadcast b d))"
    and audit_R: "\<And>d e. R d (snd (append_audit e d))"
begin

lemma update_keeps:
  assumes "\<And>b. campaign_evolves b (f b)"
  shows "keeps (on_db R) (execE (update_broadcasts P f))"
  using assms by (intro execE_keeps update_R) simp

lemma found_row:
  assumes "find_broadcast i d = Inr b" "campaigns_wf d" "r \<in> set (broadcasts d)" "b_id r = i"
  shows "r = b"
proof -
  have "select_first (\<lambda>b. b_id b = i) (broadcasts d) = Some b"
    using assms(1) by (simp add: find_broadcast_def or_not_found_def split: option.splits)
  then have "b \<in> set (broadcasts d)" "b_id b = i"
    using select_first_Some by fastforce+
  then show ?thesis
    using assms distinct_key_eq [of b_id "broadcasts d" r b] by (simp add: campaigns_wf_def)
qed

lemma found_id: "find_broadcast i d = Inr b \<Longrightarrow> b_id b = i"
  using select_first_Some by (fastforce simp: find_broadcast_def or_not_found_def split: option.splits)

lemma read_write_R:
  assumes "find_broadcast i d = Inr b" "campaign_evolves b (f b)"
  shows "R d (snd (update_broadcasts (\<lambda>r. b_id r = i) f d))"
  using found_row [OF assms(1)] assms(2) by (intro update_R) blast

lemma tx_update_R:
  assumes "tx_execE (update_broadcasts (\<lambda>r. b_id r = i) f) w = (Inr n, w')"
    and "find_broadcast i (db w) = Inr b" "campaign_evolves b (f b)"
  shows "R (db w) (db w')"
  using tx_execE_ok(1) [OF assms(1)] read_write_R [where f = f, OF assms(2,3)] by simp

lemma set_recipients_evolves:
  "b_recipients_state b = Some st \<Longrightarrow> state_evolves st st' \<Longrightarrow> campaign_evolves b (set_recipients st' b)"
  by (simp add: campaign_evolves_def set_recipients_def)

lemma state_update_keeps:
  assumes "\<And>b st x st'. mutate b st = Inr (x, st') \<Longrightarrow> state_evolves st st'"
  shows "keeps (on_db R) (updateBroadcastRecipientState i mutate)"
  by (rule state_update_R) (intro read_write_R set_recipients_evolves assms)

end

section \<open>Every operation on campaigns respects every contract\<close>

lemma map_evolves:
  assumes "\<And>r. recipient_evolves r (f r)"
  shows "state_evolves st (map_recipients f st)"
  using assms by (simp add: state_evolves_def map_recipients_def list_all2_map2 list_all2_same)

lemma row_evolves:
  "recipient_evolves r (recover_stale now before r)"
  "recipient_evolves r (reset_failed now r)"
  "br_status r = BroadcastRecipientPending \<Longrightarrow> recipient_evolves r (lease now r)"
  "lease_held n r \<Longrightarrow> recipient_evolves r (finished st txt now r)"
  "lease_held n r \<Longrightarrow> recipient_evolves r (progressed i now r)"
  by (auto simp: recipient_evolves_def recover_stale_def reset_failed_def lease_def lease_held_def
      finished_def progressed_def settled_def)

lemma claim_evolves: "list_all2 recipient_evolves rs (snd (claim_pending now n rs))"
  by (induction now n rs rule: claim_pending.induct)
    (auto simp: list_all2_same row_evolves split: prod.splits)

lemma with_lease_evolves:
  assumes "\<And>r. lease_held n r \<Longrightarrow> recipient_evolves r (f r)"
  shows "with_lease i n f rs = Inr rs' \<Longrightarrow> list_all2 recipient_evolves rs rs'"
  by (induction rs arbitrary: rs') (auto simp: list_all2_same assms split: if_splits sum.splits)

lemma snapshot_evolves: "take_snapshot now ids st = (n, st') \<Longrightarrow> state_evolves st st'"
  by (auto simp: take_snapshot_def state_evolves_def list_all2_same split: if_splits)

lemma card_evolves:
  "campaign_evolves b (copy_outcome new b)"
  "campaign_evolves b (b\<lparr>b_status := s, b_finished_at := t\<rparr>)"
  "campaign_evolves b (b\<lparr>b_status := s, b_started_at := t\<rparr>)"
  "b_recipients_state b = Some st \<Longrightarrow> campaign_evolves b (reopened now st over b)"
  by (auto simp: campaign_evolves_def copy_outcome_def reopened_def Let_def map_evolves row_evolves
      split: option.splits)

context campaign_statements
begin

lemma read_write_tx:
  assumes "tx_queryE (find_broadcast i) w = (Inr b, w1)"
    and "tx_execE (update_broadcasts (\<lambda>r. b_id r = i) f) w1 = (Inr n, w')" "campaign_evolves b (f b)"
  shows "R (db w) (db w')"
  using tx_update_R [OF assms(2) _ assms(3)] tx_queryE_ok [OF assms(1)] by simp

lemma read_tx: "tx_queryE f w = (Inr b, w') \<Longrightarrow> R (db w) (db w')"
  using tx_queryE_ok(2) [of f w b w'] by (simp add: db_refl)

lemma cancel_keeps: "keeps (on_db R) (CancelBroadcast i now)"
  unfolding CancelBroadcast_def
proof (rule transaction_R)
  fix w x w'
  assume "bindE (tx_queryE (find_broadcast i)) (\<lambda>b.
      if b_status b \<notin> {BroadcastStatusScheduled, BroadcastStatusRunning} then returnE False
      else bindE (tx_execE (update_broadcasts (\<lambda>r. b_id r = i)
             (\<lambda>r. r\<lparr>b_status := BroadcastStatusCanceled, b_finished_at := Some now\<rparr>))) (\<lambda>n. returnE (n = 1))) w
      = (Inr x, w')"
  then show "R (db w) (db w')"
    using card_evolves(2)
    by (elim bindE_ok) (auto simp: plain_ok elim!: bindE_ok split: if_splits intro: read_write_tx read_tx)
qed (intro spend.combinators tx_spends)

lemma reset_keeps: "keeps (on_db R) (ResetBroadcastFailedRecipients i now)"
  unfolding ResetBroadcastFailedRecipients_def
proof (rule transaction_R)
  fix w x w'
  assume "bindE (tx_queryE (find_broadcast i)) (\<lambda>b. case parseBroadcastRecipientState b of Inl e \<Rightarrow> failE e
      | Inr st \<Rightarrow> bindE (tx_execE (update_broadcasts (\<lambda>r. b_id r = i) (reopened now st (campaign_over (b_status b)))))
             (\<lambda>n. if n = 0 then failE [ErrBroadcastNotFound] else returnE ())) w = (Inr x, w')"
  then show "R (db w) (db w')"
    by (elim bindE_ok) (auto simp: plain_ok parseBroadcastRecipientState_def elim!: bindE_ok
        split: if_splits option.splits intro: read_write_tx card_evolves(4))
qed (intro spend.combinators tx_spends)

lemma leased_keeps:
  assumes "\<And>r. lease_held n r \<Longrightarrow> recipient_evolves r (f r)"
  shows "keeps (on_db R) (update_leased bid i n f)"
  unfolding update_leased_def
  by (rule state_update_keeps)
    (auto simp: state_evolves_def intro: with_lease_evolves [OF assms] split: sum.splits)

lemma store_keeps:
  "keeps (on_db R) (CreateBroadcast b)" "keeps (on_db R) (GetBroadcast i)" "keeps (on_db R) (ListBroadcasts n)"
  "keeps (on_db R) (UpdateBroadcast b)" "keeps (on_db R) (GetFilteredTelegramIDCount now f)"
  "keeps (on_db R) (SnapshotBroadcastRecipients now i f)" "keeps (on_db R) (ClaimBroadcast i now)"
  "keeps (on_db R) (RecoverStaleBroadcastRecipients now i t)"
  "keeps (on_db R) (ClaimBroadcastRecipients i now m)"
  "keeps (on_db R) (FinishBroadcastRecipient i j k st txt now)"
  "keeps (on_db R) (UpdateBroadcastRecipientProgress i j k k2 now)"
  "keeps (on_db R) (GetRunnableBroadcasts now)" "keeps (on_db R) (GetBroadcastRecipientsStats i)"
proof -
  have claim: "state_evolves st (st\<lparr>rs_recipients := rs\<rparr>)" if "claim_pending now m (rs_recipients st) = (c, rs)" for st m c rs
    using claim_evolves [of "rs_recipients st" now m] that by (simp add: state_evolves_def)
  show "keeps (on_db R) (ClaimBroadcastRecipients i now m)"
    unfolding ClaimBroadcastRecipients_def
    by (rule state_update_keeps) (auto simp: Let_def intro: claim split: if_splits prod.splits)
  show "keeps (on_db R) (SnapshotBroadcastRecipients now i f)"
    unfolding SnapshotBroadcastRecipients_def
    by (intro db_combinators state_update_keeps) (auto dest: snapshot_evolves)
  show "keeps (on_db R) (RecoverStaleBroadcastRecipients now i t)"
    unfolding RecoverStaleBroadcastRecipients_def
    by (rule state_update_keeps) (auto simp: map_evolves row_evolves)
  show "keeps (on_db R) (FinishBroadcastRecipient i j k st txt now)"
    "keeps (on_db R) (UpdateBroadcastRecipientProgress i j k k2 now)"
    unfolding FinishBroadcastRecipient_def UpdateBroadcastRecipientProgress_def
    by (intro db_combinators leased_keeps row_evolves; assumption)+
  show "keeps (on_db R) (CreateBroadcast b)" unfolding CreateBroadcast_def by (intro execE_keeps insert_R)
  show "keeps (on_db R) (UpdateBroadcast b)" "keeps (on_db R) (ClaimBroadcast i now)"
    unfolding UpdateBroadcast_def ClaimBroadcast_def by (intro db_combinators update_keeps card_evolves)+
  show "keeps (on_db R) (GetBroadcast i)" "keeps (on_db R) (ListBroadcasts n)"
    "keeps (on_db R) (GetFilteredTelegramIDCount now f)" "keeps (on_db R) (GetRunnableBroadcasts now)"
    "keeps (on_db R) (GetBroadcastRecipientsStats i)"
    unfolding GetBroadcast_def ListBroadcasts_def GetFilteredTelegramIDCount_def GetRunnableBroadcasts_def
      GetBroadcastRecipientsStats_def
    by (intro db_combinators)+
qed

end

section \<open>The deliveries of a campaign\<close>

text \<open>What a delivery needs of a contract: that recording its progress and its outcome respects it.\<close>

locale delivery_statements = db_contract R for R :: "db \<Rightarrow> db \<Rightarrow> bool" +
  fixes bid :: uint
  assumes finish_R: "keeps (on_db R) (FinishBroadcastRecipient bid j k st txt now)"
    and progress_R: "keeps (on_db R) (UpdateBroadcastRecipientProgress bid j k k2 now)"
begin

lemma env_keeps:
  "keeps (on_db R) (now_of env)" "keeps (on_db R) (campaign_ctx env)" "keeps (on_db R) (sendWithError env c m)"
  "keeps (on_db R) (waitBroadcastDelay env t)"
  by (auto intro!: keepsI simp: on_db_def db_refl now_of_def campaign_ctx_def sendWithError_def
      waitBroadcastDelay_def split: send_answer.splits option.splits)

lemmas delivery_steps = db_combinators env_keeps finish_R progress_R

lemma flood_keeps: "keeps (on_db R) (flood_waits env c m e n)"
  by (induction n) (auto intro!: delivery_steps)

lemma try_keeps: "keeps (on_db R) (try_send env c m l ns)"
proof (induction ns arbitrary: l)
  case (Cons n ns)
  have "keeps (on_db R) (case f of FloodSent \<Rightarrow> returnE (TryDone None) | FloodEnd st txt \<Rightarrow> returnE (TryEnd st txt)
     | FloodStill \<Rightarrow> try_send env c m (Some e) ns | FloodOver \<Rightarrow> try_send env c m (Some e) ns)" for f e
    using Cons by (cases f) (auto intro: delivery_steps)
  then show ?case
    unfolding try_send.simps using Cons by (intro delivery_steps flood_keeps)
qed (auto intro: delivery_steps)

lemma recipient_keeps:
  "keeps (on_db R) (finishRecipientState env bid r st txt)" "keeps (on_db R) (saveRecipientProgress env bid r k)"
  unfolding finishRecipientState_def saveRecipientProgress_def by (intro delivery_steps)+

lemma deliver_keeps: "keeps (on_db R) (deliver_chunks env bid r i cs)"
proof (induction cs arbitrary: i)
  case (Cons c cs)
  have "keeps (on_db R) (case t of TryEnd st txt \<Rightarrow> finishRecipientState env bid r st txt
     | TryDone (Some e) \<Rightarrow> finishRecipientState env bid r BroadcastRecipientFailed (truncateRunes (tg_text e) broadcastErrorTextMaxLen)
     | TryDone None \<Rightarrow> tryE (saveRecipientProgress env bid r (int (Suc i))) (\<lambda>saved. case saved of
           Inl e \<Rightarrow> if lease_lost e then failE e else deliver_chunks env bid r (Suc i) cs
         | Inr _ \<Rightarrow> deliver_chunks env bid r (Suc i) cs))" for t
    using Cons by (auto intro!: delivery_steps recipient_keeps split: try_result.splits option.splits)
  then show ?case
    unfolding deliver_chunks.simps by (intro delivery_steps try_keeps)
qed (simp add: recipient_keeps)

lemma safely_keeps: "keeps (on_db R) (processRecipientSafely env txt bid r)"
  unfolding processRecipientSafely_def processRecipient_def Let_def
  by (intro delivery_steps deliver_keeps recipient_keeps)

lemma batch_keeps: "keeps (on_db R) (processRecipients env txt bid rs)"
  by (induction rs) (auto intro!: delivery_steps safely_keeps)

end

sublocale campaign_statements \<subseteq> delivery: delivery_statements R bid for bid
  by unfold_locales (rule store_keeps)+

context campaign_statements
begin

lemma worker_audit_keeps: "keeps (on_db R) (worker_audit e)"
  unfolding worker_audit_def InsertAuditLog_def by (intro db_combinators execE_keeps audit_R)

lemmas worker_steps = db_combinators store_keeps delivery.env_keeps worker_audit_keeps

lemma step_keeps: "keeps (on_db R) (campaign_step env bid txt)"
  unfolding campaign_step_def by (intro worker_steps delivery.batch_keeps)

lemma loop_keeps:
  assumes "campaign_loop env bid txt w = Some z"
  shows "on_db R w (snd z)"
proof (rule campaign_loop.raw_induct [where P = "\<lambda>_ _ _ w z. on_db R w (snd z)", OF _ assms])
  fix loop env bid "txt" w z
  assume ih: "\<And>env bid txt w y. loop env bid txt w = Some y \<Longrightarrow> on_db R w (snd y)"
    and body: "(case campaign_step env bid txt w of (Inl e, w') \<Rightarrow> Some (Inl e, w')
        | (Inr goes_on, w') \<Rightarrow> if goes_on then loop env bid txt w' else Some (Inr (), w')) = Some z"
  obtain r w1 where r: "campaign_step env bid txt w = (r, w1)"
    by (cases "campaign_step env bid txt w")
  then have k: "on_db R w w1"
    using keepsD [OF step_keeps, of w env bid "txt"] by simp
  show "on_db R w (snd z)"
  proof (cases "r = Inr True")
    case True
    then have "on_db R w1 (snd z)"
      using body r by (intro ih) simp
    with k show ?thesis by (rule world.R_trans)
  next
    case False
    with body r k show ?thesis
      by (auto split: sum.splits if_splits)
  qed
qed

lemma outcome_keeps:
  "keeps (on_db R) (markCampaignFailed env i e)" "keeps (on_db R) (scheduleRetry env i e)"
  "keeps (on_db R) (sendAdminReport env b)"
  unfolding markCampaignFailed_def scheduleRetry_def sendAdminReport_def Let_def
  by (intro worker_steps)+

lemma finish_keeps: "keeps (on_db R) (finishCampaign env b)"
proof -
  have "keeps (on_db R) (case b_status c of BroadcastStatusCompleted \<Rightarrow> worker_audit (AuditBroadcastCompleted c)
     | BroadcastStatusCanceled \<Rightarrow> worker_audit (AuditBroadcastCanceled c (bw_admin env))
     | _ \<Rightarrow> failE [ErrBroadcastIncomplete])" for c
    by (cases "b_status c") (auto intro: worker_steps)
  then show ?thesis
    unfolding finishCampaign_def Let_def by (intro worker_steps)
qed

lemma phases_keep:
  "keeps (on_db R) (prepare_campaign env i)" "keeps (on_db R) (close_campaign env i)"
  unfolding prepare_campaign_def start_campaign_def prepare_audience_def close_campaign_def
  by (intro worker_steps outcome_keeps finish_keeps)+

lemma run_keeps:
  assumes "run_campaign env i w = Some z"
  shows "on_db R w (snd z)"
proof -
  obtain p w1 where p: "prepare_campaign env i w = (p, w1)"
    by (cases "prepare_campaign env i w")
  have k1: "on_db R w w1"
    using keepsD [OF phases_keep(1), of w env i] p by simp
  show ?thesis
  proof (cases "\<exists>b. p = Inr (Some b)")
    case False
    with assms p k1 show ?thesis
      by (auto simp: run_campaign_def split: sum.splits option.splits)
  next
    case True
    then obtain b q w2 where l: "p = Inr (Some b)" "campaign_loop env i (b_message_text b) w1 = Some (q, w2)"
      using assms p by (auto simp: run_campaign_def split: option.splits)
    have k2: "on_db R w w2"
      using world.R_trans [OF k1] loop_keeps [OF l(2)] by simp
    then have "on_db R w (snd (close_campaign env i w2))"
      using world.R_trans keepsD [OF phases_keep(2), of w2 env i] by blast
    with k2 l p assms show ?thesis
      by (auto simp: run_campaign_def split: sum.splits)
  qed
qed

lemma campaign_keeps:
  assumes "processCampaign env i w = Some z"
  shows "on_db R w (snd z)"
proof -
  obtain q w1 where r: "run_campaign env i w = Some (q, w1)"
    using assms by (auto simp: processCampaign_def split: option.splits)
  have k: "on_db R w w1"
    using run_keeps [OF r] by simp
  have "keeps (on_db R) (tryE (scheduleRetry env i e) (\<lambda>_. failE e :: (world, unit) op))" for e
    by (rule world.tryE_keeps [OF outcome_keeps(2) world.failE_keeps])
  then have "on_db R w (snd (tryE (scheduleRetry env i e) (\<lambda>_. failE e :: (world, unit) op) w1))" for e
    by (rule world.R_trans [OF k keepsD [where R = "on_db R"]])
  then have "on_db R w (snd z)" if "q = Inl e" for e
    using that k r assms by (cases "planned_stop e") (auto simp: processCampaign_def)
  moreover have "on_db R w (snd z)" if "q = Inr u" for u
    using that k r assms by (auto simp: processCampaign_def)
  ultimately show ?thesis
    by (cases q) blast+
qed

lemma campaigns_keep: "process_campaigns env bs w = Some w' \<Longrightarrow> on_db R w w'"
proof (induction bs arbitrary: w)
  case (Cons b bs)
  then obtain z where z: "processCampaign env (b_id b) w = Some z" "process_campaigns env bs (snd z) = Some w'"
    by (auto split: option.splits)
  with world.R_trans [OF campaign_keeps [OF z(1)]] Cons.IH show ?case by blast
qed (simp add: world.R_refl)

lemma pass_keeps:
  assumes "process_broadcasts env w = Some w'"
  shows "on_db R w w'"
proof -
  obtain q w1 where q: "GetRunnableBroadcasts (bw_now env w) w = (q, w1)"
    by (cases "GetRunnableBroadcasts (bw_now env w) w")
  have k: "on_db R w w1"
    using keepsD [OF store_keeps(12), of w "bw_now env w"] q by simp
  show ?thesis
  proof (cases q)
    case (Inl e)
    with q k assms show ?thesis by (simp add: process_broadcasts_def)
  next
    case (Inr bs)
    then have "on_db R w1 w'"
      using q assms by (intro campaigns_keep [of env bs]) (simp add: process_broadcasts_def)
    with k show ?thesis by (rule world.R_trans)
  qed
qed

lemma admin_keeps: "keeps (on_db R) (Cancel env i)" "keeps (on_db R) (RetryFailed env i)"
  unfolding Cancel_def RetryFailed_def by (intro worker_steps cancel_keeps reset_keeps)+

end

section \<open>The contracts\<close>

interpretation campaigns_st: campaign_statements campaigns_evolve
proof
  show "campaigns_evolve d (snd (update_broadcasts P f d))"
    if ev: "campaigns_wf d \<Longrightarrow> \<forall>b \<in> set (broadcasts d). P b \<longrightarrow> campaign_evolves b (f b)" for P f d
    unfolding campaigns_evolve_def
  proof (intro impI conjI ballI)
    assume wf: "campaigns_wf d"
    with ev have row: "campaign_evolves b (if P b then f b else b)" if "b \<in> set (broadcasts d)" for b
      using that by simp
    then have "map b_id (update_where P f (broadcasts d)) = map b_id (broadcasts d)"
      by (auto simp: update_where_def campaign_evolves_def)
    then show "campaigns_wf (snd (update_broadcasts P f d))"
      using wf row by (auto simp: campaigns_wf_def update_broadcasts_def ball_update_where campaign_evolves_def)
    show "\<exists>b' \<in> set (broadcasts (snd (update_broadcasts P f d))). campaign_evolves b b'"
      if "b \<in> set (broadcasts d)" for b
      using row [OF that] imageI [OF that, of "\<lambda>b. if P b then f b else b"]
      unfolding update_broadcasts_def update_where_def by (intro bexI [of _ "if P b then f b else b"]) simp_all
  qed
  show "campaigns_evolve d (snd (insert_broadcast b d))" for b d
    by (auto simp: campaigns_evolve_def campaigns_wf_def insert_broadcast_def Let_def intro: campaign_evolves_refl)
  show "campaigns_evolve d (snd (append_audit e d))" for d e
    by (rule campaigns_evolve_same) (simp_all add: append_audit_def)
qed

lemma broadcast_frames:
  "orders (snd (update_broadcasts P f d)) = orders d" "orders (snd (insert_broadcast b d)) = orders d"
  "order_seq (snd (update_broadcasts P f d)) = order_seq d" "order_seq (snd (insert_broadcast b d)) = order_seq d"
  "subscriptions (snd (update_broadcasts P f d)) = subscriptions d"
  "subscriptions (snd (insert_broadcast b d)) = subscriptions d"
  "subscription_seq (snd (update_broadcasts P f d)) = subscription_seq d"
  "subscription_seq (snd (insert_broadcast b d)) = subscription_seq d"
  "subscription_nodes (snd (update_broadcasts P f d)) = subscription_nodes d"
  "subscription_nodes (snd (insert_broadcast b d)) = subscription_nodes d"
  "audit (snd (update_broadcasts P f d)) = audit d" "audit (snd (insert_broadcast b d)) = audit d"
  "audit_seq (snd (update_broadcasts P f d)) = audit_seq d" "audit_seq (snd (insert_broadcast b d)) = audit_seq d"
  by (simp_all add: update_broadcasts_def insert_broadcast_def Let_def)

interpretation orders_camp: campaign_statements orders_evolve
  by unfold_locales (auto intro!: orders_evolve_same orders_st.audit_R simp: broadcast_frames)

interpretation subs_camp: campaign_statements subs_evolve
  by unfold_locales (auto intro!: subs_evolve_same subs_all.ord.audit_R simp: broadcast_frames)

interpretation bindings_camp: campaign_statements bindings_keep
  by unfold_locales (auto intro!: bindings_keep_same simp: broadcast_frames append_audit_def)

interpretation journal_camp: campaign_statements journal_grows
  by unfold_locales (auto intro!: journal_grows_refl journal_st.audit_R simp: broadcast_frames)

text \<open>And every statement of the other tables leaves the campaigns alone.\<close>

lemma campaign_frames:
  "update_orders P1 f1 d = Inr (n, d') \<Longrightarrow> broadcasts d' = broadcasts d \<and> broadcast_seq d' = broadcast_seq d"
  "insert_order r d = Inr (r', d') \<Longrightarrow> broadcasts d' = broadcasts d \<and> broadcast_seq d' = broadcast_seq d"
  "update_bindings P2 f2 d = Inr (n, d') \<Longrightarrow> broadcasts d' = broadcasts d \<and> broadcast_seq d' = broadcast_seq d"
  "insert_binding sn d = Inr (u, d') \<Longrightarrow> broadcasts d' = broadcasts d \<and> broadcast_seq d' = broadcast_seq d"
  "upsert_binding sn d = Inr (u, d') \<Longrightarrow> broadcasts d' = broadcasts d \<and> broadcast_seq d' = broadcast_seq d"
  "update_subs P3 f3 d = Inr (n, d') \<Longrightarrow> broadcasts d' = broadcasts d \<and> broadcast_seq d' = broadcast_seq d"
  "insert_subscription s d = Inr (s', d') \<Longrightarrow> broadcasts d' = broadcasts d \<and> broadcast_seq d' = broadcast_seq d"
  "delete_subs P4 d = Inr (gone, d') \<Longrightarrow> broadcasts d' = broadcasts d \<and> broadcast_seq d' = broadcast_seq d"
  "upsert_invite c j d = Inr (u, d') \<Longrightarrow> broadcasts d' = broadcasts d \<and> broadcast_seq d' = broadcast_seq d"
  by (auto simp: update_orders_def insert_order_def update_bindings_def insert_binding_def upsert_binding_def
      update_subs_def insert_subscription_def delete_subs_def upsert_invite_def Let_def split: if_splits)

interpretation campaigns_all: store_statements campaigns_evolve
  by unfold_locales
    (auto intro!: campaigns_evolve_same dest: campaign_frames
      simp: append_audit_def update_subscriptions_def delete_bindings_def claim_trials_def)

end
