(* ===== verification/Broadcast_Claims.thy ===== *)
theory Broadcast_Claims
  imports Broadcast_Laws
begin

text \<open>
  What the broadcasts guarantee: final outcomes stay, the delivery loop ends, a campaign is closed
  as completed only when nobody is left, the pauses of the retries, and who is addressed.
\<close>

section \<open>Whatever happens to a campaign\<close>

text \<open>
  A history of a campaign: passes of the worker, launches, the administrator's actions, new
  campaigns, and in between anything else that respects the contract (all services do), with any
  script of faults and interleavings for what follows.
\<close>

inductive campaign_action :: "bw_env \<Rightarrow> world \<Rightarrow> world \<Rightarrow> bool" for env where
  Pass: "process_broadcasts env w = Some w' \<Longrightarrow> campaign_action env w w'"
| Launch: "processCampaign env i w = Some (q, w') \<Longrightarrow> campaign_action env w w'"
| CancelAction: "Cancel env i w = (c, w') \<Longrightarrow> campaign_action env w w'"
| RetryAction: "RetryFailed env i w = (u, w') \<Longrightarrow> campaign_action env w w'"
| CreateAction: "CreateBroadcast b w = (n, w') \<Longrightarrow> campaign_action env w w'"
| Meanwhile: "campaigns_evolve (db w) (db w') \<Longrightarrow> rely campaigns_evolve w' \<Longrightarrow> campaign_action env w w'"

inductive campaign_history :: "bw_env \<Rightarrow> world \<Rightarrow> world \<Rightarrow> bool" for env where
  Start: "campaign_history env w w"
| Next: "campaign_history env w w1 \<Longrightarrow> campaign_action env w1 w2 \<Longrightarrow> campaign_history env w w2"

lemma action_evolves: "campaign_action env w w' \<Longrightarrow> on_db campaigns_evolve w w'"
proof (induction rule: campaign_action.induct)
  case (Pass w w')
  then show ?case by (rule campaigns_st.pass_keeps)
next
  case (Launch i w q w')
  then show ?case using campaigns_st.campaign_keeps by fastforce
next
  case (CancelAction i w c w')
  then show ?case using keepsD [OF campaigns_st.admin_keeps(1), of w env i] by simp
next
  case (RetryAction i w u w')
  then show ?case using keepsD [OF campaigns_st.admin_keeps(2), of w env i] by simp
next
  case (CreateAction b w n w')
  then show ?case using keepsD [OF campaigns_st.store_keeps(1), of w b] by simp
qed (simp add: on_db_def)

lemma history_evolves: "campaign_history env w w' \<Longrightarrow> on_db campaigns_evolve w w'"
proof (induction rule: campaign_history.induct)
  case (Next w w1 w2)
  then show ?case
    using campaigns.world.R_trans action_evolves by blast
qed (rule campaigns.world.R_refl)

text \<open>C17. An outcome recorded as sent, blocked or unreachable is final, and the audience of a campaign
  is fixed by its snapshot: through any history of passes, launches, cancellations and retries, with any
  faults and interleavings, the recipient's entry stays as it is and the campaign keeps exactly the
  recipients it was taken for.\<close>

theorem outcomes_are_final:
  assumes "campaign_history env w w'" "rely campaigns_evolve w" "campaigns_wf (db w)"
    and "b \<in> set (broadcasts (db w))" "b_recipients_state b = Some st" "rs_snapshot st"
  shows "\<exists>b' \<in> set (broadcasts (db w')). b_id b' = b_id b \<and> b_message_text b' = b_message_text b
    \<and> (\<exists>st'. b_recipients_state b' = Some st' \<and> rs_snapshot st'
        \<and> map br_telegram_id (rs_recipients st') = map br_telegram_id (rs_recipients st)
        \<and> (\<forall>r \<in> set (rs_recipients st). settled (br_status r) \<longrightarrow> r \<in> set (rs_recipients st')))"
proof -
  have "campaigns_evolve (db w) (db w')"
    using history_evolves [OF assms(1)] assms(2) by (simp add: on_db_def)
  then obtain b' where b': "b' \<in> set (broadcasts (db w'))" "campaign_evolves b b'"
    using assms(3,4) by (auto simp: campaigns_evolve_def)
  then obtain st' where st': "b_recipients_state b' = Some st'" "rs_snapshot st'"
    "list_all2 recipient_evolves (rs_recipients st) (rs_recipients st')"
    using assms(5,6) by (auto simp: campaign_evolves_def state_evolves_def)
  have "map br_telegram_id (rs_recipients st') = map br_telegram_id (rs_recipients st)"
    using st'(3) by (induction rule: list_all2_induct) (simp_all add: recipient_evolves_def)
  moreover have "\<forall>r \<in> set (rs_recipients st). settled (br_status r) \<longrightarrow> r \<in> set (rs_recipients st')"
    using st'(3) by (induction rule: list_all2_induct) (auto simp: recipient_evolves_def)
  ultimately show ?thesis
    using b' st'(1,2) by (auto simp: campaign_evolves_def)
qed

section \<open>The delivery loop ends\<close>

definition pending_count :: "broadcast_recipient list \<Rightarrow> nat" where
  "pending_count rs = count_where (\<lambda>r. br_status r = BroadcastRecipientPending) rs"

definition pending_of :: "broadcast \<Rightarrow> nat" where
  "pending_of b = (case b_recipients_state b of None \<Rightarrow> 0 | Some st \<Rightarrow> pending_count (rs_recipients st))"

definition pending_in :: "uint \<Rightarrow> db \<Rightarrow> nat" where
  "pending_in i d = (case find_broadcast i d of Inl _ \<Rightarrow> 0 | Inr b \<Rightarrow> pending_of b)"

text \<open>Nobody is added to those who wait for delivery.\<close>

definition fewer_pending :: "uint \<Rightarrow> db \<Rightarrow> db \<Rightarrow> bool" where
  "fewer_pending i d d' \<longleftrightarrow> pending_in i d' \<le> pending_in i d"

interpretation fewer: db_contract "fewer_pending i" for i
  by unfold_locales (auto simp: fewer_pending_def)

lemma find_after_update:
  assumes "find_broadcast i d = Inr b" "\<And>r. b_id (f r) = b_id r"
  shows "find_broadcast i (snd (update_broadcasts (\<lambda>r. b_id r = i) f d)) = Inr (f b)"
proof -
  have "find (\<lambda>b. b_id b = i) (update_where (\<lambda>r. b_id r = i) f bs) = Some (f b)"
    if "find (\<lambda>b. b_id b = i) bs = Some b" for bs
    using that by (induction bs) (auto simp: update_where_def assms(2) split: if_splits)
  then show ?thesis
    using assms(1)
    by (auto simp: find_broadcast_def or_not_found_def select_first_def update_broadcasts_def split: option.splits)
qed

text \<open>A change of the state of the recipients that succeeded.\<close>

lemma state_update_ok:
  assumes "updateBroadcastRecipientState i mutate w = (Inr x, w')"
  obtains b st st' where "find_broadcast i (db (step_other w)) = Inr b" "b_recipients_state b = Some st"
    "mutate b st = Inr (x, st')" "find_broadcast i (db w') = Inr (set_recipients st' b)"
    "db w' = snd (update_broadcasts (\<lambda>r. b_id r = i) (set_recipients st') (db (step_other w)))"
    "trace w' = trace w"
proof -
  obtain w1 where body: "bindE (tx_queryE (find_broadcast i)) (\<lambda>b.
      case parseBroadcastRecipientState b of Inl e \<Rightarrow> failE e
      | Inr st \<Rightarrow> (case mutate b st of Inl e \<Rightarrow> failE e
         | Inr (x, st') \<Rightarrow> bindE (tx_execE (update_broadcasts (\<lambda>r. b_id r = i) (set_recipients st'))) (\<lambda>n.
              if n = 0 then failE [ErrBroadcastNotFound] else returnE x))) (step_other w) = (Inr x, w1)"
    and w1: "db w' = db w1" "trace w' = trace w1"
    using assms unfolding updateBroadcastRecipientState_def by (rule transaction_ok)
  then obtain b w2 st st' n where
    b: "tx_queryE (find_broadcast i) (step_other w) = (Inr b, w2)" and
    st: "b_recipients_state b = Some st" "mutate b st = Inr (x, st')" and
    u: "tx_execE (update_broadcasts (\<lambda>r. b_id r = i) (set_recipients st')) w2 = (Inr n, w1)"
    by (auto simp: parseBroadcastRecipientState_def plain_ok elim!: bindE_ok split: option.splits sum.splits if_splits)
  have f: "find_broadcast i (db (step_other w)) = Inr b" "db w2 = db (step_other w)" "trace w2 = trace w"
    using tx_queryE_ok [OF b] by simp_all
  moreover have "db w' = snd (update_broadcasts (\<lambda>r. b_id r = i) (set_recipients st') (db (step_other w)))"
    using tx_execE_ok(1) [OF u] f(2) w1(1) by simp
  moreover have "find_broadcast i (snd (update_broadcasts (\<lambda>r. b_id r = i) (set_recipients st') (db (step_other w))))
      = Inr (set_recipients st' b)"
    by (rule find_after_update [OF f(1)]) (simp add: set_recipients_def)
  moreover have "trace w' = trace w"
    using tx_execE_ok(2) [OF u] f(3) w1(2) by simp
  ultimately show ?thesis
    using st that by metis
qed

lemma state_update_fewer:
  assumes "\<And>b st x st'. mutate b st = Inr (x, st') \<Longrightarrow> pending_count (rs_recipients st') \<le> pending_count (rs_recipients st)"
  shows "keeps (on_db (fewer_pending i)) (updateBroadcastRecipientState i mutate)"
proof (rule fewer.state_update_R)
  fix d b st x st'
  assume b: "find_broadcast i d = Inr b" "b_recipients_state b = Some st" "mutate b st = Inr (x, st')"
  have "find_broadcast i (snd (update_broadcasts (\<lambda>r. b_id r = i) (set_recipients st') d)) = Inr (set_recipients st' b)"
    by (rule find_after_update [OF b(1)]) (simp add: set_recipients_def)
  then show "fewer_pending i d (snd (update_broadcasts (\<lambda>r. b_id r = i) (set_recipients st') d))"
    using b(1,2) assms [OF b(3)]
    by (simp add: fewer_pending_def pending_in_def pending_of_def set_recipients_def)
qed

lemma with_lease_pending:
  assumes "with_lease i n f rs = Inr rs'" "\<And>r. lease_held n r \<Longrightarrow> br_status (f r) \<noteq> BroadcastRecipientPending"
  shows "pending_count rs' \<le> pending_count rs"
  using assms(1)
proof (induction rs arbitrary: rs')
  case (Cons r rs)
  then show ?case
    using assms(2) [of r]
    by (auto simp: pending_count_def count_where_def lease_held_def split: if_splits sum.splits)
qed simp

lemma leased_fewer:
  assumes "\<And>r. lease_held n r \<Longrightarrow> br_status (f r) \<noteq> BroadcastRecipientPending"
  shows "keeps (on_db (fewer_pending bid)) (update_leased bid i n f)"
  unfolding update_leased_def
  by (rule state_update_fewer) (auto dest: with_lease_pending [OF _ assms] split: sum.splits)

interpretation fewer: delivery_statements "fewer_pending bid" bid for bid
proof
  show "keeps (on_db (fewer_pending bid)) (FinishBroadcastRecipient bid j k st txt now)" for j k st "txt" now
    unfolding FinishBroadcastRecipient_def
  proof (cases "terminal st")
    case True
    then show "keeps (on_db (fewer_pending bid)) (if \<not> terminal st then failE (errors_new ''invalid broadcast recipient status'')
        else update_leased bid j k (finished st txt now))"
      by (auto simp: finished_def terminal_def intro!: leased_fewer)
  qed (simp add: fewer.world.failE_keeps)
  show "keeps (on_db (fewer_pending bid)) (UpdateBroadcastRecipientProgress bid j k k2 now)" for j k k2 now
    unfolding UpdateBroadcastRecipientProgress_def
    by (rule leased_fewer) (simp add: progressed_def lease_held_def)
qed

lemma claim_pending_count: "claim_pending now n rs = (c, rs') \<Longrightarrow> pending_count rs' + length c = pending_count rs"
  by (induction now n rs arbitrary: c rs' rule: claim_pending.induct)
    (auto simp: pending_count_def count_where_def lease_def split: if_splits prod.splits)

lemma claim_counts:
  assumes "ClaimBroadcastRecipients i now m w = (Inr c, w')"
  shows "pending_in i (db w') + length c = pending_in i (db (step_other w))"
  using assms unfolding ClaimBroadcastRecipients_def
  by (elim state_update_ok)
    (auto simp: pending_in_def pending_of_def set_recipients_def Let_def dest: claim_pending_count
      split: if_splits prod.splits)

lemma claim_fewer: "keeps (on_db (fewer_pending i)) (ClaimBroadcastRecipients i now m)"
  unfolding ClaimBroadcastRecipients_def
  by (rule state_update_fewer) (auto simp: Let_def dest: claim_pending_count split: if_splits prod.splits)

lemma get_fewer: "keeps (on_db (fewer_pending i)) (GetBroadcast j)"
  unfolding GetBroadcast_def by (rule fewer.queryE_keeps)

lemma env_run:
  "now_of env w = (r, w') \<Longrightarrow> w' = w" "campaign_ctx env w = (q, w') \<Longrightarrow> w' = w"
  by (simp_all add: now_of_def campaign_ctx_def)

lemma campaign_step_progress:
  assumes "campaign_step env i txt w = (Inr True, w')" "rely (fewer_pending i) w"
  shows "pending_in i (db w') < pending_in i (db w) \<and> rely (fewer_pending i) w'"
proof -
  obtain b w1 now r rs w2 errs w3 where
    get: "GetBroadcast i w = (Inr b, w1)" and
    claim: "ClaimBroadcastRecipients i now broadcastBatchSize w1 = (Inr (r # rs), w2)" and
    batch: "processRecipients env txt i (r # rs) w2 = (Inr errs, w3)" and
    w': "w' = w3"
    using assms(1) unfolding campaign_step_def
    by (auto simp: plain_ok simp del: processRecipients.simps dest!: env_run elim!: bindE_ok tryE_run
        split: sum.splits list.splits if_splits)
  have 1: "pending_in i (db w1) \<le> pending_in i (db w)" "rely (fewer_pending i) w1"
    using keeps_run [OF get_fewer assms(2) get] by (simp_all add: fewer_pending_def)
  have 2: "pending_in i (db w2) < pending_in i (db w1)" "rely (fewer_pending i) w2"
    using claim_counts [OF claim] fewer.step_other_R [OF 1(2)] keeps_run(2) [OF claim_fewer 1(2) claim]
    by (simp_all add: fewer_pending_def)
  have 3: "pending_in i (db w3) \<le> pending_in i (db w2)" "rely (fewer_pending i) w3"
    using keeps_run [OF fewer.batch_keeps 2(2) batch] by (simp_all add: fewer_pending_def)
  from 1 2 3 w' show ?thesis by simp
qed

lemma campaign_loop_ends: "rely (fewer_pending i) w \<Longrightarrow> \<exists>z. campaign_loop env i txt w = Some z"
proof (induction "pending_in i (db w)" arbitrary: w rule: less_induct)
  case less
  obtain r w1 where r: "campaign_step env i txt w = (r, w1)"
    by (cases "campaign_step env i txt w")
  show ?case
  proof (cases "r = Inr True")
    case True
    then have "\<exists>z. campaign_loop env i txt w1 = Some z"
      using campaign_step_progress [of env i "txt" w w1] less r by blast
    with True r show ?thesis
      by (subst campaign_loop.simps) simp
  next
    case False
    with r show ?thesis
      by (subst campaign_loop.simps) (auto split: sum.splits)
  qed
qed

text \<open>What precedes the loop takes its turns from the script like everything else.\<close>

lemma env_spends: "keeps spends (now_of env)" "keeps spends (campaign_ctx env)"
  by (auto intro!: keepsI simp: spends_def now_of_def campaign_ctx_def)

lemma state_update_spends: "keeps spends (updateBroadcastRecipientState i mutate)"
  unfolding updateBroadcastRecipientState_def by (intro transaction_spends spend.combinators tx_spends)

lemma prepare_spends: "keeps spends (prepare_campaign env i)"
  unfolding prepare_campaign_def start_campaign_def prepare_audience_def markCampaignFailed_def
    ClaimBroadcast_def UpdateBroadcast_def worker_audit_def InsertAuditLog_def GetBroadcast_def
    SnapshotBroadcastRecipients_def RecoverStaleBroadcastRecipients_def Let_def
  by (intro spend.combinators world_spends env_spends state_update_spends)

text \<open>C18. The launch of a campaign returns, whatever Telegram answers, the database fails at and the
  clock does, as long as no other session puts recipients back into the queue meanwhile.\<close>

theorem processCampaign_returns:
  assumes "rely (fewer_pending i) w"
  shows "\<exists>z. processCampaign env i w = Some z"
proof -
  have "\<exists>z. campaign_loop env i m w1 = Some z" if "prepare_campaign env i w = (p, w1)" for p w1 m
    using that assms keepsD [OF prepare_spends, of w env i]
    by (intro campaign_loop_ends rely_spends [OF assms]) simp
  then have "\<exists>z. run_campaign env i w = Some z"
    by (auto simp: run_campaign_def split: prod.splits sum.splits option.splits) (metis option.distinct(1))+
  then show ?thesis
    by (auto simp: processCampaign_def split: sum.splits)
qed

section \<open>Parts are delivered in order, each at most once\<close>

definition accepted :: "effect list \<Rightarrow> (int \<times> string) list" where
  "accepted tr = concat (map (\<lambda>e. case e of EffBroadcast chat msg True \<Rightarrow> [(chat, msg)] | _ \<Rightarrow> []) tr)"

lemma accepted_simps [simp]:
  "accepted (tr @ [EffBroadcast c m True]) = accepted tr @ [(c, m)]"
  "accepted (tr @ [EffBroadcast c m False]) = accepted tr"
  "accepted (tr @ [EffWait t]) = accepted tr"
  by (simp_all add: accepted_def)

text \<open>Talking to Telegram touches neither the database nor the script; \<open>a\<close> is what it took.\<close>

definition talks :: "(int \<times> string) list \<Rightarrow> world \<Rightarrow> world \<Rightarrow> bool" where
  "talks a w w' \<longleftrightarrow> db w' = db w \<and> turns w' = turns w \<and> accepted (trace w') = accepted (trace w) @ a"

lemma talks_refl [simp]: "talks [] w w"
  by (simp add: talks_def)

lemma talks_trans: "talks a w w1 \<Longrightarrow> talks b w1 w2 \<Longrightarrow> talks (a @ b) w w2"
  by (simp add: talks_def)

lemma wait_talks: "waitBroadcastDelay env t w = (r, w') \<Longrightarrow> talks [] w w'"
  by (auto simp: waitBroadcastDelay_def talks_def split: option.splits)

lemma send_talks:
  "sendWithError env c m w = (r, w') \<Longrightarrow> talks (if r = Inr None then [(c, m)] else []) w w'"
  by (auto simp: sendWithError_def talks_def split: send_answer.splits)

lemma flood_talks:
  "flood_waits env c m e n w = (r, w') \<Longrightarrow> talks (if r = Inr FloodSent then [(c, m)] else []) w w'"
proof (induction n arbitrary: w)
  case (Suc n)
  obtain q w1 where q: "waitBroadcastDelay env (floodRetryDelay e) w = (q, w1)"
    by (cases "waitBroadcastDelay env (floodRetryDelay e) w")
  obtain s w2 where s: "sendWithError env c m w1 = (s, w2)"
    by (cases "sendWithError env c m w1")
  have a: "talks (if s = Inr None then [(c, m)] else []) w w2"
    using talks_trans [OF wait_talks [OF q] send_talks [OF s]] by simp
  show ?case
    using Suc.prems q s a wait_talks [OF q] talks_trans [OF a] Suc.IH [of w2]
    by (auto simp: bindE_def plain_ok returnE_def split: sum.splits option.splits if_splits)
qed (auto simp: returnE_def)

lemma try_talks:
  "l \<noteq> None \<or> ns \<noteq> [] \<Longrightarrow> try_send env c m l ns w = (r, w') \<Longrightarrow>
     talks (if r = Inr (TryDone None) then [(c, m)] else []) w w'"
proof (induction ns arbitrary: l w)
  case (Cons n ns)
  let ?first = "if 0 < n then waitBroadcastDelay env (broadcastSendRetryBaseDelay * int n) else returnE ()"
  obtain q w1 where q: "?first w = (q, w1)"
    by (cases "?first w")
  have t1: "talks [] w w1"
    using q wait_talks [of env _ w q w1] by (auto simp: returnE_def split: if_splits)
  obtain s w2 where s: "sendWithError env c m w1 = (s, w2)"
    by (cases "sendWithError env c m w1")
  have t2: "talks (if s = Inr None then [(c, m)] else []) w w2"
    using talks_trans [OF t1 send_talks [OF s]] by simp
  have again: "talks (if r = Inr (TryDone None) then [(c, m)] else []) w w'"
    if "talks [] w w3" "try_send env c m (Some e) ns w3 = (r, w')" for w3 e
    using talks_trans [OF that(1) Cons.IH [OF _ that(2)]] by simp
  show ?case
  proof (cases "\<exists>e. q = Inr () \<and> s = Inr (Some e) \<and> \<not> isUserBlockedError e \<and> \<not> isUserUnreachableError e")
    case False
    with Cons.prems(2) q s t1 t2 show ?thesis
      by (auto simp: bindE_def returnE_def split: sum.splits option.splits if_splits)
  next
    case True
    then obtain e where e: "q = Inr ()" "s = Inr (Some e)" "\<not> isUserBlockedError e" "\<not> isUserUnreachableError e"
      by blast
    obtain f w3 where f: "flood_waits env c m e broadcastFloodMaxWaits w2 = (f, w3)"
      by (cases "flood_waits env c m e broadcastFloodMaxWaits w2")
    have t3: "talks (if f = Inr FloodSent then [(c, m)] else []) w w3"
      using talks_trans [OF t2 flood_talks [OF f]] e(2) by simp
    show ?thesis
      using Cons.prems(2) q s e f t2 t3 again [of w2 e] again [of w3 e]
      by (auto simp: bindE_def returnE_def split: sum.splits flood_result.splits if_splits)
  qed
qed (auto simp: returnE_def)

text \<open>Statements on the recipients are silent.\<close>

lemma transaction_trace:
  assumes "\<And>w. trace (snd (m w)) = trace w"
  shows "trace (snd (transaction m w)) = trace w"
  using assms [of "step_other w"]
  by (auto simp: transaction_def Let_def split: prod.splits sum.splits turn.splits)

lemma tx_trace: "trace (snd (tx_queryE f w)) = trace w" "trace (snd (tx_execE g w)) = trace w"
  by (auto simp: tx_queryE_def tx_execE_def txE_def run_stmt_def split: turn.splits sum.splits prod.splits)

definition silent :: "world \<Rightarrow> world \<Rightarrow> bool" where
  "silent w w' \<longleftrightarrow> trace w' = trace w"

interpretation silence: op_contract silent
  by unfold_locales (simp_all add: silent_def)

lemma state_update_silent: "keeps silent (updateBroadcastRecipientState i mutate)"
proof -
  have "keeps silent (tx_queryE f)" "keeps silent (tx_execE g)" for f :: "db \<Rightarrow> error + broadcast" and g :: "db \<Rightarrow> nat \<times> db"
    by (auto intro!: keepsI simp: silent_def tx_trace)
  then have "keeps silent (bindE (tx_queryE (find_broadcast i)) (\<lambda>b.
      case parseBroadcastRecipientState b of Inl e \<Rightarrow> failE e
      | Inr st \<Rightarrow> (case mutate b st of Inl e \<Rightarrow> failE e
         | Inr (x, st') \<Rightarrow> bindE (tx_execE (update_broadcasts (\<lambda>r. b_id r = i) (set_recipients st'))) (\<lambda>n.
              if n = 0 then failE [ErrBroadcastNotFound] else returnE x))))"
    by (intro silence.combinators)
  then show ?thesis
    unfolding updateBroadcastRecipientState_def
    by (auto intro!: keepsI transaction_trace simp: silent_def keeps_def)
qed

lemma recipient_silent:
  "keeps silent (finishRecipientState env bid r st txt)" "keeps silent (saveRecipientProgress env bid r k)"
proof -
  have now: "keeps silent (now_of env)"
    by (auto intro!: keepsI simp: silent_def now_of_def)
  show "keeps silent (finishRecipientState env bid r st txt)" "keeps silent (saveRecipientProgress env bid r k)"
    unfolding finishRecipientState_def saveRecipientProgress_def FinishBroadcastRecipient_def
      UpdateBroadcastRecipientProgress_def update_leased_def
    by (intro silence.combinators now state_update_silent)+
qed

lemma silent_accepted: "keeps silent m \<Longrightarrow> m w = (r, w') \<Longrightarrow> accepted (trace w') = accepted (trace w)"
  using keepsD [of silent m w] by (simp add: silent_def)

lemma deliver_prefix:
  "deliver_chunks env bid r i cs w = (q, w') \<Longrightarrow>
     \<exists>k \<le> length cs. accepted (trace w') = accepted (trace w) @ map (Pair (br_telegram_id r)) (take k cs)"
proof (induction cs arbitrary: i w)
  case Nil
  then show ?case
    using silent_accepted [OF recipient_silent(1)] by simp
next
  case (Cons c cs)
  obtain t w1 where t: "try_send env (br_telegram_id r) c None [0..<Suc broadcastRetries] w = (t, w1)"
    by (cases "try_send env (br_telegram_id r) c None [0..<Suc broadcastRetries] w")
  have tk: "accepted (trace w1) = accepted (trace w) @ (if t = Inr (TryDone None) then [(br_telegram_id r, c)] else [])"
    using try_talks [OF _ t] by (simp add: talks_def)
  show ?case
  proof (cases "t = Inr (TryDone None)")
    case False
    then have "accepted (trace w') = accepted (trace w)"
      using Cons.prems t tk silent_accepted [OF recipient_silent(1)]
      by (auto simp: bindE_def split: sum.splits try_result.splits option.splits)
    then show ?thesis
      by (intro exI [of _ 0]) simp
  next
    case True
    obtain s w2 where s: "saveRecipientProgress env bid r (int (Suc i)) w1 = (s, w2)"
      by (cases "saveRecipientProgress env bid r (int (Suc i)) w1")
    have a2: "accepted (trace w2) = accepted (trace w) @ [(br_telegram_id r, c)]"
      using silent_accepted [OF recipient_silent(2) s] tk True by simp
    show ?thesis
    proof (cases "\<exists>e. s = Inl e \<and> lease_lost e")
      case True
      then have "accepted (trace w') = accepted (trace w) @ map (Pair (br_telegram_id r)) (take 1 (c # cs))"
        using Cons.prems t \<open>t = Inr (TryDone None)\<close> s a2 by (auto simp: bindE_def tryE_def failE_def)
      then show ?thesis by (intro exI [of _ 1]) simp
    next
      case False
      then have "deliver_chunks env bid r (Suc i) cs w2 = (q, w')"
        using Cons.prems t \<open>t = Inr (TryDone None)\<close> s by (auto simp: bindE_def tryE_def split: sum.splits)
      then obtain k where "k \<le> length cs"
        "accepted (trace w') = accepted (trace w2) @ map (Pair (br_telegram_id r)) (take k cs)"
        using Cons.IH by blast
      with a2 show ?thesis by (intro exI [of _ "Suc k"]) simp
    qed
  qed
qed

text \<open>Whatever Telegram answers and whatever happens to the database meanwhile, one delivery to a
  recipient gets the parts of the message that are still missing accepted in their order, each at most
  once: what Telegram accepts is a prefix of them.\<close>

theorem processRecipient_in_order:
  assumes "processRecipient env txt bid r w = (q, w')"
  shows "\<exists>k. accepted (trace w') = accepted (trace w)
    @ map (Pair (br_telegram_id r))
        (take k (drop (first_chunk (splitMessage txt MaxTelegramMessageLen) r) (splitMessage txt MaxTelegramMessageLen)))"
  using deliver_prefix assms unfolding processRecipient_def Let_def by blast

end
