(* ===== verification/Broadcast_Outcome.thy ===== *)
theory Broadcast_Outcome
  imports Broadcast_Claims
begin

text \<open>
  What one delivery and the end of a campaign record when no other session interferes: the
  checkpoint of the parts, the outcome, the counters; then the pauses between the launches and the
  audience of a campaign.
\<close>

section \<open>The entry of a recipient\<close>

definition entry_of :: "uint \<Rightarrow> uint \<Rightarrow> db \<Rightarrow> broadcast_recipient option" where
  "entry_of bid j d =
     (case find_broadcast bid d of
        Inl _ \<Rightarrow> None
      | Inr b \<Rightarrow> (case b_recipients_state b of
                   None \<Rightarrow> None
                 | Some st \<Rightarrow> find (\<lambda>r. br_id r = j) (rs_recipients st)))"

lemma entry_cases:
  assumes "entry_of bid j d = Some r"
  obtains b st where "find_broadcast bid d = Inr b" "b_recipients_state b = Some st"
    "find (\<lambda>r. br_id r = j) (rs_recipients st) = Some r"
  using assms by (auto simp: entry_of_def split: sum.splits option.splits)

lemma with_lease_found:
  assumes "find (\<lambda>r. br_id r = j) rs = Some r" "lease_held n r" "br_id (f r) = br_id r"
  shows "\<exists>rs'. with_lease j n f rs = Inr rs' \<and> find (\<lambda>r. br_id r = j) rs' = Some (f r)"
  using assms by (induction rs) (auto split: if_splits)

text \<open>A change of the state of the recipients that nothing disturbs.\<close>

lemma calm_state_update:
  assumes "calm w" "find_broadcast i (db w) = Inr b" "b_recipients_state b = Some st" "mutate b st = Inr (x, st')"
  obtains w' where "updateBroadcastRecipientState i mutate w = (Inr x, w')" "calm w'" "trace w' = trace w"
    "find_broadcast i (db w') = Inr (set_recipients st' b)"
    "db w' = snd (update_broadcasts (\<lambda>r. b_id r = i) (set_recipients st') (db w))"
proof -
  let ?d = "snd (update_broadcasts (\<lambda>r. b_id r = i) (set_recipients st') (db w))"
  let ?w = "step_turn (step_turn (step_turn w))\<lparr>db := ?d\<rparr>"
  have "count_where (\<lambda>r. b_id r = i) (broadcasts (db w)) \<noteq> 0"
    using assms(2)
    by (auto simp: find_broadcast_def or_not_found_def select_first_def count_where_def find_Some_iff
        filter_empty_conv split: option.splits)
  then have body: "bindE (tx_queryE (find_broadcast i)) (\<lambda>b.
      case parseBroadcastRecipientState b of Inl e \<Rightarrow> failE e
      | Inr st \<Rightarrow> (case mutate b st of Inl e \<Rightarrow> failE e
         | Inr (x, st') \<Rightarrow> bindE (tx_execE (update_broadcasts (\<lambda>r. b_id r = i) (set_recipients st'))) (\<lambda>n.
              if n = 0 then failE [ErrBroadcastNotFound] else returnE x))) (step_turn w) = (Inr x, ?w)"
    using assms
    by (simp add: calm_runs bindE_def returnE_def parseBroadcastRecipientState_def update_broadcasts_def)
  have run: "updateBroadcastRecipientState i mutate w = (Inr x, step_turn ?w)"
    using assms(1) body unfolding updateBroadcastRecipientState_def
    by (subst calm_transaction) auto
  moreover have "find_broadcast i ?d = Inr (set_recipients st' b)"
    by (rule find_after_update [OF assms(2)]) (simp add: set_recipients_def)
  ultimately show ?thesis
    using that [OF run] assms(1) by simp
qed

lemma calm_leased:
  assumes "calm w" "entry_of bid j (db w) = Some r" "lease_held n r" "\<And>r. br_id (f r) = br_id r"
  obtains w' where "update_leased bid j n f w = (Inr (), w')" "calm w'" "trace w' = trace w"
    "entry_of bid j (db w') = Some (f r)"
proof -
  obtain b st where b: "find_broadcast bid (db w) = Inr b" "b_recipients_state b = Some st"
    "find (\<lambda>r. br_id r = j) (rs_recipients st) = Some r"
    using assms(2) by (rule entry_cases)
  obtain rs' where rs': "with_lease j n f (rs_recipients st) = Inr rs'" "find (\<lambda>r. br_id r = j) rs' = Some (f r)"
    using with_lease_found [where f = f, OF b(3) assms(3) assms(4)] by blast
  let ?mutate = "\<lambda>_ st. case with_lease j n f (rs_recipients st) of Inl e \<Rightarrow> Inl e
      | Inr rs \<Rightarrow> Inr ((), st\<lparr>rs_recipients := rs\<rparr>)"
  have m: "?mutate b st = Inr ((), st\<lparr>rs_recipients := rs'\<rparr>)"
    using rs'(1) by simp
  obtain w' where w': "updateBroadcastRecipientState bid ?mutate w = (Inr (), w')" "calm w'" "trace w' = trace w"
    "find_broadcast bid (db w') = Inr (set_recipients (st\<lparr>rs_recipients := rs'\<rparr>) b)"
    by (rule calm_state_update [OF assms(1) b(1,2), of ?mutate, OF m]) blast
  then show ?thesis
    using that [of w'] rs'(2) by (simp add: update_leased_def entry_of_def set_recipients_def)
qed

lemma calm_progress:
  assumes "calm w" "entry_of bid (br_id r) (db w) = Some r0" "lease_held (br_attempts r) r0"
  obtains w' where "saveRecipientProgress env bid r k w = (Inr (), w')" "calm w'" "trace w' = trace w"
    "entry_of bid (br_id r) (db w') = Some (progressed k (bw_now env w) r0)"
proof -
  have "br_id (progressed k (bw_now env w) x) = br_id x" for x
    by (simp add: progressed_def)
  from calm_leased [OF assms this] that show ?thesis
    by (auto simp: saveRecipientProgress_def UpdateBroadcastRecipientProgress_def now_of_def bindE_def)
qed

lemma calm_finish:
  assumes "calm w" "entry_of bid (br_id r) (db w) = Some r0" "lease_held (br_attempts r) r0" "terminal st"
  obtains w' where "finishRecipientState env bid r st txt w = (Inr (), w')" "calm w'" "trace w' = trace w"
    "entry_of bid (br_id r) (db w') = Some (finished st txt (bw_now env w) r0)"
proof -
  have "br_id (finished st txt (bw_now env w) x) = br_id x" for x
    by (simp add: finished_def)
  from calm_leased [OF assms(1-3) this] that assms(4) show ?thesis
    by (auto simp: finishRecipientState_def FinishBroadcastRecipient_def now_of_def bindE_def)
qed

section \<open>The checkpoint\<close>

lemma flood_outcome: "flood_waits env c m e n w = (Inr (FloodEnd st txt), w') \<Longrightarrow>
    st = BroadcastRecipientBlocked \<or> st = BroadcastRecipientUnreachable"
  by (induction n arbitrary: w) (auto simp: plain_ok elim!: bindE_ok split: option.splits if_splits)

lemma try_outcome: "try_send env c m l ns w = (Inr (TryEnd st txt), w') \<Longrightarrow>
    st = BroadcastRecipientBlocked \<or> st = BroadcastRecipientUnreachable"
  by (induction ns arbitrary: l w)
    (fastforce simp: plain_ok elim!: bindE_ok dest: flood_outcome split: option.splits if_splits flood_result.splits)+

text \<open>What is recorded after \<open>k\<close> of the remaining parts.\<close>

definition delivered ::
  "uint \<Rightarrow> broadcast_recipient \<Rightarrow> nat \<Rightarrow> string list \<Rightarrow> world \<Rightarrow> error + unit \<Rightarrow> world \<Rightarrow> nat \<Rightarrow> bool" where
  "delivered bid r i cs w q w' k \<longleftrightarrow>
     k \<le> length cs \<and> accepted (trace w') = accepted (trace w) @ map (Pair (br_telegram_id r)) (take k cs)
     \<and> (\<exists>r'. entry_of bid (br_id r) (db w') = Some r' \<and> br_next_chunk r' = int (i + k)
          \<and> (if q = Inr () then terminal (br_status r') \<and> (br_status r' = BroadcastRecipientSent) = (k = length cs)
             else lease_held (br_attempts r) r'))"

lemma delivered_end:
  assumes "calm w1" "accepted (trace w1) = accepted (trace w)"
    "entry_of bid (br_id r) (db w1) = Some r0" "lease_held (br_attempts r) r0" "br_next_chunk r0 = int i"
    "finishRecipientState env bid r st txt w1 = (q, w')" "terminal st" "(st = BroadcastRecipientSent) = (cs = [])"
  shows "delivered bid r i cs w q w' 0"
proof -
  obtain w2 where "finishRecipientState env bid r st txt w1 = (Inr (), w2)" "trace w2 = trace w1"
    "entry_of bid (br_id r) (db w2) = Some (finished st txt (bw_now env w1) r0)"
    by (rule calm_finish [OF assms(1,3,4,7), of env "txt"]) blast
  then show ?thesis
    using assms by (auto simp: delivered_def finished_def)
qed

lemma deliver_calm:
  "deliver_chunks env bid r i cs w = (q, w') \<Longrightarrow> calm w \<Longrightarrow> entry_of bid (br_id r) (db w) = Some r0
   \<Longrightarrow> lease_held (br_attempts r) r0 \<Longrightarrow> br_next_chunk r0 = int i \<Longrightarrow> \<exists>k. delivered bid r i cs w q w' k"
proof (induction cs arbitrary: i w r0)
  case Nil
  then show ?case
    using delivered_end [of w w bid r r0 i env BroadcastRecipientSent "[]" q w' "[]"] by (auto simp: terminal_def)
next
  case (Cons c cs)
  obtain t w1 where t: "try_send env (br_telegram_id r) c None [0..<Suc broadcastRetries] w = (t, w1)"
    by (cases "try_send env (br_telegram_id r) c None [0..<Suc broadcastRetries] w")
  have tk: "talks (if t = Inr (TryDone None) then [(br_telegram_id r, c)] else []) w w1"
    using try_talks [OF _ t] by simp
  have w1: "calm w1" "entry_of bid (br_id r) (db w1) = Some r0"
    using Cons.prems(2,3) tk by (simp_all add: talks_def calm_def)
  show ?case
  proof (cases "t = Inr (TryDone None)")
    case False
    have quiet: "accepted (trace w1) = accepted (trace w)" using tk False by (simp add: talks_def)
    consider e where "t = Inl e" | st m where "t = Inr (TryEnd st m)" | e where "t = Inr (TryDone (Some e))"
      using False by (metis not_Some_eq old.sum.exhaust try_result.exhaust)
    then show ?thesis
    proof cases
      case 1
      then have "delivered bid r i (c # cs) w q w' 0"
        using Cons.prems t w1 quiet by (auto simp: bindE_def delivered_def)
      then show ?thesis ..
    next
      case 2
      then have "finishRecipientState env bid r st m w1 = (q, w')"
        using Cons.prems(1) t by (simp add: bindE_def)
      with 2 try_outcome [of env _ c None _ w st m w1] t
      have "delivered bid r i (c # cs) w q w' 0"
        by (intro delivered_end [OF w1(1) quiet w1(2) Cons.prems(4,5)]) (auto simp: terminal_def)
      then show ?thesis ..
    next
      case 3
      then have "finishRecipientState env bid r BroadcastRecipientFailed
          (truncateRunes (tg_text e) broadcastErrorTextMaxLen) w1 = (q, w')"
        using Cons.prems(1) t by (simp add: bindE_def)
      then have "delivered bid r i (c # cs) w q w' 0"
        by (rule delivered_end [OF w1(1) quiet w1(2) Cons.prems(4,5)]) (simp_all add: terminal_def)
      then show ?thesis ..
    qed
  next
    case True
    let ?r0 = "progressed (int (Suc i)) (bw_now env w1) r0"
    obtain w2 where s: "saveRecipientProgress env bid r (int (Suc i)) w1 = (Inr (), w2)" "calm w2"
      "trace w2 = trace w1" "entry_of bid (br_id r) (db w2) = Some ?r0"
      by (rule calm_progress [OF w1 Cons.prems(4), of env "int (Suc i)"]) blast
    have "deliver_chunks env bid r (Suc i) cs w2 = (q, w')"
      using Cons.prems(1) t True s(1) by (simp add: bindE_def tryE_def)
    then obtain k where k: "delivered bid r (Suc i) cs w2 q w' k"
      using Cons.IH [of "Suc i", OF _ s(2,4)] Cons.prems(4) by (auto simp: progressed_def lease_held_def)
    have "accepted (trace w2) = accepted (trace w) @ [(br_telegram_id r, c)]"
      using tk s(3) True by (simp add: talks_def)
    with k have "delivered bid r i (c # cs) w q w' (Suc k)"
      by (auto simp: delivered_def)
    then show ?thesis ..
  qed
qed

text \<open>C19. The checkpoint is exact: after one undisturbed delivery the entry of the recipient counts
  precisely the parts that Telegram accepted, before and now. The entry is recorded as sent when, and
  only when, no part is missing; when the delivery was broken off the lease is still held, so that a
  later launch resumes at the first part that is missing.\<close>

theorem processRecipient_checkpoint:
  assumes "calm w" "processRecipient env txt bid r w = (q, w')"
    and "entry_of bid (br_id r) (db w) = Some r" "lease_held (br_attempts r) r"
    and "parts = splitMessage txt MaxTelegramMessageLen" "br_next_chunk r = int i" "i \<le> length parts"
  shows "\<exists>k. delivered bid r i (drop i parts) w q w' k"
proof -
  have "first_chunk parts r = i"
    using assms(6,7) by (simp add: first_chunk_def)
  with assms show ?thesis
    using deliver_calm [of env bid r i "drop i parts" w q w' r] by (simp add: processRecipient_def Let_def)
qed

section \<open>The end of a campaign\<close>

lemma count_statuses:
  "length rs = length (with_status BroadcastRecipientPending rs) + length (with_status BroadcastRecipientSending rs)
     + length (with_status BroadcastRecipientSent rs) + length (with_status BroadcastRecipientBlocked rs)
     + length (with_status BroadcastRecipientUnreachable rs) + length (with_status BroadcastRecipientFailed rs)"
proof (induction rs)
  case (Cons r rs)
  then show ?case by (cases "br_status r") (simp_all add: with_status_def)
qed (simp add: with_status_def)

definition still_open :: "broadcast_recipient list \<Rightarrow> bool" where
  "still_open rs \<longleftrightarrow> list_ex (\<lambda>r. br_status r \<in> {BroadcastRecipientPending, BroadcastRecipientSending}) rs"

lemma terminal_total: "bs_terminal (recipients_stats rs) < bs_total (recipients_stats rs) \<longleftrightarrow> still_open rs"
proof -
  have "still_open rs \<longleftrightarrow> with_status BroadcastRecipientPending rs \<noteq> [] \<or> with_status BroadcastRecipientSending rs \<noteq> []"
    by (auto simp: still_open_def with_status_def filter_empty_conv list_ex_iff)
  then have "still_open rs \<longleftrightarrow> 0 < length (with_status BroadcastRecipientPending rs)
      + length (with_status BroadcastRecipientSending rs)"
    by auto
  then show ?thesis
    using count_statuses [of rs] unfolding bs_terminal_def recipients_stats_def broadcast_stats.select_convs by linarith
qed

lemma find_audit [simp]: "find_broadcast i (d\<lparr>audit := a, audit_seq := k\<rparr>) = find_broadcast i d"
  by (simp add: find_broadcast_def)

lemma audit_calm:
  assumes "calm w"
  obtains w' where "worker_audit e w = (Inr (), w')" "calm w'" "find_broadcast i (db w') = find_broadcast i (db w)"
  using that assms
  by (auto simp: worker_audit_def InsertAuditLog_def calm_runs tryE_def returnE_def find_broadcast_def
      append_audit_def Let_def split: sum.splits)

lemma report_calm:
  assumes "calm w"
  shows "fst (sendAdminReport env b w) = Inr () \<and> db (snd (sendAdminReport env b w)) = db w"
  using assms
  by (auto simp: sendAdminReport_def tryE_def returnE_def emit_def GetBroadcastRecipientsStats_def GetBroadcast_def
      bindE_def calm_runs failE_def split: sum.splits)

lemma finish_calm:
  assumes "calm w" "find_broadcast (b_id c) (db w) = Inr b" "b_recipients_state b = Some st"
    and "finishCampaign env c w = (q, w')"
  shows "calm w'
    \<and> find_broadcast (b_id c) (db w')
        = Inr (copy_outcome (campaign_outcome (bw_now env (step_turn w)) c (recipients_stats (rs_recipients st))) b)
    \<and> q = (if b_status c \<noteq> BroadcastStatusCanceled \<and> still_open (rs_recipients st)
           then Inl [ErrBroadcastIncomplete] else Inr ())"
proof -
  let ?o = "campaign_outcome (bw_now env (step_turn w)) c (recipients_stats (rs_recipients st))"
  let ?w = "(step_turn (step_turn w))\<lparr>db := snd (update_broadcasts (\<lambda>r. b_id r = b_id c) (copy_outcome ?o) (db w))\<rparr>"
  have id: "b_id ?o = b_id c"
    by (simp add: campaign_outcome_def with_stats_def)
  have "count_where (\<lambda>r. b_id r = b_id c) (broadcasts (db w)) \<noteq> 0"
    using assms(2)
    by (auto simp: find_broadcast_def or_not_found_def select_first_def count_where_def find_Some_iff
        filter_empty_conv split: option.splits)
  then have up: "UpdateBroadcast ?o (step_turn w) = (Inr (), ?w)"
    using assms(1) id by (simp add: UpdateBroadcast_def bindE_def calm_runs returnE_def update_broadcasts_def)
  have found: "find_broadcast (b_id c) (db ?w) = Inr (copy_outcome ?o b)"
    using find_after_update [OF assms(2), of "copy_outcome ?o"] by (simp add: copy_outcome_def)
  have st: "b_status ?o = (if b_status c = BroadcastStatusCanceled then BroadcastStatusCanceled
      else if still_open (rs_recipients st) then BroadcastStatusRunning else BroadcastStatusCompleted)"
    by (simp add: campaign_outcome_def with_stats_def zero_broadcast_def terminal_total)
  have run: "finishCampaign env c w = (case b_status ?o of
      BroadcastStatusCompleted \<Rightarrow> worker_audit (AuditBroadcastCompleted ?o)
    | BroadcastStatusCanceled \<Rightarrow> worker_audit (AuditBroadcastCanceled ?o (bw_admin env))
    | _ \<Rightarrow> failE [ErrBroadcastIncomplete]) ?w"
    using assms(1-3) up
    by (simp add: finishCampaign_def GetBroadcastRecipientsStats_def GetBroadcast_def bindE_def calm_runs
        parseBroadcastRecipientState_def returnE_def now_of_def Let_def)
  have calm: "calm ?w" using assms(1) by simp
  obtain w1 where w1: "worker_audit (AuditBroadcastCompleted ?o) ?w = (Inr (), w1)" "calm w1"
    "find_broadcast (b_id c) (db w1) = find_broadcast (b_id c) (db ?w)"
    by (rule audit_calm [OF calm, where i = "b_id c" and e = "AuditBroadcastCompleted ?o"]) blast
  obtain w2 where w2: "worker_audit (AuditBroadcastCanceled ?o (bw_admin env)) ?w = (Inr (), w2)" "calm w2"
    "find_broadcast (b_id c) (db w2) = find_broadcast (b_id c) (db ?w)"
    by (rule audit_calm [OF calm, where i = "b_id c" and e = "AuditBroadcastCanceled ?o (bw_admin env)"]) blast
  consider "b_status c = BroadcastStatusCanceled" | "b_status c \<noteq> BroadcastStatusCanceled" "still_open (rs_recipients st)"
    | "b_status c \<noteq> BroadcastStatusCanceled" "\<not> still_open (rs_recipients st)" by blast
  then show ?thesis
  proof cases
    case 1
    then have "finishCampaign env c w = (Inr (), w2)" using run st w2(1) by simp
    with 1 w2 found assms(4) show ?thesis by simp
  next
    case 2
    then have "finishCampaign env c w = (Inl [ErrBroadcastIncomplete], ?w)" using run st by (simp add: failE_def)
    with 2 calm found assms(4) show ?thesis by auto
  next
    case 3
    then have "finishCampaign env c w = (Inr (), w1)" using run st w1(1) by simp
    with 3 w1 found assms(4) show ?thesis by simp
  qed
qed

text \<open>C20. The end of an undisturbed launch tells the truth: the campaign is closed as completed only when
  every recipient has an outcome, a cancelled campaign stays cancelled, and otherwise it goes on
  running and the launch reports that it is incomplete. Each counter stored is the number of entries
  with that outcome, the total is the size of the audience, the report is the one of the entries, and
  the entries are not touched.\<close>

theorem close_campaign_result:
  assumes "calm w" "bw_ctx env = (\<lambda>_. None)" "find_broadcast i (db w) = Inr b"
    and "b_recipients_state b = Some st" "close_campaign env i w = (q, w')"
  shows "\<exists>b'. find_broadcast i (db w') = Inr b' \<and> b_recipients_state b' = Some st
    \<and> b_status b' = (if b_status b = BroadcastStatusCanceled then BroadcastStatusCanceled
                     else if still_open (rs_recipients st) then BroadcastStatusRunning
                     else BroadcastStatusCompleted)
    \<and> q = (if b_status b' = BroadcastStatusRunning then Inl [ErrBroadcastIncomplete] else Inr ())
    \<and> b_sent_count b' = int (length (filter (\<lambda>r. br_status r = BroadcastRecipientSent) (rs_recipients st)))
    \<and> b_blocked_count b' = int (length (filter (\<lambda>r. br_status r = BroadcastRecipientBlocked) (rs_recipients st)))
    \<and> b_unreachable_count b' = int (length (filter (\<lambda>r. br_status r = BroadcastRecipientUnreachable) (rs_recipients st)))
    \<and> b_failed_count b' = int (length (filter (\<lambda>r. br_status r = BroadcastRecipientFailed) (rs_recipients st)))
    \<and> b_recipients_total b' = int (length (rs_recipients st))
    \<and> b_delivery_report b' = delivery_report (rs_recipients st)
    \<and> b_recipients_total b' = b_sent_count b' + b_blocked_count b' + b_unreachable_count b' + b_failed_count b'
         + int (length (with_status BroadcastRecipientPending (rs_recipients st)))
         + int (length (with_status BroadcastRecipientSending (rs_recipients st)))"
proof -
  have i: "b_id b = i"
    using assms(3) by (auto simp: find_broadcast_def or_not_found_def select_first_def find_Some_iff split: option.splits)
  obtain f w1 where f: "finishCampaign env b (step_turn w) = (f, w1)"
    by (cases "finishCampaign env b (step_turn w)")
  let ?o = "campaign_outcome (bw_now env (step_turn (step_turn w))) b (recipients_stats (rs_recipients st))"
  have w1: "calm w1" "find_broadcast i (db w1) = Inr (copy_outcome ?o b)"
    "f = (if b_status b \<noteq> BroadcastStatusCanceled \<and> still_open (rs_recipients st)
           then Inl [ErrBroadcastIncomplete] else Inr ())"
    using finish_calm [where w = "step_turn w" and c = b and b = b and env = env and st = st, OF _ _ _ f] assms(1,3,4) i
    by auto
  have "close_campaign env i w = bindE (finishCampaign env b) (\<lambda>_. sendAdminReport env b) (step_turn w)"
    using assms(1-3) by (simp add: close_campaign_def GetBroadcast_def calm_runs bindE_def campaign_ctx_def)
  then have "q = f \<and> db w' = db w1"
    using assms(5) f report_calm [OF w1(1), of env b] by (cases "sendAdminReport env b w1") (auto simp: bindE_def split: sum.splits)
  moreover have "int (length (rs_recipients st)) = int (length (with_status BroadcastRecipientSent (rs_recipients st)))
      + int (length (with_status BroadcastRecipientBlocked (rs_recipients st)))
      + int (length (with_status BroadcastRecipientUnreachable (rs_recipients st)))
      + int (length (with_status BroadcastRecipientFailed (rs_recipients st)))
      + int (length (with_status BroadcastRecipientPending (rs_recipients st)))
      + int (length (with_status BroadcastRecipientSending (rs_recipients st)))"
    using count_statuses [of "rs_recipients st"] by linarith
  ultimately show ?thesis
    using w1 assms(4) terminal_total [of "rs_recipients st"]
    by (auto simp: copy_outcome_def campaign_outcome_def with_stats_def zero_broadcast_def recipients_stats_def with_status_def)
qed

section \<open>The pauses between the launches\<close>

lemma doubled_min: "0 \<le> d \<Longrightarrow> min (doubled n d) broadcastRetryMaxDelay = min (d * 2 ^ n) broadcastRetryMaxDelay"
proof (induction n arbitrary: d)
  case (Suc n)
  show ?case
  proof (cases "d < broadcastRetryMaxDelay")
    case True
    then show ?thesis using Suc.IH [of "2 * d"] Suc.prems by (simp add: mult.assoc mult.left_commute)
  next
    case False
    have "d * 1 \<le> d * 2 ^ Suc n"
      using Suc.prems by (intro mult_left_mono) (simp_all del: power_Suc)
    with False show ?thesis by simp
  qed
qed simp

text \<open>The pause before the next launch doubles with every failed launch, from five seconds up to
  fifteen minutes: the loop computes the power of two cut off at the maximum, for every counter.\<close>

theorem retry_delay_doubles:
  "retry_delay n = min (5 * second * 2 ^ nat n) (15 * minute)"
proof -
  have "retry_delay n = min (doubled (nat n) broadcastRetryBaseDelay) broadcastRetryMaxDelay"
    by (simp add: retry_delay_def min_def Let_def)
  also have "\<dots> = min (broadcastRetryBaseDelay * 2 ^ nat n) broadcastRetryMaxDelay"
    by (rule doubled_min) (simp add: broadcastRetryBaseDelay_def second_def)
  finally show ?thesis
    by (simp add: broadcastRetryBaseDelay_def broadcastRetryMaxDelay_def)
qed

section \<open>The audience\<close>

lemma numbered:
  "map br_telegram_id (number_recipients now i ids) = ids"
  "map br_id (number_recipients now i ids) = [i..<i + length ids]"
  "list_all (\<lambda>r. br_status r = BroadcastRecipientPending \<and> br_attempts r = 0 \<and> br_next_chunk r = 0)
     (number_recipients now i ids)"
  by (induction ids arbitrary: i) (simp_all add: new_recipient_def upt_conv_Cons del: upt_Suc)

lemma set_audience: "set (audience_ids now f d) = s_telegram_id ` {s \<in> set (subscriptions d). 0 < s_telegram_id s \<and> applyBroadcastFilter now d f s}"
  by (auto simp: audience_ids_def broadcastAudience_def)

text \<open>The snapshot takes everybody the filter selects, once: the recipients are numbered from one, in
  increasing order of their Telegram ids and without duplicates, all waiting for the first part; nobody
  on a trial plan is among them; and their number is the one the preview shows.\<close>

theorem snapshot_audience:
  assumes "calm w" "find_broadcast i (db w) = Inr b" "b_recipients_state b = Some st" "\<not> rs_snapshot st"
  shows "\<exists>n w' rs. SnapshotBroadcastRecipients now i f w = (Inr n, w')
    \<and> find_broadcast i (db w') = Inr (b\<lparr>b_recipients_state := Some \<lparr>rs_snapshot = True, rs_recipients = rs\<rparr>\<rparr>)
    \<and> set (map br_telegram_id rs)
        = s_telegram_id ` {s. s \<in> set (subscriptions (db w)) \<and> 0 < s_telegram_id s \<and> applyBroadcastFilter now (db w) f s
                              \<and> \<not> on_plan_named (db w) TrialPlanName s}
    \<and> sorted (map br_telegram_id rs) \<and> distinct (map br_telegram_id rs)
    \<and> map br_id rs = [1..<Suc (length rs)]
    \<and> list_all (\<lambda>r. br_status r = BroadcastRecipientPending \<and> br_next_chunk r = 0) rs
    \<and> n = int (length rs) \<and> fst (GetFilteredTelegramIDCount now f w) = Inr n"
proof -
  let ?ids = "audience_ids now f (db w)"
  let ?rs = "number_recipients now 1 ?ids"
  let ?st = "\<lparr>rs_snapshot = True, rs_recipients = ?rs\<rparr>"
  have m: "(\<lambda>_ st. Inr (take_snapshot now ?ids st)) b st = Inr (int (length ?ids), ?st)"
    using assms(4) by (simp add: take_snapshot_def)
  obtain w' where w': "updateBroadcastRecipientState i (\<lambda>_ st. Inr (take_snapshot now ?ids st)) (step_turn w)
      = (Inr (int (length ?ids)), w')" "find_broadcast i (db w') = Inr (set_recipients ?st b)"
    by (rule calm_state_update [of "step_turn w" i b st "\<lambda>_ st. Inr (take_snapshot now ?ids st)", OF _ _ assms(3) m])
      (use assms(1,2) in \<open>simp_all\<close>)
  have len: "length ?rs = length ?ids"
    using arg_cong [OF numbered(1) [of now 1 ?ids], of length] by simp
  have count: "(\<lambda>s. applyBroadcastFilter now (db w) f s \<and> 0 < s_telegram_id s)
      = (\<lambda>s. 0 < s_telegram_id s \<and> applyBroadcastFilter now (db w) f s)" by auto
  have "SnapshotBroadcastRecipients now i f w = (Inr (int (length ?ids)), w')"
    using assms(1) w'(1) by (simp add: SnapshotBroadcastRecipients_def bindE_def calm_runs)
  moreover have "fst (GetFilteredTelegramIDCount now f w) = Inr (int (length ?ids))"
    using assms(1) by (simp add: GetFilteredTelegramIDCount_def calm_runs audience_ids_def broadcastAudience_def count)
  moreover have "set ?ids = s_telegram_id ` {s. s \<in> set (subscriptions (db w)) \<and> 0 < s_telegram_id s
      \<and> applyBroadcastFilter now (db w) f s \<and> \<not> on_plan_named (db w) TrialPlanName s}"
    by (auto simp: set_audience applyBroadcastFilter_def plan_wanted_def)
  moreover have "sorted ?ids" "distinct ?ids"
    by (simp_all add: audience_ids_def)
  ultimately show ?thesis
    using w'(2) numbered [of now 1 ?ids] len
    by (intro exI [of _ "int (length ?ids)"] exI [of _ w'] exI [of _ ?rs]) (auto simp: set_recipients_def list_all_iff)
qed
end
