(* ===== verification/Broadcast_Witnesses.thy ===== *)
theory Broadcast_Witnesses
  imports Samples Broadcast_Outcome
begin

text \<open>
  The properties of the broadcasts, applied to a campaign with two recipients: the first has got
  its message, the second holds a lease in its first attempt.
\<close>

definition done_recipient :: broadcast_recipient where
  "done_recipient = (new_recipient day0 1 100)\<lparr>br_status := BroadcastRecipientSent, br_attempts := 1, br_next_chunk := 1\<rparr>"

definition leased_recipient :: broadcast_recipient where
  "leased_recipient = (new_recipient day0 2 200)\<lparr>br_status := BroadcastRecipientSending, br_attempts := 1\<rparr>"

definition sample_state :: broadcast_recipient_state where
  "sample_state = \<lparr>rs_snapshot = True, rs_recipients = [done_recipient, leased_recipient]\<rparr>"

definition campaign :: broadcast where
  "campaign = zero_broadcast\<lparr>b_id := 1, b_name := ''news'', b_message_text := ''hello'',
     b_status := BroadcastStatusRunning, b_recipients_state := Some sample_state\<rparr>"

definition db_campaign :: db where
  "db_campaign = db0\<lparr>broadcasts := [campaign], broadcast_seq := 1\<rparr>"

definition good_telegram :: bw_env where
  "good_telegram = \<lparr>bw_send = (\<lambda>_ _ _. SendOk), bw_ctx = (\<lambda>_. None), bw_now = (\<lambda>_. day0 + hour),
     bw_error_text = (\<lambda>_. ''error''), bw_admin = 1\<rparr>"

lemma campaign_found: "find_broadcast 1 (db (world_of db_campaign)) = Inr campaign"
  by (simp add: db_campaign_def campaign_def find_broadcast_def or_not_found_def select_first_def)

lemma campaign_state: "b_recipients_state campaign = Some sample_state" "rs_snapshot sample_state"
  "campaign \<in> set (broadcasts (db (world_of db_campaign)))" "b_id campaign = 1"
  by (simp_all add: campaign_def sample_state_def db_campaign_def)

lemma db_campaign_wf: "campaigns_wf db_campaign"
  by (simp add: campaigns_wf_def db_campaign_def campaign_def)

lemma outcomes_are_final_witness:
  "\<exists>b' \<in> set (broadcasts (db (snd (RetryFailed good_telegram 1 (world_of db_campaign))))).
     \<exists>st'. b_recipients_state b' = Some st' \<and> done_recipient \<in> set (rs_recipients st')"
proof -
  have "campaign_history good_telegram (world_of db_campaign) (snd (RetryFailed good_telegram 1 (world_of db_campaign)))"
    by (rule Next [OF Start RetryAction]) (rule prod.collapse [symmetric])
  from outcomes_are_final [OF this _ _ campaign_state(3,1,2)] show ?thesis
    by (fastforce simp: db_campaign_wf sample_state_def done_recipient_def settled_def)
qed

lemma processCampaign_returns_witness:
  "\<exists>z. processCampaign good_telegram 1 (world_of db_campaign) = Some z"
  by (rule processCampaign_returns) simp

lemma processRecipient_in_order_witness:
  "\<exists>k. accepted (trace (snd (processRecipient good_telegram ''hello'' 1 leased_recipient (world_of db_campaign))))
     = accepted (trace (world_of db_campaign))
       @ map (Pair 200) (take k (drop (first_chunk (splitMessage ''hello'' MaxTelegramMessageLen) leased_recipient)
                                 (splitMessage ''hello'' MaxTelegramMessageLen)))"
  using processRecipient_in_order [OF prod.collapse [symmetric],
      of good_telegram "''hello''" 1 leased_recipient "world_of db_campaign"]
  by (simp add: leased_recipient_def new_recipient_def)

lemma processRecipient_checkpoint_witness:
  "\<exists>k. delivered 1 leased_recipient 0 (drop 0 (splitMessage ''hello'' MaxTelegramMessageLen)) (world_of db_campaign)
     (fst (processRecipient good_telegram ''hello'' 1 leased_recipient (world_of db_campaign)))
     (snd (processRecipient good_telegram ''hello'' 1 leased_recipient (world_of db_campaign))) k"
proof -
  have "entry_of 1 (br_id leased_recipient) (db (world_of db_campaign)) = Some leased_recipient"
    by (simp only: entry_of_def campaign_found sum.case campaign_state option.case)
      (simp add: sample_state_def leased_recipient_def done_recipient_def new_recipient_def)
  then show ?thesis
    by (intro processRecipient_checkpoint [OF _ prod.collapse [symmetric]])
      (simp_all add: leased_recipient_def new_recipient_def lease_held_def)
qed

lemma close_campaign_result_witness:
  "\<exists>b'. find_broadcast 1 (db (snd (close_campaign good_telegram 1 (world_of db_campaign)))) = Inr b'
     \<and> b_status b' = BroadcastStatusRunning \<and> b_sent_count b' = 1
     \<and> fst (close_campaign good_telegram 1 (world_of db_campaign)) = Inl [ErrBroadcastIncomplete]"
  using close_campaign_result [OF _ _ campaign_found campaign_state(1) prod.collapse [symmetric], of good_telegram]
  by (auto simp: good_telegram_def sample_state_def still_open_def leased_recipient_def done_recipient_def
      new_recipient_def with_status_def campaign_def)

text \<open>A campaign without a snapshot.\<close>

definition planned :: broadcast where
  "planned = campaign\<lparr>b_status := BroadcastStatusScheduled, b_recipients_state := Some emptyBroadcastRecipientState\<rparr>"

lemma snapshot_audience_witness:
  "\<exists>n w'. SnapshotBroadcastRecipients day0 1 no_filter (world_of (db_campaign\<lparr>broadcasts := [planned]\<rparr>)) = (Inr n, w')
     \<and> fst (GetFilteredTelegramIDCount day0 no_filter (world_of (db_campaign\<lparr>broadcasts := [planned]\<rparr>))) = Inr n"
proof -
  have "find_broadcast 1 (db (world_of (db_campaign\<lparr>broadcasts := [planned]\<rparr>))) = Inr planned"
    "b_recipients_state planned = Some emptyBroadcastRecipientState" "\<not> rs_snapshot emptyBroadcastRecipientState"
    by (simp_all add: planned_def campaign_def find_broadcast_def or_not_found_def select_first_def
        emptyBroadcastRecipientState_def)
  from snapshot_audience [OF _ this, of day0 no_filter] show ?thesis by auto
qed


text \<open>
  A cancellation that another session commits between the statistics and the update of
  \<open>finishCampaign\<close> is overwritten: the update does not ask for the status it was computed from.
\<close>

definition finished_campaign :: broadcast where
  "finished_campaign = campaign\<lparr>b_recipients_state := Some \<lparr>rs_snapshot = True, rs_recipients = [done_recipient]\<rparr>\<rparr>"

definition cancelled_meanwhile :: world where
  "cancelled_meanwhile = (world_of (db_campaign\<lparr>broadcasts := [finished_campaign]\<rparr>))
     \<lparr>turns := [Quiet, Other (\<lambda>d. snd (update_broadcasts (\<lambda>r. b_id r = 1) (\<lambda>r. r\<lparr>b_status := BroadcastStatusCanceled\<rparr>) d))]\<rparr>"

lemma cancellation_lost:
  "map b_status (broadcasts (db (snd (finishCampaign good_telegram finished_campaign cancelled_meanwhile))))
     = [BroadcastStatusCompleted]"
  by code_simp

end
