(* ===== verification/Traffic_Calendar.thy ===== *)
theory Traffic_Calendar
  imports Prelude
begin

text \<open>
  The next traffic reset of a panel client: \<open>describeTrafficReset\<close> and its helpers in
  \<open>internal/service/subscription_presentation.go\<close>.

  The functions work on calendar days at local midnight; a moment is the civil date it has in the
  server's time zone, which the caller passes, and a day is compared by its number. \<open>time.Date\<close>
  with a day past the end of the month is the corresponding day of the next month. The texts of
  the card are the constructors of \<open>reset_display\<close>.
\<close>

section \<open>Civil dates\<close>

record civil_date =
  c_year :: int
  c_month :: int
  c_day :: int

definition is_leap :: "int \<Rightarrow> bool" where
  "is_leap y \<longleftrightarrow> y mod 4 = 0 \<and> (y mod 100 \<noteq> 0 \<or> y mod 400 = 0)"

definition days_in_month :: "int \<Rightarrow> int \<Rightarrow> int" where
  "days_in_month y m =
     (if m = 2 then (if is_leap y then 29 else 28) else if m \<in> {4, 6, 9, 11} then 30 else 31)"

definition days_before_year :: "int \<Rightarrow> int" where
  "days_before_year y = 365 * (y - 1) + (y - 1) div 4 - (y - 1) div 100 + (y - 1) div 400"

definition month_start :: "int \<Rightarrow> int \<Rightarrow> int" where
  "month_start y m = days_before_year y + sum_list (map (days_in_month y) [1..m - 1])"

text \<open>The number of a day; day 1 is Monday, January 1 of the year 1.\<close>

definition day_number :: "civil_date \<Rightarrow> int" where
  "day_number c = month_start (c_year c) (c_month c) + c_day c"

definition valid_date :: "civil_date \<Rightarrow> bool" where
  "valid_date c \<longleftrightarrow> 1 \<le> c_month c \<and> c_month c \<le> 12 \<and> 1 \<le> c_day c \<and> c_day c \<le> days_in_month (c_year c) (c_month c)"

definition next_month :: "int \<times> int \<Rightarrow> int \<times> int" where
  "next_month ym = (if 12 < snd ym + 1 then (fst ym + 1, 1) else (fst ym, snd ym + 1))"

definition date_of :: "int \<times> int \<Rightarrow> int \<Rightarrow> civil_date" where
  "date_of ym d =
     (let len = days_in_month (fst ym) (snd ym) in
      if d \<le> len then \<lparr>c_year = fst ym, c_month = snd ym, c_day = d\<rparr>
      else \<lparr>c_year = fst (next_month ym), c_month = snd (next_month ym), c_day = d - len\<rparr>)"

section \<open>The next reset\<close>

datatype reset_display = ResetNever | ResetUnknown | ResetToday | ResetIn int

fun monthly_search :: "nat \<Rightarrow> int \<times> int \<Rightarrow> int \<Rightarrow> civil_date \<Rightarrow> civil_date option" where
  "monthly_search 0 ym d today = None"
| "monthly_search (Suc n) ym d today =
     (let c = date_of ym d in
      if c_day c = d \<and> day_number today < day_number c then Some c
      else monthly_search n (next_month ym) d today)"

definition nextMonthlyReset :: "civil_date \<Rightarrow> int \<Rightarrow> civil_date" where
  "nextMonthlyReset today d =
     (case monthly_search 13 (c_year today, c_month today) d today of
        Some c \<Rightarrow> c
      | None \<Rightarrow> date_of (c_year today + 1, c_month today) (c_day today))"

text \<open>\<open>time.Weekday\<close>: 0 is Sunday; the panel numbers Monday 1 to Sunday 7.\<close>

definition weekday_of :: "int \<Rightarrow> int" where
  "weekday_of n = n mod 7"

definition nextWeeklyReset :: "civil_date \<Rightarrow> int \<Rightarrow> int" where
  "nextWeeklyReset today weekday =
     (let target = weekday mod 7; delta = (target - weekday_of (day_number today) + 7) mod 7
      in day_number today + (if delta = 0 then 7 else delta))"

definition fullDays :: "int \<Rightarrow> int \<Rightarrow> int" where
  "fullDays a b = b - a"

definition countdown :: "civil_date \<Rightarrow> int \<Rightarrow> reset_display" where
  "countdown today n =
     (let days = fullDays (day_number today) n in if days = 0 then ResetToday else ResetIn days)"

record client_profile =
  cp_reset_day :: int
  cp_reset_max :: int
  cp_reset_weekday :: int
  cp_traffic_reset :: string
  cp_traffic_reset_day :: int

definition describeTrafficReset :: "civil_date \<Rightarrow> client_profile \<Rightarrow> reset_display" where
  "describeTrafficReset today p =
     (if cp_traffic_reset p = [] \<or> cp_traffic_reset p = ''never'' then ResetNever
      else if cp_traffic_reset p = ''daily'' then countdown today (day_number today + 1)
      else if cp_traffic_reset p = ''monthly'' then
        (let d = (if cp_traffic_reset_day p = 0 then 1 else cp_traffic_reset_day p) in
         if d < 0 \<or> 31 < d then ResetUnknown
         else countdown today (day_number (nextMonthlyReset today d)))
      else if cp_traffic_reset p = ''weekly'' then
        (if cp_reset_weekday p < 1 \<or> 7 < cp_reset_weekday p then ResetUnknown
         else countdown today (nextWeeklyReset today (cp_reset_weekday p)))
      else ResetUnknown)"

section \<open>The calendar\<close>

lemma days_in_month_bounds: "28 \<le> days_in_month y m \<and> days_in_month y m \<le> 31"
  by (simp add: days_in_month_def)

lemma month_lists:
  "[1..0::int] = []" "[1..1::int] = [1]" "[1..2::int] = [1, 2]" "[1..3::int] = [1, 2, 3]"
  "[1..4::int] = [1, 2, 3, 4]" "[1..5::int] = [1, 2, 3, 4, 5]" "[1..6::int] = [1, 2, 3, 4, 5, 6]"
  "[1..7::int] = [1, 2, 3, 4, 5, 6, 7]" "[1..8::int] = [1, 2, 3, 4, 5, 6, 7, 8]"
  "[1..9::int] = [1, 2, 3, 4, 5, 6, 7, 8, 9]" "[1..10::int] = [1, 2, 3, 4, 5, 6, 7, 8, 9, 10]"
  "[1..11::int] = [1, 2, 3, 4, 5, 6, 7, 8, 9, 10, 11]"
  by (simp_all add: upto.simps)

lemma year_length: "days_before_year (y + 1) = days_before_year y + (if is_leap y then 366 else 365)"
proof -
  have step: "y div k = (y - 1) div k + (if y mod k = 0 then 1 else 0)" if "0 < k" for k
  proof -
    have y: "y = k * (y div k) + y mod k" "0 \<le> y mod k" "y mod k < k"
      using that by simp_all
    show ?thesis
    proof (cases "y mod k = 0")
      case True
      then have "(y - 1) div k = y div k - 1"
        using y that by (intro int_div_pos_eq [of _ _ _ "k - 1"]) (simp_all add: algebra_simps)
      with True show ?thesis by simp
    next
      case False
      then have "(y - 1) div k = y div k"
        using y by (intro int_div_pos_eq [of _ _ _ "y mod k - 1"]) (simp_all add: algebra_simps)
      with False show ?thesis by simp
    qed
  qed
  have mods: "y mod 400 = 0 \<longrightarrow> y mod 100 = 0" "y mod 100 = 0 \<longrightarrow> y mod 4 = 0"
    by presburger+
  have "days_before_year (y + 1) = 365 * y + y div 4 - y div 100 + y div 400"
    by (simp add: days_before_year_def)
  moreover have "\<And>A1 A0 a b c a' b' c' i j k :: int. A1 = 365 * y + a - b + c \<Longrightarrow> A0 = 365 * y - 365 + a' - b' + c'
      \<Longrightarrow> a = a' + i \<Longrightarrow> b = b' + j \<Longrightarrow> c = c' + k \<Longrightarrow> A1 = A0 + 365 + i - j + k"
    by simp
  moreover have "days_before_year y = 365 * y - 365 + (y - 1) div 4 - (y - 1) div 100 + (y - 1) div 400"
    by (simp add: days_before_year_def)
  ultimately have "days_before_year (y + 1) = days_before_year y + 365 + (if y mod 4 = 0 then 1 else 0)
      - (if y mod 100 = 0 then 1 else 0) + (if y mod 400 = 0 then 1 else 0)"
    using step [of 4] step [of 100] step [of 400] by (metis zero_less_numeral)
  moreover define p q r where pqr: "p = (y mod 4 = 0)" "q = (y mod 100 = 0)" "r = (y mod 400 = 0)"
  ultimately have "days_before_year (y + 1) = days_before_year y + 365 + (if p then 1 else 0)
      - (if q then 1 else 0) + (if r then 1 else 0)" "r \<longrightarrow> q" "q \<longrightarrow> p" "is_leap y = (p \<and> (\<not> q \<or> r))"
    using mods by (simp_all only: is_leap_def)
  then show ?thesis by (cases p; cases q; cases r) simp_all
qed

lemma next_month_start:
  assumes "1 \<le> snd ym" "snd ym \<le> 12"
  shows "month_start (fst (next_month ym)) (snd (next_month ym)) = month_start (fst ym) (snd ym) + days_in_month (fst ym) (snd ym)
    \<and> 1 \<le> snd (next_month ym) \<and> snd (next_month ym) \<le> 12"
proof -
  have "snd ym \<in> {1, 2, 3, 4, 5, 6, 7, 8, 9, 10, 11, 12}"
    using assms by (simp, presburger)
  then show ?thesis
    by (elim insertE; simp add: next_month_def month_start_def month_lists year_length)
      (simp_all add: days_in_month_def)
qed

text \<open>Months in order: \<open>12 y + m\<close> counts them.\<close>

definition month_index :: "int \<times> int \<Rightarrow> int" where
  "month_index ym = 12 * fst ym + snd ym"

lemma next_month_index: "1 \<le> snd ym \<Longrightarrow> snd ym \<le> 12 \<Longrightarrow> month_index (next_month ym) = month_index ym + 1"
  by (auto simp: month_index_def next_month_def)

lemma month_index_year: "1 \<le> snd a \<Longrightarrow> snd a \<le> 12 \<Longrightarrow> (month_index a - 1) div 12 = fst a"
  by (rule int_div_pos_eq [of _ _ _ "snd a - 1"]) (simp_all add: month_index_def)

lemma month_index_inj:
  assumes "month_index a = month_index b" "1 \<le> snd a" "snd a \<le> 12" "1 \<le> snd b" "snd b \<le> 12"
  shows "a = b"
proof -
  have "fst a = fst b"
    using month_index_year [of a] month_index_year [of b] assms by simp
  with assms(1) show ?thesis by (simp add: month_index_def prod_eq_iff)
qed

lemma later_months:
  assumes "1 \<le> snd a" "snd a \<le> 12" "1 \<le> snd b" "snd b \<le> 12" "month_index b = month_index a + int n"
  shows "month_start (fst a) (snd a) \<le> month_start (fst b) (snd b)
    \<and> (0 < n \<longrightarrow> month_start (fst a) (snd a) + days_in_month (fst a) (snd a) \<le> month_start (fst b) (snd b))"
  using assms
proof (induction n arbitrary: a)
  case 0
  then show ?case using month_index_inj [of b a] by simp
next
  case (Suc n)
  note next_month_start [OF Suc.prems(1,2)]
  moreover have "month_index b = month_index (next_month a) + int n"
    using Suc.prems next_month_index by simp
  ultimately show ?case
    using Suc.IH [of "next_month a"] Suc.prems(3,4) days_in_month_bounds [of "fst a" "snd a"] by simp
qed

lemma day_order:
  assumes "valid_date a" "valid_date b" "month_index (c_year a, c_month a) < month_index (c_year b, c_month b)"
  shows "day_number a < day_number b"
proof -
  obtain n where "month_index (c_year b, c_month b) = month_index (c_year a, c_month a) + int n" "0 < n"
    using assms(3) by (metis zless_iff_Suc_zadd zero_less_Suc add.commute of_nat_Suc)
  then show ?thesis
    using later_months [of "(c_year a, c_month a)" "(c_year b, c_month b)" n] assms(1,2)
    by (auto simp: valid_date_def day_number_def)
qed

section \<open>The monthly reset\<close>

lemma date_of_day: "1 \<le> d \<Longrightarrow> d \<le> 31 \<Longrightarrow> (c_day (date_of ym d) = d) = (d \<le> days_in_month (fst ym) (snd ym))"
  using days_in_month_bounds [of "fst ym" "snd ym"] by (simp add: date_of_def Let_def)

lemma monthly_search_least:
  "monthly_search n ym d today = Some c \<Longrightarrow> 1 \<le> snd ym \<Longrightarrow> snd ym \<le> 12 \<Longrightarrow> 1 \<le> d \<Longrightarrow> d \<le> 31 \<Longrightarrow>
     valid_date c \<and> c_day c = d \<and> day_number today < day_number c \<and> month_index ym \<le> month_index (c_year c, c_month c)
     \<and> (\<forall>c'. valid_date c' \<longrightarrow> c_day c' = d \<longrightarrow> day_number today < day_number c'
           \<longrightarrow> month_index ym \<le> month_index (c_year c', c_month c') \<longrightarrow> day_number c \<le> day_number c')"
proof (induction n arbitrary: ym)
  case (Suc n)
  let ?c = "date_of ym d"
  have here: "c' = ?c" if "valid_date c'" "c_day c' = d" "month_index (c_year c', c_month c') = month_index ym" for c'
  proof -
    have "(c_year c', c_month c') = ym"
      using that Suc.prems(2,3) by (intro month_index_inj) (auto simp: valid_date_def)
    with that(1,2) show ?thesis by (auto simp: date_of_def valid_date_def)
  qed
  show ?case
  proof (cases "c_day ?c = d \<and> day_number today < day_number ?c")
    case True
    then have c: "c = ?c" using Suc.prems(1) by (simp add: Let_def)
    have fits: "d \<le> days_in_month (fst ym) (snd ym)"
      using True date_of_day Suc.prems(4,5) by blast
    then have v: "valid_date ?c" "month_index (c_year ?c, c_month ?c) = month_index ym"
      using Suc.prems by (simp_all add: date_of_def valid_date_def)
    have "day_number ?c \<le> day_number c'"
      if "valid_date c'" "c_day c' = d" "month_index ym \<le> month_index (c_year c', c_month c')" for c'
    proof (cases "month_index (c_year c', c_month c') = month_index ym")
      case True
      then show ?thesis using here [OF that(1,2)] by simp
    next
      case False
      then show ?thesis using day_order [OF v(1) that(1)] v(2) that(3) by simp
    qed
    with c True v show ?thesis by simp
  next
    case False
    then have rest: "monthly_search n (next_month ym) d today = Some c"
      using Suc.prems(1) by (auto simp: Let_def split: if_splits)
    note IH = Suc.IH [OF rest] next_month_start [OF Suc.prems(2,3)] next_month_index [OF Suc.prems(2,3)]
    have "month_index (next_month ym) \<le> month_index (c_year c', c_month c')"
      if "valid_date c'" "c_day c' = d" "day_number today < day_number c'" "month_index ym \<le> month_index (c_year c', c_month c')" for c'
      using here [OF that(1,2)] that False next_month_index [OF Suc.prems(2,3)] by fastforce
    with IH Suc.prems(4,5) show ?thesis by auto
  qed
qed simp

text \<open>One of two consecutive months has 31 days, so the search needs three months at most.\<close>

lemma long_month:
  assumes "1 \<le> snd ym" "snd ym \<le> 12"
  shows "days_in_month (fst ym) (snd ym) = 31 \<or> days_in_month (fst (next_month ym)) (snd (next_month ym)) = 31"
proof -
  have "snd ym \<in> {1, 2, 3, 4, 5, 6, 7, 8, 9, 10, 11, 12}"
    using assms by (simp, presburger)
  then show ?thesis
    by (elim insertE) (simp_all add: next_month_def days_in_month_def)
qed

lemma monthly_search_ends:
  assumes "valid_date today" "1 \<le> d" "d \<le> 31" "3 \<le> n"
  shows "\<exists>c. monthly_search n (c_year today, c_month today) d today = Some c"
proof -
  let ?a = "(c_year today, c_month today)"
  let ?b = "next_month ?a"
  let ?c = "next_month ?b"
  have a: "1 \<le> snd ?a" "snd ?a \<le> 12" using assms(1) by (auto simp: valid_date_def)
  note b = next_month_start [OF a] next_month_index [OF a]
  then have b': "1 \<le> snd ?b" "snd ?b \<le> 12" by auto
  note c = next_month_start [OF b'] next_month_index [OF b']
  have after: "c_day (date_of ym d) = d \<and> day_number today < day_number (date_of ym d)"
    if "1 \<le> snd ym" "snd ym \<le> 12" "month_index ?a < month_index ym" "days_in_month (fst ym) (snd ym) = 31" for ym
  proof -
    have "c_day (date_of ym d) = d" "valid_date (date_of ym d)"
      using that assms(2,3) by (simp_all add: date_of_def valid_date_def)
    moreover have "(c_year (date_of ym d), c_month (date_of ym d)) = ym"
      using that assms(3) by (simp add: date_of_def)
    ultimately show ?thesis
      using day_order [OF assms(1)] that(3) by simp
  qed
  obtain k where n: "n = Suc (Suc (Suc k))"
    using assms(4) by (metis Suc_le_D numeral_3_eq_3 Suc_le_mono)
  from long_month [OF b'] show ?thesis
    using after [of ?b] after [of ?c] b b' c unfolding n
    by (auto simp: Let_def)
qed

text \<open>C23. The card names the next monthly reset: for every date and every day of the month that the panel
  can hold, the result is a real date with that day, strictly after today, and no earlier date is one; the
  search over thirteen months always finds it.\<close>

theorem nextMonthlyReset_least:
  assumes "valid_date today" "1 \<le> d" "d \<le> 31"
  shows "valid_date (nextMonthlyReset today d) \<and> c_day (nextMonthlyReset today d) = d
    \<and> day_number today < day_number (nextMonthlyReset today d)
    \<and> (\<forall>c. valid_date c \<and> c_day c = d \<and> day_number today < day_number c
          \<longrightarrow> day_number (nextMonthlyReset today d) \<le> day_number c)"
proof -
  obtain c where c: "monthly_search 13 (c_year today, c_month today) d today = Some c"
    using monthly_search_ends [OF assms, of 13] by auto
  have ym: "1 \<le> snd (c_year today, c_month today)" "snd (c_year today, c_month today) \<le> 12"
    using assms(1) by (auto simp: valid_date_def)
  have "month_index (c_year today, c_month today) \<le> month_index (c_year c', c_month c')"
    if "valid_date c'" "day_number today < day_number c'" for c'
    using day_order [OF that(1) assms(1)] that(2) by linarith
  then show ?thesis
    using monthly_search_least [OF c ym assms(2,3)] c by (auto simp: nextMonthlyReset_def)
qed

lemma nextMonthlyReset_after:
  assumes "valid_date today" "1 \<le> d" "d \<le> 31"
  shows "day_number today < day_number (nextMonthlyReset today d)"
proof -
  obtain c where c: "monthly_search 13 (c_year today, c_month today) d today = Some c"
    using monthly_search_ends [OF assms, of 13] by auto
  then show ?thesis
    using monthly_search_least [OF c] assms by (simp add: nextMonthlyReset_def valid_date_def)
qed

text \<open>The countdown of a card never shows today: every reset lies in the future.\<close>

lemma countdown_future: "day_number today < n \<Longrightarrow> countdown today n = ResetIn (n - day_number today)"
  by (simp add: countdown_def fullDays_def Let_def)

lemma nextWeeklyReset_bounds:
  "day_number today < nextWeeklyReset today k \<and> nextWeeklyReset today k \<le> day_number today + 7
   \<and> weekday_of (nextWeeklyReset today k) = k mod 7"
proof -
  define n where "n = day_number today"
  define e where "e = (k mod 7 - n mod 7) mod 7"
  have e: "0 \<le> e" "e < 7" "(n + e) mod 7 = k mod 7"
    by (simp_all add: e_def mod_simps)
  have "nextWeeklyReset today k = n + (if e = 0 then 7 else e)"
    by (simp add: nextWeeklyReset_def weekday_of_def Let_def e_def n_def)
  with e show ?thesis
    by (cases "e = 0") (simp_all add: weekday_of_def flip: n_def)
qed

lemma describe_future:
  assumes "valid_date today" "describeTrafficReset today p = r"
  shows "r = ResetNever \<or> r = ResetUnknown \<or> (\<exists>n. 0 < n \<and> r = ResetIn n)"
proof -
  have m: "\<exists>n. 0 < n \<and> countdown today (day_number (nextMonthlyReset today d)) = ResetIn n" if "1 \<le> d" "d \<le> 31" for d
    using nextMonthlyReset_after [OF assms(1) that] by (auto simp: countdown_future)
  have w: "\<exists>n. 0 < n \<and> countdown today (nextWeeklyReset today k) = ResetIn n" for k
    using nextWeeklyReset_bounds [of today k] by (auto simp: countdown_future)
  show ?thesis
    using assms(2) m w countdown_future [of today "day_number today + 1"]
    by (auto simp: describeTrafficReset_def Let_def split: if_splits)
qed

end
