(* ===== verification/Traffic_Service.thy ===== *)
theory Traffic_Service
  imports Subscription_Laws Broadcast_Store Traffic_Calendar "HOL-Library.Log_Nat"
begin

unbundle bit_operations_syntax

text \<open>
  Traffic quotas: \<open>internal/service/subscription_traffic.go\<close>,
  \<open>subscription_traffic_notifications.go\<close>, \<open>subscription_deactivate.go\<close>, the panel readers of
  \<open>sync.go\<close>, and a pass of \<open>internal/scheduler/subscription_traffic_worker.go\<close>.

  \<open>traffic_env\<close> adds to the environment of the services what the panels report about a client and
  how they answer to an update. A read leaves no effect; an update of a client is recorded with the
  whole request. Counters are 64-bit integers, the additions wrap around. Gigabytes, percentages and
  the progress bar of the card are texts computed from the byte counts and are left out.
\<close>

section \<open>What the panels report\<close>

record client_traffic =
  ct_enable :: bool
  ct_uuid :: string
  ct_sub_id :: string
  ct_up :: int
  ct_down :: int
  ct_expires_at :: int
  ct_total :: int
  ct_reset :: int

record client_record =
  cr_client :: client_profile
  cr_inbound_ids :: "int list"

record traffic_env =
  tf_svc :: svc_env
  tf_traffic :: "effect list \<Rightarrow> uint \<Rightarrow> string \<Rightarrow> error + client_traffic option"
  tf_record :: "effect list \<Rightarrow> uint \<Rightarrow> string \<Rightarrow> error + client_record option"
  tf_writer :: "uint \<Rightarrow> bool"
  tf_update :: "effect list \<Rightarrow> uint \<Rightarrow> client_request \<Rightarrow> error option"
  tf_inbounds :: "uint \<Rightarrow> int list"
  tf_today :: "time \<Rightarrow> civil_date"

definition readTrafficE :: "traffic_env \<Rightarrow> uint \<Rightarrow> string \<Rightarrow> (world, (error + client_traffic option)) op" where
  "readTrafficE env n email w = (Inr (tf_traffic env (trace w) n email), w)"

definition readRecordE :: "traffic_env \<Rightarrow> uint \<Rightarrow> string \<Rightarrow> (world, (error + client_record option)) op" where
  "readRecordE env n email w = (Inr (tf_record env (trace w) n email), w)"

definition updateClientE :: "traffic_env \<Rightarrow> uint \<Rightarrow> client_request \<Rightarrow> (world, unit) op" where
  "updateClientE env n req w =
     (case tf_update env (trace w) n req of
        None \<Rightarrow> (Inr (), w\<lparr>trace := trace w @ [EffClientUpdate n req]\<rparr>)
      | Some e \<Rightarrow> (Inl e, w\<lparr>trace := trace w @ [EffClientUpdate n req]\<rparr>))"

section \<open>The readers of a subscription\<close>

record reader_target =
  rt_node :: uint
  rt_inbound :: "int list"
  rt_email :: string

definition activeReaders :: "traffic_env \<Rightarrow> uint list option \<Rightarrow> string \<Rightarrow> reader_target list" where
  "activeReaders env activeNodeIDs email =
     map (\<lambda>n. \<lparr>rt_node = n_id n, rt_inbound = tf_inbounds env (n_id n), rt_email = email\<rparr>)
       (filter (\<lambda>n. n_is_active n
                   \<and> (case activeNodeIDs of None \<Rightarrow> True | Some ids \<Rightarrow> n_id n \<in> set ids)
                   \<and> ne_reader (sv_node (tf_svc env)) (n_id n))
          (ne_nodes (sv_node (tf_svc env))))"

definition activeBindingNodeIDs :: "uint \<Rightarrow> (world, uint list) op" where
  "activeBindingNodeIDs subscriptionID =
     bindE (GetBySubscriptionID subscriptionID) (\<lambda>rows.
     returnE (map sn_node_id (filter (\<lambda>sn. sn_status sn = SyncStatusActive) rows)))"

definition trafficNotifyCandidates :: "traffic_env \<Rightarrow> subscription \<Rightarrow> (world, reader_target list) op" where
  "trafficNotifyCandidates env sub =
     bindE (activeBindingNodeIDs (s_id sub)) (\<lambda>ids.
     returnE (activeReaders env (Some ids) (XUIEmail (s_username sub) (s_telegram_id sub))))"

section \<open>Reading the counters\<close>

datatype reading = Absent | Unreadable | Reading client_traffic

definition reading_of :: "error + client_traffic option \<Rightarrow> reading" where
  "reading_of r =
     (case r of
        Inl e \<Rightarrow> if errors_is e ErrClientNotFound then Absent else Unreadable
      | Inr None \<Rightarrow> Unreadable
      | Inr (Some t) \<Rightarrow>
          if ct_up t < 0 \<or> ct_down t < 0 then Unreadable
          else if wrap64 (max_int64 - ct_down t) < ct_up t then Unreadable
          else Reading t)"

text \<open>The readable snapshots, and whether a node could not be read.\<close>

fun read_snapshots ::
  "traffic_env \<Rightarrow> reader_target list \<Rightarrow> (world, bool \<times> (reader_target \<times> client_traffic) list) op" where
  "read_snapshots env [] = returnE (False, [])"
| "read_snapshots env (n # ns) =
     bindE (readTrafficE env (rt_node n) (rt_email n)) (\<lambda>r.
     bindE (read_snapshots env ns) (\<lambda>(partly, snapshots).
     returnE (case reading_of r of
         Absent \<Rightarrow> (partly, snapshots)
       | Unreadable \<Rightarrow> (True, snapshots)
       | Reading t \<Rightarrow> (partly, (n, t) # snapshots))))"

fun total_used :: "int \<Rightarrow> (reader_target \<times> client_traffic) list \<Rightarrow> int option" where
  "total_used used [] = Some used"
| "total_used used ((n, t) # rest) =
     (if wrap64 (max_int64 - wrap64 (ct_up t + ct_down t)) < used then None
      else total_used (wrap64 (used + wrap64 (ct_up t + ct_down t))) rest)"

definition any_enabled :: "(reader_target \<times> client_traffic) list \<Rightarrow> bool" where
  "any_enabled snapshots = list_ex (\<lambda>(n, t). ct_enable t) snapshots"

definition trafficQuotaWarningDenominator :: int where "trafficQuotaWarningDenominator = 10"

definition warning_reached :: "int \<Rightarrow> int \<Rightarrow> bool" where
  "warning_reached used limit \<longleftrightarrow> limit - go_div limit trafficQuotaWarningDenominator \<le> used"

section \<open>Notifications\<close>

definition sendOnce :: "traffic_env \<Rightarrow> subscription \<Rightarrow> int \<Rightarrow> string \<Rightarrow> bot_message \<Rightarrow> (world, unit) op" where
  "sendOnce env sub flag kind msg =
     bindE (ClaimTrafficReminder (s_id sub) flag) (\<lambda>claimed.
     if \<not> claimed then returnE ()
     else
     tryE (sendE (tf_svc env) (s_telegram_id sub) msg) (\<lambda>sent.
     case sent of
       Inl e \<Rightarrow>
         tryE (ReleaseTrafficReminder (s_id sub) flag) (\<lambda>released.
         failE (case released of Inl e' \<Rightarrow> e @ e' | Inr _ \<Rightarrow> e))
     | Inr _ \<Rightarrow> best_effort (InsertAuditLog (AuditTrafficNotified sub kind))))"

definition notifyExhausted :: "traffic_env \<Rightarrow> subscription \<Rightarrow> (world, unit) op" where
  "notifyExhausted env sub = sendOnce env sub TrafficBitExhausted ''exhausted'' MsgTrafficExhausted"

definition notifyNinety :: "traffic_env \<Rightarrow> subscription \<Rightarrow> (world, unit) op" where
  "notifyNinety env sub = sendOnce env sub TrafficBit90 ''ninety'' MsgTrafficNinety"

section \<open>Re-enabling a client\<close>

text \<open>\<open>time.UnixMilli(t).Before(now)\<close>\<close>

definition unix_milli :: "int \<Rightarrow> time" where "unix_milli t = t * 1000000"

definition reenable_refused :: "time \<Rightarrow> client_traffic \<Rightarrow> bool" where
  "reenable_refused now t \<longleftrightarrow>
     ct_uuid t = [] \<or> ct_expires_at t < 0 \<or> (0 < ct_expires_at t \<and> unix_milli (ct_expires_at t) < now)"

definition empty_profile :: client_profile where
  "empty_profile = \<lparr>cp_reset_day = 0, cp_reset_max = 0, cp_reset_weekday = 0, cp_traffic_reset = [],
     cp_traffic_reset_day = 0\<rparr>"

definition reenable_request ::
  "subscription \<Rightarrow> reader_target \<Rightarrow> client_traffic \<Rightarrow> client_profile \<Rightarrow> int list \<Rightarrow> client_request" where
  "reenable_request sub n t profile reported =
     \<lparr>cq_inbound_ids = (if reported \<noteq> [] then reported else rt_inbound n),
      cq_email = rt_email n, cq_current_email = rt_email n, cq_client_id = ct_uuid t, cq_sub_id = ct_sub_id t,
      cq_traffic_bytes = ct_total t, cq_expiry_time = Some (unix_milli (ct_expires_at t)),
      cq_reset_days = ct_reset t, cq_reset_day = cp_reset_day profile, cq_reset_max = cp_reset_max profile,
      cq_traffic_reset = cp_traffic_reset profile, cq_traffic_reset_day = cp_traffic_reset_day profile,
      cq_tg_id = s_telegram_id sub, cq_enable = Some True\<rparr>"

definition reenable_one ::
  "traffic_env \<Rightarrow> time \<Rightarrow> subscription \<Rightarrow> reader_target \<Rightarrow> client_traffic \<Rightarrow> (world, bool) op" where
  "reenable_one env now sub n t =
     (if ct_enable t \<or> \<not> tf_writer env (rt_node n) \<or> reenable_refused now t then returnE False
      else
      bindE (readRecordE env (rt_node n) (rt_email n)) (\<lambda>r.
      let update = (\<lambda>profile reported.
            tryE (updateClientE env (rt_node n) (reenable_request sub n t profile reported)) (\<lambda>u.
            returnE (case u of Inl _ \<Rightarrow> False | Inr _ \<Rightarrow> True)))
      in case r of
           Inl e \<Rightarrow> if errors_is e ErrClientNotFound then update empty_profile [] else returnE False
         | Inr None \<Rightarrow> returnE False
         | Inr (Some record) \<Rightarrow> update (cr_client record) (cr_inbound_ids record)))"

fun reenableResetClients ::
  "traffic_env \<Rightarrow> time \<Rightarrow> subscription \<Rightarrow> (reader_target \<times> client_traffic) list \<Rightarrow> (world, bool) op" where
  "reenableResetClients env now sub [] = returnE False"
| "reenableResetClients env now sub ((n, t) # rest) =
     bindE (reenable_one env now sub n t) (\<lambda>one.
     bindE (reenableResetClients env now sub rest) (\<lambda>more'.
     returnE (one \<or> more')))"

section \<open>A subscription\<close>

definition traffic_reset :: "traffic_env \<Rightarrow> time \<Rightarrow> subscription \<Rightarrow> bool \<Rightarrow>
    (reader_target \<times> client_traffic) list \<Rightarrow> (world, unit) op" where
  "traffic_reset env now sub sendNotifications snapshots =
     (if s_traffic_reminders_sent sub AND TrafficBitExhausted = 0 then returnE ()
      else
      bindE (reenableResetClients env now sub snapshots) (\<lambda>reenabled.
      if \<not> reenabled then returnE ()
      else
      bindE (best_effort (ReleaseTrafficReminder (s_id sub) TrafficBitExhausted)) (\<lambda>_.
      bindE (best_effort (ReleaseTrafficReminder (s_id sub) TrafficBit90)) (\<lambda>_.
      if \<not> sendNotifications then returnE ()
      else sendOnce env sub TrafficBitReset ''reset''
             (MsgTrafficReset (sv_sub_url (tf_svc env) (s_subscription_id sub)))))))"

definition traffic_decision :: "traffic_env \<Rightarrow> time \<Rightarrow> subscription \<Rightarrow> bool \<Rightarrow> int \<Rightarrow> bool \<Rightarrow> int \<Rightarrow>
    (reader_target \<times> client_traffic) list \<Rightarrow> (world, unit) op" where
  "traffic_decision env now sub sendNotifications limit partly used snapshots =
     (if partly \<and> used < limit then
        (if sendNotifications \<and> warning_reached used limit then notifyNinety env sub else returnE ())
      else if limit \<le> used then
        (if \<not> sendNotifications then best_effort (ClaimTrafficReminder (s_id sub) TrafficBitExhausted)
         else notifyExhausted env sub)
      else if \<not> any_enabled snapshots then traffic_reset env now sub sendNotifications snapshots
      else if sendNotifications \<and> warning_reached used limit then notifyNinety env sub
      else if sendNotifications then ReleaseTrafficReminder (s_id sub) TrafficBit90
      else returnE ())"

definition processTraffic :: "traffic_env \<Rightarrow> time \<Rightarrow> subscription \<Rightarrow> bool \<Rightarrow> (world, unit) op" where
  "processTraffic env now sub sendNotifications =
     bindE (GetPlanByID (s_plan_id sub)) (\<lambda>plan.
     if pl_traffic_limit plan \<le> 0 then returnE ()
     else
     bindE (trafficNotifyCandidates env sub) (\<lambda>ns.
     if ns = [] then returnE ()
     else
     bindE (read_snapshots env ns) (\<lambda>(partly, snapshots).
     if snapshots = [] then returnE ()
     else
     case total_used 0 snapshots of
       None \<Rightarrow> returnE ()
     | Some used \<Rightarrow>
         traffic_decision env now sub sendNotifications (pl_traffic_limit plan) partly used snapshots)))"

definition ProcessTrafficNotifications :: "traffic_env \<Rightarrow> time \<Rightarrow> subscription \<Rightarrow> (world, unit) op" where
  "ProcessTrafficNotifications env now sub =
     (if s_telegram_id sub \<le> 0 \<or> \<not> sv_bot (tf_svc env) then returnE ()
      else processTraffic env now sub True)"

definition ProcessTrafficReset :: "traffic_env \<Rightarrow> time \<Rightarrow> subscription \<Rightarrow> (world, unit) op" where
  "ProcessTrafficReset env now sub =
     (if s_telegram_id sub \<le> 0 then returnE () else processTraffic env now sub False)"

text \<open>A pass of the worker; the context is asked after every subscription.\<close>

definition traffic_ctx :: "traffic_env \<Rightarrow> (world, bool) op" where
  "traffic_ctx env w = (Inr (ne_ctx (sv_node (tf_svc env)) (trace w) \<noteq> None), w)"

fun process_targets :: "traffic_env \<Rightarrow> time \<Rightarrow> bool \<Rightarrow> (subscription \<times> int) list \<Rightarrow> (world, unit) op" where
  "process_targets env now sendNotifications [] = returnE ()"
| "process_targets env now sendNotifications ((sub, limit) # rest) =
     (if s_telegram_id sub \<le> 0 then process_targets env now sendNotifications rest
      else
      bindE (best_effort (if sendNotifications then ProcessTrafficNotifications env now sub
                          else ProcessTrafficReset env now sub)) (\<lambda>_.
      bindE (traffic_ctx env) (\<lambda>ended.
      if ended then returnE () else process_targets env now sendNotifications rest)))"

definition processMode :: "traffic_env \<Rightarrow> time \<Rightarrow> bool \<Rightarrow> (world, unit) op" where
  "processMode env now sendNotifications =
     tryE GetActiveSubscriptionsWithTrafficLimit (\<lambda>r.
     case r of
       Inl _ \<Rightarrow> returnE ()
     | Inr targets \<Rightarrow> process_targets env now sendNotifications targets)"

end
