(* ===== verification/Traffic_Laws.thy ===== *)
theory Traffic_Laws
  imports Traffic_Service
begin

unbundle bit_operations_syntax

text \<open>
  What the traffic passes guarantee: the sums are exact, a client is re-enabled only after a reset,
  a pass without notifications is silent, and how often the notices are sent.
\<close>

section \<open>The sums\<close>

definition int64 :: "int \<Rightarrow> bool" where
  "int64 x \<longleftrightarrow> - 9223372036854775808 \<le> x \<and> x \<le> max_int64"

lemma wrap64_int64: "int64 x \<Longrightarrow> wrap64 x = x"
  by (simp add: int64_def wrap64_id)

definition bytes_of :: "client_traffic \<Rightarrow> int" where
  "bytes_of t = ct_up t + ct_down t"

lemma reading_bounds:
  assumes "reading_of r = Reading t" "int64 (ct_up t)" "int64 (ct_down t)"
  shows "0 \<le> ct_up t \<and> 0 \<le> ct_down t \<and> bytes_of t \<le> max_int64"
proof -
  have "0 \<le> ct_up t" "0 \<le> ct_down t" "ct_up t \<le> wrap64 (max_int64 - ct_down t)"
    using assms(1) by (auto simp: reading_of_def split: sum.splits option.splits if_splits)
  moreover have "wrap64 (max_int64 - ct_down t) = max_int64 - ct_down t"
    using calculation assms(3) by (intro wrap64_int64) (simp add: int64_def max_int64_def)
  ultimately show ?thesis by (simp add: bytes_of_def)
qed

text \<open>The aggregated use is the exact sum of what the readable nodes reported, or the pass is given
  up: no addition of 64-bit counters wraps around. The warning starts at exactly nine tenths of the limit.\<close>

theorem total_used_exact:
  assumes "\<And>n t. (n, t) \<in> set sn \<Longrightarrow> (\<exists>r. reading_of r = Reading t) \<and> int64 (ct_up t) \<and> int64 (ct_down t)"
  shows "total_used 0 sn =
      (let total = sum_list (map (\<lambda>(n, t). ct_up t + ct_down t) sn) in if total \<le> max_int64 then Some total else None)
    \<and> (0 < limit \<longrightarrow> warning_reached used limit = (9 * limit \<le> 10 * used))"
proof
  have "total_used u sn' = (if u + sum_list (map (\<lambda>(n, t). bytes_of t) sn') \<le> max_int64
      then Some (u + sum_list (map (\<lambda>(n, t). bytes_of t) sn')) else None)"
    if "0 \<le> u" "u \<le> max_int64" "set sn' \<subseteq> set sn" for u sn'
    using that
  proof (induction sn' arbitrary: u)
    case (Cons x rest)
    obtain n t where x: "x = (n, t)" by (cases x)
    have t: "0 \<le> bytes_of t" "bytes_of t \<le> max_int64"
      using assms [of n t] reading_bounds [of _ t] Cons.prems(3) x by (auto simp: bytes_of_def)
    have others: "0 \<le> sum_list (map (\<lambda>(n, t). bytes_of t) rest)"
      using assms reading_bounds Cons.prems(3) by (intro sum_list_nonneg) (fastforce simp: bytes_of_def)
    have w: "wrap64 (ct_up t + ct_down t) = bytes_of t" "wrap64 (max_int64 - bytes_of t) = max_int64 - bytes_of t"
      using t wrap64_int64 [of "bytes_of t"] wrap64_int64 [of "max_int64 - bytes_of t"]
      by (auto simp: int64_def bytes_of_def max_int64_def)
    show ?case
    proof (cases "max_int64 - bytes_of t < u")
      case True
      then show ?thesis using x w others by simp
    next
      case False
      then have "wrap64 (u + bytes_of t) = u + bytes_of t"
        using t Cons.prems by (intro wrap64_int64) (simp add: int64_def max_int64_def)
      with False show ?thesis
        using x w t Cons.prems Cons.IH [of "u + bytes_of t"] by (simp add: add.assoc)
    qed
  qed simp
  moreover have "(\<lambda>(n :: reader_target, t). ct_up t + ct_down t) = (\<lambda>(n, t). bytes_of t)"
    by (auto simp: bytes_of_def)
  ultimately show "total_used 0 sn = (let total = sum_list (map (\<lambda>(n, t). ct_up t + ct_down t) sn) in
      if total \<le> max_int64 then Some total else None)"
    by (simp add: max_int64_def Let_def)
  show "0 < limit \<longrightarrow> warning_reached used limit = (9 * limit \<le> 10 * used)"
  proof
    assume pos: "0 < limit"
    define d m where "d = limit div 10" and "m = limit mod 10"
    have "limit = 10 * d + m" "0 \<le> m" "m < 10"
      by (simp_all add: d_def m_def)
    moreover have "warning_reached used limit = (limit - d \<le> used)"
      using pos by (simp add: warning_reached_def go_div_def trafficQuotaWarningDenominator_def d_def)
    ultimately show "warning_reached used limit = (9 * limit \<le> 10 * used)"
      by auto
  qed
qed

section \<open>What a pass may do outside the database\<close>

definition emits :: "(effect \<Rightarrow> bool) \<Rightarrow> world \<Rightarrow> world \<Rightarrow> bool" where
  "emits P w w' \<longleftrightarrow> (\<exists>es. trace w' = trace w @ es \<and> list_all P es)"

interpretation emitting: op_contract "emits P" for P
  by unfold_locales (fastforce simp: emits_def)+

lemma statement_emits:
  "keeps (emits P) (stmtE f)" "keeps (emits P) (query g)" "keeps (emits P) (queryE h)" "keeps (emits P) (execE k)"
  unfolding query_def queryE_def execE_def
  by (auto intro!: keepsI simp: emits_def stmtE_def run_stmt_def split: turn.splits sum.splits prod.splits)

lemma silent_step: "keeps (emits (\<lambda>_. False)) m \<Longrightarrow> m w = (r, w') \<Longrightarrow> trace w' = trace w"
  using keepsD [of "emits (\<lambda>_. False)" m w] by (auto simp: emits_def list_all_iff)

lemma best_effort_emits: "keeps (emits P) m \<Longrightarrow> keeps (emits P) (best_effort m)"
  unfolding best_effort_def by (intro emitting.combinators)

text \<open>The steps of a pass; \<open>P\<close> allows what they do.\<close>

lemma traffic_store_emits:
  "keeps (emits P) (ClaimTrafficReminder i flag)" "keeps (emits P) (ReleaseTrafficReminder i flag)"
  "keeps (emits P) (InsertAuditLog e)" "keeps (emits P) (GetPlanByID j)"
  "keeps (emits P) (trafficNotifyCandidates env sub)" "keeps (emits P) GetActiveSubscriptionsWithTrafficLimit"
  unfolding ClaimTrafficReminder_def ReleaseTrafficReminder_def InsertAuditLog_def GetPlanByID_def
    trafficNotifyCandidates_def activeBindingNodeIDs_def GetBySubscriptionID_def GetActiveSubscriptionsWithTrafficLimit_def
  by (intro emitting.combinators statement_emits)+

lemma sendE_emits: "(\<And>c. P (EffMessage c msg)) \<Longrightarrow> keeps (emits P) (sendE env chat msg)"
  by (auto intro!: keepsI simp: emits_def sendE_def split: option.splits)

lemma sendOnce_emits: "(\<And>c. P (EffMessage c msg)) \<Longrightarrow> keeps (emits P) (sendOnce env sub flag kind msg)"
  unfolding sendOnce_def
  by (intro emitting.combinators traffic_store_emits sendE_emits best_effort_emits)

lemma read_snapshots_run:
  "\<exists>partly sn. read_snapshots env ns w = (Inr (partly, sn), w)
     \<and> (\<forall>(n, t) \<in> set sn. n \<in> set ns \<and> tf_traffic env (trace w) (rt_node n) (rt_email n) = Inr (Some t))"
proof (induction ns)
  case (Cons n ns)
  then obtain partly sn where IH: "read_snapshots env ns w = (Inr (partly, sn), w)"
    "\<forall>(n, t) \<in> set sn. n \<in> set ns \<and> tf_traffic env (trace w) (rt_node n) (rt_email n) = Inr (Some t)"
    by blast
  have r: "r = Inr (Some t)" if "reading_of r = Reading t" for r t
    using that by (auto simp: reading_of_def split: sum.splits option.splits if_splits)
  show ?case
    using IH r [of "tf_traffic env (trace w) (rt_node n) (rt_email n)"]
    by (cases "reading_of (tf_traffic env (trace w) (rt_node n) (rt_email n))")
      (auto simp: bindE_def readTrafficE_def returnE_def)
qed (auto simp: returnE_def)

lemma read_snapshots_emits: "keeps (emits P) (read_snapshots env ns)"
proof (rule keepsI)
  fix w
  obtain x where "read_snapshots env ns w = (x, w)"
    using read_snapshots_run by blast
  then show "emits P w (snd (read_snapshots env ns w))"
    by (simp add: emits_def)
qed

lemma reenable_one_emits:
  assumes "\<And>profile reported. \<not> ct_enable t \<Longrightarrow> tf_writer env (rt_node n) \<Longrightarrow> \<not> reenable_refused now t \<Longrightarrow>
     P (EffClientUpdate (rt_node n) (reenable_request sub n t profile reported))"
  shows "keeps (emits P) (reenable_one env now sub n t)"
proof (cases "ct_enable t \<or> \<not> tf_writer env (rt_node n) \<or> reenable_refused now t")
  case False
  have "keeps (emits P) (readRecordE env (rt_node n) (rt_email n))"
    by (auto intro!: keepsI simp: emits_def readRecordE_def)
  moreover have "keeps (emits P) (updateClientE env (rt_node n) (reenable_request sub n t profile reported))" for profile reported
    using assms False by (auto intro!: keepsI simp: emits_def updateClientE_def split: option.splits)
  ultimately show ?thesis
    unfolding reenable_one_def Let_def by (intro emitting.combinators)
qed (simp add: reenable_one_def emitting.returnE_keeps)

lemma reenable_emits:
  assumes "\<And>n t profile reported. (n, t) \<in> set sn \<Longrightarrow> \<not> ct_enable t \<Longrightarrow> tf_writer env (rt_node n) \<Longrightarrow>
     \<not> reenable_refused now t \<Longrightarrow> P (EffClientUpdate (rt_node n) (reenable_request sub n t profile reported))"
  shows "keeps (emits P) (reenableResetClients env now sub sn)"
  using assms
proof (induction sn)
  case (Cons x sn)
  obtain n t where "x = (n, t)" by (cases x)
  with Cons show ?case
    by (auto intro!: emitting.combinators reenable_one_emits)
qed (simp add: emitting.returnE_keeps)

section \<open>Re-enabling\<close>

lemma no_update: "keeps (emits (\<lambda>e. \<forall>n req. e \<noteq> EffClientUpdate n req)) m \<Longrightarrow> m w = (r, w') \<Longrightarrow>
    trace w' = trace w @ es \<Longrightarrow> EffClientUpdate n req \<notin> set es"
  using keepsD [of "emits (\<lambda>e. \<forall>n req. e \<noteq> EffClientUpdate n req)" m w] by (auto simp: emits_def list_all_iff)

text \<open>A pass that has an effect outside the database got as far as its decision.\<close>

lemma traffic_run:
  assumes "processTraffic env now sub notify w = (r, w')" "trace w' \<noteq> trace w"
  obtains plan w1 ns w2 partly sn used where "GetPlanByID (s_plan_id sub) w = (Inr plan, w1)"
    "trafficNotifyCandidates env sub w1 = (Inr ns, w2)" "trace w2 = trace w"
    "\<forall>(n, t) \<in> set sn. tf_traffic env (trace w) (rt_node n) (rt_email n) = Inr (Some t)"
    "total_used 0 sn = Some used"
    "traffic_decision env now sub notify (pl_traffic_limit plan) partly used sn w2 = (r, w')"
    "read_snapshots env ns w2 = (Inr (partly, sn), w2)"
proof -
  obtain p w1 where p: "GetPlanByID (s_plan_id sub) w = (p, w1)"
    by (cases "GetPlanByID (s_plan_id sub) w")
  have w1: "trace w1 = trace w"
    by (rule silent_step [OF traffic_store_emits(4) p])
  obtain c w2 where c: "trafficNotifyCandidates env sub w1 = (c, w2)"
    by (cases "trafficNotifyCandidates env sub w1")
  have w2: "trace w2 = trace w1"
    by (rule silent_step [OF traffic_store_emits(5) c])
  obtain plan where plan: "p = Inr plan" "0 < pl_traffic_limit plan"
    using assms p w1 by (cases p) (auto simp: processTraffic_def bindE_def returnE_def split: if_splits)
  obtain ns where ns: "c = Inr ns" "ns \<noteq> []"
    using assms p plan c w1 w2 by (cases c) (auto simp: processTraffic_def bindE_def returnE_def split: if_splits)
  obtain partly sn where sn: "read_snapshots env ns w2 = (Inr (partly, sn), w2)"
    "\<forall>(n, t) \<in> set sn. n \<in> set ns \<and> tf_traffic env (trace w2) (rt_node n) (rt_email n) = Inr (Some t)"
    using read_snapshots_run by blast
  obtain used where used: "total_used 0 sn = Some used"
    "traffic_decision env now sub notify (pl_traffic_limit plan) partly used sn w2 = (r, w')"
    using assms p plan c ns sn(1) w1 w2
    by (cases "total_used 0 sn") (auto simp: processTraffic_def bindE_def returnE_def split: if_splits)
  show ?thesis
    using that [OF p [unfolded plan(1)] c [unfolded ns(1)] _ _ used sn(1)] sn(2) w1 w2 by fastforce
qed

text \<open>
  The nodes a subscription is read from, and what they report: a node counts when it is active, has
  a reader and an active binding of the subscription; a report counts when neither counter is negative
  and their sum fits into 64 bits. The counters are 64-bit numbers.
\<close>

definition counters64 :: "traffic_env \<Rightarrow> bool" where
  "counters64 env \<longleftrightarrow> (\<forall>tr i e t. tf_traffic env tr i e = Inr (Some t) \<longrightarrow> int64 (ct_up t) \<and> int64 (ct_down t))"

definition reported_by :: "traffic_env \<Rightarrow> effect list \<Rightarrow> reader_target \<Rightarrow> (reader_target \<times> client_traffic) option" where
  "reported_by env tr n =
     (case tf_traffic env tr (rt_node n) (rt_email n) of
        Inr (Some t) \<Rightarrow> if 0 \<le> ct_up t \<and> 0 \<le> ct_down t \<and> ct_up t + ct_down t \<le> max_int64 then Some (n, t) else None
      | _ \<Rightarrow> None)"

definition bound_active :: "traffic_env \<Rightarrow> uint \<Rightarrow> db \<Rightarrow> uint \<Rightarrow> bool" where
  "bound_active env s d i \<longleftrightarrow>
     (\<exists>n \<in> set (ne_nodes (sv_node (tf_svc env))). n_id n = i \<and> n_is_active n \<and> ne_reader (sv_node (tf_svc env)) i)
     \<and> (\<exists>sn \<in> set (subscription_nodes d). sn_subscription_id sn = s \<and> sn_node_id sn = i \<and> sn_status sn = SyncStatusActive)"

lemma reading_iff:
  assumes "\<And>t. r = Inr (Some t) \<Longrightarrow> int64 (ct_up t) \<and> int64 (ct_down t)"
  shows "reading_of r = Reading t \<longleftrightarrow>
     r = Inr (Some t) \<and> 0 \<le> ct_up t \<and> 0 \<le> ct_down t \<and> ct_up t + ct_down t \<le> max_int64"
proof
  assume t: "reading_of r = Reading t"
  then have "r = Inr (Some t)"
    by (auto simp: reading_of_def split: sum.splits option.splits if_splits)
  then show "r = Inr (Some t) \<and> 0 \<le> ct_up t \<and> 0 \<le> ct_down t \<and> ct_up t + ct_down t \<le> max_int64"
    using reading_bounds [OF t] assms by (simp add: bytes_of_def)
next
  assume t: "r = Inr (Some t) \<and> 0 \<le> ct_up t \<and> 0 \<le> ct_down t \<and> ct_up t + ct_down t \<le> max_int64"
  then have "wrap64 (max_int64 - ct_down t) = max_int64 - ct_down t"
    by (intro wrap64_int64) (simp add: int64_def max_int64_def)
  with t show "reading_of r = Reading t"
    by (simp add: reading_of_def)
qed

lemma read_snapshots_exact:
  assumes "counters64 env"
  shows "\<exists>partly. read_snapshots env ns w = (Inr (partly, List.map_filter (reported_by env (trace w)) ns), w)"
proof (induction ns)
  case (Cons n ns)
  let ?r = "tf_traffic env (trace w) (rt_node n) (rt_email n)"
  have iff: "reading_of ?r = Reading t \<longleftrightarrow>
      ?r = Inr (Some t) \<and> 0 \<le> ct_up t \<and> 0 \<le> ct_down t \<and> ct_up t + ct_down t \<le> max_int64" for t
    by (rule reading_iff) (use assms in \<open>auto simp: counters64_def\<close>)
  show ?case
  proof (cases "reading_of ?r")
    case (Reading t)
    then show ?thesis
      using Cons iff [of t] by (auto simp: bindE_def readTrafficE_def returnE_def reported_by_def map_filter_simps)
  next
    case Absent
    then have "reported_by env (trace w) n = None"
      using iff by (auto simp: reported_by_def split: sum.split option.split)
    with Absent show ?thesis
      using Cons by (auto simp: bindE_def readTrafficE_def returnE_def map_filter_simps)
  next
    case Unreadable
    then have "reported_by env (trace w) n = None"
      using iff by (auto simp: reported_by_def split: sum.split option.split)
    with Unreadable show ?thesis
      using Cons by (auto simp: bindE_def readTrafficE_def returnE_def map_filter_simps)
  qed
qed (rule exI [of _ False], simp add: returnE_def map_filter_simps)

lemma reported_by_Some:
  "reported_by env tr m = Some (n, t) \<longleftrightarrow> m = n \<and> tf_traffic env tr (rt_node n) (rt_email n) = Inr (Some t)
     \<and> 0 \<le> ct_up t \<and> 0 \<le> ct_down t \<and> ct_up t + ct_down t \<le> max_int64"
  by (auto simp: reported_by_def split: sum.split option.split)

lemma reported_byD:
  assumes "(n, t) \<in> set (List.map_filter (reported_by env tr) ns)"
  shows "n \<in> set ns \<and> reported_by env tr n = Some (n, t)"
proof -
  obtain m where "m \<in> set ns" "reported_by env tr m = Some (n, t)"
    using assms by (auto simp: List.map_filter_def)
  then show ?thesis by (simp add: reported_by_Some)
qed

lemma candidates_ok:
  assumes "trafficNotifyCandidates env sub w = (Inr ns, w')"
  shows "set (map rt_node ns) = {i. bound_active env (s_id sub) (db (step_other w)) i}"
proof -
  obtain rows w1 where rows: "GetBySubscriptionID (s_id sub) w = (Inr rows, w1)"
    and ns: "ns = activeReaders env (Some (map sn_node_id (filter (\<lambda>sn. sn_status sn = SyncStatusActive) rows)))
      (XUIEmail (s_username sub) (s_telegram_id sub))"
    using assms unfolding trafficNotifyCandidates_def activeBindingNodeIDs_def
    by (auto simp: returnE_ok elim!: bindE_ok)
  have "rows = rows_of (s_id sub) (db (step_other w))"
    using rows by (auto simp: GetBySubscriptionID_def query_def stmtE_def run_stmt_def split: turn.splits)
  then show ?thesis
    unfolding ns activeReaders_def bound_active_def by (auto simp: rows_of_def image_iff) metis
qed


text \<open>Recovery without notifications is silent: a pass in that mode sends no message to anybody.\<close>

theorem recovery_is_silent:
  assumes "processMode env now False w = (r, w')"
  shows "\<exists>es. trace w' = trace w @ es \<and> (\<forall>c m. EffMessage c m \<notin> set es)"
proof -
  let ?P = "\<lambda>e. \<forall>c m. e \<noteq> EffMessage c m"
  have decide: "keeps (emits ?P) (traffic_decision env now sub False limit partly used sn)" for sub limit partly used sn
    unfolding traffic_decision_def traffic_reset_def
    by (auto intro!: emitting.combinators traffic_store_emits best_effort_emits reenable_emits)
  have one: "keeps (emits ?P) (ProcessTrafficReset env now sub)" for sub
    unfolding ProcessTrafficReset_def processTraffic_def
    by (intro emitting.combinators traffic_store_emits read_snapshots_emits decide)
  have ctx: "keeps (emits ?P) (traffic_ctx env)"
    by (auto intro!: keepsI simp: emits_def traffic_ctx_def)
  have targets: "keeps (emits ?P) (process_targets env now False ts)" for ts
  proof (induction ts)
    case (Cons x ts)
    then show ?case
      by (cases x) (auto intro!: emitting.combinators best_effort_emits one ctx)
  qed (simp add: emitting.returnE_keeps)
  have "keeps (emits ?P) (processMode env now False)"
    unfolding processMode_def by (intro emitting.combinators traffic_store_emits targets)
  from keepsD [OF this, of w] show ?thesis
    using assms by (fastforce simp: emits_def list_all_iff)
qed

section \<open>The marks\<close>

text \<open>A mark that is set stays set.\<close>

definition mark_kept :: "uint \<Rightarrow> int \<Rightarrow> db \<Rightarrow> db \<Rightarrow> bool" where
  "mark_kept i flag d d' \<longleftrightarrow>
     (\<forall>s' \<in> set (subscriptions d'). s_id s' = i \<longrightarrow>
        (\<exists>s \<in> set (subscriptions d). s_id s = i
           \<and> (s_traffic_reminders_sent s AND flag \<noteq> 0 \<longrightarrow> s_traffic_reminders_sent s' AND flag \<noteq> 0)))"

interpretation marks: db_contract "mark_kept i flag" for i flag
  by unfold_locales (force simp: mark_kept_def)+

lemma mark_kept_update:
  assumes "update_subs P (set_traffic_reminders f) d = Inr (x, d')"
    and "\<And>m. m AND flag \<noteq> 0 \<Longrightarrow> f m AND flag \<noteq> 0"
  shows "mark_kept i flag d d'"
proof -
  have d': "subscriptions d' = update_where P (set_traffic_reminders f) (subscriptions d)"
    using update_subs_ok [OF assms(1)] by simp
  have "\<exists>r \<in> set (subscriptions d). s_id r = i
      \<and> (s_traffic_reminders_sent r AND flag \<noteq> 0 \<longrightarrow> s_traffic_reminders_sent s AND flag \<noteq> 0)"
    if s: "s \<in> set (subscriptions d')" "s_id s = i" for s
  proof -
    obtain r where "r \<in> set (subscriptions d)" "s = (if P r then set_traffic_reminders f r else r)"
      using s(1) unfolding d' set_update_where by blast
    then show ?thesis
      using s(2) assms(2) by (intro bexI [of _ r]) (auto simp: set_traffic_reminders_def split: if_splits)
  qed
  then show ?thesis by (simp add: mark_kept_def)
qed

lemma claim_marks: "keeps (on_db (mark_kept i flag)) (ClaimTrafficReminder j g)"
  unfolding ClaimTrafficReminder_def
  by (intro marks.db_combinators marks.stmtE_keeps) (auto elim!: mark_kept_update simp: set_flag_keeps)

lemma release_marks:
  assumes "\<And>m. m AND flag \<noteq> 0 \<Longrightarrow> (m AND NOT g) AND flag \<noteq> 0"
  shows "keeps (on_db (mark_kept i flag)) (ReleaseTrafficReminder j g)"
  unfolding ReleaseTrafficReminder_def
  by (intro marks.db_combinators marks.stmtE_keeps) (auto elim!: mark_kept_update simp: assms)

lemma reset_mark_disjoint: "(m AND NOT TrafficBitExhausted) AND TrafficBitReset = m AND TrafficBitReset"
  "(m AND NOT TrafficBit90) AND TrafficBitReset = m AND TrafficBitReset"
  for m :: int
proof -
  have "NOT 2 AND 4 = (4 :: int)" "NOT 1 AND 4 = (4 :: int)" by simp_all
  then show "(m AND NOT TrafficBitExhausted) AND TrafficBitReset = m AND TrafficBitReset"
    "(m AND NOT TrafficBit90) AND TrafficBitReset = m AND TrafficBitReset"
    by (simp_all add: TrafficBitExhausted_def TrafficBit90_def TrafficBitReset_def and.assoc)
qed

lemma audit_marks: "keeps (on_db (mark_kept i flag)) (InsertAuditLog e)"
  unfolding InsertAuditLog_def
  by (intro marks.db_combinators marks.execE_keeps) (auto simp: append_audit_def Let_def mark_kept_def)

lemma claim_ok:
  assumes "ClaimTrafficReminder i flag w = (Inr b, w')" "flag \<noteq> 0"
  shows "trace w' = trace w \<and> (b \<longrightarrow>
     (\<exists>s \<in> set (subscriptions (db (step_other w))). s_id s = i \<and> s_traffic_reminders_sent s AND flag = 0)
     \<and> (\<forall>s \<in> set (subscriptions (db w')). s_id s = i \<longrightarrow> s_traffic_reminders_sent s AND flag \<noteq> 0))"
proof -
  let ?P = "\<lambda>s. s_id s = i \<and> s_traffic_reminders_sent s AND flag = 0"
  let ?f = "set_traffic_reminders (\<lambda>m. m OR flag)"
  obtain n w1 where upd: "stmtE (update_subs ?P ?f) w = (Inr n, w1)"
    and rest: "(if 0 < n then returnE True else bindE (queryE (find_subscription i)) (\<lambda>_. returnE False)) w1 = (Inr b, w')"
    using assms(1) unfolding ClaimTrafficReminder_def by (elim bindE_ok)
  note u = stmtE_ok [OF upd]
  have rows: "subscriptions (db w1) = update_where ?P ?f (subscriptions (db (step_other w)))"
    "n = count_where ?P (subscriptions (db (step_other w)))" "trace w1 = trace w"
    using update_subs_ok [OF u(1)] u(2) by auto
  show ?thesis
  proof (cases "0 < n")
    case True
    then have b: "b" "w' = w1" using rest by (simp_all add: returnE_ok)
    have "\<exists>s \<in> set (subscriptions (db (step_other w))). ?P s"
      using True unfolding rows(2) by (simp add: count_where_pos [of ?P, symmetric])
    moreover have "\<forall>s \<in> set (subscriptions (db w1)). s_id s = i \<longrightarrow> s_traffic_reminders_sent s AND flag \<noteq> 0"
      unfolding rows(1) ball_update_where by (auto simp: set_traffic_reminders_def set_flag [OF assms(2)])
    ultimately show ?thesis using b rows(3) by blast
  next
    case False
    then have "\<not> b" "trace w' = trace w1"
      using rest by (auto elim!: bindE_ok dest!: stmtE_ok(2) simp: plain_ok queryE_def)
    with rows(3) show ?thesis by simp
  qed
qed

lemma sendOnce_spends: "keeps spends (sendOnce env sub g kind msg)"
proof -
  have "keeps spends (sendE (tf_svc env) c msg)" for c
    by (auto intro!: keepsI simp: spends_def sendE_def split: option.splits)
  then show ?thesis
    unfolding sendOnce_def ClaimTrafficReminder_def ReleaseTrafficReminder_def best_effort_def InsertAuditLog_def
    by (intro spend.combinators stmtE_spends world_spends)
qed

text \<open>
  A claimed notice keeps every mark: its own was clear before it was claimed, whatever becomes of it.
\<close>

lemma sendOnce_marks:
  assumes "flag \<noteq> 0" "\<And>m. g \<noteq> flag \<Longrightarrow> m AND flag \<noteq> 0 \<Longrightarrow> (m AND NOT g) AND flag \<noteq> 0"
  shows "keeps (on_db (mark_kept i flag)) (sendOnce env sub g kind msg)"
proof (cases "g = flag \<and> s_id sub = i")
  case False
  have release: "keeps (on_db (mark_kept i flag)) (ReleaseTrafficReminder (s_id sub) g)"
  proof (cases "g = flag")
    case False
    with assms(2) show ?thesis by (intro release_marks) blast
  next
    case True
    with False have "s_id sub \<noteq> i" by blast
    then have "mark_kept i flag d d'"
      if "update_subs (\<lambda>s. s_id s = s_id sub) (set_traffic_reminders f) d = Inr (x, d')" for d d' x f
      using update_subs_ok [OF that] by (auto simp: mark_kept_def update_where_def set_traffic_reminders_def)
    then show ?thesis
      unfolding ReleaseTrafficReminder_def by (intro marks.db_combinators marks.stmtE_keeps) auto
  qed
  have "keeps (on_db (mark_kept i flag)) (sendE (tf_svc env) c msg)" for c
    by (auto intro!: keepsI simp: on_db_def marks.db_refl sendE_def rely_def split: option.splits)
  with release show ?thesis
    unfolding sendOnce_def by (intro marks.db_combinators claim_marks audit_marks marks.best_effort_keeps)
next
  case True
  show ?thesis
  proof (rule keepsI)
    fix w
    obtain r w' where run: "sendOnce env sub g kind msg w = (r, w')" by (cases "sendOnce env sub g kind msg w")
    have "mark_kept i flag (db w) (db w') \<and> rely (mark_kept i flag) w'" if rely: "rely (mark_kept i flag) w"
    proof (rule conjI)
      show "rely (mark_kept i flag) w'"
        using keepsD [OF sendOnce_spends, of w env sub g kind msg] run rely_spends [OF rely] by simp
      obtain b w1 where c: "ClaimTrafficReminder (s_id sub) g w = (b, w1)"
        by (cases "ClaimTrafficReminder (s_id sub) g w")
      show "mark_kept i flag (db w) (db w')"
      proof (cases "b = Inr True")
        case False
        then have "db w' = db w1"
          using run c by (auto simp: sendOnce_def bindE_def returnE_def split: sum.splits)
        then show ?thesis
          using keeps_run(1) [OF claim_marks rely c] by simp
      next
        case True
        then obtain s where "s \<in> set (subscriptions (db (step_other w)))" "s_id s = i" "s_traffic_reminders_sent s AND flag = 0"
          using claim_ok [of "s_id sub" g w True w1] c \<open>g = flag \<and> s_id sub = i\<close> assms(1) by auto
        then obtain s0 where "s0 \<in> set (subscriptions (db w))" "s_id s0 = i" "s_traffic_reminders_sent s0 AND flag = 0"
          using marks.step_other_R [OF rely] by (fastforce simp: mark_kept_def)
        then show ?thesis by (auto simp: mark_kept_def)
      qed
    qed
    then show "on_db (mark_kept i flag) w (snd (sendOnce env sub g kind msg w))"
      using run by (simp add: on_db_def)
  qed
qed

section \<open>The notice of a reset\<close>

abbreviation reset_marks :: "uint \<Rightarrow> db \<Rightarrow> db \<Rightarrow> bool" where
  "reset_marks i \<equiv> mark_kept i TrafficBitReset"

abbreviation no_notice :: "effect \<Rightarrow> bool" where
  "no_notice \<equiv> \<lambda>e. \<forall>c u. e \<noteq> EffMessage c (MsgTrafficReset u)"

lemma reset_release_marks:
  "keeps (on_db (reset_marks i)) (ReleaseTrafficReminder j TrafficBitExhausted)"
  "keeps (on_db (reset_marks i)) (ReleaseTrafficReminder j TrafficBit90)"
  by (rule release_marks; simp add: reset_mark_disjoint)+

lemma reset_candidates_marks:
  "keeps (on_db (reset_marks i)) (trafficNotifyCandidates env sub)" "keeps (on_db (reset_marks i)) (GetPlanByID j)"
  unfolding trafficNotifyCandidates_def activeBindingNodeIDs_def GetBySubscriptionID_def GetPlanByID_def
  by (intro marks.db_combinators)+

text \<open>Talking to the panels leaves the database and the script alone.\<close>

definition undisturbed :: "world \<Rightarrow> world \<Rightarrow> bool" where
  "undisturbed w w' \<longleftrightarrow> db w' = db w \<and> turns w' = turns w"

interpretation undisturbed: op_contract undisturbed
  by unfold_locales (simp_all add: undisturbed_def)

lemma reenable_one_undisturbed: "keeps undisturbed (reenable_one env now sub n t)"
proof -
  have "keeps undisturbed (readRecordE env i email)" "keeps undisturbed (updateClientE env i req)" for i email req
    by (auto intro!: keepsI simp: undisturbed_def readRecordE_def updateClientE_def split: option.splits)
  then show ?thesis
    unfolding reenable_one_def Let_def by (intro undisturbed.combinators)
qed

lemma reenable_undisturbed: "keeps undisturbed (reenableResetClients env now sub sn)"
proof (induction sn)
  case (Cons x sn)
  then show ?case
    by (cases x) (simp add: undisturbed.combinators reenable_one_undisturbed)
qed (simp add: undisturbed.returnE_keeps)

lemma reenable_db: "reenableResetClients env now sub sn w = (r, w') \<Longrightarrow> db w' = db w \<and> turns w' = turns w"
  using keepsD [OF reenable_undisturbed, of w env now sub sn] by (simp add: undisturbed_def)

text \<open>Where the notice of a reset comes from.\<close>

lemma notice_run:
  assumes "processTraffic env now sub notify w = (r, w')" "trace w' = trace w @ es"
    and "EffMessage c (MsgTrafficReset u) \<in> set es" "rely (reset_marks i) w"
  obtains w1 es1 msg where "sendOnce env sub TrafficBitReset ''reset'' msg w1 = (r, w')" "trace w1 = trace w @ es1"
    "list_all no_notice es1" "reset_marks i (db w) (db w1)" "rely (reset_marks i) w1"
proof -
  have nonempty: "trace w' \<noteq> trace w" using assms(2,3) by auto
  obtain plan w1 ns w2 partly sn used where p: "GetPlanByID (s_plan_id sub) w = (Inr plan, w1)"
    and cand: "trafficNotifyCandidates env sub w1 = (Inr ns, w2)" and w2: "trace w2 = trace w"
    and sn: "\<forall>(n, t) \<in> set sn. tf_traffic env (trace w) (rt_node n) (rt_email n) = Inr (Some t)"
    and used: "total_used 0 sn = Some used"
    and run: "traffic_decision env now sub notify (pl_traffic_limit plan) partly used sn w2 = (r, w')"
    by (rule traffic_run [OF assms(1) nonempty])
  note k1 = keeps_run [OF reset_candidates_marks(2) assms(4) p]
  note k2 = keeps_run [OF reset_candidates_marks(1) k1(2) cand]
  have es: "trace w' = trace w2 @ es" using assms(2) w2 by simp
  have other: "list_all no_notice es" if "keeps (emits no_notice) m" "m w2 = (r, w')" for m :: "(world, unit) op"
    using keepsD [OF that(1), of w2] that(2) es by (auto simp: emits_def)
  have reset: "\<not> any_enabled sn \<and> s_traffic_reminders_sent sub AND TrafficBitExhausted \<noteq> 0 \<and> notify
      \<and> traffic_reset env now sub notify sn w2 = (r, w')"
  proof (rule ccontr)
    assume not: "\<not> ?thesis"
    have "keeps (emits no_notice) (traffic_decision env now sub notify (pl_traffic_limit plan) partly used sn)"
      if "any_enabled sn \<or> s_traffic_reminders_sent sub AND TrafficBitExhausted = 0 \<or> \<not> notify"
      using that unfolding traffic_decision_def traffic_reset_def notifyNinety_def notifyExhausted_def
      by (auto intro!: emitting.combinators traffic_store_emits best_effort_emits sendOnce_emits reenable_emits)
    moreover have "keeps (emits no_notice) (traffic_decision env now sub notify (pl_traffic_limit plan) partly used sn)"
      if "traffic_decision env now sub notify (pl_traffic_limit plan) partly used sn \<noteq> traffic_reset env now sub notify sn"
      using that unfolding traffic_decision_def notifyNinety_def notifyExhausted_def
      by (auto intro!: emitting.combinators traffic_store_emits best_effort_emits sendOnce_emits split: if_splits)
    ultimately have "keeps (emits no_notice) (traffic_decision env now sub notify (pl_traffic_limit plan) partly used sn)"
      using not run
      by (cases "traffic_decision env now sub notify (pl_traffic_limit plan) partly used sn = traffic_reset env now sub notify sn"; cases notify) auto
    from other [OF this run] have "list_all no_notice es" .
    with assms(3) show False by (auto simp: list_all_iff)
  qed
  obtain ok w3 where ok: "reenableResetClients env now sub sn w2 = (ok, w3)"
    by (cases "reenableResetClients env now sub sn w2")
  have silent: "\<exists>es1. trace w3 = trace w2 @ es1 \<and> list_all no_notice es1"
    using keepsD [OF reenable_emits [of sn env now no_notice sub], of w2] ok by (auto simp: emits_def)
  let ?rel = "\<lambda>flag. best_effort (ReleaseTrafficReminder (s_id sub) flag)"
  obtain a w4 where a: "?rel TrafficBitExhausted w3 = (a, w4)" by (cases "?rel TrafficBitExhausted w3")
  obtain b w5 where b: "?rel TrafficBit90 w4 = (b, w5)" by (cases "?rel TrafficBit90 w4")
  have ab: "a = Inr ()" "b = Inr ()" "trace w4 = trace w3" "trace w5 = trace w4"
    using a b silent_step [OF best_effort_emits [OF traffic_store_emits(2)] a]
      silent_step [OF best_effort_emits [OF traffic_store_emits(2)] b]
    by (auto simp: best_effort_def tryE_def returnE_def split: prod.splits)
  have "ok = Inr True"
    using reset ok silent es assms(3) by (auto simp: traffic_reset_def bindE_def returnE_def list_all_iff split: sum.splits if_splits)
  then have final: "sendOnce env sub TrafficBitReset ''reset'' (MsgTrafficReset (sv_sub_url (tf_svc env) (s_subscription_id sub))) w5 = (r, w')"
    using reset ok a b ab(1,2) by (auto simp: traffic_reset_def bindE_def)
  have w3: "db w3 = db w2" "rely (reset_marks i) w3"
    using reenable_db [OF ok] k2(2) by (simp_all add: rely_def)
  note k4 = keeps_run [OF marks.best_effort_keeps [OF reset_release_marks(1)] w3(2) a]
  note k5 = keeps_run [OF marks.best_effort_keeps [OF reset_release_marks(2)] k4(2) b]
  have "reset_marks i (db w) (db w5)"
    using marks.db_trans [OF marks.db_trans [OF k1(1) k2(1)] marks.db_trans [OF k4(1) [unfolded w3(1)] k5(1)]] .
  with final silent ab(3,4) w2 k5(2) show ?thesis
    using that by auto
qed

lemma sent_notice_marks:
  assumes "sendOnce env sub flag kind msg w = (Inr (), w')" "trace w' \<noteq> trace w" "rely (mark_kept (s_id sub) flag) w" "flag \<noteq> 0"
  shows "\<forall>s \<in> set (subscriptions (db w')). s_id s = s_id sub \<longrightarrow> s_traffic_reminders_sent s AND flag \<noteq> 0"
proof -
  obtain b w1 where claim: "ClaimTrafficReminder (s_id sub) flag w = (Inr b, w1)"
    and rest: "(if \<not> b then returnE () else
      tryE (sendE (tf_svc env) (s_telegram_id sub) msg) (\<lambda>sent.
        case sent of
          Inl e \<Rightarrow> tryE (ReleaseTrafficReminder (s_id sub) flag) (\<lambda>released.
              failE (case released of Inl e' \<Rightarrow> e @ e' | Inr _ \<Rightarrow> e))
        | Inr _ \<Rightarrow> best_effort (InsertAuditLog (AuditTrafficNotified sub kind)))) w1 = (Inr (), w')"
    using assms(1) unfolding sendOnce_def by (elim bindE_ok)
  note c = claim_ok [OF claim assms(4)]
  have b: "b" using rest c assms(2) by (auto simp: returnE_ok split: if_splits)
  obtain w2 where w2: "db w2 = db w1" "turns w2 = turns w1"
    "best_effort (InsertAuditLog (AuditTrafficNotified sub kind)) w2 = (Inr (), w')"
    using rest b by (auto simp: failE_ok dest!: send_silent elim!: tryE_run split: prod.splits sum.splits)
  have "rely (mark_kept (s_id sub) flag) w2"
    using keeps_run(2) [OF claim_marks assms(3) claim] w2(2) by (simp add: rely_def)
  then have "mark_kept (s_id sub) flag (db w2) (db w')"
    by (rule keeps_run(1) [OF marks.best_effort_keeps [OF audit_marks] _ w2(3)])
  then show ?thesis
    using c b w2(1) by (fastforce simp: mark_kept_def)
qed

text \<open>The notice of a reset is sent once in the life of a subscription: nothing ever clears its mark, so
  after a pass has sent it no later pass on the subscription sends it again, although the quota may be
  exhausted and reset any number of times.\<close>

theorem reset_notice_once_ever:
  assumes "processTraffic env now sub notify w = (Inr (), w')" "trace w' = trace w @ es"
    and "EffMessage c (MsgTrafficReset u) \<in> set es" "rely (reset_marks (s_id sub)) w"
    and "reset_marks (s_id sub) (db w') (db v)" "rely (reset_marks (s_id sub)) v" "s_id sub2 = s_id sub"
    and "processTraffic env2 now2 sub2 notify2 v = (r, v')" "trace v' = trace v @ es2"
  shows "EffMessage c2 (MsgTrafficReset u2) \<notin> set es2"
proof
  let ?R = "reset_marks (s_id sub)"
  have flag: "TrafficBitReset \<noteq> 0" by (simp add: TrafficBitReset_def)
  obtain w1 es1 msg where first: "sendOnce env sub TrafficBitReset ''reset'' msg w1 = (Inr (), w')" "trace w1 = trace w @ es1"
    "list_all no_notice es1" "?R (db w) (db w1)" "rely ?R w1"
    by (rule notice_run [OF assms(1-4)])
  have "trace w' \<noteq> trace w1"
    using first(2,3) assms(2,3) by (auto simp: list_all_iff)
  note set1 = sent_notice_marks [OF first(1) this first(5) flag]
  assume notice: "EffMessage c2 (MsgTrafficReset u2) \<in> set es2"
  obtain v1 es3 msg2 where second: "sendOnce env2 sub2 TrafficBitReset ''reset'' msg2 v1 = (r, v')" "trace v1 = trace v @ es3"
    "list_all no_notice es3" "?R (db v) (db v1)" "rely ?R v1"
    by (rule notice_run [OF assms(8,9) notice assms(6)])
  have R: "?R (db w') (db (step_other v1))"
    using marks.db_trans [OF marks.db_trans [OF assms(5) second(4)] marks.step_other_R [OF second(5)]] .
  then have "\<forall>s \<in> set (subscriptions (db (step_other v1))). s_id s = s_id sub \<longrightarrow> s_traffic_reminders_sent s AND TrafficBitReset \<noteq> 0"
    using set1 unfolding mark_kept_def by blast
  then have "ClaimTrafficReminder (s_id sub2) TrafficBitReset v1 \<noteq> (Inr True, v2)" for v2
    using claim_ok [of "s_id sub2" TrafficBitReset v1 True v2] flag assms(7) by auto
  then have "trace v' = trace v1"
    using second(1) silent_step [OF traffic_store_emits(1), of "s_id sub2" TrafficBitReset v1]
    by (auto simp: sendOnce_def bindE_def returnE_def split: sum.splits prod.splits if_splits)
  then show False
    using second(2,3) assms(9) notice by (auto simp: list_all_iff)
qed

end
