(* ===== verification/Traffic_Card.thy ===== *)
theory Traffic_Card
  imports Traffic_Laws
begin

text \<open>
  The traffic shown to a user: \<open>GetWithTraffic\<close> and \<open>PlanTrafficLimitGB\<close> of
  \<open>internal/service/subscription_traffic.go\<close>; and the removal of the subscriptions of users who
  blocked the bot, \<open>internal/service/subscription_deactivate.go\<close>.

  The card holds the used bytes; the gigabytes, the percentage and the progress bar are computed
  from them and from the limit by floating point and are texts only. The limit in gigabytes goes
  through a \<open>float64\<close>, whose rounding of a large integer (53 significant bits, ties to even) is
  \<open>float64_of_int\<close>; the divisions by powers of two are exact.
\<close>

section \<open>The limit in gigabytes\<close>

definition float64_of_int :: "int \<Rightarrow> int" where
  "float64_of_int n =
     (if \<bar>n\<bar> < 2 ^ 53 then n
      else let step = 2 ^ (nat (floorlog 2 (nat \<bar>n\<bar>)) - 53);
               q = \<bar>n\<bar> div step; rest = \<bar>n\<bar> mod step
           in sgn n * step * (if step < 2 * rest \<or> (step = 2 * rest \<and> odd q) then q + 1 else q))"

definition gigabyte :: int where "gigabyte = 1024 * 1024 * 1024"

definition planTrafficLimitGB :: "plan option \<Rightarrow> int" where
  "planTrafficLimitGB p =
     (case p of None \<Rightarrow> 0 | Some plan \<Rightarrow> go_div (float64_of_int (pl_traffic_limit plan)) gigabyte)"

definition PlanTrafficLimitGB :: "int \<Rightarrow> (world, int) op" where
  "PlanTrafficLimitGB telegramID =
     tryE (GetByTelegramID telegramID) (\<lambda>s.
     case s of
       Inl _ \<Rightarrow> returnE 0
     | Inr sub \<Rightarrow>
         tryE (GetPlanByID (s_plan_id sub)) (\<lambda>p.
         returnE (case p of Inl _ \<Rightarrow> 0 | Inr plan \<Rightarrow> planTrafficLimitGB (Some plan))))"

section \<open>The card\<close>

record traffic_info =
  ti_used :: int
  ti_limit_gb :: int
  ti_reset :: reset_display
  ti_available :: bool
  ti_created :: time
  ti_expires :: "time option"
  ti_plan_name :: string

definition card :: "subscription \<Rightarrow> string \<Rightarrow> int \<Rightarrow> int \<Rightarrow> reset_display \<Rightarrow> bool \<Rightarrow> traffic_info" where
  "card sub planName used limitGB reset available =
     \<lparr>ti_used = used, ti_limit_gb = limitGB, ti_reset = reset, ti_available = available,
      ti_created = s_created_at sub, ti_expires = s_expires_at sub, ti_plan_name = planName\<rparr>"

text \<open>The name of the plan, or of the product the subscription was bought with.\<close>

definition plan_name_of :: "subscription \<Rightarrow> plan option \<Rightarrow> (world, string) op" where
  "plan_name_of sub plan =
     (let name = (case plan of None \<Rightarrow> [] | Some p \<Rightarrow> pl_name p)
      in case s_product_id sub of
           None \<Rightarrow> returnE name
         | Some i \<Rightarrow>
             if i = 0 then returnE name
             else tryE (GetProductByID i) (\<lambda>q.
                  returnE (case q of Inl _ \<Rightarrow> name | Inr q \<Rightarrow> if pr_name q = [] then name else pr_name q)))"

text \<open>The sums over the nodes that answered, and the first of them with its limit.\<close>

fun poll :: "traffic_env \<Rightarrow> reader_target list \<Rightarrow> int \<Rightarrow> int \<Rightarrow> (reader_target \<times> int) option \<Rightarrow>
    (world, int \<times> int \<times> (reader_target \<times> int) option) op" where
  "poll env [] up down source = returnE (up, down, source)"
| "poll env (n # ns) up down source =
     bindE (readTrafficE env (rt_node n) (rt_email n)) (\<lambda>r.
     case r of
       Inr (Some t) \<Rightarrow>
         poll env ns (wrap64 (up + ct_up t)) (wrap64 (down + ct_down t))
           (case source of None \<Rightarrow> Some (n, ct_total t) | Some s \<Rightarrow> Some s)
     | Inr None \<Rightarrow> failE [GoPanic ''nil pointer dereference'']
     | Inl _ \<Rightarrow> poll env ns up down source)"

definition display_limit :: "plan option \<Rightarrow> int \<Rightarrow> int \<Rightarrow> int" where
  "display_limit plan limitGB panelTotal =
     (case plan of
        None \<Rightarrow> limitGB
      | Some p \<Rightarrow>
          if 0 < panelTotal then
            (let planBytes = pl_traffic_limit p;
                 divergence = (if planBytes < panelTotal then wrap64 (panelTotal - planBytes)
                               else wrap64 (planBytes - panelTotal));
                 panelGB = go_div panelTotal gigabyte
             in if 0 < panelGB \<and> go_div planBytes 100 < divergence then panelGB else limitGB)
          else limitGB)"

definition reset_info :: "traffic_env \<Rightarrow> time \<Rightarrow> reader_target \<Rightarrow> (world, reset_display) op" where
  "reset_info env now source =
     bindE (readRecordE env (rt_node source) (rt_email source)) (\<lambda>r.
     returnE (case r of
         Inr (Some record) \<Rightarrow> describeTrafficReset (tf_today env now) (cr_client record)
       | Inr None \<Rightarrow> ResetUnknown
       | Inl e \<Rightarrow> if errors_is e ErrClientNotFound then ResetNever else ResetUnknown))"

definition GetWithTraffic :: "traffic_env \<Rightarrow> time \<Rightarrow> int \<Rightarrow> (world, subscription \<times> traffic_info) op" where
  "GetWithTraffic env now telegramID =
     bindE (GetByTelegramID telegramID) (\<lambda>sub.
     tryE (GetPlanByID (s_plan_id sub)) (\<lambda>p.
     let plan = (case p of Inl _ \<Rightarrow> None | Inr plan \<Rightarrow> Some plan); limitGB = planTrafficLimitGB plan in
     bindE (plan_name_of sub plan) (\<lambda>planName.
     if limitGB = 0 then returnE (sub, card sub planName 0 0 ResetNever False)
     else
     let email = XUIEmail (s_username sub) (s_telegram_id sub) in
     tryE (activeBindingNodeIDs (s_id sub)) (\<lambda>b.
     let ids = (case b of Inl _ \<Rightarrow> None | Inr ids \<Rightarrow> Some ids); readers = activeReaders env ids email in
     if ids \<noteq> None \<and> ids \<noteq> Some [] \<and> readers = [] then
       returnE (sub, card sub planName 0 limitGB ResetUnknown False)
     else
     bindE (poll env readers 0 0 None) (\<lambda>(up, down, source).
     case source of
       None \<Rightarrow> returnE (sub, card sub planName 0 limitGB ResetUnknown False)
     | Some (target, panelTotal) \<Rightarrow>
         bindE (reset_info env now target) (\<lambda>reset.
         returnE (sub, card sub planName (wrap64 (up + down)) (display_limit plan limitGB panelTotal) reset True)))))))"

end
