(* ===== verification/Deactivation.thy ===== *)
theory Deactivation
  imports Traffic_Card
begin

text \<open>
  The subscriptions of users who blocked the bot: \<open>internal/service/subscription_deactivate.go\<close>.

  The recipients are taken in the iteration order of a Go map: \<open>order\<close> is any arrangement of them.
\<close>

section \<open>The run\<close>

record deactivation_result =
  dr_targets :: nat
  dr_revoked :: nat
  dr_failed :: nat

text \<open>What one recipient adds: the counters, the errors and the subscription to synchronise.\<close>

record deactivation_step = deactivation_result +
  ds_errors :: "error list"
  ds_queued :: "uint list"

definition step_of :: "nat \<Rightarrow> nat \<Rightarrow> error list \<Rightarrow> uint list \<Rightarrow> deactivation_step" where
  "step_of targets revoked errs queued =
     \<lparr>dr_targets = targets, dr_revoked = revoked, dr_failed = length errs, ds_errors = errs, ds_queued = queued\<rparr>"

definition add_step :: "deactivation_step \<Rightarrow> deactivation_step \<Rightarrow> deactivation_step" where
  "add_step a b =
     \<lparr>dr_targets = dr_targets a + dr_targets b, dr_revoked = dr_revoked a + dr_revoked b,
      dr_failed = dr_failed a + dr_failed b, ds_errors = ds_errors a @ ds_errors b, ds_queued = ds_queued a @ ds_queued b\<rparr>"

definition recipient_subscription :: "int \<Rightarrow> (world, error + subscription) op" where
  "recipient_subscription telegramID =
     tryE (GetByTelegramID telegramID) (\<lambda>r.
     case r of
       Inl e \<Rightarrow> if errors_is e ErrSubscriptionNotFound then tryE (GetAnyByTelegramID telegramID) returnE
                else returnE (Inl e)
     | Inr sub \<Rightarrow> returnE (Inr sub))"

definition blocked_reason :: "uint \<Rightarrow> string" where
  "blocked_reason broadcastID = ''broadcast_'' @ itoa (int broadcastID) @ ''_blocked''"

text \<open>From the cache to the queue of removals; \<open>revoked\<close> says whether the status was changed just now.\<close>

definition queue_removal :: "svc_env \<Rightarrow> subscription \<Rightarrow> nat \<Rightarrow> (world, deactivation_step) op" where
  "queue_removal env sub revoked =
     bindE (if s_subscription_id sub \<noteq> [] then InvalidateBySubID env (s_subscription_id sub) else returnE ()) (\<lambda>_.
     tryE (queueForDeprovision env (s_id sub)) (\<lambda>q.
     returnE (case q of Inl e \<Rightarrow> step_of 1 revoked [e] [] | Inr _ \<Rightarrow> step_of 1 revoked [] [s_id sub])))"

definition deactivate_one :: "svc_env \<Rightarrow> uint \<Rightarrow> int \<Rightarrow> (world, deactivation_step) op" where
  "deactivate_one env broadcastID telegramID =
     bindE (recipient_subscription telegramID) (\<lambda>found.
     case found of
       Inl e \<Rightarrow> returnE (if errors_is e ErrSubscriptionNotFound then step_of 0 0 [] [] else step_of 0 0 [e] [])
     | Inr sub \<Rightarrow>
         if s_status sub = SubscriptionStatusRevoked then
           tryE (GetBySubscriptionID (s_id sub)) (\<lambda>b.
           case b of
             Inl e \<Rightarrow> returnE (step_of 0 0 [e] [])
           | Inr rows \<Rightarrow> if rows = [] then returnE (step_of 0 0 [] []) else queue_removal env sub 0)
         else if s_status sub \<noteq> SubscriptionStatusActive then returnE (step_of 0 0 [] [])
         else
         tryE (markRevokedSub sub) (\<lambda>m.
         case m of
           Inl e \<Rightarrow> returnE (step_of 1 0 [e] [])
         | Inr revoked \<Rightarrow>
             bindE (logAudit (AuditSubscriptionRevoked revoked (blocked_reason broadcastID))) (\<lambda>_.
             queue_removal env revoked 1)))"

fun deactivate_all :: "svc_env \<Rightarrow> uint \<Rightarrow> int list \<Rightarrow> (world, deactivation_step) op" where
  "deactivate_all env broadcastID [] = returnE (step_of 0 0 [] [])"
| "deactivate_all env broadcastID (t # ts) =
     bindE (deactivate_one env broadcastID t) (\<lambda>a.
     bindE (deactivate_all env broadcastID ts) (\<lambda>b. returnE (add_step a b)))"

definition maxImmediateSyncs :: nat where "maxImmediateSyncs = 25"

definition blocked_recipients :: "broadcast_stats \<Rightarrow> int list" where
  "blocked_recipients st = remdups (rep_blocked (bs_report st) @ rep_unreachable (bs_report st))"

definition DeactivateBlockedBroadcastRecipients ::
  "svc_env \<Rightarrow> (int list \<Rightarrow> int list) \<Rightarrow> time \<Rightarrow> uint \<Rightarrow> (world, deactivation_result \<times> error list) op" where
  "DeactivateBlockedBroadcastRecipients env order now broadcastID =
     bindE (GetBroadcastRecipientsStats broadcastID) (\<lambda>st.
     if blocked_recipients st = [] then returnE (\<lparr>dr_targets = 0, dr_revoked = 0, dr_failed = 0\<rparr>, [])
     else
     bindE (deactivate_all env broadcastID (order (blocked_recipients st))) (\<lambda>s.
     bindE (for_eachE (syncDeprovisionNow env now) (take maxImmediateSyncs (ds_queued s))) (\<lambda>_.
     bindE (if 0 < dr_revoked s then RefreshActiveSubscriptionsMetric else returnE ()) (\<lambda>_.
     returnE (deactivation_result.truncate s, ds_errors s)))))"

section \<open>What becomes of the subscriptions\<close>

text \<open>A calm world stays calm, since every operation takes its turns from the script.\<close>

lemma calm_spends: "calm w \<Longrightarrow> spends w w' \<Longrightarrow> calm w'"
  by (auto simp: calm_def spends_def)

lemma queue_spends: "keeps spends (queueForDeprovision env i)"
proof -
  have lock: "keeps spends (with_lock e i m)" if "keeps spends m" for e and m :: "(world, unit) op"
    using that by (auto simp: with_lock_def spends_def keeps_def split: option.splits)
  moreover have "keeps spends (set_status_of sn st)" for sn st
    unfolding set_status_of_def UpdateSubscriptionNodeStatus_def affects_def by (intro spend.combinators stmtE_spends world_spends)
  ultimately show ?thesis
    unfolding queueForDeprovision_def MarkAllForRemoval_def markAllForRemovalLocked_def GetBySubscriptionID_def
    by (intro lock spend.combinators stmtE_spends world_spends)
qed

definition revoke :: "subscription \<Rightarrow> subscription" where
  "revoke s = s\<lparr>s_status := SubscriptionStatusRevoked\<rparr>"

lemma revoke_id: "s_id (revoke s) = s_id s"
  by (simp add: revoke_def)

definition active_of :: "int set \<Rightarrow> subscription \<Rightarrow> bool" where
  "active_of T s \<longleftrightarrow> s_telegram_id s \<in> T \<and> s_status s = SubscriptionStatusActive"


lemma filter_key:
  assumes "distinct (map f xs)"
  shows "filter (\<lambda>x. f x = a \<and> P x) xs = [] \<or> (\<exists>x. filter (\<lambda>x. f x = a \<and> P x) xs = [x])"
  using assms
proof (induction xs)
  case (Cons x xs)
  have "filter (\<lambda>y. f y = a \<and> P y) xs = []" if "f x = a"
    using Cons.prems that by (auto simp: filter_empty_conv rev_image_eqI)
  with Cons show ?case by auto
qed simp

lemma one_active:
  assumes "subs_valid ss"
  shows "filter (active_of {t}) ss = [] \<or> (\<exists>s. filter (active_of {t}) ss = [s])"
proof -
  have "distinct (map s_telegram_id ss)" using assms by (simp add: subs_valid_def)
  moreover have "(\<lambda>s. s_telegram_id s = t \<and> s_status s = SubscriptionStatusActive) = active_of {t}"
    by (auto simp: active_of_def)
  ultimately show ?thesis using filter_key [of s_telegram_id ss t "\<lambda>s. s_status s = SubscriptionStatusActive"] by simp
qed

lemma GetByTelegramID_calm:
  assumes "calm w" "subs_valid (subscriptions (db w))"
  shows "(\<exists>s \<in> set (subscriptions (db w)). active_of {t} s \<and> GetByTelegramID t w = (Inr s, step_turn w))
    \<or> (\<forall>s \<in> set (subscriptions (db w)). \<not> active_of {t} s) \<and> GetByTelegramID t w = (Inl [ErrSubscriptionNotFound], step_turn w)"
proof -
  have "(\<lambda>s. s_telegram_id s = t \<and> s_status s = SubscriptionStatusActive) = active_of {t}"
    by (auto simp: active_of_def)
  then have run: "GetByTelegramID t w = (or_not_found ErrSubscriptionNotFound (newest (filter (active_of {t}) (subscriptions (db w)))), step_turn w)"
    using assms(1) by (simp add: GetByTelegramID_def calm_runs)
  note one = one_active [OF assms(2), of t]
  show ?thesis
  proof (cases "filter (active_of {t}) (subscriptions (db w)) = []")
    case True
    then show ?thesis
      unfolding run by (simp add: newest_def or_not_found_def filter_empty_conv)
  next
    case False
    with one obtain s where s: "filter (active_of {t}) (subscriptions (db w)) = [s]" by blast
    then have "s \<in> set (filter (active_of {t}) (subscriptions (db w)))" by simp
    then have "s \<in> set (subscriptions (db w))" "active_of {t} s" by simp_all
    then show ?thesis
      unfolding run s by (auto simp: newest_def or_not_found_def)
  qed
qed

lemma revoke_row:
  assumes "subs_wf d" "s \<in> set (subscriptions d)" "active_of {t} s"
  shows "update_subs (\<lambda>r. s_id r = s_id s) (copy_lifecycle (revoke s)) d
    = Inr (count_where (active_of {t}) (subscriptions d), d\<lparr>subscriptions := update_where (active_of {t}) revoke (subscriptions d)\<rparr>)
    \<and> 0 < count_where (active_of {t}) (subscriptions d)"
proof -
  have keys: "distinct (map s_id (subscriptions d))" "distinct (map s_telegram_id (subscriptions d))"
    using assms(1) by (simp_all add: subs_wf_def subs_valid_def)
  have same: "s_id r = s_id s \<longleftrightarrow> r = s" "active_of {t} r \<longleftrightarrow> r = s" if "r \<in> set (subscriptions d)" for r
    using that assms(2,3) distinct_key_eq [OF keys(1) that assms(2)] distinct_key_eq [OF keys(2) that assms(2)]
    by (auto simp: active_of_def)
  have rows: "update_where (\<lambda>r. s_id r = s_id s) (copy_lifecycle (revoke s)) (subscriptions d)
      = update_where (active_of {t}) revoke (subscriptions d)"
    using same unfolding update_where_def by (intro map_cong) (auto simp: copy_lifecycle_def revoke_def)
  have "map s_telegram_id (update_where (active_of {t}) revoke (subscriptions d)) = map s_telegram_id (subscriptions d)"
    "map s_client_id (update_where (active_of {t}) revoke (subscriptions d)) = map s_client_id (subscriptions d)"
    "map s_subscription_id (update_where (active_of {t}) revoke (subscriptions d)) = map s_subscription_id (subscriptions d)"
    by (rule map_key_update_where; simp add: revoke_def)+
  then have "subs_valid (update_where (active_of {t}) revoke (subscriptions d))"
    using assms(1) by (simp add: subs_wf_def subs_valid_def revoke_def)
  moreover have "count_where (\<lambda>r. s_id r = s_id s) (subscriptions d) = count_where (active_of {t}) (subscriptions d)"
    using same unfolding count_where_def by (intro arg_cong [where f = length] filter_cong) auto
  moreover have "0 < count_where (active_of {t}) (subscriptions d)"
    using assms(2,3) by (simp add: count_where_def filter_empty_conv) blast
  ultimately show ?thesis
    using rows by (simp add: update_subs_def Let_def)
qed

text \<open>The steps that leave the subscriptions alone in a calm world.\<close>

definition tranquil :: "world \<Rightarrow> world \<Rightarrow> bool" where
  "tranquil w w' \<longleftrightarrow> (calm w \<longrightarrow> calm w' \<and> subscriptions (db w') = subscriptions (db w) \<and> subscription_seq (db w') = subscription_seq (db w))"

interpretation tranquil: op_contract tranquil
  by unfold_locales (auto simp: tranquil_def)

lemma tranquil_query: "keeps tranquil (query g)" "keeps tranquil (queryE h)"
  by (auto intro!: keepsI simp: tranquil_def calm_runs)

lemma tranquil_frozen:
  assumes "keeps (on_db only_bindings) m" "keeps spends m"
  shows "keeps tranquil m"
proof (rule keepsI)
  fix w
  show "tranquil w (snd (m w))"
    using keepsD [OF assms(1), of w] keepsD [OF assms(2), of w] calm_spends [of w "snd (m w)"]
    by (auto simp: tranquil_def on_db_def only_bindings_def)
qed

lemma tranquil_steps:
  "keeps tranquil (GetAnyByTelegramID i)" "keeps tranquil (GetBySubscriptionID j)" "keeps tranquil (logAudit e)"
  "keeps tranquil (InvalidateBySubID env u)" "keeps tranquil (queueForDeprovision env j)"
proof -
  show "keeps tranquil (GetAnyByTelegramID i)" "keeps tranquil (GetBySubscriptionID j)"
    unfolding GetAnyByTelegramID_def GetBySubscriptionID_def by (rule tranquil_query)+
  show "keeps tranquil (logAudit e)"
    by (auto intro!: keepsI simp: tranquil_def logAudit_def best_effort_def InsertAuditLog_def tryE_def returnE_def calm_runs
        append_audit_def Let_def)
  show "keeps tranquil (InvalidateBySubID env u)"
    by (auto intro!: keepsI simp: tranquil_def InvalidateBySubID_def emit_def returnE_def)
  have "keeps (on_db only_bindings) (queueForDeprovision env j)"
    unfolding queueForDeprovision_def by (intro frozen.db_combinators frozen.entry_points_keep)
  then show "keeps tranquil (queueForDeprovision env j)"
    by (rule tranquil_frozen) (rule queue_spends)
qed

lemma tranquil_queue: "keeps tranquil (queue_removal env sub n)"
  unfolding queue_removal_def by (intro tranquil.combinators tranquil_steps)


definition subs_kept :: "db \<Rightarrow> db \<Rightarrow> (subscription list \<Rightarrow> subscription list) \<Rightarrow> bool" where
  "subs_kept d d' f \<longleftrightarrow> subscriptions d' = f (subscriptions d) \<and> subscription_seq d' = subscription_seq d"

lemma tranquil_run: "keeps tranquil m \<Longrightarrow> calm w \<Longrightarrow> m w = (r, w') \<Longrightarrow>
    calm w' \<and> subscriptions (db w') = subscriptions (db w) \<and> subscription_seq (db w') = subscription_seq (db w)"
  using keepsD [of tranquil m w] by (simp add: tranquil_def)

lemma queue_removal_run: "\<exists>st w'. queue_removal env sub n w = (Inr st, w') \<and> dr_revoked st = n"
  by (cases "queueForDeprovision env (s_id sub) (snd ((if s_subscription_id sub \<noteq> [] then InvalidateBySubID env (s_subscription_id sub) else returnE ()) w))")
    (auto simp: queue_removal_def bindE_def tryE_def returnE_def InvalidateBySubID_def emit_def step_of_def split: sum.splits)

lemma logAudit_returns: "\<exists>w'. logAudit e w = (Inr (), w')"
  by (auto simp: logAudit_def best_effort_def tryE_def returnE_def split: prod.splits)

lemma deactivate_one_calm:
  assumes "calm w" "subs_wf (db w)" "deactivate_one env b t w = (r, w')"
  shows "\<exists>st. r = Inr st \<and> calm w' \<and> dr_revoked st = count_where (active_of {t}) (subscriptions (db w))
    \<and> subs_kept (db w) (db w') (update_where (active_of {t}) revoke)"
proof -
  have valid: "subs_valid (subscriptions (db w))" using assms(2) by (simp add: subs_wf_def)
  consider s where "s \<in> set (subscriptions (db w))" "active_of {t} s" "GetByTelegramID t w = (Inr s, step_turn w)"
    | "\<forall>s \<in> set (subscriptions (db w)). \<not> active_of {t} s" "GetByTelegramID t w = (Inl [ErrSubscriptionNotFound], step_turn w)"
    using GetByTelegramID_calm [OF assms(1) valid, of t] by blast
  then show ?thesis
  proof cases
    case 1
    let ?w = "(step_turn (step_turn w))\<lparr>db := (db w)\<lparr>subscriptions := update_where (active_of {t}) revoke (subscriptions (db w))\<rparr>\<rparr>"
    note row = revoke_row [OF assms(2) 1(1,2)]
    have mark: "markRevokedSub s (step_turn w) = (Inr (revoke s), ?w)"
      using assms(1) row
      by (simp add: markRevokedSub_def UpdateSubscription_def found_sub_def bindE_def calm_stmts run_stmt_def returnE_def
          Let_def revoke_id flip: revoke_def)
    obtain w1 where audit: "logAudit (AuditSubscriptionRevoked (revoke s) (blocked_reason b)) ?w = (Inr (), w1)"
      using logAudit_returns by blast
    obtain st w2 where queue: "queue_removal env (revoke s) 1 w1 = (Inr st, w2)" "dr_revoked st = 1"
      using queue_removal_run by blast
    have run: "deactivate_one env b t w = (Inr st, w2)"
      using 1 mark audit queue(1)
      by (simp add: deactivate_one_def recipient_subscription_def bindE_def tryE_def returnE_def active_of_def)
    have "calm ?w" using assms(1) by simp
    note q = tranquil_run [OF tranquil_steps(3) this audit]
    note q2 = tranquil_run [OF tranquil_queue _ queue(1)]
    have "count_where (active_of {t}) (subscriptions (db w)) = 1"
      using one_active [OF valid, of t] row by (auto simp: count_where_def)
    with run assms(3) q q2 queue(2) show ?thesis by (simp add: subs_kept_def)
  next
    case 2
    then have none: "count_where (active_of {t}) (subscriptions (db w)) = 0"
      by (simp add: count_where_def filter_empty_conv)
    obtain f w1 where any: "GetAnyByTelegramID t (step_turn w) = (f, w1)" by (cases "GetAnyByTelegramID t (step_turn w)")
    have inactive: "s_status s \<noteq> SubscriptionStatusActive" if f: "f = Inr s" for s
    proof -
      have "s \<in> set (subscriptions (db w)) \<and> s_telegram_id s = t"
      proof -
        obtain rest where "sort_key (\<lambda>s. - s_created_at s) (filter (\<lambda>s. s_telegram_id s = t) (subscriptions (db w))) = s # rest"
          using any [unfolded f] assms(1) that
          by (auto simp: GetAnyByTelegramID_def calm_runs newest_def or_not_found_def split: list.splits)
        then have "s \<in> set (filter (\<lambda>s. s_telegram_id s = t) (subscriptions (db w)))"
          by (metis list.set_intros(1) set_sort)
        then show ?thesis by simp
      qed
      with 2(1) show ?thesis by (auto simp: active_of_def)
    qed
    let ?rest = "\<lambda>found. case found of
        Inl e \<Rightarrow> returnE (if errors_is e ErrSubscriptionNotFound then step_of 0 0 [] [] else step_of 0 0 [e] [])
      | Inr sub \<Rightarrow>
          if s_status sub = SubscriptionStatusRevoked then
            tryE (GetBySubscriptionID (s_id sub)) (\<lambda>b.
            case b of Inl e \<Rightarrow> returnE (step_of 0 0 [e] [])
            | Inr rows \<Rightarrow> if rows = [] then returnE (step_of 0 0 [] []) else queue_removal env sub 0)
          else returnE (step_of 0 0 [] [])"
    have "errors_is [ErrSubscriptionNotFound] ErrSubscriptionNotFound" by simp
    then have run: "deactivate_one env b t w = ?rest f w1"
      using 2 any inactive
      by (auto simp: deactivate_one_def recipient_subscription_def bindE_def tryE_def returnE_def split: sum.splits)
    note t1 = tranquil_run [OF tranquil_steps(1) _ any]
    have "keeps tranquil (?rest f)"
      by (intro tranquil.combinators tranquil_steps tranquil_queue)
    note t2 = tranquil_run [OF this _ run [unfolded assms(3), symmetric]]
    have "\<exists>st v. ?rest f w1 = (Inr st, v) \<and> dr_revoked st = 0"
    proof (cases f)
      case (Inr s)
      obtain rows v where rows: "GetBySubscriptionID (s_id s) w1 = (rows, v)" by (cases "GetBySubscriptionID (s_id s) w1")
      obtain st v' where "queue_removal env s 0 v = (Inr st, v')" "dr_revoked st = 0"
        using queue_removal_run by blast
      with Inr rows show ?thesis
        by (cases rows) (auto simp: tryE_def returnE_def step_of_def)
    qed (simp add: returnE_def step_of_def)
    then have "\<exists>st. r = Inr st \<and> dr_revoked st = 0"
      using run assms(3) by auto
    with t1 t2 assms(1) none show ?thesis
      by (simp add: subs_kept_def update_where_none)
  qed
qed

lemma subs_kept_wf:
  assumes "subs_kept d d' (update_where P revoke)" "subs_wf d"
  shows "subs_wf d'"
proof -
  have "map s_telegram_id (update_where P revoke ss) = map s_telegram_id ss" "map s_client_id (update_where P revoke ss) = map s_client_id ss"
    "map s_subscription_id (update_where P revoke ss) = map s_subscription_id ss" "map s_id (update_where P revoke ss) = map s_id ss" for ss
    by (rule map_key_update_where; simp add: revoke_def)+
  with assms show ?thesis
    by (simp add: subs_wf_def subs_valid_def subs_kept_def ball_update_where revoke_id)
qed

lemma revoke_more:
  "update_where (active_of B) revoke (update_where (active_of A) revoke ss) = update_where (active_of (A \<union> B)) revoke ss"
  "count_where (active_of A) ss + count_where (active_of B) (update_where (active_of A) revoke ss) = count_where (active_of (A \<union> B)) ss"
proof -
  have 1: "active_of B (revoke s) = False" for s by (simp add: active_of_def revoke_def)
  show "update_where (active_of B) revoke (update_where (active_of A) revoke ss) = update_where (active_of (A \<union> B)) revoke ss"
    by (induction ss) (auto simp: update_where_def 1, auto simp: active_of_def)
  show "count_where (active_of A) ss + count_where (active_of B) (update_where (active_of A) revoke ss) = count_where (active_of (A \<union> B)) ss"
    by (induction ss) (auto simp: update_where_def count_where_def 1, auto simp: active_of_def)
qed

lemma deactivate_all_calm:
  "calm w \<Longrightarrow> subs_wf (db w) \<Longrightarrow> deactivate_all env b ts w = (r, w') \<Longrightarrow>
     \<exists>st. r = Inr st \<and> calm w' \<and> dr_revoked st = count_where (active_of (set ts)) (subscriptions (db w))
       \<and> subs_kept (db w) (db w') (update_where (active_of (set ts)) revoke)"
proof (induction ts arbitrary: w r w')
  case Nil
  have "active_of {} = (\<lambda>s. False)" by (auto simp: active_of_def)
  with Nil show ?case
    by (auto simp: returnE_def step_of_def subs_kept_def count_where_def update_where_def)
next
  case (Cons t ts)
  obtain x w1 where x: "deactivate_one env b t w = (x, w1)" by (cases "deactivate_one env b t w")
  obtain a where a: "x = Inr a" "calm w1" "dr_revoked a = count_where (active_of {t}) (subscriptions (db w))"
    "subs_kept (db w) (db w1) (update_where (active_of {t}) revoke)"
    using deactivate_one_calm [OF Cons.prems(1,2) x] by blast
  obtain y w2 where y: "deactivate_all env b ts w1 = (y, w2)" by (cases "deactivate_all env b ts w1")
  obtain c where c: "y = Inr c" "calm w2" "dr_revoked c = count_where (active_of (set ts)) (subscriptions (db w1))"
    "subs_kept (db w1) (db w2) (update_where (active_of (set ts)) revoke)"
    using Cons.IH [OF a(2) subs_kept_wf [OF a(4) Cons.prems(2)] y] by blast
  have "r = Inr (add_step a c)" "w' = w2"
    using Cons.prems(3) x y a(1) c(1) by (auto simp: bindE_def returnE_def)
  with a(3,4) c(2-4) revoke_more [where A = "{t}" and B = "set ts" and ss = "subscriptions (db w)"] show ?case
    by (simp add: add_step_def subs_kept_def)
qed

lemma best_effort_runs: "\<exists>w'. best_effort m w = (Inr (), w')"
  by (cases "m w") (simp add: best_effort_def tryE_def returnE_def)

lemma sync_now_runs: "\<exists>w'. syncDeprovisionNow env now i w = (Inr (), w')"
  by (cases "sv_sync env") (simp_all add: syncDeprovisionNow_def returnE_def best_effort_runs)

lemma sync_all_runs: "\<exists>w'. for_eachE (syncDeprovisionNow env now) qs w = (Inr (), w')"
proof (induction qs arbitrary: w)
  case (Cons i qs)
  obtain w1 where "syncDeprovisionNow env now i w = (Inr (), w1)" using sync_now_runs by blast
  with Cons show ?case by (simp add: bindE_def)
qed (simp add: returnE_def)

lemma metric_runs: "\<exists>w'. RefreshActiveSubscriptionsMetric w = (Inr (), w')"
proof -
  obtain w1 where 1: "best_effort CountActiveSubscriptions w = (Inr (), w1)" using best_effort_runs by blast
  obtain w2 where 2: "best_effort CountPremiumSubscriptions w1 = (Inr (), w2)" using best_effort_runs by blast
  obtain w3 where 3: "best_effort CountFreeSubscriptions w2 = (Inr (), w3)" using best_effort_runs by blast
  show ?thesis
    using 1 2 3 best_effort_runs by (simp add: RefreshActiveSubscriptionsMetric_def bindE_def)
qed

lemma sync_tail_subs:
  assumes "bindE (for_eachE (syncDeprovisionNow env now) qs) (\<lambda>_.
     bindE (if 0 < n then RefreshActiveSubscriptionsMetric else returnE ()) (\<lambda>_. returnE x)) w = (r, w')" "calm w"
  shows "r = Inr x \<and> subscriptions (db w') = subscriptions (db w)"
proof -
  have now: "keeps (on_db only_bindings) (syncDeprovisionNow env now i)" for i
    unfolding syncDeprovisionNow_def by (intro frozen.db_combinators frozen.best_effort_keeps frozen.entry_points_keep)
  have metric: "keeps (on_db only_bindings) RefreshActiveSubscriptionsMetric"
    unfolding RefreshActiveSubscriptionsMetric_def CountActiveSubscriptions_def CountPremiumSubscriptions_def
      CountFreeSubscriptions_def CountTrialSubscriptions_def
    by (intro frozen.db_combinators frozen.best_effort_keeps)
  have "keeps (on_db only_bindings) (bindE (for_eachE (syncDeprovisionNow env now) qs) (\<lambda>_.
     bindE (if 0 < n then RefreshActiveSubscriptionsMetric else returnE ()) (\<lambda>_. returnE x)))"
    by (intro frozen.db_combinators now metric)
  from keeps_run(1) [OF this _ assms(1)] assms(2) have "subscriptions (db w') = subscriptions (db w)"
    by (auto simp: only_bindings_def)
  moreover obtain w1 w2 where "for_eachE (syncDeprovisionNow env now) qs w = (Inr (), w1)"
    "RefreshActiveSubscriptionsMetric w1 = (Inr (), w2)"
    using sync_all_runs metric_runs by blast
  ultimately show ?thesis
    using assms(1) by (auto simp: bindE_def returnE_def split: if_splits)
qed

text \<open>C21. The deactivation revokes exactly the active subscriptions of the recipients whose entry of the
  campaign is recorded as blocked or unreachable, whatever the panels answer and in whatever order the
  recipients come; it reports their number, and no other subscription is touched. (On a database that
  satisfies the unique indexes of the subscriptions, for a campaign with a recorded audience, while no
  statement fails and no other session writes.)\<close>

theorem DeactivateBlocked_revokes:
  assumes "calm w" "subs_wf (db w)" "find_broadcast i (db w) = Inr c" "b_recipients_state c = Some st"
    and "T = set (ids_with BroadcastRecipientBlocked (rs_recipients st) @ ids_with BroadcastRecipientUnreachable (rs_recipients st))"
    and "\<And>l. set (order l) = set l" "DeactivateBlockedBroadcastRecipients env order now i w = (q, w')"
  shows "subscriptions (db w') = update_where (active_of T) revoke (subscriptions (db w))
    \<and> (\<exists>res errs. q = Inr (res, errs) \<and> dr_revoked res = count_where (active_of T) (subscriptions (db w)))"
proof -
  let ?stats = "recipients_stats (rs_recipients st)"
  have stats: "GetBroadcastRecipientsStats i w = (Inr ?stats, step_turn w)"
    using assms(1,3,4)
    by (simp add: GetBroadcastRecipientsStats_def GetBroadcast_def bindE_def calm_runs parseBroadcastRecipientState_def returnE_def)
  have T: "set (blocked_recipients ?stats) = T"
    by (simp add: assms(5) blocked_recipients_def recipients_stats_def delivery_report_def)
  show ?thesis
  proof (cases "blocked_recipients ?stats = []")
    case True
    then have "T = {}" using T by simp
    then have "active_of T = (\<lambda>s. False)" by (auto simp: active_of_def)
    with True show ?thesis
      using assms(7) stats
      by (auto simp: DeactivateBlockedBroadcastRecipients_def bindE_def returnE_def update_where_def count_where_def)
  next
    case False
    obtain y w2 where y: "deactivate_all env i (order (blocked_recipients ?stats)) (step_turn w) = (y, w2)"
      by (cases "deactivate_all env i (order (blocked_recipients ?stats)) (step_turn w)")
    obtain s where s: "y = Inr s" "calm w2" "dr_revoked s = count_where (active_of T) (subscriptions (db w))"
      "subs_kept (db w) (db w2) (update_where (active_of T) revoke)"
      using deactivate_all_calm [OF _ _ y] assms(1,2,6) T by auto
    have "bindE (for_eachE (syncDeprovisionNow env now) (take maxImmediateSyncs (ds_queued s))) (\<lambda>_.
       bindE (if 0 < dr_revoked s then RefreshActiveSubscriptionsMetric else returnE ()) (\<lambda>_.
       returnE (deactivation_result.truncate s, ds_errors s))) w2 = (q, w')"
      using assms(7) stats False y s(1) by (simp add: DeactivateBlockedBroadcastRecipients_def bindE_def)
    from sync_tail_subs [OF this s(2)] s(3,4) show ?thesis
      by (simp add: subs_kept_def deactivation_result.truncate_def)
  qed
qed

end
