(* ===== verification/Traffic_Witnesses.thy ===== *)
theory Traffic_Witnesses
  imports Subscription_Witnesses Broadcast_Witnesses Deactivation
begin

text \<open>
  The properties of the traffic passes and of the deactivation, applied to the sample installation:
  the quota of the sample user was exhausted, the panel has reset the counters and left the client
  disabled.
\<close>

definition reset_traffic :: client_traffic where
  "reset_traffic = \<lparr>ct_enable = False, ct_uuid = ''c7'', ct_sub_id = ''sub7'', ct_up = 1, ct_down = 2,
     ct_expires_at = 0, ct_total = 10, ct_reset = 0\<rparr>"

definition quota_env :: traffic_env where
  "quota_env = \<lparr>tf_svc = good_svc\<lparr>sv_node := good_env\<lparr>ne_reader := \<lambda>_. True\<rparr>, sv_bot := True\<rparr>,
     tf_traffic = (\<lambda>_ _ _. Inr (Some reset_traffic)),
     tf_record = (\<lambda>_ _ _. Inr (Some \<lparr>cr_client = empty_profile, cr_inbound_ids = [1]\<rparr>)),
     tf_writer = (\<lambda>_. True), tf_update = (\<lambda>_ _ _. None), tf_inbounds = (\<lambda>_. [1]),
     tf_today = (\<lambda>_. \<lparr>c_year = 2026, c_month = 1, c_day = 31\<rparr>)\<rparr>"

definition exhausted_sub :: subscription where
  "exhausted_sub = user_sub\<lparr>s_traffic_reminders_sent := 2\<rparr>"

definition db_quota :: db where
  "db_quota = db0\<lparr>subscriptions := [exhausted_sub]\<rparr>"

abbreviation quota_run :: "(error + unit) \<times> world" where
  "quota_run \<equiv> processTraffic quota_env day0 exhausted_sub True (world_of db_quota)"

fun is_update :: "effect \<Rightarrow> bool" where
  "is_update (EffClientUpdate i req) = (i = 1)"
| "is_update e = False"

fun is_notice :: "effect \<Rightarrow> bool" where
  "is_notice (EffMessage c (MsgTrafficReset u)) = True"
| "is_notice e = False"

definition notice_sent :: "(error + unit) \<times> world \<Rightarrow> bool" where
  "notice_sent x = (fst x = Inr () \<and> (case trace (snd x) of [a, b] \<Rightarrow> is_update a \<and> is_notice b | _ \<Rightarrow> False))"

lemma notice_sentE:
  assumes "notice_sent x"
  obtains w' req c u where "x = (Inr (), w')" "trace w' = [EffClientUpdate 1 req, EffMessage c (MsgTrafficReset u)]"
proof -
  obtain a b where ab: "fst x = Inr ()" "trace (snd x) = [a, b]" "is_update a" "is_notice b"
    using assms by (auto simp: notice_sent_def split: list.splits)
  obtain req where "a = EffClientUpdate 1 req" using ab(3) by (cases a) auto
  moreover obtain c u where "b = EffMessage c (MsgTrafficReset u)"
    using ab(4) by (auto elim: is_notice.elims)
  ultimately show ?thesis using that [of "snd x" req c u] ab(1,2) by (cases x) simp
qed

lemma sample_quota: "notice_sent quota_run"
  by code_simp

lemma quota_run_parts:
  obtains w' req c u where "quota_run = (Inr (), w')" "trace w' = trace (world_of db_quota) @ [EffClientUpdate 1 req, EffMessage c (MsgTrafficReset u)]"
proof -
  obtain w' req c u where "quota_run = (Inr (), w')" "trace w' = [EffClientUpdate 1 req, EffMessage c (MsgTrafficReset u)]"
    by (rule notice_sentE [OF sample_quota])
  then show ?thesis by (intro that) (simp_all add: world_of_def)
qed


lemma reset_notice_once_ever_witness:
  "\<exists>w' es. quota_run = (Inr (), w') \<and> trace (snd (processTraffic quota_env day0 exhausted_sub True (world_of (db w')))) = es
     \<and> EffMessage 100 (MsgTrafficReset ''sub7'') \<notin> set es"
proof -
  obtain w' req c u where run: "quota_run = (Inr (), w')"
    "trace w' = trace (world_of db_quota) @ [EffClientUpdate 1 req, EffMessage c (MsgTrafficReset u)]"
    by (rule quota_run_parts)
  obtain r v' where again: "processTraffic quota_env day0 exhausted_sub True (world_of (db w')) = (r, v')"
    by (cases "processTraffic quota_env day0 exhausted_sub True (world_of (db w'))")
  have "EffMessage 100 (MsgTrafficReset ''sub7'') \<notin> set (trace v')"
    by (rule reset_notice_once_ever [OF run, of c u "world_of (db w')", OF _ _ _ _ _ again])
      (simp_all add: marks.db_refl, simp add: world_of_def)
  with run again show ?thesis by simp
qed

lemma recovery_is_silent_witness:
  "\<exists>es. trace (snd (processMode quota_env day0 False (world_of db_quota))) = trace (world_of db_quota) @ es
     \<and> (\<forall>c m. EffMessage c m \<notin> set es)"
  by (rule recovery_is_silent [OF prod.collapse [symmetric]])

lemma total_used_exact_witness:
  "total_used 0 [(\<lparr>rt_node = 1, rt_inbound = [1], rt_email = ''bob''\<rparr>, reset_traffic)] = Some 3 \<and> warning_reached 9 10"
proof -
  have "total_used 0 [(\<lparr>rt_node = 1, rt_inbound = [1], rt_email = ''bob''\<rparr>, reset_traffic)] =
      (let total = sum_list (map (\<lambda>(n, t). ct_up t + ct_down t) [(\<lparr>rt_node = 1, rt_inbound = [1], rt_email = ''bob''\<rparr>, reset_traffic)])
       in if total \<le> max_int64 then Some total else None) \<and> (0 < (10 :: int) \<longrightarrow> warning_reached 9 10 = (9 * 10 \<le> 10 * (9 :: int)))"
  proof (rule total_used_exact)
    fix n t assume "(n, t) \<in> set [(\<lparr>rt_node = 1, rt_inbound = [1], rt_email = ''bob''\<rparr>, reset_traffic)]"
    then have t: "t = reset_traffic" by simp
    have "reading_of (Inr (Some reset_traffic)) = Reading reset_traffic" "int64 1" "int64 2"
      by code_simp+
    then show "(\<exists>r. reading_of r = Reading t) \<and> int64 (ct_up t) \<and> int64 (ct_down t)"
      unfolding t by (auto simp: reset_traffic_def)
  qed
  then show ?thesis by (simp add: reset_traffic_def max_int64_def)
qed

lemma nextMonthlyReset_least_witness:
  "nextMonthlyReset \<lparr>c_year = 2026, c_month = 1, c_day = 31\<rparr> 31 = \<lparr>c_year = 2026, c_month = 3, c_day = 31\<rparr>
   \<and> c_day (nextMonthlyReset \<lparr>c_year = 2026, c_month = 1, c_day = 31\<rparr> 31) = 31"
proof
  show "nextMonthlyReset \<lparr>c_year = 2026, c_month = 1, c_day = 31\<rparr> 31 = \<lparr>c_year = 2026, c_month = 3, c_day = 31\<rparr>"
    by code_simp
  have "valid_date \<lparr>c_year = 2026, c_month = 1, c_day = 31\<rparr>" by code_simp
  then show "c_day (nextMonthlyReset \<lparr>c_year = 2026, c_month = 1, c_day = 31\<rparr> 31) = 31"
    by (rule nextMonthlyReset_least [THEN conjunct2, THEN conjunct1]) simp_all
qed

text \<open>The user of the sample has blocked the bot.\<close>

definition blocked_campaign :: broadcast where
  "blocked_campaign = campaign\<lparr>b_recipients_state := Some \<lparr>rs_snapshot = True,
     rs_recipients = [(new_recipient day0 1 100)\<lparr>br_status := BroadcastRecipientBlocked\<rparr>]\<rparr>\<rparr>"

definition db_blocked :: db where
  "db_blocked = db0\<lparr>broadcasts := [blocked_campaign], broadcast_seq := 1\<rparr>"

lemma DeactivateBlocked_revokes_witness:
  "map s_status (subscriptions (db (snd (DeactivateBlockedBroadcastRecipients good_svc rev day0 1 (world_of db_blocked)))))
     = [SubscriptionStatusRevoked]"
proof -
  let ?st = "\<lparr>rs_snapshot = True, rs_recipients = [(new_recipient day0 1 100)\<lparr>br_status := BroadcastRecipientBlocked\<rparr>]\<rparr>"
  have c: "find_broadcast 1 (db (world_of db_blocked)) = Inr blocked_campaign"
    by (simp add: db_blocked_def blocked_campaign_def campaign_def find_broadcast_def or_not_found_def select_first_def)
  have st: "b_recipients_state blocked_campaign = Some ?st" by (simp add: blocked_campaign_def)
  have wf: "subs_wf (db (world_of db_blocked))" by code_simp
  have T: "{100} = set (ids_with BroadcastRecipientBlocked (rs_recipients ?st) @ ids_with BroadcastRecipientUnreachable (rs_recipients ?st))"
    by (simp add: ids_with_def with_status_def new_recipient_def)
  have "subscriptions (db (snd (DeactivateBlockedBroadcastRecipients good_svc rev day0 1 (world_of db_blocked))))
      = update_where (active_of {100}) revoke (subscriptions (db (world_of db_blocked)))"
    using DeactivateBlocked_revokes [OF calm_world_of wf c st T _ prod.collapse [symmetric], of rev good_svc day0] by simp
  moreover have "map s_status (update_where (active_of {100}) revoke (subscriptions (db (world_of db_blocked)))) = [SubscriptionStatusRevoked]"
    by code_simp
  ultimately show ?thesis by simp
qed

end
