(* ===== verification/Keyed_Lock.thy ===== *)
theory Keyed_Lock
  imports Prelude
begin

text \<open>
  The keyed locks of the services: \<open>lockPayment\<close> and \<open>dropPaymentWaiter\<close> of
  \<open>internal/service/order.go\<close>, one lock per provider transaction, and \<open>lockSubscription\<close> and
  \<open>dropWaiter\<close> of \<open>internal/service/sync.go\<close>, one lock per subscription.

  A lock is an object with a channel of capacity one that holds a token, and a count of the
  goroutines that hold or wait for it. A map leads from keys to lock objects; an entry is made by
  the first goroutine that comes and removed by the last that goes. Lock objects have addresses
  here, because the argument that the scheme is correct is about aliasing: a goroutine must never
  hold an object that the map has replaced.

  Each critical section under the map's mutex, and each channel operation, is one step of a
  goroutine; every interleaving of the steps is covered. The two lock tables differ only in the
  type of their keys.
\<close>

section \<open>The table of locks\<close>

record 'k lock_table =
  lt_locks :: "'k \<Rightarrow> nat option"
  lt_waiters :: "nat \<Rightarrow> int"
  lt_token :: "nat \<Rightarrow> bool"
  lt_next :: nat

definition lock_new :: "'k \<Rightarrow> 'k lock_table \<Rightarrow> 'k lock_table" where
  "lock_new k t =
     t\<lparr>lt_locks := (lt_locks t)(k \<mapsto> lt_next t), lt_waiters := (lt_waiters t)(lt_next t := 0),
       lt_token := (lt_token t)(lt_next t := True), lt_next := lt_next t + 1\<rparr>"

text \<open>The first critical section: find or make the entry, count the caller.\<close>

definition lock_enter :: "'k \<Rightarrow> 'k lock_table \<Rightarrow> nat \<times> 'k lock_table" where
  "lock_enter k t =
     (let t' = (if lt_locks t k = None then lock_new k t else t);
          l = the (lt_locks t' k)
      in (l, t'\<lparr>lt_waiters := (lt_waiters t')(l := lt_waiters t' l + 1)\<rparr>))"

text \<open>Receiving from and sending to the channel; \<open>None\<close> when the operation blocks.\<close>

definition token_receive :: "nat \<Rightarrow> 'k lock_table \<Rightarrow> 'k lock_table option" where
  "token_receive l t = (if lt_token t l then Some (t\<lparr>lt_token := (lt_token t)(l := False)\<rparr>) else None)"

definition token_send :: "nat \<Rightarrow> 'k lock_table \<Rightarrow> 'k lock_table option" where
  "token_send l t = (if lt_token t l then None else Some (t\<lparr>lt_token := (lt_token t)(l := True)\<rparr>))"

text \<open>\<open>dropPaymentWaiter\<close>, \<open>dropWaiter\<close>.\<close>

definition drop_waiter :: "nat \<Rightarrow> 'k \<Rightarrow> 'k lock_table \<Rightarrow> 'k lock_table" where
  "drop_waiter l k t =
     (let n = lt_waiters t l - 1;
          t' = t\<lparr>lt_waiters := (lt_waiters t)(l := n)\<rparr>
      in if n = 0 then t'\<lparr>lt_locks := (lt_locks t')(k := None)\<rparr> else t')"

section \<open>The goroutines\<close>

text \<open>
  Where a goroutine is: outside; at the \<open>select\<close>; holding the token; after it returned the token
  but before it gave up its count; after the acquisition timed out, before it gave up its count.
\<close>

datatype 'k lock_pc = Outside | Selecting 'k nat | Holding 'k nat | Returned 'k nat | TimedOut 'k nat

record 'k lock_system =
  ls_table :: "'k lock_table"
  ls_pc :: "nat \<Rightarrow> 'k lock_pc"

definition lock_init :: "'k lock_system" where
  "lock_init =
     \<lparr>ls_table = \<lparr>lt_locks = (\<lambda>_. None), lt_waiters = (\<lambda>_. 0), lt_token = (\<lambda>_. False), lt_next = 0\<rparr>,
      ls_pc = (\<lambda>_. Outside)\<rparr>"

definition lock_goto :: "nat \<Rightarrow> 'k lock_pc \<Rightarrow> 'k lock_table \<Rightarrow> 'k lock_system \<Rightarrow> 'k lock_system" where
  "lock_goto p pc t s = s\<lparr>ls_table := t, ls_pc := (ls_pc s)(p := pc)\<rparr>"

inductive lock_step :: "'k lock_system \<Rightarrow> 'k lock_system \<Rightarrow> bool" where
  lock_call: "ls_pc s p = Outside \<Longrightarrow> lock_enter k (ls_table s) = (l, t)
    \<Longrightarrow> lock_step s (lock_goto p (Selecting k l) t s)"
| lock_acquire: "ls_pc s p = Selecting k l \<Longrightarrow> token_receive l (ls_table s) = Some t
    \<Longrightarrow> lock_step s (lock_goto p (Holding k l) t s)"
| lock_timeout: "ls_pc s p = Selecting k l \<Longrightarrow> lock_step s (lock_goto p (TimedOut k l) (ls_table s) s)"
| lock_unlock: "ls_pc s p = Holding k l \<Longrightarrow> token_send l (ls_table s) = Some t
    \<Longrightarrow> lock_step s (lock_goto p (Returned k l) t s)"
| lock_release: "ls_pc s p = Returned k l \<Longrightarrow> lock_step s (lock_goto p Outside (drop_waiter l k (ls_table s)) s)"
| lock_give_up: "ls_pc s p = TimedOut k l \<Longrightarrow> lock_step s (lock_goto p Outside (drop_waiter l k (ls_table s)) s)"

inductive_cases lock_stepE: "lock_step s s'"

section \<open>The invariant\<close>

fun pc_ref :: "'k lock_pc \<Rightarrow> ('k \<times> nat) option" where
  "pc_ref Outside = None"
| "pc_ref (Selecting k l) = Some (k, l)"
| "pc_ref (Holding k l) = Some (k, l)"
| "pc_ref (Returned k l) = Some (k, l)"
| "pc_ref (TimedOut k l) = Some (k, l)"

definition lock_users :: "('k \<times> nat) \<Rightarrow> 'k lock_system \<Rightarrow> nat set" where
  "lock_users r s = {p. pc_ref (ls_pc s p) = Some r}"

definition lock_inv :: "'k lock_system \<Rightarrow> bool" where
  "lock_inv s \<longleftrightarrow>
     (\<forall>k l. lt_locks (ls_table s) k = Some l \<longrightarrow> l < lt_next (ls_table s) \<and> lock_users (k, l) s \<noteq> {}
        \<and> finite (lock_users (k, l) s) \<and> lt_waiters (ls_table s) l = int (card (lock_users (k, l) s)))
     \<and> (\<forall>k k' l. lt_locks (ls_table s) k = Some l \<and> lt_locks (ls_table s) k' = Some l \<longrightarrow> k = k')
     \<and> (\<forall>p k l. pc_ref (ls_pc s p) = Some (k, l) \<longrightarrow> lt_locks (ls_table s) k = Some l)
     \<and> (\<forall>p k l. ls_pc s p = Holding k l \<longrightarrow> \<not> lt_token (ls_table s) l)
     \<and> (\<forall>p q k l. ls_pc s p = Holding k l \<and> ls_pc s q = Holding k l \<longrightarrow> p = q)
     \<and> (\<forall>k l. lt_locks (ls_table s) k = Some l \<and> \<not> lt_token (ls_table s) l \<longrightarrow> (\<exists>p. ls_pc s p = Holding k l))"


lemma lock_goto_simps [simp]:
  "ls_table (lock_goto p pc t s) = t" "ls_pc (lock_goto p pc t s) = (ls_pc s)(p := pc)"
  by (simp_all add: lock_goto_def)

lemma lock_users_goto:
  "lock_users r (lock_goto p pc t s)
     = (if pc_ref pc = Some r then insert p (lock_users r s) else lock_users r s - {p})"
  by (auto simp: lock_users_def)

lemma lock_users_iff [simp]: "p \<in> lock_users r s \<longleftrightarrow> pc_ref (ls_pc s p) = Some r"
  by (simp add: lock_users_def)

lemma lock_invE:
  assumes "lock_inv s"
  shows lock_inv_entry: "lt_locks (ls_table s) k = Some l \<Longrightarrow> l < lt_next (ls_table s)
      \<and> lock_users (k, l) s \<noteq> {} \<and> finite (lock_users (k, l) s)
      \<and> lt_waiters (ls_table s) l = int (card (lock_users (k, l) s))"
    and lock_inv_inj: "lt_locks (ls_table s) k = Some l \<Longrightarrow> lt_locks (ls_table s) k' = Some l \<Longrightarrow> k = k'"
    and lock_inv_ref: "pc_ref (ls_pc s p) = Some (k, l) \<Longrightarrow> lt_locks (ls_table s) k = Some l"
    and lock_inv_taken: "ls_pc s p = Holding k l \<Longrightarrow> \<not> lt_token (ls_table s) l"
    and lock_inv_one: "ls_pc s p = Holding k l \<Longrightarrow> ls_pc s q = Holding k l \<Longrightarrow> p = q"
    and lock_inv_held: "lt_locks (ls_table s) k = Some l \<Longrightarrow> \<not> lt_token (ls_table s) l
      \<Longrightarrow> \<exists>p. ls_pc s p = Holding k l"
  using assms unfolding lock_inv_def by blast+

text \<open>A move that stays with its lock object and does not touch the map or the counts.\<close>

lemma lock_inv_move:
  assumes inv: "lock_inv s" and src: "pc_ref (ls_pc s p) = Some (k, l)" and dst: "pc_ref pc = Some (k, l)"
    and t: "lt_locks t = lt_locks (ls_table s)" "lt_waiters t = lt_waiters (ls_table s)"
      "lt_next t = lt_next (ls_table s)" "\<And>m. m \<noteq> l \<Longrightarrow> lt_token t m = lt_token (ls_table s) m"
    and tok: "lt_token t l \<longleftrightarrow> \<not> (\<exists>q. ((ls_pc s)(p := pc)) q = Holding k l)"
    and one: "\<And>q. q \<noteq> p \<Longrightarrow> pc = Holding k l \<Longrightarrow> ls_pc s q \<noteq> Holding k l"
  shows "lock_inv (lock_goto p pc t s)"
proof -
  have users: "lock_users r (lock_goto p pc t s) = lock_users r s" for r
    using src dst by (auto simp: lock_users_goto)
  have ref: "pc_ref (((ls_pc s)(p := pc)) q) = pc_ref (ls_pc s q)" for q
    using src dst by simp
  have same: "m = l \<and> j = k" if "((ls_pc s)(p := pc)) q = Holding j m" "m = l" for q j m
  proof -
    have "pc_ref (ls_pc s q) = Some (j, l)" using that ref [of q] by (metis pc_ref.simps(3))
    with lock_inv_ref [OF inv this] lock_inv_ref [OF inv src] lock_inv_inj [OF inv] that show ?thesis by blast
  qed
  have held: "\<not> lt_token t m" if "((ls_pc s)(p := pc)) q = Holding j m" for q j m
  proof (cases "m = l")
    case True
    with same that tok show ?thesis by blast
  next
    case False
    then have "ls_pc s q = Holding j m" using that dst by (auto split: if_splits)
    with lock_inv_taken [OF inv] False t show ?thesis by simp
  qed
  have uniq: "q = q'" if "((ls_pc s)(p := pc)) q = Holding j m" "((ls_pc s)(p := pc)) q' = Holding j m" for q q' j m
  proof (cases "q = p \<or> q' = p")
    case True
    then show ?thesis using that dst one by (auto split: if_splits)
  next
    case False
    with that lock_inv_one [OF inv] show ?thesis by auto
  qed
  have freed: "\<exists>q. ((ls_pc s)(p := pc)) q = Holding j m"
    if "lt_locks (ls_table s) j = Some m" "\<not> lt_token t m" for j m
  proof (cases "m = l")
    case True
    with that tok lock_inv_inj [OF inv] lock_inv_ref [OF inv src] show ?thesis by blast
  next
    case False
    then have "\<not> lt_token (ls_table s) m" using that t by simp
    from lock_inv_held [OF inv that(1) this] obtain q where q: "ls_pc s q = Holding j m" ..
    then have "q \<noteq> p" using src False by auto
    with q show ?thesis by (intro exI [of _ q]) simp
  qed
  show ?thesis
    unfolding lock_inv_def users lock_goto_simps ref t
    using lock_inv_entry [OF inv] lock_inv_inj [OF inv] lock_inv_ref [OF inv] held uniq freed by blast
qed



lemma lock_invI:
  assumes "\<And>k l. lt_locks (ls_table s) k = Some l \<Longrightarrow> l < lt_next (ls_table s)
      \<and> lock_users (k, l) s \<noteq> {} \<and> finite (lock_users (k, l) s)
      \<and> lt_waiters (ls_table s) l = int (card (lock_users (k, l) s))"
    and "\<And>k k' l. lt_locks (ls_table s) k = Some l \<Longrightarrow> lt_locks (ls_table s) k' = Some l \<Longrightarrow> k = k'"
    and "\<And>p k l. pc_ref (ls_pc s p) = Some (k, l) \<Longrightarrow> lt_locks (ls_table s) k = Some l"
    and "\<And>p k l. ls_pc s p = Holding k l \<Longrightarrow> \<not> lt_token (ls_table s) l"
    and "\<And>p q k l. ls_pc s p = Holding k l \<Longrightarrow> ls_pc s q = Holding k l \<Longrightarrow> p = q"
    and "\<And>k l. lt_locks (ls_table s) k = Some l \<Longrightarrow> \<not> lt_token (ls_table s) l
      \<Longrightarrow> \<exists>p. ls_pc s p = Holding k l"
  shows "lock_inv s"
  using assms unfolding lock_inv_def by blast

text \<open>A goroutine that comes finds the entry or makes it.\<close>

lemma lock_inv_call:
  assumes inv: "lock_inv s" and p: "ls_pc s p = Outside" and enter: "lock_enter k (ls_table s) = (l, t)"
  shows "lock_inv (lock_goto p (Selecting k l) t s)"
proof -
  let ?m = "lt_next (ls_table s)" and ?s = "lock_goto p (Selecting k l) t s"
  have hold: "((ls_pc s)(p := Selecting k l)) q = Holding j n \<longleftrightarrow> ls_pc s q = Holding j n" for q j n
    using p by auto
  have new: "p \<notin> lock_users r s" for r using p by simp
  have fresh: "lt_locks (ls_table s) j \<noteq> Some ?m" for j
    using lock_inv_entry [OF inv] by blast
  have unused: "pc_ref (ls_pc s q) \<noteq> Some (j, ?m)" for q j
    using fresh lock_inv_ref [OF inv] by blast
  have unheld: "ls_pc s q \<noteq> Holding j ?m" for q j
    using unused [of q j] by auto
  consider (found) "lt_locks (ls_table s) k = Some l"
      "t = (ls_table s)\<lparr>lt_waiters := (lt_waiters (ls_table s))(l := lt_waiters (ls_table s) l + 1)\<rparr>"
    | (made) "lt_locks (ls_table s) k = None" "l = ?m"
      "t = (ls_table s)\<lparr>lt_locks := (lt_locks (ls_table s))(k \<mapsto> ?m),
      lt_waiters := (lt_waiters (ls_table s))(?m := 1), lt_token := (lt_token (ls_table s))(?m := True),
      lt_next := ?m + 1\<rparr>"
    using enter by (cases "lt_locks (ls_table s) k") (auto simp: lock_enter_def lock_new_def Let_def)
  then show ?thesis
  proof cases
    case found
    show ?thesis
    proof (rule lock_invI)
      fix j n assume a: "lt_locks (ls_table ?s) j = Some n"
      then have e: "lt_locks (ls_table s) j = Some n" using found by simp
      have "n = l \<longleftrightarrow> j = k" using lock_inv_inj [OF inv] e found(1) by auto
      with lock_inv_entry [OF inv e] new show "n < lt_next (ls_table ?s) \<and>
        lock_users (j, n) ?s \<noteq> {} \<and>
        finite (lock_users (j, n) ?s) \<and>
        lt_waiters (ls_table ?s) n
          = int (card (lock_users (j, n) ?s))"
        using found by (auto simp: lock_users_goto)
    next
      fix j n assume "lt_locks (ls_table ?s) j = Some n" "\<not> lt_token (ls_table ?s) n"
      then show "\<exists>q. ls_pc ?s q = Holding j n"
        using lock_inv_held [OF inv] found unfolding lock_goto_simps hold by simp
    qed (use lock_inv_inj [OF inv] lock_inv_ref [OF inv] lock_inv_taken [OF inv]
      lock_inv_one [OF inv] found in \<open>auto simp: hold split: if_splits\<close>)
  next
    case made
    show ?thesis
    proof (rule lock_invI)
      fix j n assume a: "lt_locks (ls_table ?s) j = Some n"
      show "n < lt_next (ls_table ?s) \<and>
        lock_users (j, n) ?s \<noteq> {} \<and>
        finite (lock_users (j, n) ?s) \<and>
        lt_waiters (ls_table ?s) n
          = int (card (lock_users (j, n) ?s))"
      proof (cases "j = k")
        case True
        then have n: "n = ?m" using a made by simp
        have "lock_users (k, ?m) s = {}" using unused by auto
        with True n made show ?thesis by (simp add: lock_users_goto)
      next
        case False
        then have e: "lt_locks (ls_table s) j = Some n" using a made by simp
        with fresh have "n \<noteq> ?m" by auto
        with lock_inv_entry [OF inv e] new False made show ?thesis by (simp add: lock_users_goto)
      qed
    next
      fix j n assume "lt_locks (ls_table ?s) j = Some n" "\<not> lt_token (ls_table ?s) n"
      then show "\<exists>q. ls_pc ?s q = Holding j n"
        using lock_inv_held [OF inv] made unfolding lock_goto_simps hold by (auto split: if_splits)
    qed (use lock_inv_inj [OF inv] lock_inv_ref [OF inv] lock_inv_taken [OF inv] unused unheld fresh
      lock_inv_one [OF inv] made in \<open>auto simp: hold split: if_splits\<close>)
  qed
qed

text \<open>A goroutine that goes removes the entry if it was the last.\<close>

lemma lock_inv_drop:
  assumes inv: "lock_inv s" and p: "pc_ref (ls_pc s p) = Some (k, l)" "ls_pc s p \<noteq> Holding k l"
  shows "lock_inv (lock_goto p Outside (drop_waiter l k (ls_table s)) s)"
proof -
  let ?s = "lock_goto p Outside (drop_waiter l k (ls_table s)) s"
  have hold: "((ls_pc s)(p := Outside)) q = Holding j n \<longleftrightarrow> ls_pc s q = Holding j n" for q j n
    using p by auto
  have e: "lt_locks (ls_table s) k = Some l" using lock_inv_ref [OF inv p(1)] .
  note own = lock_inv_entry [OF inv e]
  have mem: "p \<in> lock_users (k, l) s" using p by simp
  have n: "lt_waiters (ls_table s) l - 1 = int (card (lock_users (k, l) s - {p}))"
    using own mem by (simp add: card_Diff_singleton) (metis One_nat_def Suc_leI card_gt_0_iff of_nat_1 of_nat_diff)
  have last: "lt_waiters (ls_table s) l - 1 = 0 \<longleftrightarrow> lock_users (k, l) s \<subseteq> {p}"
    using n own by auto
  have locks: "lt_locks (drop_waiter l k (ls_table s)) j = (if j = k \<and> lock_users (k, l) s \<subseteq> {p} then None else lt_locks (ls_table s) j)" for j
    using last by (simp add: drop_waiter_def Let_def)
  have rest: "lt_token (drop_waiter l k (ls_table s)) = lt_token (ls_table s)" "lt_next (drop_waiter l k (ls_table s)) = lt_next (ls_table s)"
    "lt_waiters (drop_waiter l k (ls_table s)) = (lt_waiters (ls_table s))(l := lt_waiters (ls_table s) l - 1)"
    by (simp_all add: drop_waiter_def Let_def)
  show ?thesis
  proof (rule lock_invI)
    fix j m assume "lt_locks (ls_table ?s) j = Some m"
    then have j: "lt_locks (ls_table s) j = Some m" "\<not> (j = k \<and> lock_users (k, l) s \<subseteq> {p})"
      by (auto simp: locks split: if_splits)
    have "m = l \<longleftrightarrow> j = k" using lock_inv_inj [OF inv] j(1) e by auto
    moreover have "p \<notin> lock_users (j, m) s" if "j \<noteq> k" using p that by simp
    ultimately show "m < lt_next (ls_table ?s) \<and> lock_users (j, m) ?s \<noteq> {} \<and> finite (lock_users (j, m) ?s)
        \<and> lt_waiters (ls_table ?s) m = int (card (lock_users (j, m) ?s))"
      using lock_inv_entry [OF inv j(1)] j(2) n by (cases "j = k") (auto simp: rest lock_users_goto)
  next
    fix q j m assume "pc_ref (ls_pc ?s q) = Some (j, m)"
    then have q: "q \<noteq> p" "pc_ref (ls_pc s q) = Some (j, m)" by (auto split: if_splits)
    then have "lt_locks (ls_table s) j = Some m" using lock_inv_ref [OF inv] by blast
    moreover have "\<not> (j = k \<and> lock_users (k, l) s \<subseteq> {p})"
      using q e calculation by (auto simp: subset_iff)
    ultimately show "lt_locks (ls_table ?s) j = Some m" by (simp add: locks)
  next
    fix j m assume "lt_locks (ls_table ?s) j = Some m" "\<not> lt_token (ls_table ?s) m"
    then show "\<exists>q. ls_pc ?s q = Holding j m"
      using lock_inv_held [OF inv] unfolding lock_goto_simps hold by (auto simp: locks rest split: if_splits)
  qed (use lock_inv_inj [OF inv] lock_inv_taken [OF inv] lock_inv_one [OF inv] in
      \<open>auto simp: locks rest hold split: if_splits\<close>)
qed

lemma lock_step_inv: "lock_step s s' \<Longrightarrow> lock_inv s \<Longrightarrow> lock_inv s'"
proof (induction rule: lock_step.induct)
  case (lock_call s p k l t)
  then show ?case by (intro lock_inv_call)
next
  case (lock_acquire s p k l t)
  then have "lt_token (ls_table s) l" and t: "t = (ls_table s)\<lparr>lt_token := (lt_token (ls_table s))(l := False)\<rparr>"
    by (auto simp: token_receive_def split: if_splits)
  with lock_acquire show ?case
    by (intro lock_inv_move [of s p k l]) (auto dest: lock_inv_taken)
next
  case (lock_timeout s p k l)
  then have "lt_locks (ls_table s) k = Some l" using lock_inv_ref [of s p k l] by simp
  then have "lt_token (ls_table s) l \<longleftrightarrow> \<not> (\<exists>q. ls_pc s q = Holding k l)"
    using lock_inv_held [OF lock_timeout(2)] lock_inv_taken [OF lock_timeout(2)] by blast
  moreover have "((ls_pc s)(p := TimedOut k l)) q = Holding k l \<longleftrightarrow> ls_pc s q = Holding k l" for q
    using lock_timeout by auto
  ultimately show ?case
    using lock_timeout by (intro lock_inv_move [of s p k l]) auto
next
  case (lock_unlock s p k l t)
  then have "\<not> lt_token (ls_table s) l" and t: "t = (ls_table s)\<lparr>lt_token := (lt_token (ls_table s))(l := True)\<rparr>"
    by (auto simp: token_send_def split: if_splits)
  with lock_unlock show ?case
    by (intro lock_inv_move [of s p k l]) (auto dest: lock_inv_one)
next
  case (lock_release s p k l)
  then show ?case by (intro lock_inv_drop) simp_all
next
  case (lock_give_up s p k l)
  then show ?case by (intro lock_inv_drop) simp_all
qed

lemma lock_init_inv: "lock_inv lock_init"
  by (auto simp: lock_inv_def lock_init_def)


section \<open>The service interface: exclusive access\<close>

text \<open>
  What the services need of a lock: a step system with an invariant under which two goroutines
  that are inside for the same key are the same.
\<close>

locale exclusive_lock =
  fixes sys_step :: "'s \<Rightarrow> 's \<Rightarrow> bool" and sys_init :: 's and inside :: "'k \<Rightarrow> nat \<Rightarrow> 's \<Rightarrow> bool"
    and sys_inv :: "'s \<Rightarrow> bool"
  assumes init_inv: "sys_inv sys_init"
    and step_inv: "sys_step s s' \<Longrightarrow> sys_inv s \<Longrightarrow> sys_inv s'"
    and inv_exclusive: "sys_inv s \<Longrightarrow> inside k p s \<Longrightarrow> inside k q s \<Longrightarrow> p = q"
begin

lemma reachable_inv: "sys_step\<^sup>*\<^sup>* sys_init s \<Longrightarrow> sys_inv s"
  by (induction rule: rtranclp_induct) (auto intro: init_inv step_inv)

lemma exclusive: "sys_step\<^sup>*\<^sup>* sys_init s \<Longrightarrow> inside k p s \<Longrightarrow> inside k q s \<Longrightarrow> p = q"
  using reachable_inv inv_exclusive by blast

end

definition lock_inside :: "'k \<Rightarrow> nat \<Rightarrow> 'k lock_system \<Rightarrow> bool" where
  "lock_inside k p s \<longleftrightarrow> (\<exists>l. ls_pc s p = Holding k l)"

lemma lock_inv_exclusive: "lock_inv s \<Longrightarrow> lock_inside k p s \<Longrightarrow> lock_inside k q s \<Longrightarrow> p = q"
  unfolding lock_inside_def
  by (metis lock_inv_one lock_inv_ref option.inject pc_ref.simps(3))

interpretation payment: exclusive_lock
  "lock_step :: string lock_system \<Rightarrow> _" lock_init lock_inside lock_inv
  by unfold_locales (auto intro: lock_init_inv lock_step_inv lock_inv_exclusive)

interpretation subscription: exclusive_lock
  "lock_step :: uint lock_system \<Rightarrow> _" lock_init lock_inside lock_inv
  by unfold_locales (auto intro: lock_init_inv lock_step_inv lock_inv_exclusive)

section \<open>Properties\<close>

text \<open>C40. At most one goroutine at a time holds the lock of a payment, in every interleaving of
  arrivals, acquisitions, timeouts and releases, although lock objects are dropped and made anew.\<close>

theorem payment_lock_exclusive:
  "lock_step\<^sup>*\<^sup>* (lock_init :: string lock_system) s \<Longrightarrow> ls_pc s p = Holding k l \<Longrightarrow> ls_pc s q = Holding k m \<Longrightarrow> p = q"
  by (rule payment.exclusive [of s k]) (auto simp: lock_inside_def)

text \<open>Neither a lock nor its token is ever lost: in every reachable state a goroutine that
  waits for a subscription nobody holds finds the token in the channel, a holder's return of the
  token never blocks, and when all goroutines have gone the map is empty again.\<close>

theorem subscription_lock_live:
  assumes "lock_step\<^sup>*\<^sup>* (lock_init :: uint lock_system) s"
  shows "(\<forall>p k l. ls_pc s p = Selecting k l \<longrightarrow> (\<forall>q m. ls_pc s q \<noteq> Holding k m)
           \<longrightarrow> token_receive l (ls_table s) \<noteq> None)
    \<and> (\<forall>p k l. ls_pc s p = Holding k l \<longrightarrow> token_send l (ls_table s) \<noteq> None)
    \<and> ((\<forall>p. ls_pc s p = Outside) \<longrightarrow> (\<forall>k. lt_locks (ls_table s) k = None))"
proof -
  have inv: "lock_inv s" using assms by (rule subscription.reachable_inv)
  have "token_receive l (ls_table s) \<noteq> None"
    if "ls_pc s p = Selecting k l" "\<forall>q m. ls_pc s q \<noteq> Holding k m" for p k l
    using that lock_inv_held [OF inv, of k l] lock_inv_ref [OF inv, of p k l] by (auto simp: token_receive_def)
  moreover have "token_send l (ls_table s) \<noteq> None" if "ls_pc s p = Holding k l" for p k l
    using lock_inv_taken [OF inv that] by (simp add: token_send_def)
  moreover have "lt_locks (ls_table s) k = None" if "\<forall>p. ls_pc s p = Outside" for k
  proof (rule ccontr)
    assume "lt_locks (ls_table s) k \<noteq> None"
    then obtain l where "lt_locks (ls_table s) k = Some l" by auto
    from lock_inv_entry [OF inv this] that show False by auto
  qed
  ultimately show ?thesis by blast
qed


section \<open>A run\<close>

definition lock_sample :: "'k \<Rightarrow> 'k lock_system" where
  "lock_sample k =
     (let s1 = lock_goto 0 (Selecting k 0) (snd (lock_enter k (ls_table lock_init))) lock_init;
          s2 = lock_goto 0 (Holding k 0) (the (token_receive 0 (ls_table s1))) s1
      in lock_goto 1 (Selecting k 0) (snd (lock_enter k (ls_table s2))) s2)"

lemmas lock_run_defs = lock_init_def lock_enter_def lock_new_def token_receive_def

lemma lock_sample_reachable: "lock_step\<^sup>*\<^sup>* lock_init (lock_sample k)"
proof -
  let ?t1 = "snd (lock_enter k (ls_table lock_init))"
  let ?s1 = "lock_goto 0 (Selecting k 0) ?t1 lock_init"
  let ?s2 = "lock_goto 0 (Holding k 0) (the (token_receive 0 ?t1)) ?s1"
  have "lock_step lock_init ?s1"
    by (rule lock_call [of _ _ k]) (simp_all add: lock_run_defs)
  moreover have "lock_step ?s1 ?s2"
    by (rule lock_acquire) (simp_all add: lock_run_defs)
  moreover have "lock_step ?s2 (lock_sample k)"
    unfolding lock_sample_def Let_def lock_goto_simps
    by (rule lock_call [of _ _ k]) (simp_all add: lock_run_defs)
  ultimately show ?thesis
    by (meson converse_rtranclp_into_rtranclp rtranclp.rtrancl_refl)
qed

lemma lock_sample_pc: "ls_pc (lock_sample k) 0 = Holding k 0" "ls_pc (lock_sample k) 1 = Selecting k 0"
  by (simp_all add: lock_sample_def Let_def)

lemma payment_lock_exclusive_witness:
  "ls_pc (lock_sample ''p1'') 1 \<noteq> Holding ''p1'' 0"
  using payment_lock_exclusive [where q = 1, OF lock_sample_reachable lock_sample_pc(1)] by fastforce

lemma subscription_lock_live_witness:
  "token_send 0 (ls_table (lock_sample (7 :: uint))) \<noteq> None"
  using subscription_lock_live [OF lock_sample_reachable [of 7]] lock_sample_pc(1) [of 7] by blast

end
