(* ===== verification/Broadcast_Flow.thy ===== *)
theory Broadcast_Flow
  imports Broadcast_Worker
begin

text \<open>
  The administrator's side of a broadcast: the draft session of \<open>internal/bot/broadcast_flow.go\<close>,
  from \<open>/broadcast\<close> to the launch, with the keyboards of \<open>broadcast_filters.go\<close>.

  The handler's state is \<open>flow\<close>: the database's world, the map of sessions and what was sent to the
  administrator. A session is stored by value: \<open>getBroadcastSession\<close> returns a copy and every handler
  stores a new one, so no object is shared. Each handler is the reading of the session followed by
  the rest, a definition of its own (\<open>..._with\<close>) that takes the copy: between the two, other updates
  may be handled (theory \<open>Broadcast_Presses\<close>).

  A message is kept by its template and what is filled in, a button by its callback data and its
  tick. Answers of Telegram other than the preview's are not looked at by the code. The clock is a
  sequence of readings. \<open>Europe/Moscow\<close> is UTC+3, its offset since 2014 and the code's fallback.
\<close>

section \<open>State\<close>

datatype broadcast_stage = StageIdle | StageAwaitingName | StageAwaitingDraft
  | StageFiltering | StageConfirming | StageScheduling

record broadcast_session =
  ss_created_at :: time
  ss_stage :: broadcast_stage
  ss_name :: string
  ss_text :: string
  ss_filter :: broadcast_filter
  ss_recipient_count :: int
  ss_planned_at :: "time option"
  ss_schedule_day :: int

record button =
  bt_data :: string
  bt_ticked :: bool

type_synonym keyboard = "button list list"

datatype notice = AskName | OnlyTexts | DraftCanceled | NoBroadcast | NameEmpty | NameTooLong
  | AskText | TextTooLong nat | PreviewRefused tg_error | FilterPreview string broadcast_filter
  | NothingToFilter | NothingToConfirm | NotCounted error | ConfirmContent string int broadcast_filter
  | NothingToSchedule | PickDay "string option" | PickHour int | TimePassed | SchedulePreview string time int
  | NoActive | NotSaved error | CampaignScheduled uint time | CampaignQueued uint
  | HistoryEmpty | History "broadcast list" | UnknownCommand | CampaignCanceled uint | AlreadyOver uint
  | RetryQueued uint | Details broadcast | DetailsNotFound | DetailsError | ConfirmDeactivation broadcast
  | Deactivated nat | DeactivationFailed uint error | DeactivatedPartly uint nat nat nat error | TooManyRequests

datatype reply = Said int notice | Shown int notice keyboard | Edited int notice keyboard
  | Preview int string | Launched uint | Answered

record flow =
  fl_world :: world
  fl_sessions :: "int \<rightharpoonup> broadcast_session"
  fl_reads :: nat
  fl_out :: "reply list"

record flow_env =
  fe_admin :: int
  fe_clock :: "nat \<Rightarrow> time"
  fe_preview :: "flow \<Rightarrow> int \<Rightarrow> string \<Rightarrow> tg_error option"
  fe_worker :: bw_env

definition Now :: "flow_env \<Rightarrow> (flow, time) op" where
  [op_simps]: "Now env s = (Inr (fe_clock env (fl_reads s)), s\<lparr>fl_reads := Suc (fl_reads s)\<rparr>)"

definition say :: "reply \<Rightarrow> (flow, unit) op" where
  [op_simps]: "say m s = (Inr (), s\<lparr>fl_out := fl_out s @ [m]\<rparr>)"

definition in_world :: "(world, 'a) op \<Rightarrow> (flow, 'a) op" where
  [op_simps]: "in_world m s = (case m (fl_world s) of (r, w) \<Rightarrow> (r, s\<lparr>fl_world := w\<rparr>))"

definition isAdmin :: "flow_env \<Rightarrow> int \<Rightarrow> bool" where
  "isAdmin env chatID \<longleftrightarrow> 0 < fe_admin env \<and> chatID = fe_admin env"

section \<open>The map of sessions\<close>

definition broadcastSessionTTL :: duration where "broadcastSessionTTL = 15 * minute"
definition broadcastNameMaxLen :: nat where "broadcastNameMaxLen = 100"

definition zero_session :: "time \<Rightarrow> broadcast_stage \<Rightarrow> broadcast_session" where
  "zero_session now stage =
     \<lparr>ss_created_at = now, ss_stage = stage, ss_name = [], ss_text = [], ss_filter = no_filter,
      ss_recipient_count = 0, ss_planned_at = None, ss_schedule_day = 0\<rparr>"

definition putSession :: "int \<Rightarrow> broadcast_session \<Rightarrow> (flow, unit) op" where
  [op_simps]: "putSession chatID ss s = (Inr (), s\<lparr>fl_sessions := (fl_sessions s)(chatID \<mapsto> ss)\<rparr>)"

definition clearBroadcastSession :: "int \<Rightarrow> (flow, unit) op" where
  [op_simps]: "clearBroadcastSession chatID s = (Inr (), s\<lparr>fl_sessions := (fl_sessions s)(chatID := None)\<rparr>)"

definition startBroadcastSession :: "flow_env \<Rightarrow> int \<Rightarrow> (flow, unit) op" where
  "startBroadcastSession env chatID =
     bindE (Now env) (\<lambda>now. putSession chatID (zero_session now StageAwaitingName))"

definition getBroadcastSession :: "flow_env \<Rightarrow> int \<Rightarrow> (flow, broadcast_session option) op" where
  "getBroadcastSession env chatID s =
     (case fl_sessions s chatID of
        None \<Rightarrow> (Inr None, s)
      | Some ss \<Rightarrow>
          bindE (Now env) (\<lambda>now.
            if broadcastSessionTTL < now - ss_created_at ss
            then bindE (clearBroadcastSession chatID) (\<lambda>_. returnE None)
            else returnE (Some ss)) s)"

definition restoreBroadcastSession :: "int \<Rightarrow> broadcast_session \<Rightarrow> (flow, unit) op" where
  [op_simps]: "restoreBroadcastSession chatID ss s =
     (if fl_sessions s chatID = None then putSession chatID ss s else (Inr (), s))"

definition broadcastSessionActive :: "flow_env \<Rightarrow> int \<Rightarrow> (flow, bool) op" where
  "broadcastSessionActive env chatID =
     bindE (getBroadcastSession env chatID) (\<lambda>so.
     returnE (case so of None \<Rightarrow> False
       | Some ss \<Rightarrow> ss_stage ss \<in> {StageAwaitingName, StageAwaitingDraft, StageFiltering, StageConfirming, StageScheduling}))"

section \<open>Keyboards\<close>

definition btn :: "string \<Rightarrow> bool \<Rightarrow> button" where
  "btn data ticked = \<lparr>bt_data = data, bt_ticked = ticked\<rparr>"

definition plain_btn :: "string \<Rightarrow> button" where "plain_btn data = btn data False"

text \<open>The age in whole days of the lower bound of the registration; a duration fits 64 bits.\<close>

definition registered_days :: "time \<Rightarrow> time \<Rightarrow> int" where
  "registered_days now t = go_div (now - t) day"

definition plan_row :: "broadcast_filter \<Rightarrow> button list" where
  "plan_row f =
     [btn ''bfilter_plan_'' (bf_plan_type f = []), btn ''bfilter_plan_paid'' (bf_plan_type f = ''paid''),
      btn ''bfilter_plan_free'' (bf_plan_type f = ''free'')]"

definition status_row :: "broadcast_filter \<Rightarrow> button list" where
  "status_row f =
     [btn ''bfilter_status_all'' (bf_subscription_status f = ''all''),
      btn ''bfilter_status_active'' (bf_subscription_status f = ''active'' \<or> bf_subscription_status f = []),
      btn ''bfilter_status_revoked'' (bf_subscription_status f = ''revoked'')]"

definition date_row :: "time \<Rightarrow> broadcast_filter \<Rightarrow> button list" where
  "date_row now f =
     (let days = map_option (registered_days now) (bf_registered_after f);
          between = (\<lambda>lo hi. case days of None \<Rightarrow> False | Some n \<Rightarrow> lo < n \<and> n \<le> hi)
      in [btn ''bfilter_date_90'' (case days of None \<Rightarrow> False | Some n \<Rightarrow> n \<le> 95),
          btn ''bfilter_date_180'' (between 95 185), btn ''bfilter_date_365'' (between 185 370),
          btn ''bfilter_date_'' (case days of None \<Rightarrow> True | Some n \<Rightarrow> 370 < n)])"

definition inactive_row :: "broadcast_filter \<Rightarrow> button list" where
  "inactive_row f =
     [btn ''bfilter_inactive_0'' (bf_inactive_days f = Some 0), btn ''bfilter_inactive_30'' (bf_inactive_days f = Some 30),
      btn ''bfilter_inactive_90'' (bf_inactive_days f = Some 90), btn ''bfilter_inactive_'' (bf_inactive_days f = None)]"

definition paid_row :: "broadcast_filter \<Rightarrow> button list" where
  "paid_row f =
     [btn ''bfilter_ever_paid_true'' (bf_ever_paid f = Some True),
      btn ''bfilter_ever_paid_false'' (bf_ever_paid f = Some False),
      btn ''bfilter_ever_paid_'' (bf_ever_paid f = None)]"

definition broadcastFilterKeyboard :: "time \<Rightarrow> broadcast_filter \<Rightarrow> keyboard" where
  "broadcastFilterKeyboard now f =
     [plan_row f, status_row f, date_row now f, inactive_row f, paid_row f,
      [plain_btn ''broadcast_confirm'', plain_btn ''broadcast_cancel'']]"

definition confirmKeyboard :: keyboard where
  "confirmKeyboard =
     [[plain_btn ''broadcast_final_confirm'', plain_btn ''broadcast_schedule''],
      [plain_btn ''broadcast_back_to_filters'', plain_btn ''broadcast_cancel'']]"

definition broadcastConfirmContent :: "broadcast_session \<Rightarrow> notice \<times> keyboard" where
  "broadcastConfirmContent ss =
     (ConfirmContent (ss_name ss) (ss_recipient_count ss) (ss_filter ss), confirmKeyboard)"

definition scheduleDayOptions :: "int list" where "scheduleDayOptions = [0, 1, 2, 3, 6]"

definition back_row :: "button list" where
  "back_row = [plain_btn ''bsched_back'', plain_btn ''broadcast_cancel'']"

definition broadcastScheduleDayKeyboard :: keyboard where
  "broadcastScheduleDayKeyboard =
     [map (\<lambda>offset. plain_btn (''bsched_day_'' @ itoa offset)) scheduleDayOptions, back_row]"

definition broadcastScheduleHourKeyboard :: keyboard where
  "broadcastScheduleHourKeyboard =
     map (\<lambda>h. map (\<lambda>i. plain_btn (''bsched_hour_'' @ itoa (h + i))) [0, 1, 2, 3, 4, 5]) [0, 6, 12, 18] @ [back_row]"

definition broadcastSchedulePreviewKeyboard :: keyboard where
  "broadcastSchedulePreviewKeyboard = [[plain_btn ''broadcast_final_confirm''], back_row]"

section \<open>The draft\<close>

definition HandleBroadcast :: "flow_env \<Rightarrow> int \<Rightarrow> (flow, unit) op" where
  "HandleBroadcast env chatID =
     (if \<not> isAdmin env chatID then returnE ()
      else bindE (startBroadcastSession env chatID) (\<lambda>_. say (Said chatID AskName)))"

definition handleBroadcastName :: "flow_env \<Rightarrow> int \<Rightarrow> string \<Rightarrow> (flow, unit) op" where
  "handleBroadcastName env chatID raw =
     (let name = TrimSpace raw in
      if name = [] then say (Said chatID NameEmpty)
      else if broadcastNameMaxLen < length (runes name) then say (Said chatID NameTooLong)
      else bindE (Now env) (\<lambda>now.
           bindE (putSession chatID ((zero_session now StageAwaitingDraft)\<lparr>ss_name := name\<rparr>)) (\<lambda>_.
           say (Said chatID AskText))))"

definition maxBroadcastLen :: nat where "maxBroadcastLen = MaxTelegramMessageLen * 20"

text \<open>The first part of the text; taking it from an empty list panics.\<close>

definition preview_text :: "string \<Rightarrow> (flow, string) op" where
  "preview_text text =
     (case splitMessage text MaxTelegramMessageLen of
        [] \<Rightarrow> failE [GoPanic ''index out of range'']
      | chunk # _ \<Rightarrow> returnE chunk)"

definition handleBroadcastDraftText :: "flow_env \<Rightarrow> int \<Rightarrow> string \<Rightarrow> (flow, unit) op" where
  "handleBroadcastDraftText env chatID text =
     (if maxBroadcastLen < length (runes text) then
        bindE (clearBroadcastSession chatID) (\<lambda>_. say (Said chatID (TextTooLong (length (runes text)))))
      else
        bindE (getBroadcastSession env chatID) (\<lambda>so.
        let name = (case so of None \<Rightarrow> [] | Some ss \<Rightarrow> ss_name ss) in
        bindE (preview_text text) (\<lambda>chunk.
        bindE (say (Preview chatID chunk)) (\<lambda>_.
        \<lambda>s. case fe_preview env s chatID chunk of
              Some e \<Rightarrow> say (Said chatID (PreviewRefused e)) s
            | None \<Rightarrow>
                bindE (Now env) (\<lambda>now.
                bindE (putSession chatID ((zero_session now StageFiltering)\<lparr>ss_name := name, ss_text := text\<rparr>)) (\<lambda>_.
                say (Shown chatID (FilterPreview name no_filter) (broadcastFilterKeyboard now no_filter)))) s))))"

definition HandleBroadcastDraft :: "flow_env \<Rightarrow> int \<Rightarrow> string \<Rightarrow> (flow, unit) op" where
  "HandleBroadcastDraft env chatID text =
     (if \<not> isAdmin env chatID then clearBroadcastSession chatID
      else if text = [] then say (Said chatID OnlyTexts)
      else if text = ''/cancel'' then
        bindE (clearBroadcastSession chatID) (\<lambda>_. say (Said chatID DraftCanceled))
      else
        bindE (getBroadcastSession env chatID) (\<lambda>so.
        case so of
          None \<Rightarrow> say (Said chatID NoBroadcast)
        | Some ss \<Rightarrow>
            if ss_stage ss = StageAwaitingName then handleBroadcastName env chatID text
            else if ss_stage ss = StageAwaitingDraft then handleBroadcastDraftText env chatID text
            else say (Said chatID NoBroadcast)))"

section \<open>Filters\<close>

definition strip :: "string \<Rightarrow> string \<Rightarrow> string" where
  "strip prefix data = (if has_prefix data prefix then drop (length prefix) data else data)"

definition Atoi :: "string \<Rightarrow> error + int" where
  "Atoi s = (case parse_int64 s of None \<Rightarrow> Inl (errors_new ''strconv.Atoi: invalid syntax'') | Some n \<Rightarrow> Inr n)"

definition plan_filter :: "string \<Rightarrow> broadcast_filter \<Rightarrow> broadcast_filter" where
  "plan_filter v f = f\<lparr>bf_plan_type := if v = bf_plan_type f then [] else v\<rparr>"

definition status_filter :: "string \<Rightarrow> broadcast_filter \<Rightarrow> error + broadcast_filter" where
  "status_filter v f =
     (if v \<noteq> ''active'' \<and> v \<noteq> ''all'' \<and> v \<noteq> ''revoked'' then Inl (errors_new ''unsupported broadcast status filter'')
      else if v = ''active'' \<and> bf_subscription_status f = [] then Inr f
      else if v = bf_subscription_status f then Inr (f\<lparr>bf_subscription_status := []\<rparr>)
      else Inr (f\<lparr>bf_subscription_status := v\<rparr>))"

definition date_filter :: "time \<Rightarrow> string \<Rightarrow> broadcast_filter \<Rightarrow> error + broadcast_filter" where
  "date_filter now v f =
     (if v = [] then Inr (f\<lparr>bf_registered_after := None, bf_registered_before := None\<rparr>)
      else case Atoi v of
        Inl e \<Rightarrow> Inl e
      | Inr days \<Rightarrow> Inr (f\<lparr>bf_registered_after := Some (add_days now (wrap64 (- days))), bf_registered_before := None\<rparr>))"

definition inactive_filter :: "string \<Rightarrow> broadcast_filter \<Rightarrow> error + broadcast_filter" where
  "inactive_filter v f =
     (if v = [] then Inr (f\<lparr>bf_inactive_days := None\<rparr>)
      else case Atoi v of Inl e \<Rightarrow> Inl e | Inr days \<Rightarrow> Inr (f\<lparr>bf_inactive_days := Some days\<rparr>))"

definition paid_filter :: "string \<Rightarrow> broadcast_filter \<Rightarrow> broadcast_filter" where
  "paid_filter v f = f\<lparr>bf_ever_paid := if v = [] then None else Some (v = ''true'')\<rparr>"

definition change_filter :: "time \<Rightarrow> string \<Rightarrow> broadcast_filter \<Rightarrow> error + broadcast_filter" where
  "change_filter now data f =
     (if has_prefix data ''bfilter_plan_'' then Inr (plan_filter (strip ''bfilter_plan_'' data) f)
      else if has_prefix data ''bfilter_status_'' then status_filter (strip ''bfilter_status_'' data) f
      else if has_prefix data ''bfilter_date_'' then date_filter now (strip ''bfilter_date_'' data) f
      else if has_prefix data ''bfilter_inactive_'' then inactive_filter (strip ''bfilter_inactive_'' data) f
      else if has_prefix data ''bfilter_ever_paid_'' then Inr (paid_filter (strip ''bfilter_ever_paid_'' data) f)
      else Inl (errors_new ''unknown filter callback''))"

definition filter_with :: "flow_env \<Rightarrow> int \<Rightarrow> string \<Rightarrow> broadcast_session option \<Rightarrow> (flow, unit) op" where
  "filter_with env chatID data so =
     (case so of
        None \<Rightarrow> say (Said chatID NothingToFilter)
      | Some ss \<Rightarrow>
          if ss_stage ss \<noteq> StageFiltering then say (Said chatID NothingToFilter)
          else bindE (Now env) (\<lambda>now.
            case change_filter now data (ss_filter ss) of
              Inl e \<Rightarrow> failE e
            | Inr f \<Rightarrow>
                bindE (putSession chatID (ss\<lparr>ss_filter := f\<rparr>)) (\<lambda>_.
                bindE (Now env) (\<lambda>later.
                say (Edited chatID (FilterPreview (ss_name ss) f) (broadcastFilterKeyboard later f))))))"

definition handleBroadcastFilter :: "flow_env \<Rightarrow> int \<Rightarrow> string \<Rightarrow> (flow, unit) op" where
  "handleBroadcastFilter env chatID data =
     bindE (getBroadcastSession env chatID) (filter_with env chatID data)"

section \<open>The launch\<close>

text \<open>The claim, under the lock: the session leaves the map and belongs to this handler alone.\<close>

definition claimable :: "broadcast_session \<Rightarrow> bool" where
  "claimable ss \<longleftrightarrow> ss_stage ss = StageConfirming \<or> ss_stage ss = StageScheduling \<and> ss_planned_at ss \<noteq> None"

definition claimSession :: "int \<Rightarrow> (flow, broadcast_session option) op" where
  "claimSession chatID s =
     (case fl_sessions s chatID of
        None \<Rightarrow> (Inr None, s)
      | Some current \<Rightarrow>
          if claimable current then bindE (clearBroadcastSession chatID) (\<lambda>_. returnE (Some current)) s
          else (Inr None, s))"

definition planned_time :: "broadcast_session \<Rightarrow> time option" where
  "planned_time ss = (if ss_stage ss = StageScheduling then ss_planned_at ss else None)"

text \<open>A time outside the years 0 to 9999 has no JSON form.\<close>

definition json_time :: "time option \<Rightarrow> bool" where
  "json_time t = (case t of None \<Rightarrow> True
     | Some x \<Rightarrow> - 62167219200 * second \<le> x \<and> x < 253402300800 * second)"

definition marshal_filter :: "broadcast_filter \<Rightarrow> error + broadcast_filter option" where
  "marshal_filter f =
     (if \<not> IsEmpty f \<and> \<not> (json_time (bf_registered_after f) \<and> json_time (bf_registered_before f))
      then Inl (errors_new ''marshal broadcast filter'') else Inr (Some f))"

definition campaign_of :: "broadcast_session \<Rightarrow> broadcast_filter option \<Rightarrow> broadcast" where
  "campaign_of ss filters =
     zero_broadcast\<lparr>b_name := ss_name ss, b_filters := filters, b_message_text := ss_text ss,
       b_status := BroadcastStatusScheduled, b_planned_at := planned_time ss\<rparr>"

text \<open>An immediate campaign goes to the worker in a goroutine: \<open>Launched\<close>.\<close>

definition launch_now :: "flow_env \<Rightarrow> time option \<Rightarrow> uint \<Rightarrow> (flow, unit) op" where
  "launch_now env planned i =
     (case planned of
        None \<Rightarrow> say (Launched i)
      | Some t \<Rightarrow> bindE (Now env) (\<lambda>now. if \<not> now < t then say (Launched i) else returnE ()))"

definition createCampaign :: "flow_env \<Rightarrow> int \<Rightarrow> broadcast_session \<Rightarrow> (flow, unit) op" where
  "createCampaign env chatID ss =
     (case marshal_filter (ss_filter ss) of
        Inl e \<Rightarrow> bindE (restoreBroadcastSession chatID ss) (\<lambda>_. failE e)
      | Inr filters \<Rightarrow>
          tryE (in_world (CreateBroadcast (campaign_of ss filters))) (\<lambda>r.
          case r of
            Inl e \<Rightarrow>
              bindE (restoreBroadcastSession chatID ss) (\<lambda>_.
              bindE (say (Said chatID (NotSaved e))) (\<lambda>_. failE e))
          | Inr b \<Rightarrow>
              bindE (launch_now env (planned_time ss) (b_id b)) (\<lambda>_.
              say (Said chatID (case planned_time ss of None \<Rightarrow> CampaignQueued (b_id b)
                                 | Some t \<Rightarrow> CampaignScheduled (b_id b) t)))))"

definition startBroadcast :: "flow_env \<Rightarrow> int \<Rightarrow> (flow, unit) op" where
  "startBroadcast env chatID =
     bindE (claimSession chatID) (\<lambda>so.
     case so of None \<Rightarrow> returnE () | Some ss \<Rightarrow> createCampaign env chatID ss)"

section \<open>Confirmation\<close>

text \<open>The first press counts the recipients, the second launches.\<close>

definition count_with :: "flow_env \<Rightarrow> int \<Rightarrow> broadcast_session \<Rightarrow> (flow, unit) op" where
  "count_with env chatID ss =
     bindE (Now env) (\<lambda>now.
     tryE (in_world (GetFilteredTelegramIDCount now (ss_filter ss))) (\<lambda>r.
     case r of
       Inl e \<Rightarrow> bindE (say (Said chatID (NotCounted e))) (\<lambda>_. failE e)
     | Inr n \<Rightarrow>
         let ss' = ss\<lparr>ss_recipient_count := n, ss_stage := StageConfirming\<rparr> in
         bindE (putSession chatID ss') (\<lambda>_.
         say (case broadcastConfirmContent ss' of (m, kb) \<Rightarrow> Shown chatID m kb))))"

definition confirm_with :: "flow_env \<Rightarrow> int \<Rightarrow> broadcast_session option \<Rightarrow> (flow, unit) op" where
  "confirm_with env chatID so =
     (case so of
        None \<Rightarrow> say (Said chatID NothingToConfirm)
      | Some ss \<Rightarrow>
          if ss_stage ss = StageFiltering then count_with env chatID ss
          else if ss_stage ss = StageConfirming then startBroadcast env chatID
          else say (Said chatID NothingToConfirm))"

definition handleBroadcastConfirm :: "flow_env \<Rightarrow> int \<Rightarrow> (flow, unit) op" where
  "handleBroadcastConfirm env chatID = bindE (getBroadcastSession env chatID) (confirm_with env chatID)"

definition final_with :: "flow_env \<Rightarrow> int \<Rightarrow> broadcast_session option \<Rightarrow> (flow, unit) op" where
  "final_with env chatID so =
     (case so of
        None \<Rightarrow> say (Said chatID NothingToConfirm)
      | Some ss \<Rightarrow>
          if ss_stage ss \<in> {StageConfirming, StageScheduling} then startBroadcast env chatID
          else say (Said chatID NothingToConfirm))"

definition handleBroadcastFinalConfirm :: "flow_env \<Rightarrow> int \<Rightarrow> (flow, unit) op" where
  "handleBroadcastFinalConfirm env chatID = bindE (getBroadcastSession env chatID) (final_with env chatID)"

section \<open>Scheduling\<close>

definition moscow :: duration where "moscow = 3 * hour"

text \<open>\<open>time.Date(day.Year(), day.Month(), day.Day(), hour, 0, 0, 0, tz)\<close> of the day \<open>offset\<close> days
  after that of \<open>now\<close>.\<close>

definition moscow_hour :: "time \<Rightarrow> int \<Rightarrow> int \<Rightarrow> time" where
  "moscow_hour now offset h = ((now + moscow) div day + offset) * day + h * hour - moscow"

definition schedule_with :: "int \<Rightarrow> broadcast_session option \<Rightarrow> (flow, unit) op" where
  "schedule_with chatID so =
     (case so of
        None \<Rightarrow> say (Said chatID NothingToSchedule)
      | Some ss \<Rightarrow>
          if ss_stage ss \<noteq> StageConfirming then say (Said chatID NothingToSchedule)
          else bindE (putSession chatID (ss\<lparr>ss_stage := StageScheduling, ss_planned_at := None, ss_schedule_day := - 1\<rparr>)) (\<lambda>_.
               say (Edited chatID (PickDay (Some (ss_name ss))) broadcastScheduleDayKeyboard)))"

definition handleBroadcastSchedule :: "flow_env \<Rightarrow> int \<Rightarrow> (flow, unit) op" where
  "handleBroadcastSchedule env chatID = bindE (getBroadcastSession env chatID) (schedule_with chatID)"

definition day_with :: "int \<Rightarrow> string \<Rightarrow> broadcast_session option \<Rightarrow> (flow, unit) op" where
  "day_with chatID data so =
     (case so of
        None \<Rightarrow> say (Said chatID NothingToSchedule)
      | Some ss \<Rightarrow>
          if ss_stage ss \<noteq> StageScheduling then say (Said chatID NothingToSchedule)
          else case Atoi (strip ''bsched_day_'' data) of
            Inl e \<Rightarrow> failE e
          | Inr offset \<Rightarrow>
              if offset \<notin> set scheduleDayOptions then failE (errors_new ''unsupported schedule day offset'')
              else bindE (putSession chatID (ss\<lparr>ss_schedule_day := offset, ss_planned_at := None\<rparr>)) (\<lambda>_.
                   say (Edited chatID (PickHour offset) broadcastScheduleHourKeyboard)))"

definition handleBroadcastScheduleDay :: "flow_env \<Rightarrow> int \<Rightarrow> string \<Rightarrow> (flow, unit) op" where
  "handleBroadcastScheduleDay env chatID data =
     bindE (getBroadcastSession env chatID) (day_with chatID data)"

definition hour_with :: "flow_env \<Rightarrow> int \<Rightarrow> string \<Rightarrow> broadcast_session option \<Rightarrow> (flow, unit) op" where
  "hour_with env chatID data so =
     (case so of
        None \<Rightarrow> say (Said chatID NothingToSchedule)
      | Some ss \<Rightarrow>
          if ss_stage ss \<noteq> StageScheduling \<or> ss_schedule_day ss < 0 then say (Said chatID NothingToSchedule)
          else case Atoi (strip ''bsched_hour_'' data) of
            Inl e \<Rightarrow> failE e
          | Inr h \<Rightarrow>
              if h < 0 \<or> 23 < h then failE (errors_new ''unsupported schedule hour'')
              else bindE (Now env) (\<lambda>now.
                   let plannedAt = moscow_hour now (ss_schedule_day ss) h in
                   bindE (Now env) (\<lambda>later.
                   if \<not> later < plannedAt then say (Edited chatID TimePassed broadcastScheduleHourKeyboard)
                   else bindE (putSession chatID (ss\<lparr>ss_planned_at := Some plannedAt\<rparr>)) (\<lambda>_.
                        say (Edited chatID (SchedulePreview (ss_name ss) plannedAt (ss_recipient_count ss))
                               broadcastSchedulePreviewKeyboard)))))"

definition handleBroadcastScheduleHour :: "flow_env \<Rightarrow> int \<Rightarrow> string \<Rightarrow> (flow, unit) op" where
  "handleBroadcastScheduleHour env chatID data =
     bindE (getBroadcastSession env chatID) (hour_with env chatID data)"

definition back_with :: "int \<Rightarrow> broadcast_session option \<Rightarrow> (flow, unit) op" where
  "back_with chatID so =
     (case so of
        None \<Rightarrow> returnE ()
      | Some ss \<Rightarrow>
          if ss_stage ss \<noteq> StageScheduling then returnE ()
          else if ss_planned_at ss \<noteq> None \<or> 0 \<le> ss_schedule_day ss then
            bindE (putSession chatID (ss\<lparr>ss_planned_at := None, ss_schedule_day := - 1\<rparr>)) (\<lambda>_.
            say (Edited chatID (PickDay None) broadcastScheduleDayKeyboard))
          else
            let ss' = ss\<lparr>ss_stage := StageConfirming\<rparr> in
            bindE (putSession chatID ss') (\<lambda>_.
            say (case broadcastConfirmContent ss' of (m, kb) \<Rightarrow> Edited chatID m kb)))"

definition handleBroadcastScheduleBack :: "flow_env \<Rightarrow> int \<Rightarrow> (flow, unit) op" where
  "handleBroadcastScheduleBack env chatID = bindE (getBroadcastSession env chatID) (back_with chatID)"

definition filters_with :: "flow_env \<Rightarrow> int \<Rightarrow> broadcast_session option \<Rightarrow> (flow, unit) op" where
  "filters_with env chatID so =
     (case so of
        None \<Rightarrow> say (Said chatID NoActive)
      | Some ss \<Rightarrow>
          if ss_stage ss \<noteq> StageConfirming then say (Said chatID NoActive)
          else bindE (putSession chatID (ss\<lparr>ss_stage := StageFiltering\<rparr>)) (\<lambda>_.
               bindE (Now env) (\<lambda>now.
               say (Edited chatID (FilterPreview (ss_name ss) (ss_filter ss)) (broadcastFilterKeyboard now (ss_filter ss))))))"

definition handleBroadcastBackToFilters :: "flow_env \<Rightarrow> int \<Rightarrow> (flow, unit) op" where
  "handleBroadcastBackToFilters env chatID = bindE (getBroadcastSession env chatID) (filters_with env chatID)"

definition handleBroadcastCancel :: "int \<Rightarrow> (flow, unit) op" where
  "handleBroadcastCancel chatID =
     bindE (clearBroadcastSession chatID) (\<lambda>_. say (Said chatID DraftCanceled))"

section \<open>The history and the card of a campaign\<close>

definition details_button :: "broadcast \<Rightarrow> button" where
  "details_button b = plain_btn (''broadcast_details_'' @ itoa (int (b_id b)))"

definition HandleBroadcastHistory :: "flow_env \<Rightarrow> int \<Rightarrow> (flow, unit) op" where
  "HandleBroadcastHistory env chatID =
     (if \<not> isAdmin env chatID then returnE ()
      else bindE (in_world (ListBroadcasts 10)) (\<lambda>bs.
           if bs = [] then say (Said chatID HistoryEmpty)
           else say (Shown chatID (History bs) (map (\<lambda>b. [details_button b]) bs))))"

definition broadcastControlKeyboard :: "broadcast \<Rightarrow> keyboard" where
  "broadcastControlKeyboard b =
     [[details_button b]]
     @ (if b_status b \<in> {BroadcastStatusScheduled, BroadcastStatusRunning}
        then [[plain_btn (''broadcast_cancel_'' @ itoa (int (b_id b)))]] else [])
     @ (if b_status b \<in> {BroadcastStatusCompleted, BroadcastStatusFailed, BroadcastStatusCanceled}
        then (if 0 < b_failed_count b then [[plain_btn (''broadcast_retry_'' @ itoa (int (b_id b)))]] else [])
             @ (if 0 < b_blocked_count b \<or> 0 < b_unreachable_count b
                then [[plain_btn (''broadcast_deactivate_prompt_'' @ itoa (int (b_id b)))]] else [])
        else [])"

definition sendBroadcastDetails :: "int \<Rightarrow> uint \<Rightarrow> (flow, unit) op" where
  "sendBroadcastDetails chatID i =
     tryE (in_world (GetBroadcast i)) (\<lambda>r.
     case r of
       Inl e \<Rightarrow> say (Said chatID (if errors_is e ErrBroadcastNotFound then DetailsNotFound else DetailsError))
     | Inr b \<Rightarrow> say (Shown chatID (Details b) (broadcastControlKeyboard b)))"

end
