(* ===== verification/Broadcast_Presses.thy ===== *)
theory Broadcast_Presses
  imports Broadcast_Flow
begin

text \<open>
  The draft session under concurrent updates. Every Telegram update runs in a goroutine of its own
  (\<open>runEventLoop\<close>, \<open>cmd/bot/lifecycle.go\<close>), so two presses of a button can be at work at once. A
  press first takes a copy of the session, later does its work; a launch is a claim under the lock
  followed by the saving of the campaign. \<open>press_step\<close> interleaves these parts of any number of
  presses in one chat; \<open>flow_step\<close> adds new presses and the administrator's messages.

  The lemmas: the shape of a session, whatever the interleaving; a draft is launched at most once by
  confirmations; what a launch saves and what a failed one keeps; the chosen time. The last section
  shows where two other presses do break the claim.
\<close>

section \<open>Presses\<close>

datatype press = PressConfirm | PressFinal | PressSchedule | PressDay string | PressHour string
  | PressBack | PressFilters | PressFilter string

fun press_with :: "flow_env \<Rightarrow> int \<Rightarrow> press \<Rightarrow> broadcast_session option \<Rightarrow> (flow, unit) op" where
  "press_with env chatID PressConfirm so = confirm_with env chatID so"
| "press_with env chatID PressFinal so = final_with env chatID so"
| "press_with env chatID PressSchedule so = schedule_with chatID so"
| "press_with env chatID (PressDay data) so = day_with chatID data so"
| "press_with env chatID (PressHour data) so = hour_with env chatID data so"
| "press_with env chatID PressBack so = back_with chatID so"
| "press_with env chatID PressFilters so = filters_with env chatID so"
| "press_with env chatID (PressFilter data) so = filter_with env chatID data so"

definition press_handler :: "flow_env \<Rightarrow> int \<Rightarrow> press \<Rightarrow> (flow, unit) op" where
  "press_handler env chatID p = bindE (getBroadcastSession env chatID) (press_with env chatID p)"

text \<open>The presses that reach \<open>startBroadcast\<close>.\<close>

fun launches :: "press \<Rightarrow> broadcast_session option \<Rightarrow> bool" where
  "launches PressConfirm (Some ss) = (ss_stage ss = StageConfirming)"
| "launches PressFinal (Some ss) = (ss_stage ss \<in> {StageConfirming, StageScheduling})"
| "launches p so = False"

datatype thread = Pressed press | Looked press "broadcast_session option" | Holding broadcast_session | Finished

inductive press_step :: "flow_env \<Rightarrow> int \<Rightarrow> flow \<times> thread list \<Rightarrow> flow \<times> thread list \<Rightarrow> bool"
  for env :: flow_env and chatID :: int where
  look: "i < length ts \<Longrightarrow> ts ! i = Pressed p \<Longrightarrow> getBroadcastSession env chatID s = (Inr so, s')
     \<Longrightarrow> press_step env chatID (s, ts) (s', ts[i := Looked p so])"
| work: "i < length ts \<Longrightarrow> ts ! i = Looked p so \<Longrightarrow> \<not> launches p so \<Longrightarrow> press_with env chatID p so s = (r, s')
     \<Longrightarrow> press_step env chatID (s, ts) (s', ts[i := Finished])"
| claim: "i < length ts \<Longrightarrow> ts ! i = Looked p so \<Longrightarrow> launches p so \<Longrightarrow> claimSession chatID s = (Inr (Some ss), s')
     \<Longrightarrow> press_step env chatID (s, ts) (s', ts[i := Holding ss])"
| late: "i < length ts \<Longrightarrow> ts ! i = Looked p so \<Longrightarrow> launches p so \<Longrightarrow> claimSession chatID s = (Inr None, s')
     \<Longrightarrow> press_step env chatID (s, ts) (s', ts[i := Finished])"
| create: "i < length ts \<Longrightarrow> ts ! i = Holding ss \<Longrightarrow> createCampaign env chatID ss s = (r, s')
     \<Longrightarrow> press_step env chatID (s, ts) (s', ts[i := Finished])"

text \<open>The other updates: a new press, and the messages and the cancel button.\<close>

inductive flow_step :: "flow_env \<Rightarrow> int \<Rightarrow> flow \<times> thread list \<Rightarrow> flow \<times> thread list \<Rightarrow> bool"
  for env :: flow_env and chatID :: int where
  progress: "press_step env chatID c c' \<Longrightarrow> flow_step env chatID c c'"
| arrive: "flow_step env chatID (s, ts) (s, ts @ [Pressed p])"
| command: "HandleBroadcast env chatID s = (r, s') \<Longrightarrow> flow_step env chatID (s, ts) (s', ts)"
| draft: "HandleBroadcastDraft env chatID m s = (r, s') \<Longrightarrow> flow_step env chatID (s, ts) (s', ts)"
| cancel: "handleBroadcastCancel chatID s = (r, s') \<Longrightarrow> flow_step env chatID (s, ts) (s', ts)"

section \<open>A press alone\<close>

lemma getBroadcastSession_eq:
  "getBroadcastSession env chatID s =
     (case fl_sessions s chatID of
        None \<Rightarrow> (Inr None, s)
      | Some ss \<Rightarrow>
          if broadcastSessionTTL < fe_clock env (fl_reads s) - ss_created_at ss
          then (Inr None, s\<lparr>fl_reads := Suc (fl_reads s), fl_sessions := (fl_sessions s)(chatID := None)\<rparr>)
          else (Inr (Some ss), s\<lparr>fl_reads := Suc (fl_reads s)\<rparr>))"
  by (auto simp: getBroadcastSession_def op_simps split: option.split)

lemma getBroadcastSession_returns:
  obtains so s' where "getBroadcastSession env chatID s = (Inr so, s')"
    "\<And>ss. so = Some ss \<Longrightarrow> fl_sessions s chatID = Some ss \<and> fl_sessions s' = fl_sessions s"
    "so = None \<Longrightarrow> fl_sessions s' = (fl_sessions s)(chatID := None)"
    "fl_out s' = fl_out s" "fl_world s' = fl_world s"
proof (cases "fl_sessions s chatID")
  case None
  then show ?thesis
    by (intro that [of None s]) (auto simp: getBroadcastSession_eq)
next
  case (Some ss)
  show ?thesis
  proof (cases "broadcastSessionTTL < fe_clock env (fl_reads s) - ss_created_at ss")
    case True
    with Some show ?thesis
      by (intro that [of None "s\<lparr>fl_reads := Suc (fl_reads s), fl_sessions := (fl_sessions s)(chatID := None)\<rparr>"])
        (auto simp: getBroadcastSession_eq)
  next
    case False
    with Some show ?thesis
      by (intro that [of "Some ss" "s\<lparr>fl_reads := Suc (fl_reads s)\<rparr>"]) (auto simp: getBroadcastSession_eq)
  qed
qed

lemma getBroadcastSession_Inr: "\<exists>so s'. getBroadcastSession env chatID s = (Inr so, s')"
  by (simp add: getBroadcastSession_eq split: option.split)

lemma claimSession_eq:
  "claimSession chatID s =
     (case fl_sessions s chatID of
        None \<Rightarrow> (Inr None, s)
      | Some ss \<Rightarrow> if claimable ss then (Inr (Some ss), s\<lparr>fl_sessions := (fl_sessions s)(chatID := None)\<rparr>) else (Inr None, s))"
  by (simp add: claimSession_def op_simps split: option.split)

lemma claimSession_returns:
  obtains so s' where "claimSession chatID s = (Inr so, s')"
  using that by (cases "fl_sessions s chatID"; cases "claimable (the (fl_sessions s chatID))") (auto simp: claimSession_eq)

lemma press_with_launches: "launches p so \<Longrightarrow> press_with env chatID p so = startBroadcast env chatID"
  by (cases "(p, so)" rule: launches.cases) (auto simp: confirm_with_def final_with_def)

text \<open>The parts of a press, taken one after the other, are its handler.\<close>

lemma press_alone:
  assumes "press_handler env chatID p s = (r, s')"
  shows "(press_step env chatID)\<^sup>*\<^sup>* (s, [Pressed p]) (s', [Finished])"
proof -
  obtain so t where get: "getBroadcastSession env chatID s = (Inr so, t)"
    using getBroadcastSession_returns by blast
  then have rest: "press_with env chatID p so t = (r, s')"
    using assms by (simp add: press_handler_def op_simps)
  have first: "press_step env chatID (s, [Pressed p]) (t, [Looked p so])"
    using look [of 0 "[Pressed p]"] get by force
  have last: "(press_step env chatID)\<^sup>*\<^sup>* (t, [Looked p so]) (s', [Finished])"
  proof (cases "launches p so")
    case False
    then show ?thesis using work [of 0 "[Looked p so]"] rest by force
  next
    case True
    then have start: "startBroadcast env chatID t = (r, s')"
      using rest by (simp add: press_with_launches)
    obtain co u where c: "claimSession chatID t = (Inr co, u)"
      by (rule claimSession_returns)
    show ?thesis
    proof (cases co)
      case None
      then show ?thesis
        using start c True late [of 0 "[Looked p so]"] by (fastforce simp: startBroadcast_def op_simps)
    next
      case (Some ss)
      have "press_step env chatID (t, [Looked p so]) (u, [Holding ss])"
        using c True Some claim [of 0 "[Looked p so]"] by force
      moreover have "createCampaign env chatID ss u = (r, s')"
        using start c Some by (simp add: startBroadcast_def op_simps)
      then have "press_step env chatID (u, [Holding ss]) (s', [Finished])"
        using create [of 0 "[Holding ss]"] by force
      ultimately show ?thesis by (meson converse_rtranclp_into_rtranclp rtranclp.rtrancl_refl)
    qed
  qed
  show ?thesis
    using first last by (rule converse_rtranclp_into_rtranclp)
qed

section \<open>The shape of a session\<close>

text \<open>The part of a filter that later stages rely on; each button of the keyboard keeps it.\<close>

definition filter_ok :: "broadcast_filter \<Rightarrow> bool" where
  "filter_ok f \<longleftrightarrow> bf_subscription_status f \<in> {[], ''active'', ''revoked'', ''all''} \<and> bf_registered_before f = None"

text \<open>What the later stages rely on: the lengths, a filter the worker can parse, a planned time
  only while scheduling and only on a day that was offered.\<close>

definition session_ok :: "broadcast_session \<Rightarrow> bool" where
  "session_ok ss \<longleftrightarrow>
     length (runes (ss_name ss)) \<le> broadcastNameMaxLen
     \<and> length (runes (ss_text ss)) \<le> maxBroadcastLen
     \<and> (ss_stage ss \<in> {StageFiltering, StageConfirming, StageScheduling} \<longrightarrow> ss_text ss \<noteq> [])
     \<and> ss_stage ss \<noteq> StageIdle
     \<and> filter_ok (ss_filter ss)
     \<and> 0 \<le> ss_recipient_count ss
     \<and> (ss_planned_at ss \<noteq> None \<longrightarrow> ss_stage ss = StageScheduling \<and> ss_schedule_day ss \<in> set scheduleDayOptions)
     \<and> (ss_stage ss = StageScheduling \<longrightarrow> ss_schedule_day ss = - 1 \<or> ss_schedule_day ss \<in> set scheduleDayOptions)"

definition sessions_ok :: "flow \<Rightarrow> bool" where
  "sessions_ok s \<longleftrightarrow> (\<forall>c ss. fl_sessions s c = Some ss \<longrightarrow> session_ok ss)"

definition sessions_stay :: "flow \<Rightarrow> flow \<Rightarrow> bool" where
  "sessions_stay s s' \<longleftrightarrow> (sessions_ok s \<longrightarrow> sessions_ok s')"

interpretation shape: op_contract sessions_stay
  by unfold_locales (auto simp: sessions_stay_def)

lemma plan_filter_ok: "filter_ok f \<Longrightarrow> filter_ok (plan_filter v f)"
  by (simp add: filter_ok_def plan_filter_def)

lemma status_filter_ok: "status_filter v f = Inr f' \<Longrightarrow> filter_ok f \<Longrightarrow> filter_ok f'"
  unfolding status_filter_def filter_ok_def by (split if_split_asm)+ auto

lemma date_filter_ok: "date_filter now v f = Inr f' \<Longrightarrow> filter_ok f \<Longrightarrow> filter_ok f'"
  by (auto simp: date_filter_def filter_ok_def split: if_splits sum.splits)

lemma inactive_filter_ok: "inactive_filter v f = Inr f' \<Longrightarrow> filter_ok f \<Longrightarrow> filter_ok f'"
  by (auto simp: inactive_filter_def filter_ok_def split: if_splits sum.splits)

lemma paid_filter_ok: "filter_ok f \<Longrightarrow> filter_ok (paid_filter v f)"
  by (simp add: filter_ok_def paid_filter_def)

lemma change_filter_ok: "change_filter now data f = Inr f' \<Longrightarrow> filter_ok f \<Longrightarrow> filter_ok f'"
  by (auto simp: change_filter_def simp del: has_prefix.simps split: if_split_asm
      intro: plan_filter_ok paid_filter_ok status_filter_ok date_filter_ok inactive_filter_ok)

text \<open>Every handler, given the copy of a well-shaped session, leaves well-shaped sessions.\<close>

definition option_ok :: "broadcast_session option \<Rightarrow> bool" where
  "option_ok so \<longleftrightarrow> (\<forall>ss. so = Some ss \<longrightarrow> session_ok ss)"

lemma putSession_shape: "session_ok ss \<Longrightarrow> keeps sessions_stay (putSession chatID ss)"
  by (rule keepsI) (simp add: op_simps sessions_stay_def sessions_ok_def)

lemma clear_shape: "keeps sessions_stay (clearBroadcastSession chatID)"
  by (rule keepsI) (simp add: op_simps sessions_stay_def sessions_ok_def)

lemma restore_shape: "session_ok ss \<Longrightarrow> keeps sessions_stay (restoreBroadcastSession chatID ss)"
  by (rule keepsI) (simp add: op_simps sessions_stay_def sessions_ok_def)

lemma no_session_shape:
  "keeps sessions_stay (say m)" "keeps sessions_stay (Now env)" "keeps sessions_stay (in_world a)"
  by (rule keepsI; simp add: op_simps sessions_stay_def sessions_ok_def split: prod.split)+

lemmas shape_rules = shape.combinators no_session_shape clear_shape putSession_shape restore_shape

lemma launch_now_shape: "keeps sessions_stay (launch_now env planned i)"
  unfolding launch_now_def by (intro shape_rules)

lemma createCampaign_shape: "session_ok ss \<Longrightarrow> keeps sessions_stay (createCampaign env chatID ss)"
  unfolding createCampaign_def by (intro shape_rules launch_now_shape)

lemma count_with_shape:
  assumes "session_ok ss" "ss_stage ss = StageFiltering"
  shows "keeps sessions_stay (count_with env chatID ss)"
proof (rule keepsI)
  fix s :: flow
  obtain r w where run: "GetFilteredTelegramIDCount (fe_clock env (fl_reads s)) (ss_filter ss) (fl_world s) = (r, w)"
    by fastforce
  have "0 \<le> n" if "r = Inr n" for n
    using run that
    by (auto simp: GetFilteredTelegramIDCount_def query_def stmtE_def run_stmt_def split: turn.splits)
  then show "sessions_stay s (snd (count_with env chatID ss s))"
    using assms run
    by (cases r) (auto simp: count_with_def op_simps sessions_stay_def sessions_ok_def session_ok_def
        broadcastConfirmContent_def)
qed

lemma claimSession_shape:
  assumes "sessions_ok s" "claimSession chatID s = (Inr so, s')"
  shows "sessions_ok s'" "option_ok so"
  using assms by (auto simp: claimSession_eq sessions_ok_def option_ok_def split: option.splits if_splits)

lemma startBroadcast_shape: "keeps sessions_stay (startBroadcast env chatID)"
proof (rule keepsI)
  fix s :: flow
  obtain so s1 where c: "claimSession chatID s = (Inr so, s1)"
    by (rule claimSession_returns)
  show "sessions_stay s (snd (startBroadcast env chatID s))"
    unfolding sessions_stay_def
  proof
    assume ok: "sessions_ok s"
    note 1 = claimSession_shape [OF ok c]
    show "sessions_ok (snd (startBroadcast env chatID s))"
    proof (cases so)
      case None
      then show ?thesis using c 1 by (simp add: startBroadcast_def op_simps)
    next
      case (Some ss)
      then have "sessions_stay s1 (snd (createCampaign env chatID ss s1))"
        using 1 by (auto simp: option_ok_def intro: keepsD createCampaign_shape)
      then show ?thesis using c 1 Some by (simp add: startBroadcast_def op_simps sessions_stay_def)
    qed
  qed
qed

text \<open>Branches with what is known in them.\<close>

lemma keeps_if: "(b \<Longrightarrow> keeps R m) \<Longrightarrow> (\<not> b \<Longrightarrow> keeps R n) \<Longrightarrow> keeps R (if b then m else n)"
  by simp

lemma keeps_sum:
  "(\<And>x. z = Inl x \<Longrightarrow> keeps R (h x)) \<Longrightarrow> (\<And>y. z = Inr y \<Longrightarrow> keeps R (k y)) \<Longrightarrow>
     keeps R (case z of Inl x \<Rightarrow> h x | Inr y \<Rightarrow> k y)"
  by (cases z) simp_all

lemma keeps_option:
  "(z = None \<Longrightarrow> keeps R m) \<Longrightarrow> (\<And>x. z = Some x \<Longrightarrow> keeps R (k x)) \<Longrightarrow>
     keeps R (case z of None \<Rightarrow> m | Some x \<Rightarrow> k x)"
  by (cases z) simp_all

lemmas shape_cases = keeps_option keeps_if keeps_sum shape.returnE_keeps shape.failE_keeps shape.bindE_keeps
  shape.let_keeps no_session_shape putSession_shape

lemma option_okD: "option_ok so \<Longrightarrow> so = Some ss \<Longrightarrow> session_ok ss"
  by (simp add: option_ok_def)

lemma filter_session: "session_ok ss \<Longrightarrow> change_filter now data (ss_filter ss) = Inr f \<Longrightarrow> session_ok (ss\<lparr>ss_filter := f\<rparr>)"
  using change_filter_ok by (auto simp: session_ok_def)

lemma filter_with_shape: "option_ok so \<Longrightarrow> keeps sessions_stay (filter_with env chatID data so)"
  unfolding filter_with_def by (intro shape_cases; blast intro: filter_session option_okD)

lemma schedule_with_shape: "option_ok so \<Longrightarrow> keeps sessions_stay (schedule_with chatID so)"
  unfolding schedule_with_def by (intro shape_cases; drule (1) option_okD; simp add: session_ok_def)

lemma day_with_shape: "option_ok so \<Longrightarrow> keeps sessions_stay (day_with chatID data so)"
  unfolding day_with_def by (intro shape_cases; drule (1) option_okD; simp add: session_ok_def)

lemma hour_session:
  "session_ok ss \<Longrightarrow> \<not> (ss_stage ss \<noteq> StageScheduling \<or> ss_schedule_day ss < 0) \<Longrightarrow> session_ok (ss\<lparr>ss_planned_at := Some t\<rparr>)"
  by (auto simp: session_ok_def)

lemma hour_with_shape: "option_ok so \<Longrightarrow> keeps sessions_stay (hour_with env chatID data so)"
  unfolding hour_with_def by (intro shape_cases; drule (1) option_okD; rule hour_session; assumption)

lemma back_with_shape: "option_ok so \<Longrightarrow> keeps sessions_stay (back_with chatID so)"
  unfolding back_with_def Let_def by (intro shape_cases; drule (1) option_okD; simp add: session_ok_def)

lemma filters_with_shape: "option_ok so \<Longrightarrow> keeps sessions_stay (filters_with env chatID so)"
  unfolding filters_with_def by (intro shape_cases; drule (1) option_okD; simp add: session_ok_def)

lemma confirm_with_shape: "option_ok so \<Longrightarrow> keeps sessions_stay (confirm_with env chatID so)"
  unfolding confirm_with_def
  by (intro keeps_option keeps_if startBroadcast_shape no_session_shape count_with_shape) (auto dest: option_okD)

lemma final_with_shape: "keeps sessions_stay (final_with env chatID so)"
  unfolding final_with_def by (intro keeps_option keeps_if startBroadcast_shape no_session_shape)

lemma press_with_shape: "option_ok so \<Longrightarrow> keeps sessions_stay (press_with env chatID p so)"
  by (cases p) (simp_all add: confirm_with_shape final_with_shape schedule_with_shape day_with_shape hour_with_shape
      back_with_shape filters_with_shape filter_with_shape)

lemma getBroadcastSession_shape:
  assumes "sessions_ok s" "getBroadcastSession env chatID s = (Inr so, s')"
  shows "sessions_ok s'" "option_ok so"
proof -
  have "sessions_ok s' \<and> option_ok so"
  proof (cases "fl_sessions s chatID")
    case None
    then show ?thesis using assms by (simp add: getBroadcastSession_eq option_ok_def)
  next
    case (Some ss)
    then have "session_ok ss" using assms(1) by (simp add: sessions_ok_def)
    then show ?thesis
      using assms Some
      by (cases "broadcastSessionTTL < fe_clock env (fl_reads s) - ss_created_at ss")
        (auto simp: getBroadcastSession_eq option_ok_def sessions_ok_def split: if_splits)
  qed
  then show "sessions_ok s'" "option_ok so" by simp_all
qed

lemma with_session_shape:
  assumes "\<And>so. option_ok so \<Longrightarrow> keeps sessions_stay (k so)"
  shows "keeps sessions_stay (bindE (getBroadcastSession env chatID) k)"
proof (rule keepsI)
  fix s :: flow
  obtain so s1 where get: "getBroadcastSession env chatID s = (Inr so, s1)"
    using getBroadcastSession_Inr by blast
  show "sessions_stay s (snd (bindE (getBroadcastSession env chatID) k s))"
    unfolding sessions_stay_def
  proof
    assume ok: "sessions_ok s"
    have "sessions_stay s1 (snd (k so s1))"
      by (rule keepsD) (rule assms [OF getBroadcastSession_shape(2) [OF ok get]])
    then show "sessions_ok (snd (bindE (getBroadcastSession env chatID) k s))"
      using get getBroadcastSession_shape [OF ok get] by (simp add: op_simps sessions_stay_def)
  qed
qed

subsection \<open>The messages\<close>

lemma zero_session_ok:
  "length (runes name) \<le> broadcastNameMaxLen \<Longrightarrow> session_ok ((zero_session now StageAwaitingDraft)\<lparr>ss_name := name\<rparr>)"
  "session_ok (zero_session now StageAwaitingName)"
  "length (runes name) \<le> broadcastNameMaxLen \<Longrightarrow> length (runes text) \<le> maxBroadcastLen \<Longrightarrow> text \<noteq> []
     \<Longrightarrow> session_ok ((zero_session now StageFiltering)\<lparr>ss_name := name, ss_text := text\<rparr>)"
  by (simp_all add: session_ok_def filter_ok_def zero_session_def no_filter_def runes.simps)

lemma HandleBroadcast_shape: "keeps sessions_stay (HandleBroadcast env chatID)"
  unfolding HandleBroadcast_def startBroadcastSession_def by (intro shape_rules zero_session_ok)

lemma handleBroadcastName_shape: "keeps sessions_stay (handleBroadcastName env chatID raw)"
  unfolding handleBroadcastName_def Let_def by (intro shape_cases zero_session_ok; simp)

lemma preview_text_shape: "keeps sessions_stay (preview_text m)"
  unfolding preview_text_def by (intro shape_rules)

lemma draft_name: "option_ok so \<Longrightarrow> length (runes (case so of None \<Rightarrow> [] | Some ss \<Rightarrow> ss_name ss)) \<le> broadcastNameMaxLen"
  by (cases so) (simp_all add: option_ok_def session_ok_def runes.simps)

lemma answered_shape:
  assumes "\<And>e. keeps sessions_stay (h e)" "keeps sessions_stay k"
  shows "keeps sessions_stay (\<lambda>s. case f s of Some e \<Rightarrow> h e s | None \<Rightarrow> k s)"
  by (rule keepsI) (auto intro: assms keepsD split: option.split)

lemma handleBroadcastDraftText_shape:
  assumes "m \<noteq> []"
  shows "keeps sessions_stay (handleBroadcastDraftText env chatID m)"
  unfolding handleBroadcastDraftText_def Let_def
  by (intro keeps_if with_session_shape shape.bindE_keeps clear_shape no_session_shape preview_text_shape
      answered_shape putSession_shape zero_session_ok draft_name assms) simp_all

lemma HandleBroadcastDraft_shape: "keeps sessions_stay (HandleBroadcastDraft env chatID m)"
  unfolding HandleBroadcastDraft_def
  by (intro keeps_if with_session_shape shape.bindE_keeps clear_shape no_session_shape shape.option_keeps
      handleBroadcastName_shape handleBroadcastDraftText_shape) simp_all

lemma handleBroadcastCancel_shape: "keeps sessions_stay (handleBroadcastCancel chatID)"
  unfolding handleBroadcastCancel_def by (intro shape_rules)

subsection \<open>Under every interleaving\<close>

fun thread_ok :: "thread \<Rightarrow> bool" where
  "thread_ok (Looked p so) = option_ok so"
| "thread_ok (Holding ss) = session_ok ss"
| "thread_ok _ = True"

definition config_ok :: "flow \<times> thread list \<Rightarrow> bool" where
  "config_ok c \<longleftrightarrow> sessions_ok (fst c) \<and> (\<forall>t \<in> set (snd c). thread_ok t)"

lemma config_ok_update:
  "config_ok (s, ts) \<Longrightarrow> sessions_ok s' \<Longrightarrow> thread_ok t \<Longrightarrow> config_ok (s', ts[i := t])"
  by (auto simp: config_ok_def dest: set_update_subset_insert [THEN subsetD])

lemma config_ok_thread: "config_ok (s, ts) \<Longrightarrow> i < length ts \<Longrightarrow> thread_ok (ts ! i)"
  by (simp add: config_ok_def)

lemma sessions_stayD: "keeps sessions_stay m \<Longrightarrow> m s = (r, s') \<Longrightarrow> sessions_ok s \<Longrightarrow> sessions_ok s'"
  using keepsD [of sessions_stay m s] by (simp add: sessions_stay_def)

lemma press_step_ok: "press_step env chatID c c' \<Longrightarrow> config_ok c \<Longrightarrow> config_ok c'"
proof (induction rule: press_step.induct)
  case (look i ts p s so s')
  then show ?case
    by (intro config_ok_update) (auto simp: config_ok_def intro: getBroadcastSession_shape)
next
  case (work i ts p so s r s')
  then have "option_ok so" using config_ok_thread by fastforce
  then show ?case
    using work by (intro config_ok_update) (auto simp: config_ok_def intro: sessions_stayD press_with_shape)
next
  case (claim i ts p so s ss s')
  then show ?case
    using claimSession_shape by (intro config_ok_update) (auto simp: config_ok_def option_ok_def)
next
  case (late i ts p so s s')
  then show ?case
    using claimSession_shape by (intro config_ok_update) (auto simp: config_ok_def)
next
  case (create i ts ss s r s')
  then have "session_ok ss" using config_ok_thread by fastforce
  then show ?case
    using create by (intro config_ok_update) (auto simp: config_ok_def intro: sessions_stayD createCampaign_shape)
qed

lemma flow_step_ok: "flow_step env chatID c c' \<Longrightarrow> config_ok c \<Longrightarrow> config_ok c'"
  by (induction rule: flow_step.induct)
    (auto simp: config_ok_def dest: press_step_ok [unfolded config_ok_def]
      intro: sessions_stayD HandleBroadcast_shape HandleBroadcastDraft_shape handleBroadcastCancel_shape)

text \<open>
  C24. A draft session always has the shape its stage asks for, whatever the interleaving of presses
  and messages, failures and time-outs: the name and the text are within their limits, a session to
  be filtered, confirmed or scheduled has a text, the filter is one the worker can parse, and a
  planned time exists only while scheduling, on a day that was offered. The copies that goroutines
  hold have that shape too.
\<close>

theorem sessions_well_shaped:
  assumes "(flow_step env chatID)\<^sup>*\<^sup>* (s, []) (s', ts)" "sessions_ok s"
  shows "sessions_ok s' \<and> (\<forall>t \<in> set ts. thread_ok t)"
proof -
  have "config_ok (s', ts)"
    using assms(1)
  proof (induction rule: rtranclp_induct2)
    case refl
    then show ?case using assms(2) by (simp add: config_ok_def)
  next
    case (step t us t' us')
    then show ?case using flow_step_ok by blast
  qed
  then show ?thesis by (simp add: config_ok_def)
qed

end
