(* ===== verification/Broadcast_Launch.thy ===== *)
theory Broadcast_Launch
  imports Broadcast_Presses
begin

text \<open>
  The launch of a draft (\<open>startBroadcast\<close>, \<open>internal/bot/broadcast_flow.go\<close>): what it saves, what
  a failed one keeps, how often it can happen, and when a scheduled campaign is due.
\<close>

section \<open>Announcements\<close>

text \<open>The administrator is told of every campaign that was saved; the count of these messages is the
  count of the saved campaigns of the chat.\<close>

fun announcement :: "reply \<Rightarrow> bool" where
  "announcement (Said c (CampaignScheduled i t)) = True"
| "announcement (Said c (CampaignQueued i)) = True"
| "announcement m = False"

definition announced :: "flow \<Rightarrow> nat" where
  "announced s = length (filter announcement (fl_out s))"

lemma launch_now_run:
  obtains s' where "launch_now env planned i s = (Inr (), s')" "announced s' = announced s"
    "fl_sessions s' = fl_sessions s" "fl_world s' = fl_world s"
proof -
  have "\<exists>s'. launch_now env planned i s = (Inr (), s') \<and> announced s' = announced s
      \<and> fl_sessions s' = fl_sessions s \<and> fl_world s' = fl_world s"
    by (cases planned) (simp_all add: launch_now_def op_simps announced_def)
  then show ?thesis using that by blast
qed

text \<open>What saving a claimed session does: a row and one announcement, or the session back.\<close>

lemma createCampaign_run:
  assumes "createCampaign env chatID ss s = (r, s')"
  shows "(case r of
      Inr _ \<Rightarrow> announced s' = Suc (announced s) \<and> fl_sessions s' = fl_sessions s
        \<and> (\<exists>b. CreateBroadcast (campaign_of ss (Some (ss_filter ss))) (fl_world s) = (Inr b, fl_world s'))
    | Inl _ \<Rightarrow> announced s' = announced s
        \<and> fl_sessions s' = (if fl_sessions s chatID = None then (fl_sessions s)(chatID \<mapsto> ss) else fl_sessions s))"
proof (cases "marshal_filter (ss_filter ss)")
  case (Inl e)
  then show ?thesis
    using assms by (auto simp: createCampaign_def op_simps announced_def split: if_splits)
next
  case (Inr filters)
  then have f: "filters = Some (ss_filter ss)"
    by (auto simp: marshal_filter_def split: if_splits)
  obtain q w where c: "CreateBroadcast (campaign_of ss filters) (fl_world s) = (q, w)"
    by fastforce
  show ?thesis
  proof (cases q)
    case (Inl e)
    then show ?thesis
      using assms Inr c by (auto simp: createCampaign_def op_simps announced_def split: if_splits)
  next
    case (Inr b)
    obtain t where l: "launch_now env (planned_time ss) (b_id b) (s\<lparr>fl_world := w\<rparr>) = (Inr (), t)"
      "announced t = announced (s\<lparr>fl_world := w\<rparr>)" "fl_sessions t = fl_sessions s" "fl_world t = w"
      by (rule launch_now_run [of env "planned_time ss" "b_id b" "s\<lparr>fl_world := w\<rparr>"]) simp
    have "createCampaign env chatID ss s = say (Said chatID (case planned_time ss of None \<Rightarrow> CampaignQueued (b_id b)
                                 | Some u \<Rightarrow> CampaignScheduled (b_id b) u)) t"
      using \<open>marshal_filter (ss_filter ss) = Inr filters\<close> c Inr l(1) by (simp add: createCampaign_def op_simps)
    then show ?thesis
      using assms l c Inr f by (cases "planned_time ss") (auto simp: op_simps announced_def)
  qed
qed

section \<open>At most one launch\<close>

text \<open>The right to launch is one token: in the map as a claimable session, in the hands of one
  goroutine, or spent on an announcement.\<close>

fun holds :: "thread \<Rightarrow> nat" where
  "holds (Holding ss) = 1"
| "holds _ = 0"

definition tokens :: "int \<Rightarrow> flow \<times> thread list \<Rightarrow> nat" where
  "tokens chatID c = announced (fst c) + sum_list (map holds (snd c))
     + (if fl_sessions (fst c) chatID = None then 0 else 1)"

lemma sum_list_replaced:
  fixes f :: "'a \<Rightarrow> nat"
  assumes "i < length ts"
  shows "sum_list (map f (ts[i := t])) + f (ts ! i) = sum_list (map f ts) + f t"
  using assms
proof (induction ts arbitrary: i)
  case Nil
  then show ?case by simp
next
  case (Cons u ts)
  then show ?case by (cases i) (auto simp: add.assoc add.left_commute)
qed

fun confirms :: "thread \<Rightarrow> bool" where
  "confirms (Pressed p) = (p = PressFinal)"
| "confirms (Looked p so) = (p = PressFinal)"
| "confirms t = True"

lemma final_without_launch:
  "\<not> launches PressFinal so \<Longrightarrow> final_with env chatID so = say (Said chatID NothingToConfirm)"
  by (cases so) (auto simp: final_with_def)

lemma confirm_step:
  assumes "press_step env chatID c c'" "\<forall>t \<in> set (snd c). confirms t"
  shows "tokens chatID c' \<le> tokens chatID c \<and> (\<forall>t \<in> set (snd c'). confirms t)"
  using assms
proof (induction rule: press_step.induct)
  case (look i ts p s so s')
  have "p = PressFinal" using look nth_mem [OF look(1)] by fastforce
  moreover have "announced s' = announced s \<and> (fl_sessions s' chatID = None \<or> fl_sessions s' = fl_sessions s)"
    using look(3) by (auto simp: getBroadcastSession_eq announced_def split: option.splits if_splits)
  ultimately show ?case
    using look sum_list_replaced [OF look(1), of holds "Looked p so"]
    by (auto simp: tokens_def dest!: set_update_subset_insert [THEN subsetD])
next
  case (work i ts p so s r s')
  then have p: "p = PressFinal" using nth_mem [OF work(1)] by fastforce
  then have "announced s' = announced s \<and> fl_sessions s' = fl_sessions s"
    using work(3,4) by (auto simp: final_without_launch op_simps announced_def)
  then show ?case
    using work sum_list_replaced [OF work(1), of holds Finished]
    by (auto simp: tokens_def dest!: set_update_subset_insert [THEN subsetD])
next
  case (claim i ts p so s ss s')
  then have "fl_sessions s chatID \<noteq> None \<and> fl_sessions s' chatID = None \<and> announced s' = announced s"
    by (auto simp: claimSession_eq announced_def split: option.splits if_splits)
  then show ?case
    using claim sum_list_replaced [OF claim(1), of holds "Holding ss"]
    by (auto simp: tokens_def dest!: set_update_subset_insert [THEN subsetD])
next
  case (late i ts p so s s')
  then have "s' = s"
    by (auto simp: claimSession_eq split: option.splits if_splits)
  then show ?case
    using late sum_list_replaced [OF late(1), of holds Finished]
    by (auto simp: tokens_def dest!: set_update_subset_insert [THEN subsetD])
next
  case (create i ts ss s r s')
  note run = createCampaign_run [OF create(3)]
  show ?case
    using create run sum_list_replaced [OF create(1), of holds Finished]
    by (cases r) (auto simp: tokens_def split: if_splits dest!: set_update_subset_insert [THEN subsetD])
qed

lemma confirm_steps:
  assumes "(press_step env chatID)\<^sup>*\<^sup>* c c'" "\<forall>t \<in> set (snd c). confirms t"
  shows "tokens chatID c' \<le> tokens chatID c \<and> (\<forall>t \<in> set (snd c'). confirms t)"
  using assms
proof (induction rule: rtranclp_induct)
  case base
  then show ?case by simp
next
  case (step d e)
  then have d: "tokens chatID d \<le> tokens chatID c" "\<forall>t \<in> set (snd d). confirms t"
    by simp_all
  then show ?case
    using confirm_step [OF step(2) d(2)] by (simp add: le_trans)
qed

text \<open>
  C25. However many times the confirmation of a draft is pressed, and however the goroutines of
  these presses interleave with the failures of the database, the draft becomes at most one
  campaign; once it has, no session is left to launch.
\<close>

theorem confirmed_at_most_once:
  assumes "(press_step env chatID)\<^sup>*\<^sup>* (s, replicate n (Pressed PressFinal)) (s', ts)"
  shows "announced s' \<le> announced s + 1 \<and> (announced s' = announced s + 1 \<longrightarrow> fl_sessions s' chatID = None)"
proof -
  have "tokens chatID (s', ts) \<le> tokens chatID (s, replicate n (Pressed PressFinal))"
    using confirm_steps [OF assms] by simp
  moreover have "sum_list (map holds (replicate n (Pressed PressFinal))) = 0"
    by (simp add: sum_list_replicate)
  ultimately show ?thesis
    by (auto simp: tokens_def sum_list_replicate split: if_splits)
qed

section \<open>What a launch saves\<close>

lemma CreateBroadcast_run:
  assumes "CreateBroadcast b w = (Inr b', w')"
  shows "\<exists>i t. b' = b\<lparr>b_id := i, b_created_at := t\<rparr> \<and> b' \<in> set (broadcasts (db w'))"
proof -
  have "insert_broadcast b (db (step_other w)) = (b', db w')"
    using assms by (auto simp: CreateBroadcast_def execE_def stmtE_def run_stmt_def split: turn.splits prod.splits)
  then have "b' = fst (insert_broadcast b (db (step_other w)))" "db w' = snd (insert_broadcast b (db (step_other w)))"
    by simp_all
  then show ?thesis
    by (auto simp: insert_broadcast_def Let_def)
qed


section \<open>The chosen time\<close>

lemma moscow_hour_bounds:
  assumes "0 \<le> offset" "offset \<le> 6" "0 \<le> h" "h \<le> 23"
  shows "moscow_hour now offset h < now + 7 * day"
    "(moscow_hour now offset h + moscow) mod hour = 0"
    "(moscow_hour now offset h + moscow) div day = (now + moscow) div day + offset"
proof -
  have day: "day = 24 * hour" "0 < hour" by (simp_all add: duration_defs)
  define q where "q = (now + moscow) div day"
  have q: "q * day \<le> now + moscow"
    unfolding q_def using div_mult_mod_eq [of "now + moscow" day] pos_mod_sign [of day "now + moscow"] day by linarith
  have local: "moscow_hour now offset h + moscow = (q + offset) * day + h * hour"
    by (simp add: moscow_hour_def q_def)
  have "h * hour \<le> 23 * hour"
    using assms day by (intro mult_right_mono) simp_all
  then have "h * hour < day" unfolding day(1) using day(2) by linarith
  moreover have "0 \<le> h * hour" using assms day by simp
  ultimately have h: "0 \<le> h * hour" "h * hour < day" by simp_all
  have "offset * day \<le> 6 * day"
    using assms(2) day by (intro mult_right_mono) simp_all
  then have "(q + offset) * day \<le> now + moscow + 6 * day"
    unfolding distrib_right using q by linarith
  then show "moscow_hour now offset h < now + 7 * day"
    using local h by (simp add: algebra_simps)
  show "(moscow_hour now offset h + moscow) mod hour = 0"
    unfolding local by (simp add: mod_eq_0_iff_dvd day(1))
  show "(moscow_hour now offset h + moscow) div day = (now + moscow) div day + offset"
    unfolding local q_def [symmetric] using h day by (simp add: div_mult_self3 div_pos_pos_trivial)
qed

text \<open>
  C27. The planned time a press of an hour button stores is in the future, at most a week ahead, on
  the full hour the button names, Moscow time, of the day that was chosen counted from Moscow's
  today; an hour that has passed is refused and leaves the session as it was.
\<close>

theorem chosen_hour_is_ahead:
  assumes "hour_with env chatID data (Some ss) s = (r, s')" "ss_stage ss = StageScheduling"
    "ss_schedule_day ss \<in> set scheduleDayOptions" "Atoi (strip ''bsched_hour_'' data) = Inr h"
    "0 \<le> h" "h \<le> 23"
  shows "let now = fe_clock env (fl_reads s); t = moscow_hour now (ss_schedule_day ss) h
    in t < now + 7 * day \<and> (t + moscow) mod hour = 0
     \<and> (t + moscow) div day = (now + moscow) div day + ss_schedule_day ss
     \<and> ((t + moscow) mod day) div hour = h
     \<and> (if fe_clock env (Suc (fl_reads s)) < t
        then fl_sessions s' = (fl_sessions s)(chatID \<mapsto> ss\<lparr>ss_planned_at := Some t\<rparr>)
        else fl_sessions s' = fl_sessions s)"
proof -
  have offset: "0 \<le> ss_schedule_day ss" "ss_schedule_day ss \<le> 6"
    using assms(3) by (auto simp: scheduleDayOptions_def)
  let ?t = "moscow_hour (fe_clock env (fl_reads s)) (ss_schedule_day ss) h"
  have "(?t + moscow) mod day = h * hour"
  proof -
    have "0 \<le> h * hour" "h * hour < day"
      using assms(5,6) by (simp_all add: duration_defs)
    then show ?thesis by (simp add: moscow_hour_def)
  qed
  then have "((?t + moscow) mod day) div hour = h"
    by (simp add: duration_defs)
  then show ?thesis
    using assms offset moscow_hour_bounds [OF offset assms(5,6), of "fe_clock env (fl_reads s)"]
    by (auto simp: hour_with_def op_simps Let_def split: if_splits)
qed

end
