(* ===== verification/Broadcast_Callbacks.thy ===== *)
theory Broadcast_Callbacks
  imports Broadcast_Launch Deactivation
begin

text \<open>
  Where the updates of Telegram go: \<open>HandleUpdate\<close> of \<open>internal/bot/handler.go\<close> and the broadcast
  cases of \<open>HandleCallback\<close>, \<open>internal/bot/callback.go\<close>, with \<open>broadcast_callbacks.go\<close>.

  The handlers of the menus and of the other commands are parameters here (\<open>ce_menu\<close>,
  \<open>ce_command\<close>), as is the answer of the rate limiter. A callback without a message or a sender is
  turned away before the cases and is not modelled.
\<close>

section \<open>The buttons\<close>

record callback_env = flow_env +
  ce_svc :: svc_env
  ce_order :: "int list \<Rightarrow> int list"
  ce_menu :: "string \<Rightarrow> int \<Rightarrow> (flow, unit) op"
  ce_product :: "uint \<Rightarrow> int \<Rightarrow> (flow, unit) op"
  ce_command :: "string \<Rightarrow> int \<Rightarrow> (flow, unit) op"
  ce_allowed :: "flow \<Rightarrow> int \<Rightarrow> bool"

definition menu_callbacks :: "string list" where
  "menu_callbacks = [''create_subscription'', ''qr_code'', ''admin_stats'', ''admin_lastreg'', ''menu_subscription'',
     ''back_to_start'', ''buy_premium_list'', ''menu_donate'', ''back_to_subscription'', ''menu_help'',
     ''back_to_documents'', ''menu_documents'', ''share_invite'', ''menu_privacy'', ''menu_terms'', ''menu_support'',
     ''qr_telegram'', ''qr_web'', ''back_to_invite'']"

definition parseBroadcastCallbackID :: "string \<Rightarrow> string \<Rightarrow> error + uint" where
  "parseBroadcastCallbackID data prefix =
     (case parse_uint64 (strip prefix data) of
        None \<Rightarrow> Inl (errors_new ''parse broadcast callback'')
      | Some n \<Rightarrow> if n = 0 then Inl (errors_new ''invalid broadcast id'') else Inr n)"

text \<open>The guard of the administrator's buttons; either way the button is acknowledged.\<close>

definition admin_button :: "callback_env \<Rightarrow> int \<Rightarrow> (flow, unit) op \<Rightarrow> (flow, unit) op" where
  "admin_button env chatID m =
     (if isAdmin (flow_env.truncate env) chatID then bindE m (\<lambda>_. say Answered) else say Answered)"

definition with_id :: "string \<Rightarrow> string \<Rightarrow> (uint \<Rightarrow> (flow, 'a) op) \<Rightarrow> (flow, 'a) op" where
  "with_id data prefix m = (case parseBroadcastCallbackID data prefix of Inl e \<Rightarrow> failE e | Inr i \<Rightarrow> m i)"

definition cancel_button :: "callback_env \<Rightarrow> int \<Rightarrow> uint \<Rightarrow> (flow, unit) op" where
  "cancel_button env chatID i =
     bindE (in_world (Cancel (fe_worker env) i)) (\<lambda>canceled.
     say (Said chatID (if canceled then CampaignCanceled i else AlreadyOver i)))"

definition retry_button :: "callback_env \<Rightarrow> int \<Rightarrow> uint \<Rightarrow> (flow, unit) op" where
  "retry_button env chatID i =
     bindE (in_world (RetryFailed (fe_worker env) i)) (\<lambda>_. say (Said chatID (RetryQueued i)))"

definition prompt_keyboard :: "broadcast \<Rightarrow> keyboard" where
  "prompt_keyboard b =
     [[plain_btn (''broadcast_deactivate_exec_'' @ itoa (int (b_id b))), details_button b]]"

definition prompt_button :: "int \<Rightarrow> uint \<Rightarrow> (flow, bool) op" where
  "prompt_button chatID i =
     tryE (in_world (GetBroadcast i)) (\<lambda>r.
     case r of
       Inl e \<Rightarrow> bindE (say (Said chatID DetailsNotFound)) (\<lambda>_. returnE False)
     | Inr b \<Rightarrow> bindE (say (Shown chatID (ConfirmDeactivation b) (prompt_keyboard b))) (\<lambda>_. returnE True))"

definition exec_button :: "callback_env \<Rightarrow> int \<Rightarrow> uint \<Rightarrow> (flow, bool) op" where
  "exec_button env chatID i =
     bindE (Now (flow_env.truncate env)) (\<lambda>now.
     tryE (in_world (DeactivateBlockedBroadcastRecipients (ce_svc env) (ce_order env) now i)) (\<lambda>r.
     case r of
       Inl e \<Rightarrow> bindE (say (Said chatID (DeactivationFailed i e))) (\<lambda>_. returnE False)
     | Inr (d, errs) \<Rightarrow>
         if errs = [] then bindE (say (Said chatID (Deactivated (dr_revoked d)))) (\<lambda>_. returnE True)
         else if dr_revoked d = 0 then bindE (say (Said chatID (DeactivationFailed i (concat errs)))) (\<lambda>_. returnE False)
         else bindE (say (Said chatID (DeactivatedPartly i (dr_revoked d) (dr_targets d) (dr_failed d) (concat errs))))
                (\<lambda>_. returnE False)))"

text \<open>Some cases return before the acknowledgement at the end of the function.\<close>

definition answered_if :: "(flow, bool) op \<Rightarrow> (flow, unit) op" where
  "answered_if m = bindE m (\<lambda>b. if b then say Answered else returnE ())"

definition guarded :: "callback_env \<Rightarrow> int \<Rightarrow> (flow, bool) op \<Rightarrow> (flow, unit) op" where
  "guarded env chatID m = (if isAdmin (flow_env.truncate env) chatID then answered_if m else say Answered)"

definition details_case :: "int \<Rightarrow> string \<Rightarrow> (flow, bool) op" where
  "details_case chatID data =
     (case parseBroadcastCallbackID data ''broadcast_details_'' of
        Inl e \<Rightarrow> returnE False
      | Inr i \<Rightarrow> bindE (sendBroadcastDetails chatID i) (\<lambda>_. returnE True))"

text \<open>The cases of the draft.\<close>

definition draft_callback :: "callback_env \<Rightarrow> int \<Rightarrow> string \<Rightarrow> (flow, unit) op option" where
  "draft_callback env chatID data =
     (let fe = flow_env.truncate env in
      if data = ''broadcast_confirm'' then Some (handleBroadcastConfirm fe chatID)
      else if data = ''broadcast_cancel'' then Some (handleBroadcastCancel chatID)
      else if data = ''broadcast_final_confirm'' then Some (handleBroadcastFinalConfirm fe chatID)
      else if data = ''broadcast_back_to_filters'' then Some (handleBroadcastBackToFilters fe chatID)
      else if data = ''broadcast_schedule'' then Some (handleBroadcastSchedule fe chatID)
      else if has_prefix data ''bsched_day_'' then Some (handleBroadcastScheduleDay fe chatID data)
      else if has_prefix data ''bsched_hour_'' then Some (handleBroadcastScheduleHour fe chatID data)
      else if data = ''bsched_back'' then Some (handleBroadcastScheduleBack fe chatID)
      else if has_prefix data ''bfilter_'' then Some (handleBroadcastFilter fe chatID data)
      else None)"

text \<open>The cases of a saved campaign.\<close>

definition campaign_callback :: "callback_env \<Rightarrow> int \<Rightarrow> string \<Rightarrow> (flow, unit) op" where
  "campaign_callback env chatID data =
     (if has_prefix data ''broadcast_cancel_'' then
        admin_button env chatID (with_id data ''broadcast_cancel_'' (cancel_button env chatID))
      else if has_prefix data ''broadcast_retry_'' then
        admin_button env chatID (with_id data ''broadcast_retry_'' (retry_button env chatID))
      else if has_prefix data ''broadcast_details_'' then guarded env chatID (details_case chatID data)
      else if has_prefix data ''broadcast_deactivate_prompt_'' then
        guarded env chatID (with_id data ''broadcast_deactivate_prompt_'' (prompt_button chatID))
      else if has_prefix data ''broadcast_deactivate_exec_'' then
        guarded env chatID (with_id data ''broadcast_deactivate_exec_'' (exec_button env chatID))
      else say Answered)"

definition product_case :: "callback_env \<Rightarrow> int \<Rightarrow> string \<Rightarrow> (flow, unit) op" where
  "product_case env chatID data =
     (case parse_uint64 (strip ''buy_product_'' data) of
        None \<Rightarrow> returnE ()
      | Some i \<Rightarrow> if i = 0 then returnE () else bindE (ce_product env i chatID) (\<lambda>_. say Answered))"

definition HandleCallback :: "callback_env \<Rightarrow> int \<Rightarrow> string \<Rightarrow> (flow, unit) op" where
  "HandleCallback env chatID data =
     (if data \<in> set menu_callbacks then bindE (ce_menu env data chatID) (\<lambda>_. say Answered)
      else if has_prefix data ''buy_product_'' then product_case env chatID data
      else case draft_callback env chatID data of
        Some m \<Rightarrow> admin_button env chatID m
      | None \<Rightarrow> campaign_callback env chatID data)"

section \<open>The updates\<close>

text \<open>A message with its command, when Telegram marked one, or a press of a button.\<close>

datatype update = Message int "string option" string | Callback int string

fun update_chat :: "update \<Rightarrow> int" where
  "update_chat (Message chatID c m) = chatID"
| "update_chat (Callback chatID data) = chatID"

definition other_commands :: "string list" where
  "other_commands = [''start'', ''help'', ''invite'', ''mysub'', ''del'', ''setplan'', ''send'', ''refstats'', ''v'', ''lastreg'']"

definition run_command :: "callback_env \<Rightarrow> int \<Rightarrow> string \<Rightarrow> (flow, unit) op" where
  "run_command env chatID c =
     (if c = ''broadcast'' then HandleBroadcast (flow_env.truncate env) chatID
      else if c = ''broadcasts'' then HandleBroadcastHistory (flow_env.truncate env) chatID
      else if c \<in> set other_commands then ce_command env c chatID
      else say (Said chatID UnknownCommand))"

definition draft_active :: "callback_env \<Rightarrow> int \<Rightarrow> (flow, bool) op" where
  "draft_active env chatID =
     (if isAdmin (flow_env.truncate env) chatID then broadcastSessionActive (flow_env.truncate env) chatID
      else returnE False)"

fun dispatch :: "callback_env \<Rightarrow> update \<Rightarrow> (flow, unit) op" where
  "dispatch env (Message chatID (Some c) m) =
     bindE (draft_active env chatID) (\<lambda>active.
     bindE (if active \<and> c \<noteq> ''broadcast'' then clearBroadcastSession chatID else returnE ()) (\<lambda>_.
     run_command env chatID c))"
| "dispatch env (Message chatID None m) =
     bindE (draft_active env chatID) (\<lambda>active.
     if active then HandleBroadcastDraft (flow_env.truncate env) chatID m else ce_command env ''help'' chatID)"
| "dispatch env (Callback chatID data) = HandleCallback env chatID data"

definition HandleUpdate :: "callback_env \<Rightarrow> update \<Rightarrow> (flow, unit) op" where
  "HandleUpdate env u s =
     (let chatID = update_chat u in
      if chatID \<noteq> 0 \<and> \<not> isAdmin (flow_env.truncate env) chatID \<and> \<not> ce_allowed env s chatID
      then say (Said chatID TooManyRequests) s
      else tryE (dispatch env u) (\<lambda>_. returnE ()) s)"

section \<open>The administrator's guard\<close>

definition broadcast_button :: "string \<Rightarrow> bool" where
  "broadcast_button data \<longleftrightarrow>
     has_prefix data ''broadcast_'' \<or> has_prefix data ''bsched_'' \<or> has_prefix data ''bfilter_''"

lemma broadcast_button_routed: "broadcast_button data \<Longrightarrow> data \<notin> set menu_callbacks \<and> \<not> has_prefix data ''buy_product_''"
proof -
  assume b: "broadcast_button data"
  have "\<forall>x \<in> set menu_callbacks. \<not> broadcast_button x"
    by (simp add: menu_callbacks_def broadcast_button_def)
  moreover have "\<not> has_prefix data ''buy_product_''"
    using b by (cases data; cases "tl data") (auto simp: broadcast_button_def)
  ultimately show ?thesis using b by blast
qed

text \<open>
  C28. Nobody but the administrator moves a broadcast: a press of any button of the broadcasts in
  another chat, forged or left over, is acknowledged and changes neither the sessions nor the
  database, and the commands answer with silence.
\<close>

theorem broadcasts_only_for_admin:
  assumes "\<not> isAdmin (flow_env.truncate env) chatID" "broadcast_button data"
  shows "HandleCallback env chatID data s = (Inr (), s\<lparr>fl_out := fl_out s @ [Answered]\<rparr>)
    \<and> HandleBroadcast (flow_env.truncate env) chatID s = (Inr (), s)
    \<and> HandleBroadcastHistory (flow_env.truncate env) chatID s = (Inr (), s)"
  using assms broadcast_button_routed [OF assms(2)]
  by (simp add: HandleCallback_def admin_button_def guarded_def campaign_callback_def HandleBroadcast_def
      HandleBroadcastHistory_def op_simps split: option.split)

section \<open>The command that cancels\<close>

text \<open>
  The command the bot names for giving up a draft does discard it, but the administrator is
  told that the command is unknown: the update is routed as a command, which ends the session
  first, and never reaches the branch of the draft handler that confirms the cancellation.
\<close>

theorem cancel_command_is_unknown:
  assumes "isAdmin (flow_env.truncate env) chatID" "fl_sessions s chatID = Some ss" "session_ok ss"
  shows "fl_sessions (snd (HandleUpdate env (Message chatID (Some ''cancel'') ''/cancel'') s)) chatID = None
    \<and> fl_out (snd (HandleUpdate env (Message chatID (Some ''cancel'') ''/cancel'') s))
        = fl_out s @ [Said chatID UnknownCommand]"
proof -
  have stage: "ss_stage ss \<in> {StageAwaitingName, StageAwaitingDraft, StageFiltering, StageConfirming, StageScheduling}"
    using assms(3) by (cases "ss_stage ss") (auto simp: session_ok_def)
  show ?thesis
    using assms(1,2) stage
    by (auto simp: HandleUpdate_def draft_active_def broadcastSessionActive_def getBroadcastSession_eq run_command_def
        other_commands_def op_simps)
qed

section \<open>No dead buttons\<close>

lemma button_numbers:
  "Atoi ''90'' = Inr 90" "Atoi ''180'' = Inr 180" "Atoi ''365'' = Inr 365" "Atoi ''0'' = Inr 0" "Atoi ''30'' = Inr 30"
  by code_simp+

lemma registered_days_later:
  assumes "pressed \<le> later" "later < pressed + day" "n \<in> {90, 180, 365}"
  shows "registered_days later (add_days pressed (wrap64 (- n))) = n"
proof -
  have w: "wrap64 (- n) = - n"
    using assms(3) by (auto simp: wrap64_def)
  have "(later - add_days pressed (- n)) div day = n"
  proof (rule int_div_pos_eq)
    show "later - add_days pressed (- n) = day * n + (later - pressed)"
      by (simp add: add_days_def algebra_simps)
  qed (use assms in simp_all)
  moreover have "0 < later - add_days pressed (- n)" "0 < day"
    using assms by (auto simp: add_days_def duration_defs)
  ultimately show ?thesis
    unfolding w by (simp add: registered_days_def go_div_def)
qed

text \<open>What each button asks for.\<close>

lemma filter_routes:
  "change_filter now ''bfilter_plan_'' f = Inr (plan_filter [] f)"
  "change_filter now ''bfilter_plan_paid'' f = Inr (plan_filter ''paid'' f)"
  "change_filter now ''bfilter_plan_free'' f = Inr (plan_filter ''free'' f)"
  "change_filter now ''bfilter_status_all'' f = status_filter ''all'' f"
  "change_filter now ''bfilter_status_active'' f = status_filter ''active'' f"
  "change_filter now ''bfilter_status_revoked'' f = status_filter ''revoked'' f"
  "change_filter now ''bfilter_date_90'' f = date_filter now ''90'' f"
  "change_filter now ''bfilter_date_180'' f = date_filter now ''180'' f"
  "change_filter now ''bfilter_date_365'' f = date_filter now ''365'' f"
  "change_filter now ''bfilter_date_'' f = date_filter now [] f"
  "change_filter now ''bfilter_inactive_0'' f = inactive_filter ''0'' f"
  "change_filter now ''bfilter_inactive_30'' f = inactive_filter ''30'' f"
  "change_filter now ''bfilter_inactive_90'' f = inactive_filter ''90'' f"
  "change_filter now ''bfilter_inactive_'' f = inactive_filter [] f"
  "change_filter now ''bfilter_ever_paid_true'' f = Inr (paid_filter ''true'' f)"
  "change_filter now ''bfilter_ever_paid_false'' f = Inr (paid_filter ''false'' f)"
  "change_filter now ''bfilter_ever_paid_'' f = Inr (paid_filter [] f)"
  by (simp_all add: change_filter_def strip_def)

lemma status_choices:
  "\<exists>f'. status_filter ''all'' f = Inr f' \<and> (bf_subscription_status f \<noteq> ''all'' \<longrightarrow> bf_subscription_status f' = ''all'')"
  "\<exists>f'. status_filter ''active'' f = Inr f' \<and> bf_subscription_status f' \<in> {[], ''active''}"
  "\<exists>f'. status_filter ''revoked'' f = Inr f' \<and> (bf_subscription_status f \<noteq> ''revoked'' \<longrightarrow> bf_subscription_status f' = ''revoked'')"
  by (simp_all add: status_filter_def)

text \<open>Row by row.\<close>

lemma plan_row_ticks:
  "b \<in> set (plan_row f) \<Longrightarrow> \<not> bt_ticked b \<Longrightarrow>
     \<exists>f'. change_filter now (bt_data b) f = Inr f' \<and> btn (bt_data b) True \<in> set (plan_row f')"
  unfolding plan_row_def list.set insert_iff
  by (elim disjE emptyE; simp add: filter_routes btn_def plan_filter_def)

lemma status_row_ticks:
  "b \<in> set (status_row f) \<Longrightarrow> \<not> bt_ticked b \<Longrightarrow>
     \<exists>f'. change_filter now (bt_data b) f = Inr f' \<and> btn (bt_data b) True \<in> set (status_row f')"
  unfolding status_row_def list.set insert_iff
  using status_choices [of f] by (elim disjE emptyE; force simp: filter_routes btn_def)

lemma date_row_ticks:
  assumes "b \<in> set (date_row now f)" "pressed \<le> later" "later < pressed + day"
  shows "\<exists>f'. change_filter pressed (bt_data b) f = Inr f' \<and> btn (bt_data b) True \<in> set (date_row later f')"
  using assms(1) registered_days_later [OF assms(2,3)]
  unfolding date_row_def Let_def list.set insert_iff
  by (elim disjE emptyE; simp add: filter_routes btn_def date_filter_def button_numbers)

lemma inactive_row_ticks:
  "b \<in> set (inactive_row f) \<Longrightarrow>
     \<exists>f'. change_filter now (bt_data b) f = Inr f' \<and> btn (bt_data b) True \<in> set (inactive_row f')"
  unfolding inactive_row_def list.set insert_iff
  by (elim disjE emptyE; simp add: filter_routes btn_def inactive_filter_def button_numbers)

lemma paid_row_ticks:
  "b \<in> set (paid_row f) \<Longrightarrow>
     \<exists>f'. change_filter now (bt_data b) f = Inr f' \<and> btn (bt_data b) True \<in> set (paid_row f')"
  unfolding paid_row_def list.set insert_iff
  by (elim disjE emptyE; simp add: filter_routes btn_def paid_filter_def)

text \<open>
  Every filter button does what it shows: pressing one that is not ticked is accepted, and the
  keyboard drawn afterwards, within a day, has that button ticked.
\<close>

theorem filter_button_ticks:
  assumes "b \<in> set (concat (broadcastFilterKeyboard now f))" "has_prefix (bt_data b) ''bfilter_''"
    "\<not> bt_ticked b" "pressed \<le> later" "later < pressed + day"
  shows "\<exists>f'. change_filter pressed (bt_data b) f = Inr f'
    \<and> btn (bt_data b) True \<in> set (concat (broadcastFilterKeyboard later f'))"
proof -
  have "b \<in> set (plan_row f) \<or> b \<in> set (status_row f) \<or> b \<in> set (date_row now f) \<or> b \<in> set (inactive_row f)
      \<or> b \<in> set (paid_row f)"
    using assms(1,2) by (auto simp: broadcastFilterKeyboard_def plain_btn_def btn_def)
  then show ?thesis
    unfolding broadcastFilterKeyboard_def
    using plan_row_ticks [of b f pressed] status_row_ticks [of b f pressed] date_row_ticks [OF _ assms(4,5)]
      inactive_row_ticks [of b f pressed] paid_row_ticks [of b f pressed] assms(3)
    by (elim disjE; force)
qed

end
