(* ===== verification/Flow_Witnesses.thy ===== *)
theory Flow_Witnesses
  imports Broadcast_Callbacks Traffic_Witnesses
begin

text \<open>
  The draft of a broadcast on concrete states: an administrator with a draft whose recipients are
  being chosen; the properties of the flow applied to it; and the run in which one draft becomes two
  campaigns.
\<close>

definition press_env :: flow_env where
  "press_env = \<lparr>fe_admin = 42, fe_clock = (\<lambda>_. day0), fe_preview = (\<lambda>_ _ _. None), fe_worker = good_telegram\<rparr>"

definition bot_env :: callback_env where
  "bot_env = flow_env.extend press_env
     \<lparr>ce_svc = good_svc, ce_order = id, ce_menu = (\<lambda>_ _. returnE ()), ce_product = (\<lambda>_ _. returnE ()),
      ce_command = (\<lambda>_ _. returnE ()), ce_allowed = (\<lambda>_ _. True)\<rparr>"

definition draft :: broadcast_session where
  "draft = (zero_session day0 StageFiltering)\<lparr>ss_name := ''news'', ss_text := ''hello''\<rparr>"

definition confirmed_draft :: broadcast_session where
  "confirmed_draft = draft\<lparr>ss_stage := StageConfirming, ss_recipient_count := 1\<rparr>"

definition flow_of :: "broadcast_session \<Rightarrow> flow" where
  "flow_of ss = \<lparr>fl_world = world_of db0, fl_sessions = [42 \<mapsto> ss], fl_reads = 0, fl_out = []\<rparr>"

lemma run_with: "fst (m s) = v \<Longrightarrow> m s = (v, snd (m s))"
  by (cases "m s") simp

section \<open>One draft, two campaigns\<close>

text \<open>The states of the run, in the order of its steps; \<open>c\<close> and \<open>d\<close> are the presses of the button
  that counts the recipients, \<open>e\<close> and \<open>f\<close> those of the confirmation.\<close>

definition look_at :: "flow \<Rightarrow> flow" where "look_at s = snd (getBroadcastSession press_env 42 s)"
definition counting :: "flow \<Rightarrow> flow" where "counting s = snd (press_with press_env 42 PressConfirm (Some draft) s)"
definition claiming :: "flow \<Rightarrow> flow" where "claiming s = snd (claimSession 42 s)"
definition creating :: "flow \<Rightarrow> flow" where "creating s = snd (createCampaign press_env 42 confirmed_draft s)"

definition launched :: "flow \<Rightarrow> flow" where "launched s = creating (claiming (look_at s))"
definition counted_once :: flow where "counted_once = counting (look_at (look_at (flow_of draft)))"
definition counted_again :: flow where "counted_again = counting (launched counted_once)"

lemma run_values:
  "fst (getBroadcastSession press_env 42 (flow_of draft)) = Inr (Some draft)"
  "fst (getBroadcastSession press_env 42 (look_at (flow_of draft))) = Inr (Some draft)"
  "fst (getBroadcastSession press_env 42 counted_once) = Inr (Some confirmed_draft)"
  "fst (claimSession 42 (look_at counted_once)) = Inr (Some confirmed_draft)"
  "fst (getBroadcastSession press_env 42 counted_again) = Inr (Some confirmed_draft)"
  "fst (claimSession 42 (look_at counted_again)) = Inr (Some confirmed_draft)"
  by code_simp+

lemma run_end:
  "announced (launched counted_again) = 2"
  "map b_message_text (broadcasts (db (fl_world (launched counted_again)))) = [''hello'', ''hello'']"
  by code_simp+

lemma looks:
  assumes "fst (getBroadcastSession press_env 42 s) = Inr so" "i < length ts" "ts ! i = Pressed p"
  shows "press_step press_env 42 (s, ts) (look_at s, ts[i := Looked p so])"
  using press_step.look [OF assms(2,3) run_with [of "getBroadcastSession press_env 42", OF assms(1)]]
  by (simp add: look_at_def)

lemma counts:
  assumes "i < length ts" "ts ! i = Looked PressConfirm (Some draft)"
  shows "press_step press_env 42 (s, ts) (counting s, ts[i := Finished])"
proof -
  have "\<not> launches PressConfirm (Some draft)"
    by (simp add: draft_def zero_session_def)
  then show ?thesis
    using press_step.work [OF assms(1,2) _ run_with [of "press_with press_env 42 PressConfirm (Some draft)", OF refl]]
    by (simp add: counting_def)
qed

lemma launches_once:
  assumes "fst (getBroadcastSession press_env 42 s) = Inr (Some confirmed_draft)"
    "fst (claimSession 42 (look_at s)) = Inr (Some confirmed_draft)" "i < length ts" "ts ! i = Pressed PressFinal"
  shows "(press_step press_env 42)\<^sup>*\<^sup>* (s, ts) (launched s, ts[i := Finished])"
proof -
  let ?us = "ts[i := Looked PressFinal (Some confirmed_draft)]" and ?vs = "ts[i := Holding confirmed_draft]"
  have l: "launches PressFinal (Some confirmed_draft)"
    by (simp add: confirmed_draft_def)
  have 1: "press_step press_env 42 (s, ts) (look_at s, ?us)"
    using looks [OF assms(1,3,4)] .
  have 2: "press_step press_env 42 (look_at s, ?us) (claiming (look_at s), ?vs)"
    using press_step.claim [of i ?us PressFinal "Some confirmed_draft" 42 "look_at s", OF _ _ l run_with [of "claimSession 42", OF assms(2)]]
      assms(3) by (simp add: claiming_def)
  have 3: "press_step press_env 42 (claiming (look_at s), ?vs) (launched s, ts[i := Finished])"
    using press_step.create [of i ?vs confirmed_draft press_env 42 "claiming (look_at s)",
        OF _ _ run_with [of "createCampaign press_env 42 confirmed_draft", OF refl]] assms(3)
    by (simp add: launched_def creating_def)
  show ?thesis
    using 1 2 3 by (meson converse_rtranclp_into_rtranclp rtranclp.rtrancl_refl)
qed

text \<open>
  The claim of a launch does not protect against a press that is still at work with an older
  copy: if the button that counts the recipients is pressed twice, and the second press stores its
  copy only after the draft has been confirmed and launched, the session is back in the map, and
  confirming it launches the same text a second time.
\<close>

theorem stale_press_relaunches:
  "\<exists>s' ts. (press_step press_env 42)\<^sup>*\<^sup>*
       (flow_of draft, map Pressed [PressConfirm, PressConfirm, PressFinal, PressFinal]) (s', ts)
     \<and> announced (flow_of draft) = 0 \<and> announced s' = 2
     \<and> map b_message_text (broadcasts (db (fl_world s'))) = [''hello'', ''hello'']"
proof -
  let ?L = "Looked PressConfirm (Some draft)" and ?F = "Pressed PressFinal" and ?S = "press_step press_env 42"
  have 1: "?S (flow_of draft, map Pressed [PressConfirm, PressConfirm, PressFinal, PressFinal])
      (look_at (flow_of draft), [?L, Pressed PressConfirm, ?F, ?F])"
    using looks [OF run_values(1), of 0 "map Pressed [PressConfirm, PressConfirm, PressFinal, PressFinal]"] by simp
  have 2: "?S (look_at (flow_of draft), [?L, Pressed PressConfirm, ?F, ?F])
      (look_at (look_at (flow_of draft)), [?L, ?L, ?F, ?F])"
    using looks [OF run_values(2), of 1 "[?L, Pressed PressConfirm, ?F, ?F]"] by simp
  have 3: "?S (look_at (look_at (flow_of draft)), [?L, ?L, ?F, ?F]) (counted_once, [Finished, ?L, ?F, ?F])"
    using counts [of 0 "[?L, ?L, ?F, ?F]" "look_at (look_at (flow_of draft))"] by (simp add: counted_once_def)
  have 4: "?S\<^sup>*\<^sup>* (counted_once, [Finished, ?L, ?F, ?F]) (launched counted_once, [Finished, ?L, Finished, ?F])"
    using launches_once [OF run_values(3,4), of 2 "[Finished, ?L, ?F, ?F]"] by (simp add: numeral_2_eq_2)
  have 5: "?S (launched counted_once, [Finished, ?L, Finished, ?F]) (counted_again, [Finished, Finished, Finished, ?F])"
    using counts [of 1 "[Finished, ?L, Finished, ?F]" "launched counted_once"] by (simp add: counted_again_def)
  have 6: "?S\<^sup>*\<^sup>* (counted_again, [Finished, Finished, Finished, ?F]) (launched counted_again, [Finished, Finished, Finished, Finished])"
    using launches_once [OF run_values(5,6), of 3 "[Finished, Finished, Finished, ?F]"] by (simp add: numeral_3_eq_3)
  have "?S\<^sup>*\<^sup>* (flow_of draft, map Pressed [PressConfirm, PressConfirm, PressFinal, PressFinal])
      (launched counted_again, [Finished, Finished, Finished, Finished])"
    by (rule converse_rtranclp_into_rtranclp [of ?S, OF 1], rule converse_rtranclp_into_rtranclp [of ?S, OF 2],
        rule converse_rtranclp_into_rtranclp [of ?S, OF 3], rule rtranclp_trans [OF 4],
        rule converse_rtranclp_into_rtranclp [of ?S, OF 5], rule 6)
  moreover have "announced (flow_of draft) = 0"
    by (simp add: announced_def flow_of_def)
  ultimately show ?thesis
    using run_end by (intro exI conjI)
qed

section \<open>The properties of the flow\<close>

lemma draft_ok: "session_ok draft" "session_ok confirmed_draft"
  by (simp_all add: session_ok_def filter_ok_def confirmed_draft_def draft_def zero_session_def no_filter_def
      broadcastNameMaxLen_def maxBroadcastLen_def MaxTelegramMessageLen_def runes.simps rune_size_def byte_in_def)

lemma flow_ok: "session_ok ss \<Longrightarrow> sessions_ok (flow_of ss)"
  by (simp add: sessions_ok_def flow_of_def)

lemma sessions_well_shaped_witness:
  "\<exists>s' r. HandleBroadcastDraft press_env 42 ''hi'' (flow_of draft) = (r, s') \<and> sessions_ok s'"
proof -
  obtain r s' where run: "HandleBroadcastDraft press_env 42 ''hi'' (flow_of draft) = (r, s')"
    by fastforce
  then have "(flow_step press_env 42)\<^sup>*\<^sup>* (flow_of draft, []) (s', [])"
    by (intro r_into_rtranclp flow_step.draft)
  from sessions_well_shaped [OF this flow_ok [OF draft_ok(1)]] run show ?thesis by blast
qed

lemma confirmed_at_most_once_witness:
  "\<exists>s' ts. (press_step press_env 42)\<^sup>*\<^sup>* (flow_of confirmed_draft, replicate 2 (Pressed PressFinal)) (s', ts)
     \<and> announced s' = 1 \<and> fl_sessions s' 42 = None"
proof -
  have v: "fst (getBroadcastSession press_env 42 (flow_of confirmed_draft)) = Inr (Some confirmed_draft)"
    "fst (claimSession 42 (look_at (flow_of confirmed_draft))) = Inr (Some confirmed_draft)"
    "announced (launched (flow_of confirmed_draft)) = 1" "announced (flow_of confirmed_draft) = 0"
    by code_simp+
  have "(press_step press_env 42)\<^sup>*\<^sup>* (flow_of confirmed_draft, replicate 2 (Pressed PressFinal))
      (launched (flow_of confirmed_draft), (replicate 2 (Pressed PressFinal))[0 := Finished])"
    by (rule launches_once [OF v(1,2)]) simp_all
  from confirmed_at_most_once [OF this] this v(3,4) show ?thesis by auto
qed


definition scheduling_draft :: broadcast_session where
  "scheduling_draft = draft\<lparr>ss_stage := StageScheduling, ss_schedule_day := 1\<rparr>"

lemma chosen_hour_is_ahead_witness:
  "\<exists>s' r. hour_with press_env 42 ''bsched_hour_9'' (Some scheduling_draft) (flow_of scheduling_draft) = (r, s')
     \<and> moscow_hour day0 1 9 < day0 + 7 * day"
proof -
  obtain r s' where run: "hour_with press_env 42 ''bsched_hour_9'' (Some scheduling_draft) (flow_of scheduling_draft) = (r, s')"
    by fastforce
  have nine: "Atoi (strip ''bsched_hour_'' ''bsched_hour_9'') = Inr 9"
    by code_simp
  have "ss_stage scheduling_draft = StageScheduling" "ss_schedule_day scheduling_draft \<in> set scheduleDayOptions"
    by (simp_all add: scheduling_draft_def scheduleDayOptions_def)
  from chosen_hour_is_ahead [OF run this nine] run show ?thesis
    by (simp add: Let_def press_env_def scheduling_draft_def)
qed

lemma bot_env_parent: "flow_env.truncate bot_env = press_env"
  by (simp add: bot_env_def flow_env.defs press_env_def)

lemma broadcasts_only_for_admin_witness:
  "fl_sessions (snd (HandleCallback bot_env 7 ''broadcast_cancel'' (flow_of draft))) 42 = Some draft"
proof -
  have "\<not> isAdmin (flow_env.truncate bot_env) 7" "broadcast_button ''broadcast_cancel''"
    by (simp_all add: bot_env_parent isAdmin_def press_env_def broadcast_button_def)
  from broadcasts_only_for_admin [OF this, of "flow_of draft"] show ?thesis
    by (simp add: flow_of_def)
qed

lemma cancel_command_is_unknown_witness:
  "fl_out (snd (HandleUpdate bot_env (Message 42 (Some ''cancel'') ''/cancel'') (flow_of draft))) = [Said 42 UnknownCommand]"
proof -
  have "isAdmin (flow_env.truncate bot_env) 42" "fl_sessions (flow_of draft) 42 = Some draft"
    by (simp_all add: bot_env_parent isAdmin_def press_env_def flow_of_def)
  from cancel_command_is_unknown [OF this draft_ok(1)] show ?thesis
    by (simp add: flow_of_def)
qed

lemma filter_button_ticks_witness:
  "\<exists>f'. change_filter day0 ''bfilter_date_90'' no_filter = Inr f'
     \<and> btn ''bfilter_date_90'' True \<in> set (concat (broadcastFilterKeyboard day0 f'))"
proof -
  have "btn ''bfilter_date_90'' False \<in> set (concat (broadcastFilterKeyboard day0 no_filter))"
    by (simp add: broadcastFilterKeyboard_def date_row_def no_filter_def)
  from filter_button_ticks [OF this, of day0 day0] show ?thesis
    by (simp add: btn_def duration_defs)
qed

end
