(* ===== verification/Base64.thy ===== *)
theory Base64
  imports Prelude
begin

text \<open>
  Go's \<open>encoding/base64\<close> with the standard alphabet, as far as the sources use it:
  \<open>StdEncoding.EncodeToString\<close>, and \<open>DecodeString\<close> of \<open>StdEncoding\<close> (padded) and of \<open>RawStdEncoding\<close>
  (unpadded). The decoder skips carriage returns and newlines and does not look at the bits a
  short last group leaves over. A decoding error is \<open>None\<close>.
\<close>

section \<open>The alphabet\<close>

definition b64_alphabet :: string where
  "b64_alphabet = ascii_upper @ ascii_lower @ ''0123456789+/''"

definition b64_char :: "nat \<Rightarrow> char" where "b64_char n = b64_alphabet ! n"

definition b64_value :: "char \<Rightarrow> nat option" where
  "b64_value c = map_of (zip b64_alphabet [0..<64]) c"

lemma b64_alphabet_64: "length b64_alphabet = 64" "distinct b64_alphabet"
  by (simp_all add: b64_alphabet_def ascii_upper_def ascii_lower_def)

lemma b64_value_char: "n < 64 \<Longrightarrow> b64_value (b64_char n) = Some n"
  using map_of_zip_nth [of b64_alphabet "[0..<64]" n] b64_alphabet_64
  by (simp add: b64_value_def b64_char_def)

lemma b64_char_in: "n < 64 \<Longrightarrow> b64_char n \<in> set b64_alphabet"
  by (simp add: b64_char_def b64_alphabet_64)

lemma b64_alphabet_clean:
  "c \<in> set b64_alphabet \<Longrightarrow> c \<noteq> CHR ''='' \<and> c \<noteq> CHR 0x0A \<and> c \<noteq> CHR 0x0D"
  by (auto simp: b64_alphabet_def ascii_upper_def ascii_lower_def)

section \<open>Encoding\<close>

abbreviation byte :: "char \<Rightarrow> nat" where "byte c \<equiv> of_char c"

fun b64_encode :: "string \<Rightarrow> string" where
  "b64_encode [] = []"
| "b64_encode [a] = [b64_char (byte a div 4), b64_char (byte a mod 4 * 16), CHR ''='', CHR ''='']"
| "b64_encode [a, b] =
     [b64_char (byte a div 4), b64_char (byte a mod 4 * 16 + byte b div 16), b64_char (byte b mod 16 * 4), CHR ''='']"
| "b64_encode (a # b # c # s) =
     [b64_char (byte a div 4), b64_char (byte a mod 4 * 16 + byte b div 16),
      b64_char (byte b mod 16 * 4 + byte c div 64), b64_char (byte c mod 64)] @ b64_encode s"

section \<open>Decoding\<close>

definition one_byte :: "nat \<Rightarrow> nat \<Rightarrow> char" where "one_byte p q = char_of (p * 4 + q div 16)"
definition two_byte :: "nat \<Rightarrow> nat \<Rightarrow> char" where "two_byte q r = char_of (q mod 16 * 16 + r div 4)"
definition three_byte :: "nat \<Rightarrow> nat \<Rightarrow> char" where "three_byte r t = char_of (r mod 4 * 64 + t)"

fun b64_groups :: "bool \<Rightarrow> string \<Rightarrow> string option" where
  "b64_groups padded [] = Some []"
| "b64_groups padded [w] = None"
| "b64_groups padded [w, x] =
     (case (b64_value w, b64_value x) of
        (Some p, Some q) \<Rightarrow> if padded then None else Some [one_byte p q]
      | _ \<Rightarrow> None)"
| "b64_groups padded [w, x, y] =
     (case (b64_value w, b64_value x, b64_value y) of
        (Some p, Some q, Some r) \<Rightarrow> if padded then None else Some [one_byte p q, two_byte q r]
      | _ \<Rightarrow> None)"
| "b64_groups padded (w # x # y # z # s) =
     (case (b64_value w, b64_value x, b64_value y, b64_value z) of
        (Some p, Some q, Some r, Some t) \<Rightarrow>
          map_option (\<lambda>d. one_byte p q # two_byte q r # three_byte r t # d) (b64_groups padded s)
      | (Some p, Some q, Some r, None) \<Rightarrow>
          if padded \<and> z = CHR ''='' \<and> s = [] then Some [one_byte p q, two_byte q r] else None
      | (Some p, Some q, None, None) \<Rightarrow>
          if padded \<and> y = CHR ''='' \<and> z = CHR ''='' \<and> s = [] then Some [one_byte p q] else None
      | _ \<Rightarrow> None)"

definition b64_decode :: "bool \<Rightarrow> string \<Rightarrow> string option" where
  "b64_decode padded s = b64_groups padded (filter (\<lambda>c. c \<noteq> CHR 0x0A \<and> c \<noteq> CHR 0x0D) s)"

section \<open>Decoding what was encoded\<close>

lemma byte_less: "byte c < 256"
  by simp

lemma split_first:
  assumes "y < 16"
  shows "one_byte (byte a div 4) (byte a mod 4 * 16 + y) = a"
proof -
  have "(byte a mod 4 * 16 + y) div 16 = byte a mod 4" using assms by simp
  then have "byte a div 4 * 4 + (byte a mod 4 * 16 + y) div 16 = byte a" by simp
  then show ?thesis by (simp add: one_byte_def)
qed

lemma split_second:
  assumes "y < 4"
  shows "two_byte (x * 16 + byte b div 16) (byte b mod 16 * 4 + y) = b"
proof -
  have 1: "(x * 16 + byte b div 16) mod 16 = byte b div 16"
    using byte_less [of b] by (simp add: mod_mult_self3 less_mult_imp_div_less)
  have "(byte b mod 16 * 4 + y) div 4 = byte b mod 16" using assms by simp
  then have "(x * 16 + byte b div 16) mod 16 * 16 + (byte b mod 16 * 4 + y) div 4 = byte b"
    unfolding 1 by simp
  then show ?thesis by (simp add: two_byte_def)
qed

lemma split_third: "three_byte (x * 4 + byte c div 64) (byte c mod 64) = c"
proof -
  have 1: "(x * 4 + byte c div 64) mod 4 = byte c div 64"
    using byte_less [of c] by (simp add: mod_mult_self3 less_mult_imp_div_less)
  have "(x * 4 + byte c div 64) mod 4 * 64 + byte c mod 64 = byte c"
    unfolding 1 by simp
  then show ?thesis by (simp add: three_byte_def)
qed

lemma sextets:
  "byte a div 4 < 64" "byte a mod 4 * 16 < 64" "byte a mod 4 * 16 + byte b div 16 < 64"
  "byte b mod 16 * 4 < 64" "byte b mod 16 * 4 + byte c div 64 < 64" "byte c mod 64 < 64"
proof -
  have "byte b div 16 < 16" "byte c div 64 < 4"
    using byte_less [of b] byte_less [of c] by (simp_all add: less_mult_imp_div_less)
  moreover have "byte a mod 4 < 4" "byte b mod 16 < 16" by simp_all
  ultimately show "byte a mod 4 * 16 + byte b div 16 < 64" "byte b mod 16 * 4 + byte c div 64 < 64"
    "byte a mod 4 * 16 < 64" "byte b mod 16 * 4 < 64"
    by linarith+
  show "byte a div 4 < 64" using byte_less [of a] by (simp add: less_mult_imp_div_less)
  show "byte c mod 64 < 64" by simp
qed

lemma b64_value_pad: "b64_value (CHR ''='') = None"
  by (simp add: b64_value_def b64_alphabet_def ascii_upper_def ascii_lower_def upt_rec)

lemma b64_encode_chars: "c \<in> set (b64_encode s) \<Longrightarrow> c \<noteq> CHR ''='' \<Longrightarrow> c \<in> set b64_alphabet"
proof (induction s rule: b64_encode.induct)
  case (2 a)
  then show ?case using b64_char_in sextets(1,2) [of a] by auto
next
  case (3 a b)
  then show ?case using b64_char_in sextets(1) [of a] sextets(3) [of a b] sextets(4) [of b] by auto
next
  case (4 a b c s)
  then show ?case using b64_char_in sextets(1) [of a] sextets(3) [of a b] sextets(5) [of b c] sextets(6) [of c] by auto
qed simp

lemma b64_encode_clean: "c \<in> set (b64_encode s) \<Longrightarrow> c \<noteq> CHR 0x0A \<and> c \<noteq> CHR 0x0D"
  using b64_encode_chars [of c s] b64_alphabet_clean [of c] by auto

lemma b64_groups_encode: "b64_groups True (b64_encode s) = Some s"
proof (induction s rule: b64_encode.induct)
  case (2 a)
  show ?case
    using split_first [of 0 a] by (simp add: b64_value_char sextets b64_value_pad)
next
  case (3 a b)
  show ?case
    using split_first [of "byte b div 16" a] split_second [of 0 "byte a mod 4" b] byte_less [of b]
    by (simp add: b64_value_char sextets b64_value_pad less_mult_imp_div_less)
next
  case (4 a b c s)
  have "byte b div 16 < 16" "byte c div 64 < 4"
    using byte_less [of b] byte_less [of c] by (simp_all add: less_mult_imp_div_less)
  then show ?case
    using 4 split_first [of "byte b div 16" a] split_second [of "byte c div 64" "byte a mod 4" b]
      split_third [of "byte b mod 16" c]
    by (simp add: b64_value_char sextets)
qed simp

lemma b64_decode_encode: "b64_decode True (b64_encode s) = Some s"
proof -
  have "filter (\<lambda>c. c \<noteq> CHR 0x0A \<and> c \<noteq> CHR 0x0D) (b64_encode s) = b64_encode s"
    using b64_encode_clean by (simp add: filter_id_conv)
  then show ?thesis by (simp add: b64_decode_def b64_groups_encode)
qed

section \<open>The unpadded form\<close>

definition b64_raw :: "string \<Rightarrow> string" where
  "b64_raw s = filter (\<lambda>c. c \<noteq> CHR ''='') (b64_encode s)"

lemma b64_char_no_pad: "n < 64 \<Longrightarrow> b64_char n \<noteq> CHR ''=''"
  using b64_char_in b64_alphabet_clean by blast

lemma b64_raw_simps:
  "b64_raw [] = []"
  "b64_raw [a] = [b64_char (byte a div 4), b64_char (byte a mod 4 * 16)]"
  "b64_raw [a, b] = [b64_char (byte a div 4), b64_char (byte a mod 4 * 16 + byte b div 16), b64_char (byte b mod 16 * 4)]"
  "b64_raw (a # b # c # s) =
     [b64_char (byte a div 4), b64_char (byte a mod 4 * 16 + byte b div 16),
      b64_char (byte b mod 16 * 4 + byte c div 64), b64_char (byte c mod 64)] @ b64_raw s"
  by (simp_all add: b64_raw_def b64_char_no_pad sextets)

lemma b64_groups_raw:
  "b64_groups False (b64_raw s) = Some s \<and> b64_groups True (b64_raw s) \<in> {None, Some s}"
proof (induction s rule: b64_encode.induct)
  case 1
  show ?case by (simp add: b64_raw_simps)
next
  case (2 a)
  show ?case
    using split_first [of 0 a] by (simp add: b64_raw_simps b64_value_char sextets)
next
  case (3 a b)
  show ?case
    using split_first [of "byte b div 16" a] split_second [of 0 "byte a mod 4" b] byte_less [of b]
    by (simp add: b64_raw_simps b64_value_char sextets less_mult_imp_div_less)
next
  case (4 a b c s)
  have "byte b div 16 < 16" "byte c div 64 < 4"
    using byte_less [of b] byte_less [of c] by (simp_all add: less_mult_imp_div_less)
  then show ?case
    using 4 split_first [of "byte b div 16" a] split_second [of "byte c div 64" "byte a mod 4" b]
      split_third [of "byte b mod 16" c]
    by (auto simp: b64_raw_simps b64_value_char sextets)
qed

lemma b64_decode_raw:
  "b64_decode False (b64_raw s) = Some s" "b64_decode True (b64_raw s) \<in> {None, Some s}"
proof -
  have "filter (\<lambda>c. c \<noteq> CHR 0x0A \<and> c \<noteq> CHR 0x0D) (b64_raw s) = b64_raw s"
    using b64_encode_clean [of _ s] by (simp add: b64_raw_def filter_id_conv del: filter_filter)
  then show "b64_decode False (b64_raw s) = Some s" "b64_decode True (b64_raw s) \<in> {None, Some s}"
    using b64_groups_raw [of s] by (simp_all only: b64_decode_def)
qed

end
