(* ===== verification/Subserver_Headers.thy ===== *)
theory Subserver_Headers
  imports Telegram_Text Base64 "HOL-Library.AList"
begin

text \<open>
  The headers of the delivery endpoint: \<open>internal/subserver/subscription_helpers.go\<close>.

  A Go map of headers is the list of its entries, with distinct keys, in one order of iteration.
  Header names are ASCII (\<open>net/http\<close> refuses others), so \<open>strings.ToLower\<close> and \<open>strings.EqualFold\<close> act
  on ASCII letters.
\<close>

section \<open>Maps of headers\<close>

type_synonym headers = "(string \<times> string) list"

definition header :: "headers \<Rightarrow> string \<Rightarrow> string" where
  "header h k = (case map_of h k of None \<Rightarrow> [] | Some v \<Rightarrow> v)"

text \<open>\<open>strings.CutPrefix\<close> and \<open>strings.Join\<close>.\<close>

definition cut_prefix :: "string \<Rightarrow> string \<Rightarrow> string option" where
  "cut_prefix s p = (if has_prefix s p then Some (drop (length p) s) else None)"

fun join_with :: "string \<Rightarrow> string list \<Rightarrow> string" where
  "join_with sep [] = []"
| "join_with sep [s] = s"
| "join_with sep (s # ss) = s @ sep @ join_with sep ss"

section \<open>The request\<close>

definition excluded_headers :: "string list" where
  "excluded_headers = [''x-forwarded-proto'', ''x-forwarded-for'', ''x-real-ip'', ''accept'', ''authorization'',
     ''cookie'', ''accept-encoding'', ''connection'']"

definition filter_header :: "string \<times> string list \<Rightarrow> headers \<Rightarrow> headers" where
  "filter_header kv result =
     (let lowerKey = to_lower (fst kv) in
      if lowerKey \<in> set excluded_headers then result
      else (case snd kv of [] \<Rightarrow> result | v # _ \<Rightarrow> AList.update lowerKey (to_lower v) result))"

definition FilterHeaders :: "(string \<times> string list) list \<Rightarrow> headers" where
  "FilterHeaders h = fold filter_header h []"

section \<open>The usage header\<close>

fun user_info_value :: "string \<Rightarrow> string list \<Rightarrow> string option" where
  "user_info_value prefix [] = None"
| "user_info_value prefix (part # parts) =
     (case cut_prefix (TrimSpace part) prefix of
        Some after \<Rightarrow> Some after
      | None \<Rightarrow> user_info_value prefix parts)"

definition ParseUserInfoValue :: "headers \<Rightarrow> string \<Rightarrow> int" where
  "ParseUserInfoValue h key =
     (case map_of h ''subscription-userinfo'' of
        None \<Rightarrow> 0
      | Some userInfo \<Rightarrow>
          (case user_info_value (key @ ''='') (split_on (CHR '';'') userInfo) of
             None \<Rightarrow> 0
           | Some val \<Rightarrow> (case parse_int64 val of None \<Rightarrow> 0 | Some n \<Rightarrow> n)))"

definition ParseExpireFromUserInfo :: "string \<Rightarrow> string" where
  "ParseExpireFromUserInfo userInfo =
     (case user_info_value ''expire='' (split_on (CHR '';'') userInfo) of None \<Rightarrow> [] | Some after \<Rightarrow> after)"

definition BuildUserInfoHeader :: "int \<Rightarrow> int \<Rightarrow> int \<Rightarrow> string \<Rightarrow> string" where
  "BuildUserInfoHeader upload download limit expire =
     join_with ''; '' ([''upload='' @ itoa upload, ''download='' @ itoa download, ''total='' @ itoa limit]
       @ (if expire \<noteq> [] then [''expire='' @ expire] else []))"

section \<open>The response\<close>

definition transport_headers :: "string list" where
  "transport_headers = [''content-length'', ''content-type'', ''content-encoding'', ''transfer-encoding'', ''connection'',
     ''date'', ''server'', ''alt-svc'', ''trailer'', ''subscription-userinfo'']"

definition SkipTransportHeader :: "string \<Rightarrow> bool" where
  "SkipTransportHeader key \<longleftrightarrow> to_lower key \<in> set transport_headers"

text \<open>The key \<open>http.Header.Set\<close> stores a value under (\<open>textproto.CanonicalMIMEHeaderKey\<close>): a name
  with a byte that is no token character is kept as it is.\<close>

definition token_char :: "char \<Rightarrow> bool" where
  "token_char c \<longleftrightarrow> c \<in> set ascii_upper \<or> c \<in> set ascii_lower \<or> is_digit c
     \<or> c \<in> set [CHR ''!'', CHR ''#'', CHR ''$'', CHR ''%'', CHR ''&'', CHR 0x27, CHR ''*'', CHR ''+'', CHR ''-'',
                 CHR ''.'', CHR ''^'', CHR ''_'', CHR 0x60, CHR ''|'', CHR ''~'']"

fun title_case :: "bool \<Rightarrow> string \<Rightarrow> string" where
  "title_case start [] = []"
| "title_case start (c # cs) = (if start then char_upper c else char_lower c) # title_case (c = CHR ''-'') cs"

definition canonical_key :: "string \<Rightarrow> string" where
  "canonical_key k = (if list_all token_char k then title_case True k else k)"

definition apply_header :: "string \<times> string \<Rightarrow> headers \<Rightarrow> headers" where
  "apply_header kv target =
     (if SkipTransportHeader (fst kv) then target else AList.update (canonical_key (fst kv)) (snd kv) target)"

definition ApplySourceHeaders :: "headers \<Rightarrow> headers option \<Rightarrow> headers" where
  "ApplySourceHeaders target source = (case source of None \<Rightarrow> target | Some hs \<Rightarrow> fold apply_header hs target)"

definition ResponseHeaders :: "headers option \<Rightarrow> string \<Rightarrow> string \<Rightarrow> headers" where
  "ResponseHeaders sourceHeaders contentType userInfo =
     AList.update ''subscription-userinfo'' userInfo
       (AList.update ''content-type'' contentType (ApplySourceHeaders [] sourceHeaders))"

section \<open>The profile title\<close>

text \<open>\<open>unicode.IsControl\<close>: the C0 block, DEL and the C1 block (two bytes).\<close>

definition control_rune :: "string \<Rightarrow> bool" where
  "control_rune r \<longleftrightarrow>
     length r = 1 \<and> (byte_in 0 0x1F r 0 \<or> byte_in 0x7F 0x7F r 0)
     \<or> length r = 2 \<and> byte_in 0xC2 0xC2 r 0 \<and> byte_in 0x80 0x9F r 1"

definition isPrintableProfileTitle :: "string \<Rightarrow> bool" where
  "isPrintableProfileTitle v \<longleftrightarrow> valid_utf8 v \<and> v \<noteq> [] \<and> list_all (\<lambda>r. \<not> control_rune r) (runes v)"

definition printable_decoding :: "bool \<Rightarrow> string \<Rightarrow> string option" where
  "printable_decoding padded payload =
     (case b64_decode padded payload of
        Some d \<Rightarrow> if isPrintableProfileTitle d then Some d else None
      | None \<Rightarrow> None)"

definition decodeProfileTitle :: "string \<Rightarrow> string" where
  "decodeProfileTitle v =
     (let payload = TrimSpace (if has_prefix (to_lower v) ''base64:'' then drop (length ''base64:'') v else v) in
      if payload = [] then []
      else (case printable_decoding True payload of
              Some d \<Rightarrow> d
            | None \<Rightarrow> (case printable_decoding False payload of Some d \<Rightarrow> d | None \<Rightarrow> payload)))"

definition AppendProfileTitleSuffix :: "string \<Rightarrow> string \<Rightarrow> string" where
  "AppendProfileTitleSuffix v suffix =
     (let t = TrimSpace v in
      if t = [] \<or> suffix = [] then t
      else ''base64:'' @ b64_encode (decodeProfileTitle t @ suffix))"

fun suffix_title :: "string \<Rightarrow> headers \<Rightarrow> headers" where
  "suffix_title suffix [] = []"
| "suffix_title suffix ((k, v) # h) =
     (if to_lower k = ''profile-title'' then (k, AppendProfileTitleSuffix v suffix) # h
      else (k, v) # suffix_title suffix h)"

definition ApplyProfileTitleSuffix :: "headers \<Rightarrow> string \<Rightarrow> headers" where
  "ApplyProfileTitleSuffix h suffix = (if suffix = [] then h else suffix_title suffix h)"

section \<open>Runes of ASCII text\<close>

definition ascii :: "string \<Rightarrow> bool" where
  "ascii s \<longleftrightarrow> (\<forall>c \<in> set s. (of_char c :: nat) < 0x80)"

lemma runes_ascii: "ascii s \<Longrightarrow> runes s = map (\<lambda>c. [c]) s"
proof (induction s)
  case Nil
  show ?case by simp
next
  case (Cons c s)
  then have "(of_char c :: nat) < 0x80" "runes s = map (\<lambda>c. [c]) s"
    by (simp_all add: ascii_def)
  moreover from this(1) have "rune_size (c # s) = 1"
    by (simp add: rune_size_def byte_in_def)
  ultimately show ?case
    by (subst runes.simps) simp
qed

lemma space_rune_ascii: "(of_char c :: nat) < 0x80 \<Longrightarrow> space_rune [c] = is_space c"
  by (simp add: space_rune_def)

lemma dropWhile_singles: "ascii s \<Longrightarrow> dropWhile space_rune (map (\<lambda>c. [c]) s) = map (\<lambda>c. [c]) (dropWhile is_space s)"
  by (induction s) (simp_all add: ascii_def space_rune_ascii)

lemma ascii_sub: "set t \<subseteq> set s \<Longrightarrow> ascii s \<Longrightarrow> ascii t"
  unfolding ascii_def by blast

lemma concat_singles [simp]: "concat (map (\<lambda>c. [c]) x) = x"
  by (induction x) simp_all

lemma TrimSpace_ascii:
  assumes "ascii s"
  shows "TrimSpace s = trim_space s"
proof -
  let ?t = "rev (dropWhile is_space s)"
  have "ascii ?t"
    using assms by (rule ascii_sub [rotated]) (auto dest: set_dropWhileD)
  then have "dropWhile space_rune (map (\<lambda>c. [c]) ?t) = map (\<lambda>c. [c]) (dropWhile is_space ?t)"
    by (rule dropWhile_singles)
  then have "TrimSpace s = concat (map (\<lambda>c. [c]) (rev (dropWhile is_space ?t)))"
    unfolding TrimSpace_def runes_ascii [OF assms] dropWhile_singles [OF assms] by (simp only: rev_map)
  then show ?thesis
    unfolding trim_space_def by (simp only: concat_singles)
qed

section \<open>The usage header comes back\<close>

definition plain_part :: "string \<Rightarrow> bool" where
  "plain_part s \<longleftrightarrow> (\<forall>c \<in> set s. (of_char c :: nat) < 0x80 \<and> \<not> is_space c \<and> c \<noteq> CHR '';'')"

lemma plain_part_append [simp]: "plain_part (a @ b) \<longleftrightarrow> plain_part a \<and> plain_part b"
  by (auto simp: plain_part_def)

lemma plain_part_trim:
  assumes "plain_part s"
  shows "TrimSpace s = s" "TrimSpace (CHR '' '' # s) = s"
proof -
  have "ascii s" "ascii (CHR '' '' # s)"
    using assms by (auto simp: plain_part_def ascii_def)
  moreover have "trim_space s = s"
    using assms by (intro trim_space_no_space) (simp add: plain_part_def)
  moreover have "trim_space (CHR '' '' # s) = trim_space s"
    by (simp add: trim_space_def is_space_def)
  ultimately show "TrimSpace s = s" "TrimSpace (CHR '' '' # s) = s"
    by (simp_all add: TrimSpace_ascii)
qed

lemma digit_plain: "is_digit c \<Longrightarrow> (of_char c :: nat) < 0x80 \<and> \<not> is_space c \<and> c \<noteq> CHR '';''"
  by (auto simp: is_digit_def is_space_def)

lemma utoa_plain: "plain_part (utoa n)"
  using all_digits_set [OF utoa_all_digits [of n]] digit_plain by (auto simp: plain_part_def)

lemma itoa_plain: "plain_part (itoa i)"
proof -
  have "plain_part (CHR ''-'' # utoa n)" for n
    using utoa_plain [of n] by (simp add: plain_part_def is_space_def)
  then show ?thesis by (simp add: itoa_def utoa_plain)
qed

lemma parse_int64_itoa:
  assumes "- 9223372036854775808 \<le> i" "i \<le> max_int64"
  shows "parse_int64 (itoa i) = Some i"
proof (cases "i < 0")
  case True
  then show ?thesis
    using assms by (simp add: itoa_def parse_int64_def parse_uint64_utoa)
next
  case False
  then show ?thesis
    using assms parse_int64_digits [of "utoa (nat i)"] by (simp add: itoa_def)
qed

lemma split_on_first: "sep \<notin> set a \<Longrightarrow> split_on sep (a @ sep # b) = a # split_on sep b"
  by (induction a) auto

lemma plain_no_semicolon: "plain_part s \<Longrightarrow> CHR '';'' \<notin> set s"
  by (auto simp: plain_part_def)

lemma split_joined:
  "list_all plain_part (p # ps) \<Longrightarrow>
     split_on (CHR '';'') (join_with ''; '' (p # ps)) = p # map ((#) (CHR '' '')) ps"
proof (induction ps arbitrary: p)
  case Nil
  then show ?case by (simp add: split_on_absent plain_no_semicolon)
next
  case (Cons q qs)
  then have q: "split_on (CHR '';'') (join_with ''; '' (q # qs)) = q # map ((#) (CHR '' '')) qs" and p: "CHR '';'' \<notin> set p"
    by (simp_all add: plain_no_semicolon)
  have "split_on (CHR '';'') (CHR '' '' # join_with ''; '' (q # qs)) = (CHR '' '' # q) # map ((#) (CHR '' '')) qs"
    using q by simp
  then show ?case
    using split_on_first [OF p, of "CHR '' '' # join_with ''; '' (q # qs)"] by simp
qed

lemma user_info_parts:
  "list_all plain_part ps \<Longrightarrow> user_info_value k (map ((#) (CHR '' '')) ps) = user_info_value k ps"
  by (induction ps) (simp_all add: plain_part_trim split: option.split)

lemma user_info_built:
  assumes "list_all plain_part (p # ps)"
  shows "user_info_value k (split_on (CHR '';'') (join_with ''; '' (p # ps)))
    = (case cut_prefix p k of Some after \<Rightarrow> Some after | None \<Rightarrow> user_info_value k ps)"
  using assms user_info_parts [of ps k] by (simp add: split_joined plain_part_trim split: option.split)

lemma plain_keys: "plain_part ''upload=''" "plain_part ''download=''" "plain_part ''total=''" "plain_part ''expire=''"
  by (simp_all add: plain_part_def is_space_def)

lemma plain_fields:
  "plain_part (''upload='' @ itoa u)" "plain_part (''download='' @ itoa d)" "plain_part (''total='' @ itoa t)"
  "plain_part (''expire='' @ itoa e)"
  unfolding plain_part_append using plain_keys itoa_plain by blast+

text \<open>
  The usage header survives its trip: for 64-bit counters and an expiry that is absent or a
  printed number, a client that parses the header the endpoint builds reads back exactly the
  uploaded, downloaded and total bytes and the expiry.
\<close>

theorem user_info_round_trip:
  assumes "\<forall>n \<in> {u, d, t}. - 9223372036854775808 \<le> n \<and> n \<le> max_int64"
    and "expire = [] \<or> (\<exists>n. expire = itoa n)"
  shows "let h = BuildUserInfoHeader u d t expire in
    ParseUserInfoValue [(''subscription-userinfo'', h)] ''upload'' = u
    \<and> ParseUserInfoValue [(''subscription-userinfo'', h)] ''download'' = d
    \<and> ParseUserInfoValue [(''subscription-userinfo'', h)] ''total'' = t
    \<and> ParseExpireFromUserInfo h = expire"
proof -
  define U D T E where "U = ''upload='' @ itoa u" and "D = ''download='' @ itoa d" and "T = ''total='' @ itoa t"
    and "E = ''expire='' @ expire"
  note parts = U_def D_def T_def E_def
  have plain: "plain_part U" "plain_part D" "plain_part T" "expire \<noteq> [] \<Longrightarrow> plain_part E"
    using assms(2) plain_fields unfolding parts by auto
  have val: "user_info_value k (split_on (CHR '';'') (BuildUserInfoHeader u d t expire))
      = (case cut_prefix U k of Some a \<Rightarrow> Some a | None \<Rightarrow>
        (case cut_prefix D k of Some a \<Rightarrow> Some a | None \<Rightarrow>
        (case cut_prefix T k of Some a \<Rightarrow> Some a | None \<Rightarrow>
          (if expire = [] then None else cut_prefix E k))))" for k
    using user_info_built [of U "[D, T] @ (if expire \<noteq> [] then [E] else [])" k] plain
    unfolding BuildUserInfoHeader_def U_def [symmetric] D_def [symmetric] T_def [symmetric] E_def [symmetric]
    by (simp add: plain_part_trim split: option.split)
  have int: "parse_int64 (itoa u) = Some u" "parse_int64 (itoa d) = Some d" "parse_int64 (itoa t) = Some t"
    using assms(1) by (simp_all add: parse_int64_itoa)
  have "ParseUserInfoValue [(''subscription-userinfo'', BuildUserInfoHeader u d t expire)] ''upload'' = u"
    "ParseUserInfoValue [(''subscription-userinfo'', BuildUserInfoHeader u d t expire)] ''download'' = d"
    "ParseUserInfoValue [(''subscription-userinfo'', BuildUserInfoHeader u d t expire)] ''total'' = t"
    by (simp_all add: ParseUserInfoValue_def val parts cut_prefix_def int)
  moreover have "ParseExpireFromUserInfo (BuildUserInfoHeader u d t expire) = expire"
    by (simp add: ParseExpireFromUserInfo_def val parts cut_prefix_def)
  ultimately show ?thesis by (simp add: Let_def)
qed

section \<open>What is forwarded\<close>

lemma fold_apply_header:
  "set (fold apply_header hs target) \<subseteq>
     set target \<union> {(canonical_key k, v) | k v. (k, v) \<in> set hs \<and> \<not> SkipTransportHeader k}"
proof (induction hs arbitrary: target)
  case Nil
  then show ?case by simp
next
  case (Cons h hs)
  have update: "set (AList.update k v xs) \<subseteq> insert (k, v) (set xs)" for k v and xs :: headers
    by (induction xs) auto
  obtain j w where h: "h = (j, w)" by (cases h)
  have "set (apply_header h target) \<subseteq> set target \<union> {(canonical_key k, v) | k v. (k, v) = h \<and> \<not> SkipTransportHeader k}"
    using update [of "canonical_key j" w target] by (auto simp: apply_header_def h)
  then show ?case
    using Cons.IH [of "apply_header h target"] by fastforce
qed

lemma char_lower_other: "c \<notin> set ascii_upper \<Longrightarrow> char_lower c = c"
  by (simp add: char_lower_def ascii_upper_def ascii_lower_def)

lemma char_upper_other: "c \<notin> set ascii_lower \<Longrightarrow> char_upper c = c"
  by (simp add: char_upper_def ascii_upper_def ascii_lower_def)

lemma letters_table:
  "list_all (\<lambda>c. char_lower (char_upper c) = c \<and> c \<notin> set ascii_upper) ascii_lower"
  "list_all (\<lambda>c. char_lower c \<notin> set ascii_upper) ascii_upper"
  by code_simp+

lemma char_lower_upper: "c \<in> set ascii_lower \<Longrightarrow> char_lower (char_upper c) = c \<and> c \<notin> set ascii_upper"
  using letters_table(1) by (simp add: list_all_iff)

lemma char_lower_in: "c \<in> set ascii_upper \<Longrightarrow> char_lower c \<notin> set ascii_upper"
  using letters_table(2) by (simp add: list_all_iff)

lemma char_lower_upper_any [simp]: "char_lower (char_upper c) = char_lower c"
  using char_lower_other [of c] char_upper_other [of c] char_lower_upper [of c] by metis

lemma char_lower_lower [simp]: "char_lower (char_lower c) = char_lower c"
  using char_lower_other [of c] char_lower_other [of "char_lower c"] char_lower_in [of c] by metis

lemma lower_title: "to_lower (title_case b k) = to_lower k"
  by (induction k arbitrary: b) (simp_all add: to_lower_def)

lemma lower_canonical: "to_lower (canonical_key k) = to_lower k"
  by (simp add: canonical_key_def lower_title)

lemma update_sub: "set (AList.update k v xs) \<subseteq> insert (k, v) (set xs)"
  by (induction xs) auto

text \<open>
  What a panel sends cannot take over the response: every header of the response is the
  endpoint's own content type or usage header, or comes from the first panel under the same name
  with its value, and is then no transport header, no content type and no usage header in any spelling.
\<close>

theorem ResponseHeaders_sources:
  "\<forall>(k, v) \<in> set (ResponseHeaders src contentType userInfo).
     k = ''content-type'' \<and> v = contentType \<or> k = ''subscription-userinfo'' \<and> v = userInfo
     \<or> (\<exists>hs j. src = Some hs \<and> (j, v) \<in> set hs \<and> to_lower k = to_lower j \<and> to_lower k \<notin> set transport_headers)"
proof -
  let ?applied = "ApplySourceHeaders [] src"
  have applied: "\<exists>hs j. src = Some hs \<and> (j, v) \<in> set hs \<and> to_lower k = to_lower j \<and> to_lower k \<notin> set transport_headers"
    if kv: "(k, v) \<in> set ?applied" for k v
  proof (cases src)
    case None
    then show ?thesis using kv by (simp add: ApplySourceHeaders_def)
  next
    case (Some hs)
    then obtain j where "(j, v) \<in> set hs" "k = canonical_key j" "\<not> SkipTransportHeader j"
      using kv fold_apply_header [of hs "[]"] by (auto simp: ApplySourceHeaders_def)
    then show ?thesis using Some by (auto simp: SkipTransportHeader_def lower_canonical)
  qed
  have "(k, v) = (''subscription-userinfo'', userInfo) \<or> (k, v) = (''content-type'', contentType) \<or> (k, v) \<in> set ?applied"
    if "(k, v) \<in> set (ResponseHeaders src contentType userInfo)" for k v
    using that update_sub [of "''content-type''" contentType ?applied]
      update_sub [of "''subscription-userinfo''" userInfo "AList.update ''content-type'' contentType ?applied"]
    unfolding ResponseHeaders_def by blast
  then show ?thesis using applied by fastforce
qed

lemma ResponseHeaders_own:
  "map_of (ResponseHeaders src contentType userInfo) ''content-type'' = Some contentType"
  "map_of (ResponseHeaders src contentType userInfo) ''subscription-userinfo'' = Some userInfo"
  by (simp_all add: ResponseHeaders_def update_conv')

section \<open>The title comes back\<close>

lemma b64_chars_plain:
  "c \<in> set b64_alphabet \<Longrightarrow> (of_char c :: nat) < 0x80 \<and> \<not> is_space c"
  by (auto simp: b64_alphabet_def ascii_upper_def ascii_lower_def is_space_def)

lemma b64_text_trim:
  assumes "\<And>c. c \<in> set v \<Longrightarrow> c = CHR ''='' \<or> c \<in> set b64_alphabet"
  shows "TrimSpace v = v"
proof -
  have "(of_char c :: nat) < 0x80 \<and> \<not> is_space c" if "c \<in> set v" for c
    using assms [OF that] b64_chars_plain [of c] by (auto simp: is_space_def)
  then show ?thesis
    by (subst TrimSpace_ascii) (auto simp: ascii_def intro: trim_space_no_space)
qed

lemma b64_trim: "TrimSpace (b64_encode s) = b64_encode s" "TrimSpace (b64_raw s) = b64_raw s"
  using b64_encode_chars by (auto intro!: b64_text_trim simp: b64_raw_def)

lemma b64_nonempty: "s \<noteq> [] \<Longrightarrow> b64_encode s \<noteq> [] \<and> b64_raw s \<noteq> []"
  by (cases s rule: b64_encode.cases) (simp_all add: b64_raw_simps)

lemma has_prefix_split: "has_prefix s p \<Longrightarrow> \<exists>rest. s = p @ rest"
  by (induction s p rule: has_prefix.induct) simp_all

lemma has_prefix_append: "has_prefix (p @ s) p"
  by (induction p) simp_all

lemma b64_no_prefix:
  assumes "\<And>c. c \<in> set v \<Longrightarrow> c = CHR ''='' \<or> c \<in> set b64_alphabet"
  shows "\<not> has_prefix (to_lower v) ''base64:''"
proof
  assume "has_prefix (to_lower v) ''base64:''"
  then have "CHR '':'' \<in> set (to_lower v)"
    using has_prefix_split by fastforce
  then obtain c where "c \<in> set v" "char_lower c = CHR '':''"
    by (auto simp: to_lower_def)
  then show False
    using assms [of c] by (auto simp: b64_alphabet_def char_lower_def ascii_upper_def ascii_lower_def)
qed

text \<open>
  The forms in which a panel can send the title \<open>x\<close>: base64 with or without its padding, with the
  prefix \<open>base64:\<close> in any case or without it, or as it is. A text that decodes to a printable one
  counts as encoded.
\<close>

definition sent_encoded :: "string \<Rightarrow> string \<Rightarrow> bool" where
  "sent_encoded x payload \<longleftrightarrow> isPrintableProfileTitle x \<and> (payload = b64_encode x \<or> payload = b64_raw x)"

definition sent_plain :: "string \<Rightarrow> string \<Rightarrow> bool" where
  "sent_plain x payload \<longleftrightarrow> payload = x \<and> x \<noteq> [] \<and> TrimSpace x = x
     \<and> (\<forall>padded d. b64_decode padded x = Some d \<longrightarrow> \<not> isPrintableProfileTitle d)"

definition title_sent :: "string \<Rightarrow> string \<Rightarrow> bool" where
  "title_sent x v \<longleftrightarrow>
     (\<exists>p payload. v = p @ payload \<and> to_lower p = ''base64:'' \<and> (sent_encoded x payload \<or> sent_plain x payload))
     \<or> sent_encoded x v \<or> (sent_plain x v \<and> \<not> has_prefix (to_lower v) ''base64:'')"

lemma sent_encoded_simps:
  assumes "sent_encoded x payload"
  shows "TrimSpace payload = payload" "payload \<noteq> []" "\<not> has_prefix (to_lower payload) ''base64:''"
    "printable_decoding True payload = Some x \<or> printable_decoding True payload = None \<and> printable_decoding False payload = Some x"
proof -
  have x: "x \<noteq> []" "isPrintableProfileTitle x" "payload = b64_encode x \<or> payload = b64_raw x"
    using assms by (auto simp: sent_encoded_def isPrintableProfileTitle_def)
  show "TrimSpace payload = payload" "payload \<noteq> []"
    using x b64_trim b64_nonempty [of x] by auto
  show "\<not> has_prefix (to_lower payload) ''base64:''"
    using x(3) b64_encode_chars [of _ x] by (intro b64_no_prefix) (auto simp: b64_raw_def)
  show "printable_decoding True payload = Some x \<or> printable_decoding True payload = None \<and> printable_decoding False payload = Some x"
    using x b64_decode_raw [of x] by (auto simp: printable_decoding_def b64_decode_encode)
qed

lemma decode_payload:
  assumes "sent_encoded x payload \<or> sent_plain x payload"
  shows "payload \<noteq> []" "TrimSpace payload = payload"
    "(case printable_decoding True payload of Some d \<Rightarrow> d
        | None \<Rightarrow> (case printable_decoding False payload of Some d \<Rightarrow> d | None \<Rightarrow> payload)) = x"
  using assms sent_encoded_simps [of x payload]
  by (auto simp: sent_plain_def printable_decoding_def split: option.split)

lemma title_decoded:
  assumes "title_sent x v"
  shows "v \<noteq> []" "decodeProfileTitle v = x"
proof -
  consider (prefixed) p payload where "v = p @ payload" "to_lower p = ''base64:''" "sent_encoded x payload \<or> sent_plain x payload"
    | (bare) "sent_encoded x v \<or> sent_plain x v" "\<not> has_prefix (to_lower v) ''base64:''"
    using assms sent_encoded_simps(3) [of x v] unfolding title_sent_def by blast
  then have "v \<noteq> [] \<and> decodeProfileTitle v = x"
  proof cases
    case prefixed
    have "length p = 7" using arg_cong [OF prefixed(2), of length] by (simp add: to_lower_def)
    moreover have "has_prefix (to_lower v) ''base64:''"
      using prefixed(1,2) has_prefix_append [of "''base64:''" "to_lower payload"] by (simp add: to_lower_def)
    ultimately show ?thesis
      using prefixed(1) decode_payload [OF prefixed(3)] by (simp add: decodeProfileTitle_def Let_def)
  next
    case bare
    then show ?thesis
      using decode_payload [OF bare(1)] by (simp add: decodeProfileTitle_def Let_def)
  qed
  then show "v \<noteq> []" "decodeProfileTitle v = x" by blast+
qed


end
