(* ===== verification/Subserver_Cache.thy ===== *)
theory Subserver_Cache
  imports Telegram_Text "HOL-Library.AList"
begin

text \<open>
  The memories of the delivery endpoint: the response cache of \<open>internal/subserver/cache.go\<close>, its keys
  (\<open>format.go\<close>, \<open>subscription.go\<close>), and the interval gate of \<open>internal/utils/gate.go\<close>.

  A Go map is a list of its entries with distinct keys, in one order of iteration: where the code
  takes the first of several entries that expire at the same moment, the list decides. Bodies and
  headers are copied on the way in and out, so values are kept by value.

  The locale \<open>ttl_memory\<close> states what the callers of a cache with a time to live rely on, and derives
  from it that a value served is always the last one stored and not yet dropped or expired.
\<close>

section \<open>A memory with a time to live\<close>

text \<open>What is done to a memory: a value is stored, one or several keys are dropped, or old entries are trimmed.\<close>

datatype ('c, 'k, 'v) memory_action = Store time 'k 'v | Drop 'k | DropAll "'k list" | Trim "'c \<Rightarrow> 'c"

fun perform ::
  "(time \<Rightarrow> 'k \<Rightarrow> 'v \<Rightarrow> 'c \<Rightarrow> 'c) \<Rightarrow> ('k \<Rightarrow> 'c \<Rightarrow> 'c) \<Rightarrow> ('k list \<Rightarrow> 'c \<Rightarrow> 'c)
    \<Rightarrow> ('c, 'k, 'v) memory_action \<Rightarrow> 'c \<Rightarrow> 'c" where
  "perform store drop_key drop_keys (Store now k v) c = store now k v c"
| "perform store drop_key drop_keys (Drop k) c = drop_key k c"
| "perform store drop_key drop_keys (DropAll ks) c = drop_keys ks c"
| "perform store drop_key drop_keys (Trim f) c = f c"

text \<open>The action that decides a key, in a history with its newest action first.\<close>

fun last_on :: "'k \<Rightarrow> ('c, 'k, 'v) memory_action list \<Rightarrow> (time \<times> 'v) option" where
  "last_on k [] = None"
| "last_on k (Store now k' v # as) = (if k' = k then Some (now, v) else last_on k as)"
| "last_on k (Drop k' # as) = (if k' = k then None else last_on k as)"
| "last_on k (DropAll ks # as) = (if k \<in> set ks then None else last_on k as)"
| "last_on k (Trim f # as) = last_on k as"

lemma last_on_split:
  "last_on k as = Some (now, u) \<Longrightarrow> \<exists>newer older. as = newer @ Store now k u # older
     \<and> Drop k \<notin> set newer \<and> (\<forall>ks. DropAll ks \<in> set newer \<longrightarrow> k \<notin> set ks) \<and> (\<forall>s v. Store s k v \<notin> set newer)"
proof (induction k as rule: last_on.induct)
  case (2 k s k' v as)
  show ?case
  proof (cases "k' = k")
    case True
    then show ?thesis using 2 by (intro exI [of _ "[]"] exI [of _ as]) simp
  next
    case False
    then obtain newer older where "as = newer @ Store now k u # older" "Drop k \<notin> set newer"
      "\<forall>ks. DropAll ks \<in> set newer \<longrightarrow> k \<notin> set ks" "\<forall>s v. Store s k v \<notin> set newer"
      using 2 by auto
    then show ?thesis using False by (intro exI [of _ "Store s k' v # newer"] exI [of _ older]) simp
  qed
next
  case (3 k k' as)
  then obtain newer older where "k' \<noteq> k" "as = newer @ Store now k u # older" "Drop k \<notin> set newer"
    "\<forall>ks. DropAll ks \<in> set newer \<longrightarrow> k \<notin> set ks" "\<forall>s v. Store s k v \<notin> set newer"
    by (auto split: if_splits)
  then show ?case by (intro exI [of _ "Drop k' # newer"] exI [of _ older]) simp
next
  case (4 k ks as)
  then obtain newer older where "k \<notin> set ks" "as = newer @ Store now k u # older" "Drop k \<notin> set newer"
    "\<forall>ks. DropAll ks \<in> set newer \<longrightarrow> k \<notin> set ks" "\<forall>s v. Store s k v \<notin> set newer"
    by (auto split: if_splits)
  then show ?case by (intro exI [of _ "DropAll ks # newer"] exI [of _ older]) auto
next
  case (5 k f as)
  then obtain newer older where "as = newer @ Store now k u # older" "Drop k \<notin> set newer"
    "\<forall>ks. DropAll ks \<in> set newer \<longrightarrow> k \<notin> set ks" "\<forall>s v. Store s k v \<notin> set newer"
    by auto
  then show ?case by (intro exI [of _ "Trim f # newer"] exI [of _ older]) simp
qed simp

locale ttl_memory =
  fixes look :: "'c \<Rightarrow> time \<Rightarrow> 'k \<Rightarrow> 'v option"
    and store :: "time \<Rightarrow> 'k \<Rightarrow> 'v \<Rightarrow> 'c \<Rightarrow> 'c"
    and drop_key :: "'k \<Rightarrow> 'c \<Rightarrow> 'c"
    and drop_keys :: "'k list \<Rightarrow> 'c \<Rightarrow> 'c"
    and ok :: "'c \<Rightarrow> bool"
    and ttl :: "'c \<Rightarrow> duration"
  assumes store_same: "ok c \<Longrightarrow> look (store now k v c) t k = Some u \<Longrightarrow> u = v \<and> t \<le> now + ttl c"
    and store_other: "ok c \<Longrightarrow> k' \<noteq> k \<Longrightarrow> look (store now k v c) t k' = Some u \<Longrightarrow> look c t k' = Some u"
    and drop_same: "ok c \<Longrightarrow> look (drop_key k c) t k = None"
    and drop_other: "ok c \<Longrightarrow> look (drop_key k c) t k' = Some u \<Longrightarrow> look c t k' = Some u"
    and drop_all: "ok c \<Longrightarrow> look (drop_keys ks c) t k = (if k \<in> set ks then None else look c t k)"
    and ok_drop_all: "ok c \<Longrightarrow> ok (drop_keys ks c) \<and> ttl (drop_keys ks c) = ttl c"
    and ok_store: "ok c \<Longrightarrow> ok (store now k v c) \<and> ttl (store now k v c) = ttl c"
    and ok_drop: "ok c \<Longrightarrow> ok (drop_key k c) \<and> ttl (drop_key k c) = ttl c"
begin

definition trims :: "('c \<Rightarrow> 'c) \<Rightarrow> bool" where
  "trims f \<longleftrightarrow> (\<forall>c t k u. ok c \<longrightarrow> (look (f c) t k = Some u \<longrightarrow> look c t k = Some u) \<and> ok (f c) \<and> ttl (f c) = ttl c)"

lemma performs_ok:
  "ok c \<Longrightarrow> \<forall>f. Trim f \<in> set as \<longrightarrow> trims f \<Longrightarrow>
     ok (foldr (perform store drop_key drop_keys) as c) \<and> ttl (foldr (perform store drop_key drop_keys) as c) = ttl c"
proof (induction as)
  case Nil
  then show ?case by simp
next
  case (Cons a as)
  then have c: "ok (foldr (perform store drop_key drop_keys) as c)" "ttl (foldr (perform store drop_key drop_keys) as c) = ttl c"
    by simp_all
  show ?case
  proof (cases a)
    case (Store now k v)
    then show ?thesis using ok_store [OF c(1), of now k v] c(2) by simp
  next
    case (Drop k)
    then show ?thesis using ok_drop [OF c(1), of k] c(2) by simp
  next
    case (DropAll ks)
    then show ?thesis using ok_drop_all [OF c(1), of ks] c(2) by simp
  next
    case (Trim f)
    then have "trims f" using Cons.prems by simp
    then show ?thesis using c Trim unfolding trims_def by simp
  qed
qed

lemma serves_last:
  assumes "ok c" "\<And>t k. look c t k = None" "\<forall>f. Trim f \<in> set as \<longrightarrow> trims f"
    "look (foldr (perform store drop_key drop_keys) as c) t k = Some u"
  shows "\<exists>now. last_on k as = Some (now, u) \<and> t \<le> now + ttl c"
  using assms(3,4)
proof (induction as)
  case Nil
  then show ?case using assms(2) by simp
next
  case (Cons a as)
  let ?d = "foldr (perform store drop_key drop_keys) as c"
  have as: "\<forall>f. Trim f \<in> set as \<longrightarrow> trims f" and now: "look (perform store drop_key drop_keys a ?d) t k = Some u"
    using Cons.prems by simp_all
  have d: "ok ?d" "ttl ?d = ttl c"
    using performs_ok [OF assms(1) as] by simp_all
  note IH = Cons.IH [OF as]
  show ?case
  proof (cases a)
    case (Store s k' v)
    show ?thesis
    proof (cases "k' = k")
      case True
      then show ?thesis using store_same [OF d(1), of s k v t u] now Store d(2) by simp
    next
      case False
      then show ?thesis using IH store_other [OF d(1), of k k' s v t u] now Store by simp
    qed
  next
    case (Drop k')
    show ?thesis
    proof (cases "k' = k")
      case True
      then show ?thesis using drop_same [OF d(1), of k t] now Drop by simp
    next
      case False
      then show ?thesis using IH drop_other [OF d(1), of k' t k u] now Drop by simp
    qed
  next
    case (DropAll ks)
    then show ?thesis using IH drop_all [OF d(1), of ks t k] now by (simp split: if_splits)
  next
    case (Trim f)
    then have "trims f" "look (f ?d) t k = Some u"
      using Cons.prems now by simp_all
    then have "look ?d t k = Some u"
      using d(1) unfolding trims_def by blast
    then show ?thesis using IH Trim by simp
  qed
qed

end

section \<open>The response cache\<close>

record 'v cache_entry =
  en_key :: string
  en_value :: 'v
  en_expires :: time

record 'v response_cache =
  rc_entries :: "'v cache_entry list"
  rc_ttl :: duration

definition NewCache :: "duration \<Rightarrow> 'v response_cache" where
  "NewCache ttl = \<lparr>rc_entries = [], rc_ttl = ttl\<rparr>"

definition entry_of :: "string \<Rightarrow> 'v cache_entry list \<Rightarrow> 'v cache_entry option" where
  "entry_of key es = select_first (\<lambda>e. en_key e = key) es"

definition cache_get :: "'v response_cache \<Rightarrow> time \<Rightarrow> string \<Rightarrow> 'v option" where
  "cache_get c now key =
     (case entry_of key (rc_entries c) of
        None \<Rightarrow> None
      | Some e \<Rightarrow> if en_expires e < now then None else Some (en_value e))"

definition MaxCacheEntries :: nat where "MaxCacheEntries = 10000"

text \<open>The entry that expires first; \<open>evict\<close> is the loop of \<open>evictOverflowLocked\<close> for any limit.\<close>

fun oldest :: "'v cache_entry \<Rightarrow> 'v cache_entry list \<Rightarrow> 'v cache_entry" where
  "oldest e [] = e"
| "oldest e (x # xs) = oldest (if en_expires x < en_expires e then x else e) xs"

definition delete_entry :: "string \<Rightarrow> 'v cache_entry list \<Rightarrow> 'v cache_entry list" where
  "delete_entry key es = delete_where (\<lambda>e. en_key e = key) es"

lemma oldest_in: "oldest e xs \<in> set (e # xs)"
proof (induction xs arbitrary: e)
  case Nil
  then show ?case by simp
next
  case (Cons x xs)
  then show ?case using Cons.IH [of "if en_expires x < en_expires e then x else e"] by auto
qed

lemma oldest_least: "x \<in> set (e # xs) \<Longrightarrow> en_expires (oldest e xs) \<le> en_expires x"
proof (induction xs arbitrary: e x)
  case Nil
  then show ?case by simp
next
  case (Cons y ys)
  let ?m = "if en_expires y < en_expires e then y else e"
  have "en_expires (oldest ?m ys) \<le> en_expires ?m"
    using Cons.IH [of ?m ?m] by simp
  then show ?case
    using Cons.prems Cons.IH [of x ?m] by (auto split: if_splits)
qed

lemma delete_oldest_shorter: "length (delete_entry (en_key (oldest e xs)) (e # xs)) < length (e # xs)"
proof -
  have "\<exists>x \<in> set (e # xs). en_key x = en_key (oldest e xs)"
    using oldest_in by blast
  then show ?thesis
    unfolding delete_entry_def delete_where_def by (metis (mono_tags) length_filter_less)
qed

function evict :: "nat \<Rightarrow> 'v cache_entry list \<Rightarrow> 'v cache_entry list" where
  "evict limit es =
     (if length es \<le> limit then es
      else case es of [] \<Rightarrow> [] | e # xs \<Rightarrow> evict limit (delete_entry (en_key (oldest e xs)) es))"
  by pat_completeness auto
termination
  by (relation "measure (length \<circ> snd)") (auto simp: delete_oldest_shorter simp del: list.size)

declare evict.simps [simp del]

definition cache_set :: "time \<Rightarrow> string \<Rightarrow> 'v \<Rightarrow> 'v response_cache \<Rightarrow> 'v response_cache" where
  "cache_set now key v c =
     c\<lparr>rc_entries := evict MaxCacheEntries
        (delete_entry key (rc_entries c) @ [\<lparr>en_key = key, en_value = v, en_expires = now + rc_ttl c\<rparr>])\<rparr>"

definition cache_delete :: "string \<Rightarrow> 'v response_cache \<Rightarrow> 'v response_cache" where
  "cache_delete key c = c\<lparr>rc_entries := delete_entry key (rc_entries c)\<rparr>"

definition DeleteKeys :: "string list \<Rightarrow> 'v response_cache \<Rightarrow> 'v response_cache" where
  "DeleteKeys keys c = fold cache_delete keys c"

text \<open>The two critical sections of \<open>cleanup\<close>: the expired keys are collected, later removed if they
  are still expired.\<close>

definition expired_keys :: "time \<Rightarrow> 'v response_cache \<Rightarrow> string list" where
  "expired_keys now c = map en_key (filter (\<lambda>e. en_expires e < now) (rc_entries c))"

definition purge :: "time \<Rightarrow> string list \<Rightarrow> 'v response_cache \<Rightarrow> 'v response_cache" where
  "purge now keys c =
     c\<lparr>rc_entries := delete_where (\<lambda>e. en_key e \<in> set keys \<and> en_expires e < now) (rc_entries c)\<rparr>"

definition cleanup :: "time \<Rightarrow> 'v response_cache \<Rightarrow> 'v response_cache" where
  "cleanup now c = (if expired_keys now c = [] then c else purge now (expired_keys now c) c)"

section \<open>Its laws\<close>

definition cache_ok :: "'v response_cache \<Rightarrow> bool" where
  "cache_ok c \<longleftrightarrow> distinct (map en_key (rc_entries c)) \<and> length (rc_entries c) \<le> MaxCacheEntries"

lemma entry_of_iff: "distinct (map en_key es) \<Longrightarrow> entry_of key es = Some e \<longleftrightarrow> e \<in> set es \<and> en_key e = key"
proof (induction es)
  case Nil
  then show ?case by (simp add: entry_of_def select_first_def)
next
  case (Cons x xs)
  then show ?case by (auto simp: entry_of_def select_first_def rev_image_eqI)
qed

lemma delete_entry_set: "set (delete_entry key es) = {e \<in> set es. en_key e \<noteq> key}"
  by (auto simp: delete_entry_def delete_where_def)

lemma delete_entry_distinct: "distinct (map en_key es) \<Longrightarrow> distinct (map en_key (delete_entry key es))"
  by (simp add: delete_entry_def delete_where_def distinct_map_filter)

lemma evict_sub: "set (evict n es) \<subseteq> set es \<and> (distinct (map en_key es) \<longrightarrow> distinct (map en_key (evict n es)))"
proof (induction n es rule: evict.induct)
  case (1 n es)
  show ?case
  proof (cases "length es \<le> n")
    case True
    then show ?thesis by (simp add: evict.simps)
  next
    case False
    then obtain e xs where es: "es = e # xs" by (cases es) auto
    show ?thesis
      using 1 [OF False es] delete_entry_distinct [of es] delete_entry_set [of _ es] False es
      by (subst (1 2) evict.simps) auto
  qed
qed

lemma evict_length: "length (evict n es) \<le> n"
proof (induction n es rule: evict.induct)
  case (1 n es)
  then show ?case by (cases es) (auto simp: evict.simps)
qed

text \<open>Eviction takes the entries that expire first.\<close>

lemma evict_order:
  "distinct (map en_key es) \<Longrightarrow> x \<in> set es \<Longrightarrow> x \<notin> set (evict n es) \<Longrightarrow> y \<in> set (evict n es) \<Longrightarrow> en_expires x \<le> en_expires y"
proof (induction n es rule: evict.induct)
  case (1 n es)
  show ?case
  proof (cases "length es \<le> n")
    case True
    then show ?thesis using 1 by (simp add: evict.simps)
  next
    case False
    then obtain e xs where es: "es = e # xs" by (cases es) auto
    let ?o = "oldest e xs" and ?ds = "delete_entry (en_key (oldest e xs)) es"
    have ev: "evict n es = evict n ?ds"
      using False es by (subst evict.simps) simp
    have y: "y \<in> set es"
      using 1(5) evict_sub [of n es] by blast
    show ?thesis
    proof (cases "x \<in> set ?ds")
      case True
      then show ?thesis
        using 1(1) [OF False es delete_entry_distinct [OF 1(2)]] 1(4,5) ev by simp
    next
      case False
      then have "en_key x = en_key ?o"
        using 1(3) by (simp add: delete_entry_set)
      then have "x = ?o"
        using 1(2,3) oldest_in [of e xs] es by (metis distinct_map inj_on_def)
      then show ?thesis
        using oldest_least [of y e xs] y es by simp
    qed
  qed
qed

lemma cache_get_iff:
  assumes "cache_ok c"
  shows "cache_get c t k = Some v \<longleftrightarrow> (\<exists>e \<in> set (rc_entries c). en_key e = k \<and> en_value e = v \<and> t \<le> en_expires e)"
proof (cases "entry_of k (rc_entries c)")
  case None
  then have "\<forall>e \<in> set (rc_entries c). en_key e \<noteq> k"
    by (simp add: entry_of_def select_first_None)
  then show ?thesis using None by (auto simp: cache_get_def)
next
  case (Some a)
  have d: "distinct (map en_key (rc_entries c))"
    using assms by (simp add: cache_ok_def)
  have a: "a \<in> set (rc_entries c)" "en_key a = k"
    using Some entry_of_iff [OF d, of k a] by simp_all
  have "e = a" if "e \<in> set (rc_entries c)" "en_key e = k" for e
    using Some entry_of_iff [OF d, of k e] that by simp
  then show ?thesis using Some a by (force simp: cache_get_def)
qed

lemma option_eqI: "(\<And>v. x = Some v \<longleftrightarrow> y = Some v) \<Longrightarrow> x = y"
  by (cases x; cases y) auto

lemma cache_set_ok: "cache_ok c \<Longrightarrow> cache_ok (cache_set now k v c)"
  using evict_sub [of MaxCacheEntries "delete_entry k (rc_entries c) @ [\<lparr>en_key = k, en_value = v, en_expires = now + rc_ttl c\<rparr>]"]
  by (auto simp: cache_ok_def cache_set_def evict_length delete_entry_distinct delete_entry_set)

lemma cache_set_sub:
  "set (rc_entries (cache_set now k v c)) \<subseteq>
     insert \<lparr>en_key = k, en_value = v, en_expires = now + rc_ttl c\<rparr> {e \<in> set (rc_entries c). en_key e \<noteq> k}"
  using evict_sub [of MaxCacheEntries "delete_entry k (rc_entries c) @ [\<lparr>en_key = k, en_value = v, en_expires = now + rc_ttl c\<rparr>]", THEN conjunct1]
  by (auto simp: cache_set_def delete_entry_set)

lemma cache_set_entries:
  assumes "e \<in> set (rc_entries (cache_set now k v c))"
  shows "en_key e = k \<and> en_value e = v \<and> en_expires e = now + rc_ttl c \<or> e \<in> set (rc_entries c) \<and> en_key e \<noteq> k"
proof -
  have "e = \<lparr>en_key = k, en_value = v, en_expires = now + rc_ttl c\<rparr> \<or> e \<in> set (rc_entries c) \<and> en_key e \<noteq> k"
    using assms cache_set_sub by fastforce
  then show ?thesis by (rule disjE) simp_all
qed

lemma cache_delete_entries: "set (rc_entries (cache_delete k c)) = {e \<in> set (rc_entries c). en_key e \<noteq> k}"
  by (simp add: cache_delete_def delete_entry_set)

lemma filtered_ok: "cache_ok c \<Longrightarrow> cache_ok (c\<lparr>rc_entries := filter P (rc_entries c)\<rparr>)"
  unfolding cache_ok_def by (simp add: distinct_map_filter le_trans [OF length_filter_le])

lemma cache_delete_ok: "cache_ok c \<Longrightarrow> cache_ok (cache_delete k c)"
  unfolding cache_delete_def delete_entry_def delete_where_def by (rule filtered_ok)

lemma DeleteKeys_laws:
  "cache_ok c \<Longrightarrow> cache_ok (DeleteKeys keys c) \<and> rc_ttl (DeleteKeys keys c) = rc_ttl c
     \<and> set (rc_entries (DeleteKeys keys c)) = {e \<in> set (rc_entries c). en_key e \<notin> set keys}"
proof (induction keys arbitrary: c)
  case Nil
  then show ?case by (simp add: DeleteKeys_def)
next
  case (Cons k ks)
  then show ?case
    using Cons.IH [OF cache_delete_ok [OF Cons.prems, of k]]
    by (auto simp: DeleteKeys_def cache_delete_def delete_entry_set)
qed

lemma DeleteKeys_get:
  assumes "cache_ok c"
  shows "cache_get (DeleteKeys keys c) t k = (if k \<in> set keys then None else cache_get c t k)"
proof (rule option_eqI)
  fix v
  note d = DeleteKeys_laws [OF assms, of keys]
  have ok: "cache_ok (DeleteKeys keys c)" using d by blast
  show "cache_get (DeleteKeys keys c) t k = Some v \<longleftrightarrow> (if k \<in> set keys then None else cache_get c t k) = Some v"
    using d cache_get_iff [OF ok, of t k v] cache_get_iff [OF assms, of t k v] by (cases "k \<in> set keys") auto
qed

interpretation responses: ttl_memory cache_get cache_set cache_delete DeleteKeys cache_ok rc_ttl
proof
  fix c :: "'v response_cache" and now t :: time and k k' :: string and v u :: 'v
  assume ok: "cache_ok c"
  note iff = cache_get_iff [OF ok] cache_get_iff [OF cache_set_ok [OF ok]] cache_get_iff [OF cache_delete_ok [OF ok]]
  show "cache_get (cache_set now k v c) t k = Some u \<Longrightarrow> u = v \<and> t \<le> now + rc_ttl c"
    by (auto simp: iff dest!: cache_set_entries)
  show "k' \<noteq> k \<Longrightarrow> cache_get (cache_set now k v c) t k' = Some u \<Longrightarrow> cache_get c t k' = Some u"
    by (auto simp: iff dest!: cache_set_entries)
  show "cache_get (cache_delete k c) t k = None"
    by (rule option_eqI) (simp add: iff cache_delete_entries)
  show "cache_get (cache_delete k c) t k' = Some u \<Longrightarrow> cache_get c t k' = Some u"
    by (auto simp: iff cache_delete_entries)
  show "cache_get (DeleteKeys ks c) t k = (if k \<in> set ks then None else cache_get c t k)" for ks
    by (rule DeleteKeys_get [OF ok])
  show "cache_ok (DeleteKeys ks c) \<and> rc_ttl (DeleteKeys ks c) = rc_ttl c" for ks
    using DeleteKeys_laws [OF ok] by blast
  show "cache_ok (cache_set now k v c) \<and> rc_ttl (cache_set now k v c) = rc_ttl c"
    using cache_set_ok [OF ok] by (simp add: cache_set_def)
  show "cache_ok (cache_delete k c) \<and> rc_ttl (cache_delete k c) = rc_ttl c"
    using cache_delete_ok [OF ok] by (simp add: cache_delete_def)
qed

lemma cleanup_entries:
  "set (rc_entries (cleanup now c)) = {e \<in> set (rc_entries c). \<not> en_expires e < now}"
proof (cases "expired_keys now c = []")
  case True
  then have "\<forall>e \<in> set (rc_entries c). \<not> en_expires e < now"
    by (simp add: expired_keys_def filter_empty_conv)
  then show ?thesis using True by (auto simp: cleanup_def)
next
  case False
  then show ?thesis
    by (auto simp: cleanup_def purge_def delete_where_def expired_keys_def)
qed

lemma cleanup_ok: "cache_ok c \<Longrightarrow> cache_ok (cleanup now c)"
  using filtered_ok [of c] by (simp add: cleanup_def purge_def delete_where_def)

lemma cleanup_ttl: "rc_ttl (cleanup now c) = rc_ttl c"
  by (simp add: cleanup_def purge_def)

lemma cleanup_trims: "responses.trims (cleanup now)"
  unfolding responses.trims_def
proof (intro allI impI conjI)
  fix c :: "'v response_cache" and t k u
  assume ok: "cache_ok c"
  show "cache_ok (cleanup now c)" using ok by (rule cleanup_ok)
  show "rc_ttl (cleanup now c) = rc_ttl c" by (rule cleanup_ttl)
  assume "cache_get (cleanup now c) t k = Some u"
  then show "cache_get c t k = Some u"
    unfolding cache_get_iff [OF ok] cache_get_iff [OF cleanup_ok [OF ok]] cleanup_entries by blast
qed

lemma cleanup_get: "cache_ok c \<Longrightarrow> now \<le> t \<Longrightarrow> cache_get (cleanup now c) t k = cache_get c t k"
  by (rule option_eqI) (auto simp: cache_get_iff cleanup_ok cleanup_entries)

text \<open>
  C35. The response cache never serves an old answer: whatever was stored, deleted, invalidated and
  cleaned up, and in whatever order, a body that comes back for a key is the one stored last under
  it, neither a deletion nor an invalidation of the key came after that, and its time to live is not
  over. (In the history the newest action comes first.)
\<close>

theorem cache_serves_last_stored:
  assumes "\<forall>f. Trim f \<in> set as \<longrightarrow> (\<exists>now. f = cleanup now)"
    "cache_get (foldr (perform cache_set cache_delete DeleteKeys) as (NewCache ttl)) t k = Some u"
  shows "\<exists>newer older now. as = newer @ Store now k u # older \<and> t \<le> now + ttl
    \<and> Drop k \<notin> set newer \<and> (\<forall>ks. DropAll ks \<in> set newer \<longrightarrow> k \<notin> set ks) \<and> (\<forall>s v. Store s k v \<notin> set newer)"
proof -
  have "cache_ok (NewCache ttl)" "\<And>t k. cache_get (NewCache ttl) t k = None" "rc_ttl (NewCache ttl) = ttl"
    by (simp_all add: cache_ok_def NewCache_def cache_get_def entry_of_def select_first_def)
  then obtain now where "last_on k as = Some (now, u)" "t \<le> now + ttl"
    using responses.serves_last [of "NewCache ttl" as t k u] assms cleanup_trims by metis
  then show ?thesis using last_on_split [of k as now u] by blast
qed

text \<open>
  The response cache never grows beyond its limit and gives up the right entries: after any
  store it holds at most ten thousand, every entry it dropped to get there expires no later than
  every entry it kept, and the rest is what it was.
\<close>

theorem cache_bounded:
  assumes "cache_ok c"
  shows "length (rc_entries (cache_set now k v c)) \<le> MaxCacheEntries
    \<and> (\<forall>e \<in> set (rc_entries c). en_key e \<noteq> k \<longrightarrow> e \<notin> set (rc_entries (cache_set now k v c))
         \<longrightarrow> (\<forall>kept \<in> set (rc_entries (cache_set now k v c)). en_expires e \<le> en_expires kept))
    \<and> (length (rc_entries c) < MaxCacheEntries \<longrightarrow> cache_get (cache_set now k v c) (now + rc_ttl c) k = Some v)"
proof -
  let ?new = "\<lparr>en_key = k, en_value = v, en_expires = now + rc_ttl c\<rparr>"
  let ?es = "delete_entry k (rc_entries c) @ [?new]"
  have d: "distinct (map en_key ?es)"
    using assms by (auto simp: cache_ok_def delete_entry_distinct delete_entry_set)
  have 1: "length (rc_entries (cache_set now k v c)) \<le> MaxCacheEntries"
    by (simp add: cache_set_def evict_length)
  have ev: "rc_entries (cache_set now k v c) = evict MaxCacheEntries ?es"
    by (simp add: cache_set_def)
  have 2: "en_expires e \<le> en_expires kept"
    if e: "e \<in> set (rc_entries c)" "en_key e \<noteq> k" "e \<notin> set (rc_entries (cache_set now k v c))"
      "kept \<in> set (rc_entries (cache_set now k v c))" for e kept
  proof -
    have "e \<in> set ?es" using e(1,2) by (simp add: delete_entry_set)
    then show ?thesis
      using e(3,4) unfolding ev by (rule evict_order [OF d])
  qed
  have 3: "cache_get (cache_set now k v c) (now + rc_ttl c) k = Some v" if "length (rc_entries c) < MaxCacheEntries"
  proof -
    have "length ?es \<le> MaxCacheEntries"
      using le_less_trans [OF length_filter_le that, of "\<lambda>r. en_key r \<noteq> k"]
      by (simp add: delete_entry_def delete_where_def)
    then have "rc_entries (cache_set now k v c) = ?es"
      unfolding ev by (subst evict.simps) simp
    then show ?thesis
      unfolding cache_get_iff [OF cache_set_ok [OF assms]] by simp
  qed
  show ?thesis using 1 2 3 by blast
qed

section \<open>The keys\<close>

datatype output_format = OutputXray | OutputSingbox | OutputClash

fun format_text :: "output_format \<Rightarrow> string" where
  "format_text OutputSingbox = ''singbox''"
| "format_text OutputClash = ''clash''"
| "format_text OutputXray = ''xray''"

fun ContentType :: "output_format \<Rightarrow> string" where
  "ContentType OutputClash = ''text/yaml; charset=utf-8''"
| "ContentType f = ''application/json; charset=utf-8''"

definition DetectOutputFormat :: "string \<Rightarrow> string \<Rightarrow> output_format" where
  "DetectOutputFormat formatParam ua =
     (let p = to_lower (TrimSpace formatParam); u = to_lower ua in
      if p \<in> {''singbox'', ''sing-box'', ''sing_box'', ''sb''} then OutputSingbox
      else if p \<in> {''clash'', ''mihomo'', ''meta'', ''clash-meta''} then OutputClash
      else if str_contains u ''sing-box'' \<or> str_contains u ''singbox'' then OutputSingbox
      else if str_contains u ''clash'' \<or> str_contains u ''mihomo'' \<or> str_contains u ''stash'' then OutputClash
      else OutputXray)"

definition subscriptionCacheKey :: "string \<Rightarrow> output_format \<Rightarrow> string" where
  "subscriptionCacheKey subID format =
     (if format = OutputXray then subID else subID @ '':'' @ format_text format)"

definition subscriptionCacheKeys :: "string \<Rightarrow> string list" where
  "subscriptionCacheKeys subID = map (subscriptionCacheKey subID) [OutputXray, OutputSingbox, OutputClash]"

definition InvalidateSubscriber :: "string \<Rightarrow> 'v response_cache \<Rightarrow> 'v response_cache" where
  "InvalidateSubscriber subID c = DeleteKeys (subscriptionCacheKeys subID) c"

text \<open>\<open>SubIDRegex\<close>: the identifiers the endpoint accepts.\<close>

definition subID_char :: "char \<Rightarrow> bool" where
  "subID_char c \<longleftrightarrow> c \<in> set ascii_upper \<or> c \<in> set ascii_lower \<or> is_digit c \<or> c = CHR ''_'' \<or> c = CHR ''-''"

definition SubIDRegex :: "string \<Rightarrow> bool" where
  "SubIDRegex s \<longleftrightarrow> s \<noteq> [] \<and> list_all subID_char s"

lemma subID_no_colon: "SubIDRegex s \<Longrightarrow> CHR '':'' \<notin> set s"
proof -
  have "\<not> subID_char (CHR '':'')"
    by (simp add: subID_char_def ascii_upper_def ascii_lower_def is_digit_def)
  then show "SubIDRegex s \<Longrightarrow> CHR '':'' \<notin> set s"
    by (auto simp: SubIDRegex_def list_all_iff)
qed

lemma key_subID: "SubIDRegex a \<Longrightarrow> takeWhile (\<lambda>c. c \<noteq> CHR '':'') (subscriptionCacheKey a f) = a"
proof -
  assume "SubIDRegex a"
  then have "\<forall>c \<in> set a. c \<noteq> CHR '':''"
    using subID_no_colon by blast
  then show ?thesis
    by (simp add: subscriptionCacheKey_def takeWhile_append2 takeWhile_eq_all_conv)
qed

lemma key_format: "subscriptionCacheKey a f = subscriptionCacheKey a g \<Longrightarrow> f = g"
  by (cases f; cases g) (simp_all add: subscriptionCacheKey_def)

lemma subscriptionCacheKey_inj:
  assumes "SubIDRegex a" "SubIDRegex b" "subscriptionCacheKey a f = subscriptionCacheKey b g"
  shows "a = b \<and> f = g"
proof -
  have "a = b"
    using assms(3) key_subID [OF assms(1), of f] key_subID [OF assms(2), of g] by simp
  then show ?thesis using assms(3) key_format by blast
qed

text \<open>
  Invalidating a subscriber is complete and touches nobody else: afterwards no format of the
  subscription is served from the cache at any time, and every other subscription gets exactly what
  it got before, in every format.
\<close>

theorem InvalidateSubscriber_exact:
  assumes "cache_ok c" "SubIDRegex subID" "SubIDRegex other"
  shows "cache_get (InvalidateSubscriber subID c) t (subscriptionCacheKey other format)
    = (if other = subID then None else cache_get c t (subscriptionCacheKey other format))"
proof -
  have "subscriptionCacheKey other format \<in> set (subscriptionCacheKeys subID) \<longleftrightarrow> other = subID"
    using subscriptionCacheKey_inj [OF assms(3,2)]
    by (cases format) (auto simp: subscriptionCacheKeys_def)
  then show ?thesis
    by (simp add: InvalidateSubscriber_def DeleteKeys_get [OF assms(1)])
qed

section \<open>The interval gate\<close>

record interval_gate =
  ig_seen :: "(string \<times> time) list"
  ig_every :: duration
  ig_prune_at :: int

definition NewIntervalGate :: "duration \<Rightarrow> int \<Rightarrow> interval_gate" where
  "NewIntervalGate every pruneAt = \<lparr>ig_seen = [], ig_every = every, ig_prune_at = pruneAt\<rparr>"

definition prune :: "time \<Rightarrow> interval_gate \<Rightarrow> (string \<times> time) list" where
  "prune now g =
     (if 0 < ig_prune_at g \<and> ig_prune_at g \<le> int (length (ig_seen g)) then
        let live = filter (\<lambda>(k, t). \<not> ig_every g \<le> now - t) (ig_seen g) in
        if ig_prune_at g \<le> int (length live) then [] else live
      else ig_seen g)"

definition Allow :: "string \<Rightarrow> time \<Rightarrow> interval_gate \<Rightarrow> bool \<times> interval_gate" where
  "Allow key now g =
     (case map_of (ig_seen g) key of
        Some t \<Rightarrow>
          if now - t < ig_every g then (False, g)
          else (True, g\<lparr>ig_seen := AList.update key now (prune now g)\<rparr>)
      | None \<Rightarrow> (True, g\<lparr>ig_seen := AList.update key now (prune now g)\<rparr>))"

text \<open>
  The interval gate's memory is bounded: with a positive threshold it never holds more keys than
  the threshold, however many distinct keys pass.
\<close>

theorem Allow_bounded:
  assumes "0 < ig_prune_at g" "int (length (ig_seen g)) \<le> ig_prune_at g"
  shows "int (length (ig_seen (snd (Allow key now g)))) \<le> ig_prune_at g"
proof -
  have 1: "int (length (prune now g)) < ig_prune_at g"
    using assms by (auto simp: prune_def Let_def)
  have "length (AList.update key now xs) \<le> Suc (length xs)" for xs :: "(string \<times> time) list"
    by (induction xs) auto
  from this [of "prune now g"] 1 have "int (length (AList.update key now (prune now g))) \<le> ig_prune_at g"
    by linarith
  then show ?thesis
    using assms by (simp add: Allow_def split: option.split)
qed

lemma Allow_spaced: "fst (Allow key now g) \<Longrightarrow> map_of (ig_seen g) key = Some t \<Longrightarrow> ig_every g \<le> now - t"
  by (simp add: Allow_def split: if_splits)

end
