(* ===== verification/Subserver_Sources.thy ===== *)
theory Subserver_Sources
  imports Subserver_Headers Subserver_Cache Model
begin

text \<open>
  From the panels to one body: the fetch of a source (\<open>internal/subserver/fetch.go\<close>), the merge of the
  sources (\<open>fetchAndAggregateSources\<close> and its helpers, \<open>subscription_handler_split.go\<close>), and the tags
  the three renderers give the nodes (\<open>tagProxyOutbounds\<close>, \<open>tagSingboxOutbounds\<close>, \<open>tagClashProxies\<close>).

  The goroutines of the fan-out write disjoint slots and are merged in the order of the nodes, so a
  fan-out is the list of its outcomes. What the network answers is a parameter, indexed by the node;
  so are the parsers and encoders of JSON, YAML and share links, the templates, and the conversion
  of one configuration to one outbound, which is known here by its tag and the rest of it.
\<close>

section \<open>What the endpoint is given\<close>

record http_reply =
  hr_status :: int
  hr_headers :: "(string \<times> string list) list"
  hr_body :: "string option"

record outbound =
  ob_tag :: string
  ob_rest :: string

record sources_env =
  se_get :: "nat \<Rightarrow> string \<Rightarrow> http_reply option"
  se_stop :: "nat option"
  se_json_valid :: "string \<Rightarrow> bool"
  se_clash_yaml :: "string \<Rightarrow> bool"
  se_json_configs :: "string \<Rightarrow> string list option"
  se_clash_configs :: "string \<Rightarrow> string list option"
  se_vmess_config :: "string \<Rightarrow> string option"
  se_link_config :: "string \<Rightarrow> string option"
  se_convert :: "output_format \<Rightarrow> string \<Rightarrow> outbound option"
  se_encode :: "output_format \<Rightarrow> outbound list \<Rightarrow> error + string"

text \<open>\<open>se_stop\<close>: the context of the fan-out ended before the node of that index was reached, or
  after all of them.\<close>

section \<open>\<open>fetch.go\<close>\<close>

definition MaxResponseSize :: nat where "MaxResponseSize = 2097152"

datatype source_format = FormatUnknown | FormatJSON | FormatBase64 | FormatPlain | FormatClash

definition reply_header :: "string \<times> string list \<Rightarrow> headers \<Rightarrow> headers" where
  "reply_header kv h = (case snd kv of [] \<Rightarrow> h | v # _ \<Rightarrow> AList.update (to_lower (fst kv)) v h)"

definition FetchFromNode :: "http_reply option \<Rightarrow> (string \<times> headers) option" where
  "FetchFromNode reply =
     (case reply of
        None \<Rightarrow> None
      | Some r \<Rightarrow>
          if hr_status r < 200 \<or> 300 \<le> hr_status r then None
          else (case hr_body r of
                  None \<Rightarrow> None
                | Some full \<Rightarrow>
                    (let body = take (Suc MaxResponseSize) full in
                     if MaxResponseSize < length body then None
                     else Some (body, fold reply_header (hr_headers r) []))))"

definition validSchemes :: "string list" where
  "validSchemes = [''vless://'', ''vmess://'', ''trojan://'', ''ss://'', ''hysteria://'', ''hysteria2://'', ''hy2://'', ''tuic://'']"

definition isValidServer :: "string \<Rightarrow> bool" where
  "isValidServer line \<longleftrightarrow> list_ex (has_prefix (to_lower line)) validSchemes"

definition isValidSubscription :: "string \<Rightarrow> bool" where
  "isValidSubscription s \<longleftrightarrow>
     list_ex (\<lambda>line. TrimSpace line \<noteq> [] \<and> isValidServer (TrimSpace line)) (split_on (CHR 0x0A) s)"

definition encoded_links :: "bool \<Rightarrow> string \<Rightarrow> bool" where
  "encoded_links padded s = (case b64_decode padded s of None \<Rightarrow> False | Some d \<Rightarrow> d \<noteq> [] \<and> isValidSubscription d)"

definition DetectFormat :: "sources_env \<Rightarrow> string \<Rightarrow> source_format" where
  "DetectFormat env body =
     (let trimmed = TrimSpace body in
      if trimmed = [] then FormatUnknown
      else if se_json_valid env trimmed then FormatJSON
      else if se_clash_yaml env body then FormatClash
      else if encoded_links True trimmed \<or> encoded_links False trimmed then FormatBase64
      else if isValidSubscription trimmed then FormatPlain
      else FormatUnknown)"

section \<open>The merge\<close>

record agg_sources =
  ag_items :: "string list"
  ag_configs :: "string list"
  ag_first_expire :: string
  ag_first_expire_val :: int
  ag_upload :: int
  ag_download :: int
  ag_first_headers :: "headers option"

definition no_sources :: agg_sources where
  "no_sources = \<lparr>ag_items = [], ag_configs = [], ag_first_expire = [], ag_first_expire_val = 0,
     ag_upload = 0, ag_download = 0, ag_first_headers = None\<rparr>"

definition buildSourceURL :: "node \<Rightarrow> string \<Rightarrow> string" where
  "buildSourceURL src subID =
     (if n_type src = NodeTypeFetch then n_subscription_url src
      else n_subscription_url src
        @ (if n_subscription_url src \<noteq> [] \<and> last (n_subscription_url src) = CHR ''/'' then [] else ''/'') @ subID)"

definition fetchSource :: "sources_env \<Rightarrow> string \<Rightarrow> nat \<Rightarrow> node \<Rightarrow> (string \<times> headers \<times> source_format) option" where
  "fetchSource env subID i src =
     map_option (\<lambda>(body, h). (body, h, DetectFormat env body)) (FetchFromNode (se_get env i (buildSourceURL src subID)))"

definition reached :: "sources_env \<Rightarrow> nat \<Rightarrow> bool" where
  "reached env i = (case se_stop env of None \<Rightarrow> True | Some n \<Rightarrow> i < n)"

definition fan_out :: "sources_env \<Rightarrow> string \<Rightarrow> node list \<Rightarrow> (string \<times> headers \<times> source_format) option list" where
  "fan_out env subID ns =
     map (\<lambda>(i, src). if n_subscription_url src = [] \<or> \<not> reached env i then None else fetchSource env subID i src)
       (zip [0..<length ns] ns)"

definition appendShareLinks :: "string \<Rightarrow> agg_sources \<Rightarrow> agg_sources" where
  "appendShareLinks body agg =
     agg\<lparr>ag_items := ag_items agg @ filter (\<lambda>l. l \<noteq> []) (map TrimSpace (split_on (CHR 0x0A) body))\<rparr>"

definition append_configs :: "string list option \<Rightarrow> agg_sources \<Rightarrow> agg_sources" where
  "append_configs cs agg = (case cs of None \<Rightarrow> agg | Some xs \<Rightarrow> agg\<lparr>ag_configs := ag_configs agg @ xs\<rparr>)"

definition aggregateFormat :: "sources_env \<Rightarrow> source_format \<Rightarrow> string \<Rightarrow> agg_sources \<Rightarrow> agg_sources" where
  "aggregateFormat env format body agg =
     (case format of
        FormatJSON \<Rightarrow> append_configs (se_json_configs env body) agg
      | FormatClash \<Rightarrow> append_configs (se_clash_configs env body) agg
      | FormatBase64 \<Rightarrow>
          (case b64_decode True (TrimSpace body) of
             Some d \<Rightarrow> appendShareLinks d agg
           | None \<Rightarrow> (case b64_decode False (TrimSpace body) of Some d \<Rightarrow> appendShareLinks d agg | None \<Rightarrow> agg))
      | FormatPlain \<Rightarrow> appendShareLinks body agg
      | FormatUnknown \<Rightarrow> agg)"

definition parseExpireToInt :: "string \<Rightarrow> int option" where
  "parseExpireToInt userInfo =
     (let raw = ParseExpireFromUserInfo userInfo in
      if raw = [] then None
      else map_option (\<lambda>e. if 100000000000 < e then e div 1000 else e) (parse_int64 raw))"

definition updateMinExpire :: "headers \<Rightarrow> agg_sources \<Rightarrow> agg_sources" where
  "updateMinExpire h agg =
     (case map_of h ''subscription-userinfo'' of
        None \<Rightarrow> agg
      | Some userInfo \<Rightarrow>
          (case parseExpireToInt userInfo of
             None \<Rightarrow> agg
           | Some e \<Rightarrow>
               if ag_first_expire_val agg = 0 \<or> e < ag_first_expire_val agg
               then agg\<lparr>ag_first_expire_val := e, ag_first_expire := itoa e\<rparr>
               else agg))"

definition capture_headers :: "headers \<Rightarrow> agg_sources \<Rightarrow> agg_sources" where
  "capture_headers h agg = (if ag_first_headers agg = None then agg\<lparr>ag_first_headers := Some h\<rparr> else agg)"

definition add_usage :: "headers \<Rightarrow> agg_sources \<Rightarrow> agg_sources" where
  "add_usage h agg =
     agg\<lparr>ag_upload := wrap64 (ag_upload agg + ParseUserInfoValue h ''upload''),
         ag_download := wrap64 (ag_download agg + ParseUserInfoValue h ''download'')\<rparr>"

definition merge_source :: "sources_env \<Rightarrow> string \<times> headers \<times> source_format \<Rightarrow> agg_sources \<Rightarrow> agg_sources" where
  "merge_source env res agg =
     (case res of (body, h, format) \<Rightarrow>
        aggregateFormat env format body (add_usage h (updateMinExpire h (capture_headers h agg))))"

definition merge_sources :: "sources_env \<Rightarrow> (string \<times> headers \<times> source_format) option list \<Rightarrow> agg_sources" where
  "merge_sources env results = fold (merge_source env) (map the (filter (\<lambda>r. r \<noteq> None) results)) no_sources"

definition fetchAndAggregateSources :: "sources_env \<Rightarrow> string \<Rightarrow> node list \<Rightarrow> agg_sources \<times> nat \<times> nat" where
  "fetchAndAggregateSources env subID ns =
     (let results = fan_out env subID ns in
      (merge_sources env results,
       length (filter (\<lambda>(src, r). n_subscription_url src \<noteq> [] \<and> r \<noteq> None) (zip ns results)),
       length (filter (\<lambda>src. n_subscription_url src \<noteq> []) ns)))"

definition item_config :: "sources_env \<Rightarrow> string \<Rightarrow> string option" where
  "item_config env item =
     (let link = TrimSpace item in
      if link = [] then None
      else if has_prefix (to_lower link) ''vmess://'' then se_vmess_config env link
      else se_link_config env link)"

definition aggregateConfigs :: "sources_env \<Rightarrow> agg_sources \<Rightarrow> string list" where
  "aggregateConfigs env agg = ag_configs agg @ List.map_filter (item_config env) (ag_items agg)"

section \<open>Tags\<close>

definition proxy_tag :: "nat \<Rightarrow> string" where "proxy_tag n = ''proxy-'' @ utoa n"

lemma proxy_tag_inj: "proxy_tag m = proxy_tag n \<longleftrightarrow> m = n"
  using utoa_inj by (auto simp: proxy_tag_def)

text \<open>\<open>freeProxyTag\<close> tries \<open>start\<close>, \<open>start + 1\<close> and so on: it ends because only so many tags are taken.\<close>

definition taken_from :: "nat \<Rightarrow> string list \<Rightarrow> nat set" where
  "taken_from start used = {n. start \<le> n \<and> proxy_tag n \<in> set used}"

lemma taken_finite: "finite (taken_from start used)"
proof -
  have "finite (proxy_tag -` set used)"
    by (rule finite_vimageI) (auto simp: inj_on_def proxy_tag_inj)
  then show ?thesis
    by (rule finite_subset [rotated]) (auto simp: taken_from_def)
qed

lemma taken_smaller: "proxy_tag start \<in> set used \<Longrightarrow> card (taken_from (Suc start) used) < card (taken_from start used)"
proof (rule psubset_card_mono [OF taken_finite])
  assume "proxy_tag start \<in> set used"
  then have "start \<in> taken_from start used" "start \<notin> taken_from (Suc start) used"
    by (simp_all add: taken_from_def)
  moreover have "taken_from (Suc start) used \<subseteq> taken_from start used"
    by (auto simp: taken_from_def)
  ultimately show "taken_from (Suc start) used \<subset> taken_from start used"
    by blast
qed

function freeProxyTag :: "nat \<Rightarrow> string list \<Rightarrow> string" where
  "freeProxyTag start used =
     (if proxy_tag start \<in> set used then freeProxyTag (Suc start) used else proxy_tag start)"
  by pat_completeness auto
termination
  by (relation "measure (\<lambda>(start, used). card (taken_from start used))") (auto simp: taken_smaller)

declare freeProxyTag.simps [simp del]

lemma freeProxyTag_free: "freeProxyTag start used \<notin> set used \<and> freeProxyTag start used \<noteq> []"
proof (induction start used rule: freeProxyTag.induct)
  case (1 start used)
  then show ?case
    by (subst (1 2) freeProxyTag.simps) (simp add: proxy_tag_def)
qed

fun retag :: "(nat \<Rightarrow> nat) \<Rightarrow> nat \<Rightarrow> string list \<Rightarrow> outbound list \<Rightarrow> outbound list" where
  "retag start i used [] = []"
| "retag start i used (ob # obs) =
     (let tag = (if ob_tag ob = [] \<or> ob_tag ob \<in> set used then freeProxyTag (start i) used else ob_tag ob)
      in ob\<lparr>ob_tag := tag\<rparr> # retag start (Suc i) (tag # used) obs)"

fun reserved_tags :: "output_format \<Rightarrow> string list" where
  "reserved_tags OutputXray = [''direct'', ''block'']"
| "reserved_tags OutputSingbox = [''proxy'', ''direct'']"
| "reserved_tags OutputClash = [''PROXY'']"

definition tagProxyOutbounds :: "outbound list \<Rightarrow> outbound list" where
  "tagProxyOutbounds obs = retag Suc 0 (reserved_tags OutputXray) obs"

definition tagSingboxOutbounds :: "outbound list \<Rightarrow> outbound list" where
  "tagSingboxOutbounds obs = retag (\<lambda>i. 1) 0 (reserved_tags OutputSingbox) obs"

definition tagClashProxies :: "outbound list \<Rightarrow> outbound list" where
  "tagClashProxies obs = retag (\<lambda>i. 1) 0 (reserved_tags OutputClash) obs"

fun tag_outbounds :: "output_format \<Rightarrow> outbound list \<Rightarrow> outbound list" where
  "tag_outbounds OutputXray obs = tagProxyOutbounds obs"
| "tag_outbounds OutputSingbox obs = tagSingboxOutbounds obs"
| "tag_outbounds OutputClash obs = tagClashProxies obs"

section \<open>Rendering\<close>

definition renderSubscription :: "sources_env \<Rightarrow> output_format \<Rightarrow> string list \<Rightarrow> error + string" where
  "renderSubscription env format configs =
     (let obs = List.map_filter (se_convert env format) configs in
      if obs = [] then Inl [if format = OutputXray then ErrNoUsableOutbounds else ErrNoSubscriptionItems]
      else se_encode env format (tag_outbounds format obs))"

definition render_error :: "output_format \<Rightarrow> error \<Rightarrow> error" where
  "render_error format e =
     (if format = OutputXray \<and> \<not> errors_is e ErrNoUsableOutbounds then e else [ErrNoSubscriptionItems])"

section \<open>Laws\<close>

lemma retag_tags:
  "distinct (map ob_tag (retag start i used obs)) \<and> (\<forall>ob \<in> set (retag start i used obs). ob_tag ob \<notin> set used \<and> ob_tag ob \<noteq> [])"
proof (induction obs arbitrary: i used)
  case Nil
  then show ?case by simp
next
  case (Cons ob obs)
  define t where "t = (if ob_tag ob = [] \<or> ob_tag ob \<in> set used then freeProxyTag (start i) used else ob_tag ob)"
  have t: "t \<notin> set used" "t \<noteq> []"
    using freeProxyTag_free by (auto simp: t_def)
  have "retag start i used (ob # obs) = ob\<lparr>ob_tag := t\<rparr> # retag start (Suc i) (t # used) obs"
    by (simp add: Let_def t_def)
  then show ?case
    using Cons.IH [of "Suc i" "t # used"] t by auto
qed

lemma retag_rest: "map ob_rest (retag start i used obs) = map ob_rest obs"
  by (induction obs arbitrary: i used) (simp_all add: Let_def)

lemma retag_keeps:
  "i < length obs \<Longrightarrow> ob_tag (obs ! i) \<noteq> [] \<Longrightarrow>
     ob_tag (obs ! i) \<notin> set used \<union> set (map ob_tag (take i (retag start j used obs))) \<Longrightarrow>
     ob_tag (retag start j used obs ! i) = ob_tag (obs ! i)"
proof (induction obs arbitrary: i j used)
  case (Cons ob obs)
  then show ?case by (cases i) (auto simp: Let_def)
qed simp

text \<open>
  C33. Every node of a subscription can be selected: in each of the three formats the rendered nodes
  are those that were converted, in their order; their tags are pairwise distinct, never empty, and
  never one of the names the code reserves in that format (\<open>direct\<close> and \<open>block\<close> for Xray, \<open>proxy\<close>
  and \<open>direct\<close> for sing-box, \<open>PROXY\<close> alone for Clash); and a node keeps its own name unless the name is
  empty, reserved, or already taken by a node before it.
\<close>

theorem tags_unique:
  "map ob_rest (tag_outbounds format obs) = map ob_rest obs
   \<and> distinct (map ob_tag (tag_outbounds format obs))
   \<and> (\<forall>ob \<in> set (tag_outbounds format obs). ob_tag ob \<noteq> []
        \<and> ob_tag ob \<notin> (case format of OutputXray \<Rightarrow> {''direct'', ''block''} | OutputSingbox \<Rightarrow> {''proxy'', ''direct''}
                              | OutputClash \<Rightarrow> {''PROXY''}))
   \<and> (\<forall>i < length obs. ob_tag (obs ! i) \<noteq> [] \<longrightarrow>
        ob_tag (obs ! i) \<notin> set (reserved_tags format) \<union> set (map ob_tag (take i (tag_outbounds format obs))) \<longrightarrow>
        ob_tag (tag_outbounds format obs ! i) = ob_tag (obs ! i))"
proof (intro conjI allI impI)
  note defs = tagProxyOutbounds_def tagSingboxOutbounds_def tagClashProxies_def
  note tags = retag_tags [of Suc 0 "reserved_tags OutputXray" obs] retag_tags [of "\<lambda>i. 1" 0 "reserved_tags OutputSingbox" obs]
    retag_tags [of "\<lambda>i. 1" 0 "reserved_tags OutputClash" obs]
  show "map ob_rest (tag_outbounds format obs) = map ob_rest obs"
    by (cases format) (simp_all add: retag_rest defs)
  show "distinct (map ob_tag (tag_outbounds format obs))"
    using tags by (cases format) (simp_all add: defs)
  show "\<forall>ob \<in> set (tag_outbounds format obs). ob_tag ob \<noteq> []
        \<and> ob_tag ob \<notin> (case format of OutputXray \<Rightarrow> {''direct'', ''block''} | OutputSingbox \<Rightarrow> {''proxy'', ''direct''}
                              | OutputClash \<Rightarrow> {''PROXY''})"
    using tags by (cases format) (simp_all add: defs)
  show "ob_tag (tag_outbounds format obs ! i) = ob_tag (obs ! i)"
    if "i < length obs" "ob_tag (obs ! i) \<noteq> []"
      "ob_tag (obs ! i) \<notin> set (reserved_tags format) \<union> set (map ob_tag (take i (tag_outbounds format obs)))" for i
    using that retag_keeps [of i obs] by (cases format) (simp_all add: defs)
qed

text \<open>The reserved names of the Clash profile leave out the policy its rules send traffic to.\<close>

lemma clash_direct_taken:
  "map ob_tag (tagClashProxies [\<lparr>ob_tag = ''DIRECT'', ob_rest = []\<rparr>]) = [''DIRECT'']"
  by (simp add: tagClashProxies_def)

section \<open>The earliest expiry\<close>

definition source_expiry :: "headers \<Rightarrow> int option" where
  "source_expiry h = (case map_of h ''subscription-userinfo'' of None \<Rightarrow> None | Some u \<Rightarrow> parseExpireToInt u)"

definition source_expiries :: "headers list \<Rightarrow> int set" where
  "source_expiries hs = {e. \<exists>h \<in> set hs. source_expiry h = Some e}"

lemma updateMinExpire_val:
  "ag_first_expire_val (updateMinExpire h agg) =
     (case source_expiry h of
        None \<Rightarrow> ag_first_expire_val agg
      | Some e \<Rightarrow> if ag_first_expire_val agg = 0 \<or> e < ag_first_expire_val agg then e else ag_first_expire_val agg)"
  by (simp add: updateMinExpire_def source_expiry_def split: option.split)

definition least :: "int \<Rightarrow> int set \<Rightarrow> bool" where
  "least v S \<longleftrightarrow> (if S = {} then v = 0 else v \<in> S \<and> (\<forall>e \<in> S. v \<le> e))"

lemma least_insert:
  "least v S \<Longrightarrow> \<forall>x \<in> S. 0 < x \<Longrightarrow> 0 < e \<Longrightarrow> least (if v = 0 \<or> e < v then e else v) (insert e S)"
  by (cases "S = {}") (auto simp: least_def)

lemma least_fold:
  "least (ag_first_expire_val agg) S \<Longrightarrow> \<forall>x \<in> S. 0 < x \<Longrightarrow> \<forall>e \<in> source_expiries hs. 0 < e \<Longrightarrow>
     least (ag_first_expire_val (fold updateMinExpire hs agg)) (S \<union> source_expiries hs)"
proof (induction hs arbitrary: agg S)
  case Nil
  then show ?case by (simp add: source_expiries_def)
next
  case (Cons h hs)
  have hs: "source_expiries (h # hs) = (case source_expiry h of None \<Rightarrow> {} | Some e \<Rightarrow> {e}) \<union> source_expiries hs"
    by (auto simp: source_expiries_def split: option.splits)
  show ?case
  proof (cases "source_expiry h")
    case None
    then have "ag_first_expire_val (updateMinExpire h agg) = ag_first_expire_val agg"
      by (simp add: updateMinExpire_val)
    then show ?thesis
      using Cons.IH [of "updateMinExpire h agg" S] Cons.prems hs None by simp
  next
    case (Some e)
    then have e: "0 < e" "\<forall>x \<in> source_expiries hs. 0 < x"
      using Cons.prems(3) hs by auto
    have "least (ag_first_expire_val (updateMinExpire h agg)) (insert e S)"
      using least_insert [OF Cons.prems(1,2) e(1)] Some by (simp add: updateMinExpire_val)
    then show ?thesis
      using Cons.IH [of "updateMinExpire h agg" "insert e S"] Cons.prems(2) e hs Some by simp
  qed
qed

text \<open>
  The expiry a client sees is the earliest one: when every panel that states an expiry states a
  positive one, the merged value is the least of them, in whatever unit each was given and in
  whatever order the panels come, and zero when no panel states one.
\<close>

theorem earliest_expiry:
  assumes "\<forall>e \<in> source_expiries hs. 0 < e"
  shows "ag_first_expire_val (fold updateMinExpire hs no_sources) = (if source_expiries hs = {} then 0 else Min (source_expiries hs))"
proof -
  have "source_expiries hs \<subseteq> (\<lambda>h. the (source_expiry h)) ` set hs"
    by (force simp: source_expiries_def)
  then have "finite (source_expiries hs)" by (rule finite_subset) simp
  moreover have "least (ag_first_expire_val (fold updateMinExpire hs no_sources)) (source_expiries hs)"
    using least_fold [of no_sources "{}" hs] assms by (simp add: least_def no_sources_def)
  ultimately show ?thesis
    using Min_eqI [of "source_expiries hs" "ag_first_expire_val (fold updateMinExpire hs no_sources)"]
    by (cases "source_expiries hs = {}") (simp_all add: least_def)
qed

text \<open>With a panel that states no limit as zero, the answer depends on the order of the panels.\<close>

lemma stated_expiry:
  "plain_part (''expire='' @ raw) \<Longrightarrow> raw \<noteq> [] \<Longrightarrow>
     source_expiry [(''subscription-userinfo'', ''expire='' @ raw)] = map_option (\<lambda>e. if 100000000000 < e then e div 1000 else e) (parse_int64 raw)"
  using user_info_built [of "''expire='' @ raw" "[]" "''expire=''"]
  by (simp add: source_expiry_def parseExpireToInt_def ParseExpireFromUserInfo_def cut_prefix_def Let_def)

lemma expiry_texts:
  "parse_int64 ''0'' = Some 0" "parse_int64 ''1700000000'' = Some 1700000000"
  by code_simp+

lemma zero_expiry_order:
  "let unlimited = [(''subscription-userinfo'', ''expire=0'')]; limited = [(''subscription-userinfo'', ''expire=1700000000'')]
   in ag_first_expire_val (fold updateMinExpire [unlimited, limited] no_sources) = 1700000000
      \<and> ag_first_expire_val (fold updateMinExpire [limited, unlimited] no_sources) = 0"
  using stated_expiry [of "''0''"] stated_expiry [of "''1700000000''"]
  by (simp add: updateMinExpire_val expiry_texts no_sources_def Let_def plain_part_def is_space_def)

end
