(* ===== verification/Subserver_Delivery.thy ===== *)
theory Subserver_Delivery
  imports Subserver_Sources Subscription_Store
begin

text \<open>
  The delivery of a subscription: \<open>HandleSubscription\<close> with what it is made of
  (\<open>internal/subserver/subscription_handler.go\<close>, \<open>subscription_handler_split.go\<close>, \<open>touch.go\<close>), and the
  handler of \<open>GET /sub/{id}\<close> around it (\<open>internal/web/web.go\<close>).

  A request runs against the database (whose statements may fail or be preceded by other sessions),
  the response cache, and the two interval gates. Each reading of the clock is a field of the
  environment, so the readings of one request may differ. The single flight of a cache key is the
  theory Single_Flight; a request that joins a call in flight gets that call's result, the parameter
  \<open>joined\<close>. The lock around the analytics serialises requests of one subscription. The JSON text of
  the device and address lists is read and printed by parameters, as is the RFC 3339 time.
\<close>

section \<open>State and environment\<close>

type_synonym reply = "string \<times> headers"

record delivery =
  dv_world :: world
  dv_cache :: "reply response_cache"
  dv_touch :: interval_gate
  dv_not_found :: "interval_gate option"

record delivery_env = sources_env +
  de_parse :: "string \<Rightarrow> headers list option"
  de_print :: "headers list \<Rightarrow> string"
  de_rfc3339 :: "time \<Rightarrow> string"
  ck_get :: time
  ck_check :: time
  ck_load :: time
  ck_stamp :: time
  ck_touch :: time
  ck_write :: time
  ck_flight :: time
  ck_store :: time
  ck_warn :: time

record flight_result =
  fr_result :: "reply option"
  fr_success :: nat
  fr_total :: nat
  fr_err :: "error option"

definition on_world :: "(world, 'a) op \<Rightarrow> (delivery, 'a) op" where
  "on_world m s = (case m (dv_world s) of (r, w) \<Rightarrow> (r, s\<lparr>dv_world := w\<rparr>))"

definition on_cache :: "(reply response_cache \<Rightarrow> reply response_cache) \<Rightarrow> delivery \<Rightarrow> delivery" where
  "on_cache f s = s\<lparr>dv_cache := f (dv_cache s)\<rparr>"

section \<open>\<open>touch.go\<close>\<close>

definition LastRequestWriteInterval :: duration where "LastRequestWriteInterval = 5 * minute"
definition touchPruneThreshold :: int where "touchPruneThreshold = 4096"

definition touchLastRequest :: "delivery_env \<Rightarrow> string \<Rightarrow> delivery \<Rightarrow> delivery" where
  "touchLastRequest env subID s =
     (case Allow subID (ck_touch env) (dv_touch s) of (ok, g) \<Rightarrow>
        let s1 = s\<lparr>dv_touch := g\<rparr> in
        if \<not> ok then s1 else snd (on_world (UpdateLastRequest (ck_write env) subID) s1))"

section \<open>Serving from the cache\<close>

definition serveFromCache :: "delivery_env \<Rightarrow> string \<Rightarrow> string \<Rightarrow> delivery \<Rightarrow> (error + reply) option \<times> delivery" where
  "serveFromCache env subID cacheKey s =
     (case cache_get (dv_cache s) (ck_get env) cacheKey of
        None \<Rightarrow> (None, s)
      | Some r \<Rightarrow>
          (case on_world (GetSubscriptionStatus subID) s of
             (Inl e, s1) \<Rightarrow>
               if errors_is e ErrSubscriptionNotFound
               then (Some (Inl [SubserverErrSubscriptionNotFound]), on_cache (cache_delete cacheKey) s1)
               else (Some (Inl e), s1)
           | (Inr (status, expiryTime), s1) \<Rightarrow>
               if status \<noteq> SubscriptionStatusActive \<or> (case expiryTime of None \<Rightarrow> False | Some t \<Rightarrow> t < ck_check env)
               then (Some (Inl [SubserverErrSubscriptionNotFound]), on_cache (cache_delete cacheKey) s1)
               else (Some (Inr r), touchLastRequest env subID s1)))"

section \<open>Devices and addresses\<close>

definition MaxIPEntries :: nat where "MaxIPEntries = 100"
definition MaxDeviceEntries :: nat where "MaxDeviceEntries = 100"

definition ParseDevices :: "delivery_env \<Rightarrow> subscription \<Rightarrow> headers list option" where
  "ParseDevices env sub = (if s_devices sub = [] then Some [] else de_parse env (s_devices sub))"

definition ParseIPs :: "delivery_env \<Rightarrow> subscription \<Rightarrow> headers list option" where
  "ParseIPs env sub = (if s_ips sub = [] then Some [] else de_parse env (s_ips sub))"

fun drop_first :: "('a \<Rightarrow> bool) \<Rightarrow> 'a list \<Rightarrow> 'a list" where
  "drop_first P [] = []"
| "drop_first P (x # xs) = (if P x then xs else x # drop_first P xs)"

definition newest :: "nat \<Rightarrow> 'a list \<Rightarrow> 'a list" where
  "newest n xs = drop (length xs - n) xs"

definition record_device :: "string \<Rightarrow> headers \<Rightarrow> headers list \<Rightarrow> headers list" where
  "record_device nowStr h devices =
     newest MaxDeviceEntries
       (drop_first (\<lambda>dev. header dev ''x-hwid'' = header h ''x-hwid'') devices @ [AList.update ''timestamp'' nowStr h])"

definition record_ip :: "string \<Rightarrow> string \<Rightarrow> headers list \<Rightarrow> headers list" where
  "record_ip nowStr ip ips =
     newest MaxIPEntries (drop_first (\<lambda>entry. map_of entry ip \<noteq> None) ips @ [[(ip, nowStr)]])"

definition requestDevices :: "delivery_env \<Rightarrow> headers option \<Rightarrow> subscription \<Rightarrow> delivery \<Rightarrow> delivery" where
  "requestDevices env h sub s =
     (let devices = (case ParseDevices env sub of None \<Rightarrow> [] | Some ds \<Rightarrow> ds);
          devices' = (case h of None \<Rightarrow> devices | Some hs \<Rightarrow> record_device (de_rfc3339 env (ck_stamp env)) hs devices)
      in snd (on_world (UpdateDevices (s_id sub) (de_print env devices')) s))"

definition requestIPs :: "delivery_env \<Rightarrow> string \<Rightarrow> subscription \<Rightarrow> delivery \<Rightarrow> delivery" where
  "requestIPs env ip sub s =
     (let ips = (case ParseIPs env sub of None \<Rightarrow> [] | Some xs \<Rightarrow> xs);
          ips' = (if ip \<noteq> [] then record_ip (de_rfc3339 env (ck_stamp env)) ip ips else ips)
      in snd (on_world (UpdateIPs (s_id sub) (de_print env ips')) s))"

section \<open>Loading\<close>

definition loadSubscription ::
  "delivery_env \<Rightarrow> string \<Rightarrow> string \<Rightarrow> headers option \<Rightarrow> (delivery, subscription \<times> plan \<times> node list) op" where
  "loadSubscription env subID clientIP h s =
     (case on_world (GetWithPlanAndNodes (ck_load env) subID) s of
        (Inl e, s1) \<Rightarrow> (Inl (if errors_is e ErrSubscriptionNotFound then [SubserverErrSubscriptionNotFound] else e), s1)
      | (Inr full, s1) \<Rightarrow>
          (Inr full, touchLastRequest env subID (requestIPs env clientIP (fst full) (requestDevices env h (fst full) s1))))"

section \<open>Building and caching the response\<close>

definition buildResponse ::
  "delivery_env \<Rightarrow> string \<Rightarrow> agg_sources \<Rightarrow> int \<Rightarrow> string \<Rightarrow> output_format \<Rightarrow> bool \<Rightarrow> (delivery, reply) op" where
  "buildResponse env cacheKey agg trafficLimit profileTitleSuffix format cacheable s =
     (let senv = sources_env.truncate env;
          userInfo = BuildUserInfoHeader (ag_upload agg) (ag_download agg) trafficLimit (ag_first_expire agg);
          configs = aggregateConfigs senv agg
      in if configs = [] then (Inl [ErrNoSubscriptionItems], s)
         else (case renderSubscription senv format configs of
                 Inl e \<Rightarrow> (Inl (render_error format e), s)
               | Inr body \<Rightarrow>
                   (let h = ApplyProfileTitleSuffix (ResponseHeaders (ag_first_headers agg) (ContentType format) userInfo)
                              profileTitleSuffix
                    in (Inr (body, h),
                        if cacheable then on_cache (cache_set (ck_store env) cacheKey (body, h)) s else s))))"

text \<open>The function the flight runs, and the request.\<close>

definition run_flight ::
  "delivery_env \<Rightarrow> string \<Rightarrow> string \<Rightarrow> output_format \<Rightarrow> subscription \<times> plan \<times> node list \<Rightarrow> delivery \<Rightarrow> flight_result \<times> delivery" where
  "run_flight env cacheKey subID format full s =
     (case cache_get (dv_cache s) (ck_flight env) cacheKey of
        Some r \<Rightarrow> (\<lparr>fr_result = Some r, fr_success = 0, fr_total = 0, fr_err = None\<rparr>, s)
      | None \<Rightarrow>
          (case full of (sub, plan, ns) \<Rightarrow>
           case fetchAndAggregateSources (sources_env.truncate env) subID ns of (agg, success, attempted) \<Rightarrow>
           case buildResponse env cacheKey agg (pl_traffic_limit plan) (if IsPaid (Some sub) then '' Premium'' else [])
                  format ((attempted = 0 \<or> success = attempted) \<and> se_stop env = None) s of
             (Inl e, s1) \<Rightarrow> (\<lparr>fr_result = None, fr_success = success, fr_total = attempted, fr_err = Some e\<rparr>, s1)
           | (Inr r, s1) \<Rightarrow> (\<lparr>fr_result = Some r, fr_success = success, fr_total = attempted, fr_err = None\<rparr>, s1)))"

definition failed :: "error \<Rightarrow> flight_result" where
  "failed e = \<lparr>fr_result = None, fr_success = 0, fr_total = 0, fr_err = Some e\<rparr>"

definition HandleSubscription ::
  "delivery_env \<Rightarrow> flight_result option \<Rightarrow> string \<Rightarrow> string \<Rightarrow> headers option \<Rightarrow> string \<Rightarrow> delivery \<Rightarrow> flight_result \<times> delivery" where
  "HandleSubscription env joined subID clientIP h formatParam s =
     (let format = DetectOutputFormat formatParam (case h of None \<Rightarrow> [] | Some hs \<Rightarrow> header hs ''user-agent'');
          cacheKey = subscriptionCacheKey subID format
      in case serveFromCache env subID cacheKey s of
           (Some (Inl e), s1) \<Rightarrow> (failed e, s1)
         | (Some (Inr r), s1) \<Rightarrow> (\<lparr>fr_result = Some r, fr_success = 0, fr_total = 0, fr_err = None\<rparr>, s1)
         | (None, s1) \<Rightarrow>
             (case loadSubscription env subID clientIP h s1 of
                (Inl e, s2) \<Rightarrow> (failed e, s2)
              | (Inr full, s2) \<Rightarrow>
                  (case joined of
                     Some r \<Rightarrow> (r, s2)
                   | None \<Rightarrow> run_flight env cacheKey subID format full s2)))"

section \<open>\<open>web.go\<close>\<close>

record http_request =
  rq_method :: string
  rq_path :: string
  rq_headers :: "(string \<times> string list) list"
  rq_format :: string
  rq_client_ip :: string

record http_response =
  rs_status :: int
  rs_headers :: headers
  rs_body :: string

definition writeSubscriptionText :: "headers \<Rightarrow> int \<Rightarrow> string \<Rightarrow> http_response" where
  "writeSubscriptionText h status body =
     \<lparr>rs_status = status, rs_headers = AList.update ''Content-Type'' ''text/plain; charset=utf-8'' h, rs_body = body\<rparr>"

definition isSubscriptionNotFound :: "error \<Rightarrow> bool" where
  "isSubscriptionNotFound e \<longleftrightarrow> errors_is e SubserverErrSubscriptionNotFound \<or> errors_is e ErrRecordNotFound"

definition not_found_page :: http_response where
  "not_found_page = writeSubscriptionText [] 404 ''Subscription not found''"

definition writeSubscriptionNotFound :: "delivery_env \<Rightarrow> string \<Rightarrow> string \<Rightarrow> delivery \<Rightarrow> http_response \<times> delivery" where
  "writeSubscriptionNotFound env subID clientIP s =
     (not_found_page,
      (case dv_not_found s of
         None \<Rightarrow> s
       | Some g \<Rightarrow> s\<lparr>dv_not_found := Some (snd (Allow (subID @ ''|'' @ clientIP) (ck_warn env) g))\<rparr>))"

definition success_page :: "reply \<Rightarrow> http_response" where
  "success_page r =
     \<lparr>rs_status = 200, rs_headers = fold (\<lambda>(k, v). AList.update (canonical_key k) v) (snd r) [], rs_body = fst r\<rparr>"

definition error_page :: "flight_result \<Rightarrow> error \<Rightarrow> http_response" where
  "error_page out e =
     (if errors_is e ErrNoSubscriptionItems
      then (if 0 < fr_total out \<and> fr_success out = 0
            then writeSubscriptionText [(''Retry-After'', ''60'')] 503 ''Subscription sources unavailable''
            else not_found_page)
      else writeSubscriptionText [] 500 ''Internal Server Error'')"

definition handleSubscription ::
  "delivery_env \<Rightarrow> flight_result option \<Rightarrow> bool \<Rightarrow> http_request \<Rightarrow> delivery \<Rightarrow> http_response \<times> delivery" where
  "handleSubscription env joined present rq s =
     (if rq_method rq \<noteq> ''GET'' then (writeSubscriptionText [(''Allow'', ''GET'')] 405 ''Method Not Allowed'', s)
      else if \<not> present then (writeSubscriptionText [] 503 ''Subscription server is not available'', s)
      else if \<not> has_prefix (rq_path rq) ''/sub/'' then (not_found_page, s)
      else let subID = drop 5 (rq_path rq) in
        if subID = [] \<or> CHR ''/'' \<in> set subID \<or> \<not> SubIDRegex subID then (not_found_page, s)
        else (case HandleSubscription env joined subID (rq_client_ip rq) (Some (FilterHeaders (rq_headers rq))) (rq_format rq) s of
                (out, s1) \<Rightarrow>
                  (case fr_err out of
                     Some e \<Rightarrow>
                       if isSubscriptionNotFound e then writeSubscriptionNotFound env subID (rq_client_ip rq) s1
                       else (error_page out e, s1)
                   | None \<Rightarrow>
                       (case fr_result out of
                          None \<Rightarrow> (writeSubscriptionText [] 500 ''Internal Server Error'', s1)
                        | Some r \<Rightarrow> (success_page r, s1)))))"

end
