(* ===== verification/Delivery_Laws.thy ===== *)
theory Delivery_Laws
  imports Subserver_Delivery
begin

text \<open>
  What the delivery endpoint promises: nobody without an active subscription is served, whatever is
  cached and whatever fails; an incomplete answer is not kept; the device list keeps the devices.
\<close>

section \<open>The first statement of a request\<close>

lemma queryE_ok:
  assumes "queryE f w = (Inr x, w')"
  shows "f (db (step_other w)) = Inr x"
  using assms
  by (auto simp: queryE_def stmtE_def run_stmt_def fetch_def split: turn.splits sum.splits prod.splits)

lemma or_not_found_ok: "or_not_found e x = Inr y \<longleftrightarrow> x = Some y"
  by (cases x) (simp_all add: or_not_found_def)

definition entitled :: "delivery_env \<Rightarrow> string \<Rightarrow> db \<Rightarrow> bool" where
  "entitled env subID d \<longleftrightarrow>
     (\<exists>sub \<in> set (subscriptions d). s_subscription_id sub = subID \<and> s_status sub = SubscriptionStatusActive
        \<and> (case s_expires_at sub of None \<Rightarrow> True | Some t \<Rightarrow> ck_check env \<le> t \<or> ck_load env < t))"

lemma status_ok:
  assumes "GetSubscriptionStatus subID w = (Inr (st, e), w')"
  shows "\<exists>sub \<in> set (subscriptions (db (step_other w))). s_subscription_id sub = subID \<and> s_status sub = st \<and> s_expires_at sub = e"
proof -
  obtain sub w1 where "queryE (\<lambda>d. or_not_found ErrSubscriptionNotFound
      (select_first (\<lambda>s. s_subscription_id s = subID) (subscriptions d))) w = (Inr sub, w1)"
    "returnE (s_status sub, s_expires_at sub) w1 = (Inr (st, e), w')"
    using assms unfolding GetSubscriptionStatus_def by (rule bindE_ok)
  then have "select_first (\<lambda>s. s_subscription_id s = subID) (subscriptions (db (step_other w))) = Some sub"
    and e: "st = s_status sub" "e = s_expires_at sub"
    by (auto dest!: queryE_ok simp: or_not_found_ok returnE_ok)
  from select_first_Some [OF this(1)] e show ?thesis by auto
qed

lemma full_ok:
  assumes "GetWithPlanAndNodes now subID w = (Inr full, w')"
  shows "\<exists>sub \<in> set (subscriptions (db (step_other w))). servable now subID sub"
proof -
  obtain sub w1 where "queryE (\<lambda>d. or_not_found ErrSubscriptionNotFound
      (select_first (servable now subID) (subscriptions d))) w = (Inr sub, w1)"
    using assms unfolding GetWithPlanAndNodes_def by (rule bindE_ok)
  then have "select_first (servable now subID) (subscriptions (db (step_other w))) = Some sub"
    by (auto dest!: queryE_ok simp: or_not_found_ok)
  from select_first_Some [OF this] show ?thesis by blast
qed

lemma on_world_run: "on_world m s = (r, s') \<longleftrightarrow> (\<exists>w. m (dv_world s) = (r, w) \<and> s' = s\<lparr>dv_world := w\<rparr>)"
  by (auto simp: on_world_def split: prod.splits)

lemma serve_miss: "serveFromCache env subID key s = (None, s') \<Longrightarrow> s' = s \<and> cache_get (dv_cache s) (ck_get env) key = None"
  by (auto simp: serveFromCache_def split: option.splits prod.splits sum.splits if_splits)

lemma serve_hit:
  assumes "serveFromCache env subID key s = (Some (Inr r), s')"
  shows "cache_get (dv_cache s) (ck_get env) key = Some r \<and> entitled env subID (db (step_other (dv_world s)))"
proof -
  obtain e s1 where get: "cache_get (dv_cache s) (ck_get env) key = Some r"
    and st: "on_world (GetSubscriptionStatus subID) s = (Inr (SubscriptionStatusActive, e), s1)"
    and live: "case e of None \<Rightarrow> True | Some t \<Rightarrow> ck_check env \<le> t"
    using assms by (auto simp: serveFromCache_def split: option.splits prod.splits sum.splits if_splits)
  obtain w where "GetSubscriptionStatus subID (dv_world s) = (Inr (SubscriptionStatusActive, e), w)"
    using st by (auto simp: on_world_run)
  then obtain sub where "sub \<in> set (subscriptions (db (step_other (dv_world s))))" "s_subscription_id sub = subID"
    "s_status sub = SubscriptionStatusActive" "s_expires_at sub = e"
    using status_ok by blast
  then have "entitled env subID (db (step_other (dv_world s)))"
    using live unfolding entitled_def by (auto split: option.splits)
  then show ?thesis using get by blast
qed

lemma load_ok:
  assumes "loadSubscription env subID ip h s = (Inr full, s')"
  shows "entitled env subID (db (step_other (dv_world s)))"
proof -
  obtain w where "GetWithPlanAndNodes (ck_load env) subID (dv_world s) = (Inr full, w)"
    using assms by (auto simp: loadSubscription_def on_world_def split: prod.splits sum.splits)
  then obtain sub where "sub \<in> set (subscriptions (db (step_other (dv_world s))))" "servable (ck_load env) subID sub"
    using full_ok by blast
  then show ?thesis
    unfolding entitled_def servable_def by (auto split: option.splits)
qed

lemma result_entitled:
  assumes "HandleSubscription env joined subID ip h p s = (out, s')" "fr_err out = None"
  shows "entitled env subID (db (step_other (dv_world s)))"
proof -
  let ?f = "DetectOutputFormat p (case h of None \<Rightarrow> [] | Some hs \<Rightarrow> header hs ''user-agent'')"
  obtain served s1 where serve: "serveFromCache env subID (subscriptionCacheKey subID ?f) s = (served, s1)"
    by (cases "serveFromCache env subID (subscriptionCacheKey subID ?f) s") blast
  show ?thesis
  proof (cases served)
    case (Some x)
    then show ?thesis
      using assms serve serve_hit [of env subID _ s] by (cases x) (auto simp: HandleSubscription_def Let_def failed_def)
  next
    case None
    then have s1: "s1 = s" using serve serve_miss by blast
    obtain r s2 where load: "loadSubscription env subID ip h s = (r, s2)"
      by (cases "loadSubscription env subID ip h s") blast
    show ?thesis
    proof (cases r)
      case (Inl e)
      then show ?thesis
        using assms serve None s1 load by (auto simp: HandleSubscription_def Let_def failed_def)
    next
      case (Inr full)
      then show ?thesis using load load_ok by blast
    qed
  qed
qed

text \<open>
  C29. Nobody is served without an active subscription: whatever the cache holds, whatever statement
  fails and whatever other sessions do meanwhile, an answer with status 200 means that the first
  statement of this request found a row of that subscription, active and not expired.
\<close>

theorem served_only_when_active:
  assumes "rs_status (fst (handleSubscription env joined present rq s)) = 200"
  shows "entitled env (drop 5 (rq_path rq)) (db (step_other (dv_world s)))"
proof -
  let ?h = "Some (FilterHeaders (rq_headers rq))" and ?id = "drop 5 (rq_path rq)"
  obtain out s1 where run: "HandleSubscription env joined ?id (rq_client_ip rq) ?h (rq_format rq) s = (out, s1)"
    by (cases "HandleSubscription env joined ?id (rq_client_ip rq) ?h (rq_format rq) s") blast
  have "fr_err out = None"
    using assms run
    by (auto simp: handleSubscription_def Let_def writeSubscriptionText_def not_found_page_def error_page_def
        writeSubscriptionNotFound_def split: if_splits option.splits)
  then show ?thesis using result_entitled run by blast
qed

section \<open>What is kept in the cache\<close>

lemma on_world_cache: "on_world m s = (r, s') \<Longrightarrow> dv_cache s' = dv_cache s"
  by (auto simp: on_world_run)

lemma on_world_snd [simp]: "dv_cache (snd (on_world m s)) = dv_cache s"
  by (cases "on_world m s") (simp add: on_world_cache)

lemma touch_cache [simp]: "dv_cache (touchLastRequest env subID s) = dv_cache s"
  by (simp add: touchLastRequest_def Let_def split: prod.split)

lemma load_cache: "loadSubscription env subID ip h s = (r, s') \<Longrightarrow> dv_cache s' = dv_cache s"
  by (auto simp: loadSubscription_def requestIPs_def requestDevices_def Let_def dest: on_world_cache
      split: prod.splits sum.splits)

lemma serve_cache:
  assumes "serveFromCache env subID key s = (x, s')"
  shows "dv_cache s' = dv_cache s \<or> dv_cache s' = cache_delete key (dv_cache s)"
  using assms
  by (auto simp: serveFromCache_def on_cache_def dest!: on_world_cache split: option.splits prod.splits sum.splits if_splits)

lemma build_cache:
  assumes "buildResponse env key agg l sfx f c s = (x, s')"
  shows "dv_cache s' = dv_cache s
    \<or> (\<exists>r. x = Inr r \<and> c \<and> dv_cache s' = cache_set (ck_store env) key r (dv_cache s)
         \<and> renderSubscription (sources_env.truncate env) f (aggregateConfigs (sources_env.truncate env) agg) = Inr (fst r))"
  using assms by (auto simp: buildResponse_def Let_def on_cache_def split: sum.splits if_splits)

text \<open>
  What the panels of a subscription said: an answer counts when it came with a success status and a
  body of bounded size. \<open>answers_of\<close> is what the code reads from the sources that have an address, in
  their order.
\<close>

definition source_answered :: "delivery_env \<Rightarrow> string \<Rightarrow> nat \<Rightarrow> node \<Rightarrow> bool" where
  "source_answered env subID i src \<longleftrightarrow>
     (\<exists>r body. se_get env i (buildSourceURL src subID) = Some r \<and> 200 \<le> hr_status r \<and> hr_status r < 300
        \<and> hr_body r = Some body \<and> length body \<le> MaxResponseSize)"

definition answers_of :: "delivery_env \<Rightarrow> string \<Rightarrow> node list \<Rightarrow> (string \<times> headers \<times> source_format) list" where
  "answers_of env subID ns =
     map (\<lambda>(i, src). the (fetchSource (sources_env.truncate env) subID i src))
       (filter (\<lambda>(i, src). n_subscription_url src \<noteq> []) (zip [0..<length ns] ns))"

lemma fetch_answered: "fetchSource (sources_env.truncate env) subID i src \<noteq> None \<Longrightarrow> source_answered env subID i src"
  by (fastforce simp: fetchSource_def FetchFromNode_def source_answered_def sources_env.defs Let_def not_less
      split: option.splits if_splits)

lemma counted_le:
  "length ys = length xs \<Longrightarrow> length (filter (\<lambda>(x, y). P x \<and> Q y) (zip xs ys)) \<le> length (filter P xs)"
  by (induction ys xs rule: list_induct2) auto

lemma all_counted:
  "length ys = length xs \<Longrightarrow> length (filter (\<lambda>(x, y). P x \<and> Q y) (zip xs ys)) = length (filter P xs) \<Longrightarrow>
     i < length xs \<Longrightarrow> P (xs ! i) \<Longrightarrow> Q (ys ! i)"
proof (induction ys xs arbitrary: i rule: list_induct2)
  case (Cons y ys x xs)
  have "P x \<longrightarrow> Q y" "length (filter (\<lambda>(x, y). P x \<and> Q y) (zip xs ys)) = length (filter P xs)"
    using Cons.prems(1) counted_le [OF Cons.hyps, of P Q] by (auto split: if_splits)
  then show ?case
    using Cons.IH Cons.prems(2,3) by (cases i) simp_all
qed simp

lemma fetched_all:
  assumes agg: "fetchAndAggregateSources (sources_env.truncate env) subID ns = (agg, n, m)"
    and complete: "m = 0 \<or> n = m" "se_stop env = None"
  shows "\<forall>i < length ns. n_subscription_url (ns ! i) \<noteq> [] \<longrightarrow> source_answered env subID i (ns ! i)"
    "agg = fold (merge_source (sources_env.truncate env)) (answers_of env subID ns) no_sources"
proof -
  let ?e = "sources_env.truncate env"
  let ?rs = "fan_out ?e subID ns"
  have len: "length ?rs = length ns" by (simp add: fan_out_def)
  have stop: "reached ?e i" for i
    using complete(2) by (simp add: reached_def sources_env.defs)
  have nth: "?rs ! i = (if n_subscription_url (ns ! i) = [] then None else fetchSource ?e subID i (ns ! i))"
    if "i < length ns" for i
    using that stop by (simp add: fan_out_def)
  have "length (filter (\<lambda>(src, r). n_subscription_url src \<noteq> [] \<and> r \<noteq> None) (zip ns ?rs))
      = length (filter (\<lambda>src. n_subscription_url src \<noteq> []) ns)"
    using agg complete(1) by (auto simp: fetchAndAggregateSources_def Let_def filter_empty_conv set_zip)
  then have some: "?rs ! i \<noteq> None" if "i < length ns" "n_subscription_url (ns ! i) \<noteq> []" for i
    by (rule all_counted [OF len _ that(1), of "\<lambda>src. n_subscription_url src \<noteq> []" "\<lambda>r. r \<noteq> None"]) (use that in simp_all)
  then show "\<forall>i < length ns. n_subscription_url (ns ! i) \<noteq> [] \<longrightarrow> source_answered env subID i (ns ! i)"
    using nth fetch_answered [of env subID] by (metis (no_types, lifting))
  have "filter (\<lambda>r. r \<noteq> None) ?rs
      = map (\<lambda>(i, src). fetchSource ?e subID i src) (filter (\<lambda>(i, src). n_subscription_url src \<noteq> []) (zip [0..<length ns] ns))"
  proof -
    have "filter (\<lambda>r. r \<noteq> None)
        (map (\<lambda>(i, src). if n_subscription_url src = [] \<or> \<not> reached ?e i then None else fetchSource ?e subID i src) zs)
      = map (\<lambda>(i, src). fetchSource ?e subID i src) (filter (\<lambda>(i, src). n_subscription_url src \<noteq> []) zs)"
      if "\<forall>(i, src) \<in> set zs. n_subscription_url src \<noteq> [] \<longrightarrow> fetchSource ?e subID i src \<noteq> None" for zs
      using that stop by (induction zs) auto
    moreover have "\<forall>(i, src) \<in> set (zip [0..<length ns] ns). n_subscription_url src \<noteq> [] \<longrightarrow> fetchSource ?e subID i src \<noteq> None"
      using some nth by (fastforce simp: set_zip)
    ultimately show ?thesis by (simp add: fan_out_def)
  qed
  then show "agg = fold (merge_source ?e) (answers_of env subID ns) no_sources"
    using agg by (auto simp: fetchAndAggregateSources_def Let_def merge_sources_def answers_of_def case_prod_unfold comp_def)
qed

definition cached_answer ::
  "delivery_env \<Rightarrow> string \<Rightarrow> output_format \<Rightarrow> node list \<Rightarrow> reply \<Rightarrow> bool" where
  "cached_answer env subID f ns r \<longleftrightarrow> se_stop env = None
     \<and> (\<forall>i < length ns. n_subscription_url (ns ! i) \<noteq> [] \<longrightarrow> source_answered env subID i (ns ! i))
     \<and> renderSubscription (sources_env.truncate env) f (aggregateConfigs (sources_env.truncate env)
          (fold (merge_source (sources_env.truncate env)) (answers_of env subID ns) no_sources)) = Inr (fst r)"

lemma flight_cache:
  assumes "run_flight env key subID f (sub, pl, ns) s = (out, s')"
  shows "dv_cache s' = dv_cache s
    \<or> (\<exists>r. fr_result out = Some r \<and> cached_answer env subID f ns r
         \<and> dv_cache s' = cache_set (ck_store env) key r (dv_cache s))"
proof (cases "cache_get (dv_cache s) (ck_flight env) key")
  case None
  obtain agg n m where agg: "fetchAndAggregateSources (sources_env.truncate env) subID ns = (agg, n, m)"
    by (cases "fetchAndAggregateSources (sources_env.truncate env) subID ns") auto
  let ?sfx = "if IsPaid (Some sub) then '' Premium'' else []" and ?c = "(m = 0 \<or> n = m) \<and> se_stop env = None"
  obtain x s1 where built: "buildResponse env key agg (pl_traffic_limit pl) ?sfx f ?c s = (x, s1)"
    by (cases "buildResponse env key agg (pl_traffic_limit pl) ?sfx f ?c s") blast
  have "s' = s1" and out: "case x of Inl e \<Rightarrow> True | Inr r \<Rightarrow> fr_result out = Some r"
    using assms None agg built by (auto simp: run_flight_def split: sum.splits)
  then show ?thesis
    using build_cache [OF built] fetched_all [OF agg] unfolding cached_answer_def by (auto split: sum.splits)
next
  case (Some r)
  then show ?thesis using assms by (auto simp: run_flight_def)
qed

text \<open>
  C31. A truncated answer is never kept: whatever a request leaves in the cache that was not there
  before is the answer this very request got, under the key of its own subscription and format; every
  node the database lists for the subscription that has an address answered with a success status and
  a body of bounded size, none was skipped for lack of time, and the body kept is rendered from all of
  their answers.
\<close>

theorem only_complete_answers_cached:
  assumes "cache_ok (dv_cache s)" "HandleSubscription env joined subID ip h p s = (out, s')"
    "cache_get (dv_cache s') t k = Some r" "cache_get (dv_cache s) t k \<noteq> Some r"
  shows "joined = None \<and> fr_result out = Some r
    \<and> (\<exists>f sub pl ns w. f = DetectOutputFormat p (case h of None \<Rightarrow> [] | Some hs \<Rightarrow> header hs ''user-agent'')
        \<and> k = subscriptionCacheKey subID f
        \<and> GetWithPlanAndNodes (ck_load env) subID (dv_world s) = (Inr (sub, pl, ns), w)
        \<and> se_stop env = None
        \<and> (\<forall>i < length ns. n_subscription_url (ns ! i) \<noteq> [] \<longrightarrow> source_answered env subID i (ns ! i))
        \<and> renderSubscription (sources_env.truncate env) f (aggregateConfigs (sources_env.truncate env)
             (fold (merge_source (sources_env.truncate env)) (answers_of env subID ns) no_sources)) = Inr (fst r))"
proof -
  define f where "f = DetectOutputFormat p (case h of None \<Rightarrow> [] | Some hs \<Rightarrow> header hs ''user-agent'')"
  define key where "key = subscriptionCacheKey subID f"
  note defs = HandleSubscription_def Let_def key_def f_def
  obtain served s1 where serve: "serveFromCache env subID key s = (served, s1)"
    by (cases "serveFromCache env subID key s") blast
  have old: "dv_cache s' \<noteq> dv_cache s" "dv_cache s' \<noteq> cache_delete key (dv_cache s)"
    using assms(3,4) responses.drop_other [OF assms(1), of key t k r] by auto
  have none: "served = None"
    using assms(2) serve serve_cache [OF serve] old
    by (cases served) (auto simp: defs split: sum.splits)
  then have s1: "s1 = s" using serve serve_miss by blast
  obtain l s2 where load: "loadSubscription env subID ip h s = (l, s2)"
    by (cases "loadSubscription env subID ip h s") blast
  have s2: "dv_cache s2 = dv_cache s" using load by (rule load_cache)
  obtain sub pl ns where full: "l = Inr (sub, pl, ns)"
    using assms(2) serve none s1 load s2 old(1) by (cases l) (auto simp: defs)
  have joined: "joined = None"
    using assms(2) serve none s1 load full s2 old(1) by (cases joined) (auto simp: defs)
  have run: "run_flight env key subID f (sub, pl, ns) s2 = (out, s')"
    using assms(2) serve none s1 load full joined by (auto simp: defs)
  then obtain r' where r': "fr_result out = Some r'" "cached_answer env subID f ns r'"
    "dv_cache s' = cache_set (ck_store env) key r' (dv_cache s)"
    using flight_cache [OF run] old(1) s2 by auto
  have get: "cache_get (cache_set (ck_store env) key r' (dv_cache s)) t k = Some r"
    using assms(3) r'(3) by simp
  have k: "k = key"
    using responses.store_other [OF assms(1) _ get] assms(4) by blast
  then have "r = r'"
    using responses.store_same [OF assms(1)] get by blast
  moreover obtain w where "GetWithPlanAndNodes (ck_load env) subID (dv_world s) = (Inr (sub, pl, ns), w)"
    using load full by (auto simp: loadSubscription_def on_world_def split: prod.splits sum.splits)
  ultimately show ?thesis
    using joined r'(1,2) k unfolding cached_answer_def key_def f_def by blast
qed

section \<open>A revoked subscription\<close>

lemma quiet_query:
  "turns w = [] \<Longrightarrow> queryE f w = (case f (db w) of Inl e \<Rightarrow> (Inl e, w) | Inr x \<Rightarrow> (Inr x, w))"
  by (cases w) (auto simp: queryE_def stmtE_def next_turn_def step_other_def step_turn_def run_stmt_def fetch_def split: sum.split)

lemma revoked_status:
  assumes "turns w = []" "\<not> entitled env subID (db w)"
  shows "(\<exists>e w'. GetSubscriptionStatus subID w = (Inl e, w') \<and> errors_is e ErrSubscriptionNotFound)
    \<or> (\<exists>st x w'. GetSubscriptionStatus subID w = (Inr (st, x), w')
         \<and> (st \<noteq> SubscriptionStatusActive \<or> (case x of None \<Rightarrow> False | Some t \<Rightarrow> t < ck_check env)))"
proof (cases "select_first (\<lambda>s. s_subscription_id s = subID) (subscriptions (db w))")
  case None
  then show ?thesis
    by (simp add: GetSubscriptionStatus_def bindE_def quiet_query [OF assms(1)] or_not_found_def)
next
  case (Some sub)
  then have "sub \<in> set (subscriptions (db w))" "s_subscription_id sub = subID"
    using select_first_Some [OF Some] by simp_all
  then have "s_status sub \<noteq> SubscriptionStatusActive \<or> (case s_expires_at sub of None \<Rightarrow> False | Some t \<Rightarrow> t < ck_check env)"
    using assms(2) by (auto simp: entitled_def split: option.splits)
  then show ?thesis
    using Some by (simp add: GetSubscriptionStatus_def bindE_def quiet_query [OF assms(1)] or_not_found_def returnE_def)
qed

lemma revoked_load:
  assumes "turns w = []" "\<not> entitled env subID (db w)"
  shows "\<exists>w'. GetWithPlanAndNodes (ck_load env) subID w = (Inl [ErrSubscriptionNotFound], w')"
proof -
  have "\<not> servable (ck_load env) subID sub" if "sub \<in> set (subscriptions (db w))" for sub
    using assms(2) that by (auto simp: entitled_def servable_def split: option.splits)
  then have "select_first (servable (ck_load env) subID) (subscriptions (db w)) = None"
    by (simp add: select_first_None)
  then show ?thesis
    by (simp add: GetWithPlanAndNodes_def bindE_def quiet_query [OF assms(1)] or_not_found_def)
qed

lemma revoked_result:
  assumes "turns (dv_world s) = []" "\<not> entitled env subID (db (dv_world s))"
    "HandleSubscription env joined subID ip h p s = (out, s')" "cache_ok (dv_cache s)" "ck_get env \<le> t"
  shows "fr_err out = Some [SubserverErrSubscriptionNotFound]"
    "cache_get (dv_cache s') t (subscriptionCacheKey subID (DetectOutputFormat p (case h of None \<Rightarrow> [] | Some hs \<Rightarrow> header hs ''user-agent''))) = None"
proof -
  define key where "key = subscriptionCacheKey subID (DetectOutputFormat p (case h of None \<Rightarrow> [] | Some hs \<Rightarrow> header hs ''user-agent''))"
  have "fr_err out = Some [SubserverErrSubscriptionNotFound] \<and> cache_get (dv_cache s') t key = None"
  proof (cases "cache_get (dv_cache s) (ck_get env) key")
    case None
    obtain w where "GetWithPlanAndNodes (ck_load env) subID (dv_world s) = (Inl [ErrSubscriptionNotFound], w)"
      using revoked_load [OF assms(1,2)] by blast
    then have "out = failed [SubserverErrSubscriptionNotFound]" "dv_cache s' = dv_cache s"
      using assms(3) None
      by (auto simp: HandleSubscription_def Let_def serveFromCache_def loadSubscription_def on_world_def key_def)
    moreover have "cache_get (dv_cache s) t key = None"
      using None assms(5) by (auto simp: cache_get_def split: option.splits if_splits)
    ultimately show ?thesis by (simp add: failed_def)
  next
    case (Some r)
    have "out = failed [SubserverErrSubscriptionNotFound] \<and> dv_cache s' = cache_delete key (dv_cache s)"
      using revoked_status [OF assms(1,2)] assms(3) Some
      by (auto simp: HandleSubscription_def Let_def serveFromCache_def on_world_def on_cache_def key_def split: option.splits)
    then show ?thesis
      using responses.drop_same [OF assms(4), of key t] by (simp add: failed_def)
  qed
  then show "fr_err out = Some [SubserverErrSubscriptionNotFound]"
    "cache_get (dv_cache s') t (subscriptionCacheKey subID (DetectOutputFormat p (case h of None \<Rightarrow> [] | Some hs \<Rightarrow> header hs ''user-agent''))) = None"
    by (simp_all add: key_def)
qed

text \<open>
  C30. A revoked, expired or deleted subscription is gone for its client at once: with the database at
  rest and no active row of that subscription, the request is answered 404 even when its answer is
  cached and even when it would have joined a fan-out in flight, and the cached answer is dropped.
\<close>

theorem revoked_gets_404:
  assumes "rq_method rq = ''GET''" "rq_path rq = ''/sub/'' @ subID" "SubIDRegex subID"
    "turns (dv_world s) = []" "\<not> entitled env subID (db (dv_world s))" "cache_ok (dv_cache s)" "ck_get env \<le> t"
  shows "fst (handleSubscription env joined True rq s) = not_found_page
    \<and> cache_get (dv_cache (snd (handleSubscription env joined True rq s))) t
        (subscriptionCacheKey subID (DetectOutputFormat (rq_format rq) (header (FilterHeaders (rq_headers rq)) ''user-agent''))) = None"
proof -
  let ?h = "Some (FilterHeaders (rq_headers rq))"
  obtain out s1 where run: "HandleSubscription env joined subID (rq_client_ip rq) ?h (rq_format rq) s = (out, s1)"
    by (cases "HandleSubscription env joined subID (rq_client_ip rq) ?h (rq_format rq) s") blast
  note r = revoked_result [OF assms(4,5) run assms(6,7)]
  have "\<not> subID_char (CHR ''/'')"
    by (simp add: subID_char_def ascii_upper_def ascii_lower_def is_digit_def)
  then have id: "subID \<noteq> []" "CHR ''/'' \<notin> set subID" "drop 5 (rq_path rq) = subID" "has_prefix (rq_path rq) ''/sub/''"
    using assms(2,3) by (auto simp: SubIDRegex_def list_all_iff)
  have "handleSubscription env joined True rq s = writeSubscriptionNotFound env subID (rq_client_ip rq) s1"
    using assms(1,3) id run r(1) by (simp add: handleSubscription_def Let_def isSubscriptionNotFound_def)
  moreover have "dv_cache (snd (writeSubscriptionNotFound env subID (rq_client_ip rq) s1)) = dv_cache s1"
    by (simp add: writeSubscriptionNotFound_def split: option.split)
  ultimately show ?thesis
    using r(2) by (simp add: writeSubscriptionNotFound_def)
qed

section \<open>The device list\<close>

lemma drop_first_set: "set (drop_first P xs) \<subseteq> set xs" "x \<in> set xs \<Longrightarrow> \<not> P x \<Longrightarrow> x \<in> set (drop_first P xs)"
  by (induction xs) auto

lemma drop_first_length: "length (drop_first P xs) \<le> length xs"
  by (induction xs) simp_all

lemma drop_first_distinct:
  "distinct (map f xs) \<Longrightarrow> f x \<notin> f ` set (drop_first (\<lambda>y. f y = f x) xs) \<and> distinct (map f (drop_first (\<lambda>y. f y = f x) xs))"
proof (induction xs)
  case Nil
  then show ?case by simp
next
  case (Cons y ys)
  then show ?case
    using drop_first_set(1) [of "\<lambda>y. f y = f x" ys] by (auto simp: image_iff)
qed

lemma newest_length: "length (newest n xs) \<le> n"
  by (simp add: newest_def)

lemma newest_all: "length xs \<le> n \<Longrightarrow> newest n xs = xs"
  by (simp add: newest_def)

lemma newest_last: "0 < n \<Longrightarrow> xs \<noteq> [] \<Longrightarrow> newest n xs \<noteq> [] \<and> last (newest n xs) = last xs"
  by (cases xs) (simp_all add: newest_def last_drop)

lemma newest_distinct: "distinct (map f xs) \<Longrightarrow> distinct (map f (newest n xs))"
  by (simp add: newest_def flip: drop_map)

lemma stamped_hwid: "header (AList.update ''timestamp'' t h) ''x-hwid'' = header h ''x-hwid''"
  by (simp add: header_def update_conv')

text \<open>
  C32. The device list is a list of devices: one entry per hardware id stays one entry per id, the
  last entry is the device of this request with the time of the request, at most a hundred entries
  are kept, and as long as there is room no other device is lost.
\<close>

theorem record_device_list:
  assumes "distinct (map (\<lambda>d. header d ''x-hwid'') devices)"
  shows "let ds = record_device now h devices in
    distinct (map (\<lambda>d. header d ''x-hwid'') ds) \<and> length ds \<le> MaxDeviceEntries
    \<and> ds \<noteq> [] \<and> last ds = AList.update ''timestamp'' now h
    \<and> (length devices < MaxDeviceEntries \<longrightarrow>
        (\<forall>d \<in> set devices. header d ''x-hwid'' \<noteq> header h ''x-hwid'' \<longrightarrow> d \<in> set ds))"
proof -
  let ?hwid = "\<lambda>d. header d ''x-hwid''" and ?new = "AList.update ''timestamp'' now h"
  let ?rest = "drop_first (\<lambda>d. ?hwid d = ?hwid h) devices"
  have ds: "record_device now h devices = newest MaxDeviceEntries (?rest @ [?new])"
    by (simp add: record_device_def)
  have "distinct (map ?hwid (?rest @ [?new]))"
    using drop_first_distinct [OF assms, of h] by (auto simp: stamped_hwid)
  then have 1: "distinct (map ?hwid (record_device now h devices))"
    unfolding ds by (rule newest_distinct)
  have 2: "record_device now h devices \<noteq> [] \<and> last (record_device now h devices) = ?new"
    using newest_last [of MaxDeviceEntries "?rest @ [?new]"] unfolding ds by (simp add: MaxDeviceEntries_def)
  have 3: "\<forall>d \<in> set devices. ?hwid d \<noteq> ?hwid h \<longrightarrow> d \<in> set (record_device now h devices)"
    if "length devices < MaxDeviceEntries"
  proof -
    have "length (?rest @ [?new]) \<le> MaxDeviceEntries"
      using that drop_first_length [of "\<lambda>d. ?hwid d = ?hwid h" devices] by simp
    then show ?thesis
      unfolding ds by (simp add: newest_all drop_first_set(2))
  qed
  have 4: "length (record_device now h devices) \<le> MaxDeviceEntries"
    unfolding ds by (rule newest_length)
  show ?thesis using 1 2 3 4 by (simp add: Let_def)
qed

end
