(* ===== verification/Single_Flight.thy ===== *)
theory Single_Flight
  imports Prelude
begin

text \<open>
  \<open>flightGroup.Do\<close> of \<open>internal/subserver/flight.go\<close>: concurrent calls with one key share one run of
  the function.

  A call object has an address, because the map entry is removed while followers still hold the
  object. The critical sections, the return of the function, and the receive from the closed channel
  are the steps of a goroutine; any number of goroutines interleave. A panic of the function runs
  the deferred function and leaves the object's fields at their zero value, which is \<open>None\<close>.
\<close>

section \<open>The group\<close>

record ('k, 'r) flight_group =
  fg_calls :: "'k \<Rightarrow> nat option"
  fg_result :: "nat \<Rightarrow> 'r option"
  fg_done :: "nat \<Rightarrow> bool"
  fg_next :: nat

text \<open>The first critical section: join the call in flight, or become its leader.\<close>

definition flight_enter :: "'k \<Rightarrow> ('k, 'r) flight_group \<Rightarrow> bool \<times> nat \<times> ('k, 'r) flight_group" where
  "flight_enter k g =
     (case fg_calls g k of
        Some c \<Rightarrow> (False, c, g)
      | None \<Rightarrow>
          (True, fg_next g, g\<lparr>fg_calls := (fg_calls g)(k \<mapsto> fg_next g), fg_result := (fg_result g)(fg_next g := None),
             fg_done := (fg_done g)(fg_next g := False), fg_next := Suc (fg_next g)\<rparr>))"

definition flight_store :: "nat \<Rightarrow> 'r \<Rightarrow> ('k, 'r) flight_group \<Rightarrow> ('k, 'r) flight_group" where
  "flight_store c r g = g\<lparr>fg_result := (fg_result g)(c \<mapsto> r)\<rparr>"

text \<open>The deferred function.\<close>

definition flight_leave :: "'k \<Rightarrow> nat \<Rightarrow> ('k, 'r) flight_group \<Rightarrow> ('k, 'r) flight_group" where
  "flight_leave k c g = g\<lparr>fg_calls := (fg_calls g)(k := None), fg_done := (fg_done g)(c := True)\<rparr>"

section \<open>The goroutines\<close>

datatype ('k, 'r) flyer = Idle | Leading 'k nat | Landing 'k nat 'r | Waiting 'k nat | Returned 'k "'r option" | Crashed

inductive flight_step ::
  "('k, 'r) flight_group \<times> (nat \<Rightarrow> ('k, 'r) flyer) \<Rightarrow> ('k, 'r) flight_group \<times> (nat \<Rightarrow> ('k, 'r) flyer) \<Rightarrow> bool" where
  lead: "p i = Idle \<Longrightarrow> flight_enter k g = (True, c, g') \<Longrightarrow> flight_step (g, p) (g', p(i := Leading k c))"
| join: "p i = Idle \<Longrightarrow> flight_enter k g = (False, c, g') \<Longrightarrow> flight_step (g, p) (g', p(i := Waiting k c))"
| finish: "p i = Leading k c \<Longrightarrow> flight_step (g, p) (flight_store c r g, p(i := Landing k c r))"
| land: "p i = Landing k c r \<Longrightarrow> flight_step (g, p) (flight_leave k c g, p(i := Returned k (Some r)))"
| panic: "p i = Leading k c \<Longrightarrow> flight_step (g, p) (flight_leave k c g, p(i := Crashed))"
| receive: "p i = Waiting k c \<Longrightarrow> fg_done g c \<Longrightarrow> flight_step (g, p) (g, p(i := Returned k (fg_result g c)))"
| again: "p i = Returned k r \<Longrightarrow> flight_step (g, p) (g, p(i := Idle))"

definition no_flights :: "('k, 'r) flight_group" where
  "no_flights = \<lparr>fg_calls = (\<lambda>_. None), fg_result = (\<lambda>_. None), fg_done = (\<lambda>_. False), fg_next = 0\<rparr>"

section \<open>The invariant\<close>

fun leads :: "('k, 'r) flyer \<Rightarrow> 'k \<Rightarrow> nat \<Rightarrow> bool" where
  "leads (Leading k c) k' c' = (k' = k \<and> c' = c)"
| "leads (Landing k c r) k' c' = (k' = k \<and> c' = c)"
| "leads _ k' c' = False"

definition flights_ok :: "('k, 'r) flight_group \<times> (nat \<Rightarrow> ('k, 'r) flyer) \<Rightarrow> bool" where
  "flights_ok s = (case s of (g, p) \<Rightarrow>
     (\<forall>i k c. leads (p i) k c \<longrightarrow> fg_calls g k = Some c)
     \<and> (\<forall>i j k k' c. leads (p i) k c \<longrightarrow> leads (p j) k' c \<longrightarrow> i = j)
     \<and> (\<forall>k c. fg_calls g k = Some c \<longrightarrow> c < fg_next g \<and> \<not> fg_done g c \<and> (\<exists>i. leads (p i) k c))
     \<and> (\<forall>i k c. p i = Waiting k c \<longrightarrow> c < fg_next g \<and> (fg_done g c \<or> fg_calls g k = Some c))
     \<and> (\<forall>i k c r. p i = Landing k c r \<longrightarrow> fg_result g c = Some r))"

lemma flights_okI:
  assumes "\<And>i k c. leads (p i) k c \<Longrightarrow> fg_calls g k = Some c"
    "\<And>i j k k' c. leads (p i) k c \<Longrightarrow> leads (p j) k' c \<Longrightarrow> i = j"
    "\<And>k c. fg_calls g k = Some c \<Longrightarrow> c < fg_next g \<and> \<not> fg_done g c \<and> (\<exists>i. leads (p i) k c)"
    "\<And>i k c. p i = Waiting k c \<Longrightarrow> c < fg_next g \<and> (fg_done g c \<or> fg_calls g k = Some c)"
    "\<And>i k c r. p i = Landing k c r \<Longrightarrow> fg_result g c = Some r"
  shows "flights_ok (g, p)"
  using assms unfolding flights_ok_def prod.case by blast

lemma flights_okD:
  assumes "flights_ok (g, p)"
  shows "leads (p i) k c \<Longrightarrow> fg_calls g k = Some c"
    "leads (p i) k c \<Longrightarrow> leads (p j) k' c \<Longrightarrow> i = j"
    "fg_calls g k = Some c \<Longrightarrow> c < fg_next g \<and> \<not> fg_done g c"
    "fg_calls g k = Some c \<Longrightarrow> \<exists>i. leads (p i) k c"
    "p i = Waiting k c \<Longrightarrow> c < fg_next g \<and> (fg_done g c \<or> fg_calls g k = Some c)"
    "p i = Landing k c r \<Longrightarrow> fg_result g c = Some r"
  using assms unfolding flights_ok_def prod.case by blast+

lemma lead_ok:
  assumes ok: "flights_ok (g, p)" and i: "p i = Idle" and enter: "flight_enter k g = (True, c, g')"
  shows "flights_ok (g', p(i := Leading k c))"
proof -
  have none: "fg_calls g k = None" and c: "c = fg_next g"
    and g': "g' = g\<lparr>fg_calls := (fg_calls g)(k \<mapsto> c), fg_result := (fg_result g)(c := None),
             fg_done := (fg_done g)(c := False), fg_next := Suc c\<rparr>"
    using enter by (auto simp: flight_enter_def split: option.splits)
  note D = flights_okD [OF ok]
  have fresh: "c' < c" if "leads (p j) k' c'" for j k' c'
    using D(3) [OF D(1) [OF that]] c by simp
  show ?thesis
  proof (rule flights_okI)
    fix j k' c'
    assume "leads ((p(i := Leading k c)) j) k' c'"
    then show "fg_calls g' k' = Some c'"
      using D(1) [of j k' c'] none g' by (auto split: if_splits)
  next
    fix j j' k1 k2 c'
    assume "leads ((p(i := Leading k c)) j) k1 c'" "leads ((p(i := Leading k c)) j') k2 c'"
    then show "j = j'"
      using D(2) [of j k1 c' j' k2] fresh [of j k1 c'] fresh [of j' k2 c'] by (auto split: if_splits)
  next
    fix k' c'
    assume "fg_calls g' k' = Some c'"
    then show "c' < fg_next g' \<and> \<not> fg_done g' c' \<and> (\<exists>j. leads ((p(i := Leading k c)) j) k' c')"
    proof (cases "k' = k")
      case True
      then show ?thesis using \<open>fg_calls g' k' = Some c'\<close> g' by (auto intro: exI [of _ i])
    next
      case False
      then have "fg_calls g k' = Some c'"
        using \<open>fg_calls g' k' = Some c'\<close> g' by simp
      then obtain j where "leads (p j) k' c'" "c' < fg_next g" "\<not> fg_done g c'"
        using D(3,4) by blast
      then show ?thesis
        using g' c i by (auto intro!: exI [of _ j])
    qed
  next
    fix j k' c'
    assume "(p(i := Leading k c)) j = Waiting k' c'"
    then have "p j = Waiting k' c'" by (auto split: if_splits)
    then show "c' < fg_next g' \<and> (fg_done g' c' \<or> fg_calls g' k' = Some c')"
      using D(5) [of j k' c'] g' c none by auto
  next
    fix j k' c' r
    assume "(p(i := Leading k c)) j = Landing k' c' r"
    then have "p j = Landing k' c' r" by (auto split: if_splits)
    then show "fg_result g' c' = Some r"
      using D(6) [of j k' c' r] fresh [of j k' c'] g' by auto
  qed
qed

lemma leave_ok:
  assumes ok: "flights_ok (g, p)" and i: "leads (p i) k c" and f: "\<And>k' c'. \<not> leads f k' c'" "\<And>k' c'. f \<noteq> Waiting k' c'"
  shows "flights_ok (flight_leave k c g, p(i := f))"
proof -
  note D = flights_okD [OF ok]
  have k: "fg_calls g k = Some c" using D(1) [OF i] .
  have one: "k' = k \<and> c' = c" if "leads (p i) k' c'" for k' c'
    using that i by (cases "p i") simp_all
  have other: "c' \<noteq> c" if a: "fg_calls g k' = Some c'" "k' \<noteq> k" for k' c'
  proof
    assume "c' = c"
    obtain j where "leads (p j) k' c'" using D(4) [OF a(1)] by blast
    then show False
      using D(2) [OF _ i, of j k'] one a(2) \<open>c' = c\<close> by blast
  qed
  have j: "j \<noteq> i \<and> leads (p j) k' c' \<and> c' \<noteq> c \<and> k' \<noteq> k" if "leads ((p(i := f)) j) k' c'" for j k' c'
  proof -
    have 1: "j \<noteq> i"
      using that f(1) by (cases "j = i") simp_all
    then have 2: "leads (p j) k' c'"
      using that by simp
    moreover have "c' \<noteq> c"
      using D(2) [OF 2, of i k] i 1 by blast
    moreover have "k' \<noteq> k"
      using D(1) [OF 2] k calculation(2) by auto
    ultimately show ?thesis using 1 by blast
  qed
  show ?thesis
  proof (rule flights_okI)
    fix j k' c'
    assume "leads ((p(i := f)) j) k' c'"
    then have 1: "leads (p j) k' c' \<and> k' \<noteq> k" using j by blast
    then have "fg_calls g k' = Some c'" using D(1) by blast
    then show "fg_calls (flight_leave k c g) k' = Some c'"
      using 1 by (simp add: flight_leave_def)
  next
    fix a b k1 k2 c'
    assume "leads ((p(i := f)) a) k1 c'" "leads ((p(i := f)) b) k2 c'"
    then show "a = b"
      using j D(2) by blast
  next
    fix k' c'
    assume "fg_calls (flight_leave k c g) k' = Some c'"
    then have k': "k' \<noteq> k" "fg_calls g k' = Some c'"
      by (auto simp: flight_leave_def split: if_splits)
    then obtain a where a: "leads (p a) k' c'"
      using D(4) by blast
    have c': "c' \<noteq> c" using other [OF k'(2,1)] .
    have "a \<noteq> i"
      using one [of k' c'] a k'(1) by metis
    then have "leads ((p(i := f)) a) k' c'" using a by simp
    moreover have "c' < fg_next g \<and> \<not> fg_done g c'" by (rule D(3) [OF k'(2)])
    ultimately show "c' < fg_next (flight_leave k c g) \<and> \<not> fg_done (flight_leave k c g) c'
        \<and> (\<exists>j. leads ((p(i := f)) j) k' c')"
      using c' by (intro conjI exI [of _ a]) (simp_all add: flight_leave_def)
  next
    fix j k' c'
    assume "(p(i := f)) j = Waiting k' c'"
    then have "p j = Waiting k' c'" using f(2) by (auto split: if_splits)
    then show "c' < fg_next (flight_leave k c g) \<and> (fg_done (flight_leave k c g) c' \<or> fg_calls (flight_leave k c g) k' = Some c')"
      using D(5) [of j k' c'] k by (auto simp: flight_leave_def)
  next
    fix j k' c' r
    assume "(p(i := f)) j = Landing k' c' r"
    then have "p j = Landing k' c' r" using f(1) [of k' c'] by (auto split: if_splits)
    then show "fg_result (flight_leave k c g) c' = Some r"
      using D(6) by (simp add: flight_leave_def)
  qed
qed

lemma finish_ok:
  assumes ok: "flights_ok (g, p)" and i: "p i = Leading k c"
  shows "flights_ok (flight_store c r g, p(i := Landing k c r))"
proof -
  note D = flights_okD [OF ok]
  have same: "leads ((p(i := Landing k c r)) j) k' c' \<longleftrightarrow> leads (p j) k' c'" for j k' c'
    using i by (cases "j = i") simp_all
  show ?thesis
  proof (rule flights_okI, unfold same)
    show "leads (p j) k' c' \<Longrightarrow> fg_calls (flight_store c r g) k' = Some c'" for j k' c'
      using D(1) by (simp add: flight_store_def)
    show "leads (p a) k1 c' \<Longrightarrow> leads (p b) k2 c' \<Longrightarrow> a = b" for a b k1 k2 c'
      by (rule D(2))
    show "fg_calls (flight_store c r g) k' = Some c' \<Longrightarrow> c' < fg_next (flight_store c r g)
        \<and> \<not> fg_done (flight_store c r g) c' \<and> (\<exists>j. leads (p j) k' c')" for k' c'
      using D(3,4) [of k' c'] by (simp add: flight_store_def)
  next
    fix j k' c'
    assume "(p(i := Landing k c r)) j = Waiting k' c'"
    then have "p j = Waiting k' c'" by (auto split: if_splits)
    then show "c' < fg_next (flight_store c r g) \<and> (fg_done (flight_store c r g) c' \<or> fg_calls (flight_store c r g) k' = Some c')"
      using D(5) by (simp add: flight_store_def)
  next
    fix j k' c' q
    assume l: "(p(i := Landing k c r)) j = Landing k' c' q"
    show "fg_result (flight_store c r g) c' = Some q"
    proof (cases "j = i")
      case True
      then show ?thesis using l by (simp add: flight_store_def)
    next
      case False
      then have p: "p j = Landing k' c' q" using l by simp
      have "c' \<noteq> c"
        using D(2) [of j k' c' i k] p i False by auto
      then show ?thesis using D(6) [OF p] by (simp add: flight_store_def)
    qed
  qed
qed

lemma passive_ok:
  assumes ok: "flights_ok (g, p)" and "\<And>k c. \<not> leads (p i) k c" "\<And>k c. \<not> leads f k c"
    "\<And>k c. f = Waiting k c \<Longrightarrow> c < fg_next g \<and> (fg_done g c \<or> fg_calls g k = Some c)"
  shows "flights_ok (g, p(i := f))"
proof -
  note D = flights_okD [OF ok]
  have same: "leads ((p(i := f)) j) k c \<longleftrightarrow> leads (p j) k c" for j k c
    using assms(2,3) by (cases "j = i") simp_all
  show ?thesis
  proof (rule flights_okI, unfold same)
    show "leads (p j) k c \<Longrightarrow> fg_calls g k = Some c" for j k c by (rule D(1))
    show "leads (p a) k c \<Longrightarrow> leads (p b) k' c \<Longrightarrow> a = b" for a b k k' c by (rule D(2))
    show "fg_calls g k = Some c \<Longrightarrow> c < fg_next g \<and> \<not> fg_done g c \<and> (\<exists>j. leads (p j) k c)" for k c
      using D(3,4) [of k c] by simp
    show "(p(i := f)) j = Waiting k c \<Longrightarrow> c < fg_next g \<and> (fg_done g c \<or> fg_calls g k = Some c)" for j k c
      using D(5) [of j k c] assms(4) [of k c] by (cases "j = i") simp_all
    fix j k c r
    assume "(p(i := f)) j = Landing k c r"
    then have "p j = Landing k c r" using assms(3) [of k c] by (cases "j = i") auto
    then show "fg_result g c = Some r" by (rule D(6))
  qed
qed

lemma flight_step_ok: "flight_step s s' \<Longrightarrow> flights_ok s \<Longrightarrow> flights_ok s'"
proof (induction rule: flight_step.induct)
  case (lead p i k g c g')
  then show ?case by (simp add: lead_ok)
next
  case (join p i k g c g')
  then have g: "g' = g" "fg_calls g k = Some c"
    by (auto simp: flight_enter_def split: option.splits)
  then show ?case
    using join flights_okD(3) [OF join(3), of k c] by (auto intro: passive_ok)
next
  case (finish p i k c g r)
  then show ?case by (simp add: finish_ok)
next
  case (land p i k c r g)
  then show ?case by (intro leave_ok) auto
next
  case (panic p i k c g)
  then show ?case by (intro leave_ok) auto
next
  case (receive p i k c g)
  then show ?case by (intro passive_ok) auto
next
  case (again p i k r g)
  then show ?case by (intro passive_ok) auto
qed

lemma flight_reach_ok:
  assumes "flight_step\<^sup>*\<^sup>* (no_flights, \<lambda>_. Idle) s"
  shows "flights_ok s"
  using assms
proof (induction rule: rtranclp_induct)
  case base
  show ?case by (rule flights_okI) (simp_all add: no_flights_def)
next
  case (step s t)
  then show ?case using flight_step_ok by blast
qed

section \<open>What the endpoint relies on\<close>

text \<open>
  C39. Concurrent misses of one key make one fan-out: at any moment at most one goroutine runs the
  function for a key, whatever the interleaving and whatever panics; and nobody is left waiting: a
  follower either finds its call closed, or some goroutine still leads that very call and will close
  it.
\<close>

theorem one_flight_per_key:
  assumes "flight_step\<^sup>*\<^sup>* (no_flights, \<lambda>_. Idle) (g, p)"
  shows "(\<forall>i j k c d. leads (p i) k c \<longrightarrow> leads (p j) k d \<longrightarrow> i = j)
    \<and> (\<forall>i k c. p i = Waiting k c \<longrightarrow> fg_done g c \<or> (\<exists>j. leads (p j) k c))"
proof -
  note ok = flight_reach_ok [OF assms]
  show ?thesis
  proof (intro conjI allI impI)
    fix i j k c d
    assume "leads (p i) k c" "leads (p j) k d"
    then show "i = j"
      using flights_okD(1,2) [OF ok] by (metis option.inject)
  next
    fix i k c
    assume "p i = Waiting k c"
    then show "fg_done g c \<or> (\<exists>j. leads (p j) k c)"
      using flights_okD(4,5) [OF ok] by blast
  qed
qed

end
