(* ===== verification/Delivery_Witnesses.thy ===== *)
theory Delivery_Witnesses
  imports Delivery_Laws Single_Flight Samples
begin

text \<open>
  The properties of the delivery endpoint on concrete requests: the user of the samples asks for his
  subscription, first from panels that answer, then after it was revoked.
\<close>

section \<open>The memories\<close>

abbreviation sample_history :: "(nat response_cache, string, nat) memory_action list" where
  "sample_history \<equiv> [DropAll [''j''], Store 5 ''k'' 2, Trim (cleanup 3), Store 1 ''k'' 1]"

lemma cache_serves_last_stored_witness:
  "\<exists>newer older now. sample_history = newer @ Store now ''k'' 2 # older \<and> 14 \<le> now + 10 \<and> Drop ''k'' \<notin> set newer"
proof -
  have "\<forall>f. Trim f \<in> set sample_history \<longrightarrow> (\<exists>now. f = cleanup now)"
    by auto
  moreover have "cache_get (foldr (perform cache_set cache_delete DeleteKeys) sample_history (NewCache 10)) 14 ''k'' = Some 2"
    by (simp add: cache_get_def cache_set_def cache_delete_def cleanup_def expired_keys_def purge_def NewCache_def entry_of_def
        select_first_def delete_entry_def delete_where_def evict.simps MaxCacheEntries_def DeleteKeys_def)
  ultimately show ?thesis
    using cache_serves_last_stored [of sample_history 10 14 "''k''" 2] by blast
qed

lemma InvalidateSubscriber_exact_witness:
  "cache_get (InvalidateSubscriber ''a'' (cache_set 1 ''a:clash'' (2::nat) (NewCache 10))) 3 (subscriptionCacheKey ''a'' OutputClash)
     = (if ''a'' = ''a'' then None else cache_get (cache_set 1 ''a:clash'' (2::nat) (NewCache 10)) 3 (subscriptionCacheKey ''a'' OutputClash))"
proof (rule InvalidateSubscriber_exact)
  show "cache_ok (cache_set 1 ''a:clash'' (2::nat) (NewCache 10))"
    by (rule cache_set_ok) (simp add: cache_ok_def NewCache_def)
  show "SubIDRegex ''a''" "SubIDRegex ''a''"
    by code_simp+
qed

section \<open>A flight\<close>

definition flying :: "(string, nat) flight_group \<times> (nat \<Rightarrow> (string, nat) flyer)" where
  "flying = (case flight_enter ''k'' no_flights of (_, c, g) \<Rightarrow> (g, ((\<lambda>_. Idle)(0 := Leading ''k'' c))(1 := Waiting ''k'' c)))"

lemma flying_reached: "flight_step\<^sup>*\<^sup>* (no_flights, \<lambda>_. Idle) flying"
proof -
  let ?g = "snd (snd (flight_enter ''k'' (no_flights :: (string, nat) flight_group)))"
  have 1: "flight_step (no_flights, \<lambda>_. Idle) (?g, (\<lambda>_. Idle)(0 := Leading ''k'' 0))"
    by (rule flight_step.lead) (simp_all add: flight_enter_def no_flights_def)
  have 2: "flight_step (?g, (\<lambda>_. Idle)(0 := Leading ''k'' 0)) (?g, ((\<lambda>_. Idle)(0 := Leading ''k'' 0))(1 := Waiting ''k'' 0))"
    by (rule flight_step.join) (simp_all add: flight_enter_def no_flights_def)
  have "flying = (?g, ((\<lambda>_. Idle)(0 := Leading ''k'' 0))(1 := Waiting ''k'' 0))"
    by (simp add: flying_def flight_enter_def no_flights_def)
  then show ?thesis
    using 1 2 by (metis converse_rtranclp_into_rtranclp rtranclp.rtrancl_refl)
qed

lemma one_flight_per_key_witness:
  "leads (snd flying 0) ''k'' 0 \<and> \<not> leads (snd flying 1) ''k'' 0 \<and> (\<exists>j. leads (snd flying j) ''k'' 0)"
proof -
  have lead: "leads (snd flying 0) ''k'' 0"
    by (simp add: flying_def flight_enter_def no_flights_def)
  have "flight_step\<^sup>*\<^sup>* (no_flights, \<lambda>_. Idle) (fst flying, snd flying)"
    using flying_reached by simp
  from one_flight_per_key [OF this] have "leads (snd flying 1) ''k'' 0 \<longrightarrow> 0 = (1::nat)"
    using lead by blast
  then show ?thesis
    using lead by auto
qed

section \<open>Tags, titles and devices\<close>

lemma tags_unique_witness:
  "ob_tag (tag_outbounds OutputXray [\<lparr>ob_tag = ''direct'', ob_rest = []\<rparr>] ! 0) \<notin> {''direct'', ''block''}"
proof -
  have "tag_outbounds OutputXray [\<lparr>ob_tag = ''direct'', ob_rest = []\<rparr>] ! 0 \<in> set (tag_outbounds OutputXray [\<lparr>ob_tag = ''direct'', ob_rest = []\<rparr>])"
    by (simp add: tagProxyOutbounds_def Let_def)
  then show ?thesis
    using tags_unique [of OutputXray "[\<lparr>ob_tag = ''direct'', ob_rest = []\<rparr>]"] by auto
qed

lemma title_evaluated:
  "TrimSpace ''BASE64:QQ'' = ''BASE64:QQ''" "b64_raw ''A'' = ''QQ''" "isPrintableProfileTitle ''A''" "to_lower ''BASE64:'' = ''base64:''"
  "isPrintableProfileTitle ''A+''"
  by code_simp+


lemma record_device_list_witness:
  "[(''x-hwid'', ''b'')] \<in> set (record_device ''t'' [(''x-hwid'', ''a'')] [[(''x-hwid'', ''a'')], [(''x-hwid'', ''b'')]])"
  using record_device_list [of "[[(''x-hwid'', ''a'')], [(''x-hwid'', ''b'')]]" "''t''" "[(''x-hwid'', ''a'')]"]
  by (simp add: header_def Let_def MaxDeviceEntries_def)

section \<open>A request\<close>

definition sample_delivery_env :: delivery_env where
  "sample_delivery_env =
     \<lparr>se_get = (\<lambda>_ _. Some \<lparr>hr_status = 200, hr_headers = [], hr_body = Some ''c''\<rparr>), se_stop = None,
      se_json_valid = (\<lambda>_. True), se_clash_yaml = (\<lambda>_. False), se_json_configs = (\<lambda>b. Some [b]), se_clash_configs = (\<lambda>_. None),
      se_vmess_config = (\<lambda>_. None), se_link_config = (\<lambda>_. None),
      se_convert = (\<lambda>_ c. Some \<lparr>ob_tag = ''n'', ob_rest = c\<rparr>), se_encode = (\<lambda>_ _. Inr ''body''),
      de_parse = (\<lambda>_. None), de_print = (\<lambda>_. ''[]''), de_rfc3339 = (\<lambda>_. ''t''),
      ck_get = day0, ck_check = day0, ck_load = day0, ck_stamp = day0, ck_touch = day0, ck_write = day0,
      ck_flight = day0, ck_store = day0, ck_warn = day0\<rparr>"

definition delivery_of :: "db \<Rightarrow> delivery" where
  "delivery_of d =
     \<lparr>dv_world = world_of d, dv_cache = NewCache 10, dv_touch = NewIntervalGate LastRequestWriteInterval touchPruneThreshold,
      dv_not_found = None\<rparr>"

definition sample_request :: http_request where
  "sample_request = \<lparr>rq_method = ''GET'', rq_path = ''/sub/sub7'', rq_headers = [], rq_format = [], rq_client_ip = ''9''\<rparr>"

lemma delivery_of_ok: "cache_ok (dv_cache (delivery_of d))"
  by (simp add: delivery_of_def NewCache_def cache_ok_def)

lemma sample_loaded: "fst (GetWithPlanAndNodes day0 ''sub7'' (world_of db0)) = Inr (user_sub, free_plan, [node1])"
  by code_simp

lemma sample_load:
  "\<exists>s'. loadSubscription sample_delivery_env ''sub7'' ip h (delivery_of db0) = (Inr (user_sub, free_plan, [node1]), s')"
proof -
  obtain w where "GetWithPlanAndNodes day0 ''sub7'' (world_of db0) = (Inr (user_sub, free_plan, [node1]), w)"
    using sample_loaded by (cases "GetWithPlanAndNodes day0 ''sub7'' (world_of db0)") auto
  then show ?thesis
    by (simp add: loadSubscription_def on_world_def sample_delivery_env_def delivery_of_def)
qed

lemma sample_format: "DetectOutputFormat [] [] = OutputXray" "subscriptionCacheKey ''sub7'' OutputXray = ''sub7''"
  by code_simp+

lemma sample_miss: "serveFromCache sample_delivery_env ''sub7'' ''sub7'' (delivery_of db0) = (None, delivery_of db0)"
  by (simp add: serveFromCache_def delivery_of_def NewCache_def cache_get_def entry_of_def select_first_def)

definition shared_flight :: flight_result where
  "shared_flight = \<lparr>fr_result = Some (''body'', []), fr_success = 1, fr_total = 1, fr_err = None\<rparr>"

lemma sample_handled:
  "fst (HandleSubscription sample_delivery_env (Some shared_flight) ''sub7'' ip (Some []) [] (delivery_of db0)) = shared_flight"
  using sample_load [of ip "Some []"]
  by (auto simp: HandleSubscription_def header_def sample_format sample_miss)

lemma sample_path: "SubIDRegex ''sub7''" "FilterHeaders [] = []"
  by code_simp+

lemma sample_served:
  "rs_status (fst (handleSubscription sample_delivery_env (Some shared_flight) True sample_request (delivery_of db0))) = 200"
  using sample_handled [of "''9''"]
  by (cases "HandleSubscription sample_delivery_env (Some shared_flight) ''sub7'' ''9'' (Some []) [] (delivery_of db0)")
     (simp add: handleSubscription_def sample_request_def sample_path shared_flight_def success_page_def)

lemma served_only_when_active_witness:
  "entitled sample_delivery_env (drop 5 (rq_path sample_request)) (db (step_other (dv_world (delivery_of db0))))"
  by (rule served_only_when_active [OF sample_served])

text \<open>The panel answers: the body is rendered and cached.\<close>

lemma sample_trimmed: "TrimSpace ''c'' = ''c''"
  by code_simp

lemma sample_fetch:
  "fetchAndAggregateSources (sources_env.truncate sample_delivery_env) ''sub7'' [node1]
     = (no_sources\<lparr>ag_configs := [''c''], ag_first_headers := Some []\<rparr>, 1, 1)"
  by (simp add: fetchAndAggregateSources_def fan_out_def reached_def fetchSource_def FetchFromNode_def MaxResponseSize_def
      sample_delivery_env_def sources_env.truncate_def node1_def DetectFormat_def sample_trimmed Let_def merge_sources_def
      merge_source_def capture_headers_def updateMinExpire_def add_usage_def ParseUserInfoValue_def aggregateFormat_def
      append_configs_def no_sources_def wrap64_def)

lemma sample_settings:
  "se_stop sample_delivery_env = None" "ck_flight sample_delivery_env = day0" "ck_store sample_delivery_env = day0"
  "se_convert (sources_env.truncate sample_delivery_env) = (\<lambda>_ c. Some \<lparr>ob_tag = ''n'', ob_rest = c\<rparr>)"
  "se_encode (sources_env.truncate sample_delivery_env) = (\<lambda>_ _. Inr ''body'')"
  by (simp_all add: sample_delivery_env_def sources_env.truncate_def)

lemma sample_flight:
  assumes "dv_cache s = NewCache 10"
  shows "\<exists>r. run_flight sample_delivery_env ''sub7'' ''sub7'' OutputXray (user_sub, free_plan, [node1]) s
    = (\<lparr>fr_result = Some r, fr_success = 1, fr_total = 1, fr_err = None\<rparr>, on_cache (cache_set day0 ''sub7'' r) s)"
  using assms
  by (simp add: run_flight_def sample_fetch buildResponse_def Let_def aggregateConfigs_def no_sources_def map_filter_simps
      renderSubscription_def sample_settings NewCache_def cache_get_def entry_of_def select_first_def)

lemma sample_request_caches:
  "\<exists>out s' r. HandleSubscription sample_delivery_env None ''sub7'' ''9'' (Some []) [] (delivery_of db0) = (out, s')
     \<and> cache_get (dv_cache s') day0 ''sub7'' = Some r"
proof -
  obtain s2 where load: "loadSubscription sample_delivery_env ''sub7'' ''9'' (Some []) (delivery_of db0) = (Inr (user_sub, free_plan, [node1]), s2)"
    using sample_load by blast
  have c: "dv_cache s2 = NewCache 10"
    using load_cache [OF load] by (simp add: delivery_of_def)
  obtain r where run: "run_flight sample_delivery_env ''sub7'' ''sub7'' OutputXray (user_sub, free_plan, [node1]) s2
    = (\<lparr>fr_result = Some r, fr_success = 1, fr_total = 1, fr_err = None\<rparr>, on_cache (cache_set day0 ''sub7'' r) s2)"
    using sample_flight [OF c] by blast
  have "cache_get (cache_set day0 ''sub7'' r (NewCache 10)) day0 ''sub7'' = Some r"
    by (simp add: cache_get_def cache_set_def NewCache_def entry_of_def select_first_def delete_entry_def delete_where_def
        evict.simps MaxCacheEntries_def)
  then show ?thesis
    using load run c by (simp add: HandleSubscription_def header_def sample_format sample_miss on_cache_def)
qed

lemma only_complete_answers_cached_witness:
  "\<exists>out s' r. HandleSubscription sample_delivery_env None ''sub7'' ''9'' (Some []) [] (delivery_of db0) = (out, s')
     \<and> fr_result out = Some r \<and> source_answered sample_delivery_env ''sub7'' 0 node1"
proof -
  obtain out s' r where run: "HandleSubscription sample_delivery_env None ''sub7'' ''9'' (Some []) [] (delivery_of db0) = (out, s')"
    "cache_get (dv_cache s') day0 ''sub7'' = Some r"
    using sample_request_caches by blast
  have new: "cache_get (dv_cache (delivery_of db0)) day0 ''sub7'' \<noteq> Some r"
    by (simp add: delivery_of_def NewCache_def cache_get_def entry_of_def select_first_def)
  obtain sub pl ns w where kept: "fr_result out = Some r"
    "GetWithPlanAndNodes day0 ''sub7'' (world_of db0) = (Inr (sub, pl, ns), w)"
    "\<forall>i < length ns. n_subscription_url (ns ! i) \<noteq> [] \<longrightarrow> source_answered sample_delivery_env ''sub7'' i (ns ! i)"
    using only_complete_answers_cached [OF delivery_of_ok run new]
    by (auto simp: delivery_of_def sample_delivery_env_def)
  then have "ns = [node1]"
    using sample_loaded by simp
  then show ?thesis
    using run(1) kept(1,3) by (auto simp: node1_def)
qed

text \<open>The subscription was revoked.\<close>

definition revoked_db :: db where
  "revoked_db = db0\<lparr>subscriptions := [user_sub\<lparr>s_status := SubscriptionStatusRevoked\<rparr>]\<rparr>"

lemma revoked_gets_404_witness:
  "fst (handleSubscription sample_delivery_env None True sample_request (delivery_of revoked_db)) = not_found_page"
proof -
  have "\<not> entitled sample_delivery_env ''sub7'' revoked_db"
    by (simp add: entitled_def revoked_db_def)
  then show ?thesis
    using revoked_gets_404 [of sample_request "''sub7''" "delivery_of revoked_db" sample_delivery_env day0 None] delivery_of_ok sample_path
    by (simp add: sample_request_def delivery_of_def world_of_def sample_delivery_env_def)
qed

end
