(* ===== verification/Web_Callback.thy ===== *)
theory Web_Callback
  imports Order_Service Traffic_Card Subserver_Delivery
begin

text \<open>
  The webhook of the payment provider: \<open>handlePaymentCallback\<close> of \<open>internal/web/web.go\<close>.

  The body is what the reader delivers (\<open>None\<close> when it fails); decoding JSON is a parameter, whose
  result also says whether anything follows the document. The text of an alert is left out, its event
  is kept, and so is the text of the message for the customer; what it is computed from is read as
  the code reads it (\<open>BuildPaidUserNotification\<close> of \<open>internal/service/order.go\<close>). The follow-up work runs detached from the request, so a
  client that hangs up does not stop it.
\<close>

section \<open>The request\<close>

record payment_config =
  cfg_enabled :: bool
  cfg_merchant :: string
  cfg_secret :: string

record callback_request =
  cr_method :: string
  cr_headers :: "string \<Rightarrow> string"
  cr_body :: "string option"

record webhook_env =
  wh_config :: "payment_config option"
  wh_ready :: bool
  wh_orders :: "pay_env option"
  wh_bot :: "svc_env option"
  wh_decode :: "string \<Rightarrow> (callback_payload \<times> bool) option"
  wh_traffic :: "traffic_env option"
  wh_today :: time
  wh_text :: "error \<Rightarrow> string"

record webhook =
  wk_world :: world
  wk_alert :: interval_gate

definition http_error :: "headers \<Rightarrow> string \<Rightarrow> int \<Rightarrow> http_response" where
  "http_error h msg status =
     \<lparr>rs_status = status,
      rs_headers = AList.update ''X-Content-Type-Options'' ''nosniff''
        (AList.update ''Content-Type'' ''text/plain; charset=utf-8'' h),
      rs_body = msg @ [CHR 0x0A]\<rparr>"

definition MaxCallbackBody :: int where "MaxCallbackBody = 262144"

definition read_body :: "callback_request \<Rightarrow> string option" where
  "read_body rq = (case cr_body rq of None \<Rightarrow> None | Some b \<Rightarrow> if MaxCallbackBody < int (length b) then None else Some b)"

definition accepted_page :: http_response where
  "accepted_page = \<lparr>rs_status = 200, rs_headers = [(''Content-Type'', ''application/json'')], rs_body = ''{\"ok\":true}'' @ [CHR 0x0A]\<rparr>"

section \<open>What follows an accepted callback\<close>

text \<open>Alerts, and the message for the customer, whose failure never fails the callback.\<close>

definition notifyPaymentCallbackIssue :: "webhook_env \<Rightarrow> string \<Rightarrow> (world, unit) op" where
  "notifyPaymentCallbackIssue env event =
     (if wh_orders env = None then returnE () else NotifyPaymentIssue event 0)"

definition BuildPaidUserNotification :: "webhook_env \<Rightarrow> order \<Rightarrow> (world, int) op" where
  "BuildPaidUserNotification env r =
     bindE (GetByID (o_subscription_id r)) (\<lambda>sub.
     if s_telegram_id sub \<le> 0 then returnE 0
     else (case wh_traffic env of
             None \<Rightarrow> failE (errors_new ''subscription service is not configured'')
           | Some svc \<Rightarrow> bindE (GetWithTraffic svc (wh_today env) (s_telegram_id sub)) (\<lambda>_. returnE (s_telegram_id sub))))"

definition notify_customer :: "webhook_env \<Rightarrow> svc_env \<Rightarrow> order \<Rightarrow> (world, unit) op" where
  "notify_customer env tg r =
     tryE (BuildPaidUserNotification env r) (\<lambda>built.
     case built of
       Inl e \<Rightarrow> NotifyPaymentIssue ''paid_notification_build_failed'' (o_id r)
     | Inr chatID \<Rightarrow>
         if 0 < chatID
         then tryE (sendE tg chatID (MsgPaid (o_id r))) (\<lambda>sent.
              case sent of Inl e \<Rightarrow> NotifyPaymentIssue ''paid_notification_send_failed'' (o_id r) | Inr _ \<Rightarrow> returnE ())
         else returnE ())"

definition bad_request :: http_response where
  "bad_request = http_error [] ''invalid callback'' 400"

definition confirmed_callback :: "webhook_env \<Rightarrow> pay_env \<Rightarrow> svc_env \<Rightarrow> time \<Rightarrow> uuid \<Rightarrow> callback_payload \<Rightarrow> (world, http_response) op" where
  "confirmed_callback env pay tg now ppid p =
     tryE (ConfirmPayment pay now ppid (cp_payload p) (cp_amount p) (cp_currency p)) (\<lambda>confirmation.
     case confirmation of
       Inl e \<Rightarrow>
         returnE (if errors_is e ErrAmountMismatch \<or> errors_is e ErrCurrencyMismatch \<or> errors_is e ErrInvalidPaymentTransition
                  then http_error [] (wh_text env e) 400 else http_error [] ''processing failed'' 500)
     | Inr c \<Rightarrow>
         bindE (if pc_activated c then (case pc_order c of None \<Rightarrow> returnE () | Some r \<Rightarrow> notify_customer env tg r) else returnE ())
           (\<lambda>_. returnE accepted_page))"

definition cancelled_callback :: "webhook_env \<Rightarrow> pay_env \<Rightarrow> time \<Rightarrow> uuid \<Rightarrow> string \<Rightarrow> callback_payload \<Rightarrow> (world, http_response) op" where
  "cancelled_callback env pay now ppid status p =
     tryE (CancelPaymentByProvider pay now ppid status (cp_amount p) (cp_currency p)) (\<lambda>res.
     case res of
       Inl e \<Rightarrow>
         returnE (if errors_is e ErrAmountMismatch \<or> errors_is e ErrCurrencyMismatch
                  then http_error [] (wh_text env e) 400 else http_error [] ''processing failed'' 500)
     | Inr _ \<Rightarrow> returnE accepted_page)"

definition callback_status :: "callback_payload \<Rightarrow> string" where
  "callback_status p = to_upper (trim_space (cp_status p))"

definition rejected :: "webhook_env \<Rightarrow> string \<Rightarrow> (world, http_response) op" where
  "rejected env event = bindE (notifyPaymentCallbackIssue env event) (\<lambda>_. returnE bad_request)"

definition dispatch_callback :: "webhook_env \<Rightarrow> pay_env \<Rightarrow> svc_env \<Rightarrow> time \<Rightarrow> uuid \<Rightarrow> callback_payload \<Rightarrow> (world, http_response) op" where
  "dispatch_callback env pay tg now ppid p =
     (let status = callback_status p in
      if status = ''CONFIRMED'' then confirmed_callback env pay tg now ppid p
      else if status = ''CANCELED'' \<or> status = ''CHARGEBACKED'' then cancelled_callback env pay now ppid status p
      else if status = ''PENDING'' then returnE accepted_page
      else bindE (notifyPaymentCallbackIssue env ''unsupported_callback_status'') (\<lambda>_. returnE accepted_page))"

definition authenticated_callback :: "webhook_env \<Rightarrow> pay_env \<Rightarrow> svc_env \<Rightarrow> time \<Rightarrow> callback_request \<Rightarrow> (world, http_response) op" where
  "authenticated_callback env pay tg now rq =
     (case read_body rq of
        None \<Rightarrow> rejected env ''malformed_callback''
      | Some body \<Rightarrow>
          (case wh_decode env body of
             None \<Rightarrow> rejected env ''malformed_callback''
           | Some (p, alone) \<Rightarrow>
               (case ParseTransactionID (pe_uuid pay) (cp_id p) of
                  Inl e \<Rightarrow> rejected env ''invalid_provider_id''
                | Inr ppid \<Rightarrow>
                    (case Validate (pe_uuid pay) p of
                       Inl e \<Rightarrow> rejected env ''invalid_callback''
                     | Inr _ \<Rightarrow>
                         if \<not> alone then rejected env ''trailing_callback_data''
                         else dispatch_callback env pay tg now ppid p))))"

definition on_webhook :: "(world, http_response) op \<Rightarrow> webhook \<Rightarrow> http_response \<times> webhook" where
  "on_webhook m s =
     (case m (wk_world s) of
        (Inr r, w) \<Rightarrow> (r, s\<lparr>wk_world := w\<rparr>)
      | (Inl e, w) \<Rightarrow> (http_error [] ''processing failed'' 500, s\<lparr>wk_world := w\<rparr>))"

text \<open>No operation of the handler answers with an error (\<open>callback_answers\<close> below), so the second
  branch of \<open>on_webhook\<close> is never taken.\<close>

definition handlePaymentCallback :: "webhook_env \<Rightarrow> time \<Rightarrow> callback_request \<Rightarrow> webhook \<Rightarrow> http_response \<times> webhook" where
  "handlePaymentCallback env now rq s =
     (if cr_method rq \<noteq> ''POST'' then (http_error [(''Allow'', ''POST'')] ''Method Not Allowed'' 405, s)
      else (case (wh_config env, wh_orders env, wh_bot env) of
              (Some cfg, Some pay, Some tg) \<Rightarrow>
                if \<not> wh_ready env \<or> \<not> cfg_enabled cfg then (http_error [] ''payments not available'' 503, s)
                else if \<not> VerifyHeaders (cfg_merchant cfg) (cfg_secret cfg) (cr_headers rq)
                then (case Allow ''signature'' now (wk_alert s) of (ok, g) \<Rightarrow>
                        on_webhook (bindE (if ok then notifyPaymentCallbackIssue env ''callback_unauthorized'' else returnE ())
                                      (\<lambda>_. returnE (http_error [] ''unauthorized'' 401))) (s\<lparr>wk_alert := g\<rparr>))
                else on_webhook (authenticated_callback env pay tg now rq) s
            | _ \<Rightarrow> (http_error [] ''payments not available'' 503, s)))"

section \<open>The handler always answers\<close>

definition answers :: "(world, 'a) op \<Rightarrow> bool" where
  "answers m \<longleftrightarrow> (\<forall>w. \<exists>x w'. m w = (Inr x, w'))"

lemma answersI: "(\<And>w. \<exists>x w'. m w = (Inr x, w')) \<Longrightarrow> answers m"
  by (simp add: answers_def)

lemma returnE_answers [intro, simp]: "answers (returnE x)"
  by (simp add: answers_def returnE_def)

lemma bindE_answers [intro]: "answers m \<Longrightarrow> (\<And>x. answers (k x)) \<Longrightarrow> answers (bindE m k)"
  unfolding answers_def bindE_def by (metis (no_types, lifting) old.prod.case sum.case(2))

lemma tryE_answers [intro]: "(\<And>x. answers (k x)) \<Longrightarrow> answers (tryE m k)"
  unfolding answers_def tryE_def by (metis (no_types, lifting) old.prod.case prod.exhaust)

lemma issue_answers [intro, simp]: "answers (NotifyPaymentIssue event i)"
  by (simp add: answers_def NotifyPaymentIssue_def emit_def)

lemma callback_issue_answers [intro, simp]: "answers (notifyPaymentCallbackIssue env event)"
  by (simp add: notifyPaymentCallbackIssue_def)

lemma rejected_answers [intro, simp]: "answers (rejected env event)"
  unfolding rejected_def by (intro bindE_answers callback_issue_answers returnE_answers)

lemma notify_customer_answers: "answers (notify_customer env tg r)"
  unfolding notify_customer_def by (rule tryE_answers) (auto split: sum.split)

lemma confirmed_answers: "answers (confirmed_callback env pay tg now ppid p)"
  unfolding confirmed_callback_def
  by (rule tryE_answers) (auto simp: notify_customer_answers split: sum.split option.split)

lemma cancelled_answers: "answers (cancelled_callback env pay now ppid status p)"
  unfolding cancelled_callback_def by (rule tryE_answers) (auto split: sum.split)

lemma dispatch_answers: "answers (dispatch_callback env pay tg now ppid p)"
  unfolding dispatch_callback_def Let_def by (simp add: confirmed_answers cancelled_answers bindE_answers)

lemma callback_answers: "answers (authenticated_callback env pay tg now rq)"
  unfolding authenticated_callback_def by (auto simp: dispatch_answers split: option.split sum.split)

section \<open>Which callbacks act\<close>

definition genuine :: "webhook_env \<Rightarrow> callback_request \<Rightarrow> pay_env \<Rightarrow> uuid \<Rightarrow> callback_payload \<Rightarrow> bool" where
  "genuine env rq pay ppid p \<longleftrightarrow>
     cr_method rq = ''POST'' \<and> wh_ready env \<and> wh_orders env = Some pay
     \<and> (\<exists>cfg. wh_config env = Some cfg \<and> cfg_enabled cfg \<and> VerifyHeaders (cfg_merchant cfg) (cfg_secret cfg) (cr_headers rq))
     \<and> (\<exists>body. read_body rq = Some body \<and> wh_decode env body = Some (p, True))
     \<and> ParseTransactionID (pe_uuid pay) (cp_id p) = Inr ppid \<and> Validate (pe_uuid pay) p = Inr ()"

text \<open>An operation that leaves the database and the script alone.\<close>

definition aside :: "(world, 'a) op \<Rightarrow> bool" where
  "aside m \<longleftrightarrow> (\<forall>w. db (snd (m w)) = db w \<and> turns (snd (m w)) = turns w)"

lemma aside_simps [simp]:
  "aside (returnE x)" "aside (notifyPaymentCallbackIssue env event)" "aside (rejected env event)"
  "aside (bindE (notifyPaymentCallbackIssue env event) (\<lambda>_. returnE y))"
  by (simp_all add: aside_def rejected_def notifyPaymentCallbackIssue_def NotifyPaymentIssue_def op_simps)

lemma on_webhook_answers:
  assumes "answers m"
  shows "on_webhook m s = (case m (wk_world s) of (r, w) \<Rightarrow> ((case r of Inr x \<Rightarrow> x | Inl e \<Rightarrow> undefined), s\<lparr>wk_world := w\<rparr>))"
  using assms unfolding answers_def on_webhook_def by (metis (no_types, lifting) old.prod.case sum.case(2))

lemma on_webhook_aside:
  "aside m \<Longrightarrow> db (wk_world (snd (on_webhook m s))) = db (wk_world s) \<and> turns (wk_world (snd (on_webhook m s))) = turns (wk_world s)"
  unfolding aside_def on_webhook_def by (auto split: prod.split sum.split dest: spec [of _ "wk_world s"])

lemma authenticated_cases:
  obtains (refused) "aside (authenticated_callback env pay tg now rq)"
      "\<And>w. fst (authenticated_callback env pay tg now rq w) = Inr bad_request"
  | (passed) p ppid body where "read_body rq = Some body" "wh_decode env body = Some (p, True)"
      "ParseTransactionID (pe_uuid pay) (cp_id p) = Inr ppid" "Validate (pe_uuid pay) p = Inr ()"
      "authenticated_callback env pay tg now rq = dispatch_callback env pay tg now ppid p"
proof -
  have bad: "fst (rejected env event w) = Inr bad_request" for event w
    by (simp add: rejected_def notifyPaymentCallbackIssue_def NotifyPaymentIssue_def op_simps)
  show ?thesis
  proof (cases "read_body rq")
    case None
    then show ?thesis using refused bad by (simp add: authenticated_callback_def)
  next
    case (Some body)
    show ?thesis
    proof (cases "wh_decode env body")
      case None
      then show ?thesis using refused bad Some by (simp add: authenticated_callback_def)
    next
      case (Some pa)
      obtain p alone where pa: "pa = (p, alone)" by (cases pa)
      show ?thesis
        using refused bad passed \<open>read_body rq = Some body\<close> Some pa
        by (cases "ParseTransactionID (pe_uuid pay) (cp_id p)"; cases "Validate (pe_uuid pay) p"; cases alone)
           (simp_all add: authenticated_callback_def)
    qed
  qed
qed

lemma handled_cases:
  obtains (idle) "db (wk_world (snd (handlePaymentCallback env now rq s))) = db (wk_world s)"
      "turns (wk_world (snd (handlePaymentCallback env now rq s))) = turns (wk_world s)"
      "rs_status (fst (handlePaymentCallback env now rq s)) \<noteq> 200"
  | (acts) pay tg ppid p where "genuine env rq pay ppid p"
      "handlePaymentCallback env now rq s = on_webhook (dispatch_callback env pay tg now ppid p) s"
proof (cases "cr_method rq = ''POST''")
  case False
  then show ?thesis using idle by (simp add: handlePaymentCallback_def http_error_def)
next
  case post: True
  show ?thesis
  proof (cases "wh_config env"; cases "wh_orders env"; cases "wh_bot env")
    fix cfg pay tg
    assume env: "wh_config env = Some cfg" "wh_orders env = Some pay" "wh_bot env = Some tg"
    show ?thesis
    proof (cases "wh_ready env \<and> cfg_enabled cfg")
      case False
      then show ?thesis using idle env post by (auto simp: handlePaymentCallback_def http_error_def)
    next
      case on: True
      show ?thesis
      proof (cases "VerifyHeaders (cfg_merchant cfg) (cfg_secret cfg) (cr_headers rq)")
        case False
        let ?m = "\<lambda>ok. bindE (if ok then notifyPaymentCallbackIssue env ''callback_unauthorized'' else returnE ())
                     (\<lambda>_. returnE (http_error [] ''unauthorized'' 401))"
        obtain ok g where a: "Allow ''signature'' now (wk_alert s) = (ok, g)"
          by (cases "Allow ''signature'' now (wk_alert s)")
        have run: "handlePaymentCallback env now rq s = on_webhook (?m ok) (s\<lparr>wk_alert := g\<rparr>)"
          using False env on post a by (simp add: handlePaymentCallback_def)
        have "aside (?m ok)" "rs_status (fst (on_webhook (?m ok) (s\<lparr>wk_alert := g\<rparr>))) = 401"
          by (cases ok; simp add: aside_def on_webhook_def notifyPaymentCallbackIssue_def NotifyPaymentIssue_def op_simps http_error_def)+
        then show ?thesis
          using idle run on_webhook_aside [of "?m ok" "s\<lparr>wk_alert := g\<rparr>"] by simp
      next
        case True
        then have run: "handlePaymentCallback env now rq s = on_webhook (authenticated_callback env pay tg now rq) s"
          using env on post by (simp add: handlePaymentCallback_def)
        show ?thesis
        proof (cases rule: authenticated_cases [of env pay tg now rq])
          case refused
          have "rs_status (fst (on_webhook (authenticated_callback env pay tg now rq) s)) = 400"
            using refused(2) [of "wk_world s"]
            by (cases "authenticated_callback env pay tg now rq (wk_world s)") (simp add: on_webhook_def bad_request_def http_error_def)
          then show ?thesis
            using idle run on_webhook_aside [OF refused(1), of s] by simp
        next
          case (passed p ppid body)
          then show ?thesis
            using acts [of pay ppid p tg] passed run env on post True by (auto simp: genuine_def)
        qed
      qed
    qed
  qed (use idle post in \<open>simp_all add: handlePaymentCallback_def http_error_def\<close>)
qed

text \<open>
  C36. Only a genuine callback reaches the orders: if the handler touched the database at all, the
  request was a POST with the configured merchant and secret while payments were enabled and wired,
  its body was one well-formed document of bounded size with a valid transaction id, amount, currency
  and status, and the status was one of the three that act.
\<close>

theorem only_genuine_callbacks_act:
  assumes "handlePaymentCallback env now rq s = (response, s')"
    "db (wk_world s') \<noteq> db (wk_world s) \<or> turns (wk_world s') \<noteq> turns (wk_world s)"
  shows "\<exists>pay ppid p. genuine env rq pay ppid p \<and> callback_status p \<in> {''CONFIRMED'', ''CANCELED'', ''CHARGEBACKED''}"
proof (cases rule: handled_cases [of env now rq s])
  case idle
  then show ?thesis using assms by simp
next
  case (acts pay tg ppid p)
  show ?thesis
  proof (rule ccontr)
    assume "\<not> ?thesis"
    then have "callback_status p \<noteq> ''CONFIRMED''" "callback_status p \<noteq> ''CANCELED''" "callback_status p \<noteq> ''CHARGEBACKED''"
      using acts(1) by blast+
    then have "aside (dispatch_callback env pay tg now ppid p)"
      by (simp add: dispatch_callback_def Let_def)
    moreover have "on_webhook (dispatch_callback env pay tg now ppid p) s = (response, s')"
      using acts(2) assms(1) by simp
    ultimately show False
      using on_webhook_aside [of "dispatch_callback env pay tg now ppid p" s] assms(2) by simp
  qed
qed

lemma confirmed_status:
  "fst (confirmed_callback env pay tg now ppid p w) = Inr r \<Longrightarrow> rs_status r = 200 \<Longrightarrow>
     \<exists>c w'. ConfirmPayment pay now ppid (cp_payload p) (cp_amount p) (cp_currency p) w = (Inr c, w')"
  by (cases "ConfirmPayment pay now ppid (cp_payload p) (cp_amount p) (cp_currency p) w")
     (auto simp: confirmed_callback_def tryE_def returnE_def http_error_def split: sum.splits if_splits)

lemma cancelled_status:
  "fst (cancelled_callback env pay now ppid st p w) = Inr r \<Longrightarrow> rs_status r = 200 \<Longrightarrow>
     \<exists>c w'. CancelPaymentByProvider pay now ppid st (cp_amount p) (cp_currency p) w = (Inr c, w')"
  by (cases "CancelPaymentByProvider pay now ppid st (cp_amount p) (cp_currency p) w")
     (auto simp: cancelled_callback_def tryE_def returnE_def http_error_def split: sum.splits if_splits)

text \<open>
  C37. The provider is never told "done" for work that failed: a response with status 200 means that
  the callback was genuine, that a confirmation was carried out without an error if it was one, and
  so was a cancellation or a chargeback. Whatever failed, the provider gets an error and repeats.
\<close>

theorem acknowledged_means_done:
  assumes "handlePaymentCallback env now rq s = (response, s')" "rs_status response = 200"
  shows "\<exists>pay ppid p. genuine env rq pay ppid p
    \<and> (callback_status p = ''CONFIRMED'' \<longrightarrow>
        (\<exists>c w'. ConfirmPayment pay now ppid (cp_payload p) (cp_amount p) (cp_currency p) (wk_world s) = (Inr c, w')))
    \<and> (callback_status p \<in> {''CANCELED'', ''CHARGEBACKED''} \<longrightarrow>
        (\<exists>c w'. CancelPaymentByProvider pay now ppid (callback_status p) (cp_amount p) (cp_currency p) (wk_world s) = (Inr c, w')))"
proof (cases rule: handled_cases [of env now rq s])
  case idle
  then show ?thesis using assms by simp
next
  case (acts pay tg ppid p)
  obtain r w where run: "dispatch_callback env pay tg now ppid p (wk_world s) = (Inr r, w)"
    using dispatch_answers [of env pay tg now ppid p] unfolding answers_def by blast
  have r: "rs_status r = 200"
    using assms acts(2) run by (simp add: on_webhook_def)
  show ?thesis
  proof (rule exI [of _ pay], rule exI [of _ ppid], rule exI [of _ p], intro conjI impI)
    show "genuine env rq pay ppid p" by (rule acts(1))
    show "\<exists>c w'. ConfirmPayment pay now ppid (cp_payload p) (cp_amount p) (cp_currency p) (wk_world s) = (Inr c, w')"
      if "callback_status p = ''CONFIRMED''"
      using confirmed_status [of env pay tg now ppid p "wk_world s" r] run r that by (simp add: dispatch_callback_def)
    show "\<exists>c w'. CancelPaymentByProvider pay now ppid (callback_status p) (cp_amount p) (cp_currency p) (wk_world s) = (Inr c, w')"
      if "callback_status p \<in> {''CANCELED'', ''CHARGEBACKED''}"
      using cancelled_status [of env pay now ppid "callback_status p" p "wk_world s" r] run r that
      by (auto simp: dispatch_callback_def)
  qed
qed

end
