(* ===== verification/Web_Invite.thy ===== *)
theory Web_Invite
  imports Subscription_Laws Subserver_Cache
begin

text \<open>
  The invite landing page: \<open>HandleInvite\<close>, \<open>getExistingTrialFromCookie\<close> and \<open>getClientIP\<close> of
  \<open>internal/web/web.go\<close>.

  Pages are kept by what they show. The mutex of the server makes the count and the record of one
  visit one unit with respect to other visits; what other sessions may still do between statements
  (the clean-up forgets old requests, the clock advances) is stated where it is relied on. Splitting
  a host from its port and the class of an address are parameters.
\<close>

section \<open>The visitor's address\<close>

record peer_env =
  pr_split :: "string \<Rightarrow> string option"
  pr_local :: "string \<Rightarrow> bool"

definition getClientIP :: "peer_env \<Rightarrow> string \<Rightarrow> string \<Rightarrow> string \<Rightarrow> string" where
  "getClientIP env remoteAddr realIP forwarded =
     (case pr_split env remoteAddr of
        None \<Rightarrow> remoteAddr
      | Some host \<Rightarrow>
          if \<not> pr_local env host then host
          else if TrimSpace realIP \<noteq> [] then TrimSpace realIP
          else (case filter (\<lambda>ip. ip \<noteq> []) (map TrimSpace (rev (split_on (CHR '','') forwarded))) of
                  [] \<Rightarrow> host | ip # _ \<Rightarrow> ip))"

section \<open>The page\<close>

datatype invite_page = PageNotFound | InviteNotFound | NotAllowed | ServerError | TooManyRequests
  | TrialPage string string string int

record invite_cookie =
  ck_name :: string
  ck_value :: string
  ck_path :: string
  ck_expires :: time

record invite_response =
  iw_status :: int
  iw_page :: invite_page
  iw_cookie :: "invite_cookie option"

record invite_env =
  iv_service :: "svc_env option"
  iv_rate_limit :: int
  iv_trial_hours :: int
  iv_sub_url :: string
  iv_bot :: string
  iv_check :: time
  iv_count :: time
  iv_create :: time
  iv_cookie_time :: time

record invite_request =
  iq_method :: string
  iq_path :: string
  iq_cookie :: "string \<Rightarrow> string option"
  iq_ip :: string

definition page :: "int \<Rightarrow> invite_page \<Rightarrow> invite_response" where
  "page status p = \<lparr>iw_status = status, iw_page = p, iw_cookie = None\<rparr>"

definition telegram_link :: "invite_env \<Rightarrow> string \<Rightarrow> string" where
  "telegram_link env subID = ''https://t.me/'' @ iv_bot env @ ''?start=trial_'' @ subID"

definition trial_cookie :: "string \<Rightarrow> string" where
  "trial_cookie code = ''rs8kvn_trial_'' @ code"

definition getExistingTrialFromCookie :: "invite_env \<Rightarrow> invite_request \<Rightarrow> string \<Rightarrow> (world, subscription option) op" where
  "getExistingTrialFromCookie env rq code =
     (case iq_cookie rq (trial_cookie code) of
        None \<Rightarrow> returnE None
      | Some subID \<Rightarrow>
          if subID = [] then returnE None
          else tryE (GetTrialSubscriptionBySubID subID) (\<lambda>found.
            case found of
              Inl e \<Rightarrow> if sub_missing e then returnE None else failE e
            | Inr sub \<Rightarrow>
                if 0 < s_telegram_id sub then returnE None
                else bindE (GetPlanByID (s_plan_id sub)) (\<lambda>plan.
                  returnE (if pl_name plan \<noteq> TrialPlanName then None
                           else if (case s_expires_at sub of None \<Rightarrow> False | Some t \<Rightarrow> t < iv_check env) then None
                           else Some sub))))"

definition new_trial :: "invite_env \<Rightarrow> string \<Rightarrow> (world, invite_response) op" where
  "new_trial env code =
     (case iv_service env of
        None \<Rightarrow> returnE (page 500 ServerError)
      | Some svc \<Rightarrow>
          tryE (CreateTrial svc (iv_create env) code) (\<lambda>made.
          case made of
            Inl e \<Rightarrow> returnE (page 500 ServerError)
          | Inr sub \<Rightarrow>
              returnE \<lparr>iw_status = 200,
                iw_page = TrialPage (s_subscription_id sub) (sv_sub_url svc (s_subscription_id sub))
                            (telegram_link env (s_subscription_id sub)) (iv_trial_hours env),
                iw_cookie = Some \<lparr>ck_name = trial_cookie code, ck_value = s_subscription_id sub, ck_path = ''/i/'' @ code,
                                   ck_expires = iv_cookie_time env + iv_trial_hours env * hour\<rparr>\<rparr>))"

definition limited_trial :: "invite_env \<Rightarrow> string \<Rightarrow> string \<Rightarrow> (world, invite_response) op" where
  "limited_trial env ip code =
     tryE (CountTrialRequestsByIPLastHour (iv_count env) ip) (\<lambda>counted.
     case counted of
       Inl e \<Rightarrow> returnE (page 500 ServerError)
     | Inr n \<Rightarrow>
         if iv_rate_limit env \<le> int n then returnE (page 429 TooManyRequests)
         else tryE (CreateTrialRequest ip) (\<lambda>recorded.
              case recorded of
                Inl e \<Rightarrow> returnE (page 500 ServerError)
              | Inr _ \<Rightarrow> new_trial env code))"

definition HandleInvite :: "invite_env \<Rightarrow> invite_request \<Rightarrow> (world, invite_response) op" where
  "HandleInvite env rq =
     (if iq_method rq \<noteq> ''GET'' then returnE (page 405 NotAllowed)
      else if \<not> has_prefix (iq_path rq) ''/i/'' then returnE (page 404 PageNotFound)
      else let code = drop 3 (iq_path rq) in
        if code = [] \<or> CHR ''/'' \<in> set code \<or> \<not> SubIDRegex code then returnE (page 404 InviteNotFound)
        else tryE (GetInviteByCode code) (\<lambda>invite.
          case invite of
            Inl e \<Rightarrow> returnE (page 404 InviteNotFound)
          | Inr i \<Rightarrow>
              tryE (getExistingTrialFromCookie env rq code) (\<lambda>existing.
              case existing of
                Inr (Some sub) \<Rightarrow>
                  returnE (page 200 (TrialPage (s_subscription_id sub) (iv_sub_url env @ s_subscription_id sub)
                    (telegram_link env (s_subscription_id sub)) (iv_trial_hours env)))
              | _ \<Rightarrow> limited_trial env (iq_ip rq) code)))"

section \<open>The limit\<close>

text \<open>What the other sessions may do: forget requests and let time pass.\<close>

definition requests_shrink :: "db \<Rightarrow> db \<Rightarrow> bool" where
  "requests_shrink d d' \<longleftrightarrow> (\<exists>P. trial_requests d' = filter P (trial_requests d)) \<and> row_clock d \<le> row_clock d'"

lemma requests_same: "trial_requests d' = trial_requests d \<Longrightarrow> row_clock d' = row_clock d \<Longrightarrow> requests_shrink d d'"
  unfolding requests_shrink_def by (intro conjI exI [of _ "\<lambda>_. True"]) simp_all

interpretation shrink: db_contract requests_shrink
proof
  show "requests_shrink d d" for d by (rule requests_same) simp_all
  show "requests_shrink d f" if "requests_shrink d e" "requests_shrink e f" for d e f
    using that unfolding requests_shrink_def by (metis filter_filter order_trans)
qed

lemma trial_writes_shrink:
  "insert_subscription s d = Inr (s', d') \<Longrightarrow> requests_shrink d d'"
  "requests_shrink d (snd (append_audit e d))"
  by (auto intro!: requests_same dest: insert_subscription_ok simp: append_audit_def Let_def)

lemma vpn_shrink: "keeps (on_db requests_shrink) (vpnE env c i p)"
  by (rule keepsI) (simp add: on_db_def vpnE_def shrink.db_refl split: option.split)

lemma generate_shrink: "keeps (on_db requests_shrink) (generateE g)"
  by (rule keepsI) (simp add: on_db_def generateE_def shrink.db_refl)

lemma best_effort_shrink: "keeps (on_db requests_shrink) m \<Longrightarrow> keeps (on_db requests_shrink) (best_effort m)"
  unfolding best_effort_def by (intro shrink.db_combinators)

lemma CreateTrial_shrink: "keeps (on_db requests_shrink) (CreateTrial env now code)"
  unfolding CreateTrial_def CreateTrialSubscription_def trialNodes_def RefreshActiveSubscriptionsMetric_def logAudit_def
    InsertAuditLog_def GetPlanByName_def GetNodesByPlanName_def CountActiveSubscriptions_def CountPremiumSubscriptions_def
    CountFreeSubscriptions_def CountTrialSubscriptions_def Let_def
  by (intro shrink.db_combinators shrink.stmtE_keeps shrink.execE_keeps vpn_shrink generate_shrink best_effort_shrink
      trial_writes_shrink)

lemma new_trial_shrink: "keeps (on_db requests_shrink) (new_trial env code)"
  unfolding new_trial_def
  by (intro shrink.db_combinators CreateTrial_shrink)

lemma existing_shrink: "keeps (on_db requests_shrink) (getExistingTrialFromCookie env rq code)"
  unfolding getExistingTrialFromCookie_def GetTrialSubscriptionBySubID_def GetPlanByID_def
  by (intro shrink.db_combinators)

definition requests_of :: "string \<Rightarrow> time \<Rightarrow> time \<Rightarrow> trial_request list \<Rightarrow> nat" where
  "requests_of ip lo hi rs = count_where (\<lambda>r. tr_ip r = ip \<and> lo < tr_created_at r \<and> tr_created_at r \<le> hi) rs"

definition rate_ok :: "int \<Rightarrow> db \<Rightarrow> bool" where
  "rate_ok limit d \<longleftrightarrow> (\<forall>ip t. int (requests_of ip (t - hour) t (trial_requests d)) \<le> limit)"

lemma requests_filter: "requests_of ip lo hi (filter P rs) \<le> requests_of ip lo hi rs"
  by (induction rs) (simp_all add: requests_of_def count_where_def)

lemma count_where_filter: "count_where Q (filter P rs) \<le> count_where Q rs"
  by (induction rs) (simp_all add: count_where_def)

lemma requests_shrink_count:
  "requests_shrink d d' \<Longrightarrow> count_where Q (trial_requests d') \<le> count_where Q (trial_requests d)"
  by (auto simp: requests_shrink_def count_where_filter)

lemma requests_shrink_clock: "requests_shrink d d' \<Longrightarrow> n \<le> row_clock d \<Longrightarrow> n \<le> row_clock d'"
  by (simp add: requests_shrink_def)

lemma rate_ok_shrink: "requests_shrink d d' \<Longrightarrow> rate_ok limit d \<Longrightarrow> rate_ok limit d'"
  unfolding requests_shrink_def rate_ok_def using requests_filter by (metis of_nat_le_iff order_trans)

lemma counted_ok:
  assumes "rate_ok limit d" "now \<le> row_clock d"
    "int (count_where (\<lambda>r. tr_ip r = ip \<and> now - hour < tr_created_at r) (trial_requests d)) < limit"
  shows "rate_ok limit (d\<lparr>trial_requests := trial_requests d @ [\<lparr>tr_ip = ip, tr_created_at = row_clock d\<rparr>]\<rparr>)"
  unfolding rate_ok_def
proof (intro allI)
  fix other t
  let ?new = "\<lparr>tr_ip = ip, tr_created_at = row_clock d\<rparr>"
  show "int (requests_of other (t - hour) t (trial_requests (d\<lparr>trial_requests := trial_requests d @ [?new]\<rparr>))) \<le> limit"
  proof (cases "other = ip \<and> t - hour < row_clock d \<and> row_clock d \<le> t")
    case True
    have "requests_of ip (t - hour) t rs \<le> count_where (\<lambda>r. tr_ip r = ip \<and> now - hour < tr_created_at r) rs" for rs
      using True assms(2) by (induction rs) (auto simp: requests_of_def count_where_def)
    from this [of "trial_requests d"] show ?thesis
      using True assms(3) by (simp add: requests_of_def count_where_def)
  next
    case False
    then have "requests_of other (t - hour) t (trial_requests d @ [?new]) = requests_of other (t - hour) t (trial_requests d)"
      by (auto simp: requests_of_def count_where_def)
    then show ?thesis using assms(1) by (simp add: rate_ok_def)
  qed
qed

lemma stmt_total:
  obtains e where "stmtE (\<lambda>d. Inr (g d)) w = (Inl e, step_turn w)"
  | "stmtE (\<lambda>d. Inr (g d)) w = (Inr (fst (g (db (step_other w)))), (step_other w)\<lparr>db := snd (g (db (step_other w)))\<rparr>)"
  by (cases "next_turn w"; cases "g (db (step_other w))") (simp_all add: stmtE_def run_stmt_def)

lemma rely_other: "rely requests_shrink w \<Longrightarrow> requests_shrink (db w) (db (step_other w))"
  by (rule shrink.step_other_R)

lemma limited_rate_ok:
  assumes "rate_ok (iv_rate_limit env) (db w)" "rely requests_shrink w" "iv_count env \<le> row_clock (db w)"
  shows "rate_ok (iv_rate_limit env) (db (snd (limited_trial env ip code w)))"
proof -
  let ?L = "iv_rate_limit env"
  let ?n = "\<lambda>d. count_where (\<lambda>r. tr_ip r = ip \<and> iv_count env - hour < tr_created_at r) (trial_requests d)"
  let ?w1 = "step_other w"
  have 1: "rate_ok ?L (db ?w1)" "rely requests_shrink ?w1" "iv_count env \<le> row_clock (db ?w1)"
    by (rule rate_ok_shrink [OF rely_other [OF assms(2)] assms(1)])
       (rule rely_step_other [OF assms(2)],
        rule requests_shrink_clock [OF rely_other [OF assms(2)] assms(3)])
  consider e where "CountTrialRequestsByIPLastHour (iv_count env) ip w = (Inl e, step_turn w)"
    | "CountTrialRequestsByIPLastHour (iv_count env) ip w = (Inr (?n (db ?w1)), ?w1)"
    unfolding CountTrialRequestsByIPLastHour_def query_def
    by (rule stmt_total [of "\<lambda>d. (?n d, d)" w]) simp_all
  then show ?thesis
  proof cases
    case 1
    then show ?thesis using assms(1) by (simp add: limited_trial_def tryE_def returnE_def step_turn_def)
  next
    case 2
    show ?thesis
    proof (cases "?L \<le> int (?n (db ?w1))")
      case True
      then show ?thesis using 2 1(1) by (simp add: limited_trial_def tryE_def returnE_def)
    next
      case False
      let ?w2 = "step_other ?w1"
      let ?w3 = "?w2\<lparr>db := (db ?w2)\<lparr>trial_requests := trial_requests (db ?w2) @ [\<lparr>tr_ip = ip, tr_created_at = row_clock (db ?w2)\<rparr>]\<rparr>\<rparr>"
      have s: "requests_shrink (db ?w1) (db ?w2)" by (rule rely_other [OF 1(2)])
      have w2: "rate_ok ?L (db ?w2)" "rely requests_shrink ?w2" "iv_count env \<le> row_clock (db ?w2)"
        by (rule rate_ok_shrink [OF s 1(1)]) (rule rely_step_other [OF 1(2)], rule requests_shrink_clock [OF s 1(3)])
      have "int (?n (db ?w2)) < ?L"
        using False requests_shrink_count [OF s, of "\<lambda>r. tr_ip r = ip \<and> iv_count env - hour < tr_created_at r"] by linarith
      then have w3: "rate_ok ?L (db ?w3)"
        using counted_ok [OF w2(1,3), of ip] by simp
      consider e where "CreateTrialRequest ip ?w1 = (Inl e, step_turn ?w1)"
        | "CreateTrialRequest ip ?w1 = (Inr (), ?w3)"
        unfolding CreateTrialRequest_def execE_def
        by (rule stmt_total [of "\<lambda>d. ((), d\<lparr>trial_requests := trial_requests d @ [\<lparr>tr_ip = ip, tr_created_at = row_clock d\<rparr>]\<rparr>)" ?w1]) simp_all
      then show ?thesis
      proof cases
        case 1
        then show ?thesis
          using 2 False \<open>rate_ok ?L (db ?w1)\<close> by (simp add: limited_trial_def tryE_def returnE_def step_turn_def)
      next
        case created: 2
        have "rely requests_shrink ?w3" using w2(2) by simp
        then have "requests_shrink (db ?w3) (db (snd (new_trial env code ?w3)))"
          by (rule keeps_run(1) [OF new_trial_shrink _ surjective_pairing])
        then have "rate_ok ?L (db (snd (new_trial env code ?w3)))" by (rule rate_ok_shrink [OF _ w3])
        then show ?thesis
          using 2 False created by (simp add: limited_trial_def tryE_def)
      qed
    qed
  qed
qed

lemma invite_shrink: "keeps (on_db requests_shrink) (GetInviteByCode code)"
  unfolding GetInviteByCode_def by (intro shrink.db_combinators)

text \<open>The page for a new visitor, after the statements before it.\<close>

lemma limited_after:
  assumes "keeps (on_db requests_shrink) m" "m w = (r, w')"
    "rate_ok (iv_rate_limit env) (db w)" "rely requests_shrink w" "iv_count env \<le> row_clock (db w)"
  shows "rate_ok (iv_rate_limit env) (db w')" "rely requests_shrink w'" "iv_count env \<le> row_clock (db w')"
  by (rule rate_ok_shrink [OF keeps_run(1) [OF assms(1,4,2)] assms(3)], rule keeps_run(2) [OF assms(1,4,2)],
      rule requests_shrink_clock [OF keeps_run(1) [OF assms(1,4,2)] assms(5)])

text \<open>
  C38. The limit on trials is never exceeded: if at most the configured number of trial requests of
  any address falls into any hour, the same holds after the landing page has answered a visitor,
  whatever it answered and whatever failed on the way. The other sessions may forget requests and let
  time pass; the count and the record of other visits wait for the mutex.
\<close>

theorem trial_rate_limit_kept:
  assumes "rate_ok (iv_rate_limit env) (db w)" "rely requests_shrink w" "iv_count env \<le> row_clock (db w)"
  shows "rate_ok (iv_rate_limit env) (db (snd (HandleInvite env rq w)))"
proof -
  let ?code = "drop 3 (iq_path rq)"
  obtain r1 w1 where 1: "GetInviteByCode ?code w = (r1, w1)" by (cases "GetInviteByCode ?code w")
  note s1 = limited_after [OF invite_shrink 1 assms]
  obtain r2 w2 where 2: "getExistingTrialFromCookie env rq ?code w1 = (r2, w2)"
    by (cases "getExistingTrialFromCookie env rq ?code w1")
  note s2 = limited_after [OF existing_shrink 2 s1]
  show ?thesis
    using limited_rate_ok [OF s2, of "iq_ip rq" ?code] assms(1) s1(1) s2(1)
    by (auto simp: HandleInvite_def Let_def tryE_def returnE_def 1 2 split: sum.split option.split)
qed

end
