(* ===== verification/Web_Witnesses.thy ===== *)
theory Web_Witnesses
  imports Web_Callback Web_Invite Payment_Witnesses Traffic_Witnesses
begin

text \<open>
  The properties of the web handlers, applied to the sample installation: a payment confirmed by the
  provider, and a visitor of an invite page.
\<close>

section \<open>A confirmed payment\<close>

definition confirmed_payload :: callback_payload where
  "confirmed_payload = \<lparr>cp_id = ''p1'', cp_amount = ''199.00'', cp_currency = ''RUB'', cp_status = ''CONFIRMED'', cp_payment_method = None, cp_payload = []\<rparr>"

definition sample_webhook_env :: webhook_env where
  "sample_webhook_env =
     \<lparr>wh_config = Some \<lparr>cfg_enabled = True, cfg_merchant = ''m'', cfg_secret = ''s''\<rparr>, wh_ready = True,
      wh_orders = Some good_pay, wh_bot = Some good_svc, wh_decode = (\<lambda>_. Some (confirmed_payload, True)),
      wh_traffic = Some quota_env, wh_today = day0, wh_text = (\<lambda>_. [])\<rparr>"

definition sample_callback :: callback_request where
  "sample_callback =
     \<lparr>cr_method = ''POST'', cr_headers = (\<lambda>h. if h = ''X-Merchantid'' then ''m'' else ''s''), cr_body = Some ''c''\<rparr>"

definition webhook_of :: "db \<Rightarrow> webhook" where
  "webhook_of d = \<lparr>wk_world = world_of d, wk_alert = NewIntervalGate hour 16\<rparr>"

abbreviation callback :: "http_response \<times> webhook" where
  "callback \<equiv> handlePaymentCallback sample_webhook_env day0 sample_callback (webhook_of db0)"

lemma sample_accepted: "rs_status (fst callback) = 200"
  by code_simp

lemma sample_sends: "orders (db (wk_world (snd callback))) \<noteq> orders db0" "trace (wk_world (snd callback)) \<noteq> []"
  by code_simp+

lemma callback_run: "handlePaymentCallback sample_webhook_env day0 sample_callback (webhook_of db0) = (fst callback, snd callback)"
  by simp

lemma only_genuine_callbacks_act_witness:
  "\<exists>pay ppid p. genuine sample_webhook_env sample_callback pay ppid p
     \<and> callback_status p \<in> {''CONFIRMED'', ''CANCELED'', ''CHARGEBACKED''}"
proof (rule only_genuine_callbacks_act [OF callback_run])
  have "db (wk_world (snd callback)) \<noteq> db0"
    using sample_sends(1) by metis
  then show "db (wk_world (snd callback)) \<noteq> db (wk_world (webhook_of db0))
      \<or> turns (wk_world (snd callback)) \<noteq> turns (wk_world (webhook_of db0))"
    by (simp add: webhook_of_def)
qed

lemma acknowledged_means_done_witness:
  "\<exists>c w'. ConfirmPayment good_pay day0 ''p1'' [] ''199.00'' ''RUB'' (world_of db0) = (Inr c, w')"
proof -
  obtain pay ppid p where g: "genuine sample_webhook_env sample_callback pay ppid p"
    and c: "callback_status p = ''CONFIRMED'' \<Longrightarrow>
      \<exists>c w'. ConfirmPayment pay day0 ppid (cp_payload p) (cp_amount p) (cp_currency p) (wk_world (webhook_of db0)) = (Inr c, w')"
    using acknowledged_means_done [OF callback_run sample_accepted] by blast
  have p: "pay = good_pay" "p = confirmed_payload"
    using g by (simp_all add: genuine_def sample_webhook_env_def)
  have s: "callback_status confirmed_payload = ''CONFIRMED''" "ParseTransactionID (pe_uuid good_pay) (cp_id confirmed_payload) = Inr ''p1''"
    by code_simp+
  have "ppid = ''p1''"
    using g p s(2) by (simp add: genuine_def)
  then show ?thesis
    using c s(1) p by (simp add: webhook_of_def confirmed_payload_def)
qed

section \<open>A visitor\<close>

definition invited_db :: db where
  "invited_db = db0\<lparr>invites := [\<lparr>i_code = ''ab'', i_referrer_tg_id = 100, i_created_at = day0\<rparr>],
     plan_nodes := [(1, 1), (2, 1), (3, 1)]\<rparr>"

definition sample_invite_env :: invite_env where
  "sample_invite_env = \<lparr>iv_service = Some good_svc, iv_rate_limit = 1, iv_trial_hours = 3, iv_sub_url = [], iv_bot = ''b'',
     iv_check = day0, iv_count = day0, iv_create = day0, iv_cookie_time = day0\<rparr>"

definition visit :: invite_request where
  "visit = \<lparr>iq_method = ''GET'', iq_path = ''/i/ab'', iq_cookie = (\<lambda>_. None), iq_ip = ''9''\<rparr>"

lemma sample_visit:
  "length (trial_requests (db (snd (HandleInvite sample_invite_env visit (world_of invited_db))))) = 1"
  "map_sum (\<lambda>e. e) iw_status (fst (HandleInvite sample_invite_env visit (world_of invited_db))) = Inr 200"
  by code_simp+

lemma trial_rate_limit_kept_witness:
  "rate_ok 1 (db (snd (HandleInvite sample_invite_env visit (world_of invited_db))))
   \<and> length (trial_requests (db (snd (HandleInvite sample_invite_env visit (world_of invited_db))))) = 1"
proof -
  have "rate_ok (iv_rate_limit sample_invite_env) (db (world_of invited_db))"
    "iv_count sample_invite_env \<le> row_clock (db (world_of invited_db))"
    by (simp_all add: rate_ok_def requests_of_def count_where_def invited_db_def db0_def sample_invite_env_def)
  from trial_rate_limit_kept [OF this(1) _ this(2), of visit] sample_visit(1) show ?thesis
    by (simp add: sample_invite_env_def)
qed

end
