(* ===== verification/Spec2Isabelle.thy ===== *)
theory Spec2Isabelle
  imports Payment_Witnesses Traffic_Witnesses Keyed_Lock Flow_Witnesses Delivery_Witnesses Web_Witnesses
begin

text \<open>
  A verification development for rs8kvn_bot, a Telegram bot that sells VPN subscriptions: it takes
  payments, keeps subscriptions and their plans in a SQLite database, provisions the clients of the
  subscriptions on a set of VPN panels ("nodes"), delivers the client profiles over HTTP, watches
  traffic quotas and sends broadcasts.

  \<^bold>\<open>The program and its parts.\<close> The bot (\<open>internal/bot\<close>), the HTTP front end (\<open>internal/web\<close>,
  \<open>internal/subserver\<close>) and timer loops (\<open>internal/scheduler\<close>) call the services of
  \<open>internal/service\<close>; these own the business rules and talk to the database layer
  \<open>internal/database\<close>, to the payment provider (\<open>internal/service/payment/platega\<close>) and, through
  \<open>internal/vpn\<close>, to the panels. A payment or an expiry changes a subscription's plan in one
  transaction together with its bindings to nodes; a background loop then brings the panels in
  step with the bindings, retrying with a growing pause.

  \<^bold>\<open>The state.\<close> A \<open>world\<close> is the database (a record of tables, each a list of rows in primary key
  order), the script of turns the database takes, and the trace of effects outside the database.
  An operation maps a world to a result (\<open>Inl\<close> an error, \<open>Inr\<close> a value) and a world. Each statement
  consumes a turn: it runs, fails with a driver error, or another session's committed change comes
  first. A theorem over all worlds thus holds for every failure position and every interleaving at
  the granularity of statements; a transaction holds the database alone (SQLite has one writer)
  and takes effect as a whole or not at all. The clock is a parameter of the operations. State kept
  in memory (draft sessions, caches, gates, locks, flights) is a record of its own, and where
  goroutines share it their critical sections are the steps of an \<open>inductive\<close> relation.

  \<^bold>\<open>Theories: the ground.\<close>
  \<^item> \<open>Prelude\<close>: time, Go strings and \<open>strconv\<close>, errors, the operation combinators, SQL on lists,
    and the contract of an operation (\<open>keeps R op\<close>). \<open>Base64\<close>: Go's \<open>encoding/base64\<close> with the proof
    that decoding inverts encoding.
  \<^item> \<open>Model\<close>: the rows of \<open>database/models.go\<close>, \<open>db\<close>, \<open>world\<close>, statements and transactions; the locale
    \<open>db_contract\<close>, from which every operation inherits a table's contract.

  \<^bold>\<open>Theories: the database layer\<close> (\<open>internal/database\<close>).
  \<^item> \<open>Audit_Log\<close>: \<open>audit_log.go\<close>, \<open>audit_log_repo.go\<close>. Contract \<open>journal_grows\<close>.
  \<^item> \<open>Catalog\<close>: \<open>products.go\<close>, \<open>plans.go\<close>, \<open>nodes.go\<close>, \<open>invites.go\<close>.
  \<^item> \<open>Order_Store\<close>, \<open>Order_Laws\<close>: \<open>orders.go\<close>. Contract \<open>orders_evolve\<close>: the unique indexes hold,
    ids are not reused, commercial terms are immutable, the status moves forward only.
  \<^item> \<open>Node_Store\<close>: \<open>subscription_nodes.go\<close>. Contract \<open>bindings_keep\<close>.
  \<^item> \<open>Subscription_Store\<close>: \<open>subscriptions.go\<close>, \<open>trials.go\<close>. Contract \<open>subs_evolve\<close>.
  \<^item> \<open>Reminder_Store\<close>: \<open>subscription_reminders.go\<close> and \<open>subscription_traffic.go\<close>, the bits of the notices.
  \<^item> \<open>Broadcast_Store\<close>: \<open>broadcasts.go\<close>, \<open>broadcast_recipients.go\<close>: campaigns, their audience, the
    snapshot and the leases of the recipients. The JSON columns are kept decoded, \<open>None\<close> being a text
    that does not decode.

  \<^bold>\<open>Theories: the services\<close> (\<open>internal/service\<close>).
  \<^item> \<open>Plan_Reconcile\<close>: \<open>plan_reconcile.go\<close>. The reconciliation core over its store interface (a record
    of operations), the transition table \<open>reconcile_row\<close> as its specification, the locale
    \<open>plan_node_store\<close> with both adapters as interpretations.
  \<^item> \<open>Sync_Service\<close>, \<open>Sync_Laws\<close>: \<open>sync.go\<close>, \<open>sync_tx.go\<close>. The panels are an environment: arbitrary
    functions of the trace so far. The laws say which calls are made, when a binding is marked in
    step, that the retry ladder ends, and that synchronisation converges to the plan, in the bindings
    and in what the panels were told (\<open>provisioned\<close>, \<open>removed_from\<close>).
  \<^item> \<open>Platega\<close>: the payment provider's formats (\<open>payment/platega\<close>). The UUID parser is a parameter.
  \<^item> \<open>Subscription_Service\<close>: \<open>subscription.go\<close>, \<open>subscription_reminders.go\<close>: creation, deletion,
    trials, plan changes by an administrator, reminders. \<open>Subscription_Laws\<close>: the locales
    \<open>store_base\<close>, \<open>store_updates\<close>, \<open>store_statements\<close>: a table's contract passes from the statements to
    every service operation; each contract is an interpretation. \<open>store_updates\<close> asks for updates of
    orders that make none claimable, which all but a request for a payment get by with.
  \<^item> \<open>Order_Service\<close>: \<open>order.go\<close>: requesting, confirming, cancelling and reconciling payments.
    \<open>Order_Service_Laws\<close>, \<open>Confirmation_Laws\<close>, \<open>Request_Laws\<close>, \<open>Background_Laws\<close>: a confirmed
    payment grants the plan once and in one transaction; a chargeback takes it away when nothing else
    covers it; a request is priced from the catalogue and no order is charged twice through any
    \<open>payment_history\<close> (the contract \<open>claims_keep\<close> of a claimed order); the two background passes over
    orders end.
  \<^item> \<open>Keyed_Lock\<close>: \<open>lockPayment\<close> of \<open>order.go\<close> and \<open>lockSubscription\<close> of \<open>sync.go\<close> as step relations of
    threads.
  \<^item> \<open>Traffic_Calendar\<close>, \<open>Traffic_Service\<close>, \<open>Traffic_Laws\<close>, \<open>Traffic_Card\<close>: \<open>subscription_traffic.go\<close>,
    \<open>subscription_traffic_notifications.go\<close>, the calendar and the byte counts of
    \<open>subscription_presentation.go\<close>, a pass of the traffic worker: who is re-enabled, which notice is
    sent, which day the card names.
  \<^item> \<open>Deactivation\<close>: \<open>subscription_deactivate.go\<close>, the recipients who blocked the bot.

  \<^bold>\<open>Theories: the bot\<close> (\<open>internal/bot\<close>).
  \<^item> \<open>Telegram_Text\<close>: \<open>splitMessage\<close> of \<open>admin.go\<close> on UTF-8 byte strings, the limits and the plain
    escaping functions, amounts of money.
  \<^item> \<open>Broadcast_Worker\<close>: \<open>broadcast_worker.go\<close>, \<open>broadcast_errors.go\<close>, \<open>message_sender.go\<close>: a campaign
    from claim to report. \<open>Broadcast_Laws\<close>, \<open>Broadcast_Claims\<close>, \<open>Broadcast_Outcome\<close>: an outcome is
    final, the launch returns, the checkpoint and the final status tell the truth.
  \<^item> \<open>Broadcast_Flow\<close>, \<open>Broadcast_Presses\<close>, \<open>Broadcast_Launch\<close>: the draft of a broadcast
    (\<open>broadcast_flow.go\<close>, \<open>broadcast_filters.go\<close>) as handlers that read a copy of the session and later
    write it back; the shape of a session is an invariant of the interleaved steps, and a claim
    lets one confirmation create the campaign.
  \<^item> \<open>Broadcast_Callbacks\<close>: the routing of updates and presses (\<open>handler.go\<close>, \<open>callback.go\<close>,
    \<open>broadcast_callbacks.go\<close>); the menus and commands that are not broadcasts are parameters.

  \<^bold>\<open>Theories: the subscription server\<close> (\<open>internal/subserver\<close>, and the handler in \<open>internal/web/web.go\<close>).
  \<^item> \<open>Subserver_Cache\<close>: \<open>cache.go\<close>, \<open>format.go\<close>, \<open>subscription.go\<close>, and \<open>utils/gate.go\<close>. The locale
    \<open>ttl_memory\<close> derives from a few laws that a served value is the last one stored, not dropped and
    not expired; the response cache is its interpretation.
  \<^item> \<open>Single_Flight\<close>: \<open>flight.go\<close> as a step relation: one leader for a key, no follower left waiting.
  \<^item> \<open>Subserver_Headers\<close>: \<open>subscription_helpers.go\<close>: which headers pass, the usage header and the title.
  \<^item> \<open>Subserver_Sources\<close>: \<open>fetch.go\<close>, the merge of the panels and the tags of the nodes
    (\<open>subscription_handler_split.go\<close>, \<open>singbox.go\<close>, \<open>clashout.go\<close>).
  \<^item> \<open>Subserver_Delivery\<close>, \<open>Delivery_Laws\<close>: a request from the cache to the answer
    (\<open>subscription_handler.go\<close>, \<open>touch.go\<close>, \<open>handleSubscription\<close>): only an active subscription is
    served, a revoked one gets 404 at once, a truncated answer is not cached.

  \<^bold>\<open>Theories: the web handlers\<close> (\<open>internal/web/web.go\<close>).
  \<^item> \<open>Web_Callback\<close>: the webhook of the payment provider, from the headers to the answer: only a genuine
    callback reaches the orders, and "done" is answered only for work that was done.
  \<^item> \<open>Web_Invite\<close>: the invite page and the visitor's address; the limit on trials per hour and address
    is an invariant of the page.

  \<^bold>\<open>Witnesses.\<close> \<open>Samples\<close> is a small installation; \<open>Witnesses\<close>, \<open>Subscription_Witnesses\<close>,
  \<open>Payment_Witnesses\<close>, \<open>Broadcast_Witnesses\<close>, \<open>Flow_Witnesses\<close>, \<open>Traffic_Witnesses\<close>,
  \<open>Delivery_Witnesses\<close>, \<open>Web_Witnesses\<close> instantiate every property with a hypothesis by a run evaluated from the
  definitions.

  \<^bold>\<open>Bounds.\<close> A loop over a list that is fixed when the loop starts is recursion on it. The two passes
  over the orders, which ask the database for the next page until it is empty, and the loop of a
  campaign over its recipients are \<open>partial_function (option)\<close>; \<open>payment_passes_end\<close> and
  \<open>processCampaign_returns\<close> prove that they return. Eviction, \<open>freeProxyTag\<close> and the splitting of
  runes are functions with a measure. The search for the next monthly reset looks at thirteen months, as
  the code does, and \<open>nextMonthlyReset_least\<close> shows that is enough. \<open>int64\<close> and
  \<open>uint64\<close> values carry their range checks or wrap-around where the code depends on them.

  \<^bold>\<open>Simplifications.\<close> Go's map iteration order is arbitrary; the model uses the order of a list, and
  where a result depends on it the list is part of the statement. A batch of a broadcast and a
  fan-out over panels run in list order: their goroutines write disjoint slots. Moscow time is UTC+3.
  \<open>trim_space\<close> trims the ASCII white space only, where \<open>strings.TrimSpace\<close> also trims the Unicode one, and
  \<open>generateTrialTelegramID\<close> sums bytes, where the code sums runes; the two agree on ASCII texts, which
  identifiers are. Some critical sections that follow each other are one step: \<open>getBroadcastSession\<close>
  reads a session and drops an expired one, \<open>flight_leave\<close> forgets the call and wakes its followers,
  \<open>cleanup\<close> collects the expired entries and then removes them. The mutex \<open>trialRateMu\<close> of the invite page is not a step:
  that other visits wait is the relation \<open>requests_shrink\<close> the page relies on.
  The texts of messages are kept by template. Log output, metrics and the columns no decision reads
  (\<open>updated_at\<close>) are left out.

  \<^bold>\<open>Not modelled.\<close> Floating-point percentages and progress bars, \<open>EscapeMarkdownV2\<close> (regular
  expressions), the JSON, YAML and share-link parsers and the profile templates of the subscription
  server, its access log; menus and commands other than the broadcasts; the health, metrics and logo
  handlers; the HTTP clients of the panels (\<open>internal/xui\<close>, \<open>internal/vpn\<close>); start-up, configuration, logging,
  metrics, backups and schema migrations. The manifest lists every part with its status.
\<close>

end
